(* ===== verification/Prelude.thy ===== *)
theory Prelude
  imports Complex_Main "HOL-Library.Char_ord" "HOL-Library.List_Lexorder" "HOL-Library.Code_Target_Nat"
begin

text \<open>
  Shared vocabulary of the development: results with errors as values, the Python string and
  container idioms the sources use, the collections of lemmas the components fill, and generic
  facts on lists that several components need.

  A Python string is a \<open>string\<close> whose characters are code points up to U+00FF; the functions
  below follow \<open>str.strip\<close>, \<open>str.startswith\<close> and \<open>dict.fromkeys\<close> on those code points.
\<close>

named_theorems contract_defs \<open>definitions of the validation contracts\<close>
named_theorems reduce_defs \<open>definitions of the event reducers\<close>
named_theorems store_defs \<open>definitions of the stores\<close>
named_theorems policy_defs \<open>definitions of the policy evaluator\<close>

section \<open>Results\<close>

type_synonym ('e, 'a) result = "'e + 'a"

fun rbind :: "('e, 'a) result \<Rightarrow> ('a \<Rightarrow> ('e, 'b) result) \<Rightarrow> ('e, 'b) result" where
  "rbind (Inl e) f = Inl e"
| "rbind (Inr x) f = f x"

fun rmap :: "('a \<Rightarrow> 'b) \<Rightarrow> ('e, 'a) result \<Rightarrow> ('e, 'b) result" where
  "rmap f (Inl e) = Inl e"
| "rmap f (Inr x) = Inr (f x)"

definition ensure :: "bool \<Rightarrow> 'e \<Rightarrow> ('e, unit) result" where
  "ensure b e = (if b then Inr () else Inl e)"

fun traverse :: "('a \<Rightarrow> ('e, 'b) result) \<Rightarrow> 'a list \<Rightarrow> ('e, 'b list) result" where
  "traverse f [] = Inr []"
| "traverse f (x # xs) = rbind (f x) (\<lambda>y. rmap (Cons y) (traverse f xs))"

fun is_ok :: "('e, 'a) result \<Rightarrow> bool" where
  "is_ok (Inl e) = False"
| "is_ok (Inr x) = True"

lemma rbind_Inr_iff [simp]: "rbind r f = Inr y \<longleftrightarrow> (\<exists>x. r = Inr x \<and> f x = Inr y)"
  by (cases r) auto

lemma rmap_Inr_iff [simp]: "rmap f r = Inr y \<longleftrightarrow> (\<exists>x. r = Inr x \<and> y = f x)"
  by (cases r) auto

lemma ensure_Inr_iff [simp]: "ensure b e = Inr u \<longleftrightarrow> b"
  by (simp add: ensure_def)

lemma ensure_simps [simp]: "ensure True e = Inr ()" "ensure False e = Inl e"
  by (simp_all add: ensure_def)

lemma is_ok_iff: "is_ok r \<longleftrightarrow> (\<exists>x. r = Inr x)"
  by (cases r) auto

lemma traverse_Inr_length: "traverse f xs = Inr ys \<Longrightarrow> length ys = length xs"
  by (induction xs arbitrary: ys) auto

lemma traverse_Inr_set: "traverse f xs = Inr ys \<Longrightarrow> y \<in> set ys \<Longrightarrow> \<exists>x \<in> set xs. f x = Inr y"
  by (induction xs arbitrary: ys) auto

lemma traverse_id: "(\<And>x. x \<in> set xs \<Longrightarrow> f x = Inr x) \<Longrightarrow> traverse f xs = Inr xs"
  by (induction xs) auto

section \<open>Strings\<close>

definition is_space :: "char \<Rightarrow> bool" where
  "is_space c \<longleftrightarrow> (let n = (of_char c :: nat) in
     (9 \<le> n \<and> n \<le> 13) \<or> (28 \<le> n \<and> n \<le> 32) \<or> n = 133 \<or> n = 160)"

definition py_lstrip :: "string \<Rightarrow> string" where
  "py_lstrip s = dropWhile is_space s"

definition py_rstrip :: "string \<Rightarrow> string" where
  "py_rstrip s = rev (dropWhile is_space (rev s))"

definition py_strip :: "string \<Rightarrow> string" where
  "py_strip s = py_rstrip (py_lstrip s)"

definition startswith :: "string \<Rightarrow> string \<Rightarrow> bool" where
  "startswith s p \<longleftrightarrow> take (length p) s = p"

definition is_digit :: "char \<Rightarrow> bool" where
  "is_digit c \<longleftrightarrow> (let n = (of_char c :: nat) in 48 \<le> n \<and> n \<le> 57)"

definition is_lower_hex :: "char \<Rightarrow> bool" where
  "is_lower_hex c \<longleftrightarrow> is_digit c \<or> (let n = (of_char c :: nat) in 97 \<le> n \<and> n \<le> 102)"

definition is_upper :: "char \<Rightarrow> bool" where
  "is_upper c \<longleftrightarrow> (let n = (of_char c :: nat) in 65 \<le> n \<and> n \<le> 90)"

definition is_lower :: "char \<Rightarrow> bool" where
  "is_lower c \<longleftrightarrow> (let n = (of_char c :: nat) in 97 \<le> n \<and> n \<le> 122)"

lemma dropWhile_idem [simp]: "dropWhile P (dropWhile P xs) = dropWhile P xs"
  by (induction xs) auto

lemma dropWhile_eq_self: "(xs \<noteq> [] \<Longrightarrow> \<not> P (hd xs)) \<Longrightarrow> dropWhile P xs = xs"
  by (cases xs) auto

lemma hd_rdrop:
  assumes "ys = rev (dropWhile P (rev xs))" and "ys \<noteq> []"
  shows "hd ys = hd xs"
proof -
  have "xs = ys @ rev (takeWhile P (rev xs))"
    using assms(1) by (metis rev_append rev_rev_ident takeWhile_dropWhile_id)
  with assms(2) show ?thesis by (metis hd_append2)
qed

lemma py_strip_idem [simp]: "py_strip (py_strip s) = py_strip s"
proof -
  define l where "l = dropWhile is_space s"
  define y where "y = rev (dropWhile is_space (rev l))"
  have "dropWhile is_space y = y"
  proof (rule dropWhile_eq_self)
    assume "y \<noteq> []"
    then have "hd y = hd l" by (rule hd_rdrop [OF y_def])
    moreover have "l \<noteq> []" using \<open>y \<noteq> []\<close> by (auto simp: y_def)
    then have "\<not> is_space (hd l)" unfolding l_def by (rule hd_dropWhile)
    ultimately show "\<not> is_space (hd y)" by simp
  qed
  moreover have "rev (dropWhile is_space (rev y)) = y" by (simp add: y_def)
  moreover have "py_strip s = y" by (simp add: py_strip_def py_lstrip_def py_rstrip_def y_def l_def)
  ultimately show ?thesis by (simp add: py_strip_def py_lstrip_def py_rstrip_def)
qed

lemma py_strip_Nil [simp]: "py_strip [] = []"
  by (simp add: py_strip_def py_lstrip_def py_rstrip_def)

lemma py_strip_no_space: "list_all (\<lambda>c. \<not> is_space c) s \<Longrightarrow> py_strip s = s"
proof -
  assume ns: "list_all (\<lambda>c. \<not> is_space c) s"
  have "dropWhile is_space xs = xs" if "list_all (\<lambda>c. \<not> is_space c) xs" for xs
    using that by (cases xs) auto
  then show ?thesis using ns by (simp add: py_strip_def py_lstrip_def py_rstrip_def list_all_rev)
qed

text \<open>
  \<open>StringConstraints(strip_whitespace=True, min_length, max_length)\<close>: the declared contract of
  every identifier, reference and code of the sources. A value is stripped, then its length is
  bounded; a violation is a validation error.
\<close>

definition bounded_str :: "nat \<Rightarrow> 'e \<Rightarrow> string \<Rightarrow> ('e, string) result" where
  "bounded_str mx e s =
     (let t = py_strip s in if 1 \<le> length t \<and> length t \<le> mx then Inr t else Inl e)"

definition bounded_opt :: "nat \<Rightarrow> 'e \<Rightarrow> string option \<Rightarrow> ('e, string option) result" where
  "bounded_opt mx e so =
     (case so of None \<Rightarrow> Inr None | Some s \<Rightarrow> rmap Some (bounded_str mx e s))"

definition clean_str :: "nat \<Rightarrow> string \<Rightarrow> bool" where
  "clean_str mx s \<longleftrightarrow> py_strip s = s \<and> 1 \<le> length s \<and> length s \<le> mx"

definition clean_opt :: "nat \<Rightarrow> string option \<Rightarrow> bool" where
  "clean_opt mx so \<longleftrightarrow> (case so of None \<Rightarrow> True | Some s \<Rightarrow> clean_str mx s)"

lemma clean_opt_simps [simp]:
  "clean_opt mx None" "clean_opt mx (Some s) \<longleftrightarrow> clean_str mx s"
  by (simp_all add: clean_opt_def)

lemma bounded_str_clean: "bounded_str mx e s = Inr t \<Longrightarrow> clean_str mx t"
  by (auto simp: bounded_str_def clean_str_def Let_def split: if_splits)

lemma bounded_str_id: "clean_str mx s \<Longrightarrow> bounded_str mx e s = Inr s"
  by (simp add: bounded_str_def clean_str_def)

lemma bounded_str_ok_iff: "bounded_str mx e s = Inr s \<longleftrightarrow> clean_str mx s"
  by (auto simp: bounded_str_id dest: bounded_str_clean)

lemma bounded_opt_clean: "bounded_opt mx e s = Inr t \<Longrightarrow> clean_opt mx t"
  by (auto simp: bounded_opt_def dest: bounded_str_clean split: option.splits)

lemma bounded_opt_id: "clean_opt mx s \<Longrightarrow> bounded_opt mx e s = Inr s"
  by (cases s) (auto simp: bounded_opt_def bounded_str_id)

text \<open>A value that a \<open>VARCHAR(n)\<close> column of PostgreSQL accepts.\<close>

definition text_fits :: "nat \<Rightarrow> string \<Rightarrow> bool" where
  "text_fits n s \<longleftrightarrow> length s \<le> n \<and> list_all (\<lambda>c. c \<noteq> char_of (0::nat)) s"

section \<open>Containers\<close>

text \<open>\<open>tuple(dict.fromkeys(values))\<close>: first occurrences, in order.\<close>

fun fromkeys :: "'a list \<Rightarrow> 'a list" where
  "fromkeys [] = []"
| "fromkeys (x # xs) = x # filter (\<lambda>y. y \<noteq> x) (fromkeys xs)"

lemma set_fromkeys [simp]: "set (fromkeys xs) = set xs"
  by (induction xs) auto

lemma distinct_fromkeys [simp]: "distinct (fromkeys xs)"
  by (induction xs) auto

lemma fromkeys_eq_Nil [simp]: "fromkeys xs = [] \<longleftrightarrow> xs = []"
  by (cases xs) auto

lemma hd_fromkeys [simp]: "xs \<noteq> [] \<Longrightarrow> hd (fromkeys xs) = hd xs"
  by (cases xs) auto

text \<open>\<open>next((x for x in xs if p(x)), None)\<close> is \<open>List.find\<close>; its characterisation by membership.\<close>

lemma find_Some_set: "List.find P xs = Some x \<Longrightarrow> x \<in> set xs \<and> P x"
  by (auto simp: find_Some_iff)

lemma find_ex_iff: "(\<exists>x. List.find P xs = Some x) \<longleftrightarrow> (\<exists>x \<in> set xs. P x)"
  by (metis find_None_iff2 not_None_eq find_Some_set)

text \<open>\<open>min(values) if values else None\<close> over optional bounds.\<close>

definition min_opt :: "'a::linorder list \<Rightarrow> 'a option" where
  "min_opt xs = (if xs = [] then None else Some (Min (set xs)))"

lemma min_opt_le: "min_opt xs = Some m \<Longrightarrow> x \<in> set xs \<Longrightarrow> m \<le> x"
  by (auto simp: min_opt_def split: if_splits)

lemma min_opt_in: "min_opt xs = Some m \<Longrightarrow> m \<in> set xs"
  by (auto simp: min_opt_def split: if_splits intro!: Min_in)

text \<open>Updating one row of a table changes a sum over it by one term.\<close>

lemma sum_update_one:
  fixes g :: "'a \<Rightarrow> 'b::ab_group_add"
  assumes "distinct xs" and "x \<in> set xs" and "\<And>y. y \<in> set xs \<Longrightarrow> P y \<longleftrightarrow> y = x"
  shows "sum_list (map g (map (\<lambda>y. if P y then f y else y) xs)) = sum_list (map g xs) - g x + g (f x)"
  using assms
proof (induction xs)
  case (Cons y xs)
  have others: "map (\<lambda>y. if P y then f y else y) zs = zs" if "\<forall>z \<in> set zs. \<not> P z" for zs
    using that by (intro map_idI) simp
  show ?case
  proof (cases "y = x")
    case True
    then have "\<forall>z \<in> set xs. \<not> P z" using Cons.prems by auto
    then show ?thesis using True others [of xs] Cons.prems(3) [of x] by (simp del: map_map)
  next
    case False
    then show ?thesis using Cons by (auto simp: algebra_simps simp del: map_map)
  qed
qed simp

end
