(* ===== verification/PyTime.thy ===== *)
theory PyTime
  imports Prelude
begin

text \<open>
  The part of Python's \<open>datetime\<close> module that the sources use: proleptic Gregorian dates with
  their ordinals, timestamps with an optional UTC offset, comparison and equality of aware
  timestamps by instant, \<open>+ timedelta\<close>, \<open>replace(hour=0, ...)\<close>, conversion to UTC,
  \<open>isoformat\<close> and \<open>fromisoformat\<close> (the ISO 8601 grammar of CPython 3.12, the interpreter the
  project pins). The last section shows that \<open>fromisoformat\<close> inverts \<open>isoformat\<close>.

  An \<open>instant\<close> counts microseconds. Two aware timestamps are equal in Python exactly when their
  instants are equal, so contract fields that are only stored and compared hold instants.
\<close>

section \<open>Dates\<close>

type_synonym instant = int

record date =
  d_year :: nat
  d_month :: nat
  d_day :: nat

definition mk_date :: "nat \<Rightarrow> nat \<Rightarrow> nat \<Rightarrow> date" where
  "mk_date y m d = \<lparr>d_year = y, d_month = m, d_day = d\<rparr>"

definition is_leap :: "nat \<Rightarrow> bool" where
  "is_leap y \<longleftrightarrow> y mod 4 = 0 \<and> (y mod 100 \<noteq> 0 \<or> y mod 400 = 0)"

definition days_in_month :: "nat \<Rightarrow> nat \<Rightarrow> nat" where
  "days_in_month y m =
     (if m = 2 then (if is_leap y then 29 else 28)
      else if m \<in> {4, 6, 9, 11} then 30 else 31)"

definition days_before_year :: "nat \<Rightarrow> int" where
  "days_before_year y =
     (let p = int y - 1 in p * 365 + p div 4 - p div 100 + p div 400)"

definition days_before_month :: "nat \<Rightarrow> nat \<Rightarrow> int" where
  "days_before_month y m = int (sum_list (map (days_in_month y) [1..<m]))"

definition ordinal_of :: "date \<Rightarrow> int" where
  "ordinal_of d = days_before_year (d_year d) + days_before_month (d_year d) (d_month d)
     + int (d_day d)"

definition valid_date :: "date \<Rightarrow> bool" where
  "valid_date d \<longleftrightarrow> 1 \<le> d_year d \<and> d_year d \<le> 9999 \<and> 1 \<le> d_month d \<and> d_month d \<le> 12
     \<and> 1 \<le> d_day d \<and> d_day d \<le> days_in_month (d_year d) (d_month d)"

text \<open>The date of an ordinal: the last year and then the last month that start before it.\<close>

fun year_down :: "nat \<Rightarrow> int \<Rightarrow> nat" where
  "year_down 0 n = 1"
| "year_down (Suc y) n = (if y = 0 \<or> days_before_year (Suc y) < n then Suc y else year_down y n)"

fun month_down :: "nat \<Rightarrow> nat \<Rightarrow> int \<Rightarrow> nat" where
  "month_down y 0 n = 1"
| "month_down y (Suc m) n =
     (if m = 0 \<or> days_before_month y (Suc m) < n then Suc m else month_down y m n)"

definition date_of_ordinal :: "int \<Rightarrow> date" where
  "date_of_ordinal n =
     (let y = year_down (Suc (nat (n div 365))) n;
          r = n - days_before_year y;
          m = month_down y 12 r
      in mk_date y m (nat (r - days_before_month y m)))"

definition days_between :: "date \<Rightarrow> date \<Rightarrow> int" where
  \<comment> \<open>\<open>(a - b).days\<close>\<close>
  "days_between a b = ordinal_of a - ordinal_of b"

section \<open>Timestamps\<close>

record datetime =
  dt_date :: date
  dt_hour :: nat
  dt_minute :: nat
  dt_second :: nat
  dt_micro :: nat
  dt_offset :: "int option" \<comment> \<open>\<open>utcoffset()\<close> in microseconds; None for a naive value\<close>

definition is_aware :: "datetime \<Rightarrow> bool" where
  "is_aware d \<longleftrightarrow> dt_offset d \<noteq> None"

definition time_micros :: "datetime \<Rightarrow> int" where
  "time_micros d =
     (int (dt_hour d) * 3600 + int (dt_minute d) * 60 + int (dt_second d)) * 1000000
     + int (dt_micro d)"

abbreviation day_micros :: int where "day_micros \<equiv> 86400000000"

definition local_micros :: "datetime \<Rightarrow> int" where
  "local_micros d = ordinal_of (dt_date d) * day_micros + time_micros d"

definition instant_of :: "datetime \<Rightarrow> instant" where
  "instant_of d = local_micros d - (case dt_offset d of None \<Rightarrow> 0 | Some off \<Rightarrow> off)"

definition of_local :: "int \<Rightarrow> int option \<Rightarrow> datetime" where
  "of_local us off =
     (let t = us mod day_micros; s = t div 1000000
      in \<lparr>dt_date = date_of_ordinal (us div day_micros),
          dt_hour = nat (s div 3600), dt_minute = nat (s div 60 mod 60),
          dt_second = nat (s mod 60), dt_micro = nat (t mod 1000000), dt_offset = off\<rparr>)"

definition to_utc :: "datetime \<Rightarrow> datetime" where
  "to_utc d = of_local (instant_of d) (Some 0)"

definition dt_add :: "datetime \<Rightarrow> int \<Rightarrow> datetime" where
  \<comment> \<open>\<open>d + timedelta\<close>, the delta in microseconds; keeps the offset\<close>
  "dt_add d us = of_local (local_micros d + us) (dt_offset d)"

definition midnight :: "datetime \<Rightarrow> datetime" where
  \<comment> \<open>\<open>d.replace(hour=0, minute=0, second=0, microsecond=0)\<close>\<close>
  "midnight d = d\<lparr>dt_hour := 0, dt_minute := 0, dt_second := 0, dt_micro := 0\<rparr>"

definition valid_datetime :: "datetime \<Rightarrow> bool" where
  "valid_datetime d \<longleftrightarrow> valid_date (dt_date d) \<and> dt_hour d < 24 \<and> dt_minute d < 60
     \<and> dt_second d < 60 \<and> dt_micro d < 1000000
     \<and> (case dt_offset d of None \<Rightarrow> True | Some off \<Rightarrow> \<bar>off\<bar> < day_micros)"

lemma ordinal_of_date_of_ordinal:
  assumes "days_before_month y m < r" "y = year_down (Suc (nat (n div 365))) n"
    "r = n - days_before_year y" "m = month_down y 12 r"
  shows "ordinal_of (date_of_ordinal n) = n"
  using assms by (simp add: date_of_ordinal_def ordinal_of_def mk_date_def Let_def)

lemma year_down_before: "0 < n \<Longrightarrow> days_before_year (year_down y n) < n"
  by (induction y) (auto simp: days_before_year_def)

lemma month_down_before: "0 < r \<Longrightarrow> days_before_month y (month_down y m r) < r"
  by (induction m) (auto simp: days_before_month_def)

lemma ordinal_of_date_of_ordinal_pos [simp]:
  assumes "0 < n" shows "ordinal_of (date_of_ordinal n) = n"
proof (rule ordinal_of_date_of_ordinal [OF _ refl refl refl])
  let ?y = "year_down (Suc (nat (n div 365))) n"
  from assms have "0 < n - days_before_year ?y"
    using year_down_before [of n "Suc (nat (n div 365))"] by simp
  then show "days_before_month ?y (month_down ?y 12 (n - days_before_year ?y))
      < n - days_before_year ?y"
    by (rule month_down_before)
qed

lemma time_of_day_split:
  fixes t :: int
  shows "((t div 1000000) div 3600 * 3600 + (t div 1000000) div 60 mod 60 * 60
     + t div 1000000 mod 60) * 1000000 + t mod 1000000 = t"
proof -
  define s where "s = t div 1000000"
  have "s div 3600 = s div 60 div 60" by (simp add: zdiv_zmult2_eq [of 60 s 60])
  then have "s div 3600 * 3600 + s div 60 mod 60 * 60 + s mod 60 = s"
    using div_mult_mod_eq [of "s div 60" 60] div_mult_mod_eq [of s 60] by linarith
  then show ?thesis
    using div_mult_mod_eq [of t 1000000] by (simp add: s_def [symmetric])
qed

lemma time_micros_of_local: "time_micros (of_local us off) = us mod day_micros"
proof -
  define t where "t = us mod day_micros"
  have "0 \<le> t" by (simp add: t_def)
  then have nn: "0 \<le> t div 1000000 div 3600" "0 \<le> t div 1000000 div 60 mod 60"
      "0 \<le> t div 1000000 mod 60" "0 \<le> t mod 1000000"
    by (simp_all only: pos_imp_zdiv_nonneg_iff zero_less_numeral pos_mod_sign)
  have "time_micros (of_local us off) =
      ((t div 1000000) div 3600 * 3600 + (t div 1000000) div 60 mod 60 * 60
       + t div 1000000 mod 60) * 1000000 + t mod 1000000"
    by (simp only: time_micros_def of_local_def Let_def datetime.simps t_def [symmetric]
        int_nat_eq nn if_True)
  also have "\<dots> = t" by (rule time_of_day_split)
  finally show ?thesis by (simp only: t_def)
qed

lemma local_micros_of_local:
  assumes "day_micros \<le> us" shows "local_micros (of_local us off) = us"
proof -
  have "0 < us div day_micros" using assms by (simp only: pos_imp_zdiv_pos_iff zero_less_numeral)
  then have "ordinal_of (dt_date (of_local us off)) = us div day_micros"
    by (simp only: of_local_def Let_def datetime.simps ordinal_of_date_of_ordinal_pos)
  then show ?thesis
    by (simp only: local_micros_def time_micros_of_local div_mult_mod_eq)
qed

lemma dt_offset_of_local [simp]: "dt_offset (of_local us off) = off"
  by (simp only: of_local_def Let_def datetime.simps)

lemma instant_of_dt_add:
  "day_micros \<le> local_micros d + us \<Longrightarrow> instant_of (dt_add d us) = instant_of d + us"
  by (simp only: instant_of_def dt_add_def local_micros_of_local dt_offset_of_local)

lemma instant_of_to_utc: "day_micros \<le> instant_of d \<Longrightarrow> instant_of (to_utc d) = instant_of d"
  by (subst instant_of_def)
    (simp only: to_utc_def local_micros_of_local dt_offset_of_local option.case diff_0_right)

lemma is_aware_simps [simp]:
  "is_aware (to_utc d)" "is_aware (dt_add d us) = is_aware d" "is_aware (midnight d) = is_aware d"
  by (simp_all add: is_aware_def to_utc_def dt_add_def midnight_def)

lemma valid_local_ge:
  assumes "valid_datetime d" shows "day_micros \<le> local_micros d"
proof -
  have "0 \<le> days_before_year (d_year (dt_date d))"
  proof -
    define p where "p = int (d_year (dt_date d)) - 1"
    have "0 \<le> p" using assms by (simp add: p_def valid_datetime_def valid_date_def)
    then have "p div 100 \<le> p * 365" "0 \<le> p div 4" "0 \<le> p div 400" by linarith+
    then show ?thesis
      by (simp add: days_before_year_def p_def [symmetric])
  qed
  moreover have "0 \<le> days_before_month (d_year (dt_date d)) (d_month (dt_date d))"
    by (simp add: days_before_month_def)
  ultimately have "1 \<le> ordinal_of (dt_date d)"
    using assms by (simp add: ordinal_of_def valid_datetime_def valid_date_def)
  moreover have "0 \<le> time_micros d" by (simp add: time_micros_def)
  ultimately show ?thesis by (simp add: local_micros_def)
qed

lemma instant_midnight_le:
  assumes "valid_datetime d"
  shows "instant_of (midnight d) \<le> instant_of d" "instant_of d < instant_of (midnight d) + day_micros"
  using assms
  by (auto simp: instant_of_def midnight_def local_micros_def time_micros_def valid_datetime_def
      split: option.splits)

section \<open>ISO 8601 printing\<close>

definition digit_char :: "nat \<Rightarrow> char" where
  "digit_char n = char_of (48 + n)"

fun pad :: "nat \<Rightarrow> nat \<Rightarrow> string" where
  "pad 0 n = []"
| "pad (Suc k) n = pad k (n div 10) @ [digit_char (n mod 10)]"

definition date_isoformat :: "date \<Rightarrow> string" where
  "date_isoformat d = pad 4 (d_year d) @ ''-'' @ pad 2 (d_month d) @ ''-'' @ pad 2 (d_day d)"

definition hms_isoformat :: "nat \<Rightarrow> nat \<Rightarrow> nat \<Rightarrow> nat \<Rightarrow> string" where
  "hms_isoformat h m s us =
     pad 2 h @ '':'' @ pad 2 m @ '':'' @ pad 2 s @ (if us = 0 then [] else ''.'' @ pad 6 us)"

definition offset_isoformat :: "int \<Rightarrow> string" where
  "offset_isoformat off =
     (let a = nat \<bar>off\<bar>; us = a mod 1000000; s = a div 1000000
      in (if off < 0 then ''-'' else ''+'') @ pad 2 (s div 3600) @ '':'' @ pad 2 (s div 60 mod 60) @
         (if s mod 60 = 0 \<and> us = 0 then []
          else '':'' @ pad 2 (s mod 60) @ (if us = 0 then [] else ''.'' @ pad 6 us)))"

definition isoformat :: "datetime \<Rightarrow> string" where
  "isoformat d = date_isoformat (dt_date d) @ ''T'' @
     hms_isoformat (dt_hour d) (dt_minute d) (dt_second d) (dt_micro d) @
     (case dt_offset d of None \<Rightarrow> [] | Some off \<Rightarrow> offset_isoformat off)"

section \<open>ISO 8601 parsing\<close>

fun parse_digits :: "nat \<Rightarrow> nat \<Rightarrow> string \<Rightarrow> (nat \<times> string) option" where
  "parse_digits 0 acc s = Some (acc, s)"
| "parse_digits (Suc k) acc [] = None"
| "parse_digits (Suc k) acc (c # s) =
     (if is_digit c then parse_digits k (acc * 10 + (of_char c - 48)) s else None)"

lemma parse_digits_code [code]:
  "parse_digits k acc s =
     (if k = 0 then Some (acc, s)
      else (case s of [] \<Rightarrow> None | c # r \<Rightarrow>
        if is_digit c then parse_digits (k - 1) (acc * 10 + (of_char c - 48)) r else None))"
  by (cases k; cases s) simp_all

definition iso_week1_monday :: "nat \<Rightarrow> int" where
  "iso_week1_monday y =
     (let first = ordinal_of (mk_date y 1 1); wd = (first + 6) mod 7
      in first - wd + (if wd > 3 then 7 else 0))"

definition iso_to_ymd :: "nat \<Rightarrow> nat \<Rightarrow> nat \<Rightarrow> date option" where
  "iso_to_ymd y w d =
     (let wd = (ordinal_of (mk_date y 1 1) + 6) mod 7 in
      if y < 1 \<or> w < 1 \<or> 53 < w \<or> (w = 53 \<and> \<not> (wd = 3 \<or> (wd = 2 \<and> is_leap y))) \<or> d < 1 \<or> 7 < d
      then None
      else Some (date_of_ordinal (iso_week1_monday y + (int w - 1) * 7 + int d - 1)))"

text \<open>The date part (length \<open>n\<close>): calendar or week dates, with or without separators.\<close>

definition parse_iso_date :: "string \<Rightarrow> date option" where
  "parse_iso_date str =
     (case parse_digits 4 0 str of None \<Rightarrow> None
      | Some (y, r0) \<Rightarrow>
        let sep = (r0 \<noteq> [] \<and> hd r0 = CHR ''-''); r1 = (if sep then tl r0 else r0) in
        if r1 \<noteq> [] \<and> hd r1 = CHR ''W'' then
          (case parse_digits 2 0 (tl r1) of None \<Rightarrow> None
           | Some (w, r2) \<Rightarrow>
             if r2 = [] then iso_to_ymd y w 1
             else if sep \<and> hd r2 \<noteq> CHR ''-'' then None
             else (case parse_digits 1 0 (if sep then tl r2 else r2) of None \<Rightarrow> None
                   | Some (d, _) \<Rightarrow> iso_to_ymd y w d))
        else
          (case parse_digits 2 0 r1 of None \<Rightarrow> None
           | Some (m, r2) \<Rightarrow>
             if sep \<and> (r2 = [] \<or> hd r2 \<noteq> CHR ''-'') then None
             else (case parse_digits 2 0 (if sep then tl r2 else r2) of None \<Rightarrow> None
                   | Some (d, _) \<Rightarrow> Some (mk_date y m d))))"

definition parse_fraction :: "string \<Rightarrow> (nat \<times> bool) option" where
  \<comment> \<open>microseconds, and whether characters that are no digits follow\<close>
  "parse_fraction str =
     (let k = min 6 (length str) in
      case parse_digits k 0 str of None \<Rightarrow> None
      | Some (us, r) \<Rightarrow> Some (us * 10 ^ (6 - k), dropWhile is_digit r \<noteq> []))"

text \<open>\<open>[HH[:?MM[:?SS[.,ffffff]]]]\<close>: the fields read, the microseconds and the left-over flag.\<close>

fun parse_hms :: "nat \<Rightarrow> bool \<Rightarrow> nat list \<Rightarrow> string \<Rightarrow> (nat list \<times> nat \<times> bool) option" where
  "parse_hms todo sep acc str =
     (case parse_digits 2 0 str of None \<Rightarrow> None
      | Some (v, []) \<Rightarrow> Some (acc @ [v], 0, False)
      | Some (v, [c]) \<Rightarrow> Some (acc @ [v], 0, True)
      | Some (v, c # r) \<Rightarrow>
        let sep' = (if acc = [] then c = CHR '':'' else sep);
            frac = (\<lambda>t. map_option (\<lambda>(us, left). (acc @ [v], us, left)) (parse_fraction t))
        in if sep' \<and> c = CHR '':'' then
             (case todo of 0 \<Rightarrow> frac r | Suc n \<Rightarrow> parse_hms n sep' (acc @ [v]) r)
           else if c = CHR ''.'' \<or> c = CHR '','' then frac r
           else if \<not> sep' then
             (case todo of 0 \<Rightarrow> frac (c # r) | Suc n \<Rightarrow> parse_hms n sep' (acc @ [v]) (c # r))
           else None)"

declare parse_hms.simps [simp del]

definition field :: "nat list \<Rightarrow> nat \<Rightarrow> nat" where
  "field vs i = (if i < length vs then vs ! i else 0)"

definition is_tz_mark :: "char \<Rightarrow> bool" where
  "is_tz_mark c \<longleftrightarrow> c = CHR ''+'' \<or> c = CHR ''-'' \<or> c = CHR ''Z''"

definition parse_iso_offset :: "string \<Rightarrow> int option" where
  "parse_iso_offset str =
     (case str of [] \<Rightarrow> None
      | c # r \<Rightarrow>
        if c = CHR ''Z'' then (if r = [] then Some 0 else None)
        else (case parse_hms 2 False [] r of
            Some (vs, us, False) \<Rightarrow>
              let a = (int (field vs 0) * 3600 + int (field vs 1) * 60 + int (field vs 2)) * 1000000
                      + int us
              in Some (if c = CHR ''-'' then - a else a)
          | _ \<Rightarrow> None))"

text \<open>Where the date ends, from characters 4, 5, 8 and 10 as CPython tells the formats apart.\<close>

definition iso_date_length :: "string \<Rightarrow> nat option" where
  "iso_date_length str =
     (let n = length str in
      if n < 7 then None
      else if n = 7 then Some 7
      else if str ! 4 = CHR ''-'' then
        (if str ! 5 = CHR ''W'' then
           (if 8 < n \<and> str ! 8 = CHR ''-'' then
              (if n = 9 then None
               else if 10 < n \<and> is_digit (str ! 10) then Some 8 else Some 10)
            else Some 8)
         else Some 10)
      else if str ! 4 = CHR ''W'' then
        (let pos = 7 + length (takeWhile is_digit (drop 7 str)) in
         if pos < 9 then Some pos else if even pos then Some 7 else Some 8)
      else Some 8)"

definition fromisoformat :: "string \<Rightarrow> datetime option" where
  "fromisoformat str =
     (case iso_date_length str of None \<Rightarrow> None
      | Some n \<Rightarrow>
        (case parse_iso_date (take n str) of None \<Rightarrow> None
         | Some d \<Rightarrow>
           let mk = (\<lambda>vs us off.
                 let v = \<lparr>dt_date = d, dt_hour = field vs 0, dt_minute = field vs 1,
                          dt_second = field vs 2, dt_micro = us, dt_offset = off\<rparr>
                 in if valid_datetime v then Some v else None);
               t = drop (Suc n) str;
               clock = takeWhile (\<lambda>c. \<not> is_tz_mark c) t;
               zone = drop (length clock) t
           in if length str \<le> Suc n then mk [] 0 None
              else (case parse_hms 2 False [] clock of None \<Rightarrow> None
                    | Some (vs, us, left) \<Rightarrow>
                      if zone = [] then (if left then None else mk vs us None)
                      else (case parse_iso_offset zone of None \<Rightarrow> None
                            | Some off \<Rightarrow> mk vs us (Some off)))))"

section \<open>Parsing inverts printing\<close>

lemma of_char_digit [simp]: "n < 10 \<Longrightarrow> (of_char (digit_char n) :: nat) = 48 + n"
  by (simp add: digit_char_def)

lemma is_digit_digit_char [simp]: "n < 10 \<Longrightarrow> is_digit (digit_char n)"
  by (simp add: is_digit_def)

lemma length_pad [simp]: "length (pad k n) = k"
  by (induction k arbitrary: n) auto

lemma pad_digits: "c \<in> set (pad k n) \<Longrightarrow> is_digit c"
  by (induction k arbitrary: n) auto

lemma parse_digits_append:
  "parse_digits (j + k) acc (xs @ ys) =
     (case parse_digits j acc xs of None \<Rightarrow> None | Some (v, r) \<Rightarrow> parse_digits k v (r @ ys))"
  if "length xs = j"
  using that by (induction j acc xs rule: parse_digits.induct) auto

lemma parse_digits_pad:
  "n < 10 ^ k \<Longrightarrow> parse_digits k acc (pad k n @ rest) = Some (acc * 10 ^ k + n, rest)"
proof (induction k arbitrary: n rest)
  case 0
  then show ?case by simp
next
  case (Suc k)
  have lt: "n div 10 < 10 ^ k" using Suc.prems by (simp add: less_mult_imp_div_less mult.commute)
  have "parse_digits (k + 1) acc (pad k (n div 10) @ (digit_char (n mod 10) # rest))
      = parse_digits 1 (acc * 10 ^ k + n div 10) (digit_char (n mod 10) # rest)"
    using Suc.IH [OF lt, of "[]"] by (subst parse_digits_append) simp_all
  also have "\<dots> = Some (acc * 10 ^ Suc k + n, rest)"
  proof -
    have "(acc * 10 ^ k + n div 10) * 10 + n mod 10 = acc * 10 ^ Suc k + n"
      by (simp only: distrib_right mult.assoc add.assoc div_mult_mod_eq power_Suc2)
    then show ?thesis by simp
  qed
  finally show ?case by simp
qed

declare pad.simps [simp del]

lemmas parse_pad [simp] =
  parse_digits_pad [where k = 2 and acc = 0, simplified] parse_digits_pad [where k = 4 and acc = 0, simplified]
  parse_digits_pad [where k = 6 and acc = 0, simplified]

lemma is_digit_facts:
  assumes "is_digit c"
  shows "c \<noteq> CHR ''-''" "c \<noteq> CHR ''W''" "\<not> is_tz_mark c" "c \<noteq> CHR '':''"
  using assms by (auto simp: is_digit_def is_tz_mark_def)

lemma hd_pad_digit: "0 < k \<Longrightarrow> is_digit (hd (pad k n @ r))"
  by (metis hd_append2 hd_in_set length_greater_0_conv length_pad pad_digits)

lemma parse_iso_date_isoformat:
  assumes "valid_date d" shows "parse_iso_date (date_isoformat d) = Some d"
proof -
  have b: "d_year d < 10000" "d_month d < 100" "d_day d < 100"
    using assms by (auto simp: valid_date_def days_in_month_def split: if_splits)
  have "hd (pad 2 (d_month d) @ x) \<noteq> CHR ''W''" for x
    using hd_pad_digit [of 2] is_digit_facts(2) by auto
  with b show ?thesis
    using parse_digits_pad [of "d_day d" 2 0 "[]"]
    by (simp add: parse_iso_date_def date_isoformat_def mk_date_def)
qed

lemma parse_fraction_pad: "us < 1000000 \<Longrightarrow> parse_fraction (pad 6 us) = Some (us, False)"
  using parse_digits_pad [of us 6 0 "[]"] by (simp add: parse_fraction_def)

lemma parse_hms_last:
  "v < 100 \<Longrightarrow> parse_hms n sep acc (pad 2 v) = Some (acc @ [v], 0, False)"
  using parse_digits_pad [of v 2 0 "[]"] by (subst parse_hms.simps) simp

lemma parse_hms_colon:
  assumes "v < 100" "length r > 0" "acc = [] \<or> sep"
  shows "parse_hms (Suc n) sep acc (pad 2 v @ CHR '':'' # r) = parse_hms n True (acc @ [v]) r"
  using assms by (subst parse_hms.simps) (cases r; auto)

lemmas parse_hms_colons =
  parse_hms_colon [of _ _ _ _ 1, unfolded Suc_1] parse_hms_colon [of _ _ _ _ 0]

lemma parse_hms_dot:
  assumes "v < 100" "us < 1000000" "acc \<noteq> []" "sep"
  shows "parse_hms n sep acc (pad 2 v @ CHR ''.'' # pad 6 us) = Some (acc @ [v], us, False)"
proof -
  obtain c r where p: "pad 6 us = c # r" by (metis length_pad list.exhaust list.size(3) zero_neq_numeral)
  show ?thesis
    using assms parse_fraction_pad [of us] by (subst parse_hms.simps) (simp add: p)
qed

lemma parse_hms_isoformat:
  assumes "h < 100" "m < 100" "s < 100" "us < 1000000"
  shows "parse_hms 2 b [] (hms_isoformat h m s us) = Some ([h, m, s], us, False)"
proof -
  have "parse_hms 0 True [h, m] (pad 2 s @ (if us = 0 then [] else ''.'' @ pad 6 us))
      = Some ([h, m, s], us, False)"
    using assms parse_hms_last [of s 0 True "[h, m]"] parse_hms_dot [of s us "[h, m]" True 0]
    by (simp)
  then show ?thesis
    using assms by (simp add: hms_isoformat_def parse_hms_colons)
qed

lemma tz_free_clock: "\<forall>c \<in> set (hms_isoformat h m s us). \<not> is_tz_mark c"
  using pad_digits is_digit_facts(3) by (auto simp: hms_isoformat_def is_tz_mark_def)

lemma offset_split:
  fixes a :: nat
  defines "s \<equiv> a div 1000000"
  shows "(s div 3600 * 3600 + s div 60 mod 60 * 60 + s mod 60) * 1000000 + a mod 1000000 = a"
proof -
  have "s div 3600 = s div 60 div 60" by (simp add: div_mult2_eq)
  then have "s div 3600 * 3600 + s div 60 mod 60 * 60 + s mod 60 = s"
    using div_mult_mod_eq [of "s div 60" 60] div_mult_mod_eq [of s 60] by linarith
  then show ?thesis using div_mult_mod_eq [of a 1000000] by (simp add: s_def)
qed

lemma parse_iso_offset_isoformat:
  assumes "\<bar>off\<bar> < day_micros" shows "parse_iso_offset (offset_isoformat off) = Some off"
proof -
  define a s us where "a = nat \<bar>off\<bar>" and "s = a div 1000000" and "us = a mod 1000000"
  define h m sec where "h = s div 3600" and "m = s div 60 mod 60" and "sec = s mod 60"
  have "a < 86400000000" using assms by (simp add: a_def)
  then have "s < 86400" by (simp add: s_def)
  then have b: "h < 100" "m < 100" "sec < 100" "us < 1000000"
    by (simp_all add: h_def m_def sec_def us_def)
  have val: "(h * 3600 + m * 60 + sec) * 1000000 + us = a"
    using offset_split [of a] by (simp only: h_def m_def sec_def us_def s_def)
  have off: "off = (if off < 0 then - int a else int a)" by (simp add: a_def)
  obtain t vs where t: "parse_hms 2 False [] t = Some (vs, us, False)"
    and vs: "field vs 0 = h" "field vs 1 = m" "field vs 2 = sec"
    and str: "offset_isoformat off = (if off < 0 then ''-'' else ''+'') @ t"
  proof (cases "sec = 0 \<and> us = 0")
    case True
    have "parse_hms 2 False [] (pad 2 h @ CHR '':'' # pad 2 m) = Some ([h, m], 0, False)"
      using b by (simp add: parse_hms_colons parse_hms_last)
    with True show ?thesis
      by (intro that [of "pad 2 h @ CHR '':'' # pad 2 m" "[h, m]"])
        (simp_all add: field_def offset_isoformat_def Let_def
          a_def [symmetric] s_def [symmetric] us_def [symmetric] h_def [symmetric] m_def [symmetric]
          sec_def [symmetric])
  next
    case False
    with b have "offset_isoformat off = (if off < 0 then ''-'' else ''+'') @ hms_isoformat h m sec us"
      by (simp add: offset_isoformat_def Let_def hms_isoformat_def a_def [symmetric]
          s_def [symmetric] us_def [symmetric] h_def [symmetric] m_def [symmetric]
          sec_def [symmetric])
    with b show ?thesis
      by (intro that [of "hms_isoformat h m sec us" "[h, m, sec]"])
        (simp_all add: parse_hms_isoformat field_def)
  qed
  have "(int h * 3600 + int m * 60 + int sec) * 1000000 + int us = int a"
    unfolding val [symmetric] by simp
  then show ?thesis
    using t vs off by (auto simp: parse_iso_offset_def str Let_def)
qed

lemma hd_offset: "\<exists>c r. offset_isoformat off = c # r \<and> is_tz_mark c"
  by (auto simp: offset_isoformat_def Let_def is_tz_mark_def)

lemma iso_date_length_isoformat: "iso_date_length (isoformat d) = Some 10"
proof -
  let ?s = "isoformat d"
  have len: "19 \<le> length ?s"
    by (simp add: isoformat_def date_isoformat_def hms_isoformat_def)
  have "?s ! 4 = CHR ''-''"
    by (simp add: isoformat_def date_isoformat_def nth_append)
  moreover have "?s ! 5 = pad 2 (d_month (dt_date d)) ! 0"
    by (simp add: isoformat_def date_isoformat_def nth_append)
  then have "is_digit (?s ! 5)"
    by (metis length_pad nth_mem pad_digits zero_less_numeral)
  then have "?s ! 5 \<noteq> CHR ''W''" by (rule is_digit_facts(2))
  ultimately show ?thesis using len by (simp add: iso_date_length_def Let_def)
qed

lemma fromisoformat_isoformat:
  assumes "valid_datetime d" shows "fromisoformat (isoformat d) = Some d"
proof -
  define clock zone where "clock = hms_isoformat (dt_hour d) (dt_minute d) (dt_second d) (dt_micro d)"
    and "zone = (case dt_offset d of None \<Rightarrow> [] | Some off \<Rightarrow> offset_isoformat off)"
  have s: "isoformat d = date_isoformat (dt_date d) @ CHR ''T'' # clock @ zone"
    by (simp add: isoformat_def clock_def zone_def)
  have ld: "length (date_isoformat (dt_date d)) = 10" by (simp add: date_isoformat_def)
  have lc: "length clock \<ge> 8" by (simp add: clock_def hms_isoformat_def)
  have "valid_date (dt_date d)" using assms by (simp add: valid_datetime_def)
  then have date: "parse_iso_date (take 10 (isoformat d)) = Some (dt_date d)"
    using ld by (simp add: s parse_iso_date_isoformat)
  have rest: "drop 11 (isoformat d) = clock @ zone" using ld by (simp add: s)
  have long: "\<not> length (isoformat d) \<le> 11" using ld lc by (cases clock) (simp_all add: s)
  have tw: "takeWhile (\<lambda>c. \<not> is_tz_mark c) (clock @ zone) = clock"
    using tz_free_clock hd_offset
    by (auto simp: clock_def zone_def takeWhile_append split: option.splits)
      (metis takeWhile.simps(2))
  have hms: "parse_hms 2 False [] clock = Some ([dt_hour d, dt_minute d, dt_second d], dt_micro d, False)"
    using assms by (simp add: clock_def parse_hms_isoformat valid_datetime_def)
  have zone: "zone = [] \<and> dt_offset d = None \<or>
      zone \<noteq> [] \<and> (\<exists>off. dt_offset d = Some off \<and> parse_iso_offset zone = Some off)"
    using assms hd_offset
    by (auto simp: zone_def parse_iso_offset_isoformat valid_datetime_def split: option.splits)
      (metis list.distinct(1))
  have flds: "field [x, y, z] 0 = x" "field [x, y, z] 1 = y" "field [x, y, z] 2 = z" for x y z
    by (simp_all add: field_def)
  have rec: "dt_offset d = off \<Longrightarrow> \<lparr>dt_date = dt_date d, dt_hour = dt_hour d, dt_minute = dt_minute d,
      dt_second = dt_second d, dt_micro = dt_micro d, dt_offset = off\<rparr> = d" for off
    by auto
  from zone assms show ?thesis
    by (auto simp: fromisoformat_def iso_date_length_isoformat date rest tw hms long Let_def
        flds [unfolded One_nat_def] rec)
qed

end
