(* ===== verification/PyDecimal.thy ===== *)
theory PyDecimal
  imports Prelude
begin

text \<open>
  Python's \<open>decimal.Decimal\<close> and the database's \<open>NUMERIC(p, s)\<close> columns.

  A finite \<open>Decimal\<close> is its triple (sign, coefficient, exponent); \<open>dec_str\<close> is \<open>str(value)\<close>.
  Comparison, equality and arithmetic only see its value, a rational. Arithmetic runs in the
  default context, which rounds every result to 28 significant digits, half to even
  (\<open>ctx_round\<close>). A \<open>NUMERIC(p, s)\<close> column rounds half away from zero to \<open>s\<close> decimals
  (\<open>num_round\<close>).
\<close>

datatype decimal = Dec (dec_neg: bool) (dec_coeff: nat) (dec_expo: int)

definition dec_val :: "decimal \<Rightarrow> rat" where
  "dec_val x = (if dec_neg x then -1 else 1) * of_nat (dec_coeff x) * 10 powi dec_expo x"

fun nat_str :: "nat \<Rightarrow> string" where
  "nat_str n = (if n < 10 then [char_of (48 + n)] else nat_str (n div 10) @ [char_of (48 + n mod 10)])"

declare nat_str.simps [simp del]

definition int_str :: "int \<Rightarrow> string" where
  "int_str i = (if i < 0 then CHR ''-'' # nat_str (nat (- i)) else nat_str (nat i))"

definition dec_str :: "decimal \<Rightarrow> string" where
  "dec_str x =
     (let ds = nat_str (dec_coeff x); n = int (length ds);
          left = dec_expo x + n;
          dot = (if dec_expo x \<le> 0 \<and> left > -6 then left else 1);
          mant = (if dot \<le> 0 then ''0.'' @ replicate (nat (- dot)) (CHR ''0'') @ ds
                  else if n \<le> dot then ds @ replicate (nat (dot - n)) (CHR ''0'')
                  else take (nat dot) ds @ ''.'' @ drop (nat dot) ds);
          ex = (if left = dot then [] else
                ''E'' @ (if left - dot < 0 then [] else ''+'') @ int_str (left - dot))
      in (if dec_neg x then ''-'' else []) @ mant @ ex)"

section \<open>The default context: 28 digits, half to even\<close>

definition round_half_even :: "rat \<Rightarrow> int" where
  "round_half_even x =
     (let f = \<lfloor>x\<rfloor>; r = x - of_int f
      in if r > 1/2 \<or> (r = 1/2 \<and> odd f) then f + 1 else f)"

definition ilog10 :: "rat \<Rightarrow> int" where
  \<comment> \<open>the adjusted exponent of a positive value\<close>
  "ilog10 x =
     (let (n, d) = quotient_of x;
          k = int (length (nat_str (nat n))) - int (length (nat_str (nat d)))
      in if 10 powi k \<le> x then k else k - 1)"

definition ctx_round :: "rat \<Rightarrow> rat" where
  "ctx_round x =
     (if x = 0 then 0
      else let q = 10 powi (ilog10 \<bar>x\<bar> - 27) in of_int (round_half_even (x / q)) * q)"

definition dec_add :: "rat \<Rightarrow> rat \<Rightarrow> rat" where "dec_add x y = ctx_round (x + y)"
definition dec_sub :: "rat \<Rightarrow> rat \<Rightarrow> rat" where "dec_sub x y = ctx_round (x - y)"
definition dec_div :: "rat \<Rightarrow> rat \<Rightarrow> rat" where "dec_div x y = ctx_round (x / y)"

section \<open>\<open>NUMERIC(p, s)\<close> columns\<close>

definition num_round :: "nat \<Rightarrow> rat \<Rightarrow> rat" where
  "num_round s x =
     (if x < 0 then - of_int \<lfloor>- x * 10 ^ s + 1/2\<rfloor> / 10 ^ s
      else of_int \<lfloor>x * 10 ^ s + 1/2\<rfloor> / 10 ^ s)"

definition num_fits :: "nat \<Rightarrow> nat \<Rightarrow> rat \<Rightarrow> bool" where
  "num_fits p s x \<longleftrightarrow> \<bar>num_round s x\<bar> < 10 ^ (p - s)"

definition on_grid :: "nat \<Rightarrow> rat \<Rightarrow> bool" where
  "on_grid s x \<longleftrightarrow> x * 10 ^ s \<in> \<int>"

section \<open>Facts\<close>

lemma num_round_grid: "on_grid s (num_round s x)"
  by (simp add: on_grid_def num_round_def)

lemma floor_int_half [simp]: "\<lfloor>of_int k + 1/2 :: rat\<rfloor> = k"
  by (simp add: floor_eq_iff)

lemma num_round_id:
  assumes "on_grid s x" shows "num_round s x = x"
proof -
  obtain k where k: "x * 10 ^ s = of_int k" using assms by (auto simp: on_grid_def elim: Ints_cases)
  have nk: "- x * 10 ^ s = of_int (- k)" using k by simp
  have x: "x = of_int k / 10 ^ s" using k by (simp add: field_simps)
  have "num_round s x = (if x < 0 then - of_int (- k) / 10 ^ s else of_int k / 10 ^ s)"
    unfolding num_round_def k nk floor_int_half by (rule refl)
  also have "\<dots> = x" unfolding x by simp
  finally show ?thesis .
qed

lemma num_round_fix_iff: "num_round s x = x \<longleftrightarrow> on_grid s x"
  using num_round_grid num_round_id by metis

lemma on_grid_code [code]: "on_grid s x \<longleftrightarrow> num_round s x = x"
  by (rule num_round_fix_iff [symmetric])

lemma num_round_idem [simp]: "num_round s (num_round s x) = num_round s x"
  by (simp add: num_round_id num_round_grid)

lemma num_round_nonneg: "0 \<le> x \<Longrightarrow> 0 \<le> num_round s x"
  by (simp add: num_round_def)

lemma num_round_of_int [simp]: "num_round s (of_int k) = of_int k"
  by (rule num_round_id) (simp add: on_grid_def)

lemma num_round_mono: "0 \<le> x \<Longrightarrow> x \<le> y \<Longrightarrow> num_round s x \<le> num_round s y"
  by (auto simp: num_round_def intro!: divide_right_mono floor_mono mult_right_mono)

lemma num_round_le_one: "0 \<le> x \<Longrightarrow> x \<le> 1 \<Longrightarrow> num_round s x \<le> 1"
  using num_round_mono [of x 1 s] num_round_of_int [of s 1] by simp

lemma num_round_error: "0 \<le> x \<Longrightarrow> \<bar>num_round s x - x\<bar> \<le> 1 / (2 * 10 ^ s)"
proof -
  assume "0 \<le> x"
  define k where "k = \<lfloor>x * 10 ^ s + 1/2\<rfloor>"
  have "of_int k \<le> x * 10 ^ s + 1/2" "x * 10 ^ s + 1/2 < of_int k + 1"
    unfolding k_def by linarith+
  then have "\<bar>of_int k - x * 10 ^ s\<bar> \<le> 1/2" by linarith
  then have "\<bar>of_int k - x * 10 ^ s\<bar> / 10 ^ s \<le> (1/2) / 10 ^ s"
    by (rule divide_right_mono) simp
  moreover have "\<bar>of_int k / 10 ^ s - x\<bar> = \<bar>of_int k - x * 10 ^ s\<bar> / 10 ^ s"
  proof -
    have "of_int k / 10 ^ s - x = (of_int k - x * 10 ^ s) / 10 ^ s" by (simp add: field_simps)
    then show ?thesis by (simp only: abs_divide) simp
  qed
  ultimately show ?thesis using \<open>0 \<le> x\<close> by (simp add: num_round_def k_def)
qed

lemma num_round_shift:
  assumes "on_grid s y" "0 \<le> x" "0 \<le> y"
  shows "num_round s (y + x) = y + num_round s x"
proof -
  obtain k where k: "y * 10 ^ s = of_int k" using assms(1) by (auto simp: on_grid_def elim: Ints_cases)
  then have "y = of_int k / 10 ^ s" by (simp add: field_simps)
  then show ?thesis
    using assms k by (simp add: num_round_def distrib_right add.assoc add_divide_distrib)
qed

lemma nat_str_bounds: "n < 10 ^ length (nat_str n) \<and> (0 < n \<longrightarrow> 10 ^ (length (nat_str n) - 1) \<le> n)"
proof (induction n rule: nat_str.induct)
  case (1 n)
  show ?case
  proof (cases "n < 10")
    case True
    then show ?thesis by (subst (1 2) nat_str.simps) auto
  next
    case False
    define l where "l = length (nat_str (n div 10))"
    have len: "length (nat_str n) = Suc l" using False by (subst nat_str.simps) (simp add: l_def)
    from 1 False have IH: "n div 10 < 10 ^ l" "10 ^ (l - 1) \<le> n div 10"
      by (auto simp: l_def)
    have "0 < l" by (simp add: l_def) (subst nat_str.simps, simp)
    with IH(2) have "10 ^ l \<le> n div 10 * 10" by (cases l) auto
    also have "\<dots> \<le> n" by simp
    finally have "10 ^ l \<le> n" .
    moreover have "n < 10 ^ Suc l" using IH(1) by (simp add: div_less_iff_less_mult)
    ultimately show ?thesis by (simp add: len)
  qed
qed

lemma nat_str_not_Nil [simp]: "nat_str n \<noteq> []"
  by (subst nat_str.simps) auto

lemma powi_diff_le_iff:
  "(10::rat) powi a \<le> x * 10 powi b \<longleftrightarrow> 10 powi (a - b) \<le> x"
  "x * 10 powi b < (10::rat) powi a \<longleftrightarrow> x < 10 powi (a - b)"
  by (auto simp: power_int_diff field_simps)

lemma nat_str_of_int:
  assumes "0 < n"
  shows "of_int n < (10::rat) ^ length (nat_str (nat n))"
    "(10::rat) ^ (length (nat_str (nat n)) - 1) \<le> of_int n"
proof -
  let ?l = "length (nat_str (nat n))"
  have "nat n < 10 ^ ?l" "10 ^ (?l - 1) \<le> nat n"
    using nat_str_bounds [of "nat n"] assms by simp_all
  then have "(of_nat (nat n) :: rat) < of_nat (10 ^ ?l)" "(of_nat (10 ^ (?l - 1)) :: rat) \<le> of_nat (nat n)"
    by (simp_all only: of_nat_less_iff of_nat_le_iff)
  moreover have "(of_nat (nat n) :: rat) = of_int n" using assms by simp
  ultimately show "of_int n < (10::rat) ^ ?l" "(10::rat) ^ (?l - 1) \<le> of_int n"
    by (simp_all only: of_nat_power of_nat_numeral)
qed

lemma ilog10_bounds:
  assumes "0 < x" shows "10 powi ilog10 x \<le> x" "x < 10 powi (ilog10 x + 1)"
proof -
  obtain n d where q: "quotient_of x = (n, d)" by (cases "quotient_of x")
  have d: "0 < d" using q by (rule quotient_of_denom_pos)
  have x: "x = of_int n / of_int d" using q by (rule quotient_of_div)
  with assms d have n: "0 < n" by (simp add: zero_less_divide_iff)
  define a b where "a = length (nat_str (nat n))" and "b = length (nat_str (nat d))"
  have pos: "0 < a" "0 < b" by (simp_all add: a_def b_def)
  have ub: "of_int n < (10::rat) ^ a" "of_int d < (10::rat) ^ b"
    and lb: "(10::rat) ^ (a - 1) \<le> of_int n" "(10::rat) ^ (b - 1) \<le> of_int d"
    unfolding a_def b_def
    by (rule nat_str_of_int(1) [OF n] nat_str_of_int(1) [OF d] nat_str_of_int(2) [OF n]
        nat_str_of_int(2) [OF d])+
  define k where "k = int a - int b"
  have "10 powi (k - 1) \<le> x"
  proof -
    have "(10::rat) powi (k - 1) * of_int d \<le> 10 powi (k - 1) * 10 powi b"
      using ub(2) by (simp add: power_int_def less_imp_le mult_left_mono)
    also have "\<dots> = 10 powi (int a - 1)"
      by (subst power_int_add [symmetric]) (simp_all add: k_def)
    also have "\<dots> \<le> of_int n" using lb(1) pos by (simp add: power_int_def nat_diff_distrib)
    finally show ?thesis using d by (simp add: x pos_le_divide_eq)
  qed
  moreover have "x < 10 powi (k + 1)"
  proof -
    have "of_int n < (10::rat) powi int a" using ub(1) by (simp add: power_int_def)
    also have "\<dots> = 10 powi (k + 1) * 10 powi (int b - 1)"
      by (subst power_int_add [symmetric]) (simp_all add: k_def)
    also have "\<dots> \<le> 10 powi (k + 1) * of_int d"
      using lb(2) pos by (simp add: power_int_def nat_diff_distrib mult_left_mono)
    finally show ?thesis using d by (simp add: x pos_divide_less_eq)
  qed
  ultimately show "10 powi ilog10 x \<le> x" "x < 10 powi (ilog10 x + 1)"
    by (auto simp: ilog10_def q a_def [symmetric] b_def [symmetric] k_def [symmetric] Let_def)
qed

lemma round_half_even_of_int [simp]: "round_half_even (of_int k) = k"
  by (simp add: round_half_even_def)

lemma round_half_even_error: "\<bar>of_int (round_half_even x) - x\<bar> \<le> 1/2"
proof -
  have "0 \<le> x - of_int \<lfloor>x\<rfloor>" "x - of_int \<lfloor>x\<rfloor> < 1" by linarith+
  then show ?thesis unfolding round_half_even_def Let_def by (auto simp: abs_le_iff)
qed

text \<open>A value of at most 28 digits is not rounded; any other moves by at most half a unit.\<close>

lemma ctx_round_exact:
  assumes "x = of_int c * 10 powi e" and "\<bar>c\<bar> < 10 ^ 28"
  shows "ctx_round x = x"
proof (cases "x = 0")
  case False
  define l where "l = ilog10 \<bar>x\<bar>"
  have "10 powi l \<le> \<bar>x\<bar>" using ilog10_bounds(1) [of "\<bar>x\<bar>"] False by (simp add: l_def)
  also have "\<bar>x\<bar> = of_int \<bar>c\<bar> * 10 powi e" by (simp add: assms(1) abs_mult)
  also have "\<dots> < 10 ^ 28 * 10 powi e"
    using assms(2) by (simp add: flip: of_int_less_iff [where 'a = rat])
  also have "\<dots> = 10 powi (28 + e)" by (simp add: power_int_add)
  finally have "l < 28 + e" 
    by (metis linorder_not_less one_le_numeral order_less_le_trans order_less_irrefl power_int_increasing)
  define m where "m = nat (e - (l - 27))"
  have "int m = e - (l - 27)" using \<open>l < 28 + e\<close> by (simp add: m_def)
  then have "(10::rat) powi e = 10 ^ m * 10 powi (l - 27)"
    by (metis power_int_add power_int_of_nat diff_add_cancel zero_neq_numeral)
  then have x: "x = of_int (c * 10 ^ m) * 10 powi (l - 27)"
    by (simp only: assms(1) of_int_mult of_int_power of_int_numeral mult.assoc)
  have "x / 10 powi (l - 27) = of_int (c * 10 ^ m)"
    unfolding x by (rule nonzero_mult_div_cancel_right) simp
  then have "ctx_round x = of_int (c * 10 ^ m) * 10 powi (l - 27)"
    using False by (simp only: ctx_round_def l_def [symmetric] Let_def round_half_even_of_int if_False)
  with x show ?thesis by simp
qed (simp add: ctx_round_def)

lemma ctx_round_error: "\<bar>ctx_round x - x\<bar> \<le> \<bar>x\<bar> / (2 * 10 ^ 27)"
proof (cases "x = 0")
  case False
  define q where "q = (10::rat) powi (ilog10 \<bar>x\<bar> - 27)"
  have "0 < q" by (simp add: q_def)
  have "q * 10 ^ 27 = 10 powi ilog10 \<bar>x\<bar>"
    by (simp add: q_def power_int_diff)
  also have "\<dots> \<le> \<bar>x\<bar>" using False by (simp add: ilog10_bounds)
  finally have q: "q \<le> \<bar>x\<bar> / 10 ^ 27" by (simp add: field_simps)
  have "ctx_round x - x = (of_int (round_half_even (x / q)) - x / q) * q"
    using False \<open>0 < q\<close> by (simp add: ctx_round_def q_def [symmetric] Let_def field_simps)
  then have "\<bar>ctx_round x - x\<bar> = \<bar>of_int (round_half_even (x / q)) - x / q\<bar> * q"
    using \<open>0 < q\<close> by (simp add: abs_mult)
  also have "\<dots> \<le> 1/2 * q"
    using round_half_even_error \<open>0 < q\<close> by (intro mult_right_mono) auto
  also have "\<dots> \<le> \<bar>x\<bar> / (2 * 10 ^ 27)" using q by (simp add: field_simps)
  finally show ?thesis .
qed (simp add: ctx_round_def)

lemma on_grid_add: "on_grid s x \<Longrightarrow> on_grid s y \<Longrightarrow> on_grid s (x + y)"
  by (simp add: on_grid_def distrib_right)

lemma on_grid_diff: "on_grid s x \<Longrightarrow> on_grid s y \<Longrightarrow> on_grid s (x - y)"
  by (simp add: on_grid_def left_diff_distrib)

lemma on_grid_0 [simp]: "on_grid s 0"
  by (simp add: on_grid_def)

text \<open>Values on a decimal grid that have at most 28 digits are not rounded by the context.\<close>

lemma ctx_exact_grid:
  assumes "on_grid s x" and "0 \<le> x" and "x * 10 ^ s < 10 ^ 28"
  shows "ctx_round x = x"
proof -
  obtain k where k: "x * 10 ^ s = of_int k" using assms(1) by (auto simp: on_grid_def elim: Ints_cases)
  then have "(of_int k :: rat) < of_int (10 ^ 28)" using assms(3) by simp
  moreover have "(0 :: rat) \<le> of_int k" using assms(2) by (simp flip: k)
  ultimately have "\<bar>k\<bar> < 10 ^ 28" by (simp only: of_int_less_iff of_int_0_le_iff)
  moreover have "x = of_int k * 10 powi (- int s)" using k by (simp add: power_int_minus field_simps)
  ultimately show ?thesis using ctx_round_exact by blast
qed

lemma foldl_dec_add_exact:
  assumes "\<forall>x \<in> set xs. on_grid s x \<and> 0 \<le> x" and "on_grid s acc" and "0 \<le> acc" and "(acc + sum_list xs) * 10 ^ s < 10 ^ 28"
  shows "foldl dec_add acc xs = acc + sum_list xs"
  using assms
proof (induction xs arbitrary: acc)
  case (Cons x xs)
  have x: "on_grid s x" "0 \<le> x" and "0 \<le> sum_list xs" using Cons.prems(1) by (auto intro: sum_list_nonneg)
  have "(acc + x) * 10 ^ s \<le> (acc + sum_list (x # xs)) * 10 ^ s"
    using \<open>0 \<le> sum_list xs\<close> by (intro mult_right_mono) auto
  also have "\<dots> < 10 ^ 28" by (rule Cons.prems(4))
  finally have "dec_add acc x = acc + x"
    unfolding dec_add_def using Cons.prems(2,3) x by (intro ctx_exact_grid [of s] on_grid_add) auto
  then show ?case using Cons.IH [of "acc + x"] Cons.prems x by (simp add: on_grid_add add.assoc)
qed simp

end
