(* ===== verification/PyJson.thy ===== *)
theory PyJson
  imports PyDecimal "HOL-Library.Word"
begin

unbundle bit_operations_syntax

text \<open>
  JSON values as the sources carry them in event payloads (no floats: the callers only store
  strings, integers, booleans, null, lists and objects), \<open>json.dumps(value, sort_keys=True,
  separators=(",", ":"))\<close> with the default ASCII escaping, and \<open>hashlib.sha256(...).hexdigest()\<close>
  (FIPS 180-4), from which every semantic fingerprint is computed.
\<close>

section \<open>Values and canonical text\<close>

datatype json =
    JNull
  | JBool bool
  | JInt int
  | JStr string
  | JList "json list"
  | JObj "(string \<times> json) list"

type_synonym payload = "(string \<times> json) list"

definition pget :: "payload \<Rightarrow> string \<Rightarrow> json" where
  \<comment> \<open>\<open>payload.get(key)\<close>: an absent key reads as None\<close>
  "pget p k = (case map_of p k of None \<Rightarrow> JNull | Some v \<Rightarrow> v)"

definition phas :: "payload \<Rightarrow> string \<Rightarrow> bool" where
  "phas p k \<longleftrightarrow> k \<in> set (map fst p)"

lemma phas_map_of: "phas p k \<longleftrightarrow> (\<exists>v. map_of p k = Some v)"
  by (metis domIff map_of_eq_None_iff not_None_eq phas_def list.set_map dom_map_of_conv_image_fst)

definition opt_str :: "string option \<Rightarrow> json" where
  "opt_str so = (case so of None \<Rightarrow> JNull | Some s \<Rightarrow> JStr s)"

definition str_list :: "string list \<Rightarrow> json" where
  "str_list xs = JList (map JStr xs)"

definition hex_char :: "nat \<Rightarrow> char" where
  "hex_char n = (if n < 10 then char_of (48 + n) else char_of (87 + n))"

definition json_escape_char :: "char \<Rightarrow> string" where
  "json_escape_char c =
     (let n = (of_char c :: nat) in
      if n = 34 then [char_of (92::nat), char_of (34::nat)]
      else if n = 92 then [char_of (92::nat), char_of (92::nat)]
      else if n = 10 then char_of (92::nat) # ''n''
      else if n = 13 then char_of (92::nat) # ''r''
      else if n = 9 then char_of (92::nat) # ''t''
      else if n = 12 then char_of (92::nat) # ''f''
      else if n = 8 then char_of (92::nat) # ''b''
      else if n < 32 \<or> 127 \<le> n
      then char_of (92::nat) # ''u00'' @ [hex_char (n div 16), hex_char (n mod 16)]
      else [c])"

definition json_string :: "string \<Rightarrow> string" where
  "json_string s = char_of (34::nat) # concat (map json_escape_char s) @ [char_of (34::nat)]"

fun joined :: "string \<Rightarrow> string list \<Rightarrow> string" where
  "joined sep [] = []"
| "joined sep [x] = x"
| "joined sep (x # y # zs) = x @ sep @ joined sep (y # zs)"

fun dumps :: "json \<Rightarrow> string" where
  "dumps JNull = ''null''"
| "dumps (JBool b) = (if b then ''true'' else ''false'')"
| "dumps (JInt i) = int_str i"
| "dumps (JStr s) = json_string s"
| "dumps (JList xs) = ''['' @ joined '','' (map dumps xs) @ '']''"
| "dumps (JObj kvs) =
     CHR ''{'' # joined '','' (map (\<lambda>(k, txt). json_string k @ '':'' @ txt)
        (sort_key fst (map (\<lambda>(k, v). (k, dumps v)) kvs))) @ ''}''"

section \<open>SHA-256\<close>

type_synonym w32 = "32 word"

text \<open>
  The constants are the first 32 fractional bits of the square roots of the first 8 primes and of
  the cube roots of the first 64 primes, computed bit by bit; \<open>of_nat\<close> drops the integer part.
\<close>

fun root_bits :: "nat \<Rightarrow> nat \<Rightarrow> nat \<Rightarrow> nat \<Rightarrow> nat" where
  "root_bits k n 0 acc = acc"
| "root_bits k n (Suc i) acc =
     root_bits k n i (if (acc + 2 ^ i) ^ k \<le> n then acc + 2 ^ i else acc)"

definition first_primes :: "nat list" where
  "first_primes = filter (\<lambda>n. list_all (\<lambda>d. n mod d \<noteq> 0) [2..<n]) [2..<312]"

definition sha_k :: "w32 list" where
  "sha_k = map (\<lambda>p. of_nat (root_bits 3 (p * 2 ^ 96) 36 0)) first_primes"

definition sha_init :: "w32 list" where
  "sha_init = map (\<lambda>p. of_nat (root_bits 2 (p * 2 ^ 64) 36 0)) [2, 3, 5, 7, 11, 13, 17, 19]"

definition rotr :: "nat \<Rightarrow> w32 \<Rightarrow> w32" where
  "rotr n x = drop_bit n x OR push_bit (32 - n) x"

definition sha_s0 :: "w32 \<Rightarrow> w32" where "sha_s0 x = rotr 7 x XOR rotr 18 x XOR drop_bit 3 x"
definition sha_s1 :: "w32 \<Rightarrow> w32" where "sha_s1 x = rotr 17 x XOR rotr 19 x XOR drop_bit 10 x"
definition sha_S0 :: "w32 \<Rightarrow> w32" where "sha_S0 x = rotr 2 x XOR rotr 13 x XOR rotr 22 x"
definition sha_S1 :: "w32 \<Rightarrow> w32" where "sha_S1 x = rotr 6 x XOR rotr 11 x XOR rotr 25 x"

fun sha_schedule :: "nat \<Rightarrow> w32 list \<Rightarrow> w32 list" where
  "sha_schedule 0 w = w"
| "sha_schedule (Suc n) w =
     (let t = length w in sha_schedule n
        (w @ [sha_s1 (w ! (t - 2)) + w ! (t - 7) + sha_s0 (w ! (t - 15)) + w ! (t - 16)]))"

fun sha_round :: "w32 list \<Rightarrow> w32 \<times> w32 \<Rightarrow> w32 list" where
  "sha_round [a, b, c, d, e, f, g, h] (k, w) =
     (let t1 = h + sha_S1 e + ((e AND f) XOR (NOT e AND g)) + k + w;
          t2 = sha_S0 a + ((a AND b) XOR (a AND c) XOR (b AND c))
      in [t1 + t2, a, b, c, d + t1, e, f, g])"
| "sha_round hs kw = hs"

definition sha_block :: "w32 list \<Rightarrow> w32 list \<Rightarrow> w32 list" where
  "sha_block hs blk = map2 (+) hs (foldl sha_round hs (zip sha_k (sha_schedule 48 blk)))"

definition be_word :: "nat list \<Rightarrow> w32" where
  "be_word bs = of_nat (foldl (\<lambda>a b. a * 256 + b) 0 bs)"

fun chunks :: "nat \<Rightarrow> 'a list \<Rightarrow> 'a list list" where
  "chunks n xs = (if n = 0 \<or> xs = [] then [] else take n xs # chunks n (drop n xs))"

declare chunks.simps [simp del]

definition be_bytes :: "nat \<Rightarrow> nat \<Rightarrow> nat list" where
  "be_bytes k n = map (\<lambda>i. n div 256 ^ (k - 1 - i) mod 256) [0..<k]"

definition sha_pad :: "nat list \<Rightarrow> nat list" where
  "sha_pad bs = bs @ [128] @ replicate ((119 - length bs mod 64) mod 64) 0 @ be_bytes 8 (8 * length bs)"

definition sha256_hex :: "string \<Rightarrow> string" where
  "sha256_hex s =
     (let blocks = map (map be_word \<circ> chunks 4) (chunks 64 (sha_pad (map of_char s)));
          hs = foldl sha_block sha_init blocks
      in concat (map (\<lambda>w. concat (map (\<lambda>b. [hex_char (b div 16), hex_char (b mod 16)])
           (be_bytes 4 (unat w)))) hs))"

definition utf8 :: "string \<Rightarrow> string" where
  \<comment> \<open>\<open>str.encode("utf-8")\<close> of code points up to U+00FF, as characters of the same byte values\<close>
  "utf8 s = concat (map (\<lambda>c. let n = (of_char c :: nat) in
     if n < 128 then [c] else [char_of (192 + n div 64), char_of (128 + n mod 64)]) s)"

section \<open>Facts\<close>

lemma length_be_bytes [simp]: "length (be_bytes k n) = k"
  by (simp add: be_bytes_def)

lemma length_sha_round [simp]: "length (sha_round hs kw) = length hs"
  by (cases "(hs, kw)" rule: sha_round.cases) (auto simp: Let_def)

lemma length_foldl_sha_round: "length (foldl sha_round hs kws) = length hs"
  by (induction kws arbitrary: hs) auto

lemma length_foldl_sha_block: "length (foldl sha_block hs blks) = length hs"
  by (induction blks arbitrary: hs) (auto simp: sha_block_def length_foldl_sha_round)

lemma length_sha_init: "length sha_init = 8"
  by (simp add: sha_init_def)

lemma is_lower_hex_hex_char: "n < 16 \<Longrightarrow> is_lower_hex (hex_char n)"
  by (auto simp: is_lower_hex_def is_digit_def hex_char_def Let_def)

lemma length_concat_const: "(\<And>x. x \<in> set xs \<Longrightarrow> length (f x) = k) \<Longrightarrow> length (concat (map f xs)) = k * length xs"
  by (induction xs) auto

text \<open>A digest is 64 lower-case hexadecimal digits: it satisfies the sources' \<open>Fingerprint\<close> pattern.\<close>

definition is_fingerprint :: "string \<Rightarrow> bool" where
  "is_fingerprint s \<longleftrightarrow> length s = 64 \<and> (\<forall>c \<in> set s. is_lower_hex c)"

lemma is_fingerprint_sha256 [simp]: "is_fingerprint (sha256_hex s)"
proof -
  let ?hs = "foldl sha_block sha_init (map (map be_word \<circ> chunks 4) (chunks 64 (sha_pad (map of_char s))))"
  let ?f = "\<lambda>b::nat. [hex_char (b div 16), hex_char (b mod 16)]"
  have "length (concat (map (\<lambda>w. concat (map ?f (be_bytes 4 (unat w)))) ?hs)) = 8 * length ?hs"
    by (rule length_concat_const) (simp add: length_concat_const [where k = 2])
  moreover have "length ?hs = 8" by (simp add: length_foldl_sha_block length_sha_init)
  moreover have "\<forall>b \<in> set (be_bytes 4 n). b < 256" for n by (auto simp: be_bytes_def)
  ultimately show ?thesis
    by (auto simp: is_fingerprint_def sha256_hex_def Let_def less_mult_imp_div_less
        intro!: is_lower_hex_hex_char)
qed

lemma is_fingerprint_strip: "is_fingerprint s \<Longrightarrow> py_strip s = s"
  by (rule py_strip_no_space)
     (auto simp: is_fingerprint_def list_all_iff is_lower_hex_def is_digit_def is_space_def Let_def)

end
