(* ===== verification/AcqContracts.thy ===== *)
theory AcqContracts
  imports PyTime PyJson "HOL-Library.AList"
begin

text \<open>
  The contracts of \<open>acquisition/contracts.py\<close>: the enumerations, the error taxonomy, the
  payload guard and the two validated records, \<open>AcquisitionEvent\<close> and \<open>AcquisitionOpportunity\<close>.

  The event record is polymorphic in the type of its times and numbers. A call builds it from
  \<open>datetime\<close> and \<open>decimal\<close> arguments; once validated it carries the values that Python's
  equality sees, an instant and a rational (\<open>AcquisitionEvent\<close>). The same validation runs again
  on a database row (\<open>event_from_row\<close> of the store).
\<close>

section \<open>Enumerations and errors\<close>

datatype acquisition_state =
    DISCOVERED | ENRICHING | READY_FOR_DECISION | HOLD | NO_SEND | REVIEW | SEND | QUEUED
  | SENT | REPLIED | ACTIVATED | PAID | RETAINED | CHURNED

datatype decision = D_SEND | D_HOLD | D_ENRICH | D_NO_SEND | D_REVIEW

datatype actor_type = SYSTEM | HERMES | HUMAN | EXTERNAL

datatype event_type =
    OPPORTUNITY_CREATED | STATE_TRANSITIONED | DECISION_RECORDED | NEXT_ACTION_SET
  | RETRY_SCHEDULED | SUPERVISOR_PLAN_OBSERVED | POLICY_EVALUATED | CONTACT_SELECTED
  | OUTCOME_RECORDED

datatype projection_verification = MATCH | MISMATCH

datatype acq_error =
    InvalidTransition
  | IdempotencyConflict string
  | AcquisitionIdentityConflict string
  | OpportunityConcurrencyConflict
  | UnsupportedStateMachineVersion string
  | SupervisorAuditMappingError string
  | ProjectionNotFound string
  | ContractError \<comment> \<open>\<open>pydantic.ValidationError\<close>\<close>
  | NoResultFound \<comment> \<open>\<open>.one()\<close> on an empty result\<close>
  | DatabaseError \<comment> \<open>a constraint or a column range refuses the row\<close>

fun state_value :: "acquisition_state \<Rightarrow> string" where
  "state_value DISCOVERED = ''DISCOVERED''"
| "state_value ENRICHING = ''ENRICHING''"
| "state_value READY_FOR_DECISION = ''READY_FOR_DECISION''"
| "state_value HOLD = ''HOLD''"
| "state_value NO_SEND = ''NO_SEND''"
| "state_value REVIEW = ''REVIEW''"
| "state_value SEND = ''SEND''"
| "state_value QUEUED = ''QUEUED''"
| "state_value SENT = ''SENT''"
| "state_value REPLIED = ''REPLIED''"
| "state_value ACTIVATED = ''ACTIVATED''"
| "state_value PAID = ''PAID''"
| "state_value RETAINED = ''RETAINED''"
| "state_value CHURNED = ''CHURNED''"

definition all_states :: "acquisition_state list" where
  "all_states = [DISCOVERED, ENRICHING, READY_FOR_DECISION, HOLD, NO_SEND, REVIEW, SEND, QUEUED,
     SENT, REPLIED, ACTIVATED, PAID, RETAINED, CHURNED]"

fun decision_value :: "decision \<Rightarrow> string" where
  "decision_value D_SEND = ''SEND''"
| "decision_value D_HOLD = ''HOLD''"
| "decision_value D_ENRICH = ''ENRICH''"
| "decision_value D_NO_SEND = ''NO_SEND''"
| "decision_value D_REVIEW = ''REVIEW''"

definition all_decisions :: "decision list" where
  "all_decisions = [D_SEND, D_HOLD, D_ENRICH, D_NO_SEND, D_REVIEW]"

fun actor_value :: "actor_type \<Rightarrow> string" where
  "actor_value SYSTEM = ''SYSTEM''"
| "actor_value HERMES = ''HERMES''"
| "actor_value HUMAN = ''HUMAN''"
| "actor_value EXTERNAL = ''EXTERNAL''"

fun event_type_value :: "event_type \<Rightarrow> string" where
  "event_type_value OPPORTUNITY_CREATED = ''OPPORTUNITY_CREATED''"
| "event_type_value STATE_TRANSITIONED = ''STATE_TRANSITIONED''"
| "event_type_value DECISION_RECORDED = ''DECISION_RECORDED''"
| "event_type_value NEXT_ACTION_SET = ''NEXT_ACTION_SET''"
| "event_type_value RETRY_SCHEDULED = ''RETRY_SCHEDULED''"
| "event_type_value SUPERVISOR_PLAN_OBSERVED = ''SUPERVISOR_PLAN_OBSERVED''"
| "event_type_value POLICY_EVALUATED = ''POLICY_EVALUATED''"
| "event_type_value CONTACT_SELECTED = ''CONTACT_SELECTED''"
| "event_type_value OUTCOME_RECORDED = ''OUTCOME_RECORDED''"

definition parse_state :: "json \<Rightarrow> acquisition_state option" where
  \<comment> \<open>\<open>AcquisitionState(value)\<close>\<close>
  "parse_state j = List.find (\<lambda>s. JStr (state_value s) = j) all_states"

definition parse_decision :: "json \<Rightarrow> decision option" where
  "parse_decision j = List.find (\<lambda>d. JStr (decision_value d) = j) all_decisions"

definition STATE_MACHINE_VERSION :: string where
  "STATE_MACHINE_VERSION = ''acquisition-state-v1''"

definition EVENT_SCHEMA_VERSION :: int where "EVENT_SCHEMA_VERSION = 1"
definition MAX_EVENT_PAYLOAD_BYTES :: nat where "MAX_EVENT_PAYLOAD_BYTES = 65536"
definition MAX_REASON_CODES :: nat where "MAX_REASON_CODES = 50"
definition MAX_EVIDENCE_REFS :: nat where "MAX_EVIDENCE_REFS = 100"

section \<open>The payload guard\<close>

fun camel_split :: "string \<Rightarrow> string" where
  "camel_split [] = []"
| "camel_split (c # cs) = (if is_upper c then [CHR ''_'', c] else [c]) @ camel_split cs"

definition to_snake :: "string \<Rightarrow> string" where
  \<comment> \<open>\<open>re.sub(r"(?<!^)(?=[A-Z])", "_", value)\<close>\<close>
  "to_snake s = (case s of [] \<Rightarrow> [] | c # cs \<Rightarrow> c # camel_split cs)"

definition ascii_lower :: "char \<Rightarrow> char" where
  "ascii_lower c = (if is_upper c then char_of ((of_char c :: nat) + 32) else c)"

fun collapse_runs :: "bool \<Rightarrow> string \<Rightarrow> string" where
  \<comment> \<open>\<open>re.sub(r"[^a-z0-9]+", "_", ...)\<close>; the flag says that a run is open\<close>
  "collapse_runs run [] = []"
| "collapse_runs run (c # cs) =
     (if is_lower c \<or> is_digit c then c # collapse_runs False cs
      else if run then collapse_runs True cs else CHR ''_'' # collapse_runs True cs)"

definition strip_underscores :: "string \<Rightarrow> string" where
  "strip_underscores s =
     rev (dropWhile (\<lambda>c. c = CHR ''_'') (rev (dropWhile (\<lambda>c. c = CHR ''_'') s)))"

definition normalized_key :: "string \<Rightarrow> string" where
  "normalized_key value = strip_underscores (collapse_runs False (map ascii_lower (to_snake value)))"

definition SECRET_KEYS :: "string list" where
  "SECRET_KEYS = [''password'', ''secret'', ''api_key'', ''authorization'', ''access_token'',
     ''refresh_token'', ''session_token'', ''private_key'', ''client_secret'', ''bearer_token'']"

definition HIDDEN_REASONING_KEYS :: "string list" where
  "HIDDEN_REASONING_KEYS = [''chain_of_thought'', ''reasoning_trace'', ''scratchpad'',
     ''internal_reasoning'', ''hidden_reasoning'']"

definition prohibited_key :: "string \<Rightarrow> bool" where
  "prohibited_key k \<longleftrightarrow>
     normalized_key k \<in> set SECRET_KEYS \<or> normalized_key k \<in> set HIDDEN_REASONING_KEYS"

fun guard_payload :: "json \<Rightarrow> bool" where
  "guard_payload (JObj kvs) \<longleftrightarrow>
     list_all (\<lambda>(k, ok). \<not> prohibited_key k \<and> ok) (map (\<lambda>(k, v). (k, guard_payload v)) kvs)"
| "guard_payload (JList xs) \<longleftrightarrow> list_all (\<lambda>b. b) (map guard_payload xs)"
| "guard_payload _ \<longleftrightarrow> True"

definition validate_payload :: "payload \<Rightarrow> (acq_error, payload) result" where
  "validate_payload value =
     (if \<not> guard_payload (JObj value) then Inl ContractError
      else if MAX_EVENT_PAYLOAD_BYTES < length (dumps (JObj value)) then Inl ContractError
      else Inr value)"

text \<open>Building a dict from pairs: a repeated key keeps its place and takes the last value.\<close>

definition dict_of :: "payload \<Rightarrow> payload" where
  "dict_of kvs = foldl (\<lambda>d (k, v). AList.update k v d) [] kvs"

definition strip_keys :: "payload \<Rightarrow> payload" where
  \<comment> \<open>the contract's \<open>str_strip_whitespace\<close> on the keys of \<open>dict[str, Any]\<close>\<close>
  "strip_keys p = dict_of (map (\<lambda>(k, v). (py_strip k, v)) p)"

section \<open>The validated records\<close>

record ('t, 'n) acquisition_event =
  ev_event_id :: string
  ev_acquisition_opportunity_id :: string
  ev_stream_sequence :: int
  ev_event_type :: event_type
  ev_schema_version :: int
  ev_state_machine_version :: string
  ev_occurred_at :: 't
  ev_recorded_at :: 't
  ev_actor_type :: actor_type
  ev_actor_ref :: "string option"
  ev_idempotency_key :: string
  ev_semantic_fingerprint :: string
  ev_correlation_id :: "string option"
  ev_causation_id :: "string option"
  ev_reason_codes :: "string list"
  ev_evidence_refs :: "string list"
  ev_policy_version :: "string option"
  ev_skill_version :: "string option"
  ev_supervisor_version :: "string option"
  ev_confidence :: "'n option"
  ev_estimated_cost :: "'n option"
  ev_payload :: payload

type_synonym event_draft = "(datetime, decimal) acquisition_event"
type_synonym event = "(instant, rat) acquisition_event"

record acquisition_opportunity =
  opp_acquisition_opportunity_id :: string
  opp_identity_key :: string
  opp_state :: acquisition_state
  opp_stream_version :: int
  opp_state_machine_version :: string
  opp_signal_ref :: string
  opp_supplier_ref :: "string option"
  opp_contact_ref :: "string option"
  opp_campaign_ref :: "string option"
  opp_decision :: "decision option"
  opp_reason_codes :: "string list"
  opp_confidence :: "rat option"
  opp_evidence_refs :: "string list"
  opp_next_action :: "string option"
  opp_next_review_at :: "instant option"
  opp_retry_count :: int
  opp_retry_at :: "instant option"
  opp_last_error_category :: "string option"
  opp_policy_version :: "string option"
  opp_skill_version :: "string option"
  opp_supervisor_version :: "string option"
  opp_estimated_cost :: "rat option"
  opp_last_event_id :: string
  opp_created_at :: instant
  opp_updated_at :: instant

text \<open>
  Validation strips every declared string, then checks the declared bounds: \<open>Identifier\<close> is 1 to
  64 characters, \<open>ShortCode\<close> 1 to 100, \<open>StableRef\<close> 1 to 256.
\<close>

definition strip_event :: "('t \<Rightarrow> instant) \<Rightarrow> ('n \<Rightarrow> rat) \<Rightarrow> ('t, 'n) acquisition_event \<Rightarrow> event" where
  "strip_event tv nv e = \<lparr>
     ev_event_id = py_strip (ev_event_id e),
     ev_acquisition_opportunity_id = py_strip (ev_acquisition_opportunity_id e),
     ev_stream_sequence = ev_stream_sequence e,
     ev_event_type = ev_event_type e,
     ev_schema_version = ev_schema_version e,
     ev_state_machine_version = py_strip (ev_state_machine_version e),
     ev_occurred_at = tv (ev_occurred_at e),
     ev_recorded_at = tv (ev_recorded_at e),
     ev_actor_type = ev_actor_type e,
     ev_actor_ref = map_option py_strip (ev_actor_ref e),
     ev_idempotency_key = py_strip (ev_idempotency_key e),
     ev_semantic_fingerprint = py_strip (ev_semantic_fingerprint e),
     ev_correlation_id = map_option py_strip (ev_correlation_id e),
     ev_causation_id = map_option py_strip (ev_causation_id e),
     ev_reason_codes = map py_strip (ev_reason_codes e),
     ev_evidence_refs = map py_strip (ev_evidence_refs e),
     ev_policy_version = map_option py_strip (ev_policy_version e),
     ev_skill_version = map_option py_strip (ev_skill_version e),
     ev_supervisor_version = map_option py_strip (ev_supervisor_version e),
     ev_confidence = map_option nv (ev_confidence e),
     ev_estimated_cost = map_option nv (ev_estimated_cost e),
     ev_payload = strip_keys (ev_payload e) \<rparr>"

definition opt_range :: "rat option \<Rightarrow> rat option \<Rightarrow> bool" where
  \<comment> \<open>\<open>Field(ge=0, le=upper)\<close> on an optional decimal\<close>
  "opt_range upper x \<longleftrightarrow> (case x of None \<Rightarrow> True | Some v \<Rightarrow>
     0 \<le> v \<and> (case upper of None \<Rightarrow> True | Some u \<Rightarrow> v \<le> u))"

definition wf_codes :: "nat \<Rightarrow> string list \<Rightarrow> bool" where
  "wf_codes mx xs \<longleftrightarrow> length xs \<le> mx \<and> list_all (clean_str 100) xs"

definition wf_payload :: "payload \<Rightarrow> bool" where
  "wf_payload p \<longleftrightarrow> validate_payload p = Inr p \<and> distinct (map fst p) \<and>
     list_all (\<lambda>k. py_strip k = k) (map fst p)"

definition wf_event :: "event \<Rightarrow> bool" where
  "wf_event e \<longleftrightarrow>
     clean_str 64 (ev_event_id e) \<and> clean_str 64 (ev_acquisition_opportunity_id e) \<and>
     1 \<le> ev_stream_sequence e \<and> 1 \<le> ev_schema_version e \<and>
     clean_str 100 (ev_state_machine_version e) \<and> clean_opt 256 (ev_actor_ref e) \<and>
     clean_str 128 (ev_idempotency_key e) \<and>
     py_strip (ev_semantic_fingerprint e) = ev_semantic_fingerprint e \<and>
     is_fingerprint (ev_semantic_fingerprint e) \<and>
     clean_opt 64 (ev_correlation_id e) \<and> clean_opt 64 (ev_causation_id e) \<and>
     wf_codes MAX_REASON_CODES (ev_reason_codes e) \<and>
     wf_codes MAX_EVIDENCE_REFS (ev_evidence_refs e) \<and>
     clean_opt 100 (ev_policy_version e) \<and> clean_opt 100 (ev_skill_version e) \<and>
     clean_opt 100 (ev_supervisor_version e) \<and>
     opt_range (Some 1) (ev_confidence e) \<and> opt_range None (ev_estimated_cost e) \<and>
     wf_payload (ev_payload e)"

definition event_model ::
  "('t \<Rightarrow> bool) \<Rightarrow> ('t \<Rightarrow> instant) \<Rightarrow> ('n \<Rightarrow> rat) \<Rightarrow> ('t, 'n) acquisition_event \<Rightarrow> (acq_error, event) result"
where
  "event_model aware tv nv e =
     (let e' = strip_event tv nv e in
      if aware (ev_occurred_at e) \<and> aware (ev_recorded_at e) \<and> wf_event e'
      then Inr e' else Inl ContractError)"

definition AcquisitionEvent :: "event_draft \<Rightarrow> (acq_error, event) result" where
  "AcquisitionEvent = event_model is_aware instant_of dec_val"

definition strip_opportunity :: "acquisition_opportunity \<Rightarrow> acquisition_opportunity" where
  "strip_opportunity p = p\<lparr>
     opp_acquisition_opportunity_id := py_strip (opp_acquisition_opportunity_id p),
     opp_identity_key := py_strip (opp_identity_key p),
     opp_state_machine_version := py_strip (opp_state_machine_version p),
     opp_signal_ref := py_strip (opp_signal_ref p),
     opp_supplier_ref := map_option py_strip (opp_supplier_ref p),
     opp_contact_ref := map_option py_strip (opp_contact_ref p),
     opp_campaign_ref := map_option py_strip (opp_campaign_ref p),
     opp_reason_codes := map py_strip (opp_reason_codes p),
     opp_evidence_refs := map py_strip (opp_evidence_refs p),
     opp_next_action := map_option py_strip (opp_next_action p),
     opp_last_error_category := map_option py_strip (opp_last_error_category p),
     opp_policy_version := map_option py_strip (opp_policy_version p),
     opp_skill_version := map_option py_strip (opp_skill_version p),
     opp_supervisor_version := map_option py_strip (opp_supervisor_version p),
     opp_last_event_id := py_strip (opp_last_event_id p) \<rparr>"

definition wf_opportunity :: "acquisition_opportunity \<Rightarrow> bool" where
  "wf_opportunity p \<longleftrightarrow>
     clean_str 64 (opp_acquisition_opportunity_id p) \<and> clean_str 256 (opp_identity_key p) \<and>
     1 \<le> opp_stream_version p \<and> clean_str 100 (opp_state_machine_version p) \<and>
     clean_str 256 (opp_signal_ref p) \<and> clean_opt 256 (opp_supplier_ref p) \<and>
     clean_opt 256 (opp_contact_ref p) \<and> clean_opt 256 (opp_campaign_ref p) \<and>
     wf_codes MAX_REASON_CODES (opp_reason_codes p) \<and> opt_range (Some 1) (opp_confidence p) \<and>
     wf_codes MAX_EVIDENCE_REFS (opp_evidence_refs p) \<and> clean_opt 100 (opp_next_action p) \<and>
     0 \<le> opp_retry_count p \<and> clean_opt 100 (opp_last_error_category p) \<and>
     clean_opt 100 (opp_policy_version p) \<and> clean_opt 100 (opp_skill_version p) \<and>
     clean_opt 100 (opp_supervisor_version p) \<and> opt_range None (opp_estimated_cost p) \<and>
     clean_str 64 (opp_last_event_id p)"

definition AcquisitionOpportunity ::
  "acquisition_opportunity \<Rightarrow> (acq_error, acquisition_opportunity) result" where
  "AcquisitionOpportunity p =
     (let p' = strip_opportunity p in if wf_opportunity p' then Inr p' else Inl ContractError)"

section \<open>Facts\<close>

lemma parse_state_value [simp]: "parse_state (JStr (state_value s)) = Some s"
  by (cases s) (simp_all add: parse_state_def all_states_def)

lemma parse_decision_value [simp]: "parse_decision (JStr (decision_value d)) = Some d"
  by (cases d) (simp_all add: parse_decision_def all_decisions_def)

lemma dict_of_snoc: "dict_of (kvs @ [(k, v)]) = AList.update k v (dict_of kvs)"
  by (simp add: dict_of_def)

lemma keys_dict_of: "set (map fst (dict_of kvs)) = set (map fst kvs)"
proof (induction kvs rule: rev_induct)
  case (snoc kv kvs)
  then show ?case by (cases kv) (simp add: dict_of_snoc dom_update)
qed (simp add: dict_of_def)

lemma distinct_dict_of: "distinct (map fst (dict_of kvs))"
proof (induction kvs rule: rev_induct)
  case (snoc kv kvs)
  then show ?case by (cases kv) (simp add: dict_of_snoc distinct_update)
qed (simp add: dict_of_def)

lemma update_fresh: "k \<notin> set (map fst al) \<Longrightarrow> AList.update k v al = al @ [(k, v)]"
  by (induction al) auto

lemma dict_of_id: "distinct (map fst kvs) \<Longrightarrow> dict_of kvs = kvs"
proof (induction kvs rule: rev_induct)
  case (snoc kv kvs)
  then show ?case by (cases kv) (auto simp: dict_of_snoc update_fresh)
qed (simp add: dict_of_def)

lemma strip_keys_id:
  assumes "distinct (map fst p)" and "list_all (\<lambda>k. py_strip k = k) (map fst p)"
  shows "strip_keys p = p"
proof -
  have "map (\<lambda>(k, v). (py_strip k, v)) p = p"
    using assms(2) by (induction p) auto
  with assms(1) show ?thesis by (simp add: strip_keys_def dict_of_id)
qed

lemma strip_id_simps:
  "clean_str mx s \<Longrightarrow> py_strip s = s"
  "clean_opt mx so \<Longrightarrow> map_option py_strip so = so"
  "wf_codes n xs \<Longrightarrow> map py_strip xs = xs"
  "wf_payload p \<Longrightarrow> strip_keys p = p"
     apply (simp add: clean_str_def)
    apply (cases so; simp add: clean_str_def)
   apply (induction xs arbitrary: n; force simp: wf_codes_def clean_str_def list_all_iff intro: map_idI)
  apply (simp add: wf_payload_def strip_keys_id)
  done

lemma event_model_Inr:
  "event_model aware tv nv d = Inr e \<longleftrightarrow>
     aware (ev_occurred_at d) \<and> aware (ev_recorded_at d) \<and> wf_event e \<and> e = strip_event tv nv d"
  by (auto simp: event_model_def Let_def)

lemma strip_event_id: "wf_event e \<Longrightarrow> strip_event (\<lambda>t. t) (\<lambda>x. x) e = e"
  unfolding wf_event_def
  by (rule acquisition_event.equality; elim conjE; simp add: strip_event_def strip_id_simps option.map_ident)

lemma strip_opportunity_id: "wf_opportunity p \<Longrightarrow> strip_opportunity p = p"
  unfolding wf_opportunity_def
  by (rule acquisition_opportunity.equality; elim conjE; simp add: strip_opportunity_def strip_id_simps)

lemma AcquisitionOpportunity_id: "wf_opportunity p \<Longrightarrow> AcquisitionOpportunity p = Inr p"
  by (simp add: AcquisitionOpportunity_def strip_opportunity_id)

lemma AcquisitionOpportunity_Inr:
  "AcquisitionOpportunity p = Inr q \<longleftrightarrow> wf_opportunity q \<and> q = strip_opportunity p"
  by (auto simp: AcquisitionOpportunity_def Let_def)

end
