(* ===== verification/AcqState.thy ===== *)
theory AcqState
  imports AcqContracts
begin

text \<open>
  The pure reducer of \<open>acquisition/state.py\<close>: the transition table, one reducer per event type,
  \<open>reduce_event\<close> selected by the state machine version, and \<open>replay\<close> over a stream.

  \<open>model_copy(update=...)\<close> does not validate: the reducers below write the record fields directly,
  as the code does. \<open>_created\<close> builds the first projection through the validated contract.
\<close>

section \<open>Tables\<close>

definition ALLOWED_COMMANDS :: "string list" where
  "ALLOWED_COMMANDS = [''discover_suppliers'', ''find_decision_makers'', ''enrich_company'',
     ''evaluate_opportunity'', ''prepare_campaign'', ''assess_campaign_compliance'',
     ''schedule_campaign'', ''pause_campaign'', ''classify_response'', ''reallocate_volume'',
     ''request_human_review'', ''generate_weekly_report'', ''resolve_signal_seed'',
     ''execute_provider_operations'', ''reconcile_conversion'']"

definition ALLOWED_NEXT_ACTIONS :: "string list" where
  "ALLOWED_NEXT_ACTIONS = ALLOWED_COMMANDS"

fun TRANSITIONS :: "acquisition_state \<Rightarrow> acquisition_state list" where
  "TRANSITIONS DISCOVERED = [ENRICHING]"
| "TRANSITIONS ENRICHING = [READY_FOR_DECISION]"
| "TRANSITIONS READY_FOR_DECISION = [ENRICHING, HOLD, NO_SEND, REVIEW, SEND]"
| "TRANSITIONS HOLD = [ENRICHING, READY_FOR_DECISION, REVIEW, NO_SEND]"
| "TRANSITIONS REVIEW = [ENRICHING, HOLD, READY_FOR_DECISION, NO_SEND, SEND]"
| "TRANSITIONS SEND = [QUEUED]"
| "TRANSITIONS QUEUED = [SENT]"
| "TRANSITIONS _ = []"

fun DECISION_STATES :: "decision \<Rightarrow> acquisition_state" where
  "DECISION_STATES D_ENRICH = ENRICHING"
| "DECISION_STATES D_HOLD = HOLD"
| "DECISION_STATES D_NO_SEND = NO_SEND"
| "DECISION_STATES D_REVIEW = REVIEW"
| "DECISION_STATES D_SEND = SEND"

fun OUTCOME_RANK :: "acquisition_state \<Rightarrow> nat option" where
  "OUTCOME_RANK SEND = Some 0"
| "OUTCOME_RANK QUEUED = Some 1"
| "OUTCOME_RANK SENT = Some 2"
| "OUTCOME_RANK REPLIED = Some 3"
| "OUTCOME_RANK ACTIVATED = Some 4"
| "OUTCOME_RANK PAID = Some 5"
| "OUTCOME_RANK RETAINED = Some 6"
| "OUTCOME_RANK CHURNED = Some 7"
| "OUTCOME_RANK _ = None"

section \<open>Reducers\<close>

type_synonym opportunity = acquisition_opportunity

definition datetime_payload :: "payload \<Rightarrow> string \<Rightarrow> (acq_error, instant option) result" where
  "datetime_payload p key =
     (case pget p key of
        JNull \<Rightarrow> Inr None
      | JStr s \<Rightarrow> (case fromisoformat s of
            None \<Rightarrow> Inl InvalidTransition
          | Some parsed \<Rightarrow> if is_aware parsed then Inr (Some (instant_of parsed))
                           else Inl InvalidTransition)
      | _ \<Rightarrow> Inl InvalidTransition)"

definition or_else :: "'a option \<Rightarrow> 'a option \<Rightarrow> 'a option" where
  \<comment> \<open>an update applied only when the event carries a value\<close>
  "or_else new old = (case new of None \<Rightarrow> old | Some v \<Rightarrow> Some v)"

definition common_updates :: "event \<Rightarrow> opportunity \<Rightarrow> opportunity" where
  "common_updates event p = p\<lparr>
     opp_stream_version := ev_stream_sequence event,
     opp_state_machine_version := ev_state_machine_version event,
     opp_last_event_id := ev_event_id event,
     opp_updated_at := ev_recorded_at event,
     opp_policy_version := or_else (ev_policy_version event) (opp_policy_version p),
     opp_skill_version := or_else (ev_skill_version event) (opp_skill_version p),
     opp_supervisor_version := or_else (ev_supervisor_version event) (opp_supervisor_version p),
     opp_estimated_cost := or_else (ev_estimated_cost event) (opp_estimated_cost p) \<rparr>"

definition require_transition ::
  "acquisition_state \<Rightarrow> acquisition_state \<Rightarrow> (acq_error, unit) result" where
  "require_transition source target = ensure (target \<in> set (TRANSITIONS source)) InvalidTransition"

definition require_hold_metadata :: "event \<Rightarrow> instant option \<Rightarrow> (acq_error, unit) result" where
  "require_hold_metadata event next_review_at =
     ensure (ev_reason_codes event \<noteq> [] \<and> next_review_at \<noteq> None) InvalidTransition"

definition nonempty_or :: "'a list \<Rightarrow> 'a list \<Rightarrow> 'a list" where
  \<comment> \<open>\<open>if event.xs: updates["xs"] = event.xs\<close>\<close>
  "nonempty_or new old = (if new = [] then old else new)"

definition clean_ref :: "json \<Rightarrow> string option" where
  \<comment> \<open>the inline reference check: a string of 1 to 256 characters with no outer whitespace\<close>
  "clean_ref j = (case j of JStr s \<Rightarrow>
     if 1 \<le> length s \<and> length s \<le> 256 \<and> py_strip s = s then Some s else None | _ \<Rightarrow> None)"

definition payload_ref :: "json \<Rightarrow> (acq_error, string option) result" where
  \<comment> \<open>a payload value offered to a \<open>StableRef | None\<close> field\<close>
  "payload_ref j = (case j of JNull \<Rightarrow> Inr None | JStr s \<Rightarrow> Inr (Some s) | _ \<Rightarrow> Inl ContractError)"

definition json_str_opt :: "json \<Rightarrow> string option" where
  \<comment> \<open>the value when \<open>isinstance(value, str)\<close>\<close>
  "json_str_opt j = (case j of JStr s \<Rightarrow> Some s | _ \<Rightarrow> None)"

definition created :: "event \<Rightarrow> (acq_error, opportunity) result" where
  "created event =
     (if ev_stream_sequence event \<noteq> 1 then Inl InvalidTransition else
      (case (json_str_opt (pget (ev_payload event) ''identity_key''),
             json_str_opt (pget (ev_payload event) ''signal_ref'')) of
         (Some identity_key, Some signal_ref) \<Rightarrow>
           rbind (payload_ref (pget (ev_payload event) ''supplier_ref'')) (\<lambda>supplier_ref.
           rbind (payload_ref (pget (ev_payload event) ''contact_ref'')) (\<lambda>contact_ref.
           rbind (payload_ref (pget (ev_payload event) ''campaign_ref'')) (\<lambda>campaign_ref.
           AcquisitionOpportunity \<lparr>
             opp_acquisition_opportunity_id = ev_acquisition_opportunity_id event,
             opp_identity_key = identity_key,
             opp_state = DISCOVERED,
             opp_stream_version = 1,
             opp_state_machine_version = ev_state_machine_version event,
             opp_signal_ref = signal_ref,
             opp_supplier_ref = supplier_ref,
             opp_contact_ref = contact_ref,
             opp_campaign_ref = campaign_ref,
             opp_decision = None,
             opp_reason_codes = ev_reason_codes event,
             opp_confidence = ev_confidence event,
             opp_evidence_refs = ev_evidence_refs event,
             opp_next_action = None,
             opp_next_review_at = None,
             opp_retry_count = 0,
             opp_retry_at = None,
             opp_last_error_category = None,
             opp_policy_version = ev_policy_version event,
             opp_skill_version = ev_skill_version event,
             opp_supervisor_version = ev_supervisor_version event,
             opp_estimated_cost = ev_estimated_cost event,
             opp_last_event_id = ev_event_id event,
             opp_created_at = ev_recorded_at event,
             opp_updated_at = ev_recorded_at event \<rparr>)))
       | _ \<Rightarrow> Inl InvalidTransition))"

definition transitioned :: "opportunity \<Rightarrow> event \<Rightarrow> (acq_error, opportunity) result" where
  "transitioned current event =
     (let p = ev_payload event in
      case parse_state (pget p ''target_state'') of None \<Rightarrow> Inl InvalidTransition
      | Some target \<Rightarrow>
        rbind (require_transition (opp_state current) target) (\<lambda>_.
        rbind (datetime_payload p ''next_review_at'') (\<lambda>next_review_at.
        rbind (if target = HOLD then require_hold_metadata event next_review_at else Inr ()) (\<lambda>_.
        rbind (if phas p ''campaign_ref''
               then (case clean_ref (pget p ''campaign_ref'') of
                       None \<Rightarrow> Inl InvalidTransition
                     | Some ref \<Rightarrow>
                         if opp_state current \<noteq> SEND \<or> target \<noteq> QUEUED
                            \<or> opp_campaign_ref current \<noteq> None \<or> ev_reason_codes event = []
                         then Inl InvalidTransition else Inr (Some ref))
               else Inr None) (\<lambda>bound.
        Inr ((common_updates event current)\<lparr>
          opp_state := target,
          opp_reason_codes := nonempty_or (ev_reason_codes event) (opp_reason_codes current),
          opp_evidence_refs := nonempty_or (ev_evidence_refs event) (opp_evidence_refs current),
          opp_confidence := or_else (ev_confidence event) (opp_confidence current),
          opp_next_review_at := or_else next_review_at (opp_next_review_at current),
          opp_campaign_ref := or_else bound (opp_campaign_ref current) \<rparr>))))))"

definition expected_action :: "decision \<Rightarrow> json option" where
  \<comment> \<open>\<open>expected_actions\<close> of decision-policy-v1; \<open>None\<close> when the decision is not a key\<close>
  "expected_action d = (case d of D_SEND \<Rightarrow> Some (JStr ''prepare_campaign'')
     | D_REVIEW \<Rightarrow> Some (JStr ''request_human_review'') | D_NO_SEND \<Rightarrow> Some JNull | _ \<Rightarrow> None)"

definition spec023_ok :: "decision \<Rightarrow> event \<Rightarrow> bool" where
  "spec023_ok d event \<longleftrightarrow>
     (let p = ev_payload event in
      list_all (\<lambda>k. k \<in> {''decision'', ''next_action'', ''next_review_at''}) (map fst p) \<and>
      expected_action d = Some (pget p ''next_action'') \<and>
      pget p ''next_review_at'' = JNull \<and>
      ev_reason_codes event \<noteq> [] \<and> ev_evidence_refs event \<noteq> [] \<and>
      ev_confidence event = None)"

definition decision_recorded :: "opportunity \<Rightarrow> event \<Rightarrow> (acq_error, opportunity) result" where
  "decision_recorded current event =
     (let p = ev_payload event in
      case parse_decision (pget p ''decision'') of None \<Rightarrow> Inl InvalidTransition
      | Some d \<Rightarrow>
        rbind (require_transition (opp_state current) (DECISION_STATES d)) (\<lambda>_.
        rbind (ensure (phas p ''next_action'' \<longrightarrow> spec023_ok d event) InvalidTransition) (\<lambda>_.
        rbind (datetime_payload p ''next_review_at'') (\<lambda>next_review_at.
        rbind (if d = D_HOLD then require_hold_metadata event next_review_at else Inr ()) (\<lambda>_.
        Inr ((common_updates event current)\<lparr>
          opp_decision := Some d,
          opp_state := DECISION_STATES d,
          opp_reason_codes := ev_reason_codes event,
          opp_evidence_refs := ev_evidence_refs event,
          opp_confidence := ev_confidence event,
          opp_next_review_at := next_review_at,
          opp_next_action := (if phas p ''next_action'' then json_str_opt (pget p ''next_action'')
                              else opp_next_action current) \<rparr>))))))"

definition outcome_recorded :: "opportunity \<Rightarrow> event \<Rightarrow> (acq_error, opportunity) result" where
  "outcome_recorded current event =
     (case parse_state (pget (ev_payload event) ''outcome_state'') of None \<Rightarrow> Inl InvalidTransition
      | Some target \<Rightarrow>
        (case (OUTCOME_RANK (opp_state current), OUTCOME_RANK target) of
           (Some here, Some there) \<Rightarrow>
             Inr ((common_updates event current)\<lparr>
               opp_state := (if here < there then target else opp_state current),
               opp_reason_codes := nonempty_or (ev_reason_codes event) (opp_reason_codes current),
               opp_evidence_refs := nonempty_or (ev_evidence_refs event) (opp_evidence_refs current) \<rparr>)
         | _ \<Rightarrow> Inl InvalidTransition))"

definition next_action_set :: "opportunity \<Rightarrow> event \<Rightarrow> (acq_error, opportunity) result" where
  "next_action_set current event =
     (let p = ev_payload event in
      if \<not> phas p ''next_action'' then Inl InvalidTransition else
      (case pget p ''next_action'' of
         JNull \<Rightarrow>
           if ev_reason_codes event = [] then Inl InvalidTransition
           else Inr ((common_updates event current)\<lparr>
                  opp_next_action := None, opp_reason_codes := ev_reason_codes event \<rparr>)
       | JStr a \<Rightarrow>
           if a \<in> set ALLOWED_NEXT_ACTIONS
           then Inr ((common_updates event current)\<lparr> opp_next_action := Some a \<rparr>)
           else Inl InvalidTransition
       | _ \<Rightarrow> Inl InvalidTransition))"

definition retry_scheduled :: "opportunity \<Rightarrow> event \<Rightarrow> (acq_error, opportunity) result" where
  "retry_scheduled current event =
     rbind (datetime_payload (ev_payload event) ''retry_at'') (\<lambda>retry_at.
     (case (retry_at, json_str_opt (pget (ev_payload event) ''error_category'')) of
        (Some due, Some error_category) \<Rightarrow>
          if py_strip error_category = [] then Inl InvalidTransition
          else Inr ((common_updates event current)\<lparr>
            opp_retry_count := opp_retry_count current + 1,
            opp_retry_at := Some due,
            opp_last_error_category := Some error_category,
            opp_reason_codes := nonempty_or (ev_reason_codes event) (opp_reason_codes current) \<rparr>)
      | _ \<Rightarrow> Inl InvalidTransition))"

definition exact_keys :: "payload \<Rightarrow> string list \<Rightarrow> bool" where
  \<comment> \<open>\<open>set(payload) == {...}\<close>\<close>
  "exact_keys p ks \<longleftrightarrow> set (map fst p) = set ks"

definition contact_selected :: "opportunity \<Rightarrow> event \<Rightarrow> (acq_error, opportunity) result" where
  "contact_selected current event =
     (let p = ev_payload event in
      if \<not> exact_keys p [''contact_ref'', ''supplier_ref''] then Inl InvalidTransition
      else if opp_state current \<noteq> DISCOVERED then Inl InvalidTransition
      else (case (opp_supplier_ref current, clean_ref (pget p ''supplier_ref'')) of
        (Some own, Some supplier_ref) \<Rightarrow>
          if own = [] \<or> supplier_ref \<noteq> own then Inl InvalidTransition
          else if opp_contact_ref current \<noteq> None then Inl InvalidTransition
          else (case clean_ref (pget p ''contact_ref'') of
                  None \<Rightarrow> Inl InvalidTransition
                | Some contact_ref \<Rightarrow>
                    Inr ((common_updates event current)\<lparr> opp_contact_ref := Some contact_ref \<rparr>))
      | _ \<Rightarrow> Inl InvalidTransition))"

definition reduce_v1 :: "opportunity option \<Rightarrow> event \<Rightarrow> (acq_error, opportunity) result" where
  "reduce_v1 co event =
     (case co of
        None \<Rightarrow> if ev_event_type event \<noteq> OPPORTUNITY_CREATED then Inl InvalidTransition
                else created event
      | Some current \<Rightarrow>
          if ev_acquisition_opportunity_id event \<noteq> opp_acquisition_opportunity_id current
          then Inl InvalidTransition
          else if ev_stream_sequence event \<noteq> opp_stream_version current + 1
          then Inl InvalidTransition
          else (case ev_event_type event of
              STATE_TRANSITIONED \<Rightarrow> transitioned current event
            | DECISION_RECORDED \<Rightarrow> decision_recorded current event
            | OUTCOME_RECORDED \<Rightarrow> outcome_recorded current event
            | NEXT_ACTION_SET \<Rightarrow> next_action_set current event
            | RETRY_SCHEDULED \<Rightarrow> retry_scheduled current event
            | CONTACT_SELECTED \<Rightarrow> contact_selected current event
            | SUPERVISOR_PLAN_OBSERVED \<Rightarrow> Inr (common_updates event current)
            | POLICY_EVALUATED \<Rightarrow> Inr (common_updates event current)
            | OPPORTUNITY_CREATED \<Rightarrow> Inl InvalidTransition))"

definition reduce_event :: "opportunity option \<Rightarrow> event \<Rightarrow> (acq_error, opportunity) result" where
  "reduce_event current event =
     (if ev_state_machine_version event = STATE_MACHINE_VERSION then reduce_v1 current event
      else Inl (UnsupportedStateMachineVersion (ev_state_machine_version event)))"

fun replay_from :: "opportunity option \<Rightarrow> event list \<Rightarrow> (acq_error, opportunity option) result" where
  "replay_from current [] = Inr current"
| "replay_from current (event # events) =
     rbind (reduce_event current event) (\<lambda>next. replay_from (Some next) events)"

definition replay :: "event list \<Rightarrow> (acq_error, opportunity) result" where
  "replay events = rbind (replay_from None events) (\<lambda>current.
     case current of None \<Rightarrow> Inl InvalidTransition | Some p \<Rightarrow> Inr p)"


section \<open>What a reducer may change\<close>

text \<open>One elimination rule per reducer: what an accepted event satisfied, and the next projection.\<close>

lemma transitionedE:
  assumes "transitioned c e = Inr n"
  obtains target review bound where
    "parse_state (pget (ev_payload e) ''target_state'') = Some target"
    "target \<in> set (TRANSITIONS (opp_state c))"
    "datetime_payload (ev_payload e) ''next_review_at'' = Inr review"
    "target = HOLD \<longrightarrow> ev_reason_codes e \<noteq> [] \<and> review \<noteq> None"
    "bound \<noteq> None \<longrightarrow> opp_state c = SEND \<and> target = QUEUED \<and> opp_campaign_ref c = None"
    "clean_opt 256 bound"
    "n = (common_updates e c)\<lparr>
       opp_state := target,
       opp_reason_codes := nonempty_or (ev_reason_codes e) (opp_reason_codes c),
       opp_evidence_refs := nonempty_or (ev_evidence_refs e) (opp_evidence_refs c),
       opp_confidence := or_else (ev_confidence e) (opp_confidence c),
       opp_next_review_at := or_else review (opp_next_review_at c),
       opp_campaign_ref := or_else bound (opp_campaign_ref c) \<rparr>"
proof -
  have clean: "clean_ref j = Some s \<Longrightarrow> clean_str 256 s" for j s
    by (auto simp: clean_ref_def clean_str_def split: json.split_asm if_split_asm)
  from assms show thesis
    unfolding transitioned_def Let_def
    by (auto simp: require_transition_def require_hold_metadata_def
        split: option.split_asm if_split_asm dest: clean intro!: that)
qed

lemma decision_recordedE:
  assumes "decision_recorded c e = Inr n"
  obtains d review where
    "parse_decision (pget (ev_payload e) ''decision'') = Some d"
    "DECISION_STATES d \<in> set (TRANSITIONS (opp_state c))"
    "phas (ev_payload e) ''next_action'' \<longrightarrow> spec023_ok d e"
    "datetime_payload (ev_payload e) ''next_review_at'' = Inr review"
    "d = D_HOLD \<longrightarrow> ev_reason_codes e \<noteq> [] \<and> review \<noteq> None"
    "n = (common_updates e c)\<lparr>
       opp_decision := Some d, opp_state := DECISION_STATES d,
       opp_reason_codes := ev_reason_codes e, opp_evidence_refs := ev_evidence_refs e,
       opp_confidence := ev_confidence e, opp_next_review_at := review,
       opp_next_action := (if phas (ev_payload e) ''next_action''
         then json_str_opt (pget (ev_payload e) ''next_action'') else opp_next_action c) \<rparr>"
  using assms unfolding decision_recorded_def Let_def
  by (auto simp: require_transition_def require_hold_metadata_def
      split: option.split_asm if_split_asm intro!: that)

lemma outcome_recordedE:
  assumes "outcome_recorded c e = Inr n"
  obtains target here there where
    "parse_state (pget (ev_payload e) ''outcome_state'') = Some target"
    "OUTCOME_RANK (opp_state c) = Some here" "OUTCOME_RANK target = Some there"
    "n = (common_updates e c)\<lparr>
       opp_state := (if here < there then target else opp_state c),
       opp_reason_codes := nonempty_or (ev_reason_codes e) (opp_reason_codes c),
       opp_evidence_refs := nonempty_or (ev_evidence_refs e) (opp_evidence_refs c) \<rparr>"
  using assms unfolding outcome_recorded_def by (auto split: option.split_asm intro: that)

lemma next_action_setE:
  assumes "next_action_set c e = Inr n"
  obtains (clear) "pget (ev_payload e) ''next_action'' = JNull" "ev_reason_codes e \<noteq> []"
      "n = (common_updates e c)\<lparr> opp_next_action := None, opp_reason_codes := ev_reason_codes e \<rparr>"
  | (set_to) a where "pget (ev_payload e) ''next_action'' = JStr a" "a \<in> set ALLOWED_NEXT_ACTIONS"
      "n = (common_updates e c)\<lparr> opp_next_action := Some a \<rparr>"
  using assms unfolding next_action_set_def Let_def
  by (auto split: json.split_asm if_split_asm intro: that)

lemma retry_scheduledE:
  assumes "retry_scheduled c e = Inr n"
  obtains due category where
    "datetime_payload (ev_payload e) ''retry_at'' = Inr (Some due)"
    "json_str_opt (pget (ev_payload e) ''error_category'') = Some category"
    "py_strip category \<noteq> []"
    "n = (common_updates e c)\<lparr>
       opp_retry_count := opp_retry_count c + 1, opp_retry_at := Some due,
       opp_last_error_category := Some category,
       opp_reason_codes := nonempty_or (ev_reason_codes e) (opp_reason_codes c) \<rparr>"
  using assms unfolding retry_scheduled_def
  by (cases "datetime_payload (ev_payload e) ''retry_at''")
     (auto split: option.split_asm if_split_asm intro: that)

lemma contact_selectedE:
  assumes "contact_selected c e = Inr n"
  obtains own contact where
    "exact_keys (ev_payload e) [''contact_ref'', ''supplier_ref'']"
    "opp_state c = DISCOVERED" "opp_contact_ref c = None"
    "opp_supplier_ref c = Some own" "own \<noteq> []"
    "clean_ref (pget (ev_payload e) ''supplier_ref'') = Some own"
    "clean_ref (pget (ev_payload e) ''contact_ref'') = Some contact"
    "n = (common_updates e c)\<lparr> opp_contact_ref := Some contact \<rparr>"
  using assms unfolding contact_selected_def Let_def
  by (auto split: option.split_asm if_split_asm intro: that)

lemmas reducerE = transitionedE decision_recordedE outcome_recordedE next_action_setE
  retry_scheduledE contact_selectedE

lemma reduce_Some_Inr:
  "reduce_event (Some c) e = Inr n \<longleftrightarrow>
     ev_state_machine_version e = STATE_MACHINE_VERSION \<and>
     ev_acquisition_opportunity_id e = opp_acquisition_opportunity_id c \<and>
     ev_stream_sequence e = opp_stream_version c + 1 \<and>
     (case ev_event_type e of
        STATE_TRANSITIONED \<Rightarrow> transitioned c e = Inr n
      | DECISION_RECORDED \<Rightarrow> decision_recorded c e = Inr n
      | OUTCOME_RECORDED \<Rightarrow> outcome_recorded c e = Inr n
      | NEXT_ACTION_SET \<Rightarrow> next_action_set c e = Inr n
      | RETRY_SCHEDULED \<Rightarrow> retry_scheduled c e = Inr n
      | CONTACT_SELECTED \<Rightarrow> contact_selected c e = Inr n
      | SUPERVISOR_PLAN_OBSERVED \<Rightarrow> common_updates e c = n
      | POLICY_EVALUATED \<Rightarrow> common_updates e c = n
      | OPPORTUNITY_CREATED \<Rightarrow> False)"
  by (cases "ev_event_type e") (auto simp: reduce_event_def reduce_v1_def)

lemma reduce_None_Inr:
  "reduce_event None e = Inr n \<longleftrightarrow>
     ev_state_machine_version e = STATE_MACHINE_VERSION \<and>
     ev_event_type e = OPPORTUNITY_CREATED \<and> created e = Inr n"
  by (auto simp: reduce_event_def reduce_v1_def)

text \<open>The fields no event changes, and the ones every event sets.\<close>

definition same_identity :: "opportunity \<Rightarrow> opportunity \<Rightarrow> bool" where
  "same_identity c n \<longleftrightarrow>
     opp_acquisition_opportunity_id n = opp_acquisition_opportunity_id c \<and>
     opp_identity_key n = opp_identity_key c \<and> opp_signal_ref n = opp_signal_ref c \<and>
     opp_supplier_ref n = opp_supplier_ref c \<and> opp_created_at n = opp_created_at c"

definition stamped :: "event \<Rightarrow> opportunity \<Rightarrow> bool" where
  "stamped e n \<longleftrightarrow>
     opp_stream_version n = ev_stream_sequence e \<and> opp_last_event_id n = ev_event_id e \<and>
     opp_updated_at n = ev_recorded_at e \<and>
     opp_state_machine_version n = ev_state_machine_version e"

lemma common_updates_frame: "same_identity c (common_updates e c) \<and> stamped e (common_updates e c)"
  by (simp add: common_updates_def same_identity_def stamped_def)

text \<open>The cases of an accepted event after the first, one per reducer.\<close>

lemma reduce_cases:
  assumes "reduce_event (Some c) e = Inr n"
  obtains (transition) "ev_event_type e = STATE_TRANSITIONED" "transitioned c e = Inr n"
  | (decision) "ev_event_type e = DECISION_RECORDED" "decision_recorded c e = Inr n"
  | (outcome) "ev_event_type e = OUTCOME_RECORDED" "outcome_recorded c e = Inr n"
  | (action) "ev_event_type e = NEXT_ACTION_SET" "next_action_set c e = Inr n"
  | (retry) "ev_event_type e = RETRY_SCHEDULED" "retry_scheduled c e = Inr n"
  | (contact) "ev_event_type e = CONTACT_SELECTED" "contact_selected c e = Inr n"
  | (audit) "ev_event_type e \<in> {SUPERVISOR_PLAN_OBSERVED, POLICY_EVALUATED}"
      "n = common_updates e c"
  using assms unfolding reduce_Some_Inr by (cases "ev_event_type e") simp_all

lemma reduce_frame:
  assumes "reduce_event (Some c) e = Inr n" shows "same_identity c n \<and> stamped e n"
  using assms common_updates_frame [of c e]
  by (cases rule: reduce_cases) (auto simp: same_identity_def stamped_def elim!: reducerE)

lemma created_frame:
  "created e = Inr n \<Longrightarrow> wf_event e \<Longrightarrow>
     stamped e n \<and> ev_stream_sequence e = 1 \<and> opp_state n = DISCOVERED \<and>
     opp_acquisition_opportunity_id n = ev_acquisition_opportunity_id e \<and> opp_retry_count n = 0"
  unfolding created_def wf_event_def
  by (elim conjE)
     (auto simp: AcquisitionOpportunity_Inr strip_opportunity_def stamped_def strip_id_simps
       split: option.split_asm json.split_asm if_split_asm)


section \<open>The funnel as a step relation\<close>

text \<open>
  The abstract machine: an opportunity stays where it is, follows an edge of the transition table,
  or advances to an outcome of higher rank. Every accepted event refines one abstract step.
\<close>

inductive funnel :: "acquisition_state \<Rightarrow> acquisition_state \<Rightarrow> bool" where
  stay: "funnel s s"
| move: "t \<in> set (TRANSITIONS s) \<Longrightarrow> funnel s t"
| outcome: "OUTCOME_RANK s = Some a \<Longrightarrow> OUTCOME_RANK t = Some b \<Longrightarrow> a < b \<Longrightarrow> funnel s t"

inductive_cases funnelE: "funnel s t"

lemma common_updates_same [simp]:
  "opp_contact_ref (common_updates e c) = opp_contact_ref c"
  "opp_campaign_ref (common_updates e c) = opp_campaign_ref c"
  "opp_retry_count (common_updates e c) = opp_retry_count c"
  "opp_reason_codes (common_updates e c) = opp_reason_codes c"
  "opp_next_review_at (common_updates e c) = opp_next_review_at c"
  "opp_state (common_updates e c) = opp_state c"
  by (simp_all add: common_updates_def)

lemma reduce_funnel:
  assumes "reduce_event (Some c) e = Inr n" shows "funnel (opp_state c) (opp_state n)"
  using assms
  by (cases rule: reduce_cases) (auto elim!: reducerE intro: stay move outcome)

lemma funnel_ranked:
  "funnel s t \<Longrightarrow> OUTCOME_RANK s = Some a \<Longrightarrow> \<exists>b. OUTCOME_RANK t = Some b \<and> a \<le> b"
  by (cases s) (auto elim!: funnelE)

lemma funnel_enters_ranked:
  "funnel s t \<Longrightarrow> OUTCOME_RANK s = None \<Longrightarrow> OUTCOME_RANK t \<noteq> None \<Longrightarrow>
     t = SEND \<and> s \<in> {READY_FOR_DECISION, REVIEW}"
  by (cases s) (auto elim!: funnelE)

lemma funnel_NO_SEND: "funnel NO_SEND t \<longleftrightarrow> t = NO_SEND"
  by (auto elim: funnelE intro: stay)

section \<open>Streams\<close>

text \<open>
  The contract between a reducer and the replay of a stream: the first event has sequence 1, each
  later one follows the version of the projection. Everything about positions, prefixes and
  invariants of a replay follows from it.
\<close>

locale event_stream =
  fixes reduce :: "'s option \<Rightarrow> 'e \<Rightarrow> ('x, 's) result"
    and run :: "'s option \<Rightarrow> 'e list \<Rightarrow> ('x, 's option) result"
    and version :: "'s \<Rightarrow> int"
    and seqno :: "'e \<Rightarrow> int"
  assumes run_Nil: "run c [] = Inr c"
    and run_Cons: "run c (e # es) = rbind (reduce c e) (\<lambda>n. run (Some n) es)"
    and first_version: "reduce None e = Inr s \<Longrightarrow> seqno e = 1 \<and> version s = 1"
    and next_version: "reduce (Some p) e = Inr s \<Longrightarrow> seqno e = version p + 1 \<and> version s = seqno e"
begin

lemma run_append: "run c (xs @ ys) = rbind (run c xs) (\<lambda>n. run n ys)"
proof (induction xs arbitrary: c)
  case Nil
  show ?case by (simp add: run_Nil)
next
  case (Cons e xs)
  then show ?case by (cases "reduce c e") (simp_all add: run_Cons)
qed

lemma run_Some: "run (Some c) es = Inr r \<Longrightarrow> \<exists>s. r = Some s"
  by (induction es arbitrary: c) (auto simp: run_Nil run_Cons)

lemma run_version:
  "run (Some c) es = Inr (Some s) \<Longrightarrow>
     version s = version c + int (length es) \<and>
     map seqno es = map (\<lambda>i. version c + 1 + int i) [0..<length es]"
proof (induction es arbitrary: c)
  case (Cons e es)
  then obtain n where n: "reduce (Some c) e = Inr n" "run (Some n) es = Inr (Some s)"
    by (auto simp: run_Cons)
  have "map seqno es = map (\<lambda>i. version n + 1 + int i) [0..<length es]"
    using Cons.IH n(2) by blast
  also have "\<dots> = map (\<lambda>i. version c + 1 + int i) (map Suc [0..<length es])"
    using next_version [OF n(1)] by simp
  finally show ?case
    using Cons.IH [OF n(2)] next_version [OF n(1)]
    by (simp add: upt_conv_Cons map_Suc_upt del: upt_Suc)
qed (simp add: run_Nil)

lemma run_positions:
  assumes "run None es = Inr (Some s)"
  shows "version s = int (length es) \<and> map seqno es = map (\<lambda>i. 1 + int i) [0..<length es]"
proof (cases es)
  case Nil
  then show ?thesis using assms by (simp add: run_Nil)
next
  case (Cons e rest)
  then obtain n where n: "reduce None e = Inr n" "run (Some n) rest = Inr (Some s)"
    using assms by (auto simp: run_Cons)
  have "map seqno rest = map (\<lambda>i. 1 + int i) (map Suc [0..<length rest])"
    using run_version [OF n(2)] first_version [OF n(1)] by simp
  then show ?thesis using run_version [OF n(2)] first_version [OF n(1)]
    by (simp add: Cons upt_conv_Cons map_Suc_upt del: upt_Suc)
qed

lemma run_invariant:
  assumes "run (Some c) es = Inr (Some s)" and "I c"
    and "\<And>c e n. e \<in> set es \<Longrightarrow> I c \<Longrightarrow> reduce (Some c) e = Inr n \<Longrightarrow> I n"
  shows "I s"
  using assms
proof (induction es arbitrary: c)
  case (Cons e es)
  then show ?case by (auto simp: run_Cons)
qed (simp add: run_Nil)

lemma run_crossing:
  assumes "run (Some c) es = Inr (Some s)" and "\<not> P c" and "P s"
  shows "\<exists>xs e ys m n. es = xs @ e # ys \<and> run (Some c) xs = Inr (Some m) \<and> \<not> P m \<and>
           reduce (Some m) e = Inr n \<and> P n"
  using assms
proof (induction es arbitrary: c)
  case Nil
  then show ?case by (simp add: run_Nil)
next
  case (Cons e es)
  then obtain n where n: "reduce (Some c) e = Inr n" "run (Some n) es = Inr (Some s)"
    by (auto simp: run_Cons)
  show ?case
  proof (cases "P n")
    case True
    with n(1) Cons.prems(2) show ?thesis
      by (intro exI [of _ "[]"] exI [of _ e] exI [of _ es] exI [of _ c] exI [of _ n]) (simp add: run_Nil)
  next
    case False
    from Cons.IH [OF n(2) this Cons.prems(3)] obtain xs e' ys m n'
      where "es = xs @ e' # ys" "run (Some n) xs = Inr (Some m)" "\<not> P m"
        "reduce (Some m) e' = Inr n'" "P n'" by blast
    with n(1) show ?thesis
      by (intro exI [of _ "e # xs"] exI [of _ e'] exI [of _ ys] exI [of _ m] exI [of _ n'])
         (simp add: run_Cons)
  qed
qed

end

lemma created_version: "created e = Inr n \<Longrightarrow> ev_stream_sequence e = 1 \<and> opp_stream_version n = 1"
  by (auto simp: created_def AcquisitionOpportunity_Inr strip_opportunity_def split: option.split_asm json.split_asm if_split_asm)

interpretation acq: event_stream reduce_event replay_from opp_stream_version ev_stream_sequence
proof
  show "reduce_event (Some c) e = Inr s \<Longrightarrow>
      ev_stream_sequence e = opp_stream_version c + 1 \<and> opp_stream_version s = ev_stream_sequence e"
    for c e s
    by (metis reduce_Some_Inr reduce_frame stamped_def)
qed (auto simp: reduce_None_Inr dest: created_version)

lemma replay_Inr: "replay es = Inr p \<longleftrightarrow> replay_from None es = Inr (Some p)"
  by (auto simp: replay_def split: option.splits)

lemma replay_Cons:
  "replay (e # es) = Inr p \<longleftrightarrow>
     (\<exists>n. reduce_event None e = Inr n \<and> replay_from (Some n) es = Inr (Some p))"
  by (auto simp: replay_Inr)

lemma replay_snoc:
  "replay es = Inr c \<Longrightarrow> reduce_event (Some c) e = Inr n \<Longrightarrow> replay (es @ [e]) = Inr n"
  by (simp add: replay_Inr acq.run_append)

lemma replay_decompose:
  assumes "replay es = Inr p"
  obtains e rest n where "es = e # rest" "reduce_event None e = Inr n"
    "replay_from (Some n) rest = Inr (Some p)"
  using assms by (cases es) (auto simp: replay_Inr)


section \<open>Well-formedness\<close>

text \<open>
  A reducer writes \<open>last_error_category\<close> straight from the payload; every other field it writes
  comes from a validated event. \<open>wf_core\<close> is the contract of a projection apart from that field.
\<close>

definition wf_core :: "opportunity \<Rightarrow> bool" where
  "wf_core p \<longleftrightarrow> wf_opportunity (p\<lparr> opp_last_error_category := None \<rparr>)"

lemma clean_opt_or_else: "clean_opt m a \<Longrightarrow> clean_opt m b \<Longrightarrow> clean_opt m (or_else a b)"
  by (cases a) (simp_all add: or_else_def)

lemma opt_range_or_else: "opt_range u a \<Longrightarrow> opt_range u b \<Longrightarrow> opt_range u (or_else a b)"
  by (cases a) (simp_all add: or_else_def)

lemma wf_codes_nonempty_or: "wf_codes m a \<Longrightarrow> wf_codes m b \<Longrightarrow> wf_codes m (nonempty_or a b)"
  by (simp add: nonempty_or_def)

lemma clean_ref_clean: "clean_ref j = Some s \<Longrightarrow> clean_str 256 s"
  by (auto simp: clean_ref_def clean_str_def split: json.split_asm if_split_asm)

lemma allowed_action_clean: "a \<in> set ALLOWED_NEXT_ACTIONS \<Longrightarrow> clean_str 100 a"
proof -
  have "list_all (clean_str 100) ALLOWED_NEXT_ACTIONS" by code_simp
  then show "a \<in> set ALLOWED_NEXT_ACTIONS \<Longrightarrow> clean_str 100 a" by (simp add: list_all_iff)
qed

lemma expected_action_clean:
  "expected_action d = Some j \<Longrightarrow> clean_opt 100 (json_str_opt j)"
proof -
  have "clean_str 100 ''prepare_campaign''" "clean_str 100 ''request_human_review''" by code_simp+
  then show "expected_action d = Some j \<Longrightarrow> clean_opt 100 (json_str_opt j)"
    by (auto simp: expected_action_def json_str_opt_def split: decision.split_asm)
qed

lemma spec023_action:
  "spec023_ok d e \<Longrightarrow> clean_opt 100 (json_str_opt (pget (ev_payload e) ''next_action''))"
  by (auto simp: spec023_ok_def Let_def intro: expected_action_clean)

lemmas wf_core_intros = clean_opt_or_else opt_range_or_else wf_codes_nonempty_or clean_ref_clean
  allowed_action_clean

lemma wf_event_parts:
  assumes "wf_event e"
  shows "1 \<le> ev_stream_sequence e" "clean_str 100 (ev_state_machine_version e)"
    "clean_str 64 (ev_event_id e)" "clean_str 64 (ev_acquisition_opportunity_id e)"
    "clean_opt 100 (ev_policy_version e)" "clean_opt 100 (ev_skill_version e)"
    "clean_opt 100 (ev_supervisor_version e)" "opt_range (Some 1) (ev_confidence e)"
    "opt_range None (ev_estimated_cost e)" "wf_codes MAX_REASON_CODES (ev_reason_codes e)"
    "wf_codes MAX_EVIDENCE_REFS (ev_evidence_refs e)"
  using assms by (simp_all add: wf_event_def)

lemma common_updates_wf: "wf_event e \<Longrightarrow> wf_core c \<Longrightarrow> wf_core (common_updates e c)"
  using wf_event_parts [of e]
  by (simp add: wf_core_def wf_opportunity_def common_updates_def wf_core_intros)

lemma wf_core_updates:
  "wf_core (p\<lparr> opp_state := s \<rparr>) = wf_core p"
  "wf_core (p\<lparr> opp_decision := d \<rparr>) = wf_core p"
  "wf_core (p\<lparr> opp_next_review_at := t \<rparr>) = wf_core p"
  "wf_core (p\<lparr> opp_retry_at := t \<rparr>) = wf_core p"
  "wf_core (p\<lparr> opp_last_error_category := x \<rparr>) = wf_core p"
  "wf_core p \<Longrightarrow> wf_codes MAX_REASON_CODES rs \<Longrightarrow> wf_core (p\<lparr> opp_reason_codes := rs \<rparr>)"
  "wf_core p \<Longrightarrow> wf_codes MAX_EVIDENCE_REFS es \<Longrightarrow> wf_core (p\<lparr> opp_evidence_refs := es \<rparr>)"
  "wf_core p \<Longrightarrow> opt_range (Some 1) q \<Longrightarrow> wf_core (p\<lparr> opp_confidence := q \<rparr>)"
  "wf_core p \<Longrightarrow> clean_opt 256 r \<Longrightarrow> wf_core (p\<lparr> opp_campaign_ref := r \<rparr>)"
  "wf_core p \<Longrightarrow> clean_opt 256 r \<Longrightarrow> wf_core (p\<lparr> opp_contact_ref := r \<rparr>)"
  "wf_core p \<Longrightarrow> clean_opt 100 a \<Longrightarrow> wf_core (p\<lparr> opp_next_action := a \<rparr>)"
  "wf_core p \<Longrightarrow> 0 \<le> k \<Longrightarrow> wf_core (p\<lparr> opp_retry_count := k \<rparr>)"
  by (simp_all add: wf_core_def wf_opportunity_def)

lemma wf_core_parts:
  assumes "wf_core c"
  shows "wf_codes MAX_REASON_CODES (opp_reason_codes c)"
    "wf_codes MAX_EVIDENCE_REFS (opp_evidence_refs c)" "opt_range (Some 1) (opp_confidence c)"
    "clean_opt 256 (opp_campaign_ref c)" "clean_opt 100 (opp_next_action c)"
    "0 \<le> opp_retry_count c"
  using assms by (simp_all add: wf_core_def wf_opportunity_def)

lemma reduce_wf:
  assumes "reduce_event (Some c) e = Inr n" and e: "wf_event e" and c: "wf_core c"
  shows "wf_core n"
proof -
  note upd = wf_core_updates wf_core_intros common_updates_wf [OF e c]
    wf_event_parts [OF e] wf_core_parts [OF c]
  show ?thesis
    using assms(1)
    by (cases rule: reduce_cases)
       (auto simp: upd dest: spec023_action clean_ref_clean elim!: reducerE)
qed

lemma created_wf: "created e = Inr n \<Longrightarrow> wf_core n"
  by (auto simp: created_def AcquisitionOpportunity_Inr wf_core_def wf_opportunity_def
      split: option.split_asm json.split_asm if_split_asm)


section \<open>Invariants of a stream\<close>

lemma reduce_contact_once:
  assumes "reduce_event (Some c) e = Inr n" and "opp_contact_ref c \<noteq> None"
  shows "opp_contact_ref n = opp_contact_ref c"
  using assms by (cases rule: reduce_cases) (auto elim!: reducerE)

lemma reduce_campaign_once:
  assumes "reduce_event (Some c) e = Inr n" and "opp_campaign_ref c \<noteq> None"
  shows "opp_campaign_ref n = opp_campaign_ref c"
  using assms
  by (cases rule: reduce_cases) (auto simp: or_else_def elim!: reducerE split: option.split_asm)

lemma reduce_retry_count:
  assumes "reduce_event (Some c) e = Inr n"
  shows "opp_retry_count n = opp_retry_count c + (if ev_event_type e = RETRY_SCHEDULED then 1 else 0)"
  using assms by (cases rule: reduce_cases) (auto elim!: reducerE)

definition hold_ready :: "opportunity \<Rightarrow> bool" where
  "hold_ready p \<longleftrightarrow>
     (opp_state p = HOLD \<longrightarrow> opp_reason_codes p \<noteq> [] \<and> opp_next_review_at p \<noteq> None)"

lemma DECISION_STATES_HOLD [simp]: "DECISION_STATES d = HOLD \<longleftrightarrow> d = D_HOLD"
  by (cases d) auto

lemma OUTCOME_RANK_HOLD: "OUTCOME_RANK s = Some k \<Longrightarrow> s \<noteq> HOLD"
  by auto

lemma reduce_hold_ready:
  assumes "reduce_event (Some c) e = Inr n" and "hold_ready c" shows "hold_ready n"
  using assms
  by (cases rule: reduce_cases)
     (auto simp: hold_ready_def nonempty_or_def or_else_def dest: OUTCOME_RANK_HOLD
       elim!: reducerE split: option.split if_split_asm)

lemma replay_invariant:
  assumes "replay es = Inr p"
    and "\<And>e n. e \<in> set es \<Longrightarrow> reduce_event None e = Inr n \<Longrightarrow> I n"
    and "\<And>c e n. e \<in> set es \<Longrightarrow> I c \<Longrightarrow> reduce_event (Some c) e = Inr n \<Longrightarrow> I n"
  shows "I p"
proof -
  obtain e rest n where es: "es = e # rest" "reduce_event None e = Inr n"
    "replay_from (Some n) rest = Inr (Some p)"
    using assms(1) by (rule replay_decompose)
  then have "I n" by (intro assms(2)) auto
  then show ?thesis
    by (rule acq.run_invariant [OF es(3)]) (use assms(3) es(1) in auto)
qed

lemma replay_suffix:
  assumes "replay xs = Inr m" and "replay (xs @ ys) = Inr p"
  shows "replay_from (Some m) ys = Inr (Some p)"
  using assms by (simp add: replay_Inr acq.run_append)

lemma same_identity_trans: "same_identity a b \<Longrightarrow> same_identity b c \<Longrightarrow> same_identity a c"
  by (simp add: same_identity_def)

lemma created_id:
  "created e = Inr n \<Longrightarrow> wf_event e \<Longrightarrow>
     opp_acquisition_opportunity_id n = ev_acquisition_opportunity_id e"
  using created_frame by blast

lemma run_same_id:
  "replay_from (Some c) es = Inr (Some p) \<Longrightarrow>
     (\<forall>e \<in> set es. ev_acquisition_opportunity_id e = opp_acquisition_opportunity_id c) \<and>
     opp_acquisition_opportunity_id p = opp_acquisition_opportunity_id c"
proof (induction es arbitrary: c)
  case (Cons e es)
  then obtain n where n: "reduce_event (Some c) e = Inr n" "replay_from (Some n) es = Inr (Some p)"
    by auto
  then have "opp_acquisition_opportunity_id n = opp_acquisition_opportunity_id c"
    using reduce_frame same_identity_def by blast
  with Cons.IH [OF n(2)] n(1) show ?case by (auto simp: reduce_Some_Inr)
qed simp

lemma run_retry_count:
  "replay_from (Some c) es = Inr (Some p) \<Longrightarrow>
     opp_retry_count p =
       opp_retry_count c + int (length (filter (\<lambda>e. ev_event_type e = RETRY_SCHEDULED) es))"
proof (induction es arbitrary: c)
  case (Cons e es)
  then obtain n where "reduce_event (Some c) e = Inr n" "replay_from (Some n) es = Inr (Some p)"
    by auto
  with Cons.IH show ?case by (force dest: reduce_retry_count)
qed simp


section \<open>A sample stream\<close>

definition sample_event :: "int \<Rightarrow> event_type \<Rightarrow> string list \<Rightarrow> payload \<Rightarrow> event" where
  "sample_event n ty reasons p = \<lparr>
     ev_event_id = ''e'' @ int_str n, ev_acquisition_opportunity_id = ''opp-1'',
     ev_stream_sequence = n, ev_event_type = ty, ev_schema_version = 1,
     ev_state_machine_version = STATE_MACHINE_VERSION,
     ev_occurred_at = 100 + n, ev_recorded_at = 100 + n, ev_actor_type = SYSTEM,
     ev_actor_ref = None, ev_idempotency_key = ''k'' @ int_str n,
     ev_semantic_fingerprint = replicate 64 (CHR ''0''),
     ev_correlation_id = None, ev_causation_id = None, ev_reason_codes = reasons,
     ev_evidence_refs = [''ref''], ev_policy_version = None, ev_skill_version = None,
     ev_supervisor_version = None, ev_confidence = None, ev_estimated_cost = Some (1/2),
     ev_payload = p \<rparr>"

definition sample_created :: event where
  "sample_created = sample_event 1 OPPORTUNITY_CREATED []
     [(''identity_key'', JStr ''id''), (''signal_ref'', JStr ''sig''), (''supplier_ref'', JStr ''sup''),
      (''contact_ref'', JNull), (''campaign_ref'', JNull)]"

definition sample_held :: "event list" where
  \<comment> \<open>created, contact selected, enriched, retried once, put on hold\<close>
  "sample_held = [sample_created,
     sample_event 2 CONTACT_SELECTED []
       [(''contact_ref'', JStr ''con''), (''supplier_ref'', JStr ''sup'')],
     sample_event 3 STATE_TRANSITIONED [] [(''target_state'', JStr ''ENRICHING'')],
     sample_event 4 RETRY_SCHEDULED [''R'']
       [(''retry_at'', JStr ''2026-01-02T00:00:00+00:00''), (''error_category'', JStr ''TIMEOUT'')],
     sample_event 5 STATE_TRANSITIONED [] [(''target_state'', JStr ''READY_FOR_DECISION'')],
     sample_event 6 DECISION_RECORDED [''R'']
       [(''decision'', JStr ''HOLD''), (''next_review_at'', JStr ''2026-01-02T00:00:00+00:00'')]]"

definition sample_resumed :: "event list" where
  \<comment> \<open>back from hold to a SEND decision\<close>
  "sample_resumed = [
     sample_event 7 STATE_TRANSITIONED [] [(''target_state'', JStr ''READY_FOR_DECISION'')],
     sample_event 8 DECISION_RECORDED [''R'']
       [(''decision'', JStr ''SEND''), (''next_action'', JStr ''prepare_campaign'')]]"

definition sample_outcomes :: "event list" where
  \<comment> \<open>queued with its campaign, then two outcomes out of order\<close>
  "sample_outcomes = [
     sample_event 9 STATE_TRANSITIONED [''R'']
       [(''target_state'', JStr ''QUEUED''), (''campaign_ref'', JStr ''cmp'')],
     sample_event 10 OUTCOME_RECORDED [] [(''outcome_state'', JStr ''PAID'')],
     sample_event 11 OUTCOME_RECORDED [] [(''outcome_state'', JStr ''REPLIED'')]]"

definition projected :: "event list \<Rightarrow> opportunity" where
  \<comment> \<open>the projection of a stream that replays\<close>
  "projected es = (case replay es of Inr p \<Rightarrow> p | Inl _ \<Rightarrow> undefined)"

lemma projected_replay: "is_ok (replay es) \<Longrightarrow> replay es = Inr (projected es)"
  by (cases "replay es") (simp_all add: projected_def)

lemma sample_held_ok: "is_ok (replay sample_held)"
  by code_simp

lemma sample_resumed_ok: "is_ok (replay (sample_held @ sample_resumed))"
  by code_simp

lemma sample_outcomes_ok: "is_ok (replay ((sample_held @ sample_resumed) @ sample_outcomes))"
  by code_simp

lemma sample_wf: "list_all wf_event ((sample_held @ sample_resumed) @ sample_outcomes)"
  by code_simp

section \<open>Properties\<close>

text \<open>
  A stream that replays is a gapless, single-opportunity journal: its sequence numbers are
  1, 2, ..., n, every event belongs to the projected opportunity, the projection's version is n and
  its last event id is the last event's.
\<close>

theorem replay_positions:
  assumes "replay es = Inr p" and "list_all wf_event es"
  shows "opp_stream_version p = int (length es) \<and>
    map ev_stream_sequence es = map (\<lambda>i. 1 + int i) [0..<length es] \<and>
    list_all (\<lambda>e. ev_acquisition_opportunity_id e = opp_acquisition_opportunity_id p) es \<and>
    opp_last_event_id p = ev_event_id (last es)"
proof -
  obtain e rest n where es: "es = e # rest" "reduce_event None e = Inr n"
    "replay_from (Some n) rest = Inr (Some p)"
    using assms(1) by (rule replay_decompose)
  have n: "stamped e n" "opp_acquisition_opportunity_id n = ev_acquisition_opportunity_id e"
    using es assms(2) created_frame [of e n] by (auto simp: reduce_None_Inr)
  have "opp_last_event_id p = ev_event_id (last es)"
  proof (cases rest rule: rev_cases)
    case Nil
    then show ?thesis using es n(1) by (simp add: stamped_def)
  next
    case (snoc ys y)
    then have "\<exists>m. reduce_event (Some m) y = Inr p"
      using es(3) by (auto simp: acq.run_append dest: acq.run_Some)
    then show ?thesis using reduce_frame by (auto simp: es(1) snoc stamped_def)
  qed
  then show ?thesis
    using acq.run_positions [of es p] assms(1) run_same_id [OF es(3)] n(2) es(1)
    by (simp add: replay_Inr list_all_iff)
qed

theorem replay_positions_witness:
  "opp_stream_version (projected sample_held) = 6"
  using replay_positions [OF projected_replay [OF sample_held_ok]] sample_wf
  by (simp add: sample_held_def)

text \<open>
  C1. The commercial gate: whenever a stream's projection is in SEND, QUEUED, SENT or any later
  outcome, some event of the stream moved it from READY_FOR_DECISION or REVIEW to SEND. No sequence
  of events reaches a contacted state around the SEND decision.
\<close>

theorem commercial_states_need_send:
  assumes "replay es = Inr p" and "OUTCOME_RANK (opp_state p) \<noteq> None"
  shows "\<exists>before e after m n. es = before @ e # after \<and> replay before = Inr m \<and>
    opp_state m \<in> {READY_FOR_DECISION, REVIEW} \<and> reduce_event (Some m) e = Inr n \<and>
    opp_state n = SEND"
proof -
  obtain f rest c where es: "es = f # rest" "reduce_event None f = Inr c"
    "replay_from (Some c) rest = Inr (Some p)"
    using assms(1) by (rule replay_decompose)
  have "opp_state c = DISCOVERED"
    using es(2) by (auto simp: reduce_None_Inr created_def AcquisitionOpportunity_Inr
        strip_opportunity_def split: option.split_asm if_split_asm)
  then have "\<not> OUTCOME_RANK (opp_state c) \<noteq> None" by simp
  from acq.run_crossing [OF es(3) this assms(2)] obtain xs e ys m n where
    x: "rest = xs @ e # ys" "replay_from (Some c) xs = Inr (Some m)"
      "\<not> OUTCOME_RANK (opp_state m) \<noteq> None" "reduce_event (Some m) e = Inr n"
      "OUTCOME_RANK (opp_state n) \<noteq> None" by blast
  then have "opp_state n = SEND \<and> opp_state m \<in> {READY_FOR_DECISION, REVIEW}"
    using funnel_enters_ranked [OF reduce_funnel [OF x(4)]] by simp
  moreover have "replay (f # xs) = Inr m" using es(2) x(2) by (simp add: replay_Inr)
  ultimately show ?thesis using x(1,4) es(1)
    by (intro exI [of _ "f # xs"] exI [of _ e] exI [of _ ys] exI [of _ m] exI [of _ n]) simp
qed

theorem commercial_states_need_send_witness:
  "\<exists>before e after m n. (sample_held @ sample_resumed) @ sample_outcomes = before @ e # after \<and>
    replay before = Inr m \<and> opp_state m \<in> {READY_FOR_DECISION, REVIEW} \<and>
    reduce_event (Some m) e = Inr n \<and> opp_state n = SEND"
  by (rule commercial_states_need_send [OF projected_replay [OF sample_outcomes_ok]]) code_simp

text \<open>
  C2. Outcomes never regress and NO_SEND is final: extending a stream whose projection has an
  outcome rank yields a rank at least as high, and a stream in NO_SEND stays in NO_SEND.
\<close>

theorem outcomes_never_regress:
  assumes "replay xs = Inr m" and "replay (xs @ ys) = Inr p"
  shows "(\<forall>a. OUTCOME_RANK (opp_state m) = Some a \<longrightarrow>
      (\<exists>b. OUTCOME_RANK (opp_state p) = Some b \<and> a \<le> b)) \<and>
    (opp_state m = NO_SEND \<longrightarrow> opp_state p = NO_SEND)"
proof (intro conjI allI impI)
  note run = replay_suffix [OF assms]
  fix a assume "OUTCOME_RANK (opp_state m) = Some a"
  then show "\<exists>b. OUTCOME_RANK (opp_state p) = Some b \<and> a \<le> b"
    using acq.run_invariant [OF run, of "\<lambda>q. \<exists>b. OUTCOME_RANK (opp_state q) = Some b \<and> a \<le> b"]
    by (meson funnel_ranked order_trans order_refl reduce_funnel)
next
  assume "opp_state m = NO_SEND"
  then show "opp_state p = NO_SEND"
    using acq.run_invariant [OF replay_suffix [OF assms], of "\<lambda>q. opp_state q = NO_SEND"]
    by (metis reduce_funnel funnel_NO_SEND)
qed

theorem outcomes_never_regress_witness:
  "\<exists>b. OUTCOME_RANK (opp_state (projected ((sample_held @ sample_resumed) @ sample_outcomes))) = Some b \<and> 0 \<le> b"
proof -
  have "OUTCOME_RANK (opp_state (projected (sample_held @ sample_resumed))) = Some 0" by code_simp
  with outcomes_never_regress [OF projected_replay [OF sample_resumed_ok]
      projected_replay [OF sample_outcomes_ok]] show ?thesis by blast
qed

text \<open>
  C3. References are write-once: no extension of a stream changes the identity, the signal, the
  supplier or the creation time, nor a contact or campaign reference once it is bound.
\<close>

theorem references_write_once:
  assumes "replay xs = Inr m" and "replay (xs @ ys) = Inr p"
  shows "same_identity m p \<and>
    (opp_contact_ref m \<noteq> None \<longrightarrow> opp_contact_ref p = opp_contact_ref m) \<and>
    (opp_campaign_ref m \<noteq> None \<longrightarrow> opp_campaign_ref p = opp_campaign_ref m)"
proof -
  note inv = acq.run_invariant [OF replay_suffix [OF assms]]
  have "same_identity m p"
    by (rule inv [where I = "same_identity m"])
       (use reduce_frame same_identity_trans in \<open>auto simp: same_identity_def\<close>)
  moreover have "opp_contact_ref m \<noteq> None \<Longrightarrow> opp_contact_ref p = opp_contact_ref m"
    by (rule inv [where I = "\<lambda>q. opp_contact_ref q = opp_contact_ref m"])
       (use reduce_contact_once in auto)
  moreover have "opp_campaign_ref m \<noteq> None \<Longrightarrow> opp_campaign_ref p = opp_campaign_ref m"
    by (rule inv [where I = "\<lambda>q. opp_campaign_ref q = opp_campaign_ref m"])
       (use reduce_campaign_once in auto)
  ultimately show ?thesis by blast
qed

theorem references_write_once_witness:
  "opp_contact_ref (projected ((sample_held @ sample_resumed) @ sample_outcomes)) = Some ''con''"
proof -
  have "opp_contact_ref (projected (sample_held @ sample_resumed)) = Some ''con''" by code_simp
  with references_write_once [OF projected_replay [OF sample_resumed_ok]
      projected_replay [OF sample_outcomes_ok]] show ?thesis by simp
qed

text \<open>
  A replayed projection counts its retries: \<open>retry_count\<close> is the number of RETRY_SCHEDULED
  events of the stream, and an opportunity on HOLD always has its reason codes and a review date.
\<close>

theorem replay_retry_and_hold:
  assumes "replay es = Inr p"
  shows "opp_retry_count p = int (length (filter (\<lambda>e. ev_event_type e = RETRY_SCHEDULED) es)) \<and>
    (opp_state p = HOLD \<longrightarrow> opp_reason_codes p \<noteq> [] \<and> opp_next_review_at p \<noteq> None)"
proof -
  have first: "created e = Inr n \<Longrightarrow> opp_retry_count n = 0 \<and> hold_ready n" for e n
    by (auto simp: created_def AcquisitionOpportunity_Inr strip_opportunity_def hold_ready_def
        split: option.split_asm if_split_asm)
  have "hold_ready p"
    by (rule replay_invariant [OF assms]) (use first reduce_hold_ready in \<open>auto simp: reduce_None_Inr\<close>)
  moreover from assms obtain e rest n where "es = e # rest" "reduce_event None e = Inr n"
    "replay_from (Some n) rest = Inr (Some p)" by (rule replay_decompose)
  then have "opp_retry_count p = int (length (filter (\<lambda>e. ev_event_type e = RETRY_SCHEDULED) es))"
    using run_retry_count first by (auto simp: reduce_None_Inr)
  ultimately show ?thesis by (simp add: hold_ready_def)
qed

theorem replay_retry_and_hold_witness:
  "opp_retry_count (projected sample_held) = 1 \<and> opp_next_review_at (projected sample_held) \<noteq> None"
proof -
  have "length (filter (\<lambda>e. ev_event_type e = RETRY_SCHEDULED) sample_held) = 1"
    and "opp_state (projected sample_held) = HOLD" by code_simp+
  then show ?thesis using replay_retry_and_hold [OF projected_replay [OF sample_held_ok]] by simp
qed

text \<open>
  C4. Replay preserves the contract: the projection of a stream of validated events satisfies every
  field constraint of \<open>AcquisitionOpportunity\<close>, with the exception of \<open>last_error_category\<close>, which
  the reducer copies from the payload unvalidated.
\<close>

theorem replay_well_formed:
  assumes "replay es = Inr p" and "list_all wf_event es"
  shows "wf_opportunity (p\<lparr> opp_last_error_category := None \<rparr>)"
proof -
  have "wf_core p"
    by (rule replay_invariant [OF assms(1)])
       (use assms(2) created_wf reduce_wf in \<open>auto simp: reduce_None_Inr list_all_iff\<close>)
  then show ?thesis by (simp add: wf_core_def)
qed

theorem replay_well_formed_witness:
  "wf_opportunity ((projected sample_held)\<lparr> opp_last_error_category := None \<rparr>)"
  by (rule replay_well_formed [OF projected_replay [OF sample_held_ok]]) (use sample_wf in simp)

end
