(* ===== verification/AcqStore.thy ===== *)
theory AcqStore
  imports AcqState
begin

text \<open>
  The transactional store of \<open>acquisition/store.py\<close> over the tables \<open>acquisition_opportunity\<close> and
  \<open>acquisition_event\<close> of \<open>persistence/schema.py\<close>.

  A table is the list of its rows in insertion order. Writing a row applies the column types of
  PostgreSQL: \<open>NUMERIC(p, s)\<close> rounds, \<open>VARCHAR(n)\<close> drops excess blanks and refuses other excess
  characters and NUL, \<open>INTEGER\<close> has 32 bits; the primary key, unique and foreign key constraints
  refuse a row. A transaction that raises leaves the database as it was, so operations return either
  an error or the new database. The injected clock and identifier factories are the fields of an
  \<open>store_env\<close>.

  \<open>_append\<close> reads in one statement and writes in later ones, so other transactions may commit in
  between: \<open>append_read\<close> and \<open>append_write\<close> are its two halves, \<open>append_event\<close> runs them on one
  database, and \<open>sys_step\<close> interleaves them.
\<close>

section \<open>State and arguments\<close>

record acq_db =
  db_opportunities :: "opportunity list"
  db_events :: "event list"

record store_env =
  env_now :: datetime
  env_event_id :: string
  env_opportunity_id :: string

record mutation_result =
  mr_projection :: opportunity
  mr_event :: event
  mr_replayed :: bool

record append_args =
  aa_event_type :: event_type
  aa_expected_version :: int
  aa_idempotency_key :: string
  aa_payload :: payload
  aa_actor_type :: actor_type
  aa_actor_ref :: "string option"
  aa_reason_codes :: "string list"
  aa_evidence_refs :: "string list"
  aa_policy_version :: "string option"
  aa_skill_version :: "string option"
  aa_supervisor_version :: "string option"
  aa_confidence :: "decimal option"
  aa_estimated_cost :: "decimal option"
  aa_correlation_id :: "string option"
  aa_causation_id :: "string option"
  aa_occurred_at :: "datetime option"

section \<open>Semantic fingerprints\<close>

definition canonical_decimal :: "decimal option \<Rightarrow> json" where
  "canonical_decimal x = opt_str (map_option dec_str x)"

definition canonical_datetime :: "datetime option \<Rightarrow> json" where
  "canonical_datetime t = opt_str (map_option isoformat t)"

definition semantic_input :: "append_args \<Rightarrow> payload" where
  "semantic_input a =
     [(''event_type'', JStr (event_type_value (aa_event_type a))),
      (''state_machine_version'', JStr STATE_MACHINE_VERSION),
      (''actor_type'', JStr (actor_value (aa_actor_type a))),
      (''actor_ref'', opt_str (aa_actor_ref a)),
      (''reason_codes'', str_list (aa_reason_codes a)),
      (''evidence_refs'', str_list (aa_evidence_refs a)),
      (''policy_version'', opt_str (aa_policy_version a)),
      (''skill_version'', opt_str (aa_skill_version a)),
      (''supervisor_version'', opt_str (aa_supervisor_version a)),
      (''confidence'', canonical_decimal (aa_confidence a)),
      (''estimated_cost'', canonical_decimal (aa_estimated_cost a)),
      (''payload'', JObj (aa_payload a)),
      (''correlation_id'', opt_str (aa_correlation_id a)),
      (''causation_id'', opt_str (aa_causation_id a)),
      (''occurred_at'', canonical_datetime (aa_occurred_at a))]"

definition fingerprint :: "payload \<Rightarrow> string" where
  "fingerprint value = sha256_hex (dumps (JObj value))"

section \<open>Rows\<close>

definition no_nul :: "string \<Rightarrow> bool" where
  "no_nul s \<longleftrightarrow> list_all (\<lambda>c. c \<noteq> char_of (0::nat)) s"

definition opt_all :: "('a \<Rightarrow> bool) \<Rightarrow> 'a option \<Rightarrow> bool" where
  "opt_all P x \<longleftrightarrow> (case x of None \<Rightarrow> True | Some v \<Rightarrow> P v)"

definition int4 :: "int \<Rightarrow> bool" where
  "int4 i \<longleftrightarrow> - (2 ^ 31) \<le> i \<and> i < 2 ^ 31"

definition varchar_ok :: "nat \<Rightarrow> string \<Rightarrow> bool" where
  "varchar_ok n s \<longleftrightarrow> no_nul s \<and> list_all (\<lambda>c. c = CHR '' '') (drop n s)"

definition round_event :: "event \<Rightarrow> event" where
  "round_event e = e\<lparr>
     ev_confidence := map_option (num_round 4) (ev_confidence e),
     ev_estimated_cost := map_option (num_round 6) (ev_estimated_cost e) \<rparr>"

definition round_opportunity :: "opportunity \<Rightarrow> opportunity" where
  "round_opportunity p = p\<lparr>
     opp_confidence := map_option (num_round 4) (opp_confidence p),
     opp_estimated_cost := map_option (num_round 6) (opp_estimated_cost p) \<rparr>"

definition event_columns_ok :: "event \<Rightarrow> bool" where
  \<comment> \<open>the contract already bounds every string by the length of its column, but for
      \<open>state_machine_version\<close>\<close>
  "event_columns_ok e \<longleftrightarrow>
     list_all no_nul [ev_event_id e, ev_acquisition_opportunity_id e, ev_idempotency_key e,
       ev_semantic_fingerprint e] \<and>
     varchar_ok 64 (ev_state_machine_version e) \<and>
     list_all (opt_all no_nul) [ev_actor_ref e, ev_correlation_id e, ev_causation_id e,
       ev_policy_version e, ev_skill_version e, ev_supervisor_version e] \<and>
     int4 (ev_stream_sequence e) \<and> int4 (ev_schema_version e) \<and>
     opt_all (num_fits 5 4) (ev_confidence e) \<and> opt_all (num_fits 18 6) (ev_estimated_cost e)"

definition event_values :: "event \<Rightarrow> event option" where
  "event_values e = (if event_columns_ok e then Some (round_event e) else None)"

definition opportunity_columns_ok :: "opportunity \<Rightarrow> bool" where
  "opportunity_columns_ok p \<longleftrightarrow>
     list_all no_nul [opp_acquisition_opportunity_id p, opp_identity_key p, opp_signal_ref p,
       opp_last_event_id p] \<and>
     varchar_ok 64 (opp_state_machine_version p) \<and>
     list_all (opt_all no_nul) [opp_supplier_ref p, opp_contact_ref p, opp_campaign_ref p,
       opp_next_action p, opp_policy_version p, opp_skill_version p, opp_supervisor_version p] \<and>
     opt_all (varchar_ok 100) (opp_last_error_category p) \<and>
     int4 (opp_stream_version p) \<and> int4 (opp_retry_count p) \<and>
     opt_all (num_fits 5 4) (opp_confidence p) \<and> opt_all (num_fits 18 6) (opp_estimated_cost p)"

definition projection_values :: "opportunity \<Rightarrow> opportunity option" where
  "projection_values p =
     (if opportunity_columns_ok p
      then Some ((round_opportunity p)\<lparr>
             opp_last_error_category := map_option (take 100) (opp_last_error_category p) \<rparr>)
      else None)"

definition event_from_row :: "event \<Rightarrow> (acq_error, event) result" where
  "event_from_row = event_model (\<lambda>_. True) (\<lambda>t. t) (\<lambda>x. x)"

definition projection_from_row :: "opportunity \<Rightarrow> (acq_error, opportunity) result" where
  "projection_from_row = AcquisitionOpportunity"

section \<open>Reads\<close>

definition opportunity_row :: "acq_db \<Rightarrow> string \<Rightarrow> opportunity option" where
  "opportunity_row db oid =
     List.find (\<lambda>r. opp_acquisition_opportunity_id r = oid) (db_opportunities db)"

definition get_opportunity :: "acq_db \<Rightarrow> string \<Rightarrow> (acq_error, opportunity) result" where
  "get_opportunity db oid =
     (case opportunity_row db oid of None \<Rightarrow> Inl (ProjectionNotFound oid)
      | Some row \<Rightarrow> projection_from_row row)"

definition resolve_target_ref :: "acq_db \<Rightarrow> string \<Rightarrow> string list" where
  "resolve_target_ref db target_ref =
     map opp_acquisition_opportunity_id
       (filter (\<lambda>r. opp_acquisition_opportunity_id r = target_ref \<or> opp_identity_key r = target_ref)
         (db_opportunities db))"

definition event_rows :: "acq_db \<Rightarrow> string \<Rightarrow> event list" where
  "event_rows db oid = filter (\<lambda>e. ev_acquisition_opportunity_id e = oid) (db_events db)"

definition list_events :: "acq_db \<Rightarrow> string \<Rightarrow> (acq_error, event list) result" where
  "list_events db oid = traverse event_from_row (sort_key ev_stream_sequence (event_rows db oid))"

definition get_last_event :: "acq_db \<Rightarrow> string \<Rightarrow> (acq_error, event) result" where
  "get_last_event db oid =
     (case rev (sort_key ev_stream_sequence (event_rows db oid)) of
        [] \<Rightarrow> Inl NoResultFound | row # _ \<Rightarrow> event_from_row row)"

definition verify_projection :: "acq_db \<Rightarrow> string \<Rightarrow> (acq_error, projection_verification) result" where
  "verify_projection db oid =
     rbind (get_opportunity db oid) (\<lambda>current.
     rbind (list_events db oid) (\<lambda>events.
     rbind (replay events) (\<lambda>rebuilt.
     Inr (if current = rebuilt then MATCH else MISMATCH))))"

section \<open>Writes\<close>

definition replace_row :: "string \<Rightarrow> opportunity \<Rightarrow> acq_db \<Rightarrow> acq_db" where
  \<comment> \<open>\<open>UPDATE ... WHERE acquisition_opportunity_id = oid\<close>\<close>
  "replace_row oid new db = db\<lparr> db_opportunities :=
     map (\<lambda>r. if opp_acquisition_opportunity_id r = oid then new else r) (db_opportunities db) \<rparr>"

definition rebuild_projection :: "acq_db \<Rightarrow> string \<Rightarrow> (acq_error, acq_db \<times> opportunity) result" where
  "rebuild_projection db oid =
     (case opportunity_row db oid of None \<Rightarrow> Inl (ProjectionNotFound oid)
      | Some locked_row \<Rightarrow>
        rbind (list_events db oid) (\<lambda>events.
        rbind (replay events) (\<lambda>rebuilt.
        (case projection_values rebuilt of None \<Rightarrow> Inl DatabaseError
         | Some values \<Rightarrow>
             Inr (replace_row oid (values\<lparr> opp_acquisition_opportunity_id := oid \<rparr>) db, rebuilt)))))"

definition insert_event :: "acq_db \<Rightarrow> event \<Rightarrow> (acq_error, acq_db) result" where
  "insert_event db event =
     (case event_values event of None \<Rightarrow> Inl DatabaseError
      | Some row \<Rightarrow>
        if list_ex (\<lambda>r. ev_event_id r = ev_event_id row \<or>
              (ev_acquisition_opportunity_id r = ev_acquisition_opportunity_id row \<and>
               (ev_stream_sequence r = ev_stream_sequence row \<or>
                ev_idempotency_key r = ev_idempotency_key row))) (db_events db)
           \<or> opportunity_row db (ev_acquisition_opportunity_id row) = None
        then Inl DatabaseError
        else Inr (db\<lparr> db_events := db_events db @ [row] \<rparr>))"

datatype prepared =
    Replay mutation_result \<comment> \<open>the key is known: return what is stored\<close>
  | Fresh event opportunity \<comment> \<open>the event and the projection to write\<close>

definition event_draft_of :: "store_env \<Rightarrow> string \<Rightarrow> int \<Rightarrow> string \<Rightarrow> append_args \<Rightarrow> event_draft" where
  "event_draft_of env oid sq fp a = \<lparr>
     ev_event_id = env_event_id env,
     ev_acquisition_opportunity_id = oid,
     ev_stream_sequence = sq,
     ev_event_type = aa_event_type a,
     ev_schema_version = EVENT_SCHEMA_VERSION,
     ev_state_machine_version = STATE_MACHINE_VERSION,
     ev_occurred_at = (case aa_occurred_at a of None \<Rightarrow> env_now env | Some t \<Rightarrow> t),
     ev_recorded_at = env_now env,
     ev_actor_type = aa_actor_type a,
     ev_actor_ref = aa_actor_ref a,
     ev_idempotency_key = aa_idempotency_key a,
     ev_semantic_fingerprint = fp,
     ev_correlation_id = aa_correlation_id a,
     ev_causation_id = aa_causation_id a,
     ev_reason_codes = aa_reason_codes a,
     ev_evidence_refs = aa_evidence_refs a,
     ev_policy_version = aa_policy_version a,
     ev_skill_version = aa_skill_version a,
     ev_supervisor_version = aa_supervisor_version a,
     ev_confidence = aa_confidence a,
     ev_estimated_cost = aa_estimated_cost a,
     ev_payload = aa_payload a \<rparr>"

definition append_read ::
  "store_env \<Rightarrow> acq_db \<Rightarrow> string \<Rightarrow> append_args \<Rightarrow> (acq_error, prepared) result" where
  "append_read env db oid a =
     (let fp = fingerprint (semantic_input a) in
      rbind (get_opportunity db oid) (\<lambda>current.
      (case List.find (\<lambda>r. ev_idempotency_key r = aa_idempotency_key a) (event_rows db oid) of
         Some row \<Rightarrow>
           rbind (event_from_row row) (\<lambda>existing.
             if ev_semantic_fingerprint existing \<noteq> fp
             then Inl (IdempotencyConflict (aa_idempotency_key a))
             else Inr (Replay \<lparr> mr_projection = current, mr_event = existing, mr_replayed = True \<rparr>))
       | None \<Rightarrow>
           if opp_stream_version current \<noteq> aa_expected_version a
           then Inl OpportunityConcurrencyConflict
           else rbind (AcquisitionEvent (event_draft_of env oid (aa_expected_version a + 1) fp a)) (\<lambda>event.
                rbind (reduce_event (Some current) event) (\<lambda>next. Inr (Fresh event next))))))"

definition append_write ::
  "acq_db \<Rightarrow> string \<Rightarrow> int \<Rightarrow> event \<Rightarrow> opportunity \<Rightarrow> (acq_error, acq_db \<times> mutation_result) result" where
  "append_write db oid expected_version event next =
     (case opportunity_row db oid of None \<Rightarrow> Inl OpportunityConcurrencyConflict
      | Some row \<Rightarrow>
        if opp_stream_version row \<noteq> expected_version then Inl OpportunityConcurrencyConflict
        else (case projection_values next of None \<Rightarrow> Inl DatabaseError
              | Some values \<Rightarrow>
                  rmap (\<lambda>db'. (db', \<lparr> mr_projection = next, mr_event = event, mr_replayed = False \<rparr>))
                    (insert_event (replace_row oid (values\<lparr> opp_acquisition_opportunity_id := oid \<rparr>) db)
                       event)))"

definition append_event ::
  "store_env \<Rightarrow> acq_db \<Rightarrow> string \<Rightarrow> append_args \<Rightarrow> (acq_error, acq_db \<times> mutation_result) result" where
  "append_event env db oid a =
     rbind (append_read env db oid a) (\<lambda>p.
       case p of Replay r \<Rightarrow> Inr (db, r)
       | Fresh event next \<Rightarrow> append_write db oid (aa_expected_version a) event next)"


section \<open>Creation\<close>

record create_args =
  ca_identity_key :: string
  ca_signal_ref :: string
  ca_idempotency_key :: string
  ca_supplier_ref :: "string option"
  ca_contact_ref :: "string option"
  ca_campaign_ref :: "string option"
  ca_actor_type :: actor_type
  ca_actor_ref :: "string option"
  ca_reason_codes :: "string list"
  ca_evidence_refs :: "string list"
  ca_confidence :: "decimal option"
  ca_policy_version :: "string option"
  ca_skill_version :: "string option"
  ca_supervisor_version :: "string option"
  ca_estimated_cost :: "decimal option"
  ca_correlation_id :: "string option"
  ca_causation_id :: "string option"
  ca_occurred_at :: "datetime option"

definition creation_args :: "create_args \<Rightarrow> append_args" where
  \<comment> \<open>the creation event, in the shape of every other event\<close>
  "creation_args c = \<lparr>
     aa_event_type = OPPORTUNITY_CREATED, aa_expected_version = 0,
     aa_idempotency_key = ca_idempotency_key c,
     aa_payload =
       [(''identity_key'', JStr (ca_identity_key c)), (''signal_ref'', JStr (ca_signal_ref c)),
        (''supplier_ref'', opt_str (ca_supplier_ref c)), (''contact_ref'', opt_str (ca_contact_ref c)),
        (''campaign_ref'', opt_str (ca_campaign_ref c))],
     aa_actor_type = ca_actor_type c, aa_actor_ref = ca_actor_ref c,
     aa_reason_codes = ca_reason_codes c, aa_evidence_refs = ca_evidence_refs c,
     aa_policy_version = ca_policy_version c, aa_skill_version = ca_skill_version c,
     aa_supervisor_version = ca_supervisor_version c, aa_confidence = ca_confidence c,
     aa_estimated_cost = ca_estimated_cost c, aa_correlation_id = ca_correlation_id c,
     aa_causation_id = ca_causation_id c, aa_occurred_at = ca_occurred_at c \<rparr>"

definition identity_row :: "acq_db \<Rightarrow> string \<Rightarrow> opportunity option" where
  "identity_row db key = List.find (\<lambda>r. opp_identity_key r = key) (db_opportunities db)"

definition creation_replay ::
  "acq_db \<Rightarrow> create_args \<Rightarrow> string \<Rightarrow> opportunity \<Rightarrow> (acq_error, mutation_result) result" where
  \<comment> \<open>what both lookups do with an existing row\<close>
  "creation_replay db c fp existing_row =
     rbind (projection_from_row existing_row) (\<lambda>existing.
     (case List.find (\<lambda>e. ev_stream_sequence e = 1)
             (event_rows db (opp_acquisition_opportunity_id existing)) of
        None \<Rightarrow> Inl NoResultFound
      | Some creation_row \<Rightarrow>
        rbind (event_from_row creation_row) (\<lambda>creation.
          if ev_idempotency_key creation \<noteq> ca_idempotency_key c
          then Inl (AcquisitionIdentityConflict (ca_identity_key c))
          else if ev_semantic_fingerprint creation \<noteq> fp
          then Inl (IdempotencyConflict (ca_idempotency_key c))
          else Inr \<lparr> mr_projection = existing, mr_event = creation, mr_replayed = True \<rparr>)))"

definition create_read ::
  "store_env \<Rightarrow> acq_db \<Rightarrow> create_args \<Rightarrow> (acq_error, prepared) result" where
  "create_read env db c =
     (let fp = fingerprint (semantic_input (creation_args c)) in
      case identity_row db (ca_identity_key c) of
        Some existing_row \<Rightarrow> rmap Replay (creation_replay db c fp existing_row)
      | None \<Rightarrow>
        rbind (AcquisitionEvent (event_draft_of env (env_opportunity_id env) 1 fp (creation_args c))) (\<lambda>event.
        rbind (reduce_event None event) (\<lambda>projection. Inr (Fresh event projection))))"

definition create_write ::
  "acq_db \<Rightarrow> create_args \<Rightarrow> event \<Rightarrow> opportunity \<Rightarrow> (acq_error, acq_db \<times> mutation_result) result" where
  "create_write db c event projection =
     (case projection_values projection of None \<Rightarrow> Inl DatabaseError
      | Some row \<Rightarrow>
        (case identity_row db (opp_identity_key row) of
           Some _ \<Rightarrow> \<comment> \<open>\<open>ON CONFLICT (identity_key) DO NOTHING\<close> inserted nothing\<close>
             (case identity_row db (ca_identity_key c) of
                None \<Rightarrow> Inl NoResultFound
              | Some existing_row \<Rightarrow>
                  rmap (\<lambda>r. (db, r))
                    (creation_replay db c (fingerprint (semantic_input (creation_args c))) existing_row))
         | None \<Rightarrow>
             if opportunity_row db (opp_acquisition_opportunity_id row) \<noteq> None then Inl DatabaseError
             else rmap (\<lambda>db'. (db', \<lparr> mr_projection = projection, mr_event = event, mr_replayed = False \<rparr>))
               (insert_event (db\<lparr> db_opportunities := db_opportunities db @ [row] \<rparr>) event)))"

definition create_opportunity ::
  "store_env \<Rightarrow> acq_db \<Rightarrow> create_args \<Rightarrow> (acq_error, acq_db \<times> mutation_result) result" where
  "create_opportunity env db c =
     rbind (create_read env db c) (\<lambda>p.
       case p of Replay r \<Rightarrow> Inr (db, r)
       | Fresh event projection \<Rightarrow> create_write db c event projection)"

section \<open>The public mutations\<close>

definition plain_args :: "event_type \<Rightarrow> int \<Rightarrow> string \<Rightarrow> payload \<Rightarrow> append_args" where
  \<comment> \<open>the defaults of \<open>_append\<close>\<close>
  "plain_args ty v key p = \<lparr>
     aa_event_type = ty, aa_expected_version = v, aa_idempotency_key = key, aa_payload = p,
     aa_actor_type = SYSTEM, aa_actor_ref = None, aa_reason_codes = [], aa_evidence_refs = [],
     aa_policy_version = None, aa_skill_version = None, aa_supervisor_version = None,
     aa_confidence = None, aa_estimated_cost = None, aa_correlation_id = None,
     aa_causation_id = None, aa_occurred_at = None \<rparr>"

definition review_field :: "datetime option \<Rightarrow> payload" where
  "review_field next_review_at =
     (case next_review_at of None \<Rightarrow> [] | Some t \<Rightarrow> [(''next_review_at'', JStr (isoformat t))])"

record caller_args =
  cl_actor_type :: actor_type
  cl_actor_ref :: "string option"
  cl_correlation_id :: "string option"
  cl_causation_id :: "string option"
  cl_occurred_at :: "datetime option"

definition by_actor :: "caller_args \<Rightarrow> append_args \<Rightarrow> append_args" where
  "by_actor cl a = a\<lparr> aa_actor_type := cl_actor_type cl, aa_actor_ref := cl_actor_ref cl,
     aa_occurred_at := cl_occurred_at cl \<rparr>"

definition by_caller :: "caller_args \<Rightarrow> append_args \<Rightarrow> append_args" where
  "by_caller cl a = (by_actor cl a)\<lparr> aa_correlation_id := cl_correlation_id cl,
     aa_causation_id := cl_causation_id cl \<rparr>"

definition transition_state ::
  "store_env \<Rightarrow> acq_db \<Rightarrow> string \<Rightarrow> acquisition_state \<Rightarrow> int \<Rightarrow> string \<Rightarrow> string list \<Rightarrow> string list \<Rightarrow>
   datetime option \<Rightarrow> caller_args \<Rightarrow> (acq_error, acq_db \<times> mutation_result) result" where
  "transition_state env db oid target_state v key reasons evidence next_review_at cl =
     append_event env db oid
       (by_caller cl ((plain_args STATE_TRANSITIONED v key
          ((''target_state'', JStr (state_value target_state)) # review_field next_review_at))
        \<lparr> aa_reason_codes := reasons, aa_evidence_refs := evidence \<rparr>))"

definition record_decision ::
  "store_env \<Rightarrow> acq_db \<Rightarrow> string \<Rightarrow> decision \<Rightarrow> string list \<Rightarrow> string list \<Rightarrow> decimal \<Rightarrow> string \<Rightarrow> string \<Rightarrow>
   string option \<Rightarrow> decimal \<Rightarrow> int \<Rightarrow> string \<Rightarrow> datetime option \<Rightarrow> caller_args \<Rightarrow>
   (acq_error, acq_db \<times> mutation_result) result" where
  "record_decision env db oid d reasons evidence conf policy skill supervisor cost v key next_review_at cl =
     append_event env db oid
       (by_caller cl ((plain_args DECISION_RECORDED v key
          ((''decision'', JStr (decision_value d)) # review_field next_review_at))
        \<lparr> aa_reason_codes := reasons, aa_evidence_refs := evidence, aa_confidence := Some conf,
          aa_policy_version := Some policy, aa_skill_version := Some skill,
          aa_supervisor_version := supervisor, aa_estimated_cost := Some cost \<rparr>))"

definition set_next_action ::
  "store_env \<Rightarrow> acq_db \<Rightarrow> string \<Rightarrow> string \<Rightarrow> int \<Rightarrow> string \<Rightarrow> caller_args \<Rightarrow>
   (acq_error, acq_db \<times> mutation_result) result" where
  "set_next_action env db oid next_action v key cl =
     append_event env db oid
       (by_actor cl (plain_args NEXT_ACTION_SET v key [(''next_action'', JStr next_action)]))"

definition schedule_retry ::
  "store_env \<Rightarrow> acq_db \<Rightarrow> string \<Rightarrow> datetime \<Rightarrow> string \<Rightarrow> string list \<Rightarrow> int \<Rightarrow> string \<Rightarrow> caller_args \<Rightarrow>
   (acq_error, acq_db \<times> mutation_result) result" where
  "schedule_retry env db oid retry_at error_category reasons v key cl =
     append_event env db oid
       (by_actor cl ((plain_args RETRY_SCHEDULED v key
          [(''retry_at'', JStr (isoformat retry_at)), (''error_category'', JStr error_category)])
        \<lparr> aa_reason_codes := reasons \<rparr>))"

definition record_outcome ::
  "store_env \<Rightarrow> acq_db \<Rightarrow> string \<Rightarrow> acquisition_state \<Rightarrow> int \<Rightarrow> string \<Rightarrow> string list \<Rightarrow> string list \<Rightarrow>
   caller_args \<Rightarrow> (acq_error, acq_db \<times> mutation_result) result" where
  "record_outcome env db oid outcome_state v key reasons evidence cl =
     append_event env db oid
       (by_actor cl ((plain_args OUTCOME_RECORDED v key
          [(''outcome_state'', JStr (state_value outcome_state))])
        \<lparr> aa_reason_codes := reasons, aa_evidence_refs := evidence \<rparr>))"

definition record_supervisor_plan_observed ::
  "store_env \<Rightarrow> acq_db \<Rightarrow> string \<Rightarrow> payload \<Rightarrow> string list \<Rightarrow> string list \<Rightarrow> decimal \<Rightarrow> decimal \<Rightarrow> string \<Rightarrow>
   string \<Rightarrow> int \<Rightarrow> string \<Rightarrow> datetime \<Rightarrow> (acq_error, acq_db \<times> mutation_result) result" where
  "record_supervisor_plan_observed env db oid p reasons evidence conf cost supervisor skill v key occurred =
     append_event env db oid
       ((plain_args SUPERVISOR_PLAN_OBSERVED v key p)
        \<lparr> aa_actor_type := HERMES, aa_actor_ref := Some ''kivou-acquisition-supervisor'',
          aa_reason_codes := reasons, aa_evidence_refs := evidence, aa_skill_version := Some skill,
          aa_supervisor_version := Some supervisor, aa_confidence := Some conf,
          aa_estimated_cost := Some cost, aa_occurred_at := Some occurred \<rparr>)"


section \<open>The row codec commutes with reduction\<close>

text \<open>
  Two projections that agree up to column rounding and the outer whitespace of the error category
  are the same row for every reader. \<open>canon\<close> is that row; the reducer respects it.
\<close>

definition canon :: "opportunity \<Rightarrow> opportunity" where
  "canon p = (round_opportunity p)\<lparr>
     opp_last_error_category := map_option py_strip (opp_last_error_category p) \<rparr>"

lemma canon_sel [simp]:
  "opp_acquisition_opportunity_id (canon p) = opp_acquisition_opportunity_id p"
  "opp_identity_key (canon p) = opp_identity_key p"
  "opp_state (canon p) = opp_state p" "opp_stream_version (canon p) = opp_stream_version p"
  "opp_state_machine_version (canon p) = opp_state_machine_version p"
  "opp_signal_ref (canon p) = opp_signal_ref p" "opp_supplier_ref (canon p) = opp_supplier_ref p"
  "opp_contact_ref (canon p) = opp_contact_ref p" "opp_campaign_ref (canon p) = opp_campaign_ref p"
  "opp_decision (canon p) = opp_decision p" "opp_reason_codes (canon p) = opp_reason_codes p"
  "opp_evidence_refs (canon p) = opp_evidence_refs p" "opp_next_action (canon p) = opp_next_action p"
  "opp_next_review_at (canon p) = opp_next_review_at p" "opp_retry_count (canon p) = opp_retry_count p"
  "opp_retry_at (canon p) = opp_retry_at p" "opp_policy_version (canon p) = opp_policy_version p"
  "opp_skill_version (canon p) = opp_skill_version p"
  "opp_supervisor_version (canon p) = opp_supervisor_version p"
  "opp_last_event_id (canon p) = opp_last_event_id p" "opp_created_at (canon p) = opp_created_at p"
  "opp_updated_at (canon p) = opp_updated_at p"
  "opp_confidence (canon p) = map_option (num_round 4) (opp_confidence p)"
  "opp_estimated_cost (canon p) = map_option (num_round 6) (opp_estimated_cost p)"
  "opp_last_error_category (canon p) = map_option py_strip (opp_last_error_category p)"
  by (simp_all add: canon_def round_opportunity_def)

lemma round_event_sel [simp]:
  "ev_event_id (round_event e) = ev_event_id e"
  "ev_acquisition_opportunity_id (round_event e) = ev_acquisition_opportunity_id e"
  "ev_stream_sequence (round_event e) = ev_stream_sequence e"
  "ev_event_type (round_event e) = ev_event_type e"
  "ev_schema_version (round_event e) = ev_schema_version e"
  "ev_state_machine_version (round_event e) = ev_state_machine_version e"
  "ev_occurred_at (round_event e) = ev_occurred_at e"
  "ev_recorded_at (round_event e) = ev_recorded_at e"
  "ev_actor_type (round_event e) = ev_actor_type e"
  "ev_actor_ref (round_event e) = ev_actor_ref e"
  "ev_correlation_id (round_event e) = ev_correlation_id e"
  "ev_causation_id (round_event e) = ev_causation_id e"
  "ev_idempotency_key (round_event e) = ev_idempotency_key e"
  "ev_semantic_fingerprint (round_event e) = ev_semantic_fingerprint e"
  "ev_reason_codes (round_event e) = ev_reason_codes e"
  "ev_evidence_refs (round_event e) = ev_evidence_refs e"
  "ev_policy_version (round_event e) = ev_policy_version e"
  "ev_skill_version (round_event e) = ev_skill_version e"
  "ev_supervisor_version (round_event e) = ev_supervisor_version e"
  "ev_payload (round_event e) = ev_payload e"
  "ev_confidence (round_event e) = map_option (num_round 4) (ev_confidence e)"
  "ev_estimated_cost (round_event e) = map_option (num_round 6) (ev_estimated_cost e)"
  by (simp_all add: round_event_def)

lemma canon_idem [simp]: "canon (canon p) = canon p"
  by (rule acquisition_opportunity.equality) (simp_all add: option.map_comp comp_def)

lemma round_event_idem [simp]: "round_event (round_event e) = round_event e"
  by (simp add: round_event_def option.map_comp comp_def)

lemma or_else_map: "map_option f (or_else a b) = or_else (map_option f a) (map_option f b)"
  by (simp add: or_else_def split: option.split)

lemma map_option_twice [simp]:
  "map_option (num_round s) (map_option (num_round s) x) = map_option (num_round s) x"
  "map_option py_strip (map_option py_strip y) = map_option py_strip y"
  by (simp_all add: option.map_comp comp_def)

lemma common_updates_sel [simp]:
  "opp_acquisition_opportunity_id (common_updates e c) = opp_acquisition_opportunity_id c"
  "opp_identity_key (common_updates e c) = opp_identity_key c"
  "opp_stream_version (common_updates e c) = ev_stream_sequence e"
  "opp_state_machine_version (common_updates e c) = ev_state_machine_version e"
  "opp_signal_ref (common_updates e c) = opp_signal_ref c"
  "opp_supplier_ref (common_updates e c) = opp_supplier_ref c"
  "opp_decision (common_updates e c) = opp_decision c"
  "opp_evidence_refs (common_updates e c) = opp_evidence_refs c"
  "opp_confidence (common_updates e c) = opp_confidence c"
  "opp_next_action (common_updates e c) = opp_next_action c"
  "opp_retry_at (common_updates e c) = opp_retry_at c"
  "opp_last_error_category (common_updates e c) = opp_last_error_category c"
  "opp_policy_version (common_updates e c) = or_else (ev_policy_version e) (opp_policy_version c)"
  "opp_skill_version (common_updates e c) = or_else (ev_skill_version e) (opp_skill_version c)"
  "opp_supervisor_version (common_updates e c) =
     or_else (ev_supervisor_version e) (opp_supervisor_version c)"
  "opp_estimated_cost (common_updates e c) = or_else (ev_estimated_cost e) (opp_estimated_cost c)"
  "opp_last_event_id (common_updates e c) = ev_event_id e"
  "opp_created_at (common_updates e c) = opp_created_at c"
  "opp_updated_at (common_updates e c) = ev_recorded_at e"
  by (simp_all add: common_updates_def)

lemma canon_updates:
  "canon (p\<lparr> opp_state := s \<rparr>) = (canon p)\<lparr> opp_state := s \<rparr>"
  "canon (p\<lparr> opp_reason_codes := rs \<rparr>) = (canon p)\<lparr> opp_reason_codes := rs \<rparr>"
  "canon (p\<lparr> opp_evidence_refs := rs \<rparr>) = (canon p)\<lparr> opp_evidence_refs := rs \<rparr>"
  "canon (p\<lparr> opp_confidence := x \<rparr>) = (canon p)\<lparr> opp_confidence := map_option (num_round 4) x \<rparr>"
  "canon (p\<lparr> opp_next_review_at := t \<rparr>) = (canon p)\<lparr> opp_next_review_at := t \<rparr>"
  "canon (p\<lparr> opp_campaign_ref := r \<rparr>) = (canon p)\<lparr> opp_campaign_ref := r \<rparr>"
  "canon (p\<lparr> opp_contact_ref := r \<rparr>) = (canon p)\<lparr> opp_contact_ref := r \<rparr>"
  "canon (p\<lparr> opp_decision := d \<rparr>) = (canon p)\<lparr> opp_decision := d \<rparr>"
  "canon (p\<lparr> opp_next_action := a \<rparr>) = (canon p)\<lparr> opp_next_action := a \<rparr>"
  "canon (p\<lparr> opp_retry_count := k \<rparr>) = (canon p)\<lparr> opp_retry_count := k \<rparr>"
  "canon (p\<lparr> opp_retry_at := t \<rparr>) = (canon p)\<lparr> opp_retry_at := t \<rparr>"
  "canon (p\<lparr> opp_last_error_category := y \<rparr>) =
     (canon p)\<lparr> opp_last_error_category := map_option py_strip y \<rparr>"
  by (simp_all add: canon_def round_opportunity_def)

lemma canon_common [simp]:
  "canon (common_updates (round_event e) (canon c)) = canon (common_updates e c)"
  by (rule acquisition_opportunity.equality) (simp_all add: or_else_map)

lemma spec023_round [simp]: "spec023_ok d (round_event e) = spec023_ok d e"
  by (simp add: spec023_ok_def)

lemma rmap_rbind: "rmap g (rbind r f) = rbind r (\<lambda>x. rmap g (f x))"
  by (cases r) simp_all

lemma rmap_option_case:
  "rmap g (case x of None \<Rightarrow> a | Some y \<Rightarrow> b y) = (case x of None \<Rightarrow> rmap g a | Some y \<Rightarrow> rmap g (b y))"
  by (cases x) simp_all

lemma rmap_json_case:
  "rmap g (case j of JNull \<Rightarrow> a | JBool b \<Rightarrow> f b | JInt i \<Rightarrow> h i | JStr s \<Rightarrow> k s | JList l \<Rightarrow> m l | JObj v \<Rightarrow> n v) =
     (case j of JNull \<Rightarrow> rmap g a | JBool b \<Rightarrow> rmap g (f b) | JInt i \<Rightarrow> rmap g (h i)
      | JStr s \<Rightarrow> rmap g (k s) | JList l \<Rightarrow> rmap g (m l) | JObj v \<Rightarrow> rmap g (n v))"
  by (cases j) simp_all

lemmas canon_push = rmap_rbind rmap_option_case rmap_json_case if_distrib [of "rmap canon"]
  canon_updates or_else_map Let_def require_transition_def require_hold_metadata_def

lemma reducers_canon:
  "rmap canon (transitioned (canon c) (round_event e)) = rmap canon (transitioned c e)"
  "rmap canon (decision_recorded (canon c) (round_event e)) = rmap canon (decision_recorded c e)"
  "rmap canon (outcome_recorded (canon c) (round_event e)) = rmap canon (outcome_recorded c e)"
  "rmap canon (next_action_set (canon c) (round_event e)) = rmap canon (next_action_set c e)"
  "rmap canon (retry_scheduled (canon c) (round_event e)) = rmap canon (retry_scheduled c e)"
  "rmap canon (contact_selected (canon c) (round_event e)) = rmap canon (contact_selected c e)"
  by (simp_all add: transitioned_def decision_recorded_def outcome_recorded_def next_action_set_def
      retry_scheduled_def contact_selected_def canon_push cong: option.case_cong json.case_cong if_cong)

lemma reduce_Some_canon:
  "rmap canon (reduce_event (Some (canon c)) (round_event e)) = rmap canon (reduce_event (Some c) e)"
  by (cases "ev_event_type e") (simp_all add: reduce_event_def reduce_v1_def reducers_canon)

lemma opt_range_round:
  "opt_range (Some 1) x \<Longrightarrow> opt_range (Some 1) (map_option (num_round s) x)"
  "opt_range None x \<Longrightarrow> opt_range None (map_option (num_round s) x)"
  by (auto simp: opt_range_def num_round_nonneg num_round_le_one split: option.splits)

lemma wf_round_event: "wf_event e \<Longrightarrow> wf_event (round_event e)"
  by (simp add: wf_event_def opt_range_round)

lemma created_canon:
  assumes "wf_event e"
  shows "rmap canon (created (round_event e)) = rmap canon (created e)"
proof -
  note ranges = wf_event_parts(8,9) [OF assms]
  show ?thesis
    by (simp add: created_def canon_push AcquisitionOpportunity_def strip_opportunity_def
        wf_opportunity_def ranges opt_range_round canon_def round_opportunity_def
        cong: option.case_cong if_cong)
qed

lemma reduce_canon:
  assumes "wf_event e"
  shows "rmap canon (reduce_event (map_option canon c) (round_event e)) = rmap canon (reduce_event c e)"
proof (cases c)
  case None
  then show ?thesis using assms by (simp add: reduce_event_def reduce_v1_def created_canon)
qed (simp add: reduce_Some_canon)

text \<open>
  The contract of a journal whose rows lose information: reading back a coarser projection and a
  coarser event gives the same coarser next projection.
\<close>

locale journal_codec = event_stream reduce run version seqno
  for reduce :: "'s option \<Rightarrow> 'e \<Rightarrow> ('x, 's) result"
    and run :: "'s option \<Rightarrow> 'e list \<Rightarrow> ('x, 's option) result"
    and version :: "'s \<Rightarrow> int" and seqno :: "'e \<Rightarrow> int" +
  fixes coarse :: "'s \<Rightarrow> 's" and coarse_event :: "'e \<Rightarrow> 'e" and admissible :: "'e \<Rightarrow> bool"
  assumes coarse_reduce: "admissible e \<Longrightarrow>
      rmap coarse (reduce (map_option coarse c) (coarse_event e)) = rmap coarse (reduce c e)"
    and coarse_idem: "coarse (coarse s) = coarse s"
    and coarse_event_idem: "coarse_event (coarse_event e) = coarse_event e"
    and coarse_admissible: "admissible e \<Longrightarrow> admissible (coarse_event e)"
begin

lemma reduce_same_coarse:
  assumes "admissible e" and "map_option coarse s = map_option coarse t" and "reduce s e = Inr n"
  shows "\<exists>m. reduce t (coarse_event e) = Inr m \<and> coarse m = coarse n"
proof -
  have "rmap coarse (reduce t (coarse_event e)) =
      rmap coarse (reduce (map_option coarse t) (coarse_event e))"
    using coarse_reduce [OF coarse_admissible [OF assms(1)], of t] by (simp add: coarse_event_idem)
  also have "\<dots> = rmap coarse (reduce s e)"
    using coarse_reduce [OF assms(1), of s] assms(2) by simp
  finally show ?thesis using assms(3) by (auto dest: sym)
qed

text \<open>Appending an event to a journal whose stored projection is coarse keeps them in step.\<close>

lemma append_in_step:
  assumes "run None es = Inr (Some p)" and "coarse p = coarse s"
    and "admissible e" and "reduce (Some s) e = Inr n"
  shows "\<exists>q. run None (es @ [coarse_event e]) = Inr (Some q) \<and> coarse q = coarse n"
  using reduce_same_coarse [of e "Some s" "Some p" n] assms by (auto simp: run_append run_Cons run_Nil)

end


interpretation acq: journal_codec reduce_event replay_from opp_stream_version ev_stream_sequence
  canon round_event wf_event
  by unfold_locales (simp_all add: reduce_canon wf_round_event)

section \<open>Rows that are written can be read\<close>

definition nonblank :: "opportunity \<Rightarrow> bool" where
  "nonblank p \<longleftrightarrow> opt_all (\<lambda>s. py_strip s \<noteq> []) (opp_last_error_category p)"

definition row_ok :: "opportunity \<Rightarrow> bool" where
  "row_ok r \<longleftrightarrow> wf_opportunity (canon r) \<and> round_opportunity r = r"

lemma strip_canon: "round_opportunity r = r \<Longrightarrow> strip_opportunity r = strip_opportunity (canon r)"
  by (simp add: strip_opportunity_def canon_def)

lemma read_row:
  assumes "row_ok r" shows "projection_from_row r = Inr (canon r)"
proof -
  have "strip_opportunity r = canon r"
    using assms strip_canon [of r] strip_opportunity_id by (simp add: row_ok_def)
  then show ?thesis using assms
    by (simp add: projection_from_row_def AcquisitionOpportunity_def row_ok_def)
qed

lemma read_event_row: "wf_event e \<Longrightarrow> event_from_row e = Inr e"
  by (simp add: event_from_row_def event_model_def strip_event_id)

lemma length_py_strip: "length (py_strip s) \<le> length s"
  unfolding py_strip_def py_lstrip_def py_rstrip_def
  by (metis length_dropWhile_le length_rev le_trans)

lemma dropWhile_append_all: "list_all P ys \<Longrightarrow> dropWhile P (ys @ xs) = dropWhile P xs"
  by (induction ys) auto

lemma py_strip_append_blanks:
  assumes "list_all (\<lambda>c. c = CHR '' '') ys" shows "py_strip (xs @ ys) = py_strip xs"
proof -
  have sp: "list_all is_space ys"
    using assms by (induction ys) (auto simp: is_space_def)
  show ?thesis
  proof (cases "list_all is_space xs")
    case True
    have none: "list_all is_space zs \<Longrightarrow> dropWhile is_space zs = []" for zs
      by (simp add: list_all_iff)
    have "list_all is_space (xs @ ys)" using sp True by simp
    then show ?thesis using True by (simp only: py_strip_def py_lstrip_def none)
  next
    case False
    then obtain x where "x \<in> set xs" "\<not> is_space x" by (auto simp: list_all_iff)
    then have "dropWhile is_space (xs @ ys) = dropWhile is_space xs @ ys" by (rule dropWhile_append1)
    then show ?thesis using sp
      by (simp add: py_strip_def py_lstrip_def py_rstrip_def dropWhile_append_all list_all_rev)
  qed
qed

lemma py_strip_varchar: "varchar_ok n s \<Longrightarrow> py_strip (take n s) = py_strip s"
  using py_strip_append_blanks [of "drop n s" "take n s"] by (simp add: varchar_ok_def)

lemma projection_values_ok:
  assumes "projection_values n = Some v" and "wf_core n" and "nonblank n"
  shows "row_ok v" and "canon v = canon n"
proof -
  let ?cut = "map_option (take 100) (opp_last_error_category n)"
  have v: "v = (round_opportunity n)\<lparr> opp_last_error_category := ?cut \<rparr>"
    and ok: "opportunity_columns_ok n"
    using assms(1) by (auto simp: projection_values_def split: if_splits)
  have cut: "map_option py_strip ?cut = map_option py_strip (opp_last_error_category n)"
    using ok by (cases "opp_last_error_category n")
      (auto simp: opportunity_columns_ok_def opt_all_def py_strip_varchar)
  then show canon: "canon v = canon n"
    by (simp add: v canon_def round_opportunity_def)
  have len: "py_strip (take 100 s) = py_strip s \<Longrightarrow> length (py_strip s) \<le> 100" for s
    using length_py_strip [of "take 100 s"] by simp
  have "clean_opt 100 (map_option py_strip ?cut)"
    using assms(3) cut by (cases "opp_last_error_category n")
      (auto simp: clean_str_def nonblank_def opt_all_def Suc_le_eq intro: len)
  then have "clean_opt 100 (opp_last_error_category (canon n))" using cut by simp
  then have "wf_opportunity (canon n)"
    using assms(2) by (simp add: wf_core_def wf_opportunity_def opt_range_round)
  then show "row_ok v"
    by (simp add: row_ok_def canon) (simp add: v round_opportunity_def)
qed

lemma reduce_nonblank:
  assumes "reduce_event (Some c) e = Inr n" and "nonblank c" shows "nonblank n"
  using assms
  by (cases rule: reduce_cases) (auto simp: nonblank_def opt_all_def elim!: reducerE)

lemma created_nonblank: "created e = Inr n \<Longrightarrow> nonblank n"
  by (auto simp: created_def AcquisitionOpportunity_Inr strip_opportunity_def nonblank_def opt_all_def
      split: option.split_asm if_split_asm)

lemma wf_canon_core: "wf_opportunity p \<Longrightarrow> wf_core p \<and> nonblank p"
  by (auto simp: wf_core_def wf_opportunity_def nonblank_def opt_all_def clean_str_def
      split: option.split)

section \<open>The invariant of the database\<close>

definition in_step :: "acq_db \<Rightarrow> opportunity \<Rightarrow> bool" where
  \<comment> \<open>the row is the replay of its journal, up to column rounding and outer blanks\<close>
  "in_step db r \<longleftrightarrow>
     (case replay (event_rows db (opp_acquisition_opportunity_id r)) of
        Inl _ \<Rightarrow> False | Inr p \<Rightarrow> canon p = canon r)"

definition journal_ok :: "acq_db \<Rightarrow> bool" where
  "journal_ok db \<longleftrightarrow>
     list_all (\<lambda>e. wf_event e \<and> round_event e = e \<and>
       opportunity_row db (ev_acquisition_opportunity_id e) \<noteq> None) (db_events db) \<and>
     distinct (map ev_event_id (db_events db))"

definition db_ok :: "acq_db \<Rightarrow> bool" where
  "db_ok db \<longleftrightarrow>
     journal_ok db \<and>
     distinct (map opp_acquisition_opportunity_id (db_opportunities db)) \<and>
     distinct (map opp_identity_key (db_opportunities db)) \<and>
     list_all (\<lambda>r. row_ok r \<and> in_step db r) (db_opportunities db)"

lemma opportunity_row_Some:
  "opportunity_row db oid = Some r \<Longrightarrow> r \<in> set (db_opportunities db) \<and> opp_acquisition_opportunity_id r = oid"
  by (auto simp: opportunity_row_def dest: find_Some_set)

lemma opportunity_row_ex:
  "r \<in> set (db_opportunities db) \<Longrightarrow> opportunity_row db (opp_acquisition_opportunity_id r) \<noteq> None"
  by (auto simp: opportunity_row_def find_None_iff)

lemma db_ok_row:
  assumes "db_ok db" and "opportunity_row db oid = Some r"
  shows "row_ok r" "in_step db r" "opp_acquisition_opportunity_id r = oid"
  using assms opportunity_row_Some [OF assms(2)] by (auto simp: db_ok_def list_all_iff)

lemma in_stepE:
  assumes "in_step db r"
  obtains p where "replay (event_rows db (opp_acquisition_opportunity_id r)) = Inr p" "canon p = canon r"
  using assms by (auto simp: in_step_def split: sum.splits)

lemma event_rows_ok:
  assumes "journal_ok db" shows "list_all (\<lambda>e. wf_event e \<and> round_event e = e) (event_rows db oid)"
  using assms by (auto simp: journal_ok_def event_rows_def list_all_iff)

lemma in_step_version:
  assumes "in_step db r" and "journal_ok db"
  shows "opp_stream_version r = int (length (event_rows db (opp_acquisition_opportunity_id r)))"
proof -
  obtain p where p: "replay (event_rows db (opp_acquisition_opportunity_id r)) = Inr p"
    "canon p = canon r" using assms(1) by (rule in_stepE)
  then have "opp_stream_version p = opp_stream_version r" by (metis canon_sel(4))
  then show ?thesis using acq.run_positions p(1) by (simp add: replay_Inr)
qed

lemma find_map_same: "(\<And>x. P (f x) = P x) \<Longrightarrow> List.find P (map f xs) = map_option f (List.find P xs)"
  by (induction xs) auto

lemma find_append: "List.find P (xs @ ys) = (case List.find P xs of None \<Rightarrow> List.find P ys | Some x \<Rightarrow> Some x)"
  by (induction xs) auto

lemma replace_row_simps [simp]:
  "db_events (replace_row oid new db) = db_events db"
  "event_rows (replace_row oid new db) x = event_rows db x"
  by (simp_all add: replace_row_def event_rows_def)

lemma opportunity_row_replace:
  "opp_acquisition_opportunity_id new = oid \<Longrightarrow>
     opportunity_row (replace_row oid new db) x =
       (if x = oid then map_option (\<lambda>_. new) (opportunity_row db oid) else opportunity_row db x)"
proof -
  assume id: "opp_acquisition_opportunity_id new = oid"
  let ?g = "\<lambda>r. if opp_acquisition_opportunity_id r = oid then new else r"
  have "opportunity_row (replace_row oid new db) x = map_option ?g (opportunity_row db x)"
    unfolding opportunity_row_def replace_row_def
    by (simp add: find_map_same [where P = "\<lambda>r. opp_acquisition_opportunity_id r = x"] id)
  then show ?thesis
    by (cases "opportunity_row db x") (auto dest: opportunity_row_Some)
qed

lemma distinct_map_replace:
  assumes "distinct (map f xs)" and "\<And>x. x \<in> set xs \<Longrightarrow> f (g x) = f x"
  shows "distinct (map f (map g xs))"
  using assms by (metis (mono_tags, lifting) map_eq_conv map_map o_apply)

lemma event_rows_append:
  "event_rows (db\<lparr> db_events := db_events db @ es \<rparr>) x =
     event_rows db x @ filter (\<lambda>e. ev_acquisition_opportunity_id e = x) es"
  by (simp add: event_rows_def)

lemma opportunity_row_events [simp]:
  "opportunity_row (db\<lparr> db_events := es \<rparr>) x = opportunity_row db x"
  by (simp add: opportunity_row_def)

text \<open>Replacing a row by the projection of its journal extended by new events keeps the invariant.\<close>

lemma db_ok_replace:
  assumes db: "db_ok db" and row: "opportunity_row db oid = Some row"
    and new: "row_ok new" "opp_acquisition_opportunity_id new = oid"
      "opp_identity_key new = opp_identity_key row"
    and es: "list_all (\<lambda>e. wf_event e \<and> round_event e = e \<and> ev_acquisition_opportunity_id e = oid) es"
      "distinct (map ev_event_id (db_events db @ es))"
    and rep: "replay (event_rows db oid @ es) = Inr q" "canon q = canon new"
  shows "db_ok ((replace_row oid new db)\<lparr> db_events := db_events db @ es \<rparr>)" (is "db_ok ?db'")
proof -
  let ?g = "\<lambda>r. if opp_acquisition_opportunity_id r = oid then new else r"
  have opps: "db_opportunities ?db' = map ?g (db_opportunities db)" by (simp add: replace_row_def)
  have dist: "distinct (map opp_acquisition_opportunity_id (db_opportunities db))"
    "distinct (map opp_identity_key (db_opportunities db))" using db by (simp_all add: db_ok_def)
  have uniq: "r = row" if "r \<in> set (db_opportunities db)" "opp_acquisition_opportunity_id r = oid" for r
    using that opportunity_row_Some [OF row] dist(1) by (auto simp: distinct_map dest: inj_onD)
  have rows: "event_rows ?db' x = (if x = oid then event_rows db oid @ es else event_rows db x)" for x
  proof -
    have "event_rows ?db' x = event_rows db x @ filter (\<lambda>e. ev_acquisition_opportunity_id e = x) es"
      using event_rows_append [of "replace_row oid new db" es x] by simp
    moreover have "filter (\<lambda>e. ev_acquisition_opportunity_id e = x) es = (if x = oid then es else [])"
      using es(1) by (auto simp: list_all_iff filter_empty_conv intro!: filter_True)
    ultimately show ?thesis by simp
  qed
  have "journal_ok ?db'"
    using db es row new(2) by (auto simp: db_ok_def journal_ok_def list_all_iff opportunity_row_replace)
  moreover have "distinct (map opp_acquisition_opportunity_id (db_opportunities ?db'))"
    unfolding opps by (rule distinct_map_replace [OF dist(1)]) (simp add: new(2))
  moreover have "distinct (map opp_identity_key (db_opportunities ?db'))"
    unfolding opps by (rule distinct_map_replace [OF dist(2)]) (auto simp: new(3) dest: uniq)
  moreover have "row_ok (?g r) \<and> in_step ?db' (?g r)" if "r \<in> set (db_opportunities db)" for r
  proof (cases "opp_acquisition_opportunity_id r = oid")
    case True
    then show ?thesis using new(1,2) rep by (simp add: in_step_def rows)
  next
    case False
    then show ?thesis using db that by (simp add: db_ok_def list_all_iff in_step_def rows)
  qed
  then have "list_all (\<lambda>r. row_ok r \<and> in_step ?db' r) (map ?g (db_opportunities db))"
    by (simp only: list_all_iff list.set_map ball_simps) blast
  ultimately show ?thesis by (simp only: db_ok_def opps simp_thms)
qed

text \<open>Inserting a first row with its creation event keeps the invariant.\<close>

lemma db_ok_insert:
  assumes db: "db_ok db"
    and row: "row_ok row" "identity_row db (opp_identity_key row) = None"
      "opportunity_row db (opp_acquisition_opportunity_id row) = None"
    and e: "wf_event e" "round_event e = e"
      "ev_acquisition_opportunity_id e = opp_acquisition_opportunity_id row"
      "ev_event_id e \<notin> set (map ev_event_id (db_events db))"
    and rep: "replay [e] = Inr q" "canon q = canon row"
  shows "db_ok (db\<lparr> db_opportunities := db_opportunities db @ [row],
                    db_events := db_events db @ [e] \<rparr>)" (is "db_ok ?db'")
proof -
  let ?oid = "opp_acquisition_opportunity_id row"
  have none: "event_rows db ?oid = []"
    using db row(3) by (auto simp: db_ok_def journal_ok_def event_rows_def filter_empty_conv list_all_iff)
  have rows: "event_rows ?db' x = (if x = ?oid then [e] else event_rows db x)" for x
    using none e(3) by (auto simp: event_rows_def)
  have fresh: "?oid \<notin> opp_acquisition_opportunity_id ` set (db_opportunities db)"
    "opp_identity_key row \<notin> opp_identity_key ` set (db_opportunities db)"
    using row(2,3) by (auto simp: opportunity_row_def identity_row_def find_None_iff)
  have look: "opportunity_row (db\<lparr> db_opportunities := db_opportunities db @ [row] \<rparr>) x = (case opportunity_row db x of
      None \<Rightarrow> (if ?oid = x then Some row else None) | Some r \<Rightarrow> Some r)" for x
    by (simp add: opportunity_row_def find_append split: option.split)
  have "journal_ok ?db'"
    using db e by (auto simp: db_ok_def journal_ok_def list_all_iff look split: option.split)
  moreover have "in_step ?db' r" if "r \<in> set (db_opportunities db)" for r
  proof -
    have "opp_acquisition_opportunity_id r \<noteq> ?oid" using that fresh(1) by (metis image_eqI)
    then show ?thesis using db that by (simp add: db_ok_def list_all_iff in_step_def rows)
  qed
  ultimately show ?thesis
    using db row(1) fresh rep by (auto simp: db_ok_def list_all_iff in_step_def rows)
qed


section \<open>Interleaved transactions\<close>

text \<open>
  A transaction reads, then writes; any number of others may commit in between. A pending write
  holds what its transaction computed from its read. \<open>sys_step\<close> lets any transaction read, commit
  or roll back at any time; a rebuild holds the row lock and is one step.
\<close>

datatype pending =
    PendingAppend string int event opportunity
  | PendingCreate create_args event opportunity

record system =
  sys_db :: acq_db
  sys_pending :: "pending list"

definition empty_system :: system where
  "empty_system = \<lparr> sys_db = \<lparr> db_opportunities = [], db_events = [] \<rparr>, sys_pending = [] \<rparr>"

inductive sys_step :: "system \<Rightarrow> system \<Rightarrow> bool" where
  read_append: "append_read env (sys_db s) oid a = Inr (Fresh ev nx) \<Longrightarrow>
     sys_step s (s\<lparr> sys_pending := PendingAppend oid (aa_expected_version a) ev nx # sys_pending s \<rparr>)"
| read_create: "create_read env (sys_db s) c = Inr (Fresh ev nx) \<Longrightarrow>
     sys_step s (s\<lparr> sys_pending := PendingCreate c ev nx # sys_pending s \<rparr>)"
| commit_append: "PendingAppend oid v ev nx \<in> set (sys_pending s) \<Longrightarrow>
     append_write (sys_db s) oid v ev nx = Inr (db', r) \<Longrightarrow>
     sys_step s \<lparr> sys_db = db', sys_pending = remove1 (PendingAppend oid v ev nx) (sys_pending s) \<rparr>"
| commit_create: "PendingCreate c ev nx \<in> set (sys_pending s) \<Longrightarrow>
     create_write (sys_db s) c ev nx = Inr (db', r) \<Longrightarrow>
     sys_step s \<lparr> sys_db = db', sys_pending = remove1 (PendingCreate c ev nx) (sys_pending s) \<rparr>"
| roll_back: "p \<in> set (sys_pending s) \<Longrightarrow> sys_step s (s\<lparr> sys_pending := remove1 p (sys_pending s) \<rparr>)"
| rebuild: "rebuild_projection (sys_db s) oid = Inr (db', p) \<Longrightarrow> sys_step s (s\<lparr> sys_db := db' \<rparr>)"

inductive reachable :: "system \<Rightarrow> bool" where
  start: "reachable empty_system"
| step: "reachable s \<Longrightarrow> sys_step s s' \<Longrightarrow> reachable s'"

fun pending_ok :: "acq_db \<Rightarrow> pending \<Rightarrow> bool" where
  "pending_ok db (PendingAppend oid v ev nx) \<longleftrightarrow>
     wf_event ev \<and> ev_acquisition_opportunity_id ev = oid \<and> wf_core nx \<and> nonblank nx \<and>
     (case opportunity_row db oid of None \<Rightarrow> False
      | Some row \<Rightarrow> v \<le> opp_stream_version row \<and>
          (v = opp_stream_version row \<longrightarrow> reduce_event (Some (canon row)) ev = Inr nx))"
| "pending_ok db (PendingCreate c ev nx) \<longleftrightarrow>
     wf_event ev \<and> reduce_event None ev = Inr nx"

lemma insert_event_Inr:
  "insert_event db ev = Inr db' \<longleftrightarrow>
     event_columns_ok ev \<and> ev_event_id ev \<notin> ev_event_id ` set (db_events db) \<and>
     list_all (\<lambda>r. ev_acquisition_opportunity_id r = ev_acquisition_opportunity_id ev \<longrightarrow>
        ev_stream_sequence r \<noteq> ev_stream_sequence ev \<and>
        ev_idempotency_key r \<noteq> ev_idempotency_key ev) (db_events db) \<and>
     opportunity_row db (ev_acquisition_opportunity_id ev) \<noteq> None \<and>
     db' = db\<lparr> db_events := db_events db @ [round_event ev] \<rparr>"
  by (auto simp: insert_event_def event_values_def list_ex_iff list_all_iff image_iff) metis

lemma append_writeE:
  assumes "append_write db oid v ev nx = Inr (db', r)"
  obtains row vals where
    "opportunity_row db oid = Some row" "opp_stream_version row = v"
    "projection_values nx = Some vals"
    "insert_event (replace_row oid (vals\<lparr> opp_acquisition_opportunity_id := oid \<rparr>) db) ev = Inr db'"
    "r = \<lparr> mr_projection = nx, mr_event = ev, mr_replayed = False \<rparr>"
  using assms by (auto simp: append_write_def split: option.split_asm if_split_asm)

lemma append_read_Fresh:
  assumes "append_read env db oid a = Inr (Fresh ev nx)"
  obtains current where "get_opportunity db oid = Inr current"
    "opp_stream_version current = aa_expected_version a"
    "AcquisitionEvent (event_draft_of env oid (aa_expected_version a + 1)
       (fingerprint (semantic_input a)) a) = Inr ev"
    "reduce_event (Some current) ev = Inr nx"
  using assms by (auto simp: append_read_def Let_def split: option.split_asm if_split_asm)

lemma get_opportunity_ok:
  assumes "db_ok db" and "get_opportunity db oid = Inr current"
  obtains row where "opportunity_row db oid = Some row" "current = canon row" "row_ok row" "in_step db row"
proof -
  obtain row where row: "opportunity_row db oid = Some row" "projection_from_row row = Inr current"
    using assms(2) by (auto simp: get_opportunity_def split: option.splits)
  note ok = db_ok_row [OF assms(1) row(1)]
  have "current = canon row" using row(2) read_row [OF ok(1)] by simp
  then show thesis using that row(1) ok(1,2) by blast
qed

lemma AcquisitionEvent_wf: "AcquisitionEvent d = Inr e \<Longrightarrow> wf_event e"
  by (auto simp: AcquisitionEvent_def event_model_Inr)

lemma append_read_pending:
  assumes "db_ok db" and "append_read env db oid a = Inr (Fresh ev nx)"
  shows "pending_ok db (PendingAppend oid (aa_expected_version a) ev nx)"
proof -
  obtain current where c: "get_opportunity db oid = Inr current"
    "opp_stream_version current = aa_expected_version a" "reduce_event (Some current) ev = Inr nx"
    and ev: "wf_event ev"
    using append_read_Fresh [OF assms(2)] AcquisitionEvent_wf by metis
  obtain row where row: "opportunity_row db oid = Some row" "current = canon row" "row_ok row"
    using get_opportunity_ok [OF assms(1) c(1)] by metis
  have cur: "wf_core current" "nonblank current"
    using wf_canon_core [of current] row(2,3) by (auto simp: row_ok_def)
  have "ev_acquisition_opportunity_id ev = oid"
    using c(3) row db_ok_row(3) [OF assms(1) row(1)] by (simp add: reduce_Some_Inr)
  moreover have "wf_core nx" "nonblank nx"
    using c(3) ev cur reduce_wf reduce_nonblank by blast+
  ultimately show ?thesis using c row ev by auto
qed

lemma same_id_update: "opp_acquisition_opportunity_id v = oid \<Longrightarrow> v\<lparr> opp_acquisition_opportunity_id := oid \<rparr> = v"
  by simp

lemma append_write_effect:
  assumes db: "db_ok db" and pend: "pending_ok db (PendingAppend oid v ev nx)"
    and w: "append_write db oid v ev nx = Inr (db', r)"
  obtains new where "db_ok db'" "row_ok new" "canon new = canon nx" "opp_stream_version new = v + 1"
    "db' = (replace_row oid new db)\<lparr> db_events := db_events db @ [round_event ev] \<rparr>"
    "opp_acquisition_opportunity_id new = oid"
    "\<And>x. opportunity_row db' x = (if x = oid then Some new else opportunity_row db x)"
proof -
  obtain row vals where row: "opportunity_row db oid = Some row" "opp_stream_version row = v"
    and vals: "projection_values nx = Some vals"
    and ins: "insert_event (replace_row oid (vals\<lparr> opp_acquisition_opportunity_id := oid \<rparr>) db) ev = Inr db'"
    using w by (rule append_writeE)
  have ev: "wf_event ev" "ev_acquisition_opportunity_id ev = oid" and nx: "wf_core nx" "nonblank nx"
    and red: "reduce_event (Some (canon row)) ev = Inr nx"
    using pend row by auto
  note ok = db_ok_row [OF db row(1)]
  note frame = reduce_frame [OF red]
  note new = projection_values_ok [OF vals nx]
  have key: "opp_acquisition_opportunity_id vals = oid" "opp_identity_key vals = opp_identity_key row"
    using new(2) frame ok(3) by (metis canon_sel(1,2) same_identity_def)+
  have ver: "opp_stream_version vals = v + 1"
    using new(2) frame red row(2) by (metis canon_sel(4) stamped_def reduce_Some_Inr)
  obtain p where p: "replay (event_rows db oid) = Inr p" "canon p = canon (canon row)"
    using in_stepE [OF ok(2)] ok(3) by (metis canon_idem)
  obtain q where q: "replay (event_rows db oid @ [round_event ev]) = Inr q" "canon q = canon vals"
    using acq.append_in_step [OF p(1) [unfolded replay_Inr] p(2) ev(1) red] new(2)
    by (auto simp: replay_Inr)
  have db': "db' = (replace_row oid vals db)\<lparr> db_events := db_events db @ [round_event ev] \<rparr>"
    and fresh: "ev_event_id ev \<notin> ev_event_id ` set (db_events db)"
    using ins unfolding insert_event_Inr same_id_update [OF key(1)] by simp_all
  have "db_ok db'"
    unfolding db'
    by (rule db_ok_replace [OF db row(1) new(1) key _ _ q])
       (use db ev fresh in \<open>auto simp: wf_round_event db_ok_def journal_ok_def\<close>)
  moreover have "opportunity_row db' x = (if x = oid then Some vals else opportunity_row db x)" for x
    using row(1) by (simp add: db' opportunity_row_replace key(1))
  ultimately show thesis using that new ver db' key(1) by blast
qed

lemma create_write_effect:
  assumes db: "db_ok db" and pend: "pending_ok db (PendingCreate c ev nx)"
    and w: "create_write db c ev nx = Inr (db', r)"
  shows "db' = db \<or>
    (\<exists>row. db_ok db' \<and> row_ok row \<and> canon row = canon nx \<and>
       db' = db\<lparr> db_opportunities := db_opportunities db @ [row],
                  db_events := db_events db @ [round_event ev] \<rparr>)"
proof -
  have ev: "wf_event ev" and red: "reduce_event None ev = Inr nx" using pend by auto
  then have cr: "created ev = Inr nx" by (simp add: reduce_None_Inr)
  obtain row where vals: "projection_values nx = Some row"
    using w by (auto simp: create_write_def split: option.splits)
  note new = projection_values_ok [OF vals created_wf [OF cr] created_nonblank [OF cr]]
  show ?thesis
  proof (cases "identity_row db (opp_identity_key row)")
    case (Some x)
    then show ?thesis using w vals by (auto simp: create_write_def split: option.splits)
  next
    case None
    have id: "ev_acquisition_opportunity_id ev = opp_acquisition_opportunity_id row"
      using created_id [OF cr ev] new(2) by (metis canon_sel(1))
    have free: "opportunity_row db (opp_acquisition_opportunity_id row) = None"
      and ins: "insert_event (db\<lparr> db_opportunities := db_opportunities db @ [row] \<rparr>) ev = Inr db'"
      using w None vals by (auto simp: create_write_def split: option.splits if_splits)
    have db': "db' = db\<lparr> db_opportunities := db_opportunities db @ [row],
        db_events := db_events db @ [round_event ev] \<rparr>"
      and fresh: "ev_event_id ev \<notin> ev_event_id ` set (db_events db)"
      using ins unfolding insert_event_Inr by simp_all
    obtain q where "reduce_event None (round_event ev) = Inr q" "canon q = canon nx"
      using acq.reduce_same_coarse [OF ev, of None None nx] red by auto
    then have q: "replay [round_event ev] = Inr q" "canon q = canon row"
      using new(2) by (simp_all add: replay_Inr)
    have "db_ok db'"
      unfolding db'
      by (rule db_ok_insert [OF db new(1) None free _ _ _ _ q])
         (use ev id fresh wf_round_event in auto)
    then show ?thesis using new db' by blast
  qed
qed

lemma sort_key_positions:
  "map f es = map (\<lambda>i. 1 + int i) [0..<length es] \<Longrightarrow> sort_key f es = es"
  by (rule sort_key_id_if_sorted) (simp add: sorted_iff_nth_mono)

lemma list_events_ok:
  assumes "journal_ok db" and "replay (event_rows db oid) = Inr p"
  shows "list_events db oid = Inr (event_rows db oid)"
proof -
  have "sort_key ev_stream_sequence (event_rows db oid) = event_rows db oid"
    using acq.run_positions assms(2) by (intro sort_key_positions) (simp add: replay_Inr)
  moreover have "traverse event_from_row (event_rows db oid) = Inr (event_rows db oid)"
    using event_rows_ok [OF assms(1), of oid]
    by (intro traverse_id) (auto simp: list_all_iff read_event_row)
  ultimately show ?thesis by (simp add: list_events_def)
qed

lemma rebuild_effect:
  assumes db: "db_ok db" and w: "rebuild_projection db oid = Inr (db', p)"
  obtains row new where "opportunity_row db oid = Some row" "canon new = canon row" "row_ok new"
    "opp_acquisition_opportunity_id new = oid" "replay (event_rows db oid) = Inr p" "canon p = canon row"
    "db' = replace_row oid new db" "db_ok db'"
proof -
  obtain row where row: "opportunity_row db oid = Some row"
    using w by (auto simp: rebuild_projection_def split: option.splits)
  note ok = db_ok_row [OF db row]
  have jok: "journal_ok db" using db by (simp add: db_ok_def)
  obtain q where q: "replay (event_rows db oid) = Inr q" "canon q = canon row"
    using in_stepE [OF ok(2)] ok(3) by metis
  then obtain vals where vals: "projection_values q = Some vals"
    and db': "db' = replace_row oid (vals\<lparr> opp_acquisition_opportunity_id := oid \<rparr>) db" and p: "p = q"
    using w row list_events_ok [OF jok q(1)]
    by (auto simp: rebuild_projection_def split: option.splits)
  have core: "wf_core q" "nonblank q"
  proof -
    have "wf_core (canon row) \<and> nonblank (canon row)"
      using wf_canon_core ok(1) by (simp add: row_ok_def)
    then have "nonblank (canon q)" using q(2) by simp
    then show "nonblank q" by (auto simp: nonblank_def opt_all_def split: option.splits)
    show "wf_core q"
      by (rule replay_invariant [OF q(1)])
         (use event_rows_ok [OF jok, of oid] created_wf reduce_wf in
          \<open>auto simp: reduce_None_Inr list_all_iff\<close>)
  qed
  note new = projection_values_ok [OF vals core]
  have key: "opp_acquisition_opportunity_id vals = oid" "opp_identity_key vals = opp_identity_key row"
    using new(2) q(2) ok(3) by (metis canon_sel(1,2))+
  have rep: "replay (event_rows db oid @ []) = Inr q" "canon q = canon vals"
    using q(1) new(2) by simp_all
  have same: "replace_row oid vals db = (replace_row oid vals db)\<lparr> db_events := db_events db @ [] \<rparr>"
    by (simp add: replace_row_def)
  have "db_ok (replace_row oid vals db)"
    by (subst same, rule db_ok_replace [OF db row new(1) key _ _ rep])
       (use jok in \<open>auto simp: journal_ok_def\<close>)
  then show thesis
    using that [OF row _ new(1) key(1)] new(2) q p db' same_id_update [OF key(1)] by simp
qed

lemma pending_ok_mono:
  assumes "pending_ok db p"
    and "\<And>x row. opportunity_row db x = Some row \<Longrightarrow>
      \<exists>row'. opportunity_row db' x = Some row' \<and>
        (canon row' = canon row \<or> opp_stream_version row < opp_stream_version row')"
  shows "pending_ok db' p"
proof (cases p)
  case (PendingAppend oid v ev nx)
  then obtain row where row: "opportunity_row db oid = Some row" "v \<le> opp_stream_version row"
    "v = opp_stream_version row \<longrightarrow> reduce_event (Some (canon row)) ev = Inr nx"
    using assms(1) by (auto split: option.splits)
  obtain row' where row': "opportunity_row db' oid = Some row'"
    "canon row' = canon row \<or> opp_stream_version row < opp_stream_version row'"
    using assms(2) [OF row(1)] by blast
  have "canon row' = canon row \<Longrightarrow> opp_stream_version row' = opp_stream_version row"
    by (metis canon_sel(4))
  then have "v \<le> opp_stream_version row' \<and>
      (v = opp_stream_version row' \<longrightarrow> reduce_event (Some (canon row')) ev = Inr nx)"
    using row row' by auto
  then show ?thesis using assms(1) row'(1) PendingAppend by auto
qed (use assms(1) in simp)

definition sys_ok :: "system \<Rightarrow> bool" where
  "sys_ok s \<longleftrightarrow> db_ok (sys_db s) \<and> list_all (pending_ok (sys_db s)) (sys_pending s)"

lemma sys_ok_step:
  assumes "sys_step s s'" and "sys_ok s" shows "sys_ok s'"
proof -
  have db: "db_ok (sys_db s)" and pend: "\<forall>p \<in> set (sys_pending s). pending_ok (sys_db s) p"
    using assms(2) by (auto simp: sys_ok_def list_all_iff)
  have later: "sys_ok \<lparr> sys_db = db', sys_pending = ps \<rparr>"
    if "db_ok db'" "set ps \<subseteq> set (sys_pending s)"
      "\<And>x row. opportunity_row (sys_db s) x = Some row \<Longrightarrow> \<exists>row'. opportunity_row db' x = Some row' \<and>
        (canon row' = canon row \<or> opp_stream_version row < opp_stream_version row')" for db' ps
    using that pend pending_ok_mono [of "sys_db s" _ db'] by (auto simp: sys_ok_def list_all_iff)
  from assms(1) show ?thesis
  proof cases
    case (read_append env oid a ev nx)
    then show ?thesis using append_read_pending [OF db] assms(2) by (simp add: sys_ok_def)
  next
    case (read_create env c ev nx)
    then have "wf_event ev \<and> reduce_event None ev = Inr nx"
      by (auto simp: create_read_def Let_def split: option.split_asm dest: AcquisitionEvent_wf)
    then show ?thesis using read_create assms(2) by (simp add: sys_ok_def)
  next
    case (commit_append oid v ev nx db' r)
    then have p: "pending_ok (sys_db s) (PendingAppend oid v ev nx)" using pend by blast
    then obtain row0 where row0: "opportunity_row (sys_db s) oid = Some row0" "v = opp_stream_version row0"
      using commit_append(3) by (auto simp: append_write_def split: option.splits if_splits)
    obtain new where "db_ok db'" "opp_stream_version new = v + 1"
      "\<And>x. opportunity_row db' x = (if x = oid then Some new else opportunity_row (sys_db s) x)"
      using append_write_effect [OF db p commit_append(3)] by metis
    then show ?thesis unfolding commit_append(1)
      by (intro later) (use row0 in \<open>auto dest: subsetD [OF set_remove1_subset] split: if_splits\<close>)
  next
    case (commit_create c ev nx db' r)
    then have p: "pending_ok (sys_db s) (PendingCreate c ev nx)" using pend by blast
    have "db_ok db'" "\<And>x row. opportunity_row (sys_db s) x = Some row \<Longrightarrow> opportunity_row db' x = Some row"
      using create_write_effect [OF db p commit_create(3)] db
      by (auto simp: opportunity_row_def find_append)
    then show ?thesis unfolding commit_create(1)
      by (intro later) (auto dest: subsetD [OF set_remove1_subset])
  next
    case (roll_back p)
    then show ?thesis using assms(2) by (auto simp: sys_ok_def list_all_iff dest: subsetD [OF set_remove1_subset])
  next
    case (rebuild oid db' p)
    then obtain row new where "opportunity_row (sys_db s) oid = Some row" "canon new = canon row"
      "opp_acquisition_opportunity_id new = oid" "db' = replace_row oid new (sys_db s)" "db_ok db'"
      using rebuild_effect [OF db] by metis
    then have "sys_ok \<lparr> sys_db = db', sys_pending = sys_pending s \<rparr>"
      by (intro later) (auto simp: opportunity_row_replace)
    then show ?thesis using rebuild(1) by (simp add: sys_ok_def)
  qed
qed

lemma reachable_ok: "reachable s \<Longrightarrow> sys_ok s"
proof (induction rule: reachable.induct)
  case start
  show ?case by (simp add: sys_ok_def empty_system_def db_ok_def journal_ok_def)
qed (rule sys_ok_step)

section \<open>The journal only grows\<close>

definition journal_key :: "event \<Rightarrow> string \<times> string" where
  "journal_key e = (ev_acquisition_opportunity_id e, ev_idempotency_key e)"

lemma journal_key_round [simp]: "journal_key (round_event e) = journal_key e"
  by (simp add: journal_key_def round_event_def)

lemma insert_event_journal:
  assumes "insert_event db ev = Inr db'"
  shows "db_events db' = db_events db @ [round_event ev] \<and> journal_key ev \<notin> journal_key ` set (db_events db)"
  using assms by (auto simp: insert_event_Inr journal_key_def list_all_iff)

lemma sys_step_journal:
  assumes "sys_step s s'"
  shows "\<exists>new. db_events (sys_db s') = db_events (sys_db s) @ new \<and> length new \<le> 1 \<and>
    distinct (map journal_key new) \<and> journal_key ` set new \<inter> journal_key ` set (db_events (sys_db s)) = {}"
  using assms
proof cases
  case (commit_append oid v ev nx db' r)
  then obtain vals where
    "insert_event (replace_row oid (vals\<lparr> opp_acquisition_opportunity_id := oid \<rparr>) (sys_db s)) ev = Inr db'"
    by (auto elim: append_writeE)
  then show ?thesis using commit_append(1) insert_event_journal by fastforce
next
  case (commit_create c ev nx db' r)
  then obtain rows where "insert_event (sys_db s\<lparr> db_opportunities := rows \<rparr>) ev = Inr db' \<or>
      db_events db' = db_events (sys_db s)"
    by (auto simp: create_write_def split: option.split_asm if_split_asm)
  then show ?thesis using commit_create(1) insert_event_journal by fastforce
next
  case (rebuild oid db' p)
  then show ?thesis by (auto simp: rebuild_projection_def split: option.split_asm)
qed auto

lemma sys_step_rows:
  assumes "sys_step s s'" and "opportunity_row (sys_db s) oid \<noteq> None"
  shows "opportunity_row (sys_db s') oid \<noteq> None"
  using assms
proof cases
  case (commit_append oid v ev nx db' r)
  then obtain vals where
    "insert_event (replace_row oid (vals\<lparr> opp_acquisition_opportunity_id := oid \<rparr>) (sys_db s)) ev = Inr db'"
    by (auto elim: append_writeE)
  then show ?thesis using commit_append(1) assms(2)
    by (auto simp: insert_event_Inr opportunity_row_replace)
next
  case (commit_create c ev nx db' r)
  then show ?thesis using assms(2)
    by (auto simp: create_write_def insert_event_Inr opportunity_row_def find_append
        split: option.split_asm if_split_asm)
next
  case (rebuild oid db' p)
  then show ?thesis using assms(2)
    by (auto simp: rebuild_projection_def opportunity_row_replace split: option.split_asm)
qed auto

section \<open>Results of one append\<close>

lemma event_of_draft:
  assumes "AcquisitionEvent (event_draft_of env oid sq (fingerprint f) a) = Inr ev"
  shows "ev_idempotency_key ev = py_strip (aa_idempotency_key a)"
    and "ev_semantic_fingerprint ev = fingerprint f" and "ev_stream_sequence ev = sq"
    and "ev_acquisition_opportunity_id ev = py_strip oid"
  using assms
  by (auto simp: AcquisitionEvent_def event_model_Inr strip_event_def event_draft_of_def
      fingerprint_def is_fingerprint_strip)

lemma get_opportunity_row:
  "db_ok db \<Longrightarrow> opportunity_row db oid = Some row \<Longrightarrow> get_opportunity db oid = Inr (canon row)"
  using db_ok_row [of db oid row] read_row by (simp add: get_opportunity_def)

lemma append_read_key:
  assumes "append_read env db oid a = Inr (Fresh ev nx)"
  shows "List.find (\<lambda>r. ev_idempotency_key r = aa_idempotency_key a) (event_rows db oid) = None"
  using assms by (auto simp: append_read_def Let_def split: option.split_asm if_split_asm)

lemma append_read_Replay:
  assumes "append_read env db oid a = Inr (Replay r)"
  obtains erow where "get_opportunity db oid = Inr (mr_projection r)"
    "List.find (\<lambda>e. ev_idempotency_key e = aa_idempotency_key a) (event_rows db oid) = Some erow"
    "event_from_row erow = Inr (mr_event r)"
    "ev_semantic_fingerprint (mr_event r) = fingerprint (semantic_input a)"
  using assms by (auto simp: append_read_def Let_def split: option.split_asm if_split_asm)

text \<open>The state after an append, replayed or fresh: the event with this key and its fingerprint.\<close>

lemma append_event_stored:
  assumes db: "db_ok db" and ap: "append_event env db oid a = Inr (db', r)"
    and key: "py_strip (aa_idempotency_key a) = aa_idempotency_key a"
  shows "db_ok db' \<and>
    (\<exists>row. opportunity_row db' oid = Some row \<and> canon row = canon (mr_projection r)) \<and>
    List.find (\<lambda>e. ev_idempotency_key e = aa_idempotency_key a) (event_rows db' oid) =
      Some (round_event (mr_event r)) \<and> wf_event (round_event (mr_event r)) \<and>
    ev_semantic_fingerprint (mr_event r) = fingerprint (semantic_input a)"
proof -
  obtain p where p: "append_read env db oid a = Inr p"
    and r: "(case p of Replay r \<Rightarrow> Inr (db, r)
      | Fresh ev nx \<Rightarrow> append_write db oid (aa_expected_version a) ev nx) = Inr (db', r)"
    using ap by (auto simp: append_event_def)
  show ?thesis
  proof (cases p)
    case (Replay r0)
    then have db': "db' = db" "r0 = r" using r by auto
    obtain erow where c: "get_opportunity db oid = Inr (mr_projection r)"
      and e: "List.find (\<lambda>e. ev_idempotency_key e = aa_idempotency_key a) (event_rows db oid) = Some erow"
        "event_from_row erow = Inr (mr_event r)"
        "ev_semantic_fingerprint (mr_event r) = fingerprint (semantic_input a)"
      using append_read_Replay [of env db oid a r] p Replay db'(2) by blast
    have "wf_event erow \<and> round_event erow = erow"
    proof -
      have "journal_ok db" using db by (simp add: db_ok_def)
      from event_rows_ok [OF this, of oid] find_Some_set [OF e(1)] show ?thesis
        by (simp add: list_all_iff)
    qed
    moreover from this have "mr_event r = erow" using e(2) read_event_row by simp
    moreover obtain row where "opportunity_row db oid = Some row" "mr_projection r = canon row"
      using get_opportunity_ok [OF db c] by metis
    ultimately show ?thesis using db db' e c by simp
  next
    case (Fresh ev nx)
    have read: "append_read env db oid a = Inr (Fresh ev nx)" using p Fresh by simp
    have w: "append_write db oid (aa_expected_version a) ev nx = Inr (db', r)" using r Fresh by simp
    have pend: "pending_ok db (PendingAppend oid (aa_expected_version a) ev nx)"
      using append_read_pending [OF db read] .
    obtain new where new: "db_ok db'" "canon new = canon nx"
      "db' = (replace_row oid new db)\<lparr> db_events := db_events db @ [round_event ev] \<rparr>"
      "\<And>x. opportunity_row db' x = (if x = oid then Some new else opportunity_row db x)"
      using append_write_effect [OF db pend w] by metis
    have res: "mr_event r = ev" "mr_projection r = nx" using w by (auto elim: append_writeE)
    have ev: "wf_event ev" "ev_acquisition_opportunity_id ev = oid" using pend by auto
    have "event_rows db' oid = event_rows db oid @ [round_event ev]"
      using new(3) ev(2) event_rows_append [of "replace_row oid new db" "[round_event ev]" oid] by simp
    moreover have "ev_idempotency_key ev = aa_idempotency_key a"
      and "ev_semantic_fingerprint ev = fingerprint (semantic_input a)"
      using append_read_Fresh [OF read] event_of_draft(1,2) key by (metis, metis)
    ultimately show ?thesis
      using new res ev append_read_key [OF read] by (simp add: find_append wf_round_event)
  qed
qed

end
