(* ===== verification/AcqStoreProps.thy ===== *)
theory AcqStoreProps
  imports AcqStore
begin

text \<open>
  Properties of the acquisition store: the stored projection is the replay of its journal under
  any interleaving of transactions, journals only grow, a version is consumed once, retries with
  the same idempotency key return the stored event, and a rebuild restores a damaged projection.
\<close>

section \<open>A sample database\<close>

text \<open>
  The sample runs the code without evaluating the digest: neither validation nor reduction looks
  inside a fingerprint, so the concrete evaluation uses a constant one.
\<close>

abbreviation zeros :: string where "zeros \<equiv> replicate 64 (CHR ''0'')"

lemma wf_event_fp: "wf_event (e\<lparr> ev_semantic_fingerprint := zeros \<rparr>) \<Longrightarrow> is_fingerprint fp \<Longrightarrow>
    wf_event (e\<lparr> ev_semantic_fingerprint := fp \<rparr>)"
  by (simp add: wf_event_def is_fingerprint_strip)

lemma reducer_fp:
  "common_updates (e\<lparr> ev_semantic_fingerprint := fp \<rparr>) c = common_updates e c"
  "created (e\<lparr> ev_semantic_fingerprint := fp \<rparr>) = created e"
  "transitioned c (e\<lparr> ev_semantic_fingerprint := fp \<rparr>) = transitioned c e"
  "decision_recorded c (e\<lparr> ev_semantic_fingerprint := fp \<rparr>) = decision_recorded c e"
  "outcome_recorded c (e\<lparr> ev_semantic_fingerprint := fp \<rparr>) = outcome_recorded c e"
  "next_action_set c (e\<lparr> ev_semantic_fingerprint := fp \<rparr>) = next_action_set c e"
  "retry_scheduled c (e\<lparr> ev_semantic_fingerprint := fp \<rparr>) = retry_scheduled c e"
  "contact_selected c (e\<lparr> ev_semantic_fingerprint := fp \<rparr>) = contact_selected c e"
  by (simp_all add: common_updates_def created_def transitioned_def decision_recorded_def
      outcome_recorded_def next_action_set_def retry_scheduled_def contact_selected_def
      require_hold_metadata_def spec023_ok_def Let_def cong: option.case_cong json.case_cong if_cong)

lemma reduce_event_fp: "reduce_event c (e\<lparr> ev_semantic_fingerprint := fp \<rparr>) = reduce_event c e"
  by (cases c; cases "ev_event_type e") (simp_all add: reduce_event_def reduce_v1_def reducer_fp)

definition dummy_event :: "store_env \<Rightarrow> string \<Rightarrow> int \<Rightarrow> append_args \<Rightarrow> event" where
  "dummy_event env oid sq a = strip_event instant_of dec_val (event_draft_of env oid sq zeros a)"

lemma draft_event_fp:
  assumes "wf_event (dummy_event env oid sq a)" and "is_fingerprint fp"
    and "is_aware (env_now env)" and "opt_all is_aware (aa_occurred_at a)"
  shows "AcquisitionEvent (event_draft_of env oid sq fp a) =
    Inr ((dummy_event env oid sq a)\<lparr> ev_semantic_fingerprint := fp \<rparr>)"
proof -
  have zeros: "py_strip zeros = zeros" by code_simp
  have "strip_event instant_of dec_val (event_draft_of env oid sq fp a) =
      (dummy_event env oid sq a)\<lparr> ev_semantic_fingerprint := fp \<rparr>"
    using assms(2) by (simp add: dummy_event_def strip_event_def event_draft_of_def is_fingerprint_strip)
  moreover have "wf_event ((dummy_event env oid sq a)\<lparr> ev_semantic_fingerprint := fp \<rparr>)"
    by (rule wf_event_fp [OF _ assms(2)])
       (use assms(1) zeros in \<open>simp add: dummy_event_def strip_event_def event_draft_of_def\<close>)
  ultimately show ?thesis
    using assms(3,4) by (auto simp: AcquisitionEvent_def event_model_def event_draft_of_def opt_all_def
        split: option.splits)
qed

definition sample_now :: datetime where
  "sample_now = \<lparr> dt_date = mk_date 2026 1 1, dt_hour = 9, dt_minute = 0, dt_second = 0, dt_micro = 0,
     dt_offset = Some 0 \<rparr>"

definition sample_env :: store_env where
  "sample_env = \<lparr> env_now = sample_now, env_event_id = ''event-1'', env_opportunity_id = ''opp-1'' \<rparr>"

definition sample_create :: create_args where
  "sample_create = \<lparr> ca_identity_key = ''id'', ca_signal_ref = ''sig'', ca_idempotency_key = ''create-1'',
     ca_supplier_ref = Some ''sup'', ca_contact_ref = None, ca_campaign_ref = None,
     ca_actor_type = SYSTEM, ca_actor_ref = None, ca_reason_codes = [''R''], ca_evidence_refs = [],
     ca_confidence = Some (Dec False 12345678 (-8)), ca_policy_version = None,
     ca_skill_version = None, ca_supervisor_version = None, ca_estimated_cost = None,
     ca_correlation_id = None, ca_causation_id = None, ca_occurred_at = None \<rparr>"

definition sample_fp :: string where
  "sample_fp = fingerprint (semantic_input (creation_args sample_create))"

definition sample_first :: opportunity where
  "sample_first = (case created (dummy_event sample_env ''opp-1'' 1 (creation_args sample_create)) of
     Inr p \<Rightarrow> p | Inl _ \<Rightarrow> undefined)"

definition sample_row :: opportunity where
  "sample_row = (case projection_values sample_first of Some r \<Rightarrow> r | None \<Rightarrow> undefined)"

definition sample_first_event :: event where
  "sample_first_event =
     (dummy_event sample_env ''opp-1'' 1 (creation_args sample_create))\<lparr> ev_semantic_fingerprint := sample_fp \<rparr>"

definition sample_db :: acq_db where
  "sample_db = \<lparr> db_opportunities = [sample_row], db_events = [round_event sample_first_event] \<rparr>"

definition sample_system :: system where
  "sample_system = \<lparr> sys_db = sample_db, sys_pending = [] \<rparr>"

lemma sample_first_ok:
  "wf_event (dummy_event sample_env ''opp-1'' 1 (creation_args sample_create))"
  "is_ok (reduce_event None (dummy_event sample_env ''opp-1'' 1 (creation_args sample_create)))"
  "event_columns_ok (dummy_event sample_env ''opp-1'' 1 (creation_args sample_create))"
  "opportunity_columns_ok sample_first"
  "is_aware (env_now sample_env)" "aa_occurred_at (creation_args sample_create) = None"
  by code_simp+

lemma is_fingerprint_sample: "is_fingerprint (fingerprint f)"
  by (simp add: fingerprint_def)

lemma no_nul_fingerprint: "is_fingerprint fp \<Longrightarrow> no_nul fp"
  by (auto simp: is_fingerprint_def no_nul_def list_all_iff is_lower_hex_def is_digit_def)

lemma event_columns_fp:
  "event_columns_ok e \<Longrightarrow> is_fingerprint fp \<Longrightarrow> event_columns_ok (e\<lparr> ev_semantic_fingerprint := fp \<rparr>)"
  by (simp add: event_columns_ok_def no_nul_fingerprint)

lemma sample_first_reduce: "reduce_event None sample_first_event = Inr sample_first"
  using sample_first_ok(2) unfolding sample_first_event_def reduce_event_fp is_ok_iff
  by (auto simp: sample_first_def reduce_None_Inr)

lemma sample_create_read:
  "create_read sample_env (sys_db empty_system) sample_create = Inr (Fresh sample_first_event sample_first)"
  using draft_event_fp [OF sample_first_ok(1) is_fingerprint_sample sample_first_ok(5)]
    sample_first_reduce sample_first_ok(6)
  by (simp add: create_read_def Let_def identity_row_def empty_system_def sample_env_def
      sample_first_event_def sample_fp_def opt_all_def)

lemma sample_row_values: "projection_values sample_first = Some sample_row"
  using sample_first_ok(4) by (simp add: sample_row_def projection_values_def)

lemma sample_row_key: "opp_acquisition_opportunity_id sample_row = ''opp-1''"
  "ev_acquisition_opportunity_id sample_first_event = ''opp-1''"
  unfolding sample_first_event_def by code_simp (simp, code_simp)

lemma sample_create_write:
  "create_write (sys_db empty_system) sample_create sample_first_event sample_first =
     Inr (sample_db, \<lparr> mr_projection = sample_first, mr_event = sample_first_event, mr_replayed = False \<rparr>)"
proof -
  have "event_columns_ok sample_first_event"
    unfolding sample_first_event_def sample_fp_def
    by (rule event_columns_fp [OF sample_first_ok(3) is_fingerprint_sample])
  then show ?thesis
    by (simp add: create_write_def sample_row_values identity_row_def opportunity_row_def
        empty_system_def insert_event_def event_values_def sample_db_def sample_row_key)
qed

lemma sample_reachable: "reachable sample_system"
proof -
  let ?p = "PendingCreate sample_create sample_first_event sample_first"
  have "reachable (empty_system\<lparr> sys_pending := [?p] \<rparr>)"
    using reachable.step [OF reachable.start read_create [OF sample_create_read]]
    by (simp add: empty_system_def)
  moreover have "sys_step (empty_system\<lparr> sys_pending := [?p] \<rparr>) sample_system"
    using commit_create [of sample_create sample_first_event sample_first
        "empty_system\<lparr> sys_pending := [?p] \<rparr>"] sample_create_write
    by (simp add: sample_system_def)
  ultimately show ?thesis by (rule reachable.step)
qed

section \<open>The projection follows the journal\<close>

definition on_columns :: "opportunity \<Rightarrow> bool" where
  "on_columns p \<longleftrightarrow> round_opportunity p = p"

lemma on_columns_iff: "on_columns p \<longleftrightarrow>
    map_option (num_round 4) (opp_confidence p) = opp_confidence p \<and>
    map_option (num_round 6) (opp_estimated_cost p) = opp_estimated_cost p"
  unfolding on_columns_def round_opportunity_def
  by (cases p) auto

lemma round_event_fields:
  "round_event e = e \<Longrightarrow> map_option (num_round 4) (ev_confidence e) = ev_confidence e \<and>
     map_option (num_round 6) (ev_estimated_cost e) = ev_estimated_cost e"
  by (metis round_event_sel(21,22))

lemma reduce_on_columns:
  assumes "reduce_event (Some c) e = Inr n" and "round_event e = e" and "on_columns c"
  shows "on_columns n"
  using assms(1)
proof (cases rule: reduce_cases)
qed (use round_event_fields [OF assms(2)] assms(3) in \<open>auto simp: on_columns_iff or_else_map elim!: reducerE\<close>)

lemma created_on_columns: "created e = Inr n \<Longrightarrow> round_event e = e \<Longrightarrow> on_columns n"
  using round_event_fields [of e]
  by (auto simp: created_def AcquisitionOpportunity_Inr strip_opportunity_def on_columns_iff
      split: option.split_asm if_split_asm)

lemma replay_on_columns:
  assumes "replay es = Inr p" and "list_all (\<lambda>e. wf_event e \<and> round_event e = e) es"
  shows "on_columns p"
  by (rule replay_invariant [OF assms(1)])
     (use assms(2) created_on_columns reduce_on_columns in \<open>auto simp: reduce_None_Inr list_all_iff\<close>)

lemma canon_on_columns:
  "on_columns p \<Longrightarrow> canon p = p\<lparr> opp_last_error_category := map_option py_strip (opp_last_error_category p) \<rparr>"
  by (simp add: canon_def on_columns_def)

lemma stored_projection:
  assumes "db_ok db" and "opportunity_row db oid = Some row"
  obtains es p where "list_events db oid = Inr es" "replay es = Inr p" "get_opportunity db oid = Inr (canon p)"
    "es = event_rows db oid" "on_columns p" "opp_stream_version p = int (length es)"
proof -
  note ok = db_ok_row [OF assms]
  have jok: "journal_ok db" using assms(1) by (simp add: db_ok_def)
  obtain p where p: "replay (event_rows db oid) = Inr p" "canon p = canon row"
    using in_stepE [OF ok(2)] ok(3) by metis
  have "get_opportunity db oid = Inr (canon p)" using get_opportunity_row [OF assms] p(2) by simp
  moreover have "opp_stream_version p = int (length (event_rows db oid))"
    using acq.run_positions p(1) by (simp add: replay_Inr)
  ultimately show thesis
    using that list_events_ok [OF jok p(1)] p(1) replay_on_columns [OF p(1) event_rows_ok [OF jok]]
    by blast
qed

text \<open>
  C5. Under every interleaving of creating, appending, rolled back and rebuilding transactions, the
  stored projection of an opportunity is the replay of its journal: the journal is readable and
  replays, the row read back is that replay up to column rounding and the blanks around the error
  category, and its version is the length of the journal.
\<close>

theorem projection_is_replay:
  assumes "reachable s" and "opportunity_row (sys_db s) oid \<noteq> None"
  shows "\<exists>es p. list_events (sys_db s) oid = Inr es \<and> replay es = Inr p \<and>
    get_opportunity (sys_db s) oid = Inr (canon p) \<and> opp_stream_version p = int (length es)"
proof -
  have "db_ok (sys_db s)" using reachable_ok [OF assms(1)] by (simp add: sys_ok_def)
  then show ?thesis using assms(2) stored_projection by (metis option.exhaust)
qed

theorem projection_is_replay_witness:
  "\<exists>es p. list_events sample_db ''opp-1'' = Inr es \<and> replay es = Inr p \<and>
    get_opportunity sample_db ''opp-1'' = Inr (canon p) \<and> opp_stream_version p = int (length es)"
  using projection_is_replay [OF sample_reachable, of "''opp-1''"]
  by (simp add: sample_system_def sample_db_def opportunity_row_def sample_row_key)

text \<open>
  C8. \<open>verify_projection\<close> is exact on every reachable database: it answers MATCH if and only if the
  last recorded error category has no outer whitespace. Rounding of confidence and cost never makes
  it report a mismatch; an unstripped error category always does.
\<close>

theorem verify_projection_exact:
  assumes "reachable s" and "opportunity_row (sys_db s) oid \<noteq> None"
  shows "\<exists>es p. list_events (sys_db s) oid = Inr es \<and> replay es = Inr p \<and>
    verify_projection (sys_db s) oid =
      Inr (if map_option py_strip (opp_last_error_category p) = opp_last_error_category p
           then MATCH else MISMATCH)"
proof -
  have db: "db_ok (sys_db s)" using reachable_ok [OF assms(1)] by (simp add: sys_ok_def)
  obtain row where "opportunity_row (sys_db s) oid = Some row" using assms(2) by blast
  then obtain es p where p: "list_events (sys_db s) oid = Inr es" "replay es = Inr p"
    "get_opportunity (sys_db s) oid = Inr (canon p)" "on_columns p"
    using stored_projection [OF db] by metis
  have "canon p = p \<longleftrightarrow> map_option py_strip (opp_last_error_category p) = opp_last_error_category p"
    unfolding canon_on_columns [OF p(4)] by (cases p) auto
  then show ?thesis using p(1-3) by (simp add: verify_projection_def)
qed

theorem verify_projection_exact_witness: "verify_projection sample_db ''opp-1'' = Inr MATCH"
proof -
  have row: "opportunity_row (sys_db sample_system) ''opp-1'' \<noteq> None"
    by (simp add: sample_system_def sample_db_def opportunity_row_def sample_row_key)
  have cat: "canon q = canon sample_row \<Longrightarrow> opp_last_error_category q = None" for q
  proof -
    have "opp_last_error_category sample_row = None" by code_simp
    then show "canon q = canon sample_row \<Longrightarrow> opp_last_error_category q = None"
      by (metis canon_sel(25) map_option_is_None)
  qed
  have db: "db_ok sample_db" using reachable_ok [OF sample_reachable] by (simp add: sys_ok_def sample_system_def)
  have found: "opportunity_row sample_db ''opp-1'' = Some sample_row"
    by (simp add: sample_db_def opportunity_row_def sample_row_key)
  obtain es p where p: "list_events sample_db ''opp-1'' = Inr es" "replay es = Inr p"
    "verify_projection sample_db ''opp-1'' =
      Inr (if map_option py_strip (opp_last_error_category p) = opp_last_error_category p
           then MATCH else MISMATCH)"
    using verify_projection_exact [OF sample_reachable row] by (auto simp: sample_system_def)
  have "canon p = canon sample_row"
    using stored_projection [OF db found] get_opportunity_row [OF db found] p(1,2) by (metis Inr_inject)
  then show ?thesis using p(3) cat by simp
qed

text \<open>
  The journal is append-only: a step of any transaction leaves the existing events in place and
  in order, adds at most one event, and removes no opportunity.
\<close>

theorem journal_append_only:
  assumes "sys_step s s'"
  shows "(\<exists>new. db_events (sys_db s') = db_events (sys_db s) @ new \<and> length new \<le> 1) \<and>
    (\<forall>oid. opportunity_row (sys_db s) oid \<noteq> None \<longrightarrow> opportunity_row (sys_db s') oid \<noteq> None)"
  using sys_step_journal [OF assms] sys_step_rows [OF assms] by blast

theorem journal_append_only_witness:
  "\<exists>new. db_events sample_db = db_events (sys_db empty_system) @ new \<and> length new \<le> 1"
proof -
  let ?p = "PendingCreate sample_create sample_first_event sample_first"
  have "sys_step (empty_system\<lparr> sys_pending := [?p] \<rparr>) sample_system"
    using commit_create [of sample_create sample_first_event sample_first
        "empty_system\<lparr> sys_pending := [?p] \<rparr>"] sample_create_write
    by (simp add: sample_system_def)
  from journal_append_only [OF this] show ?thesis by (simp add: sample_system_def)
qed

section \<open>One version, one event; one key, one event\<close>

definition sample_env2 :: store_env where
  "sample_env2 = sample_env\<lparr> env_event_id := ''event-2'' \<rparr>"

definition sample_move :: append_args where
  "sample_move = plain_args STATE_TRANSITIONED 1 ''move-1'' [(''target_state'', JStr ''ENRICHING'')]"

definition sample_move_event :: event where
  "sample_move_event = (dummy_event sample_env2 ''opp-1'' 2 sample_move)
     \<lparr> ev_semantic_fingerprint := fingerprint (semantic_input sample_move) \<rparr>"

definition sample_moved :: opportunity where
  "sample_moved =
     (case reduce_event (Some (canon sample_row)) (dummy_event sample_env2 ''opp-1'' 2 sample_move) of
        Inr p \<Rightarrow> p | Inl _ \<Rightarrow> undefined)"

lemma sample_move_ok:
  "wf_event (dummy_event sample_env2 ''opp-1'' 2 sample_move)"
  "is_ok (reduce_event (Some (canon sample_row)) (dummy_event sample_env2 ''opp-1'' 2 sample_move))"
  "event_columns_ok (dummy_event sample_env2 ''opp-1'' 2 sample_move)"
  "opportunity_columns_ok sample_moved"
  "is_aware (env_now sample_env2)" "aa_occurred_at sample_move = None"
  "opp_stream_version sample_row = 1" "aa_expected_version sample_move = 1"
  "ev_idempotency_key (dummy_event sample_env ''opp-1'' 1 (creation_args sample_create)) = ''create-1''"
  "aa_idempotency_key sample_move = ''move-1''" "py_strip ''move-1'' = ''move-1''"
  by code_simp+

lemma sample_db_ok: "db_ok sample_db"
  using reachable_ok [OF sample_reachable] by (simp add: sys_ok_def sample_system_def)

lemma sample_row_found: "opportunity_row sample_db ''opp-1'' = Some sample_row"
  by (simp add: sample_db_def opportunity_row_def sample_row_key)

lemma sample_move_read:
  "append_read sample_env2 sample_db ''opp-1'' sample_move = Inr (Fresh sample_move_event sample_moved)"
proof -
  have "reduce_event (Some (canon sample_row)) sample_move_event = Inr sample_moved"
    using sample_move_ok(2) unfolding sample_move_event_def reduce_event_fp is_ok_iff sample_moved_def
    by auto
  moreover have "AcquisitionEvent (event_draft_of sample_env2 ''opp-1'' 2
      (fingerprint (semantic_input sample_move)) sample_move) = Inr sample_move_event"
    unfolding sample_move_event_def
    by (rule draft_event_fp [OF sample_move_ok(1) is_fingerprint_sample sample_move_ok(5)])
       (simp add: sample_move_ok(6) opt_all_def)
  moreover have "event_rows sample_db ''opp-1'' = [round_event sample_first_event]"
    by (simp add: event_rows_def sample_db_def sample_row_key)
  moreover have "ev_idempotency_key sample_first_event = ''create-1''"
    by (simp add: sample_first_event_def sample_move_ok(9))
  ultimately show ?thesis
    using get_opportunity_row [OF sample_db_ok sample_row_found]
    by (simp add: append_read_def Let_def sample_move_ok(7,8,10))
qed

lemma sample_move_write:
  "\<exists>db'. append_write sample_db ''opp-1'' 1 sample_move_event sample_moved =
     Inr (db', \<lparr> mr_projection = sample_moved, mr_event = sample_move_event, mr_replayed = False \<rparr>)"
proof -
  have col: "event_columns_ok sample_move_event"
    unfolding sample_move_event_def
    by (rule event_columns_fp [OF sample_move_ok(3) is_fingerprint_sample])
  have ids: "ev_event_id sample_move_event \<noteq> ev_event_id sample_first_event"
    "ev_stream_sequence sample_move_event \<noteq> ev_stream_sequence sample_first_event"
    "ev_idempotency_key sample_move_event \<noteq> ev_idempotency_key sample_first_event"
    "ev_acquisition_opportunity_id sample_move_event = ''opp-1''"
    unfolding sample_move_event_def sample_first_event_def by (simp, code_simp)+
  obtain vals where vals: "projection_values sample_moved = Some vals"
    using sample_move_ok(4) by (auto simp: projection_values_def)
  show ?thesis
    using sample_row_found sample_move_ok(7) col ids vals
    by (auto simp: append_write_def insert_event_def event_values_def sample_db_def replace_row_def
        opportunity_row_def sample_row_key)
qed

lemma sample_append:
  obtains db' r where "append_event sample_env2 sample_db ''opp-1'' sample_move = Inr (db', r)"
    "mr_replayed r = False"
  using sample_move_write by (auto simp: append_event_def sample_move_read sample_move_ok(8))





section \<open>One opportunity per identity\<close>

lemma creation_payload:
  assumes "AcquisitionEvent (event_draft_of env oid 1 fp (creation_args c)) = Inr ev"
  shows "ev_payload ev = aa_payload (creation_args c)"
proof -
  have keys: "list_all (\<lambda>k. py_strip k = k)
      [''identity_key'', ''signal_ref'', ''supplier_ref'', ''contact_ref'', ''campaign_ref'']"
    by code_simp
  have "strip_keys (aa_payload (creation_args c)) = aa_payload (creation_args c)"
    by (rule strip_keys_id) (use keys in \<open>simp_all add: creation_args_def\<close>)
  then show ?thesis
    using assms by (auto simp: AcquisitionEvent_def event_model_Inr strip_event_def event_draft_of_def)
qed

lemma created_identity:
  assumes "created ev = Inr nx" and "ev_payload ev = aa_payload (creation_args c)"
  shows "opp_identity_key nx = py_strip (ca_identity_key c)"
  using assms
  by (auto simp: created_def creation_args_def pget_def json_str_opt_def AcquisitionOpportunity_Inr
      strip_opportunity_def split: if_split_asm)

lemma identity_row_Some:
  "identity_row db k = Some r \<Longrightarrow> r \<in> set (db_opportunities db) \<and> opp_identity_key r = k"
  by (auto simp: identity_row_def dest: find_Some_set)

lemma identity_row_ok: "db_ok db \<Longrightarrow> identity_row db k = Some r \<Longrightarrow> row_ok r"
  using identity_row_Some by (fastforce simp: db_ok_def list_all_iff)

lemma stored_event_wf: "db_ok db \<Longrightarrow> e \<in> set (event_rows db oid) \<Longrightarrow> wf_event e"
  by (auto simp: db_ok_def journal_ok_def event_rows_def list_all_iff)

definition creation_stored :: "acq_db \<Rightarrow> create_args \<Rightarrow> mutation_result \<Rightarrow> bool" where
  "creation_stored db c r \<longleftrightarrow>
     (\<exists>row e. identity_row db (ca_identity_key c) = Some row \<and>
        opp_acquisition_opportunity_id row = opp_acquisition_opportunity_id (mr_projection r) \<and>
        List.find (\<lambda>e. ev_stream_sequence e = 1) (event_rows db (opp_acquisition_opportunity_id row)) = Some e \<and>
        wf_event e \<and> ev_event_id e = ev_event_id (mr_event r) \<and>
        ev_idempotency_key e = ca_idempotency_key c \<and>
        ev_semantic_fingerprint e = fingerprint (semantic_input (creation_args c)))"

lemma creation_replay_stored:
  assumes db: "db_ok db" and row: "identity_row db (ca_identity_key c) = Some row"
    and r: "creation_replay db c (fingerprint (semantic_input (creation_args c))) row = Inr r"
  shows "creation_stored db c r"
proof -
  have rd: "projection_from_row row = Inr (canon row)" using read_row identity_row_ok [OF db row] .
  then obtain e where e: "List.find (\<lambda>e. ev_stream_sequence e = 1)
      (event_rows db (opp_acquisition_opportunity_id row)) = Some e"
    using r by (auto simp: creation_replay_def split: option.splits)
  have "wf_event e"
    using find_Some_set [OF e] stored_event_wf [OF db] by blast
  then have "event_from_row e = Inr e" by (rule read_event_row)
  then show ?thesis
    using r rd e row \<open>wf_event e\<close>
    by (auto simp: creation_replay_def creation_stored_def split: if_split_asm)
qed

lemma create_opportunity_stored:
  assumes db: "db_ok db" and cr: "create_opportunity env db c = Inr (db', r)"
    and key: "py_strip (ca_identity_key c) = ca_identity_key c"
      "py_strip (ca_idempotency_key c) = ca_idempotency_key c"
  shows "db_ok db' \<and> creation_stored db' c r"
proof (cases "identity_row db (ca_identity_key c)")
  case (Some row)
  then have "db' = db" "creation_replay db c (fingerprint (semantic_input (creation_args c))) row = Inr r"
    using cr by (auto simp: create_opportunity_def create_read_def Let_def)
  then show ?thesis using db creation_replay_stored [OF db Some] by simp
next
  case None
  obtain ev nx where ev: "AcquisitionEvent (event_draft_of env (env_opportunity_id env) 1
      (fingerprint (semantic_input (creation_args c))) (creation_args c)) = Inr ev"
    and nx: "reduce_event None ev = Inr nx" and w: "create_write db c ev nx = Inr (db', r)"
    using cr None by (auto simp: create_opportunity_def create_read_def Let_def)
  have cre: "created ev = Inr nx" using nx by (simp add: reduce_None_Inr)
  have pend: "pending_ok db (PendingCreate c ev nx)" using nx AcquisitionEvent_wf [OF ev] by simp
  obtain row where vals: "projection_values nx = Some row"
    using w by (auto simp: create_write_def split: option.splits)
  have new: "canon row = canon nx"
    by (rule projection_values_ok [OF vals created_wf [OF cre] created_nonblank [OF cre]])
  have rowkey: "opp_identity_key row = ca_identity_key c"
    using created_identity [OF cre creation_payload [OF ev]] key(1) new by (metis canon_sel(2))
  then have res: "r = \<lparr> mr_projection = nx, mr_event = ev, mr_replayed = False \<rparr>"
    and db': "db' = db\<lparr> db_opportunities := db_opportunities db @ [row],
        db_events := db_events db @ [round_event ev] \<rparr>"
    using w None vals by (auto simp: create_write_def insert_event_Inr split: if_split_asm)
  have ok: "db_ok db'"
    using create_write_effect [OF db pend w] db by blast
  have id: "ev_acquisition_opportunity_id ev = opp_acquisition_opportunity_id row"
    using created_id [OF cre AcquisitionEvent_wf [OF ev]] new by (metis canon_sel(1))
  have "opportunity_row db (opp_acquisition_opportunity_id row) = None"
    using w None vals rowkey by (auto simp: create_write_def split: if_split_asm)
  then have "event_rows db (opp_acquisition_opportunity_id row) = []"
    using db by (auto simp: db_ok_def journal_ok_def event_rows_def filter_empty_conv list_all_iff)
  then have "event_rows db' (opp_acquisition_opportunity_id row) = [round_event ev]"
    using id by (simp add: db' event_rows_def)
  moreover have "identity_row db' (ca_identity_key c) = Some row"
    using None rowkey by (simp add: db' identity_row_def find_append)
  moreover have "opp_acquisition_opportunity_id nx = opp_acquisition_opportunity_id row"
    using new by (metis canon_sel(1))
  ultimately show ?thesis
    using ok res event_of_draft [OF ev] key(2) AcquisitionEvent_wf [OF ev]
    by (auto simp: creation_stored_def wf_round_event creation_args_def)
qed

text \<open>
  Creation is idempotent per identity: once an opportunity exists for an identity key, creating
  it again with the same request returns the same opportunity and creation event without writing,
  whatever ids the factories would have produced, and creating it under another idempotency key
  raises \<open>AcquisitionIdentityConflict\<close>.
\<close>

theorem creation_idempotent:
  assumes "db_ok db" and "create_opportunity env db c = Inr (db', r)"
    and "py_strip (ca_identity_key c) = ca_identity_key c"
    and "py_strip (ca_idempotency_key c) = ca_idempotency_key c"
  shows "(\<exists>r'. create_opportunity env' db' c = Inr (db', r') \<and> mr_replayed r' \<and>
      ev_event_id (mr_event r') = ev_event_id (mr_event r) \<and>
      opp_acquisition_opportunity_id (mr_projection r') = opp_acquisition_opportunity_id (mr_projection r)) \<and>
    (ca_identity_key d = ca_identity_key c \<longrightarrow> ca_idempotency_key d \<noteq> ca_idempotency_key c \<longrightarrow>
      create_opportunity env' db' d = Inl (AcquisitionIdentityConflict (ca_identity_key d)))"
proof -
  have db': "db_ok db'" and "creation_stored db' c r" using create_opportunity_stored [OF assms] by auto
  then obtain row e where row: "identity_row db' (ca_identity_key c) = Some row"
    "opp_acquisition_opportunity_id row = opp_acquisition_opportunity_id (mr_projection r)"
    and e: "List.find (\<lambda>e. ev_stream_sequence e = 1)
        (event_rows db' (opp_acquisition_opportunity_id row)) = Some e"
      "wf_event e" "ev_event_id e = ev_event_id (mr_event r)"
      "ev_idempotency_key e = ca_idempotency_key c"
      "ev_semantic_fingerprint e = fingerprint (semantic_input (creation_args c))"
    by (auto simp: creation_stored_def)
  have "projection_from_row row = Inr (canon row)" using read_row identity_row_ok [OF db' row(1)] .
  then show ?thesis
    using row e read_event_row [OF e(2)]
    by (simp add: create_opportunity_def create_read_def Let_def creation_replay_def)
qed

theorem creation_idempotent_witness:
  "\<exists>r'. create_opportunity sample_env2 sample_db sample_create = Inr (sample_db, r') \<and> mr_replayed r'"
proof -
  have "db_ok (sys_db empty_system)" by (simp add: empty_system_def db_ok_def journal_ok_def)
  moreover have "create_opportunity sample_env (sys_db empty_system) sample_create =
      Inr (sample_db, \<lparr> mr_projection = sample_first, mr_event = sample_first_event, mr_replayed = False \<rparr>)"
    by (simp add: create_opportunity_def sample_create_read sample_create_write)
  moreover have "py_strip (ca_identity_key sample_create) = ca_identity_key sample_create"
    "py_strip (ca_idempotency_key sample_create) = ca_idempotency_key sample_create" by code_simp+
  ultimately show ?thesis using creation_idempotent by blast
qed

section \<open>Recovery\<close>

lemma replace_row_twice:
  "opp_acquisition_opportunity_id bad = oid \<Longrightarrow> replace_row oid new (replace_row oid bad db) = replace_row oid new db"
  by (simp add: replace_row_def)

lemma rebuild_ignores_row:
  assumes "opportunity_row db oid = Some row" and "opp_acquisition_opportunity_id bad = oid"
  shows "rebuild_projection (replace_row oid bad db) oid = rebuild_projection db oid"
  using assms
  by (simp add: rebuild_projection_def opportunity_row_replace list_events_def replace_row_twice
      cong: option.case_cong)

text \<open>
  \<open>rebuild_projection\<close> repairs any damage to a projection row: whatever the row holds, the rebuild
  returns the replay of the journal, stores a row that reads back as the undamaged one did, leaves
  the journal alone and re-establishes the invariant of the database; it fails only when the
  database refuses the replayed values.
\<close>

theorem rebuild_repairs:
  assumes "reachable s" and "opportunity_row (sys_db s) oid = Some row"
    and "opp_acquisition_opportunity_id bad = oid"
  shows "\<exists>p. replay (event_rows (sys_db s) oid) = Inr p \<and>
    (if opportunity_columns_ok p
     then \<exists>db'. rebuild_projection (replace_row oid bad (sys_db s)) oid = Inr (db', p) \<and>
            get_opportunity db' oid = get_opportunity (sys_db s) oid \<and>
            db_events db' = db_events (sys_db s) \<and> db_ok db'
     else rebuild_projection (replace_row oid bad (sys_db s)) oid = Inl DatabaseError)"
proof -
  have db: "db_ok (sys_db s)" using reachable_ok [OF assms(1)] by (simp add: sys_ok_def)
  obtain p where p: "replay (event_rows (sys_db s) oid) = Inr p"
    using stored_projection [OF db assms(2)] by metis
  have jok: "journal_ok (sys_db s)" using db by (simp add: db_ok_def)
  note same = rebuild_ignores_row [OF assms(2,3)]
  note ev = list_events_ok [OF jok p]
  show ?thesis
  proof (cases "opportunity_columns_ok p")
    case False
    then have "rebuild_projection (sys_db s) oid = Inl DatabaseError"
      using p ev assms(2) by (simp add: rebuild_projection_def projection_values_def)
    then show ?thesis using p False same by auto
  next
    case True
    then obtain db' where r: "rebuild_projection (sys_db s) oid = Inr (db', p)"
      using p ev assms(2) by (auto simp: rebuild_projection_def projection_values_def)
    obtain new where new: "canon new = canon row" "opp_acquisition_opportunity_id new = oid"
      "db' = replace_row oid new (sys_db s)" "db_ok db'"
      using rebuild_effect [OF db r] assms(2) by (metis option.inject)
    then have "opportunity_row db' oid = Some new"
      using assms(2) by (simp add: opportunity_row_replace)
    then have "get_opportunity db' oid = get_opportunity (sys_db s) oid"
      using get_opportunity_row [OF new(4)] get_opportunity_row [OF db assms(2)] new(1) by simp
    then show ?thesis using p True same r new by auto
  qed
qed

theorem rebuild_repairs_witness:
  "\<exists>db' p. rebuild_projection (replace_row ''opp-1'' (sample_row\<lparr> opp_state := PAID \<rparr>) sample_db) ''opp-1'' =
     Inr (db', p) \<and> get_opportunity db' ''opp-1'' = get_opportunity sample_db ''opp-1''"
proof -
  let ?bad = "sample_row\<lparr> opp_state := PAID \<rparr>"
  have sys: "sys_db sample_system = sample_db" by (simp add: sample_system_def)
  have rows: "event_rows sample_db ''opp-1'' = [round_event sample_first_event]"
    by (simp add: event_rows_def sample_db_def sample_row_key)
  have "round_event sample_first_event =
      (round_event (dummy_event sample_env ''opp-1'' 1 (creation_args sample_create)))
        \<lparr> ev_semantic_fingerprint := sample_fp \<rparr>"
    by (simp add: sample_first_event_def round_event_def)
  then have "replay (event_rows sample_db ''opp-1'') =
      replay [round_event (dummy_event sample_env ''opp-1'' 1 (creation_args sample_create))]"
    unfolding rows by (simp add: replay_def reduce_event_fp)
  moreover have "rmap opportunity_columns_ok
      (replay [round_event (dummy_event sample_env ''opp-1'' 1 (creation_args sample_create))]) = Inr True"
    by code_simp
  ultimately have col: "replay (event_rows sample_db ''opp-1'') = Inr p \<Longrightarrow> opportunity_columns_ok p" for p
    by simp
  show ?thesis
    using rebuild_repairs [OF sample_reachable, of "''opp-1''" sample_row ?bad] col
    by (auto simp: sys sample_row_found sample_row_key)
qed

end
