(* ===== verification/PolicyContracts.thy ===== *)
theory PolicyContracts
  imports PyTime PyJson "HOL-Library.Product_Lexorder"
begin

text \<open>
  The data of \<open>policy/contracts.py\<close> and the command registry of \<open>policy/registry.py\<close>.

  Times and amounts carry the value Python compares (an instant, a rational). An approval grant
  keeps its timestamps as written, because its binding fingerprint hashes their ISO text.
\<close>

section \<open>Enumerations\<close>

datatype policy_status =
    APPROVED | DENIED | APPROVAL_REQUIRED | BUDGET_EXCEEDED | COMPLIANCE_BLOCKED
  | INSUFFICIENT_EVIDENCE | RATE_LIMITED

datatype autonomy_mode = SHADOW | ASSISTED | AUTONOMOUS_CAPPED | ADAPTIVE_VOLUME

datatype approval_purpose = ACTION | COMPLIANCE_REVIEW

datatype compliance_state = ALLOWED | BLOCKED | REVIEW_REQUIRED | COMPLIANCE_UNKNOWN

datatype evidence_status = EVIDENCE_READY | INSUFFICIENT | STALE | EVIDENCE_UNKNOWN

datatype readiness_state = READY | EXHAUSTED | READINESS_UNKNOWN

datatype availability_state = AVAILABLE | UNAVAILABLE | AVAILABILITY_UNKNOWN

datatype window_state = OPEN | CLOSED | WINDOW_UNKNOWN

datatype policy_error =
    PolicyControlUnavailable
  | PolicyEvaluationIdempotencyConflict string
  | PolicyAuditUnavailable
  | PolicyContractError \<comment> \<open>\<open>pydantic.ValidationError\<close>\<close>
  | PolicyValueError
  | PolicyDatabaseError

fun purpose_value :: "approval_purpose \<Rightarrow> string" where
  "purpose_value ACTION = ''ACTION''"
| "purpose_value COMPLIANCE_REVIEW = ''COMPLIANCE_REVIEW''"

fun mode_value :: "autonomy_mode \<Rightarrow> string" where
  "mode_value SHADOW = ''SHADOW''"
| "mode_value ASSISTED = ''ASSISTED''"
| "mode_value AUTONOMOUS_CAPPED = ''AUTONOMOUS_CAPPED''"
| "mode_value ADAPTIVE_VOLUME = ''ADAPTIVE_VOLUME''"

definition POLICY_VERSION :: string where "POLICY_VERSION = ''acquisition-policy-v1''"
definition MAX_APPROVAL_GRANTS :: nat where "MAX_APPROVAL_GRANTS = 4"
definition MAX_POLICY_REASON_CODES :: nat where "MAX_POLICY_REASON_CODES = 32"

section \<open>Request side\<close>

record scope =
  sc_country :: "string option"
  sc_language :: "string option"
  sc_wedge :: "string option"

definition scope_fingerprint :: "scope \<Rightarrow> string" where
  "scope_fingerprint s = sha256_hex (dumps (JObj
     [(''country'', opt_str (sc_country s)), (''language'', opt_str (sc_language s)),
      (''wedge'', opt_str (sc_wedge s))]))"

record approval_grant =
  gr_approval_id :: string
  gr_purpose :: approval_purpose
  gr_command :: string
  gr_target_ref :: string
  gr_acquisition_opportunity_id :: "string option"
  gr_action_fingerprint :: string
  gr_policy_version :: string
  gr_policy_snapshot_id :: string
  gr_control_revision :: int
  gr_scope_fingerprint :: string
  gr_issued_at :: datetime
  gr_expires_at :: datetime
  gr_one_shot :: bool
  gr_consumed_at :: "datetime option"
  gr_approved_by_actor_ref :: string

record approval_ref =
  ar_approval_id :: string
  ar_purpose :: approval_purpose
  ar_binding_fingerprint :: string

definition approval_binding_fingerprint :: "approval_grant \<Rightarrow> string" where
  "approval_binding_fingerprint g = sha256_hex (dumps (JObj
     [(''purpose'', JStr (purpose_value (gr_purpose g))),
      (''command'', JStr (gr_command g)),
      (''target_ref'', JStr (gr_target_ref g)),
      (''acquisition_opportunity_id'', opt_str (gr_acquisition_opportunity_id g)),
      (''action_fingerprint'', JStr (gr_action_fingerprint g)),
      (''policy_version'', JStr (gr_policy_version g)),
      (''policy_snapshot_id'', JStr (gr_policy_snapshot_id g)),
      (''control_revision'', JInt (gr_control_revision g)),
      (''scope_fingerprint'', JStr (gr_scope_fingerprint g)),
      (''issued_at'', JStr (isoformat (gr_issued_at g))),
      (''expires_at'', JStr (isoformat (gr_expires_at g))),
      (''one_shot'', JBool (gr_one_shot g)),
      (''consumed_at'', opt_str (map_option isoformat (gr_consumed_at g)))]))"

record evidence_readiness =
  er_status :: evidence_status
  er_claims :: "string list"
  er_assessment_version :: string
  er_observed_at :: instant
  er_valid_until :: "instant option"

record compliance_assessment =
  cpa_state :: compliance_state
  cpa_assessment_version :: string
  cpa_observed_at :: instant
  cpa_valid_until :: "instant option"

record operational_readiness =
  or_runtime_revision :: string
  or_provider_quota :: readiness_state
  or_mailbox_quota :: readiness_state
  or_send_window :: window_state
  or_provider_control_plane :: availability_state
  or_retry_after :: "instant option"
  or_valid_until :: "instant option"

record budget_envelope =
  be_period_start :: instant
  be_period_end :: "instant option"
  be_currency :: string
  be_cost_cap :: rat
  be_cost_used :: rat
  be_volume_cap :: int
  be_volume_used :: int

record policy_snapshot =
  ps_policy_snapshot_id :: string
  ps_control_revision :: int
  ps_policy_version :: string
  ps_captured_at :: instant
  ps_expires_at :: "instant option"
  ps_autonomy_mode :: autonomy_mode
  ps_shadow_target_mode :: "autonomy_mode option"
  ps_read_only :: bool
  ps_kill_switch :: bool
  ps_qa_signal_ref :: "string option"
  ps_allowed_commands :: "string list"
  ps_allowed_countries :: "string list"
  ps_allowed_languages :: "string list"
  ps_allowed_wedges :: "string list"
  ps_budget :: budget_envelope
  ps_runtime_revision :: string

record policy_request =
  rq_evaluation_id :: string
  rq_request_id :: string
  rq_command :: string
  rq_target_ref :: string
  rq_acquisition_opportunity_id :: "string option"
  rq_qa_signal_ref :: "string option"
  rq_expected_opportunity_version :: "int option"
  rq_actor_type :: string
  rq_actor_ref :: "string option"
  rq_canonical_arguments :: string
  rq_action_fingerprint :: string
  rq_scope :: scope
  rq_proposed_cost :: rat
  rq_currency :: string
  rq_proposed_volume :: int
  rq_reason_codes :: "string list"
  rq_evidence_refs :: "string list"
  rq_evidence :: evidence_readiness
  rq_compliance :: compliance_assessment
  rq_operational :: operational_readiness
  rq_expected_policy_version :: string
  rq_approval_grants :: "approval_grant list"
  rq_supervisor_plan_id :: "string option"
  rq_supervisor_action_index :: "int option"
  rq_supervisor_version :: "string option"
  rq_skill_version :: "string option"

record policy_decision =
  pd_evaluation_id :: string
  pd_request_id :: string
  pd_status :: policy_status
  pd_counterfactual_status :: "policy_status option"
  pd_executable :: bool
  pd_command :: string
  pd_target_ref :: string
  pd_acquisition_opportunity_id :: "string option"
  pd_action_fingerprint :: string
  pd_reason_codes :: "string list"
  pd_policy_version :: string
  pd_policy_snapshot_id :: string
  pd_control_revision :: int
  pd_runtime_revision :: string
  pd_evaluated_at :: instant
  pd_valid_until :: "instant option"
  pd_requires_revalidation :: bool
  pd_currency :: string
  pd_estimated_cost :: rat
  pd_proposed_volume :: int
  pd_cost_remaining :: rat
  pd_volume_remaining :: int
  pd_retry_after :: "instant option"
  pd_approval_refs :: "approval_ref list"
  pd_evidence_refs :: "string list"

definition allowed :: "policy_decision \<Rightarrow> bool" where
  "allowed d \<longleftrightarrow> pd_status d = APPROVED \<and> pd_executable d"

section \<open>The command registry\<close>

datatype risk_class = READ_ONLY | PREPARATORY | COMMERCIAL_MUTATION | RISK_REDUCTION | HUMAN_REVIEW

datatype target_scope = OPPORTUNITY | SIGNAL | GLOBAL | EITHER

record command_policy =
  cp_risk_class :: risk_class
  cp_target_scope :: target_scope
  cp_required_evidence :: "string list"
  cp_uses_budget :: bool
  cp_uses_volume :: bool
  cp_uses_provider_quota :: bool
  cp_uses_send_controls :: bool
  cp_requires_control_plane :: bool
  cp_requires_compliance :: bool
  cp_target_ref_prefix :: "string option"

definition plain_policy :: "risk_class \<Rightarrow> target_scope \<Rightarrow> string list \<Rightarrow> command_policy" where
  \<comment> \<open>\<open>CommandPolicy(...)\<close> with its defaults\<close>
  "plain_policy rc sc ev = \<lparr> cp_risk_class = rc, cp_target_scope = sc, cp_required_evidence = ev,
     cp_uses_budget = False, cp_uses_volume = False, cp_uses_provider_quota = False,
     cp_uses_send_controls = False, cp_requires_control_plane = False,
     cp_requires_compliance = False, cp_target_ref_prefix = None \<rparr>"

definition provider_policy :: "command_policy \<Rightarrow> command_policy" where
  \<comment> \<open>the flags that every provider-backed preparatory command sets\<close>
  "provider_policy p = p\<lparr> cp_uses_budget := True, cp_uses_provider_quota := True,
     cp_requires_control_plane := True \<rparr>"

definition sending_policy :: "command_policy \<Rightarrow> command_policy" where
  \<comment> \<open>the flags of the two commands that send\<close>
  "sending_policy p = (provider_policy p)\<lparr> cp_uses_volume := True, cp_uses_send_controls := True,
     cp_requires_compliance := True \<rparr>"

definition sending_evidence :: "string list" where
  "sending_evidence = [''ACQUISITION_DECISION'', ''PUBLIC_EVIDENCE'', ''VERIFIED_CONTACT'',
     ''ACQUISITION_PROSPECT_PREBUILD'', ''PERSONALIZATION_ARTIFACT'', ''COMPLIANCE_ASSESSMENT'',
     ''CAMPAIGN_PLAN'', ''MAILBOX_READINESS'', ''SEND_WINDOW'']"

definition COMMAND_POLICIES :: "(string \<times> command_policy) list" where
  "COMMAND_POLICIES = [
     (''resolve_signal_seed'', plain_policy READ_ONLY EITHER []),
     (''discover_suppliers'',
       (provider_policy (plain_policy PREPARATORY SIGNAL
          [''PUBLIC_OPPORTUNITY'', ''PUBLIC_EVIDENCE'', ''SUPPLIER_SEARCH_PROFILE'']))
        \<lparr> cp_target_ref_prefix := Some ''procurement-opportunity:'' \<rparr>),
     (''find_decision_makers'',
       provider_policy (plain_policy PREPARATORY OPPORTUNITY [''SUPPLIER'', ''CONTACT_SEARCH_PROFILE''])),
     (''enrich_company'',
       provider_policy (plain_policy PREPARATORY OPPORTUNITY
         [''SUPPLIER'', ''VERIFIED_CONTACT'', ''COMPANY_RESEARCH_PROFILE''])),
     (''evaluate_opportunity'',
       plain_policy PREPARATORY OPPORTUNITY [''PUBLIC_OPPORTUNITY'', ''PUBLIC_EVIDENCE'',
         ''ACQUISITION_PROSPECT_PREBUILD'', ''VERIFIED_CONTACT'', ''DECISION_INPUT'']),
     (''prepare_campaign'',
       plain_policy COMMERCIAL_MUTATION OPPORTUNITY [''ACQUISITION_DECISION'', ''PUBLIC_EVIDENCE'',
         ''VERIFIED_CONTACT'', ''ACQUISITION_PROSPECT_PREBUILD'', ''PERSONALIZATION_INPUT'']),
     (''assess_campaign_compliance'',
       plain_policy PREPARATORY OPPORTUNITY [''ACQUISITION_DECISION'', ''PUBLIC_EVIDENCE'',
         ''VERIFIED_CONTACT'', ''ACQUISITION_PROSPECT_PREBUILD'', ''PERSONALIZATION_ARTIFACT'',
         ''COMPLIANCE_INPUT'']),
     (''schedule_campaign'', sending_policy (plain_policy COMMERCIAL_MUTATION OPPORTUNITY sending_evidence)),
     (''execute_provider_operations'',
       sending_policy (plain_policy COMMERCIAL_MUTATION OPPORTUNITY sending_evidence)),
     (''pause_campaign'',
       (plain_policy RISK_REDUCTION EITHER [])\<lparr> cp_requires_control_plane := True \<rparr>),
     (''classify_response'', provider_policy (plain_policy PREPARATORY OPPORTUNITY [''RESPONSE''])),
     (''reconcile_conversion'', plain_policy PREPARATORY OPPORTUNITY []),
     (''reallocate_volume'',
       (plain_policy COMMERCIAL_MUTATION GLOBAL
          [''LEARNING_SNAPSHOT'', ''ALLOCATION_ENVELOPE'', ''CONVERSION_RETENTION''])
        \<lparr> cp_requires_control_plane := True \<rparr>),
     (''request_human_review'', plain_policy HUMAN_REVIEW EITHER []),
     (''generate_weekly_report'', plain_policy READ_ONLY GLOBAL [])]"

definition command_policy_of :: "string \<Rightarrow> command_policy option" where
  "command_policy_of command = map_of COMMAND_POLICIES command"

end
