(* ===== verification/PolicyEvaluator.thy ===== *)
theory PolicyEvaluator
  imports PolicyContracts
begin

text \<open>
  The pure evaluator of \<open>policy/evaluator.py\<close>. The code walks its checks in a fixed order and keeps
  the first status it assigns (\<open>primary = primary or ...\<close>) and every reason. Each group of checks is
  a function that returns its findings in order, a finding being a status to assign (or none) and a
  reason; \<open>primary_status\<close> picks the first status. The two assignments that overwrite \<open>primary\<close>
  come first and both assign DENIED, so they too keep the first.
\<close>

section \<open>Grants\<close>

type_synonym finding = "policy_status option \<times> string"

definition grant_matches ::
  "approval_grant \<Rightarrow> approval_purpose \<Rightarrow> policy_request \<Rightarrow> policy_snapshot \<Rightarrow> instant \<Rightarrow> bool" where
  "grant_matches g purpose r s now \<longleftrightarrow>
     gr_purpose g = purpose \<and>
     gr_command g = rq_command r \<and>
     gr_target_ref g = rq_target_ref r \<and>
     gr_acquisition_opportunity_id g = rq_acquisition_opportunity_id r \<and>
     gr_action_fingerprint g = rq_action_fingerprint r \<and>
     gr_scope_fingerprint g = scope_fingerprint (rq_scope r) \<and>
     gr_policy_version g = ps_policy_version s \<and>
     gr_policy_snapshot_id g = ps_policy_snapshot_id s \<and>
     gr_control_revision g = ps_control_revision s \<and>
     instant_of (gr_issued_at g) \<le> now \<and> now < instant_of (gr_expires_at g) \<and>
     gr_consumed_at g = None \<and>
     gr_one_shot g"

definition find_grant ::
  "approval_purpose \<Rightarrow> policy_request \<Rightarrow> policy_snapshot \<Rightarrow> instant \<Rightarrow> approval_grant option" where
  "find_grant purpose r s now = List.find (\<lambda>g. grant_matches g purpose r s now) (rq_approval_grants r)"

section \<open>The checks, in the order of the code\<close>

definition finding_if :: "bool \<Rightarrow> policy_status \<Rightarrow> string \<Rightarrow> finding list" where
  "finding_if c status reason = (if c then [(Some status, reason)] else [])"

definition effective_mode :: "policy_snapshot \<Rightarrow> autonomy_mode option" where
  "effective_mode s = (if ps_autonomy_mode s = SHADOW then ps_shadow_target_mode s
     else Some (ps_autonomy_mode s))"

definition safe_under_hard_stop :: "command_policy option \<Rightarrow> bool" where
  "safe_under_hard_stop p \<longleftrightarrow> (case p of None \<Rightarrow> False
     | Some q \<Rightarrow> cp_risk_class q \<in> {READ_ONLY, PREPARATORY, RISK_REDUCTION, HUMAN_REVIEW})"

definition positive_mutation :: "command_policy option \<Rightarrow> bool" where
  "positive_mutation p \<longleftrightarrow> (case p of None \<Rightarrow> False | Some q \<Rightarrow> cp_risk_class q = COMMERCIAL_MUTATION)"

definition hard_stop_checks :: "command_policy option \<Rightarrow> policy_request \<Rightarrow> policy_snapshot \<Rightarrow> finding list" where
  "hard_stop_checks p r s =
     finding_if (ps_qa_signal_ref s \<noteq> None \<and> rq_qa_signal_ref r \<noteq> ps_qa_signal_ref s)
       DENIED ''qa_signal_scope_mismatch''
     @ (if ps_kill_switch s \<and> \<not> safe_under_hard_stop p then [(Some DENIED, ''kill_switch_active'')]
        else if ps_kill_switch s then [(None, ''kill_switch_active_safe_exception'')] else [])
     @ finding_if (ps_read_only s \<and> positive_mutation p) DENIED ''read_only_mutation_blocked''
     @ finding_if (ps_policy_version s \<noteq> POLICY_VERSION \<or> rq_expected_policy_version r \<noteq> ps_policy_version s)
         DENIED ''unsupported_policy_version''"

definition outside :: "string option \<Rightarrow> string list \<Rightarrow> bool" where
  \<comment> \<open>\<open>value and value not in allowed\<close>\<close>
  "outside v xs \<longleftrightarrow> (case v of None \<Rightarrow> False | Some x \<Rightarrow> x \<noteq> [] \<and> x \<notin> set xs)"

definition scope_checks :: "command_policy \<Rightarrow> policy_request \<Rightarrow> policy_snapshot \<Rightarrow> finding list" where
  "scope_checks p r s =
     finding_if (rq_command r \<notin> set (ps_allowed_commands s)) DENIED ''command_not_allowed''
     @ finding_if (cp_target_scope p = OPPORTUNITY \<and> rq_acquisition_opportunity_id r = None)
         DENIED ''opportunity_required''
     @ finding_if (cp_target_scope p = GLOBAL \<and> rq_acquisition_opportunity_id r \<noteq> None)
         DENIED ''global_command_scope_mismatch''
     @ finding_if (cp_target_scope p = SIGNAL \<and> rq_acquisition_opportunity_id r \<noteq> None)
         DENIED ''signal_command_scope_mismatch''
     @ finding_if (case cp_target_ref_prefix p of None \<Rightarrow> False
             | Some prefix \<Rightarrow> prefix \<noteq> [] \<and> \<not> startswith (rq_target_ref r) prefix)
         DENIED ''signal_target_invalid''
     @ finding_if (outside (sc_country (rq_scope r)) (ps_allowed_countries s)) DENIED ''country_not_allowed''
     @ finding_if (outside (sc_language (rq_scope r)) (ps_allowed_languages s)) DENIED ''language_not_allowed''
     @ finding_if (outside (sc_wedge (rq_scope r)) (ps_allowed_wedges s)) DENIED ''wedge_not_allowed''
     @ finding_if (rq_command r = ''reallocate_volume'' \<and> effective_mode s \<noteq> Some ADAPTIVE_VOLUME)
         DENIED ''adaptive_volume_required''"

definition expired :: "instant option \<Rightarrow> instant \<Rightarrow> bool" where
  "expired until now \<longleftrightarrow> (case until of None \<Rightarrow> False | Some u \<Rightarrow> u \<le> now)"

definition compliance_checks ::
  "command_policy \<Rightarrow> policy_request \<Rightarrow> policy_snapshot \<Rightarrow> instant \<Rightarrow> finding list \<times> approval_grant list" where
  "compliance_checks p r s now =
     (let c = rq_compliance r in
      if \<not> cp_requires_compliance p then ([], [])
      else if now < cpa_observed_at c then ([(Some COMPLIANCE_BLOCKED, ''compliance_assessment_future_dated'')], [])
      else if expired (cpa_valid_until c) now
        then ([(Some COMPLIANCE_BLOCKED, ''compliance_assessment_expired'')], [])
      else (case cpa_state c of
          BLOCKED \<Rightarrow> ([(Some COMPLIANCE_BLOCKED, ''compliance_blocked'')], [])
        | COMPLIANCE_UNKNOWN \<Rightarrow> ([(Some COMPLIANCE_BLOCKED, ''compliance_state_unknown'')], [])
        | REVIEW_REQUIRED \<Rightarrow>
            (case find_grant COMPLIANCE_REVIEW r s now of
               None \<Rightarrow> ([(Some APPROVAL_REQUIRED, ''compliance_review_approval_required'')], [])
             | Some g \<Rightarrow> ([], [g]))
        | ALLOWED \<Rightarrow> ([], [])))"

definition evidence_checks :: "command_policy \<Rightarrow> policy_request \<Rightarrow> instant \<Rightarrow> finding list" where
  "evidence_checks p r now =
     (let e = rq_evidence r in
      if cp_required_evidence p = [] then []
      else if now < er_observed_at e then [(Some INSUFFICIENT_EVIDENCE, ''evidence_future_dated'')]
      else if expired (er_valid_until e) now then [(Some INSUFFICIENT_EVIDENCE, ''evidence_expired'')]
      else finding_if (er_status e \<noteq> EVIDENCE_READY \<or>
             list_ex (\<lambda>item. item \<notin> set (er_claims e)) (cp_required_evidence p))
             INSUFFICIENT_EVIDENCE ''insufficient_evidence'')"

definition cost_remaining :: "policy_snapshot \<Rightarrow> rat" where
  "cost_remaining s = dec_sub (be_cost_cap (ps_budget s)) (be_cost_used (ps_budget s))"

definition volume_remaining :: "policy_snapshot \<Rightarrow> int" where
  "volume_remaining s = be_volume_cap (ps_budget s) - be_volume_used (ps_budget s)"

definition budget_checks :: "command_policy \<Rightarrow> policy_request \<Rightarrow> policy_snapshot \<Rightarrow> finding list" where
  "budget_checks p r s =
     finding_if (cp_uses_budget p \<and> rq_currency r \<noteq> be_currency (ps_budget s))
       BUDGET_EXCEEDED ''currency_mismatch''
     @ finding_if (cp_uses_budget p \<and> cost_remaining s < rq_proposed_cost r)
         BUDGET_EXCEEDED ''daily_cost_cap_exceeded''
     @ finding_if (cp_uses_volume p \<and> volume_remaining s < rq_proposed_volume r)
         BUDGET_EXCEEDED ''daily_volume_cap_exceeded''"

definition uses_operational :: "command_policy \<Rightarrow> bool" where
  "uses_operational p \<longleftrightarrow> cp_uses_provider_quota p \<or> cp_uses_send_controls p \<or> cp_requires_control_plane p"

definition operational_checks :: "command_policy \<Rightarrow> policy_request \<Rightarrow> instant \<Rightarrow> finding list" where
  "operational_checks p r now =
     (let op = rq_operational r in
      if uses_operational p \<and> expired (or_valid_until op) now
      then [(Some RATE_LIMITED, ''operational_readiness_expired'')]
      else finding_if ((cp_uses_provider_quota p \<or> cp_uses_send_controls p) \<and> or_provider_quota op \<noteq> READY)
             RATE_LIMITED ''provider_quota_unavailable''
           @ finding_if (cp_uses_send_controls p \<and> or_mailbox_quota op \<noteq> READY)
               RATE_LIMITED ''mailbox_quota_unavailable''
           @ finding_if (cp_uses_send_controls p \<and> or_send_window op \<noteq> OPEN)
               RATE_LIMITED ''send_window_unavailable''
           @ finding_if (cp_requires_control_plane p \<and> or_provider_control_plane op \<noteq> AVAILABLE)
               RATE_LIMITED ''provider_control_plane_unavailable'')"

definition action_required :: "command_policy \<Rightarrow> policy_snapshot \<Rightarrow> bool" where
  "action_required p s \<longleftrightarrow> cp_risk_class p = COMMERCIAL_MUTATION \<and> effective_mode s = Some ASSISTED"

definition action_checks ::
  "command_policy \<Rightarrow> policy_request \<Rightarrow> policy_snapshot \<Rightarrow> instant \<Rightarrow> finding list \<times> approval_grant list" where
  "action_checks p r s now =
     (if \<not> action_required p s then ([], [])
      else (case find_grant ACTION r s now of
              None \<Rightarrow> ([(Some APPROVAL_REQUIRED, ''action_approval_required'')], [])
            | Some g \<Rightarrow> ([], [g])))"

section \<open>The decision\<close>

definition findings :: "policy_request \<Rightarrow> policy_snapshot \<Rightarrow> instant \<Rightarrow> finding list" where
  "findings r s now =
     (let p = command_policy_of (rq_command r) in
      hard_stop_checks p r s @
      (case p of None \<Rightarrow> [(Some DENIED, ''unknown_command'')]
       | Some q \<Rightarrow> scope_checks q r s @ fst (compliance_checks q r s now) @ evidence_checks q r now
           @ budget_checks q r s @ operational_checks q r now @ fst (action_checks q r s now)))"

definition used_grants :: "policy_request \<Rightarrow> policy_snapshot \<Rightarrow> instant \<Rightarrow> approval_grant list" where
  "used_grants r s now =
     (case command_policy_of (rq_command r) of None \<Rightarrow> []
      | Some q \<Rightarrow> snd (compliance_checks q r s now) @ snd (action_checks q r s now))"

fun primary_status :: "finding list \<Rightarrow> policy_status option" where
  "primary_status [] = None"
| "primary_status ((Some st, reason) # fs) = Some st"
| "primary_status ((None, reason) # fs) = primary_status fs"

definition opt_list :: "'a option \<Rightarrow> 'a list" where
  "opt_list x = (case x of None \<Rightarrow> [] | Some v \<Rightarrow> [v])"

definition known_boundaries :: "policy_request \<Rightarrow> policy_snapshot \<Rightarrow> instant \<Rightarrow> instant list" where
  "known_boundaries r s now =
     (let p = command_policy_of (rq_command r);
          flag = (\<lambda>f. case p of None \<Rightarrow> False | Some q \<Rightarrow> f q) in
      opt_list (ps_expires_at s)
      @ (if flag (\<lambda>q. cp_uses_budget q \<or> cp_uses_volume q) then opt_list (be_period_end (ps_budget s)) else [])
      @ (if flag (\<lambda>q. cp_required_evidence q \<noteq> []) then opt_list (er_valid_until (rq_evidence r)) else [])
      @ (if flag cp_requires_compliance then opt_list (cpa_valid_until (rq_compliance r)) else [])
      @ (if flag uses_operational then opt_list (or_valid_until (rq_operational r)) else [])
      @ map (\<lambda>g. instant_of (gr_expires_at g)) (used_grants r s now))"

definition grant_ref :: "approval_grant \<Rightarrow> approval_ref" where
  "grant_ref g = \<lparr> ar_approval_id = gr_approval_id g, ar_purpose = gr_purpose g,
     ar_binding_fingerprint = approval_binding_fingerprint g \<rparr>"

definition evaluate_policy :: "policy_request \<Rightarrow> policy_snapshot \<Rightarrow> instant \<Rightarrow> policy_decision" where
  "evaluate_policy r s now =
     (let fs = findings r s now;
          shadow = (ps_autonomy_mode s = SHADOW);
          outcome = (case primary_status fs of None \<Rightarrow> APPROVED | Some st \<Rightarrow> st);
          status = (if shadow \<and> outcome = APPROVED then DENIED else outcome);
          reasons = map snd fs @
            (if shadow \<and> outcome = APPROVED then [''shadow_mode_execution_blocked''] else [])
      in \<lparr> pd_evaluation_id = rq_evaluation_id r,
           pd_request_id = rq_request_id r,
           pd_status = status,
           pd_counterfactual_status = (if shadow then Some outcome else None),
           pd_executable = (status = APPROVED \<and> \<not> shadow),
           pd_command = rq_command r,
           pd_target_ref = rq_target_ref r,
           pd_acquisition_opportunity_id = rq_acquisition_opportunity_id r,
           pd_action_fingerprint = rq_action_fingerprint r,
           pd_reason_codes =
             fromkeys (if reasons = [] then [''policy_envelope_satisfied''] else reasons),
           pd_policy_version = ps_policy_version s,
           pd_policy_snapshot_id = ps_policy_snapshot_id s,
           pd_control_revision = ps_control_revision s,
           pd_runtime_revision = or_runtime_revision (rq_operational r),
           pd_evaluated_at = now,
           pd_valid_until = min_opt (known_boundaries r s now),
           pd_requires_revalidation = True,
           pd_currency = rq_currency r,
           pd_estimated_cost = rq_proposed_cost r,
           pd_proposed_volume = rq_proposed_volume r,
           pd_cost_remaining = cost_remaining s,
           pd_volume_remaining = volume_remaining s,
           pd_retry_after = (if status = RATE_LIMITED then or_retry_after (rq_operational r) else None),
           pd_approval_refs =
             sort_key (\<lambda>a. (purpose_value (ar_purpose a), ar_approval_id a, ar_binding_fingerprint a))
               (map grant_ref (used_grants r s now)),
           pd_evidence_refs = rq_evidence_refs r \<rparr>)"

section \<open>Which findings are empty\<close>

lemma primary_None: "primary_status fs = None \<longleftrightarrow> list_all (\<lambda>f. fst f = None) fs"
  by (induction fs rule: primary_status.induct) auto

lemma primary_append:
  "primary_status (fs @ gs) = (case primary_status fs of None \<Rightarrow> primary_status gs | Some st \<Rightarrow> Some st)"
  by (induction fs rule: primary_status.induct) auto

lemma primary_status_in: "primary_status fs = Some st \<Longrightarrow> \<exists>reason. (Some st, reason) \<in> set fs"
  by (induction fs rule: primary_status.induct) auto

lemma finding_if_clear [simp]:
  "list_all (\<lambda>f. fst f = None) (finding_if c st reason) \<longleftrightarrow> \<not> c"
  by (simp add: finding_if_def)

lemma finding_if_set [simp]: "f \<in> set (finding_if c st reason) \<longleftrightarrow> c \<and> f = (Some st, reason)"
  by (auto simp: finding_if_def)

text \<open>What each group of checks requires, stated without the walk through the checks.\<close>

definition not_stopped :: "command_policy \<Rightarrow> policy_request \<Rightarrow> policy_snapshot \<Rightarrow> bool" where
  "not_stopped q r s \<longleftrightarrow>
     (ps_qa_signal_ref s = None \<or> rq_qa_signal_ref r = ps_qa_signal_ref s) \<and>
     (cp_risk_class q = COMMERCIAL_MUTATION \<longrightarrow> \<not> ps_kill_switch s \<and> \<not> ps_read_only s) \<and>
     ps_policy_version s = POLICY_VERSION \<and> rq_expected_policy_version r = POLICY_VERSION"

definition in_scope :: "command_policy \<Rightarrow> policy_request \<Rightarrow> policy_snapshot \<Rightarrow> bool" where
  "in_scope q r s \<longleftrightarrow>
     rq_command r \<in> set (ps_allowed_commands s) \<and>
     (case cp_target_scope q of
        OPPORTUNITY \<Rightarrow> rq_acquisition_opportunity_id r \<noteq> None
      | GLOBAL \<Rightarrow> rq_acquisition_opportunity_id r = None
      | SIGNAL \<Rightarrow> rq_acquisition_opportunity_id r = None
      | EITHER \<Rightarrow> True) \<and>
     (case cp_target_ref_prefix q of None \<Rightarrow> True
      | Some prefix \<Rightarrow> prefix = [] \<or> startswith (rq_target_ref r) prefix) \<and>
     \<not> outside (sc_country (rq_scope r)) (ps_allowed_countries s) \<and>
     \<not> outside (sc_language (rq_scope r)) (ps_allowed_languages s) \<and>
     \<not> outside (sc_wedge (rq_scope r)) (ps_allowed_wedges s) \<and>
     (rq_command r = ''reallocate_volume'' \<longrightarrow> effective_mode s = Some ADAPTIVE_VOLUME)"

definition compliant :: "command_policy \<Rightarrow> policy_request \<Rightarrow> policy_snapshot \<Rightarrow> instant \<Rightarrow> bool" where
  "compliant q r s now \<longleftrightarrow> (cp_requires_compliance q \<longrightarrow>
     cpa_observed_at (rq_compliance r) \<le> now \<and> \<not> expired (cpa_valid_until (rq_compliance r)) now \<and>
     (cpa_state (rq_compliance r) = ALLOWED \<or>
      cpa_state (rq_compliance r) = REVIEW_REQUIRED \<and>
        list_ex (\<lambda>g. grant_matches g COMPLIANCE_REVIEW r s now) (rq_approval_grants r)))"

definition evidenced :: "command_policy \<Rightarrow> policy_request \<Rightarrow> instant \<Rightarrow> bool" where
  "evidenced q r now \<longleftrightarrow> (cp_required_evidence q \<noteq> [] \<longrightarrow>
     er_observed_at (rq_evidence r) \<le> now \<and> \<not> expired (er_valid_until (rq_evidence r)) now \<and>
     er_status (rq_evidence r) = EVIDENCE_READY \<and>
     set (cp_required_evidence q) \<subseteq> set (er_claims (rq_evidence r)))"

definition within_budget :: "command_policy \<Rightarrow> policy_request \<Rightarrow> policy_snapshot \<Rightarrow> bool" where
  "within_budget q r s \<longleftrightarrow>
     (cp_uses_budget q \<longrightarrow> rq_currency r = be_currency (ps_budget s) \<and>
        rq_proposed_cost r \<le> cost_remaining s) \<and>
     (cp_uses_volume q \<longrightarrow> rq_proposed_volume r \<le> volume_remaining s)"

definition operational :: "command_policy \<Rightarrow> policy_request \<Rightarrow> instant \<Rightarrow> bool" where
  "operational q r now \<longleftrightarrow>
     (uses_operational q \<longrightarrow> \<not> expired (or_valid_until (rq_operational r)) now) \<and>
     (cp_uses_provider_quota q \<or> cp_uses_send_controls q \<longrightarrow> or_provider_quota (rq_operational r) = READY) \<and>
     (cp_uses_send_controls q \<longrightarrow> or_mailbox_quota (rq_operational r) = READY \<and>
        or_send_window (rq_operational r) = OPEN) \<and>
     (cp_requires_control_plane q \<longrightarrow> or_provider_control_plane (rq_operational r) = AVAILABLE)"

definition action_approved :: "command_policy \<Rightarrow> policy_request \<Rightarrow> policy_snapshot \<Rightarrow> instant \<Rightarrow> bool" where
  "action_approved q r s now \<longleftrightarrow>
     (cp_risk_class q = COMMERCIAL_MUTATION \<and> effective_mode s = Some ASSISTED \<longrightarrow>
        list_ex (\<lambda>g. grant_matches g ACTION r s now) (rq_approval_grants r))"

definition permitted :: "policy_request \<Rightarrow> policy_snapshot \<Rightarrow> instant \<Rightarrow> bool" where
  "permitted r s now \<longleftrightarrow> (case command_policy_of (rq_command r) of None \<Rightarrow> False
     | Some q \<Rightarrow> not_stopped q r s \<and> in_scope q r s \<and> compliant q r s now \<and> evidenced q r now \<and>
         within_budget q r s \<and> operational q r now \<and> action_approved q r s now)"

abbreviation clear :: "finding list \<Rightarrow> bool" where
  "clear \<equiv> list_all (\<lambda>f. fst f = None)"

lemma safe_iff: "safe_under_hard_stop (Some q) \<longleftrightarrow> cp_risk_class q \<noteq> COMMERCIAL_MUTATION"
  by (cases "cp_risk_class q") (simp_all add: safe_under_hard_stop_def)

lemma hard_stop_clear: "clear (hard_stop_checks (Some q) r s) \<longleftrightarrow> not_stopped q r s"
  by (auto simp: hard_stop_checks_def not_stopped_def safe_iff positive_mutation_def)

lemma scope_clear: "clear (scope_checks q r s) \<longleftrightarrow> in_scope q r s"
  by (cases "cp_target_scope q")
     (auto simp: scope_checks_def in_scope_def split: option.splits)

lemma find_grant_None:
  "find_grant purpose r s now = None \<longleftrightarrow>
     \<not> list_ex (\<lambda>g. grant_matches g purpose r s now) (rq_approval_grants r)"
  by (auto simp: find_grant_def find_None_iff list_ex_iff)

lemma compliance_clear: "clear (fst (compliance_checks q r s now)) \<longleftrightarrow> compliant q r s now"
  using find_grant_None [of COMPLIANCE_REVIEW r s now]
  by (cases "cpa_state (rq_compliance r)")
     (auto simp: compliance_checks_def compliant_def Let_def split: option.split)

lemma evidence_clear: "clear (evidence_checks q r now) \<longleftrightarrow> evidenced q r now"
  by (auto simp: evidence_checks_def evidenced_def Let_def list_ex_iff subset_iff)

lemma budget_clear: "clear (budget_checks q r s) \<longleftrightarrow> within_budget q r s"
  by (auto simp: budget_checks_def within_budget_def)

lemma operational_clear: "clear (operational_checks q r now) \<longleftrightarrow> operational q r now"
  by (auto simp: operational_checks_def operational_def Let_def)

lemma action_clear: "clear (fst (action_checks q r s now)) \<longleftrightarrow> action_approved q r s now"
  using find_grant_None [of ACTION r s now]
  by (auto simp: action_checks_def action_approved_def action_required_def split: option.split)

lemmas checks_clear = hard_stop_clear scope_clear compliance_clear evidence_clear budget_clear
  operational_clear action_clear

lemma findings_clear: "clear (findings r s now) \<longleftrightarrow> permitted r s now"
  by (cases "command_policy_of (rq_command r)")
     (simp_all add: findings_def permitted_def Let_def checks_clear)

section \<open>The first failing group decides the status\<close>

abbreviation only_status :: "policy_status \<Rightarrow> finding list \<Rightarrow> bool" where
  "only_status st \<equiv> list_all (\<lambda>f. fst f = None \<or> fst f = Some st)"

lemma primary_uniform:
  "only_status st fs \<Longrightarrow> primary_status fs = (if clear fs then None else Some st)"
  by (induction fs rule: primary_status.induct) auto

lemma only_status_if [simp]: "only_status st (finding_if c st reason)"
  by (simp add: finding_if_def)

definition compliance_failure :: "policy_request \<Rightarrow> instant \<Rightarrow> policy_status" where
  \<comment> \<open>a current assessment that asks for a review lacks an approval; anything else is blocked\<close>
  "compliance_failure r now =
     (if cpa_observed_at (rq_compliance r) \<le> now \<and> \<not> expired (cpa_valid_until (rq_compliance r)) now \<and>
         cpa_state (rq_compliance r) = REVIEW_REQUIRED then APPROVAL_REQUIRED else COMPLIANCE_BLOCKED)"

lemma hard_stop_only: "only_status DENIED (hard_stop_checks p r s)"
  by (simp add: hard_stop_checks_def)

lemma hard_stop_primary:
  "primary_status (hard_stop_checks (Some q) r s) = (if not_stopped q r s then None else Some DENIED)"
  using primary_uniform [OF hard_stop_only] by (simp add: hard_stop_clear)

lemma scope_primary:
  "primary_status (scope_checks q r s) = (if in_scope q r s then None else Some DENIED)"
proof -
  have "only_status DENIED (scope_checks q r s)" by (simp add: scope_checks_def)
  then show ?thesis by (simp only: primary_uniform scope_clear)
qed

lemma compliance_primary:
  "primary_status (fst (compliance_checks q r s now)) =
     (if compliant q r s now then None else Some (compliance_failure r now))"
  using find_grant_None [of COMPLIANCE_REVIEW r s now]
  by (cases "cpa_state (rq_compliance r)")
     (auto simp: compliance_checks_def compliant_def compliance_failure_def Let_def split: option.split)

lemma evidence_primary:
  "primary_status (evidence_checks q r now) = (if evidenced q r now then None else Some INSUFFICIENT_EVIDENCE)"
proof -
  have "only_status INSUFFICIENT_EVIDENCE (evidence_checks q r now)"
    by (simp add: evidence_checks_def Let_def)
  then show ?thesis by (simp only: primary_uniform evidence_clear)
qed

lemma budget_primary:
  "primary_status (budget_checks q r s) = (if within_budget q r s then None else Some BUDGET_EXCEEDED)"
proof -
  have "only_status BUDGET_EXCEEDED (budget_checks q r s)" by (simp add: budget_checks_def)
  then show ?thesis by (simp only: primary_uniform budget_clear)
qed

lemma operational_primary:
  "primary_status (operational_checks q r now) = (if operational q r now then None else Some RATE_LIMITED)"
proof -
  have "only_status RATE_LIMITED (operational_checks q r now)"
    by (simp add: operational_checks_def Let_def)
  then show ?thesis by (simp only: primary_uniform operational_clear)
qed

lemma action_primary:
  "primary_status (fst (action_checks q r s now)) =
     (if action_approved q r s now then None else Some APPROVAL_REQUIRED)"
proof -
  have "only_status APPROVAL_REQUIRED (fst (action_checks q r s now))"
    by (simp add: action_checks_def split: option.split)
  then show ?thesis by (simp only: primary_uniform action_clear)
qed

lemmas group_primary = hard_stop_primary scope_primary compliance_primary evidence_primary
  budget_primary operational_primary action_primary

definition policy_outcome :: "policy_request \<Rightarrow> policy_snapshot \<Rightarrow> instant \<Rightarrow> policy_status" where
  "policy_outcome r s now =
     (case command_policy_of (rq_command r) of None \<Rightarrow> DENIED
      | Some q \<Rightarrow>
          if \<not> not_stopped q r s \<or> \<not> in_scope q r s then DENIED
          else if \<not> compliant q r s now then compliance_failure r now
          else if \<not> evidenced q r now then INSUFFICIENT_EVIDENCE
          else if \<not> within_budget q r s then BUDGET_EXCEEDED
          else if \<not> operational q r now then RATE_LIMITED
          else if \<not> action_approved q r s now then APPROVAL_REQUIRED
          else APPROVED)"

lemma primary_unknown:
  "command_policy_of (rq_command r) = None \<Longrightarrow> primary_status (findings r s now) = Some DENIED"
proof -
  assume none: "command_policy_of (rq_command r) = None"
  have "primary_status (hard_stop_checks None r s) \<in> {None, Some DENIED}"
    using primary_uniform [OF hard_stop_only] by simp
  then show ?thesis using none by (auto simp: findings_def primary_append)
qed

lemma outcome_findings:
  "(case primary_status (findings r s now) of None \<Rightarrow> APPROVED | Some st \<Rightarrow> st) = policy_outcome r s now"
proof (cases "command_policy_of (rq_command r)")
  case None
  then show ?thesis by (simp add: primary_unknown policy_outcome_def)
next
  case (Some q)
  then show ?thesis by (simp add: findings_def policy_outcome_def primary_append group_primary)
qed

lemma policy_outcome_approved: "policy_outcome r s now = APPROVED \<longleftrightarrow> permitted r s now"
  by (auto simp: policy_outcome_def permitted_def compliance_failure_def split: option.split)

lemma evaluate_status:
  "pd_status (evaluate_policy r s now) =
     (if ps_autonomy_mode s = SHADOW \<and> policy_outcome r s now = APPROVED then DENIED
      else policy_outcome r s now)"
  "pd_executable (evaluate_policy r s now) \<longleftrightarrow>
     ps_autonomy_mode s \<noteq> SHADOW \<and> policy_outcome r s now = APPROVED"
  "pd_counterfactual_status (evaluate_policy r s now) =
     (if ps_autonomy_mode s = SHADOW then Some (policy_outcome r s now) else None)"
  by (auto simp: evaluate_policy_def Let_def outcome_findings)

section \<open>Properties\<close>

text \<open>
  C9. The evaluator grants execution exactly when its declarative reading holds: the mode is not
  SHADOW, the command is registered, no hard stop applies to it, it is in scope, compliant, backed
  by current evidence, within budget, operationally ready and, for a commercial mutation in ASSISTED
  mode, covered by a matching approval.
\<close>

theorem executable_iff_permitted:
  "pd_executable (evaluate_policy r s now) \<longleftrightarrow> ps_autonomy_mode s \<noteq> SHADOW \<and> permitted r s now"
  by (simp add: evaluate_status policy_outcome_approved)

text \<open>
  Outside SHADOW the reported status is that of the first failing group in the order denial,
  compliance, evidence, budget, operations, action approval; APPROVED when none fails.
\<close>

theorem status_of_first_failure:
  assumes "ps_autonomy_mode s \<noteq> SHADOW"
  shows "pd_status (evaluate_policy r s now) = policy_outcome r s now \<and>
    allowed (evaluate_policy r s now) = (policy_outcome r s now = APPROVED)"
  using assms by (simp add: evaluate_status allowed_def)

text \<open>
  SHADOW never executes, and its counterfactual status is exact: it is the status the same
  request would get under the target mode.
\<close>

theorem shadow_counterfactual:
  assumes "ps_autonomy_mode s = SHADOW" and "ps_shadow_target_mode s = Some m" and "m \<noteq> SHADOW"
  shows "\<not> pd_executable (evaluate_policy r s now) \<and>
    pd_counterfactual_status (evaluate_policy r s now) =
      Some (pd_status (evaluate_policy r
        (s\<lparr> ps_autonomy_mode := m, ps_shadow_target_mode := None \<rparr>) now))"
proof -
  let ?s = "s\<lparr> ps_autonomy_mode := m, ps_shadow_target_mode := None \<rparr>"
  have mode: "effective_mode ?s = effective_mode s" using assms by (simp add: effective_mode_def)
  have match: "grant_matches g purpose r ?s now = grant_matches g purpose r s now" for g purpose
    by (simp add: grant_matches_def)
  have "not_stopped q r ?s = not_stopped q r s" "in_scope q r ?s = in_scope q r s"
    "compliant q r ?s now = compliant q r s now" "within_budget q r ?s = within_budget q r s"
    "action_approved q r ?s now = action_approved q r s now" for q
    by (simp_all add: not_stopped_def in_scope_def compliant_def within_budget_def
        action_approved_def cost_remaining_def volume_remaining_def mode match)
  then have "policy_outcome r ?s now = policy_outcome r s now"
    by (simp only: policy_outcome_def)
  then show ?thesis using assms by (simp add: evaluate_status)
qed

section \<open>A sample request\<close>

definition sample_budget :: budget_envelope where
  "sample_budget = \<lparr> be_period_start = 0, be_period_end = Some 1000, be_currency = ''EUR'',
     be_cost_cap = 10, be_cost_used = 9/2, be_volume_cap = 20, be_volume_used = 5 \<rparr>"

definition sample_snapshot :: policy_snapshot where
  "sample_snapshot = \<lparr> ps_policy_snapshot_id = ''snap'', ps_control_revision = 3,
     ps_policy_version = POLICY_VERSION, ps_captured_at = 100, ps_expires_at = None,
     ps_autonomy_mode = ASSISTED, ps_shadow_target_mode = None, ps_read_only = False,
     ps_kill_switch = False, ps_qa_signal_ref = None, ps_allowed_commands = [''schedule_campaign''],
     ps_allowed_countries = [''FR''], ps_allowed_languages = [''fr''], ps_allowed_wedges = [],
     ps_budget = sample_budget, ps_runtime_revision = ''rev'' \<rparr>"

definition sample_scope :: scope where
  "sample_scope = \<lparr> sc_country = Some ''FR'', sc_language = Some ''fr'', sc_wedge = None \<rparr>"

definition sample_moment :: "nat \<Rightarrow> datetime" where
  "sample_moment h = \<lparr> dt_date = mk_date 2026 1 1, dt_hour = h, dt_minute = 0, dt_second = 0,
     dt_micro = 0, dt_offset = Some 0 \<rparr>"

definition sample_grant :: approval_grant where
  "sample_grant = \<lparr> gr_approval_id = ''approval'', gr_purpose = ACTION,
     gr_command = ''schedule_campaign'', gr_target_ref = ''target'',
     gr_acquisition_opportunity_id = Some ''opp-1'', gr_action_fingerprint = ''fp'',
     gr_policy_version = POLICY_VERSION, gr_policy_snapshot_id = ''snap'', gr_control_revision = 3,
     gr_scope_fingerprint = scope_fingerprint sample_scope, gr_issued_at = sample_moment 8,
     gr_expires_at = sample_moment 12, gr_one_shot = True, gr_consumed_at = None,
     gr_approved_by_actor_ref = ''human'' \<rparr>"

definition sample_request :: policy_request where
  "sample_request = \<lparr> rq_evaluation_id = ''eval'', rq_request_id = ''req'',
     rq_command = ''schedule_campaign'', rq_target_ref = ''target'',
     rq_acquisition_opportunity_id = Some ''opp-1'', rq_qa_signal_ref = None,
     rq_expected_opportunity_version = Some 7, rq_actor_type = ''SYSTEM'', rq_actor_ref = None,
     rq_canonical_arguments = ''{}'', rq_action_fingerprint = ''fp'', rq_scope = sample_scope,
     rq_proposed_cost = 5, rq_currency = ''EUR'', rq_proposed_volume = 1, rq_reason_codes = [],
     rq_evidence_refs = [],
     rq_evidence = \<lparr> er_status = EVIDENCE_READY, er_claims = sending_evidence,
       er_assessment_version = ''v'', er_observed_at = 0, er_valid_until = None \<rparr>,
     rq_compliance = \<lparr> cpa_state = ALLOWED, cpa_assessment_version = ''v'', cpa_observed_at = 0,
       cpa_valid_until = None \<rparr>,
     rq_operational = \<lparr> or_runtime_revision = ''rev'', or_provider_quota = READY,
       or_mailbox_quota = READY, or_send_window = OPEN, or_provider_control_plane = AVAILABLE,
       or_retry_after = None, or_valid_until = None \<rparr>,
     rq_expected_policy_version = POLICY_VERSION, rq_approval_grants = [sample_grant],
     rq_supervisor_plan_id = None, rq_supervisor_action_index = None,
     rq_supervisor_version = None, rq_skill_version = None \<rparr>"

definition sample_instant :: instant where "sample_instant = instant_of (sample_moment 9)"

definition sample_profile :: command_policy where
  "sample_profile = sending_policy (plain_policy COMMERCIAL_MUTATION OPPORTUNITY sending_evidence)"

lemma sample_command: "command_policy_of (rq_command sample_request) = Some sample_profile"
  by (simp add: command_policy_of_def COMMAND_POLICIES_def sample_request_def sample_profile_def)

lemma sample_times: "instant_of (sample_moment 8) \<le> sample_instant" "sample_instant < instant_of (sample_moment 12)"
  "0 \<le> sample_instant"
  by code_simp+

lemma sample_remaining: "cost_remaining sample_snapshot = 11/2"
proof -
  have "ctx_round (11/2) = 11/2"
    by (rule ctx_round_exact [of _ 55 "-1"]) (simp_all add: power_int_def)
  then show ?thesis by (simp add: cost_remaining_def dec_sub_def sample_snapshot_def sample_budget_def)
qed

lemma sample_permitted: "permitted sample_request sample_snapshot sample_instant"
proof -
  have "grant_matches sample_grant ACTION sample_request sample_snapshot sample_instant"
    using sample_times by (simp add: grant_matches_def sample_grant_def sample_request_def sample_snapshot_def)
  then have "action_approved sample_profile sample_request sample_snapshot sample_instant"
    by (simp add: action_approved_def sample_request_def)
  moreover have "not_stopped sample_profile sample_request sample_snapshot"
    "in_scope sample_profile sample_request sample_snapshot"
    "evidenced sample_profile sample_request sample_instant"
    "operational sample_profile sample_request sample_instant"
    using sample_times(3)
    by (simp_all add: not_stopped_def in_scope_def evidenced_def operational_def sample_profile_def
        sending_policy_def provider_policy_def plain_policy_def sample_request_def sample_snapshot_def
        sample_scope_def outside_def expired_def)
  moreover have "compliant sample_profile sample_request sample_snapshot sample_instant"
    using sample_times(3) by (simp add: compliant_def sample_request_def expired_def)
  moreover have "within_budget sample_profile sample_request sample_snapshot"
    unfolding within_budget_def sample_remaining
    by (simp add: sample_request_def sample_snapshot_def sample_budget_def volume_remaining_def)
  ultimately show ?thesis by (simp add: permitted_def sample_command)
qed

lemma sample_executable: "pd_executable (evaluate_policy sample_request sample_snapshot sample_instant)"
  using sample_permitted by (simp add: evaluate_status policy_outcome_approved sample_snapshot_def)

theorem status_of_first_failure_witness:
  "pd_status (evaluate_policy sample_request (sample_snapshot\<lparr> ps_kill_switch := True \<rparr>) sample_instant) = DENIED"
proof -
  have "policy_outcome sample_request (sample_snapshot\<lparr> ps_kill_switch := True \<rparr>) sample_instant = DENIED"
    by (simp add: policy_outcome_def sample_command not_stopped_def sample_profile_def sending_policy_def
        provider_policy_def plain_policy_def)
  then show ?thesis
    using status_of_first_failure [of "sample_snapshot\<lparr> ps_kill_switch := True \<rparr>"]
    by (simp add: sample_snapshot_def)
qed

theorem shadow_counterfactual_witness:
  "\<not> pd_executable (evaluate_policy sample_request
     (sample_snapshot\<lparr> ps_autonomy_mode := SHADOW, ps_shadow_target_mode := Some ASSISTED \<rparr>) sample_instant)"
  using shadow_counterfactual [of "sample_snapshot\<lparr> ps_autonomy_mode := SHADOW,
      ps_shadow_target_mode := Some ASSISTED \<rparr>" ASSISTED] by simp

section \<open>Budget, validity and approvals\<close>

text \<open>
  An executable command that uses the budget keeps it: with caps and usage on the six-decimal
  grid of their columns (and below \<open>10 ^ 12\<close>), the 28-digit subtraction of the code is exact, so the
  usage plus the proposed cost stays within the cap, in the envelope's currency; a command that uses
  volume keeps the volume cap.
\<close>

theorem executable_within_budget:
  assumes "pd_executable (evaluate_policy r s now)"
    and "command_policy_of (rq_command r) = Some q"
    and "on_grid 6 (be_cost_cap (ps_budget s))" and "on_grid 6 (be_cost_used (ps_budget s))"
    and "\<bar>be_cost_cap (ps_budget s)\<bar> < 10 ^ 12" and "\<bar>be_cost_used (ps_budget s)\<bar> < 10 ^ 12"
  shows "(cp_uses_budget q \<longrightarrow>
      be_cost_used (ps_budget s) + rq_proposed_cost r \<le> be_cost_cap (ps_budget s) \<and>
      rq_currency r = be_currency (ps_budget s)) \<and>
    (cp_uses_volume q \<longrightarrow>
      be_volume_used (ps_budget s) + rq_proposed_volume r \<le> be_volume_cap (ps_budget s))"
proof -
  let ?cap = "be_cost_cap (ps_budget s)" and ?used = "be_cost_used (ps_budget s)"
  obtain a b where ab: "?cap * 10 ^ 6 = of_int a" "?used * 10 ^ 6 = of_int b"
    using assms(3,4) by (auto simp: on_grid_def elim!: Ints_cases)
  have diff: "?cap - ?used = of_int (a - b) * 10 powi (- 6)"
    using ab by (simp add: power_int_def field_simps)
  have "of_int (a - b) = (?cap - ?used) * 10 ^ 6"
    using ab by (simp only: of_int_diff left_diff_distrib)
  then have "\<bar>of_int (a - b) :: rat\<bar> = \<bar>?cap - ?used\<bar> * 10 ^ 6"
    by (simp only: abs_mult) simp
  also have "\<dots> < 2 * 10 ^ 12 * 10 ^ 6"
    using assms(5,6) abs_triangle_ineq4 [of ?cap ?used] by (intro mult_strict_right_mono) (linarith, simp)
  also have "\<dots> \<le> 10 ^ 28" by simp
  finally have "\<bar>a - b\<bar> < 10 ^ 28"
    by (metis (mono_tags) of_int_abs of_int_less_iff of_int_numeral of_int_power)
  then have "cost_remaining s = ?cap - ?used"
    unfolding cost_remaining_def dec_sub_def by (rule ctx_round_exact [OF diff])
  moreover have "within_budget q r s"
    using assms(1,2) by (auto simp: evaluate_status policy_outcome_approved permitted_def)
  ultimately show ?thesis by (auto simp: within_budget_def volume_remaining_def)
qed

theorem executable_within_budget_witness:
  "be_cost_used sample_budget + rq_proposed_cost sample_request \<le> be_cost_cap sample_budget"
proof -
  have "on_grid 6 (be_cost_cap (ps_budget sample_snapshot))" "on_grid 6 (be_cost_used (ps_budget sample_snapshot))"
    by (simp_all add: on_grid_def sample_snapshot_def sample_budget_def)
  from executable_within_budget [OF sample_executable sample_command this]
  show ?thesis by (simp add: sample_snapshot_def sample_budget_def sample_profile_def sending_policy_def
        provider_policy_def plain_policy_def)
qed

lemma find_grant_Some:
  "find_grant purpose r s now = Some g \<Longrightarrow> g \<in> set (rq_approval_grants r) \<and> grant_matches g purpose r s now"
  by (auto simp: find_grant_def dest: find_Some_set)

lemma used_grants_match:
  assumes "g \<in> set (used_grants r s now)"
  shows "g \<in> set (rq_approval_grants r) \<and>
    (grant_matches g ACTION r s now \<or> grant_matches g COMPLIANCE_REVIEW r s now)"
  using assms
  by (auto simp: used_grants_def compliance_checks_def action_checks_def Let_def
      dest!: find_grant_Some split: option.split_asm if_split_asm compliance_state.split_asm)

lemma expired_opt_list: "\<not> expired u now \<longleftrightarrow> (\<forall>v \<in> set (opt_list u). now < v)"
  by (auto simp: expired_def opt_list_def split: option.splits)



text \<open>
  In ASSISTED mode no commercial mutation executes without a human approval: the request carries
  a one-shot, unconsumed, unexpired ACTION grant bound to this very command, target, opportunity,
  action fingerprint, scope and control revision, and the decision cites it.
\<close>

theorem assisted_mutation_needs_approval:
  assumes "pd_executable (evaluate_policy r s now)"
    and "command_policy_of (rq_command r) = Some q" and "cp_risk_class q = COMMERCIAL_MUTATION"
    and "ps_autonomy_mode s = ASSISTED"
  shows "\<exists>g \<in> set (rq_approval_grants r). grant_matches g ACTION r s now \<and>
    grant_ref g \<in> set (pd_approval_refs (evaluate_policy r s now))"
proof -
  have req: "action_required q s"
    using assms(3,4) by (simp add: action_required_def effective_mode_def)
  have "action_approved q r s now"
    using assms(1,2) by (simp add: evaluate_status policy_outcome_approved permitted_def)
  then obtain g where g: "find_grant ACTION r s now = Some g"
    using req find_grant_None [of ACTION r s now]
    by (auto simp: action_approved_def action_required_def)
  then have "g \<in> set (used_grants r s now)"
    using req assms(2) by (simp add: used_grants_def action_checks_def)
  then have "grant_ref g \<in> set (pd_approval_refs (evaluate_policy r s now))"
    by (simp add: evaluate_policy_def Let_def)
  then show ?thesis using find_grant_Some [OF g] by blast
qed

theorem assisted_mutation_needs_approval_witness:
  "grant_ref sample_grant \<in>
     set (pd_approval_refs (evaluate_policy sample_request sample_snapshot sample_instant))"
proof -
  have "cp_risk_class sample_profile = COMMERCIAL_MUTATION"
    by (simp add: sample_profile_def sending_policy_def provider_policy_def plain_policy_def)
  moreover have "ps_autonomy_mode sample_snapshot = ASSISTED" by (simp add: sample_snapshot_def)
  moreover have "rq_approval_grants sample_request = [sample_grant]" by (simp add: sample_request_def)
  ultimately show ?thesis
    using assisted_mutation_needs_approval [OF sample_executable sample_command] by simp
qed

end
