(* ===== verification/PolicyControl.thy ===== *)
theory PolicyControl
  imports PolicyEvaluator "HOL-Library.Sublist"
begin

text \<open>
  Policy controls: the contract \<open>PolicyControlSnapshot\<close>, the append-only control log of
  \<open>policy/store.py\<close> and the snapshot that \<open>policy/gateway.py\<close> derives from a control.

  The log is the table \<open>acquisition_policy_snapshot\<close>, a list of rows in insertion order. The two
  append operations read the maximum revision and insert in two statements; their first argument is
  the table as the read saw it and their second the table as the insertion finds it.
\<close>

section \<open>The control contract\<close>

record policy_control =
  pc_policy_snapshot_id :: string
  pc_control_revision :: int
  pc_policy_version :: string
  pc_autonomy_mode :: autonomy_mode
  pc_shadow_target_mode :: "autonomy_mode option"
  pc_read_only :: bool
  pc_kill_switch :: bool
  pc_qa_signal_ref :: "string option"
  pc_allowed_commands :: "string list"
  pc_allowed_countries :: "string list"
  pc_allowed_languages :: "string list"
  pc_allowed_wedges :: "string list"
  pc_currency :: string
  pc_daily_cost_cap :: rat
  pc_daily_volume_cap :: int
  pc_effective_at :: instant
  pc_expires_at :: "instant option"
  pc_snapshot_fingerprint :: string
  pc_created_at :: instant
  pc_created_by_actor_type :: string
  pc_created_by_actor_ref :: string
  pc_reason_codes :: "string list"

definition command_name :: "string \<Rightarrow> bool" where
  \<comment> \<open>the pattern \<open>^[a-z][a-z0-9_]{0,63}$\<close>\<close>
  "command_name s \<longleftrightarrow> s \<noteq> [] \<and> length s \<le> 64 \<and> is_lower (hd s) \<and>
     list_all (\<lambda>c. is_lower c \<or> is_digit c \<or> c = CHR ''_'') (tl s)"

definition currency_code :: "string \<Rightarrow> bool" where
  \<comment> \<open>the pattern \<open>^[A-Z]{3}$\<close>\<close>
  "currency_code s \<longleftrightarrow> length s = 3 \<and> list_all is_upper s"

definition shadow_contract :: "autonomy_mode \<Rightarrow> autonomy_mode option \<Rightarrow> bool" where
  "shadow_contract mode target \<longleftrightarrow>
     (if mode = SHADOW then target \<in> {Some ASSISTED, Some AUTONOMOUS_CAPPED, Some ADAPTIVE_VOLUME}
      else target = None)"

definition strip_control :: "policy_control \<Rightarrow> policy_control" where
  "strip_control c = c\<lparr>
     pc_policy_snapshot_id := py_strip (pc_policy_snapshot_id c),
     pc_policy_version := py_strip (pc_policy_version c),
     pc_qa_signal_ref := map_option py_strip (pc_qa_signal_ref c),
     pc_allowed_commands := map py_strip (pc_allowed_commands c),
     pc_allowed_countries := map py_strip (pc_allowed_countries c),
     pc_allowed_languages := map py_strip (pc_allowed_languages c),
     pc_allowed_wedges := map py_strip (pc_allowed_wedges c),
     pc_currency := py_strip (pc_currency c),
     pc_snapshot_fingerprint := py_strip (pc_snapshot_fingerprint c),
     pc_created_by_actor_type := py_strip (pc_created_by_actor_type c),
     pc_created_by_actor_ref := py_strip (pc_created_by_actor_ref c),
     pc_reason_codes := map py_strip (pc_reason_codes c) \<rparr>"

definition code_list :: "nat \<Rightarrow> string list \<Rightarrow> bool" where
  "code_list mx xs \<longleftrightarrow> length xs \<le> mx \<and> list_all (clean_str 100) xs"

definition wf_control :: "policy_control \<Rightarrow> bool" where
  "wf_control c \<longleftrightarrow>
     clean_str 128 (pc_policy_snapshot_id c) \<and> 1 \<le> pc_control_revision c \<and>
     clean_str 100 (pc_policy_version c) \<and> clean_opt 256 (pc_qa_signal_ref c) \<and>
     length (pc_allowed_commands c) \<le> 32 \<and>
     list_all (\<lambda>s. py_strip s = s \<and> command_name s) (pc_allowed_commands c) \<and>
     code_list 64 (pc_allowed_countries c) \<and> code_list 64 (pc_allowed_languages c) \<and>
     code_list 64 (pc_allowed_wedges c) \<and>
     py_strip (pc_currency c) = pc_currency c \<and> currency_code (pc_currency c) \<and>
     0 \<le> pc_daily_cost_cap c \<and> 0 \<le> pc_daily_volume_cap c \<and>
     py_strip (pc_snapshot_fingerprint c) = pc_snapshot_fingerprint c \<and>
     is_fingerprint (pc_snapshot_fingerprint c) \<and>
     pc_created_by_actor_type c \<in> {''SYSTEM'', ''HUMAN''} \<and>
     clean_str 256 (pc_created_by_actor_ref c) \<and>
     code_list MAX_POLICY_REASON_CODES (pc_reason_codes c) \<and>
     (case pc_expires_at c of None \<Rightarrow> True | Some e \<Rightarrow> pc_effective_at c < e) \<and>
     shadow_contract (pc_autonomy_mode c) (pc_shadow_target_mode c)"

definition PolicyControlSnapshot :: "policy_control \<Rightarrow> (policy_error, policy_control) result" where
  "PolicyControlSnapshot c =
     (let c' = strip_control c in if wf_control c' then Inr c' else Inl PolicyContractError)"

section \<open>The control log\<close>

type_synonym control_log = "policy_control list"

definition no_nul_text :: "string \<Rightarrow> bool" where
  "no_nul_text s \<longleftrightarrow> list_all (\<lambda>c. c \<noteq> char_of (0::nat)) s"

definition control_columns_ok :: "policy_control \<Rightarrow> bool" where
  "control_columns_ok c \<longleftrightarrow>
     length (pc_policy_snapshot_id c) \<le> 64 \<and> length (pc_policy_version c) \<le> 64 \<and>
     list_all no_nul_text [pc_policy_snapshot_id c, pc_policy_version c, pc_created_by_actor_ref c] \<and>
     (case pc_qa_signal_ref c of None \<Rightarrow> True | Some s \<Rightarrow> no_nul_text s) \<and>
     pc_control_revision c < 2 ^ 31 \<and> pc_daily_volume_cap c < 2 ^ 31 \<and>
     num_fits 18 6 (pc_daily_cost_cap c)"

definition control_values :: "policy_control \<Rightarrow> policy_control option" where
  "control_values c = (if control_columns_ok c
     then Some (c\<lparr> pc_daily_cost_cap := num_round 6 (pc_daily_cost_cap c) \<rparr>) else None)"

definition control_from_row :: "policy_control \<Rightarrow> (policy_error, policy_control) result" where
  "control_from_row = PolicyControlSnapshot"

fun max_revision :: "control_log \<Rightarrow> int option" where
  "max_revision [] = None"
| "max_revision (c # cs) = (case max_revision cs of None \<Rightarrow> Some (pc_control_revision c)
     | Some m \<Rightarrow> Some (max (pc_control_revision c) m))"

definition conflicts :: "policy_control \<Rightarrow> control_log \<Rightarrow> bool" where
  \<comment> \<open>the primary key and the two unique constraints\<close>
  "conflicts c rows \<longleftrightarrow> list_ex (\<lambda>x.
     pc_policy_snapshot_id x = pc_policy_snapshot_id c \<or>
     pc_control_revision x = pc_control_revision c \<or>
     pc_snapshot_fingerprint x = pc_snapshot_fingerprint c) rows"

definition append_control ::
  "control_log \<Rightarrow> control_log \<Rightarrow> policy_control \<Rightarrow> (policy_error, unit) result \<times> control_log" where
  "append_control read rows control =
     (let maximum = max_revision read in
      if maximum \<noteq> None \<and> pc_control_revision control \<le> the maximum then (Inl PolicyValueError, rows)
      else (case control_values control of
              None \<Rightarrow> (Inl PolicyDatabaseError, rows)
            | Some row \<Rightarrow> if conflicts row rows then (Inl PolicyDatabaseError, rows)
                          else (Inr (), rows @ [row])))"

definition append_control_if_latest ::
  "control_log \<Rightarrow> control_log \<Rightarrow> policy_control \<Rightarrow> int option \<Rightarrow> (policy_error, bool) result \<times> control_log" where
  "append_control_if_latest read rows control expected_latest_revision =
     (let maximum = max_revision read;
          next_revision = (case maximum of None \<Rightarrow> 1 | Some m \<Rightarrow> m + 1) in
      if maximum \<noteq> expected_latest_revision \<or> pc_control_revision control \<noteq> next_revision
      then (Inr False, rows)
      else (case control_values control of
              None \<Rightarrow> (Inl PolicyDatabaseError, rows)
            | Some row \<Rightarrow> if conflicts row rows then (Inr False, rows) else (Inr True, rows @ [row])))"

fun top_control :: "(policy_control \<Rightarrow> bool) \<Rightarrow> control_log \<Rightarrow> policy_control option" where
  \<comment> \<open>\<open>WHERE p ORDER BY control_revision DESC LIMIT 1\<close>\<close>
  "top_control p [] = None"
| "top_control p (c # cs) =
     (case top_control p cs of
        None \<Rightarrow> if p c then Some c else None
      | Some d \<Rightarrow> if p c \<and> pc_control_revision d < pc_control_revision c then Some c else Some d)"

definition row_or_unavailable :: "policy_control option \<Rightarrow> (policy_error, policy_control) result" where
  "row_or_unavailable row =
     (case row of None \<Rightarrow> Inl PolicyControlUnavailable | Some c \<Rightarrow> control_from_row c)"

definition get_latest_control :: "control_log \<Rightarrow> (policy_error, policy_control) result" where
  "get_latest_control rows = row_or_unavailable (top_control (\<lambda>_. True) rows)"

definition get_previous_control :: "control_log \<Rightarrow> int \<Rightarrow> (policy_error, policy_control) result" where
  "get_previous_control rows revision =
     row_or_unavailable (top_control (\<lambda>c. pc_control_revision c < revision) rows)"

definition active_at :: "instant \<Rightarrow> policy_control \<Rightarrow> bool" where
  "active_at t c \<longleftrightarrow> pc_effective_at c \<le> t \<and>
     (case pc_expires_at c of None \<Rightarrow> True | Some e \<Rightarrow> t < e)"

definition get_effective_control :: "control_log \<Rightarrow> datetime \<Rightarrow> (policy_error, policy_control) result" where
  "get_effective_control rows at_time =
     (if \<not> is_aware at_time then Inl PolicyValueError
      else row_or_unavailable (top_control (active_at (instant_of at_time)) rows))"

definition get_control :: "control_log \<Rightarrow> string \<Rightarrow> (policy_error, policy_control) result" where
  "get_control rows snapshot_id =
     row_or_unavailable (List.find (\<lambda>c. pc_policy_snapshot_id c = snapshot_id) rows)"

section \<open>The snapshot a decision is evaluated against\<close>

record budget_usage =
  bu_cost_used :: rat
  bu_volume_used :: int

definition BudgetUsage_ok :: "budget_usage \<Rightarrow> bool" where
  "BudgetUsage_ok u \<longleftrightarrow> 0 \<le> bu_cost_used u \<and> 0 \<le> bu_volume_used u"

definition snapshot_of ::
  "policy_control \<Rightarrow> policy_request \<Rightarrow> datetime \<Rightarrow> budget_usage \<Rightarrow> policy_snapshot" where
  "snapshot_of control request evaluated_at usage =
     (let day_start = midnight evaluated_at in
      \<lparr> ps_policy_snapshot_id = pc_policy_snapshot_id control,
        ps_control_revision = pc_control_revision control,
        ps_policy_version = pc_policy_version control,
        ps_captured_at = instant_of evaluated_at,
        ps_expires_at = pc_expires_at control,
        ps_autonomy_mode = pc_autonomy_mode control,
        ps_shadow_target_mode = pc_shadow_target_mode control,
        ps_read_only = pc_read_only control,
        ps_kill_switch = pc_kill_switch control,
        ps_qa_signal_ref = pc_qa_signal_ref control,
        ps_allowed_commands = pc_allowed_commands control,
        ps_allowed_countries = pc_allowed_countries control,
        ps_allowed_languages = pc_allowed_languages control,
        ps_allowed_wedges = pc_allowed_wedges control,
        ps_budget = \<lparr> be_period_start = instant_of day_start,
          be_period_end = Some (instant_of (dt_add day_start day_micros)),
          be_currency = pc_currency control,
          be_cost_cap = pc_daily_cost_cap control, be_cost_used = bu_cost_used usage,
          be_volume_cap = pc_daily_volume_cap control, be_volume_used = bu_volume_used usage \<rparr>,
        ps_runtime_revision = or_runtime_revision (rq_operational request) \<rparr>)"

definition gateway_snapshot ::
  "control_log \<Rightarrow> policy_request \<Rightarrow> datetime \<Rightarrow> budget_usage \<Rightarrow> string option \<Rightarrow>
   (policy_error, policy_snapshot) result" where
  "gateway_snapshot rows request evaluated_at usage policy_snapshot_id =
     rbind (case policy_snapshot_id of
              Some i \<Rightarrow> get_control rows i
            | None \<Rightarrow> get_effective_control rows evaluated_at)
       (\<lambda>control.
          if is_aware evaluated_at \<and> BudgetUsage_ok usage
          then Inr (snapshot_of control request evaluated_at usage)
          else Inl PolicyContractError)"

section \<open>Rows of the log\<close>

definition control_row_ok :: "policy_control \<Rightarrow> bool" where
  "control_row_ok c \<longleftrightarrow> wf_control c \<and> control_values c = Some c"

definition log_ok :: "control_log \<Rightarrow> bool" where
  "log_ok rows \<longleftrightarrow> list_all control_row_ok rows \<and>
     map pc_control_revision rows = [1..int (length rows)] \<and>
     distinct (map pc_policy_snapshot_id rows) \<and> distinct (map pc_snapshot_fingerprint rows)"

text \<open>
  The writers of the log, interleaved: any process may append through the compare-and-set or, for
  the very first control, through \<open>append_control\<close> (its one caller writes revision 1). Its read of
  the maximum may be stale: it sees some earlier state of the table.
\<close>

inductive control_step :: "control_log \<Rightarrow> control_log \<Rightarrow> bool" where
  cas: "prefix read rows \<Longrightarrow> wf_control c \<Longrightarrow>
     append_control_if_latest read rows c expected = (r, rows') \<Longrightarrow> control_step rows rows'"
| bootstrap: "prefix read rows \<Longrightarrow> wf_control c \<Longrightarrow> pc_control_revision c = 1 \<Longrightarrow>
     append_control read rows c = (r, rows') \<Longrightarrow> control_step rows rows'"

inductive_simps control_step_iff: "control_step rows rows'"

section \<open>Selecting the row of highest revision\<close>

text \<open>
  What the readers rely on: a selection returns a row of the table that satisfies its condition and
  that no other such row outranks, and it returns nothing only when no row qualifies.
\<close>

locale descending_pick =
  fixes rank :: "'c \<Rightarrow> int" and pick :: "('c \<Rightarrow> bool) \<Rightarrow> 'c list \<Rightarrow> 'c option"
  assumes pick_Some: "pick p xs = Some c \<Longrightarrow> c \<in> set xs \<and> p c \<and> (\<forall>x \<in> set xs. p x \<longrightarrow> rank x \<le> rank c)"
    and pick_None: "pick p xs = None \<longleftrightarrow> (\<forall>x \<in> set xs. \<not> p x)"
begin

lemma pick_iff:
  assumes "inj_on rank (set xs)"
  shows "pick p xs = Some c \<longleftrightarrow> c \<in> set xs \<and> p c \<and> (\<forall>x \<in> set xs. p x \<longrightarrow> rank x \<le> rank c)"
proof
  assume "pick p xs = Some c"
  then show "c \<in> set xs \<and> p c \<and> (\<forall>x \<in> set xs. p x \<longrightarrow> rank x \<le> rank c)" by (rule pick_Some)
next
  assume c: "c \<in> set xs \<and> p c \<and> (\<forall>x \<in> set xs. p x \<longrightarrow> rank x \<le> rank c)"
  then obtain d where d: "pick p xs = Some d" using pick_None [of p xs] by (cases "pick p xs") auto
  then have "rank d = rank c" using pick_Some [OF d] c by (meson order_antisym)
  then have "d = c" using assms pick_Some [OF d] c by (meson inj_onD)
  then show "pick p xs = Some c" using d by simp
qed

lemma pick_append_top:
  assumes "\<And>x. x \<in> set xs \<Longrightarrow> rank x < rank c" and "p c"
  shows "pick p (xs @ [c]) = Some c"
proof -
  obtain d where d: "pick p (xs @ [c]) = Some d"
    using pick_None [of p "xs @ [c]"] assms(2) by (cases "pick p (xs @ [c])") auto
  have "rank c \<le> rank d" using pick_Some [OF d] assms(2) by simp
  then have "d = c" using pick_Some [OF d] assms(1) [of d] by auto
  then show ?thesis using d by simp
qed

lemma pick_hides:
  assumes "pick p xs = Some c" and "q c" and "\<And>x. x \<in> set xs \<Longrightarrow> q x \<Longrightarrow> rank x \<le> rank c"
    and "inj_on rank (set xs)"
  shows "pick q xs = Some c"
  using assms pick_Some [OF assms(1)] by (simp add: pick_iff)

end

lemma top_control_Some:
  "top_control p xs = Some c \<Longrightarrow>
   c \<in> set xs \<and> p c \<and> (\<forall>x \<in> set xs. p x \<longrightarrow> pc_control_revision x \<le> pc_control_revision c)"
  and top_control_None: "top_control p xs = None \<longleftrightarrow> (\<forall>x \<in> set xs. \<not> p x)"
  by (induction p xs arbitrary: c rule: top_control.induct)
     (force split: option.split_asm option.split if_split_asm)+

interpretation top: descending_pick pc_control_revision top_control
  by unfold_locales (fact top_control_Some, fact top_control_None)

section \<open>Contract and row facts\<close>

lemma map_strip_id: "list_all (\<lambda>s. py_strip s = s \<and> P s) xs \<Longrightarrow> map py_strip xs = xs"
  by (induction xs) auto

lemma code_list_strip: "code_list mx xs \<Longrightarrow> map py_strip xs = xs"
  by (auto simp: code_list_def clean_str_def list_all_iff intro: map_idI)

lemma clean_opt_strip: "clean_opt mx so \<Longrightarrow> map_option py_strip so = so"
  by (cases so) (auto simp: clean_str_def)

lemma actor_type_strip: "s \<in> {''SYSTEM'', ''HUMAN''} \<Longrightarrow> py_strip s = s"
  by (auto simp: py_strip_def py_lstrip_def py_rstrip_def is_space_def)

lemma strip_control_id:
  assumes w: "wf_control c" shows "strip_control c = c"
proof -
  have "map_option py_strip (pc_qa_signal_ref c) = pc_qa_signal_ref c"
    "map py_strip (pc_allowed_commands c) = pc_allowed_commands c"
    "map py_strip (pc_allowed_countries c) = pc_allowed_countries c"
    "map py_strip (pc_allowed_languages c) = pc_allowed_languages c"
    "map py_strip (pc_allowed_wedges c) = pc_allowed_wedges c"
    "map py_strip (pc_reason_codes c) = pc_reason_codes c"
    "py_strip (pc_created_by_actor_type c) = pc_created_by_actor_type c"
    using w unfolding wf_control_def
    by (blast intro: code_list_strip clean_opt_strip map_strip_id actor_type_strip)+
  then show ?thesis using w by (simp add: strip_control_def wf_control_def clean_str_def)
qed

lemma control_from_row_ok: "wf_control c \<Longrightarrow> control_from_row c = Inr c"
  by (simp add: control_from_row_def PolicyControlSnapshot_def strip_control_id Let_def)

lemma control_values_ok:
  assumes "wf_control c" and "control_values c = Some row"
  shows "control_row_ok row \<and> pc_control_revision row = pc_control_revision c \<and>
    row = c\<lparr> pc_daily_cost_cap := num_round 6 (pc_daily_cost_cap c) \<rparr>"
proof -
  have row: "row = c\<lparr> pc_daily_cost_cap := num_round 6 (pc_daily_cost_cap c) \<rparr>"
    and cols: "control_columns_ok c"
    using assms(2) by (simp_all add: control_values_def split: if_split_asm)
  have "wf_control row" using assms(1) unfolding row
    by (cases "pc_expires_at c") (simp_all add: wf_control_def num_round_nonneg)
  moreover have "control_columns_ok row"
    using cols unfolding row by (simp add: control_columns_ok_def num_fits_def)
  ultimately show ?thesis unfolding row by (simp add: control_row_ok_def control_values_def)
qed

lemma max_revision_Max:
  "max_revision rows = (if rows = [] then None else Some (Max (pc_control_revision ` set rows)))"
  by (induction rows) auto

lemma log_ok_revisions: "log_ok rows \<Longrightarrow> pc_control_revision ` set rows = {1..int (length rows)}"
  unfolding log_ok_def by (metis list.set_map set_upto)

lemma log_ok_below: "log_ok rows \<Longrightarrow> x \<in> set rows \<Longrightarrow> 1 \<le> pc_control_revision x \<and> pc_control_revision x \<le> int (length rows)"
  using log_ok_revisions [of rows] by (metis atLeastAtMost_iff image_eqI)

lemma log_ok_max: "log_ok rows \<Longrightarrow> max_revision rows = (if rows = [] then None else Some (int (length rows)))"
  by (auto simp: max_revision_Max log_ok_revisions neq_Nil_conv intro!: Max_eqI)

lemma log_ok_inj: "log_ok rows \<Longrightarrow> inj_on pc_control_revision (set rows)"
  by (metis distinct_map distinct_upto log_ok_def)

lemma log_ok_row: "log_ok rows \<Longrightarrow> c \<in> set rows \<Longrightarrow> wf_control c \<and> control_values c = Some c"
  by (auto simp: log_ok_def list_all_iff control_row_ok_def)

lemma upto_prefix: "[1..int n] = xs @ ys \<Longrightarrow> xs = [1..int (length xs)]"
proof (induction n arbitrary: ys)
  case 0 then show ?case by simp
next
  case (Suc n)
  have snoc: "[1..int (Suc n)] = [1..int n] @ [int (Suc n)]" using upto_rec2 [of 1 "int (Suc n)"] by simp
  show ?case
  proof (cases ys rule: rev_cases)
    case Nil
    then have "length xs = Suc n" using arg_cong [OF Suc.prems, of length] by simp
    then show ?thesis using Nil Suc.prems by simp
  next
    case (snoc zs z)
    then have "[1..int n] = xs @ zs" using Suc.prems \<open>[1..int (Suc n)] = [1..int n] @ [int (Suc n)]\<close> by simp
    then show ?thesis by (rule Suc.IH)
  qed
qed

lemma log_ok_prefix:
  assumes "log_ok rows" and "prefix xs rows" shows "log_ok xs"
proof -
  obtain zs where zs: "rows = xs @ zs" using assms(2) by (auto simp: prefix_def)
  have "[1..int (length rows)] = map pc_control_revision xs @ map pc_control_revision zs"
    using assms(1) by (simp add: log_ok_def zs)
  then have "map pc_control_revision xs = [1..int (length xs)]"
    using upto_prefix by fastforce
  then show ?thesis using assms(1) by (simp add: log_ok_def zs)
qed

lemma log_ok_Nil: "log_ok []" by (simp add: log_ok_def)

lemma log_ok_snoc:
  assumes "log_ok rows" and "control_row_ok c" and "pc_control_revision c = int (length rows) + 1"
    and "\<not> conflicts c rows"
  shows "log_ok (rows @ [c])"
  using assms upto_rec2 [of 1 "int (length rows) + 1"]
  by (auto simp: log_ok_def conflicts_def list_ex_iff add.commute)

lemma revision_taken:
  assumes "log_ok rows" and "prefix read rows" and "read \<noteq> rows" and "pc_control_revision c = int (length read) + 1"
  shows "conflicts c rows"
proof -
  have "length read < length rows" using assms(2,3) by (metis prefix_length_less strict_prefix_def)
  then have "pc_control_revision c \<in> pc_control_revision ` set rows"
    using assms(4) by (simp add: log_ok_revisions [OF assms(1)])
  then show ?thesis by (auto simp: conflicts_def list_ex_iff)
qed

section \<open>The writers keep the log gap-free\<close>

lemma cas_outcome:
  assumes "log_ok rows" and "prefix read rows" and "wf_control c"
    and "append_control_if_latest read rows c expected = (r, rows')"
  shows "(rows' = rows \<and> r \<noteq> Inr True) \<or>
    (r = Inr True \<and> read = rows \<and> expected = max_revision rows \<and>
     (\<exists>row. control_values c = Some row \<and> rows' = rows @ [row]) \<and> log_ok rows' \<and>
     pc_control_revision c = int (length rows) + 1)"
proof (cases "r = Inr True")
  case False
  then show ?thesis using assms(4)
    by (auto simp: append_control_if_latest_def Let_def split: if_split_asm option.split_asm)
next
  case True
  then obtain row where row: "control_values c = Some row" "\<not> conflicts row rows" "rows' = rows @ [row]"
    and guard: "max_revision read = expected"
      "pc_control_revision c = (case max_revision read of None \<Rightarrow> 1 | Some m \<Rightarrow> m + 1)"
    using assms(4) by (auto simp: append_control_if_latest_def Let_def split: if_split_asm option.split_asm)
  note r = control_values_ok [OF assms(3) row(1)]
  have rev: "pc_control_revision row = int (length read) + 1"
    using guard(2) r log_ok_max [OF log_ok_prefix [OF assms(1,2)]] by (auto split: if_split_asm)
  then have eq: "read = rows" using revision_taken [OF assms(1,2)] row(2) by blast
  have "log_ok rows'" unfolding row(3) using log_ok_snoc [OF assms(1) _ _ row(2)] r rev eq by blast
  then show ?thesis using True eq guard(1) row(1,3) rev r by auto
qed

lemma bootstrap_outcome:
  assumes "log_ok rows" and "prefix read rows" and "wf_control c" and "pc_control_revision c = 1"
    and "append_control read rows c = (r, rows')"
  shows "rows' = rows \<or> (rows = [] \<and> log_ok rows')"
proof (cases "rows' = rows")
  case False
  then obtain row where row: "control_values c = Some row" "\<not> conflicts row rows" "rows' = rows @ [row]"
    using assms(5) by (auto simp: append_control_def Let_def split: if_split_asm option.split_asm)
  note r = control_values_ok [OF assms(3) row(1)]
  have empty: "rows = []"
  proof (rule ccontr)
    assume "rows \<noteq> []"
    moreover have "pc_control_revision row = int (length ([] :: control_log)) + 1" using r assms(4) by simp
    ultimately show False using revision_taken [OF assms(1), of "[]" row] row(2) by simp
  qed
  then have "pc_control_revision row = int (length rows) + 1" using r assms(4) by simp
  then have "log_ok rows'" unfolding row(3) using log_ok_snoc [OF assms(1) _ _ row(2)] r by blast
  then show ?thesis using empty by simp
qed simp

lemma control_step_ok: "control_step rows rows' \<Longrightarrow> log_ok rows \<Longrightarrow> log_ok rows' \<and> prefix rows rows'"
proof (induction rule: control_step.induct)
  case (cas read rows c expected r rows')
  then show ?case using cas_outcome [OF cas.prems cas.hyps] by auto
next
  case (bootstrap read rows c r rows')
  then show ?case using bootstrap_outcome [OF bootstrap.prems bootstrap.hyps] by auto
qed

lemma control_steps_ok:
  "control_step\<^sup>*\<^sup>* rows rows' \<Longrightarrow> log_ok rows \<Longrightarrow> log_ok rows' \<and> prefix rows rows'"
  by (induction rule: rtranclp_induct) (auto dest: control_step_ok intro: prefix_order.trans)

lemma effective_ok:
  assumes "log_ok rows" and "get_effective_control rows d = Inr c"
  shows "is_aware d \<and> top_control (active_at (instant_of d)) rows = Some c \<and> c \<in> set rows \<and>
    wf_control c \<and> control_values c = Some c"
proof -
  obtain e where e: "top_control (active_at (instant_of d)) rows = Some e" "control_from_row e = Inr c"
    and aware: "is_aware d"
    using assms(2)
    by (auto simp: get_effective_control_def row_or_unavailable_def split: if_split_asm option.split_asm)
  have in_rows: "e \<in> set rows" using top.pick_Some [OF e(1)] by blast
  then have "c = e" using e(2) log_ok_row [OF assms(1)] by (simp add: control_from_row_ok)
  then show ?thesis using e(1) in_rows aware log_ok_row [OF assms(1)] by simp
qed

lemma latest_ok:
  assumes "log_ok rows" and "get_latest_control rows = Inr h"
  shows "h \<in> set rows \<and> pc_control_revision h = int (length rows)"
proof -
  obtain c where c: "top_control (\<lambda>_. True) rows = Some c" "control_from_row c = Inr h"
    using assms(2) by (auto simp: get_latest_control_def row_or_unavailable_def split: option.split_asm)
  note p = top.pick_Some [OF c(1)]
  have h: "h = c" using c(2) p log_ok_row [OF assms(1)] by (simp add: control_from_row_ok)
  have "pc_control_revision c \<in> {1..int (length rows)}"
    using p log_ok_revisions [OF assms(1)] by blast
  moreover have "int (length rows) \<in> pc_control_revision ` set rows"
    using p log_ok_revisions [OF assms(1)] by (metis atLeastAtMost_iff image_eqI order.trans order_refl)
  then have "int (length rows) \<le> pc_control_revision c" using p by auto
  ultimately show ?thesis using p h by simp
qed

section \<open>Sample controls\<close>

definition sample_control :: "int \<Rightarrow> char \<Rightarrow> policy_control" where
  "sample_control n digit = \<lparr> pc_policy_snapshot_id = [digit], pc_control_revision = n,
     pc_policy_version = POLICY_VERSION, pc_autonomy_mode = ASSISTED, pc_shadow_target_mode = None,
     pc_read_only = False, pc_kill_switch = False, pc_qa_signal_ref = None,
     pc_allowed_commands = [''prepare_campaign''], pc_allowed_countries = [''CH''],
     pc_allowed_languages = [''fr''], pc_allowed_wedges = [''roofing''], pc_currency = ''CHF'',
     pc_daily_cost_cap = 25, pc_daily_volume_cap = 0, pc_effective_at = n * 100,
     pc_expires_at = None, pc_snapshot_fingerprint = replicate 64 digit, pc_created_at = n * 100,
     pc_created_by_actor_type = ''HUMAN'', pc_created_by_actor_ref = ''operator'',
     pc_reason_codes = [''BOOT''] \<rparr>"

definition sample_log :: control_log where
  "sample_log = [sample_control 1 (CHR ''a''), sample_control 2 (CHR ''b'')]"

lemma sample_first: "wf_control (sample_control 1 (CHR ''a''))"
  "control_values (sample_control 1 (CHR ''a'')) = Some (sample_control 1 (CHR ''a''))"
  by code_simp+

lemma sample_second: "wf_control (sample_control 2 (CHR ''b''))"
  "control_values (sample_control 2 (CHR ''b'')) = Some (sample_control 2 (CHR ''b''))"
  by code_simp+

lemma sample_log_ok: "log_ok sample_log" by code_simp

lemma sample_boot_step: "control_step [] [sample_control 1 (CHR ''a'')]"
proof (rule control_step.bootstrap)
  show "prefix [] ([] :: control_log)" by simp
  show "pc_control_revision (sample_control 1 (CHR ''a'')) = 1" by (simp add: sample_control_def)
  show "append_control [] [] (sample_control 1 (CHR ''a'')) = (Inr (), [sample_control 1 (CHR ''a'')])"
    by code_simp
qed (rule sample_first)

lemma sample_cas:
  "append_control_if_latest [sample_control 1 (CHR ''a'')] [sample_control 1 (CHR ''a'')]
     (sample_control 2 (CHR ''b'')) (Some 1) = (Inr True, sample_log)"
  by code_simp

lemma sample_cas_step: "control_step [sample_control 1 (CHR ''a'')] sample_log"
  by (rule control_step.cas [OF _ _ sample_cas]) (simp_all add: sample_second)

section \<open>Properties of the control log\<close>



text \<open>
  C12. The compare-and-set is one: it reports success exactly when the row was added, and then the
  maximum it had read was still the durable head at the instant of the insertion, so that the new
  row is the new head; on every other outcome the log is unchanged.
\<close>

theorem append_if_latest_is_cas:
  assumes "log_ok rows" and "prefix read rows" and "wf_control c"
    and "append_control_if_latest read rows c expected = (r, rows')"
  shows "(r = Inr True \<longrightarrow> expected = max_revision rows \<and>
           max_revision rows' = Some (pc_control_revision c) \<and>
           get_latest_control rows' = Inr (c\<lparr> pc_daily_cost_cap := num_round 6 (pc_daily_cost_cap c) \<rparr>)) \<and>
         (r \<noteq> Inr True \<longrightarrow> rows' = rows)"
proof (cases "r = Inr True")
  case True
  then obtain row where row: "control_values c = Some row" "rows' = rows @ [row]" "log_ok rows'"
    and e: "expected = max_revision rows" "pc_control_revision c = int (length rows) + 1"
    using cas_outcome [OF assms] by auto
  note r = control_values_ok [OF assms(3) row(1)]
  have "pc_control_revision x < pc_control_revision row" if "x \<in> set rows" for x
    using log_ok_below [OF assms(1) that] r e(2) by simp
  then have "top_control (\<lambda>_. True) rows' = Some row"
    unfolding row(2) using top.pick_append_top [of rows row "\<lambda>_. True"] by simp
  moreover have "wf_control row" using r unfolding control_row_ok_def by blast
  ultimately have "get_latest_control rows' = Inr row"
    by (metis control_from_row_ok get_latest_control_def option.simps(5) row_or_unavailable_def)
  moreover have "max_revision rows' = Some (pc_control_revision c)"
    using log_ok_max [OF row(3)] row(2) e(2) by simp
  ultimately show ?thesis using True e(1) r by auto
next
  case False
  then show ?thesis using cas_outcome [OF assms] by auto
qed

theorem append_if_latest_is_cas_witness:
  "max_revision sample_log = Some 2"
  using append_if_latest_is_cas [OF _ _ sample_second(1) sample_cas] log_ok_prefix [OF sample_log_ok]
  by (simp add: sample_log_def sample_control_def)

text \<open>
  The control in force at an instant is the active row of highest revision: it has taken effect,
  it has not expired, no active row has a higher revision, and the selection fails exactly when no
  row is active.
\<close>

theorem effective_control_highest:
  assumes "log_ok rows" and "is_aware d"
  shows "(get_effective_control rows d = Inr c \<longleftrightarrow>
      c \<in> set rows \<and> active_at (instant_of d) c \<and>
      (\<forall>x \<in> set rows. active_at (instant_of d) x \<longrightarrow> pc_control_revision x \<le> pc_control_revision c)) \<and>
    (get_effective_control rows d = Inl PolicyControlUnavailable \<longleftrightarrow>
      (\<forall>x \<in> set rows. \<not> active_at (instant_of d) x))"
proof -
  let ?t = "top_control (active_at (instant_of d)) rows"
  have t: "row_or_unavailable ?t = (case ?t of None \<Rightarrow> Inl PolicyControlUnavailable | Some e \<Rightarrow> Inr e)"
  proof (cases ?t)
    case (Some e)
    then show ?thesis using log_ok_row [OF assms(1)] top.pick_Some [OF Some]
      by (simp add: row_or_unavailable_def control_from_row_ok)
  qed (simp add: row_or_unavailable_def)
  have "row_or_unavailable ?t = Inr c \<longleftrightarrow> ?t = Some c"
    "row_or_unavailable ?t = Inl PolicyControlUnavailable \<longleftrightarrow> ?t = None"
    unfolding t by (cases ?t; simp)+
  then show ?thesis
    using assms(2) top.pick_iff [OF log_ok_inj [OF assms(1)]] top.pick_None
    by (simp add: get_effective_control_def)
qed

definition sample_clock :: datetime where
  "sample_clock = \<lparr> dt_date = mk_date 2026 9 1, dt_hour = 12, dt_minute = 0, dt_second = 0,
     dt_micro = 0, dt_offset = Some 0 \<rparr>"

lemma sample_clock_facts: "is_aware sample_clock" "1000 < instant_of sample_clock"
  by code_simp+

theorem effective_control_highest_witness:
  "get_effective_control sample_log sample_clock = Inr (sample_control 2 (CHR ''b''))"
  using effective_control_highest [OF sample_log_ok sample_clock_facts(1)] sample_clock_facts(2)
  by (simp add: sample_log_def sample_control_def active_at_def)

end
