(* ===== verification/PolicyGateway.thy ===== *)
theory PolicyGateway
  imports AcqStoreProps PolicyControl
begin

text \<open>
  \<open>policy/gateway.py\<close>: a decision is evaluated against the control in force and recorded twice, as a
  row of \<open>policy_evaluation\<close> and as a POLICY_EVALUATED event of the opportunity's journal, in one
  transaction.

  The state joins the acquisition system, the control log and the evaluation table. The pair of
  semantic fingerprints (\<open>_fingerprint\<close>, current and legacy encoding) is an argument: it hashes the
  textual form of every timestamp and amount of the request, which the policy records do not keep.
  The Decimal of the proposed cost is an argument of the audit for the same reason. The first lookup
  of \<open>_record\<close> and the lookup of \<open>prepare\<close> may see an older state than the writes do.
\<close>

section \<open>The evaluation table\<close>

record evaluation_row =
  pe_decision :: policy_decision
  pe_semantic_fingerprint :: string

record gateway_db =
  g_system :: system
  g_controls :: control_log
  g_evaluations :: "evaluation_row list"

datatype gateway_error =
    GatewayIdempotencyConflict string
  | DualAuditViolated
  | ConflictNotDurable
  | ExpectedVersionMissing
  | GatewayPolicyError policy_error
  | GatewayAcquisitionError acq_error
  | GatewayDatabaseError

definition decision_columns_ok :: "policy_decision \<Rightarrow> bool" where
  "decision_columns_ok d \<longleftrightarrow>
     list_all no_nul_text ([pd_evaluation_id d, pd_request_id d, pd_command d, pd_target_ref d,
       pd_action_fingerprint d, pd_policy_version d, pd_policy_snapshot_id d, pd_runtime_revision d,
       pd_currency d] @ opt_list (pd_acquisition_opportunity_id d)) \<and>
     length (pd_policy_version d) \<le> 64 \<and> length (pd_policy_snapshot_id d) \<le> 64 \<and>
     list_all (\<lambda>s. length s \<le> 64) (opt_list (pd_acquisition_opportunity_id d)) \<and>
     pd_control_revision d < 2 ^ 31 \<and> 0 \<le> pd_proposed_volume d \<and> pd_proposed_volume d < 2 ^ 31 \<and>
     - (2 ^ 31) \<le> pd_volume_remaining d \<and> pd_volume_remaining d < 2 ^ 31 \<and>
     0 \<le> pd_estimated_cost d \<and>
     num_fits 18 6 (pd_estimated_cost d) \<and> num_fits 18 6 (pd_cost_remaining d)"

definition decision_values :: "policy_decision \<Rightarrow> string \<Rightarrow> evaluation_row option" where
  "decision_values d fp = (if decision_columns_ok d
     then Some \<lparr> pe_decision = d\<lparr> pd_estimated_cost := num_round 6 (pd_estimated_cost d),
                   pd_cost_remaining := num_round 6 (pd_cost_remaining d) \<rparr>,
                 pe_semantic_fingerprint = fp \<rparr>
     else None)"

definition decision_from_row :: "evaluation_row \<Rightarrow> policy_decision" where
  \<comment> \<open>the contract of the row's values was checked when the decision was built, and they are unchanged
    but for the rounding of two unconstrained amounts\<close>
  "decision_from_row row = pe_decision row"

definition evaluation_of :: "gateway_db \<Rightarrow> string \<Rightarrow> evaluation_row option" where
  "evaluation_of g i = List.find (\<lambda>row. pd_evaluation_id (pe_decision row) = i) (g_evaluations g)"

definition insert_evaluation_if_absent ::
  "gateway_db \<Rightarrow> policy_decision \<Rightarrow> string \<Rightarrow> (gateway_error, bool \<times> gateway_db) result" where
  "insert_evaluation_if_absent g d fp =
     (case decision_values d fp of None \<Rightarrow> Inl GatewayDatabaseError
      | Some row \<Rightarrow>
          if evaluation_of g (pd_evaluation_id d) \<noteq> None then Inr (False, g)
          else if list_all (\<lambda>c. pc_policy_snapshot_id c \<noteq> pd_policy_snapshot_id d) (g_controls g) \<or>
            list_ex (\<lambda>oid. opportunity_row (sys_db (g_system g)) oid = None)
              (opt_list (pd_acquisition_opportunity_id d))
          then Inl GatewayDatabaseError
          else Inr (True, g\<lparr> g_evaluations := g_evaluations g @ [row] \<rparr>))"

section \<open>Recording\<close>

definition audit_key :: "string \<Rightarrow> string" where
  "audit_key evaluation_id = ''policy_evaluation:'' @ evaluation_id"

fun status_value :: "policy_status \<Rightarrow> string" where
  "status_value APPROVED = ''APPROVED''"
| "status_value DENIED = ''DENIED''"
| "status_value APPROVAL_REQUIRED = ''APPROVAL_REQUIRED''"
| "status_value BUDGET_EXCEEDED = ''BUDGET_EXCEEDED''"
| "status_value COMPLIANCE_BLOCKED = ''COMPLIANCE_BLOCKED''"
| "status_value INSUFFICIENT_EVIDENCE = ''INSUFFICIENT_EVIDENCE''"
| "status_value RATE_LIMITED = ''RATE_LIMITED''"

definition audit_args :: "policy_decision \<Rightarrow> int \<Rightarrow> string \<Rightarrow> decimal \<Rightarrow> datetime \<Rightarrow> append_args" where
  "audit_args d version evaluation_id cost evaluated_at = \<lparr>
     aa_event_type = POLICY_EVALUATED,
     aa_expected_version = version,
     aa_idempotency_key = audit_key evaluation_id,
     aa_payload = [(''evaluation_id'', JStr (pd_evaluation_id d)), (''command'', JStr (pd_command d)),
       (''target_ref'', JStr (pd_target_ref d)), (''status'', JStr (status_value (pd_status d))),
       (''control_revision'', JInt (pd_control_revision d)),
       (''approval_refs'', JList (map (\<lambda>a. JObj
          [(''approval_id'', JStr (ar_approval_id a)), (''purpose'', JStr (purpose_value (ar_purpose a))),
           (''binding_fingerprint'', JStr (ar_binding_fingerprint a))]) (pd_approval_refs d)))],
     aa_actor_type = SYSTEM, aa_actor_ref = Some ''kivou-policy-gateway'',
     aa_reason_codes = pd_reason_codes d, aa_evidence_refs = pd_evidence_refs d,
     aa_policy_version = Some (pd_policy_version d), aa_skill_version = None,
     aa_supervisor_version = None, aa_confidence = None, aa_estimated_cost = Some cost,
     aa_correlation_id = None, aa_causation_id = None, aa_occurred_at = Some evaluated_at \<rparr>"

definition validated_existing ::
  "gateway_db \<Rightarrow> policy_request \<Rightarrow> string \<times> string \<Rightarrow> evaluation_row \<Rightarrow> (gateway_error, policy_decision) result" where
  "validated_existing g request fps existing =
     (if pe_semantic_fingerprint existing \<notin> {fst fps, snd fps}
      then Inl (GatewayIdempotencyConflict (rq_evaluation_id request))
      else (case rq_acquisition_opportunity_id request of
              None \<Rightarrow> Inr (decision_from_row existing)
            | Some oid \<Rightarrow>
                if length (filter (\<lambda>e. ev_idempotency_key e = audit_key (rq_evaluation_id request))
                     (event_rows (sys_db (g_system g)) oid)) \<noteq> 1
                then Inl DualAuditViolated
                else Inr (decision_from_row existing)))"

definition set_journal :: "acq_db \<Rightarrow> gateway_db \<Rightarrow> gateway_db" where
  "set_journal db g = g\<lparr> g_system := (g_system g)\<lparr> sys_db := db \<rparr> \<rparr>"

definition record_evaluation ::
  "store_env \<Rightarrow> gateway_db \<Rightarrow> gateway_db \<Rightarrow> policy_request \<Rightarrow> policy_decision \<Rightarrow> string \<times> string \<Rightarrow> decimal \<Rightarrow>
   datetime \<Rightarrow> (gateway_error, gateway_db \<times> policy_decision) result" where
  "record_evaluation env read g request decision fps cost evaluated_at =
     (case evaluation_of read (rq_evaluation_id request) of
        Some existing \<Rightarrow> rmap (Pair g) (validated_existing read request fps existing)
      | None \<Rightarrow>
          rbind (insert_evaluation_if_absent g decision (fst fps)) (\<lambda>(inserted, g').
            if \<not> inserted then
              (case evaluation_of g' (rq_evaluation_id request) of
                 None \<Rightarrow> Inl ConflictNotDurable
               | Some existing \<Rightarrow> rmap (Pair g') (validated_existing g' request fps existing))
            else (case rq_acquisition_opportunity_id request of
                    None \<Rightarrow> Inr (g', decision)
                  | Some oid \<Rightarrow>
                      (case rq_expected_opportunity_version request of
                         None \<Rightarrow> Inl ExpectedVersionMissing
                       | Some version \<Rightarrow>
                           (case append_event env (sys_db (g_system g')) oid
                                   (audit_args decision version (rq_evaluation_id request) cost evaluated_at) of
                              Inl e \<Rightarrow> Inl (GatewayAcquisitionError e)
                            | Inr (db, _) \<Rightarrow> Inr (set_journal db g', decision))))))"

definition evaluate_and_record ::
  "(policy_request \<Rightarrow> policy_snapshot \<Rightarrow> budget_usage \<Rightarrow> datetime \<Rightarrow> string \<times> string) \<Rightarrow>
   store_env \<Rightarrow> gateway_db \<Rightarrow> gateway_db \<Rightarrow> gateway_db \<Rightarrow> policy_request \<Rightarrow> datetime \<Rightarrow> budget_usage \<Rightarrow> string option \<Rightarrow>
   decimal \<Rightarrow> (gateway_error, gateway_db \<times> policy_decision) result" where
  "evaluate_and_record fingerprints env prepared read g request evaluated_at usage snapshot_id cost =
     (case gateway_snapshot (g_controls prepared) request evaluated_at usage snapshot_id of
        Inl e \<Rightarrow> Inl (GatewayPolicyError e)
      | Inr snapshot \<Rightarrow>
          (let fps = fingerprints request snapshot usage evaluated_at in
           case evaluation_of prepared (rq_evaluation_id request) of
             Some existing \<Rightarrow> rmap (Pair g) (validated_existing prepared request fps existing)
           | None \<Rightarrow>
               record_evaluation env read g request
                 (evaluate_policy request snapshot (instant_of evaluated_at)) fps cost evaluated_at))"

section \<open>Steps of the joint system\<close>

text \<open>
  A request is validated before it reaches the gateway: its evaluation id and opportunity id carry no
  outer blanks (\<open>str_strip_whitespace\<close>).
\<close>

definition clean_request :: "policy_request \<Rightarrow> bool" where
  "clean_request r \<longleftrightarrow> py_strip (rq_evaluation_id r) = rq_evaluation_id r \<and> rq_evaluation_id r \<noteq> []"

inductive gateway_step :: "gateway_db \<Rightarrow> gateway_db \<Rightarrow> bool" where
  evaluation: "clean_request request \<Longrightarrow>
     evaluate_and_record fingerprints env prepared read g request evaluated_at usage snapshot_id cost = Inr (g', d) \<Longrightarrow>
     gateway_step g g'"
| acquisition: "sys_step (g_system g) s \<Longrightarrow> gateway_step g (g\<lparr> g_system := s \<rparr>)"
| control: "control_step (g_controls g) rows \<Longrightarrow> gateway_step g (g\<lparr> g_controls := rows \<rparr>)"

definition empty_gateway :: gateway_db where
  "empty_gateway = \<lparr> g_system = empty_system, g_controls = [], g_evaluations = [] \<rparr>"

section \<open>The journal under gateway steps\<close>

abbreviation events_of :: "gateway_db \<Rightarrow> event list" where
  "events_of g \<equiv> db_events (sys_db (g_system g))"

lemma append_event_steps:
  assumes "append_event env (sys_db s) oid a = Inr (db, r)"
  shows "sys_step\<^sup>*\<^sup>* s (s\<lparr> sys_db := db \<rparr>)"
proof -
  obtain p where p: "append_read env (sys_db s) oid a = Inr p"
    and run: "(case p of Replay r \<Rightarrow> Inr (sys_db s, r)
      | Fresh ev nx \<Rightarrow> append_write (sys_db s) oid (aa_expected_version a) ev nx) = Inr (db, r)"
    using assms by (auto simp: append_event_def)
  show ?thesis
  proof (cases p)
    case (Replay r0)
    then have "db = sys_db s" using run by simp
    then show ?thesis by simp
  next
    case (Fresh ev nx)
    let ?p = "PendingAppend oid (aa_expected_version a) ev nx"
    let ?s = "s\<lparr> sys_pending := ?p # sys_pending s \<rparr>"
    have one: "sys_step s ?s" using p Fresh by (auto intro: read_append)
    have "sys_step ?s \<lparr> sys_db = db, sys_pending = remove1 ?p (sys_pending ?s) \<rparr>"
      using run Fresh by (intro commit_append) simp_all
    moreover have "\<lparr> sys_db = db, sys_pending = remove1 ?p (sys_pending ?s) \<rparr> = s\<lparr> sys_db := db \<rparr>" by simp
    ultimately show ?thesis using one by (metis converse_rtranclp_into_rtranclp rtranclp.rtrancl_refl)
  qed
qed

definition journal_grows :: "system \<Rightarrow> system \<Rightarrow> bool" where
  "journal_grows s s' \<longleftrightarrow>
     (reachable s \<longrightarrow> reachable s') \<and>
     (distinct (map journal_key (db_events (sys_db s))) \<longrightarrow> distinct (map journal_key (db_events (sys_db s')))) \<and>
     (\<forall>oid. set (event_rows (sys_db s) oid) \<subseteq> set (event_rows (sys_db s') oid))"

lemma journal_grows_refl [simp]: "journal_grows s s" by (simp add: journal_grows_def)

lemma journal_grows_trans: "journal_grows s s' \<Longrightarrow> journal_grows s' s'' \<Longrightarrow> journal_grows s s''"
  unfolding journal_grows_def by (meson subset_trans)

lemma sys_step_grows: "sys_step s s' \<Longrightarrow> journal_grows s s'"
proof -
  assume st: "sys_step s s'"
  obtain new where "db_events (sys_db s') = db_events (sys_db s) @ new" "distinct (map journal_key new)"
    "journal_key ` set new \<inter> journal_key ` set (db_events (sys_db s)) = {}"
    using sys_step_journal [OF st] by blast
  then show ?thesis
    using st by (auto simp: journal_grows_def event_rows_def Int_commute intro: reachable.step)
qed

lemma sys_steps_grow: "sys_step\<^sup>*\<^sup>* s s' \<Longrightarrow> journal_grows s s'"
  by (induction rule: rtranclp_induct) (auto intro: journal_grows_trans sys_step_grows)

section \<open>The dual-audit invariant\<close>

definition audited :: "gateway_db \<Rightarrow> evaluation_row \<Rightarrow> bool" where
  "audited g row \<longleftrightarrow> (\<forall>oid. pd_acquisition_opportunity_id (pe_decision row) = Some oid \<longrightarrow>
     (\<exists>e \<in> set (event_rows (sys_db (g_system g)) oid).
        ev_idempotency_key e = audit_key (pd_evaluation_id (pe_decision row))))"

definition gateway_ok :: "gateway_db \<Rightarrow> bool" where
  "gateway_ok g \<longleftrightarrow> reachable (g_system g) \<and> distinct (map journal_key (events_of g)) \<and>
     distinct (map (\<lambda>row. pd_evaluation_id (pe_decision row)) (g_evaluations g)) \<and>
     list_all (audited g) (g_evaluations g)"

lemma gateway_ok_grow:
  assumes "gateway_ok g" and "journal_grows (g_system g) s"
  shows "gateway_ok (g\<lparr> g_system := s \<rparr>)"
  using assms
  by (fastforce simp: gateway_ok_def journal_grows_def audited_def list_all_iff)

lemma last_strip: "py_strip x = x \<Longrightarrow> x \<noteq> [] \<Longrightarrow> \<not> is_space (last x)"
proof -
  assume x: "py_strip x = x" "x \<noteq> []"
  define y where "y = dropWhile is_space (rev (dropWhile is_space x))"
  have "x = rev y" using x(1) by (simp add: py_strip_def py_lstrip_def py_rstrip_def y_def)
  then have ne: "y \<noteq> []" using x(2) by auto
  then have "\<not> is_space (hd y)" unfolding y_def by (rule hd_dropWhile)
  then show ?thesis using \<open>x = rev y\<close> ne by (simp add: last_rev)
qed

lemma strip_append:
  assumes "\<not> is_space c" and "x \<noteq> []" and "\<not> is_space (last x)"
  shows "py_strip (c # p @ x) = c # p @ x"
proof -
  have "hd (rev x) = last x" using assms(2) by (simp add: hd_rev)
  then have "dropWhile is_space (rev (c # p @ x)) = rev (c # p @ x)"
    using assms by (intro dropWhile_eq_self) (simp add: hd_append)
  then show ?thesis using assms(1) by (simp add: py_strip_def py_lstrip_def py_rstrip_def)
qed

lemma audit_key_strip:
  assumes "clean_request r"
  shows "py_strip (audit_key (rq_evaluation_id r)) = audit_key (rq_evaluation_id r)"
proof -
  have "\<not> is_space (CHR ''p'')" by code_simp
  then show ?thesis
    using strip_append [of "CHR ''p''" "rq_evaluation_id r" "''olicy_evaluation:''"] assms last_strip
    by (simp add: audit_key_def clean_request_def)
qed

lemma evaluate_ids [simp]:
  "pd_evaluation_id (evaluate_policy r s t) = rq_evaluation_id r"
  "pd_acquisition_opportunity_id (evaluate_policy r s t) = rq_acquisition_opportunity_id r"
  by (simp_all add: evaluate_policy_def Let_def)

lemma insert_evaluation_Inr:
  assumes "insert_evaluation_if_absent g d fp = Inr (inserted, g')"
  shows "if inserted then (\<exists>row. decision_values d fp = Some row \<and>
      g' = g\<lparr> g_evaluations := g_evaluations g @ [row] \<rparr> \<and> evaluation_of g (pd_evaluation_id d) = None)
    else g' = g \<and> evaluation_of g (pd_evaluation_id d) \<noteq> None"
  using assms by (auto simp: insert_evaluation_if_absent_def split: option.split_asm if_split_asm)

lemma decision_values_ids:
  assumes "decision_values d fp = Some row"
  shows "pd_evaluation_id (pe_decision row) = pd_evaluation_id d"
    "pd_acquisition_opportunity_id (pe_decision row) = pd_acquisition_opportunity_id d"
    "pe_semantic_fingerprint row = fp"
  using assms by (auto simp: decision_values_def split: if_split_asm)

lemma evaluation_of_None: "evaluation_of g i = None \<longleftrightarrow> (\<forall>row \<in> set (g_evaluations g). pd_evaluation_id (pe_decision row) \<noteq> i)"
  by (auto simp: evaluation_of_def find_None_iff)

text \<open>What one recording does: nothing, or a new row whose opportunity, if any, has its event.\<close>

lemma record_effect:
  assumes ok: "gateway_ok g" and clean: "clean_request r"
    and d: "pd_evaluation_id d = rq_evaluation_id r" "pd_acquisition_opportunity_id d = rq_acquisition_opportunity_id r"
    and rec: "record_evaluation env read g r d fps cost t = Inr (g', d')"
  shows "(g' = g \<and> (evaluation_of read (rq_evaluation_id r) \<noteq> None \<or> evaluation_of g (rq_evaluation_id r) \<noteq> None)) \<or>
    (\<exists>row s. decision_values d (fst fps) = Some row \<and> evaluation_of g (rq_evaluation_id r) = None \<and>
    d' = d \<and> g' = g\<lparr> g_evaluations := g_evaluations g @ [row], g_system := s \<rparr> \<and>
    journal_grows (g_system g) s \<and> audited g' row)"
proof (cases "evaluation_of read (rq_evaluation_id r)")
  case (Some existing)
  then show ?thesis using rec by (auto simp: record_evaluation_def)
next
  case None
  then obtain inserted g1 where ins: "insert_evaluation_if_absent g d (fst fps) = Inr (inserted, g1)"
    using rec by (auto simp: record_evaluation_def)
  note run = rec [unfolded record_evaluation_def None option.case ins rbind.simps prod.case]
  show ?thesis
  proof (cases inserted)
    case False
    then show ?thesis using run insert_evaluation_Inr [OF ins] d by (auto split: option.split_asm)
  next
    case True
    then obtain row where row: "decision_values d (fst fps) = Some row"
      "g1 = g\<lparr> g_evaluations := g_evaluations g @ [row] \<rparr>" "evaluation_of g (rq_evaluation_id r) = None"
      using insert_evaluation_Inr [OF ins] d by auto
    note ids = decision_values_ids [OF row(1)]
    show ?thesis
    proof (cases "rq_acquisition_opportunity_id r")
      case None
      then have "g' = g1" "d' = d" using run True by auto
      moreover have "audited g1 row" using ids(2) d(2) None by (simp add: audited_def)
      ultimately show ?thesis
        using row by (intro disjI2 exI [of _ row] exI [of _ "g_system g"]) simp
    next
      case (Some oid)
      obtain v db mr where v: "rq_expected_opportunity_version r = Some v"
        and ap: "append_event env (sys_db (g_system g)) oid (audit_args d v (rq_evaluation_id r) cost t) = Inr (db, mr)"
        and out: "g' = set_journal db g1" "d' = d"
        using run True Some row(2) by (auto split: option.split_asm sum.split_asm)
      have db: "db_ok (sys_db (g_system g))"
        using reachable_ok ok by (auto simp: gateway_ok_def sys_ok_def)
      have "List.find (\<lambda>e. ev_idempotency_key e = audit_key (rq_evaluation_id r)) (event_rows db oid) =
          Some (round_event (mr_event mr))"
        using append_event_stored [OF db ap] audit_key_strip [OF clean] by (simp add: audit_args_def)
      then have "audited g' row"
        using ids d Some out(1) find_Some_set by (fastforce simp: audited_def set_journal_def)
      moreover have "journal_grows (g_system g) ((g_system g)\<lparr> sys_db := db \<rparr>)"
        using append_event_steps [OF ap] by (rule sys_steps_grow)
      ultimately show ?thesis using row out
        by (intro disjI2 exI [of _ row] exI [of _ "(g_system g)\<lparr> sys_db := db \<rparr>"]) (simp add: set_journal_def)
    qed
  qed
qed

lemma gateway_ok_record:
  assumes "gateway_ok g" and "decision_values d fp = Some row" and "evaluation_of g (pd_evaluation_id d) = None"
    and "g' = g\<lparr> g_evaluations := g_evaluations g @ [row], g_system := s \<rparr>"
    and "journal_grows (g_system g) s" and "audited g' row"
  shows "gateway_ok g'"
proof -
  have ok: "gateway_ok (g\<lparr> g_system := s \<rparr>)" using gateway_ok_grow [OF assms(1,5)] .
  have same: "audited g' x = audited (g\<lparr> g_system := s \<rparr>) x" for x
    by (simp add: audited_def assms(4))
  have "pd_evaluation_id (pe_decision row) \<notin> (\<lambda>row. pd_evaluation_id (pe_decision row)) ` set (g_evaluations g)"
    using assms(2,3) decision_values_ids(1) evaluation_of_None by fastforce
  moreover have "list_all (audited g') (g_evaluations g @ [row])"
    using ok same assms(6) by (simp add: gateway_ok_def list_all_iff)
  ultimately show ?thesis
    using ok by (simp add: gateway_ok_def assms(4))
qed

lemma gateway_step_ok: "gateway_step g g' \<Longrightarrow> gateway_ok g \<Longrightarrow> gateway_ok g'"
proof (induction rule: gateway_step.induct)
  case (evaluation request fingerprints env prepared read g evaluated_at usage snapshot_id cost g' d)
  show ?case
  proof (cases "g' = g")
    case False
    then obtain s where rec: "record_evaluation env read g request
        (evaluate_policy request s (instant_of evaluated_at)) (fingerprints request s usage evaluated_at) cost evaluated_at = Inr (g', d)"
      using evaluation.hyps(2) by (auto simp: evaluate_and_record_def Let_def split: sum.split_asm option.split_asm)
    show ?thesis
      using record_effect [OF evaluation.prems evaluation.hyps(1) _ _ rec] False gateway_ok_record [OF evaluation.prems]
      by auto
  qed (use evaluation.prems in simp)
next
  case (acquisition g s)
  then show ?case using gateway_ok_grow sys_step_grows by blast
next
  case (control g rows)
  then show ?case by (simp add: gateway_ok_def audited_def list_all_iff)
qed

lemma gateway_steps_ok: "gateway_step\<^sup>*\<^sup>* empty_gateway g \<Longrightarrow> gateway_ok g"
proof (induction rule: rtranclp_induct)
  case base
  have "reachable empty_system" by (rule reachable.start)
  then show ?case by (simp add: gateway_ok_def empty_gateway_def) (simp add: empty_system_def)
qed (rule gateway_step_ok)

section \<open>Properties of the gateway\<close>

lemma audit_count:
  assumes "gateway_ok g" and "row \<in> set (g_evaluations g)"
    and "pd_acquisition_opportunity_id (pe_decision row) = Some oid"
  shows "length (filter (\<lambda>e. ev_idempotency_key e = audit_key (pd_evaluation_id (pe_decision row)))
    (event_rows (sys_db (g_system g)) oid)) = 1"
proof -
  let ?key = "audit_key (pd_evaluation_id (pe_decision row))"
  let ?rows = "event_rows (sys_db (g_system g)) oid"
  obtain e where e: "e \<in> set ?rows" "ev_idempotency_key e = ?key"
    using assms by (auto simp: gateway_ok_def list_all_iff audited_def)
  have "distinct (map journal_key ?rows)"
    using assms(1) distinct_map_filter [of journal_key "events_of g"]
    unfolding gateway_ok_def event_rows_def by blast
  moreover have "\<forall>x \<in> set ?rows. journal_key x = (oid, ev_idempotency_key x)"
    by (simp add: event_rows_def journal_key_def)
  ultimately have "distinct (map ev_idempotency_key ?rows)"
    by (simp add: distinct_map inj_on_def)
  then have "distinct ?rows" "inj_on ev_idempotency_key (set ?rows)" by (auto simp: distinct_map)
  then have "set (filter (\<lambda>x. ev_idempotency_key x = ?key) ?rows) = {e}"
    "distinct (filter (\<lambda>x. ev_idempotency_key x = ?key) ?rows)"
    using e by (auto simp: inj_on_def)
  then show ?thesis by (metis card_1_singleton_iff distinct_card One_nat_def)
qed

text \<open>
  C13. Every recorded evaluation of an opportunity is audited exactly once in its journal, in every
  state that evaluations, acquisition transactions and control changes reach in any order: the
  check that would report a violated dual audit never fails for a recorded evaluation.
\<close>

theorem dual_audit:
  assumes "gateway_step\<^sup>*\<^sup>* empty_gateway g" and "row \<in> set (g_evaluations g)"
    and "rq_evaluation_id r = pd_evaluation_id (pe_decision row)"
    and "rq_acquisition_opportunity_id r = pd_acquisition_opportunity_id (pe_decision row)"
  shows "(\<forall>oid. rq_acquisition_opportunity_id r = Some oid \<longrightarrow>
      length (filter (\<lambda>e. ev_idempotency_key e = audit_key (rq_evaluation_id r))
        (event_rows (sys_db (g_system g)) oid)) = 1) \<and>
    validated_existing g r fps row \<noteq> Inl DualAuditViolated"
  using audit_count [OF gateway_steps_ok [OF assms(1)] assms(2)] assms(3,4)
  by (auto simp: validated_existing_def split: option.split)

definition round_decision :: "policy_decision \<Rightarrow> policy_decision" where
  "round_decision d = d\<lparr> pd_estimated_cost := num_round 6 (pd_estimated_cost d),
     pd_cost_remaining := num_round 6 (pd_cost_remaining d) \<rparr>"

text \<open>
  Recording is idempotent: once an evaluation is recorded, recording it again under the same
  semantic fingerprint changes nothing and returns the recorded decision (amounts at the precision
  of their columns), even if the second call computed another decision; under fingerprints that
  differ from the stored one it is refused as an idempotency conflict.
\<close>

theorem evaluation_idempotent:
  assumes "gateway_step\<^sup>*\<^sup>* empty_gateway g" and "clean_request r"
    and "evaluation_of g (rq_evaluation_id r) = None"
    and "record_evaluation env g g r (evaluate_policy r s u) fps cost t = Inr (g', d)"
  shows "d = evaluate_policy r s u \<and>
    record_evaluation env2 g' g' r d2 fps cost2 t2 = Inr (g', round_decision d) \<and>
    (fst fps \<notin> {fst fps2, snd fps2} \<longrightarrow>
       record_evaluation env2 g' g' r d2 fps2 cost2 t2 = Inl (GatewayIdempotencyConflict (rq_evaluation_id r)))"
proof -
  note ok = gateway_steps_ok [OF assms(1)]
  obtain row sys where row: "decision_values (evaluate_policy r s u) (fst fps) = Some row"
    "d = evaluate_policy r s u" "g' = g\<lparr> g_evaluations := g_evaluations g @ [row], g_system := sys \<rparr>"
    "journal_grows (g_system g) sys" "audited g' row"
    using record_effect [OF ok assms(2) _ _ assms(4)] assms(3) by auto
  note ids = decision_values_ids [OF row(1)]
  have ok': "gateway_ok g'" using gateway_ok_record [OF ok row(1) _ row(3-5)] assms(3) by simp
  have found: "evaluation_of g' (rq_evaluation_id r) = Some row"
    using assms(3) ids(1) by (simp add: row(3) evaluation_of_def find_append)
  have dec: "decision_from_row row = round_decision d"
    using row(1,2) by (auto simp: decision_from_row_def decision_values_def round_decision_def split: if_split_asm)
  have member: "row \<in> set (g_evaluations g')" by (simp add: row(3))
  have "validated_existing g' r fps row = Inr (round_decision d)"
    using audit_count [OF ok' member] ids dec by (simp add: validated_existing_def split: option.split)
  then show ?thesis using row(2) found ids(3) by (simp add: record_evaluation_def validated_existing_def)
qed

section \<open>Witnesses\<close>

lemma reachable_gateway: "reachable s \<Longrightarrow> gateway_step\<^sup>*\<^sup>* empty_gateway (empty_gateway\<lparr> g_system := s \<rparr>)"
proof (induction rule: reachable.induct)
  case (step s s')
  then have "gateway_step (empty_gateway\<lparr> g_system := s \<rparr>) (empty_gateway\<lparr> g_system := s' \<rparr>)"
    using acquisition [of "empty_gateway\<lparr> g_system := s \<rparr>" s'] by simp
  then show ?case using step.IH by (rule rtranclp.rtrancl_into_rtrancl [rotated])
qed (simp add: empty_gateway_def)

definition sample_gateway :: gateway_db where
  "sample_gateway = \<lparr> g_system = sample_system, g_controls = [sample_control 1 (CHR ''a'')], g_evaluations = [] \<rparr>"

lemma sample_gateway_reached: "gateway_step\<^sup>*\<^sup>* empty_gateway sample_gateway"
proof -
  have "gateway_step (empty_gateway\<lparr> g_system := sample_system \<rparr>) sample_gateway"
    using control [of "empty_gateway\<lparr> g_system := sample_system \<rparr>"] sample_boot_step
    by (simp add: sample_gateway_def empty_gateway_def)
  then show ?thesis using reachable_gateway [OF sample_reachable] by (rule rtranclp.rtrancl_into_rtrancl [rotated])
qed

definition sample_query :: policy_request where
  "sample_query = \<lparr> rq_evaluation_id = ''eval'', rq_request_id = ''req'',
     rq_command = ''evaluate_opportunity'', rq_target_ref = ''acquisition-opportunity:opp-1'',
     rq_acquisition_opportunity_id = Some ''opp-1'', rq_qa_signal_ref = None,
     rq_expected_opportunity_version = Some 1, rq_actor_type = ''SYSTEM'', rq_actor_ref = None,
     rq_canonical_arguments = ''{}'', rq_action_fingerprint = replicate 64 (CHR ''d''),
     rq_scope = \<lparr> sc_country = Some ''CH'', sc_language = None, sc_wedge = None \<rparr>,
     rq_proposed_cost = 5, rq_currency = ''CHF'', rq_proposed_volume = 0, rq_reason_codes = [],
     rq_evidence_refs = [],
     rq_evidence = \<lparr> er_status = EVIDENCE_READY, er_claims = [], er_assessment_version = ''v'',
       er_observed_at = 0, er_valid_until = None \<rparr>,
     rq_compliance = \<lparr> cpa_state = ALLOWED, cpa_assessment_version = ''v'', cpa_observed_at = 0,
       cpa_valid_until = None \<rparr>,
     rq_operational = \<lparr> or_runtime_revision = ''rev'', or_provider_quota = PolicyContracts.READY,
       or_mailbox_quota = PolicyContracts.READY, or_send_window = OPEN,
       or_provider_control_plane = AVAILABLE, or_retry_after = None, or_valid_until = None \<rparr>,
     rq_expected_policy_version = POLICY_VERSION, rq_approval_grants = [],
     rq_supervisor_plan_id = None, rq_supervisor_action_index = None,
     rq_supervisor_version = None, rq_skill_version = None \<rparr>"

definition sample_usage :: budget_usage where
  "sample_usage = \<lparr> bu_cost_used = 0, bu_volume_used = 0 \<rparr>"

definition sample_answer :: policy_decision where
  "sample_answer = evaluate_policy sample_query
     (snapshot_of (sample_control 1 (CHR ''a'')) sample_query sample_clock sample_usage) (instant_of sample_clock)"

definition sample_audit :: append_args where
  "sample_audit = \<lparr> aa_event_type = POLICY_EVALUATED, aa_expected_version = 1, aa_idempotency_key = ''policy_evaluation:eval'',
     aa_payload = [(''evaluation_id'', JStr ''eval''), (''command'', JStr ''evaluate_opportunity''),
       (''target_ref'', JStr ''acquisition-opportunity:opp-1''), (''status'', JStr ''DENIED''), (''control_revision'', JInt 1),
       (''approval_refs'', JList [])],
     aa_actor_type = SYSTEM, aa_actor_ref = Some ''kivou-policy-gateway'',
     aa_reason_codes = [''command_not_allowed'', ''insufficient_evidence''], aa_evidence_refs = [],
     aa_policy_version = Some POLICY_VERSION, aa_skill_version = None, aa_supervisor_version = None, aa_confidence = None,
     aa_estimated_cost = Some (Dec False 5 0), aa_correlation_id = None, aa_causation_id = None, aa_occurred_at = Some sample_clock \<rparr>"

lemma sample_audit_args: "audit_args sample_answer 1 ''eval'' (Dec False 5 0) sample_clock = sample_audit"
  by code_simp

definition sample_audited :: opportunity where
  "sample_audited =
     (case reduce_event (Some (canon sample_row)) (dummy_event sample_env2 ''opp-1'' 2 sample_audit) of
        Inr p \<Rightarrow> p | Inl _ \<Rightarrow> undefined)"

lemma sample_audit_ok:
  "wf_event (dummy_event sample_env2 ''opp-1'' 2 sample_audit)"
  "is_ok (reduce_event (Some (canon sample_row)) (dummy_event sample_env2 ''opp-1'' 2 sample_audit))"
  "event_columns_ok (dummy_event sample_env2 ''opp-1'' 2 sample_audit)"
  "opportunity_columns_ok sample_audited"
  "opt_all is_aware (aa_occurred_at sample_audit)" "aa_expected_version sample_audit = 1"
  "aa_idempotency_key sample_audit = ''policy_evaluation:eval''"
  "py_strip (aa_idempotency_key sample_audit) = aa_idempotency_key sample_audit"
  by code_simp+

definition sample_audit_event :: event where
  "sample_audit_event = (dummy_event sample_env2 ''opp-1'' 2 sample_audit)
     \<lparr> ev_semantic_fingerprint := fingerprint (semantic_input sample_audit) \<rparr>"

lemma sample_audit_read:
  "append_read sample_env2 sample_db ''opp-1'' sample_audit = Inr (Fresh sample_audit_event sample_audited)"
proof -
  have "reduce_event (Some (canon sample_row)) sample_audit_event = Inr sample_audited"
    using sample_audit_ok(2) unfolding sample_audit_event_def reduce_event_fp is_ok_iff sample_audited_def
    by auto
  moreover have "AcquisitionEvent (event_draft_of sample_env2 ''opp-1'' 2
      (fingerprint (semantic_input sample_audit)) sample_audit) = Inr sample_audit_event"
    unfolding sample_audit_event_def
    by (rule draft_event_fp [OF sample_audit_ok(1) is_fingerprint_sample sample_move_ok(5) sample_audit_ok(5)])
  moreover have "event_rows sample_db ''opp-1'' = [round_event sample_first_event]"
    by (simp add: event_rows_def sample_db_def sample_row_key)
  moreover have "ev_idempotency_key sample_first_event = ''create-1''"
    by (simp add: sample_first_event_def sample_move_ok(9))
  ultimately show ?thesis
    using get_opportunity_row [OF sample_db_ok sample_row_found]
    by (simp add: append_read_def Let_def sample_move_ok(7) sample_audit_ok(6,7))
qed

lemma sample_audit_append: "\<exists>db' r. append_event sample_env2 sample_db ''opp-1'' sample_audit = Inr (db', r)"
proof -
  have col: "event_columns_ok sample_audit_event"
    unfolding sample_audit_event_def
    by (rule event_columns_fp [OF sample_audit_ok(3) is_fingerprint_sample])
  have ids: "ev_event_id sample_audit_event \<noteq> ev_event_id sample_first_event"
    "ev_stream_sequence sample_audit_event \<noteq> ev_stream_sequence sample_first_event"
    "ev_idempotency_key sample_audit_event \<noteq> ev_idempotency_key sample_first_event"
    "ev_acquisition_opportunity_id sample_audit_event = ''opp-1''"
    unfolding sample_audit_event_def sample_first_event_def by (simp, code_simp)+
  obtain vals where vals: "projection_values sample_audited = Some vals"
    using sample_audit_ok(4) by (auto simp: projection_values_def)
  have "\<exists>db' r. append_write sample_db ''opp-1'' 1 sample_audit_event sample_audited = Inr (db', r)"
    using sample_row_found sample_move_ok(7) col ids vals
    by (auto simp: append_write_def insert_event_def event_values_def sample_db_def replace_row_def
        opportunity_row_def sample_row_key)
  then show ?thesis by (simp add: append_event_def sample_audit_read sample_audit_ok(6))
qed

lemma sample_answer_ok:
  "decision_columns_ok sample_answer" "pd_policy_snapshot_id sample_answer = [CHR ''a'']"
  "pd_evaluation_id sample_answer = ''eval''" "pd_acquisition_opportunity_id sample_answer = Some ''opp-1''"
  "clean_request sample_query"
  "gateway_snapshot [sample_control 1 (CHR ''a'')] sample_query sample_clock sample_usage None =
     Inr (snapshot_of (sample_control 1 (CHR ''a'')) sample_query sample_clock sample_usage)"
  by code_simp+

abbreviation sample_fps :: "string \<times> string" where "sample_fps \<equiv> (''f'', ''g'')"

lemma sample_recorded:
  obtains g' where "record_evaluation sample_env2 sample_gateway sample_gateway sample_query sample_answer sample_fps
      (Dec False 5 0) sample_clock = Inr (g', sample_answer)"
    "\<exists>row. g_evaluations g' = [row] \<and> decision_values sample_answer ''f'' = Some row"
    "g_controls g' = [sample_control 1 (CHR ''a'')]" "opportunity_row (sys_db (g_system g')) ''opp-1'' \<noteq> None"
proof -
  obtain row where row: "decision_values sample_answer ''f'' = Some row"
    using sample_answer_ok(1) by (simp add: decision_values_def)
  obtain db' r where ap: "append_event sample_env2 sample_db ''opp-1'' sample_audit = Inr (db', r)"
    using sample_audit_append by blast
  let ?g = "set_journal db' (sample_gateway\<lparr> g_evaluations := [row] \<rparr>)"
  have fk: "pc_policy_snapshot_id (sample_control 1 (CHR ''a'')) = [CHR ''a'']" by (simp add: sample_control_def)
  have "insert_evaluation_if_absent sample_gateway sample_answer ''f'' =
      Inr (True, sample_gateway\<lparr> g_evaluations := [row] \<rparr>)"
    using row sample_answer_ok(2-4) fk sample_row_found
    by (simp add: insert_evaluation_if_absent_def evaluation_of_def sample_gateway_def sample_system_def opt_list_def)
  then have "record_evaluation sample_env2 sample_gateway sample_gateway sample_query sample_answer sample_fps
      (Dec False 5 0) sample_clock = Inr (?g, sample_answer)"
    using ap by (simp add: record_evaluation_def evaluation_of_def sample_gateway_def sample_system_def
        sample_query_def sample_audit_args)
  moreover have "opportunity_row db' ''opp-1'' \<noteq> None"
    using append_event_stored [OF sample_db_ok ap] sample_audit_ok(8) by auto
  ultimately show thesis using that row by (simp add: set_journal_def sample_gateway_def sample_system_def)
qed

lemma sample_recorded_reached:
  obtains g' row where "gateway_step\<^sup>*\<^sup>* empty_gateway g'" "g_evaluations g' = [row]" "decision_values sample_answer ''f'' = Some row"
    "g_controls g' = [sample_control 1 (CHR ''a'')]" "opportunity_row (sys_db (g_system g')) ''opp-1'' \<noteq> None"
proof -
  obtain g' where rec: "record_evaluation sample_env2 sample_gateway sample_gateway sample_query sample_answer
      sample_fps (Dec False 5 0) sample_clock = Inr (g', sample_answer)"
    and stored: "\<exists>row. g_evaluations g' = [row] \<and> decision_values sample_answer ''f'' = Some row"
      "g_controls g' = [sample_control 1 (CHR ''a'')]" "opportunity_row (sys_db (g_system g')) ''opp-1'' \<noteq> None"
    by (rule sample_recorded)
  obtain row where row: "g_evaluations g' = [row]" "decision_values sample_answer ''f'' = Some row"
    using stored(1) by (elim exE conjE)
  have "evaluate_and_record (\<lambda>_ _ _ _. sample_fps) sample_env2 sample_gateway sample_gateway sample_gateway
      sample_query sample_clock sample_usage None (Dec False 5 0) = Inr (g', sample_answer)"
    using rec sample_answer_ok(6)
    by (simp add: evaluate_and_record_def sample_gateway_def evaluation_of_def Let_def sample_answer_def)
  then have "gateway_step sample_gateway g'" using evaluation [OF sample_answer_ok(5)] by blast
  then have "gateway_step\<^sup>*\<^sup>* empty_gateway g'"
    using sample_gateway_reached by (rule rtranclp.rtrancl_into_rtrancl [rotated])
  then show thesis by (rule that [OF _ row stored(2,3)])
qed

theorem dual_audit_witness:
  "\<exists>g. gateway_step\<^sup>*\<^sup>* empty_gateway g \<and>
     length (filter (\<lambda>e. ev_idempotency_key e = ''policy_evaluation:eval'')
       (event_rows (sys_db (g_system g)) ''opp-1'')) = 1"
proof -
  obtain g' row where reach: "gateway_step\<^sup>*\<^sup>* empty_gateway g'"
    and row: "g_evaluations g' = [row]" "decision_values sample_answer ''f'' = Some row"
    using sample_recorded_reached by blast
  have ids: "rq_evaluation_id sample_query = ''eval''" "rq_acquisition_opportunity_id sample_query = Some ''opp-1''"
    by (simp_all add: sample_query_def)
  have "row \<in> set (g_evaluations g')" using row(1) by simp
  then show ?thesis
    using dual_audit [OF reach, of row sample_query sample_fps] ids decision_values_ids [OF row(2)]
      sample_answer_ok(3,4) reach by (auto simp: audit_key_def)
qed

theorem evaluation_idempotent_witness:
  "\<exists>g'. record_evaluation sample_env2 g' g' sample_query sample_answer sample_fps (Dec False 5 0) sample_clock =
     Inr (g', round_decision sample_answer)"
proof -
  obtain g' where rec: "record_evaluation sample_env2 sample_gateway sample_gateway sample_query sample_answer
      sample_fps (Dec False 5 0) sample_clock = Inr (g', sample_answer)"
    using sample_recorded by blast
  have "evaluation_of sample_gateway (rq_evaluation_id sample_query) = None"
    by (simp add: evaluation_of_def sample_gateway_def)
  then show ?thesis
    using evaluation_idempotent [OF sample_gateway_reached sample_answer_ok(5) _ rec [unfolded sample_answer_def]]
    unfolding sample_answer_def by blast
qed

end
