(* ===== verification/SafetyController.thy ===== *)
theory SafetyController
  imports PolicyControl
begin

text \<open>
  \<open>operations/safety_controller.py\<close>: the monotone downgrade and the critical stop, both a bounded
  loop of reads of the control log followed by a compare-and-set append.

  Other processes may append between any two statements. Each attempt takes an \<open>interference\<close>: what
  the others do to the table before each statement of the attempt, as a function of the table. The
  theorems assume of it only that it consists of steps of the control log (\<open>rely\<close>).
\<close>

section \<open>The controller\<close>

datatype safety_error =
    SafetyControlConflict
  | SafetyPolicyError policy_error

definition SAFETY_CONTROLLER_REF :: string where "SAFETY_CONTROLLER_REF = ''kivou-safety-controller''"
definition MAX_CONTROL_APPEND_ATTEMPTS :: nat where "MAX_CONTROL_APPEND_ATTEMPTS = 3"

fun next_safer :: "autonomy_mode \<Rightarrow> autonomy_mode" where
  "next_safer ADAPTIVE_VOLUME = AUTONOMOUS_CAPPED"
| "next_safer AUTONOMOUS_CAPPED = ASSISTED"
| "next_safer ASSISTED = SHADOW"
| "next_safer SHADOW = SHADOW"

definition canonical_fingerprint :: "string \<Rightarrow> json \<Rightarrow> string" where
  "canonical_fingerprint domain val = sha256_hex (domain @ [char_of (0::nat)] @ dumps val)"

record interference =
  before_head :: "control_log \<Rightarrow> control_log"
  before_current :: "control_log \<Rightarrow> control_log"
  before_maximum :: "control_log \<Rightarrow> control_log"
  before_insert :: "control_log \<Rightarrow> control_log"
  before_winner :: "control_log \<Rightarrow> control_log"

definition safer_values ::
  "policy_control \<Rightarrow> policy_control \<Rightarrow> datetime \<Rightarrow> autonomy_mode \<Rightarrow> bool \<Rightarrow> bool \<Rightarrow> string list \<Rightarrow> policy_control" where
  "safer_values current head at_time target kill_switch read_only reason_codes =
     (let revision = pc_control_revision head + 1;
          fp = canonical_fingerprint ''policy-safety-control:v2'' (JObj
            [(''previous'', JStr (pc_policy_snapshot_id current)),
             (''durable_head'', JStr (pc_policy_snapshot_id head)),
             (''control_revision'', JInt revision),
             (''target'', JStr (mode_value target)),
             (''kill_switch'', JBool kill_switch),
             (''read_only'', JBool read_only),
             (''reason_codes'', str_list reason_codes),
             (''effective_at'', JStr (isoformat at_time))])
      in current\<lparr>
           pc_policy_snapshot_id := fp,
           pc_control_revision := revision,
           pc_autonomy_mode := target,
           pc_shadow_target_mode := (if target = SHADOW then Some ASSISTED else None),
           pc_kill_switch := kill_switch,
           pc_read_only := read_only,
           pc_effective_at := instant_of at_time,
           pc_expires_at := None,
           pc_snapshot_fingerprint := fp,
           pc_created_at := instant_of at_time,
           pc_created_by_actor_type := ''SYSTEM'',
           pc_created_by_actor_ref := SAFETY_CONTROLLER_REF,
           pc_reason_codes := reason_codes \<rparr>)"

definition append_safer ::
  "interference \<Rightarrow> control_log \<Rightarrow> policy_control \<Rightarrow> policy_control \<Rightarrow> datetime \<Rightarrow> autonomy_mode \<Rightarrow> bool \<Rightarrow> bool \<Rightarrow>
   string list \<Rightarrow> (safety_error, policy_control option) result \<times> control_log" where
  "append_safer i rows current head at_time target kill_switch read_only reason_codes =
     (case PolicyControlSnapshot (safer_values current head at_time target kill_switch read_only reason_codes) of
        Inl _ \<Rightarrow> (Inl SafetyControlConflict, rows)
      | Inr replacement \<Rightarrow>
          (let read = before_maximum i rows in
           case append_control_if_latest read (before_insert i read) replacement
                  (Some (pc_control_revision head)) of
             (Inl e, rows') \<Rightarrow> (Inl (SafetyPolicyError e), rows')
           | (Inr appended, rows') \<Rightarrow> (Inr (if appended then Some replacement else None), rows')))"

fun downgrade_attempts ::
  "interference list \<Rightarrow> datetime \<Rightarrow> string list \<Rightarrow> control_log \<Rightarrow>
   (safety_error, policy_control) result \<times> control_log" where
  "downgrade_attempts [] at_time codes rows = (Inl SafetyControlConflict, rows)"
| "downgrade_attempts (i # attempts) at_time codes rows =
     (let seen = before_head i rows; table = before_current i seen in
      case get_latest_control seen of
        Inl e \<Rightarrow> (Inl (SafetyPolicyError e), seen)
      | Inr head \<Rightarrow>
      (case get_effective_control table at_time of
        Inl e \<Rightarrow> (Inl (SafetyPolicyError e), table)
      | Inr current \<Rightarrow>
        if pc_control_revision head < pc_control_revision current
        then downgrade_attempts attempts at_time codes table
        else if pc_control_revision current \<noteq> pc_control_revision head \<and>
          \<not> expired (pc_expires_at head) (instant_of at_time)
        then (Inl SafetyControlConflict, table)
        else if pc_created_by_actor_ref current = SAFETY_CONTROLLER_REF \<and> pc_reason_codes current = codes
        then (Inr current, table)
        else let target = next_safer (pc_autonomy_mode current) in
          if target = pc_autonomy_mode current then (Inr current, table)
          else (case append_safer i table current head at_time target
                       (pc_kill_switch current) (pc_read_only current) codes of
                  (Inl e, rows') \<Rightarrow> (Inl e, rows')
                | (Inr (Some replacement), rows') \<Rightarrow> (Inr replacement, rows')
                | (Inr None, rows') \<Rightarrow> downgrade_attempts attempts at_time codes rows')))"

definition downgrade ::
  "(nat \<Rightarrow> interference) \<Rightarrow> datetime \<Rightarrow> string list \<Rightarrow> control_log \<Rightarrow>
   (safety_error, policy_control) result \<times> control_log" where
  "downgrade others = downgrade_attempts (map others [0..<MAX_CONTROL_APPEND_ATTEMPTS])"

definition is_exact_critical_stop :: "policy_control \<Rightarrow> bool" where
  "is_exact_critical_stop c \<longleftrightarrow> pc_autonomy_mode c = SHADOW \<and> pc_shadow_target_mode c = Some ASSISTED \<and>
     pc_kill_switch c \<and> pc_read_only c \<and> pc_expires_at c = None"

fun stop_attempts ::
  "interference list \<Rightarrow> datetime \<Rightarrow> string list \<Rightarrow> control_log \<Rightarrow>
   (safety_error, policy_control) result \<times> control_log" where
  "stop_attempts [] at_time codes rows = (Inl SafetyControlConflict, rows)"
| "stop_attempts (i # attempts) at_time codes rows =
     (let seen = before_head i rows; table = before_current i seen in
      case get_latest_control seen of
        Inl e \<Rightarrow> (Inl (SafetyPolicyError e), seen)
      | Inr head \<Rightarrow>
      (case get_effective_control table at_time of
        Inl e \<Rightarrow> (Inl (SafetyPolicyError e), table)
      | Inr current \<Rightarrow>
        if pc_control_revision head < pc_control_revision current
        then stop_attempts attempts at_time codes table
        else if is_exact_critical_stop current then (Inr current, table)
        else (case append_safer i table current head at_time SHADOW True True codes of
                (Inl e, rows') \<Rightarrow> (Inl e, rows')
              | (Inr (Some replacement), rows') \<Rightarrow> (Inr replacement, rows')
              | (Inr None, rows') \<Rightarrow>
                  (let final = before_winner i rows' in
                   case get_effective_control final at_time of
                     Inl e \<Rightarrow> (Inl (SafetyPolicyError e), final)
                   | Inr winner \<Rightarrow>
                       if is_exact_critical_stop winner then (Inr winner, final)
                       else stop_attempts attempts at_time codes final))))"

definition critical_stop ::
  "(nat \<Rightarrow> interference) \<Rightarrow> datetime \<Rightarrow> string list \<Rightarrow> control_log \<Rightarrow>
   (safety_error, policy_control) result \<times> control_log" where
  "critical_stop others = stop_attempts (map others [0..<MAX_CONTROL_APPEND_ATTEMPTS])"

section \<open>What the others may do\<close>

definition rely :: "(control_log \<Rightarrow> control_log) \<Rightarrow> bool" where
  "rely f \<longleftrightarrow> (\<forall>rows. control_step\<^sup>*\<^sup>* rows (f rows))"

definition rely_all :: "interference \<Rightarrow> bool" where
  "rely_all i \<longleftrightarrow> rely (before_head i) \<and> rely (before_current i) \<and> rely (before_maximum i) \<and>
     rely (before_insert i) \<and> rely (before_winner i)"

definition alone :: "nat \<Rightarrow> interference" where
  "alone n = \<lparr> before_head = id, before_current = id, before_maximum = id, before_insert = id,
     before_winner = id \<rparr>"

lemma alone_simps [simp]:
  "before_head (alone n) = id" "before_current (alone n) = id" "before_maximum (alone n) = id"
  "before_insert (alone n) = id" "before_winner (alone n) = id"
  by (simp_all add: alone_def)

lemma rely_id [simp]: "rely id" by (simp add: rely_def)

lemma rely_alone [simp]: "rely_all (alone n)" by (simp add: rely_all_def)

lemma rely_ok: "rely f \<Longrightarrow> log_ok rows \<Longrightarrow> log_ok (f rows) \<and> prefix rows (f rows)"
  unfolding rely_def by (rule control_steps_ok) auto

section \<open>One append\<close>

lemma effective_top:
  assumes "log_ok (rows @ [c])" and "active_at (instant_of d) c" and "is_aware d"
  shows "get_effective_control (rows @ [c]) d = Inr c"
proof -
  have "pc_control_revision c = int (length rows) + 1"
    using assms(1) upto_rec2 [of 1 "int (length rows) + 1"] by (simp add: log_ok_def add.commute)
  moreover have "log_ok rows" using assms(1) by (rule log_ok_prefix) simp
  ultimately have "pc_control_revision x < pc_control_revision c" if "x \<in> set rows" for x
    using log_ok_below that by fastforce
  then have "top_control (active_at (instant_of d)) (rows @ [c]) = Some c"
    using assms(2) by (rule top.pick_append_top)
  moreover have "wf_control c" using log_ok_row [OF assms(1)] by simp
  ultimately show ?thesis
    using assms(3) by (simp add: get_effective_control_def row_or_unavailable_def control_from_row_ok)
qed

lemma snapshot_ok: "PolicyControlSnapshot v = Inr c \<Longrightarrow> c = strip_control v \<and> wf_control c"
  by (auto simp: PolicyControlSnapshot_def Let_def split: if_split_asm)

lemma safer_fields:
  assumes "PolicyControlSnapshot (safer_values current head d target kill ro codes) = Inr c"
  shows "pc_autonomy_mode c = target" "pc_shadow_target_mode c = (if target = SHADOW then Some ASSISTED else None)"
    "pc_kill_switch c = kill" "pc_read_only c = ro" "pc_expires_at c = None"
    "pc_effective_at c = instant_of d" "pc_daily_cost_cap c = pc_daily_cost_cap current"
    "pc_daily_volume_cap c = pc_daily_volume_cap current"
    "pc_control_revision c = pc_control_revision head + 1"
  using snapshot_ok [OF assms] by (simp_all add: strip_control_def safer_values_def Let_def)

lemma strip_control_fields:
  "pc_policy_version (strip_control c) = py_strip (pc_policy_version c)"
  "pc_qa_signal_ref (strip_control c) = map_option py_strip (pc_qa_signal_ref c)"
  "pc_allowed_commands (strip_control c) = map py_strip (pc_allowed_commands c)"
  "pc_allowed_countries (strip_control c) = map py_strip (pc_allowed_countries c)"
  "pc_allowed_languages (strip_control c) = map py_strip (pc_allowed_languages c)"
  "pc_allowed_wedges (strip_control c) = map py_strip (pc_allowed_wedges c)"
  "pc_currency (strip_control c) = py_strip (pc_currency c)"
  by (simp_all add: strip_control_def)

lemma safer_scope:
  assumes "PolicyControlSnapshot (safer_values current head d target kill ro codes) = Inr c"
    and "wf_control current"
  shows "pc_policy_version c = pc_policy_version current" "pc_qa_signal_ref c = pc_qa_signal_ref current"
    "pc_allowed_commands c = pc_allowed_commands current"
    "pc_allowed_countries c = pc_allowed_countries current"
    "pc_allowed_languages c = pc_allowed_languages current"
    "pc_allowed_wedges c = pc_allowed_wedges current" "pc_currency c = pc_currency current"
proof -
  have "c = strip_control (safer_values current head d target kill ro codes)"
    using snapshot_ok [OF assms(1)] by simp
  moreover have "strip_control current = current" using assms(2) by (rule strip_control_id)
  then have "py_strip (pc_policy_version current) = pc_policy_version current"
    "map_option py_strip (pc_qa_signal_ref current) = pc_qa_signal_ref current"
    "map py_strip (pc_allowed_commands current) = pc_allowed_commands current"
    "map py_strip (pc_allowed_countries current) = pc_allowed_countries current"
    "map py_strip (pc_allowed_languages current) = pc_allowed_languages current"
    "map py_strip (pc_allowed_wedges current) = pc_allowed_wedges current"
    "py_strip (pc_currency current) = pc_currency current"
    by (metis (no_types, lifting) strip_control_fields)+
  ultimately show "pc_policy_version c = pc_policy_version current" "pc_qa_signal_ref c = pc_qa_signal_ref current"
    "pc_allowed_commands c = pc_allowed_commands current"
    "pc_allowed_countries c = pc_allowed_countries current"
    "pc_allowed_languages c = pc_allowed_languages current"
    "pc_allowed_wedges c = pc_allowed_wedges current" "pc_currency c = pc_currency current"
    by (simp_all add: strip_control_fields safer_values_def Let_def)
qed

lemma append_safer_outcome:
  assumes "log_ok rows" and "rely_all i" and "current \<in> set rows"
    and "append_safer i rows current head d target kill ro codes = (r, rows')"
  shows "log_ok rows' \<and> prefix rows rows' \<and> (\<forall>c. r = Inr (Some c) \<longrightarrow>
    PolicyControlSnapshot (safer_values current head d target kill ro codes) = Inr c \<and>
    (\<exists>table. rows' = table @ [c]))"
proof (cases "PolicyControlSnapshot (safer_values current head d target kill ro codes)")
  case (Inl e)
  then show ?thesis using assms(1,4) by (auto simp: append_safer_def)
next
  case (Inr c)
  let ?read = "before_maximum i rows"
  let ?table = "before_insert i ?read"
  have read: "log_ok ?read" "prefix rows ?read"
    using rely_ok [OF _ assms(1), of "before_maximum i"] assms(2) by (simp_all add: rely_all_def)
  then have table: "log_ok ?table" "prefix ?read ?table"
    using rely_ok [of "before_insert i" ?read] assms(2) by (simp_all add: rely_all_def)
  obtain q where q: "append_control_if_latest ?read ?table c (Some (pc_control_revision head)) = (q, rows')"
    using assms(4) Inr
    by (cases "append_control_if_latest ?read ?table c (Some (pc_control_revision head))")
       (auto simp: append_safer_def Let_def split: sum.split_asm)
  have r: "r = (case q of Inl e \<Rightarrow> Inl (SafetyPolicyError e) | Inr b \<Rightarrow> Inr (if b then Some c else None))"
    using assms(4) Inr q by (auto simp: append_safer_def Let_def split: sum.split_asm)
  note wf = snapshot_ok [OF Inr]
  have grid: "num_round 6 (pc_daily_cost_cap c) = pc_daily_cost_cap c"
    using log_ok_row [OF assms(1,3)] safer_fields(7) [OF Inr] control_values_ok [of current current]
    by (metis policy_control.select_convs(14) policy_control.update_convs(14) policy_control.surjective)
  have same: "row = c" if "control_values c = Some row" for row
    using that grid by (simp add: control_values_def split: if_split_asm)
  show ?thesis
    using cas_outcome [OF table(1,2) _ q] wf table read same r Inr
    by (auto split: sum.split_asm if_split_asm intro: prefix_order.trans)
qed

section \<open>The loops\<close>

fun mode_rank :: "autonomy_mode \<Rightarrow> nat" where
  "mode_rank SHADOW = 0"
| "mode_rank ASSISTED = 1"
| "mode_rank AUTONOMOUS_CAPPED = 2"
| "mode_rank ADAPTIVE_VOLUME = 3"

definition no_wider :: "policy_control \<Rightarrow> policy_control \<Rightarrow> bool" where
  \<comment> \<open>the same authority with at most the autonomy and at least the stops\<close>
  "no_wider c prev \<longleftrightarrow>
     mode_rank (pc_autonomy_mode c) \<le> mode_rank (pc_autonomy_mode prev) \<and>
     (pc_kill_switch prev \<longrightarrow> pc_kill_switch c) \<and> (pc_read_only prev \<longrightarrow> pc_read_only c) \<and>
     pc_policy_version c = pc_policy_version prev \<and> pc_qa_signal_ref c = pc_qa_signal_ref prev \<and>
     pc_allowed_commands c = pc_allowed_commands prev \<and>
     pc_allowed_countries c = pc_allowed_countries prev \<and>
     pc_allowed_languages c = pc_allowed_languages prev \<and>
     pc_allowed_wedges c = pc_allowed_wedges prev \<and> pc_currency c = pc_currency prev \<and>
     pc_daily_cost_cap c = pc_daily_cost_cap prev \<and> pc_daily_volume_cap c = pc_daily_volume_cap prev"

lemma no_wider_refl: "no_wider c c" by (simp add: no_wider_def)

lemma next_safer_rank: "mode_rank (next_safer m) \<le> mode_rank m"
  "next_safer m \<noteq> m \<Longrightarrow> mode_rank (next_safer m) < mode_rank m"
  by (cases m; simp)+

lemma safer_no_wider:
  assumes "PolicyControlSnapshot (safer_values prev head d target kill ro codes) = Inr c"
    and "wf_control prev" and "mode_rank target \<le> mode_rank (pc_autonomy_mode prev)"
    and "pc_kill_switch prev \<longrightarrow> kill" and "pc_read_only prev \<longrightarrow> ro"
  shows "no_wider c prev"
  using assms(3-5) safer_fields [OF assms(1)] safer_scope [OF assms(1,2)] by (simp add: no_wider_def)

text \<open>A control that takes effect at \<open>d\<close> is a narrowing of the one in force at some moment of the run.\<close>

definition narrows :: "control_log \<Rightarrow> control_log \<Rightarrow> datetime \<Rightarrow> policy_control \<Rightarrow> bool" where
  "narrows rows rows' d c \<longleftrightarrow> get_effective_control rows' d = Inr c \<and>
     (\<exists>seen prev. prefix rows seen \<and> prefix seen rows' \<and> get_effective_control seen d = Inr prev \<and>
        no_wider c prev \<and> (c = prev \<or> pc_autonomy_mode c = SHADOW \<or>
          mode_rank (pc_autonomy_mode c) < mode_rank (pc_autonomy_mode prev)))"

lemma narrows_same: "prefix rows rows' \<Longrightarrow> get_effective_control rows' d = Inr c \<Longrightarrow> narrows rows rows' d c"
  unfolding narrows_def using no_wider_refl by blast

lemma narrows_later: "prefix rows table \<Longrightarrow> narrows table rows' d c \<Longrightarrow> narrows rows rows' d c"
  unfolding narrows_def using prefix_order.trans [of rows table] by blast

lemma append_safer_narrows:
  assumes "log_ok rows" and "rely_all i" and "get_effective_control rows d = Inr current"
    and "append_safer i rows current head d target kill ro codes = (Inr (Some c), rows')"
    and "mode_rank target \<le> mode_rank (pc_autonomy_mode current)"
    and "pc_kill_switch current \<longrightarrow> kill" and "pc_read_only current \<longrightarrow> ro"
    and "target = SHADOW \<or> mode_rank target < mode_rank (pc_autonomy_mode current)"
  shows "narrows rows rows' d c"
proof -
  note cur = effective_ok [OF assms(1,3)]
  then have mem: "current \<in> set rows" by blast
  obtain table where out: "log_ok rows'" "prefix rows rows'" "rows' = table @ [c]"
    "PolicyControlSnapshot (safer_values current head d target kill ro codes) = Inr c"
    using append_safer_outcome [OF assms(1,2) mem assms(4)] by blast
  have "active_at (instant_of d) c" using safer_fields [OF out(4)] by (simp add: active_at_def)
  then have "get_effective_control rows' d = Inr c"
    using effective_top out(1,3) cur by blast
  moreover have "no_wider c current"
    using safer_no_wider [OF out(4) _ assms(5-7)] cur by blast
  moreover have "pc_autonomy_mode c = SHADOW \<or>
      mode_rank (pc_autonomy_mode c) < mode_rank (pc_autonomy_mode current)"
    using assms(8) safer_fields(1) [OF out(4)] by simp
  ultimately show ?thesis unfolding narrows_def using assms(3) out(2) by blast
qed

lemma append_safer_ok:
  assumes "log_ok rows" and "rely_all i" and "get_effective_control rows d = Inr current"
    and "append_safer i rows current head d target kill ro codes = (r, rows')"
  shows "log_ok rows' \<and> prefix rows rows'"
  using append_safer_outcome [OF assms(1,2) _ assms(4)] effective_ok [OF assms(1,3)] by blast

lemma downgrade_attempts_ok:
  assumes "log_ok rows" and "\<forall>i \<in> set attempts. rely_all i"
    and "downgrade_attempts attempts d codes rows = (r, rows')"
  shows "log_ok rows' \<and> prefix rows rows' \<and> (\<forall>c. r = Inr c \<longrightarrow> narrows rows rows' d c)"
  using assms
proof (induction attempts arbitrary: rows)
  case (Cons i attempts)
  define seen where "seen = before_head i rows"
  define table where "table = before_current i seen"
  have rely: "rely_all i" "\<forall>j \<in> set attempts. rely_all j" using Cons.prems(2) by auto
  have seen: "log_ok seen" "prefix rows seen"
    using rely_ok [OF _ Cons.prems(1), of "before_head i"] rely(1) by (simp_all add: rely_all_def seen_def)
  then have table: "log_ok table" "prefix rows table"
    using rely_ok [of "before_current i" seen] rely(1) prefix_order.trans
    by (auto simp: rely_all_def table_def)
  note run = Cons.prems(3) [simplified, folded seen_def, unfolded Let_def, folded table_def]
  have step: ?case if "downgrade_attempts attempts d codes next = (r, rows')" "log_ok next" "prefix rows next" for "next"
    using Cons.IH [OF that(2) rely(2) that(1)] that(3) narrows_later prefix_order.trans by blast
  show ?case
  proof (cases "get_latest_control seen")
    case (Inl e) then show ?thesis using run seen by auto
  next
    case (Inr head)
    note head = Inr
    show ?thesis
    proof (cases "get_effective_control table d")
      case (Inl e) then show ?thesis using run head table by auto
    next
      case (Inr current)
      note current = Inr
      note kept = narrows_same [OF table(2) current]
      show ?thesis
      proof (cases "append_safer i table current head d (next_safer (pc_autonomy_mode current))
                     (pc_kill_switch current) (pc_read_only current) codes")
        case (Pair q out)
        note ok = append_safer_ok [OF table(1) rely(1) current Pair]
        have made: "narrows rows out d c"
          if "q = Inr (Some c)" "next_safer (pc_autonomy_mode current) \<noteq> pc_autonomy_mode current" for c
          using append_safer_narrows [OF table(1) rely(1) current Pair [unfolded that] next_safer_rank(1)]
            next_safer_rank(2) [OF that(2)] narrows_later [OF table(2)] by blast
        have pre: "prefix rows out" using table(2) ok prefix_order.trans by blast
        show ?thesis
          using run head current Pair ok kept made pre table step
          by (auto split: if_split_asm sum.split_asm option.split_asm)
      qed
    qed
  qed
qed auto

lemma safer_exact_stop:
  "PolicyControlSnapshot (safer_values current head d SHADOW True True codes) = Inr c \<Longrightarrow>
   is_exact_critical_stop c"
  using safer_fields [of current head d SHADOW True True codes c] by (simp add: is_exact_critical_stop_def)

lemma append_stop:
  assumes "log_ok rows" and "rely_all i" and "get_effective_control rows d = Inr current"
    and "append_safer i rows current head d SHADOW True True codes = (Inr (Some c), rows')"
  shows "is_exact_critical_stop c \<and> get_effective_control rows' d = Inr c"
proof -
  have "narrows rows rows' d c" using append_safer_narrows [OF assms] by simp
  moreover have "PolicyControlSnapshot (safer_values current head d SHADOW True True codes) = Inr c"
    using append_safer_outcome [OF assms(1,2) _ assms(4)] effective_ok [OF assms(1,3)] by blast
  ultimately show ?thesis using safer_exact_stop by (auto simp: narrows_def)
qed

lemma stop_attempts_ok:
  assumes "log_ok rows" and "\<forall>i \<in> set attempts. rely_all i"
    and "stop_attempts attempts d codes rows = (r, rows')"
  shows "log_ok rows' \<and> prefix rows rows' \<and>
    (\<forall>c. r = Inr c \<longrightarrow> is_exact_critical_stop c \<and> get_effective_control rows' d = Inr c)"
  using assms
proof (induction attempts arbitrary: rows)
  case (Cons i attempts)
  define seen where "seen = before_head i rows"
  define table where "table = before_current i seen"
  have rely: "rely_all i" "\<forall>j \<in> set attempts. rely_all j" using Cons.prems(2) by auto
  have seen: "log_ok seen" "prefix rows seen"
    using rely_ok [OF _ Cons.prems(1), of "before_head i"] rely(1) by (simp_all add: rely_all_def seen_def)
  then have table: "log_ok table" "prefix rows table"
    using rely_ok [of "before_current i" seen] rely(1) prefix_order.trans
    by (auto simp: rely_all_def table_def)
  note run = Cons.prems(3) [simplified, folded seen_def, unfolded Let_def, folded table_def]
  have step: ?case if "stop_attempts attempts d codes next = (r, rows')" "log_ok next" "prefix rows next" for "next"
    using Cons.IH [OF that(2) rely(2) that(1)] that(3) prefix_order.trans by blast
  show ?case
  proof (cases "get_latest_control seen")
    case (Inl e) then show ?thesis using run seen by auto
  next
    case (Inr head)
    note head = Inr
    show ?thesis
    proof (cases "get_effective_control table d")
      case (Inl e) then show ?thesis using run head table by auto
    next
      case (Inr current)
      note current = Inr
      show ?thesis
      proof (cases "append_safer i table current head d SHADOW True True codes")
        case (Pair q out)
        note ok = append_safer_ok [OF table(1) rely(1) current Pair]
        have made: "is_exact_critical_stop c \<and> get_effective_control out d = Inr c" if "q = Inr (Some c)" for c
          using append_stop [OF table(1) rely(1) current Pair [unfolded that]] .
        have pre: "prefix rows out" using table(2) ok prefix_order.trans by blast
        have final: "log_ok (before_winner i out)" "prefix rows (before_winner i out)"
          using rely_ok [of "before_winner i" out] ok rely(1) pre prefix_order.trans
          by (auto simp: rely_all_def)
        show ?thesis
          using run head current Pair ok made pre table step final
          by (auto split: if_split_asm sum.split_asm option.split_asm)
      qed
    qed
  qed
qed auto

section \<open>Authority of narrower controls\<close>

lemma narrower_permits_less:
  assumes "no_wider c prev" and "wf_control c" and "wf_control prev"
    and "pc_autonomy_mode c \<noteq> SHADOW"
    and "permitted r (snapshot_of c r d usage) t"
    and "cpa_state (rq_compliance r) \<noteq> REVIEW_REQUIRED"
    and "mode_rank (pc_autonomy_mode c) < mode_rank (pc_autonomy_mode prev)"
  shows "pc_autonomy_mode prev \<noteq> SHADOW \<and> permitted r (snapshot_of prev r d usage) t"
proof -
  let ?c = "snapshot_of c r d usage" and ?p = "snapshot_of prev r d usage"
  obtain q where q: "command_policy_of (rq_command r) = Some q"
    and ok: "not_stopped q r ?c" "in_scope q r ?c" "compliant q r ?c t" "evidenced q r t"
      "within_budget q r ?c" "operational q r t" "action_approved q r ?c t"
    using assms(5) by (auto simp: permitted_def split: option.split_asm)
  have prev: "pc_autonomy_mode prev \<noteq> SHADOW"
    using assms(1,4) by (cases "pc_autonomy_mode c") (auto simp: no_wider_def)
  have "not_stopped q r ?p"
    using ok(1) assms(1) by (auto simp: not_stopped_def snapshot_of_def Let_def no_wider_def)
  moreover have "in_scope q r ?p"
    using ok(2) assms(1,4) prev
    by (cases "pc_autonomy_mode prev")
       (auto simp: in_scope_def snapshot_of_def Let_def no_wider_def effective_mode_def)
  moreover have "compliant q r ?p t" using ok(3) assms(6) by (auto simp: compliant_def)
  moreover have "within_budget q r ?p"
    using ok(5) assms(1)
    by (auto simp: within_budget_def cost_remaining_def volume_remaining_def snapshot_of_def Let_def no_wider_def)
  moreover have "pc_autonomy_mode prev \<noteq> ASSISTED"
    using assms(4,7) by (cases "pc_autonomy_mode c") auto
  then have "action_approved q r ?p t"
    using prev by (simp add: action_approved_def effective_mode_def snapshot_of_def Let_def)
  ultimately show ?thesis using q ok prev by (simp add: permitted_def)
qed

section \<open>Properties of the controller\<close>

text \<open>
  C14. When the critical stop returns a control, that control is an exact stop (SHADOW, kill switch on,
  read-only, never expiring) and it is the one in force at the instant of the stop in the log the call
  leaves behind, whatever other processes appended during the call; and no request then executes
  through the gateway: not at that instant, and not at any later one for which the log holds no
  active control of a higher revision.
\<close>

theorem critical_stop_blocks:
  assumes "log_ok rows" and "\<And>n. rely_all (others n)"
    and "critical_stop others d codes rows = (Inr c, rows')"
    and "is_aware t" and "instant_of d \<le> instant_of t"
    and "\<forall>x \<in> set rows'. active_at (instant_of t) x \<longrightarrow> pc_control_revision x \<le> pc_control_revision c"
  shows "is_exact_critical_stop c \<and> get_effective_control rows' d = Inr c \<and> prefix rows rows' \<and>
    get_effective_control rows' t = Inr c \<and>
    (\<forall>r usage s. gateway_snapshot rows' r t usage None = Inr s \<longrightarrow>
       \<not> pd_executable (evaluate_policy r s (instant_of t)))"
proof -
  have ok: "log_ok rows'" "prefix rows rows'" "is_exact_critical_stop c" "get_effective_control rows' d = Inr c"
    using stop_attempts_ok [OF assms(1) _ assms(3) [unfolded critical_stop_def]] assms(2) by auto
  note eff = effective_ok [OF ok(1,4)]
  have "active_at (instant_of d) c" using eff top.pick_Some by blast
  then have "active_at (instant_of t) c"
    using ok(3) assms(5) by (simp add: active_at_def is_exact_critical_stop_def)
  then have now: "top_control (active_at (instant_of t)) rows' = Some c"
    using assms(6) eff log_ok_inj [OF ok(1)] by (simp add: top.pick_iff)
  then have force: "get_effective_control rows' t = Inr c"
    using eff assms(4) by (simp add: get_effective_control_def row_or_unavailable_def control_from_row_ok)
  have "\<not> pd_executable (evaluate_policy r s (instant_of t))"
    if "gateway_snapshot rows' r t usage None = Inr s" for r usage s
    using that force ok(3)
    by (auto simp: gateway_snapshot_def snapshot_of_def Let_def evaluate_status is_exact_critical_stop_def
        split: if_split_asm)
  then show ?thesis using ok(2-4) force by blast
qed

text \<open>
  A downgrade only ever narrows authority: the control it returns is in force at the instant of the
  downgrade and differs from the one in force before it only by less autonomy and at least the same
  stops, so that every request that executes under the new control executes under the old one as well
  (a request whose compliance needs a human review apart, since review grants are bound to one control
  revision).
\<close>

theorem downgrade_only_narrows:
  assumes "log_ok rows" and "\<And>n. rely_all (others n)"
    and "downgrade others d codes rows = (Inr c, rows')"
  shows "prefix rows rows' \<and> get_effective_control rows' d = Inr c \<and>
    (\<exists>seen prev. prefix rows seen \<and> prefix seen rows' \<and> get_effective_control seen d = Inr prev \<and>
       no_wider c prev \<and>
       (\<forall>r usage. cpa_state (rq_compliance r) \<noteq> REVIEW_REQUIRED \<longrightarrow>
          pd_executable (evaluate_policy r (snapshot_of c r d usage) (instant_of d)) \<longrightarrow>
          pd_executable (evaluate_policy r (snapshot_of prev r d usage) (instant_of d))))"
proof -
  have ok: "log_ok rows'" "prefix rows rows'" "narrows rows rows' d c"
    using downgrade_attempts_ok [OF assms(1) _ assms(3) [unfolded downgrade_def]] assms(2) by auto
  then obtain seen prev where seen: "prefix rows seen" "prefix seen rows'"
    and prev: "get_effective_control seen d = Inr prev" "no_wider c prev"
    and strict: "c = prev \<or> pc_autonomy_mode c = SHADOW \<or>
      mode_rank (pc_autonomy_mode c) < mode_rank (pc_autonomy_mode prev)"
    and force: "get_effective_control rows' d = Inr c"
    by (auto simp: narrows_def)
  have wf: "wf_control c" "wf_control prev"
    using effective_ok [OF ok(1) force] effective_ok [OF log_ok_prefix [OF ok(1) seen(2)] prev(1)] by auto
  have "pd_executable (evaluate_policy r (snapshot_of prev r d usage) (instant_of d))"
    if rev: "cpa_state (rq_compliance r) \<noteq> REVIEW_REQUIRED"
      and exec: "pd_executable (evaluate_policy r (snapshot_of c r d usage) (instant_of d))" for r usage
  proof (cases "c = prev")
    case True then show ?thesis using exec by simp
  next
    case False
    have mode: "ps_autonomy_mode (snapshot_of x r d usage) = pc_autonomy_mode x" for x
      by (simp add: snapshot_of_def Let_def)
    have c: "pc_autonomy_mode c \<noteq> SHADOW" "permitted r (snapshot_of c r d usage) (instant_of d)"
      using exec by (simp_all add: evaluate_status policy_outcome_approved mode)
    then have "mode_rank (pc_autonomy_mode c) < mode_rank (pc_autonomy_mode prev)"
      using strict False by blast
    then show ?thesis using narrower_permits_less [OF prev(2) wf c rev]
      by (simp add: evaluate_status policy_outcome_approved mode)
  qed
  then show ?thesis using ok(2) force seen prev by blast
qed

definition sample_stop :: policy_control where
  "sample_stop = (sample_control 3 (CHR ''c''))\<lparr> pc_autonomy_mode := SHADOW,
     pc_shadow_target_mode := Some ASSISTED, pc_kill_switch := True, pc_read_only := True \<rparr>"

definition sample_stopped :: control_log where "sample_stopped = sample_log @ [sample_stop]"

lemma sample_stopped_ok: "log_ok sample_stopped" by code_simp

lemma sample_stop_run: "critical_stop alone sample_clock [''STOP''] sample_stopped = (Inr sample_stop, sample_stopped)"
  by code_simp

lemma sample_downgrade_run: "downgrade alone sample_clock [''STOP''] sample_stopped = (Inr sample_stop, sample_stopped)"
  by code_simp

theorem critical_stop_blocks_witness:
  "get_effective_control sample_stopped sample_clock = Inr sample_stop"
proof -
  have "\<forall>x \<in> set sample_stopped. pc_control_revision x \<le> pc_control_revision sample_stop"
    by (simp add: sample_stopped_def sample_log_def sample_control_def sample_stop_def)
  then show ?thesis
    using critical_stop_blocks [OF sample_stopped_ok rely_alone sample_stop_run sample_clock_facts(1)] by blast
qed

theorem downgrade_only_narrows_witness:
  "\<exists>seen prev. prefix sample_stopped seen \<and> get_effective_control seen sample_clock = Inr prev \<and>
     no_wider sample_stop prev"
  using downgrade_only_narrows [OF sample_stopped_ok rely_alone sample_downgrade_run] by blast

section \<open>The stop succeeds when nobody interferes\<close>

lemma fingerprint_strip: "py_strip (sha256_hex x) = sha256_hex x"
  by (simp add: is_fingerprint_strip)

lemma fingerprint_columns: "length (sha256_hex x) = 64" "no_nul_text (sha256_hex x)"
  using is_fingerprint_sha256 [of x]
  by (auto simp: is_fingerprint_def no_nul_text_def list_all_iff is_lower_hex_def is_digit_def Let_def)

lemma safer_strip:
  assumes "wf_control current"
  shows "strip_control (safer_values current head d target kill ro codes) =
    (safer_values current head d target kill ro codes)\<lparr> pc_reason_codes := map py_strip codes \<rparr>"
proof -
  have cur: "strip_control current = current" using assms by (rule strip_control_id)
  have "py_strip SAFETY_CONTROLLER_REF = SAFETY_CONTROLLER_REF" "py_strip ''SYSTEM'' = ''SYSTEM''"
    by code_simp+
  moreover have "py_strip (pc_policy_version current) = pc_policy_version current"
    "map_option py_strip (pc_qa_signal_ref current) = pc_qa_signal_ref current"
    "map py_strip (pc_allowed_commands current) = pc_allowed_commands current"
    "map py_strip (pc_allowed_countries current) = pc_allowed_countries current"
    "map py_strip (pc_allowed_languages current) = pc_allowed_languages current"
    "map py_strip (pc_allowed_wedges current) = pc_allowed_wedges current"
    "py_strip (pc_currency current) = pc_currency current"
    using strip_control_fields [of current] unfolding cur by simp_all
  ultimately show ?thesis
    by (simp add: strip_control_def safer_values_def Let_def canonical_fingerprint_def fingerprint_strip)
qed

lemma safer_valid:
  assumes "wf_control current" and "1 \<le> pc_control_revision head"
    and "code_list MAX_POLICY_REASON_CODES (map py_strip codes)"
  shows "PolicyControlSnapshot (safer_values current head d target kill ro codes) =
    Inr ((safer_values current head d target kill ro codes)\<lparr> pc_reason_codes := map py_strip codes \<rparr>)"
proof -
  have ref: "clean_str 256 SAFETY_CONTROLLER_REF" by code_simp
  have fp: "clean_str 128 (sha256_hex x)" for x
    using fingerprint_columns(1) [of x] by (simp add: clean_str_def fingerprint_strip)
  have "wf_control ((safer_values current head d target kill ro codes)\<lparr> pc_reason_codes := map py_strip codes \<rparr>)"
    using assms ref fp
    by (simp add: wf_control_def safer_values_def Let_def canonical_fingerprint_def fingerprint_strip
        shadow_contract_def)
  then show ?thesis by (simp add: PolicyControlSnapshot_def Let_def safer_strip [OF assms(1)])
qed

lemma safer_columns:
  assumes "control_columns_ok current" and "pc_control_revision head + 1 < 2 ^ 31"
  shows "control_columns_ok ((safer_values current head d target kill ro codes)\<lparr> pc_reason_codes := ys \<rparr>)"
proof -
  have "no_nul_text SAFETY_CONTROLLER_REF" by code_simp
  then show ?thesis
    using assms
    by (simp add: control_columns_ok_def safer_values_def Let_def canonical_fingerprint_def
        fingerprint_columns)
qed

lemma latest_exists: "log_ok rows \<Longrightarrow> rows \<noteq> [] \<Longrightarrow> \<exists>h. get_latest_control rows = Inr h"
proof -
  assume ok: "log_ok rows" "rows \<noteq> []"
  then obtain h where h: "top_control (\<lambda>_. True) rows = Some h"
    using top.pick_None [of "\<lambda>_. True" rows] by (cases "top_control (\<lambda>_. True) rows") auto
  then have "wf_control h" using top.pick_Some log_ok_row [OF ok(1)] by blast
  then show ?thesis using h by (simp add: get_latest_control_def row_or_unavailable_def control_from_row_ok)
qed

definition stop_id :: "control_log \<Rightarrow> datetime \<Rightarrow> string list \<Rightarrow> string option" where
  \<comment> \<open>the id the stop would give to its control\<close>
  "stop_id rows d codes = (case (get_latest_control rows, get_effective_control rows d) of
     (Inr head, Inr current) \<Rightarrow> Some (pc_policy_snapshot_id (safer_values current head d SHADOW True True codes))
   | _ \<Rightarrow> None)"


text \<open>The witness leaves the stored fingerprint open and picks one that is not the fingerprint of the stop.\<close>

definition sample_lone :: "char \<Rightarrow> control_log" where
  "sample_lone digit = [(sample_control 1 (CHR ''a''))\<lparr> pc_snapshot_fingerprint := replicate 64 digit \<rparr>]"

lemma sample_lone_ok: "log_ok (sample_lone (CHR ''0''))" "log_ok (sample_lone (CHR ''1''))"
  by code_simp+

lemma sample_lone_effective:
  "get_effective_control (sample_lone (CHR ''0'')) sample_clock = Inr (hd (sample_lone (CHR ''0'')))"
  "get_effective_control (sample_lone (CHR ''1'')) sample_clock = Inr (hd (sample_lone (CHR ''1'')))"
  by code_simp+

lemma sample_lone_latest:
  "get_latest_control (sample_lone (CHR ''0'')) = Inr (hd (sample_lone (CHR ''0'')))"
  "get_latest_control (sample_lone (CHR ''1'')) = Inr (hd (sample_lone (CHR ''1'')))"
  by code_simp+

lemma stop_id_long: "stop_id rows d codes = Some i \<Longrightarrow> length i = 64"
  by (auto simp: stop_id_def safer_values_def Let_def canonical_fingerprint_def fingerprint_columns
      split: sum.split_asm)


end
