(* ===== verification/RuntimeContracts.thy ===== *)
theory RuntimeContracts
  imports PyTime PyJson
begin

text \<open>
  \<open>acquisition_runtime/contracts.py\<close>: the stages of an acquisition cycle, their statuses, and the
  validated values that pass between the runner, the runtime store, the supervisor and the actions.

  A pydantic model is a record; the constructor of the same name strips its text and checks its
  fields and validators. Costs are the values of their \<open>Decimal\<close>s, timestamps are instants.
\<close>

section \<open>Enumerations\<close>

datatype runtime_stage =
    STAGE_SIGNAL_SEED | STAGE_SUPPLIER_DISCOVERY | STAGE_CONTACT_DISCOVERY | STAGE_COMPANY_RESEARCH
  | STAGE_DECISION | STAGE_PERSONALIZATION | STAGE_COMPLIANCE | STAGE_CAMPAIGN
  | STAGE_PROVIDER_HANDOFF | STAGE_RESPONSE | STAGE_ATTRIBUTION_CONVERSION

definition STAGES :: "runtime_stage list" where
  \<comment> \<open>\<open>tuple(AcquisitionRuntimeStage)\<close>\<close>
  "STAGES = [STAGE_SIGNAL_SEED, STAGE_SUPPLIER_DISCOVERY, STAGE_CONTACT_DISCOVERY, STAGE_COMPANY_RESEARCH,
     STAGE_DECISION, STAGE_PERSONALIZATION, STAGE_COMPLIANCE, STAGE_CAMPAIGN, STAGE_PROVIDER_HANDOFF,
     STAGE_RESPONSE, STAGE_ATTRIBUTION_CONVERSION]"

fun stage_value :: "runtime_stage \<Rightarrow> string" where
  "stage_value STAGE_SIGNAL_SEED = ''SIGNAL_SEED''"
| "stage_value STAGE_SUPPLIER_DISCOVERY = ''SUPPLIER_DISCOVERY''"
| "stage_value STAGE_CONTACT_DISCOVERY = ''CONTACT_DISCOVERY''"
| "stage_value STAGE_COMPANY_RESEARCH = ''COMPANY_RESEARCH''"
| "stage_value STAGE_DECISION = ''DECISION''"
| "stage_value STAGE_PERSONALIZATION = ''PERSONALIZATION''"
| "stage_value STAGE_COMPLIANCE = ''COMPLIANCE''"
| "stage_value STAGE_CAMPAIGN = ''CAMPAIGN''"
| "stage_value STAGE_PROVIDER_HANDOFF = ''PROVIDER_HANDOFF''"
| "stage_value STAGE_RESPONSE = ''RESPONSE''"
| "stage_value STAGE_ATTRIBUTION_CONVERSION = ''ATTRIBUTION_CONVERSION''"

fun stage_command :: "runtime_stage \<Rightarrow> string" where
  "stage_command STAGE_SIGNAL_SEED = ''resolve_signal_seed''"
| "stage_command STAGE_SUPPLIER_DISCOVERY = ''discover_suppliers''"
| "stage_command STAGE_CONTACT_DISCOVERY = ''find_decision_makers''"
| "stage_command STAGE_COMPANY_RESEARCH = ''enrich_company''"
| "stage_command STAGE_DECISION = ''evaluate_opportunity''"
| "stage_command STAGE_PERSONALIZATION = ''prepare_campaign''"
| "stage_command STAGE_COMPLIANCE = ''assess_campaign_compliance''"
| "stage_command STAGE_CAMPAIGN = ''schedule_campaign''"
| "stage_command STAGE_PROVIDER_HANDOFF = ''execute_provider_operations''"
| "stage_command STAGE_RESPONSE = ''classify_response''"
| "stage_command STAGE_ATTRIBUTION_CONVERSION = ''reconcile_conversion''"

datatype stage_status =
    STAGE_PENDING | STAGE_RUNNING | STAGE_WAITING | STAGE_SUCCEEDED | STAGE_BLOCKED | STAGE_FAILED
  | STAGE_SUPPRESSED | STAGE_CANCELLED

datatype cycle_status =
    CYCLE_PENDING | CYCLE_RUNNING | CYCLE_WAITING | CYCLE_SUCCEEDED | CYCLE_BLOCKED | CYCLE_FAILED
  | CYCLE_SUPPRESSED | CYCLE_CANCELLED

fun cycle_status_value :: "cycle_status \<Rightarrow> string" where
  "cycle_status_value CYCLE_PENDING = ''PENDING''"
| "cycle_status_value CYCLE_RUNNING = ''RUNNING''"
| "cycle_status_value CYCLE_WAITING = ''WAITING''"
| "cycle_status_value CYCLE_SUCCEEDED = ''SUCCEEDED''"
| "cycle_status_value CYCLE_BLOCKED = ''BLOCKED''"
| "cycle_status_value CYCLE_FAILED = ''FAILED''"
| "cycle_status_value CYCLE_SUPPRESSED = ''SUPPRESSED''"
| "cycle_status_value CYCLE_CANCELLED = ''CANCELLED''"

fun cycle_of_stage :: "stage_status \<Rightarrow> cycle_status" where
  \<comment> \<open>\<open>RuntimeCycleStatus(status.value)\<close>\<close>
  "cycle_of_stage STAGE_PENDING = CYCLE_PENDING"
| "cycle_of_stage STAGE_RUNNING = CYCLE_RUNNING"
| "cycle_of_stage STAGE_WAITING = CYCLE_WAITING"
| "cycle_of_stage STAGE_SUCCEEDED = CYCLE_SUCCEEDED"
| "cycle_of_stage STAGE_BLOCKED = CYCLE_BLOCKED"
| "cycle_of_stage STAGE_FAILED = CYCLE_FAILED"
| "cycle_of_stage STAGE_SUPPRESSED = CYCLE_SUPPRESSED"
| "cycle_of_stage STAGE_CANCELLED = CYCLE_CANCELLED"

datatype run_status =
    RUN_ALREADY_RUNNING | RUN_COMPLETED | RUN_WAITING | RUN_BLOCKED | RUN_FAILED | RUN_SUPPRESSED | RUN_CANCELLED

datatype execution_mode = MODE_SHADOW | MODE_ASSISTED

datatype runtime_error =
    RtValueError \<comment> \<open>\<open>ValueError\<close> and pydantic's \<open>ValidationError\<close>\<close>
  | AcquisitionRuntimeConflict
  | RtKeyError
  | RtNoResultFound \<comment> \<open>\<open>Result.one()\<close> on an empty result\<close>
  | RtDatabaseError \<comment> \<open>\<open>IntegrityError\<close> and \<open>DataError\<close> of the database\<close>

definition require_aware :: "datetime \<Rightarrow> (runtime_error, instant) result" where
  "require_aware d = (if is_aware d then Inr (instant_of d) else Inl RtValueError)"

section \<open>Text patterns\<close>

definition is_alnum :: "char \<Rightarrow> bool" where
  "is_alnum c \<longleftrightarrow> is_lower c \<or> is_upper c \<or> is_digit c"

definition opaque_ref :: "string \<Rightarrow> bool" where
  \<comment> \<open>\<open>^[A-Za-z0-9][A-Za-z0-9._:-]{0,255}$\<close>\<close>
  "opaque_ref s \<longleftrightarrow> s \<noteq> [] \<and> length s \<le> 256 \<and> is_alnum (hd s) \<and>
     list_all (\<lambda>c. is_alnum c \<or> c \<in> set ''._:-'') (tl s)"

definition machine_code :: "string \<Rightarrow> bool" where
  \<comment> \<open>\<open>^[A-Z0-9][A-Z0-9_:-]{0,99}$\<close>\<close>
  "machine_code s \<longleftrightarrow> s \<noteq> [] \<and> length s \<le> 100 \<and> (is_upper (hd s) \<or> is_digit (hd s)) \<and>
     list_all (\<lambda>c. is_upper c \<or> is_digit c \<or> c \<in> set ''_:-'') (tl s)"

definition runtime_command_name :: "string \<Rightarrow> bool" where
  \<comment> \<open>\<open>^[a-z][a-z0-9_]{0,63}$\<close>\<close>
  "runtime_command_name s \<longleftrightarrow> s \<noteq> [] \<and> length s \<le> 64 \<and> is_lower (hd s) \<and>
     list_all (\<lambda>c. is_lower c \<or> is_digit c \<or> c = CHR ''_'') (tl s)"

definition bounded_runtime_text :: "string \<Rightarrow> bool" where
  \<comment> \<open>1 to 256 characters, none of them white space or a control character\<close>
  "bounded_runtime_text s \<longleftrightarrow> s \<noteq> [] \<and> length s \<le> 256 \<and> list_all (\<lambda>c. \<not> is_space c \<and> 32 \<le> (of_char c :: nat)) s"

definition commit_fingerprint :: "string \<Rightarrow> bool" where
  "commit_fingerprint s \<longleftrightarrow> length s = 40 \<and> list_all is_lower_hex s"

definition cost_in_range :: "rat \<Rightarrow> bool" where
  \<comment> \<open>\<open>Field(ge=0, le=Decimal("50"))\<close>\<close>
  "cost_in_range x \<longleftrightarrow> 0 \<le> x \<and> x \<le> 50"

section \<open>Capability evidence\<close>

record runtime_hermes =
  rh_repository :: string
  rh_tag :: string
  rh_commit :: string
  rh_version :: string
  rh_python_contract :: string

definition strip_hermes :: "runtime_hermes \<Rightarrow> runtime_hermes" where
  "strip_hermes h = \<lparr> rh_repository = py_strip (rh_repository h), rh_tag = py_strip (rh_tag h),
     rh_commit = py_strip (rh_commit h), rh_version = py_strip (rh_version h),
     rh_python_contract = py_strip (rh_python_contract h) \<rparr>"

definition wf_hermes :: "runtime_hermes \<Rightarrow> bool" where
  "wf_hermes h \<longleftrightarrow> bounded_runtime_text (rh_repository h) \<and> bounded_runtime_text (rh_tag h) \<and>
     commit_fingerprint (rh_commit h) \<and> bounded_runtime_text (rh_version h) \<and>
     bounded_runtime_text (rh_python_contract h)"

record stage_dependency =
  sd_stage :: runtime_stage
  sd_ready :: bool \<comment> \<open>\<open>READY\<close> or \<open>NOT_READY\<close>\<close>
  sd_reason_codes :: "string list"

definition wf_dependency :: "stage_dependency \<Rightarrow> bool" where
  "wf_dependency d \<longleftrightarrow> list_all machine_code (sd_reason_codes d) \<and> length (sd_reason_codes d) \<le> 8 \<and>
     (sd_ready d \<longleftrightarrow> sd_reason_codes d = [])"

record runtime_capability =
  ca_environment :: string
  ca_mode :: execution_mode
  ca_qa_only :: bool
  ca_hermes :: runtime_hermes
  ca_registry_identity :: string
  ca_native_tools :: int
  ca_commands :: "string list"
  ca_dependencies :: "stage_dependency list"

definition strip_capability :: "runtime_capability \<Rightarrow> runtime_capability" where
  "strip_capability c = c\<lparr> ca_hermes := strip_hermes (ca_hermes c),
     ca_registry_identity := py_strip (ca_registry_identity c), ca_commands := map py_strip (ca_commands c),
     ca_dependencies := map (\<lambda>d. d\<lparr> sd_reason_codes := map py_strip (sd_reason_codes d) \<rparr>) (ca_dependencies c) \<rparr>"

definition wf_capability :: "runtime_capability \<Rightarrow> bool" where
  "wf_capability c \<longleftrightarrow> ca_environment c \<in> {''STAGING'', ''PRODUCTION''} \<and> wf_hermes (ca_hermes c) \<and>
     is_fingerprint (ca_registry_identity c) \<and> ca_native_tools c = 0 \<and>
     ca_commands c = map stage_command STAGES \<and> list_all wf_dependency (ca_dependencies c) \<and>
     map sd_stage (ca_dependencies c) = STAGES"

definition RuntimeCapabilityEvidence :: "runtime_capability \<Rightarrow> (runtime_error, runtime_capability) result" where
  "RuntimeCapabilityEvidence c = (let s = strip_capability c in if wf_capability s then Inr s else Inl RtValueError)"

fun execution_mode_value :: "execution_mode \<Rightarrow> string" where
  "execution_mode_value MODE_SHADOW = ''SHADOW''"
| "execution_mode_value MODE_ASSISTED = ''ASSISTED''"

definition dependency_json :: "stage_dependency \<Rightarrow> json" where
  "dependency_json d = JObj [(''stage'', JStr (stage_value (sd_stage d))),
     (''status'', JStr (if sd_ready d then ''READY'' else ''NOT_READY'')),
     (''reason_codes'', str_list (sd_reason_codes d))]"

definition capability_json :: "runtime_capability \<Rightarrow> json" where
  "capability_json c = JObj [(''environment'', JStr (ca_environment c)), (''mode'', JStr (execution_mode_value (ca_mode c))),
     (''qa_only'', JBool (ca_qa_only c)),
     (''hermes'', JObj [(''repository'', JStr (rh_repository (ca_hermes c))), (''tag'', JStr (rh_tag (ca_hermes c))),
        (''commit'', JStr (rh_commit (ca_hermes c))), (''version'', JStr (rh_version (ca_hermes c))),
        (''python_contract'', JStr (rh_python_contract (ca_hermes c)))]),
     (''registry_identity'', JStr (ca_registry_identity c)), (''native_tools'', JInt (ca_native_tools c)),
     (''commands'', str_list (ca_commands c)), (''dependencies'', JList (map dependency_json (ca_dependencies c)))]"

definition capability_fingerprint :: "runtime_capability \<Rightarrow> string" where
  "capability_fingerprint c = sha256_hex (dumps (capability_json c))"

record health_observation =
  ho_capability :: runtime_capability
  ho_observed_at :: instant
  ho_heartbeat_at :: instant
  ho_last_cycle_ref :: "string option"
  ho_last_cycle_status :: "cycle_status option"
  ho_last_cycle_at :: "instant option"

definition RuntimeHealthObservation :: "health_observation \<Rightarrow> (runtime_error, health_observation) result" where
  "RuntimeHealthObservation raw =
     (let ob = raw\<lparr> ho_last_cycle_ref := map_option py_strip (ho_last_cycle_ref raw) \<rparr> in
      if (case ho_last_cycle_ref ob of None \<Rightarrow> True | Some r \<Rightarrow> opaque_ref r) \<and>
         ho_observed_at ob \<le> ho_heartbeat_at ob \<and>
         (ho_last_cycle_ref ob = None \<longleftrightarrow> ho_last_cycle_status ob = None) \<and>
         (ho_last_cycle_ref ob = None \<longleftrightarrow> ho_last_cycle_at ob = None) \<and>
         (case ho_last_cycle_at ob of None \<Rightarrow> True | Some t \<Rightarrow> t \<le> ho_heartbeat_at ob)
      then Inr ob else Inl RtValueError)"

section \<open>Leases, cycles and stages\<close>

record lease_result =
  le_owned :: bool
  le_reclaimed :: bool
  le_fencing_token :: "int option"

definition RuntimeLeaseResult :: "lease_result \<Rightarrow> (runtime_error, lease_result) result" where
  "RuntimeLeaseResult r =
     (if (le_reclaimed r \<longrightarrow> le_owned r) \<and> (le_owned r \<longleftrightarrow> le_fencing_token r \<noteq> None) \<and>
         (case le_fencing_token r of None \<Rightarrow> True | Some t \<Rightarrow> 1 \<le> t)
      then Inr r else Inl RtValueError)"

record cycle_snapshot =
  cs_cycle_ref :: string
  cs_opportunity_key :: string
  cs_status :: cycle_status
  cs_next_stage :: "runtime_stage option"
  cs_spent_cost :: rat
  cs_started_at :: instant

definition RuntimeCycleSnapshot :: "cycle_snapshot \<Rightarrow> (runtime_error, cycle_snapshot) result" where
  "RuntimeCycleSnapshot raw =
     (let s = raw\<lparr> cs_cycle_ref := py_strip (cs_cycle_ref raw), cs_opportunity_key := py_strip (cs_opportunity_key raw) \<rparr> in
      if opaque_ref (cs_cycle_ref s) \<and> opaque_ref (cs_opportunity_key s) \<and> cost_in_range (cs_spent_cost s)
      then Inr s else Inl RtValueError)"

record stage_snapshot =
  ss_cycle_ref :: string
  ss_stage :: runtime_stage
  ss_status :: stage_status
  ss_attempt_count :: int
  ss_result_refs :: "string list"
  ss_retry_at :: "instant option"
  ss_replay_same_attempt :: bool

definition retry_shape :: "stage_status \<Rightarrow> instant option \<Rightarrow> bool \<Rightarrow> bool" where
  \<comment> \<open>only a waiting stage has a retry date, and only with one can it replay the same attempt\<close>
  "retry_shape status retry_at replay \<longleftrightarrow> (retry_at \<noteq> None \<longrightarrow> status = STAGE_WAITING) \<and>
     (replay \<longrightarrow> status = STAGE_WAITING \<and> retry_at \<noteq> None)"

definition RuntimeStageSnapshot :: "stage_snapshot \<Rightarrow> (runtime_error, stage_snapshot) result" where
  "RuntimeStageSnapshot raw =
     (let s = raw\<lparr> ss_cycle_ref := py_strip (ss_cycle_ref raw), ss_result_refs := map py_strip (ss_result_refs raw) \<rparr> in
      if opaque_ref (ss_cycle_ref s) \<and> 1 \<le> ss_attempt_count s \<and> list_all opaque_ref (ss_result_refs s) \<and>
         length (ss_result_refs s) \<le> 16 \<and> retry_shape (ss_status s) (ss_retry_at s) (ss_replay_same_attempt s)
      then Inr s else Inl RtValueError)"

definition nul :: char where "nul = char_of (0::nat)"

definition attempt_ref :: "stage_snapshot \<Rightarrow> string" where
  "attempt_ref s = sha256_hex (''acquisition-runtime-attempt-v1'' @ nul # ss_cycle_ref s @ nul #
     stage_value (ss_stage s) @ nul # int_str (ss_attempt_count s))"

section \<open>Proposals, reservations and results\<close>

record runtime_proposal =
  rp_plan_ref :: string
  rp_action_index :: int
  rp_command :: string
  rp_target_ref :: string
  rp_argument_fingerprint :: string
  rp_estimated_cost :: rat
  rp_reason_codes :: "string list"
  rp_evidence_refs :: "string list"

definition wf_proposal :: "runtime_proposal \<Rightarrow> bool" where
  "wf_proposal p \<longleftrightarrow> opaque_ref (rp_plan_ref p) \<and> 0 \<le> rp_action_index p \<and> rp_action_index p \<le> 9 \<and>
     runtime_command_name (rp_command p) \<and> opaque_ref (rp_target_ref p) \<and>
     is_fingerprint (rp_argument_fingerprint p) \<and> cost_in_range (rp_estimated_cost p) \<and>
     list_all machine_code (rp_reason_codes p) \<and> rp_reason_codes p \<noteq> [] \<and> length (rp_reason_codes p) \<le> 16 \<and>
     list_all opaque_ref (rp_evidence_refs p) \<and> length (rp_evidence_refs p) \<le> 16"

record stage_reservation =
  sr_accepted :: bool
  sr_created :: bool
  sr_reserved_cost :: rat
  sr_total_cycle_cost :: rat
  sr_proposal :: "runtime_proposal option"

definition RuntimeStageReservation :: "stage_reservation \<Rightarrow> (runtime_error, stage_reservation) result" where
  "RuntimeStageReservation r =
     (if cost_in_range (sr_reserved_cost r) \<and> cost_in_range (sr_total_cycle_cost r) \<and>
         (sr_created r \<longrightarrow> sr_accepted r) \<and>
         (case sr_proposal r of None \<Rightarrow> True
          | Some p \<Rightarrow> sr_accepted r \<and> rp_estimated_cost p = sr_reserved_cost r)
      then Inr r else Inl RtValueError)"

record action_result =
  ar_status :: stage_status
  ar_result_refs :: "string list"
  ar_reserved_cost :: rat
  ar_observed_cost :: rat
  ar_reason_codes :: "string list"
  ar_retry_at :: "instant option"
  ar_replay_same_attempt :: bool

definition wf_action_result :: "action_result \<Rightarrow> bool" where
  "wf_action_result r \<longleftrightarrow> ar_status r \<notin> {STAGE_PENDING, STAGE_RUNNING} \<and>
     list_all opaque_ref (ar_result_refs r) \<and> length (ar_result_refs r) \<le> 16 \<and>
     cost_in_range (ar_reserved_cost r) \<and> cost_in_range (ar_observed_cost r) \<and>
     list_all machine_code (ar_reason_codes r) \<and> length (ar_reason_codes r) \<le> 16 \<and>
     (ar_status r \<noteq> STAGE_SUCCEEDED \<longrightarrow> ar_reason_codes r \<noteq> []) \<and>
     retry_shape (ar_status r) (ar_retry_at r) (ar_replay_same_attempt r)"

definition stopped_with :: "stage_status \<Rightarrow> string \<Rightarrow> action_result" where
  \<comment> \<open>\<open>RuntimeActionResult(status=.., reason_codes=(code,))\<close> with every other field at its default\<close>
  "stopped_with status code = \<lparr> ar_status = status, ar_result_refs = [], ar_reserved_cost = 0,
     ar_observed_cost = 0, ar_reason_codes = [code], ar_retry_at = None, ar_replay_same_attempt = False \<rparr>"

record run_result =
  rr_status :: run_status
  rr_cycle_ref :: "string option"
  rr_stage :: "runtime_stage option"
  rr_reason_code :: "string option"

definition exit_code :: "run_result \<Rightarrow> int" where
  "exit_code r = (if rr_status r \<in> {RUN_ALREADY_RUNNING, RUN_COMPLETED, RUN_WAITING, RUN_SUPPRESSED} then 0 else 1)"

section \<open>Facts\<close>

lemma distinct_STAGES: "distinct STAGES" by (simp add: STAGES_def)

lemma set_STAGES [simp]: "set STAGES = UNIV"
proof -
  have "s \<in> set STAGES" for s by (cases s) (simp_all add: STAGES_def)
  then show ?thesis by blast
qed

lemma length_STAGES: "length STAGES = 11" by (simp add: STAGES_def)

lemma require_aware_Inr [simp]: "require_aware d = Inr t \<longleftrightarrow> is_aware d \<and> t = instant_of d"
  by (auto simp: require_aware_def)

end
