(* ===== verification/QaWindow.thy ===== *)
theory QaWindow
  imports SafetyController RuntimeContracts
begin

text \<open>
  \<open>operations/qa_policy_window.py\<close>: the operator's bounded QA window. \<open>open\<close> appends an ASSISTED control
  that expires within thirty minutes, \<open>close\<close> appends a SHADOW one; both run the same bounded loop of
  reads and a compare-and-set as the safety controller, under the same interference.

  The public data the controller consults is an argument: \<open>qr_selected\<close> is what
  \<open>select_production_opportunity_key\<close> answers (None when it raises) and \<open>qr_countries\<close> the distinct
  source countries of an opportunity (None when the query fails). An error carries its message.
\<close>

section \<open>Configuration\<close>

definition RUNTIME_COMMANDS :: "string list" where
  "RUNTIME_COMMANDS = [''resolve_signal_seed'', ''discover_suppliers'', ''find_decision_makers'',
     ''enrich_company'', ''evaluate_opportunity'', ''prepare_campaign'', ''assess_campaign_compliance'',
     ''schedule_campaign'', ''execute_provider_operations'', ''classify_response'', ''reconcile_conversion'']"

definition QA_WINDOW_OPENED :: string where "QA_WINDOW_OPENED = ''ACQUISITION_RUNTIME_QA_WINDOW_OPEN''"
definition QA_WINDOW_CLOSED :: string where "QA_WINDOW_CLOSED = ''ACQUISITION_RUNTIME_QA_WINDOW_CLOSED''"
definition MAXIMUM_QA_WINDOW :: int where "MAXIMUM_QA_WINDOW = 30 * 60 * 1000000"
definition MAXIMUM_QA_COST :: decimal where "MAXIMUM_QA_COST = Dec False 50 0"
definition QA_DAILY_VOLUME :: int where "QA_DAILY_VOLUME = 1"

record runtime_selection =
  sl_mode :: string
  sl_allowed_opportunity_keys :: "string list"
  sl_vertical :: "string option"
  sl_region :: "string option"

record runtime_config =
  rc_environment :: string
  rc_selection :: "runtime_selection option"
  rc_country :: string
  rc_language :: string
  rc_wedge :: string
  rc_vertical :: "string option"
  rc_region :: "string option"
  rc_maximum_cycle_cost :: decimal

record qa_reads =
  qr_selected :: "string option option"
  qr_countries :: "string \<Rightarrow> string list option"

record qa_authority =
  qa_opportunity_key :: string
  qa_signal_ref :: string
  qa_country :: string
  qa_language :: string
  qa_wedge :: string
  qa_cost_cap :: decimal

type_synonym qa_error = string

definition resolve_acquisition_environment :: "string option \<Rightarrow> string option" where
  \<comment> \<open>the raw environment variable; None is the ValueError. Upper-casing any other letter than an
    ASCII one leaves a value outside the three names.\<close>
  "resolve_acquisition_environment raw =
     (let v = (case raw of None \<Rightarrow> ''UNCONFIGURED'' | Some s \<Rightarrow> if s = [] then ''UNCONFIGURED'' else s);
          u = map (\<lambda>c. if is_lower c then char_of ((of_char c :: nat) - 32) else c) v
      in if u \<in> {''UNCONFIGURED'', ''STAGING'', ''PRODUCTION''} then Some u else None)"

definition require_staging :: "string option \<Rightarrow> (qa_error, unit) result" where
  "require_staging raw = (case resolve_acquisition_environment raw of
     None \<Rightarrow> Inl ''environment is invalid''
   | Some e \<Rightarrow> ensure (e = ''STAGING'') ''restricted to staging'')"

definition qa_instant :: "datetime \<Rightarrow> (qa_error, datetime) result" where
  "qa_instant d = (if is_aware d then Inr (to_utc d) else Inl ''timestamp is invalid'')"

definition qa_actor :: "string \<Rightarrow> (qa_error, string) result" where
  "qa_actor s = (if opaque_ref (py_strip s) then Inr (py_strip s) else Inl ''actor is invalid'')"

definition qa_reason :: "string \<Rightarrow> (qa_error, string) result" where
  "qa_reason s = (if machine_code s then Inr s else Inl ''reason is invalid'')"

section \<open>Authority\<close>

definition signal_prefix :: string where "signal_prefix = ''procurement-opportunity:''"

definition authority_for_key :: "runtime_config \<Rightarrow> string \<Rightarrow> (qa_error, qa_authority) result" where
  "authority_for_key cfg key =
     (if rc_environment cfg \<noteq> ''STAGING'' then Inl ''requires one exact opportunity''
      else Inr \<lparr> qa_opportunity_key = key, qa_signal_ref = signal_prefix @ key,
        qa_country = rc_country cfg, qa_language = rc_language cfg, qa_wedge = rc_wedge cfg,
        qa_cost_cap = (if dec_val MAXIMUM_QA_COST < dec_val (rc_maximum_cycle_cost cfg)
                       then MAXIMUM_QA_COST else rc_maximum_cycle_cost cfg) \<rparr>)"

definition open_authority :: "runtime_config \<Rightarrow> qa_reads \<Rightarrow> (qa_error, qa_authority) result" where
  "open_authority cfg reads =
     (case rc_selection cfg of
        None \<Rightarrow> Inl ''requires staging selection''
      | Some sel \<Rightarrow>
          if rc_environment cfg \<noteq> ''STAGING'' then Inl ''requires staging selection''
          else if sl_mode sel = ''fixed'' then
            (case sl_allowed_opportunity_keys sel of
               [key] \<Rightarrow> authority_for_key cfg key
             | _ \<Rightarrow> Inl ''requires one exact opportunity'')
          else if sl_vertical sel \<noteq> rc_vertical cfg \<or> sl_region sel \<noteq> rc_region cfg
          then Inl ''dynamic selection does not match its QA scope''
          else (case qr_selected reads of
                  None \<Rightarrow> Inl ''dynamic opportunity is unavailable''
                | Some None \<Rightarrow> Inl ''dynamic selection has no eligible opportunity''
                | Some (Some key) \<Rightarrow> authority_for_key cfg key))"

definition close_authority :: "runtime_config \<Rightarrow> policy_control \<Rightarrow> (qa_error, qa_authority) result" where
  "close_authority cfg current =
     (case rc_selection cfg of
        None \<Rightarrow> Inl ''requires staging selection''
      | Some sel \<Rightarrow>
          if rc_environment cfg \<noteq> ''STAGING'' then Inl ''requires staging selection''
          else if sl_mode sel = ''fixed'' then
            (case sl_allowed_opportunity_keys sel of
               [key] \<Rightarrow> authority_for_key cfg key
             | _ \<Rightarrow> Inl ''requires one exact opportunity'')
          else (case pc_qa_signal_ref current of
                  None \<Rightarrow> Inl ''dynamic authority has no exact opportunity''
                | Some ref \<Rightarrow>
                    if \<not> startswith ref signal_prefix \<or> drop (length signal_prefix) ref = []
                    then Inl ''dynamic authority has no exact opportunity''
                    else authority_for_key cfg (drop (length signal_prefix) ref)))"

definition verify_public_authority :: "qa_reads \<Rightarrow> qa_authority \<Rightarrow> (qa_error, unit) result" where
  "verify_public_authority reads a =
     (case qr_countries reads (qa_opportunity_key a) of
        None \<Rightarrow> Inl ''public opportunity is unavailable''
      | Some countries \<Rightarrow> ensure (countries = [qa_country a]) ''public opportunity does not match its exact scope'')"

definition same_qa_authority :: "policy_control \<Rightarrow> qa_authority \<Rightarrow> bool" where
  "same_qa_authority c a \<longleftrightarrow>
     pc_allowed_commands c = RUNTIME_COMMANDS \<and> pc_qa_signal_ref c = Some (qa_signal_ref a) \<and>
     pc_allowed_countries c = [qa_country a] \<and> pc_allowed_languages c = [qa_language a] \<and>
     pc_allowed_wedges c = [qa_wedge a] \<and> pc_currency c = ''CHF'' \<and>
     pc_daily_cost_cap c = dec_val (qa_cost_cap a) \<and> pc_daily_volume_cap c = QA_DAILY_VOLUME"

definition same_open_window ::
  "policy_control \<Rightarrow> qa_authority \<Rightarrow> datetime \<Rightarrow> datetime \<Rightarrow> string \<Rightarrow> string \<Rightarrow> bool" where
  "same_open_window c a at_time expires actor reason \<longleftrightarrow>
     pc_autonomy_mode c = ASSISTED \<and> pc_shadow_target_mode c = None \<and>
     \<not> pc_read_only c \<and> \<not> pc_kill_switch c \<and> same_qa_authority c a \<and>
     pc_effective_at c \<le> instant_of at_time \<and> pc_expires_at c = Some (instant_of expires) \<and>
     pc_created_by_actor_ref c = actor \<and> pc_reason_codes c = [QA_WINDOW_OPENED, reason]"

definition is_expected_expired_window :: "policy_control \<Rightarrow> qa_authority \<Rightarrow> datetime \<Rightarrow> bool" where
  "is_expected_expired_window c a at_time \<longleftrightarrow>
     pc_autonomy_mode c = ASSISTED \<and> pc_shadow_target_mode c = None \<and>
     \<not> pc_read_only c \<and> \<not> pc_kill_switch c \<and> same_qa_authority c a \<and>
     pc_effective_at c \<le> instant_of at_time \<and>
     (case pc_expires_at c of None \<Rightarrow> False | Some e \<Rightarrow> e \<le> instant_of at_time) \<and>
     pc_created_by_actor_type c = ''HUMAN'' \<and> length (pc_reason_codes c) = 2 \<and>
     hd (pc_reason_codes c) = QA_WINDOW_OPENED"

definition same_closed_window :: "policy_control \<Rightarrow> qa_authority \<Rightarrow> bool" where
  "same_closed_window c a \<longleftrightarrow>
     pc_autonomy_mode c = SHADOW \<and> pc_shadow_target_mode c = Some ASSISTED \<and>
     pc_read_only c \<and> \<not> pc_kill_switch c \<and> same_qa_authority c a \<and>
     pc_expires_at c = None \<and> pc_created_by_actor_type c = ''HUMAN'' \<and>
     QA_WINDOW_CLOSED \<in> set (pc_reason_codes c)"

definition recoverable_qa_stop :: "control_log \<Rightarrow> policy_control \<Rightarrow> qa_authority \<Rightarrow> bool" where
  "recoverable_qa_stop rows c a \<longleftrightarrow>
     pc_autonomy_mode c = SHADOW \<and> pc_shadow_target_mode c = Some ASSISTED \<and>
     pc_read_only c \<and> pc_kill_switch c \<and> pc_expires_at c = None \<and>
     pc_created_by_actor_type c = ''SYSTEM'' \<and> pc_created_by_actor_ref c = SAFETY_CONTROLLER_REF \<and>
     pc_reason_codes c \<in> {[''OPERATOR_QA_STOP''], [''AUDIT_80_PRE_QA_STOP'']} \<and>
     same_qa_authority c a \<and>
     (case get_previous_control rows (pc_control_revision c) of
        Inl _ \<Rightarrow> False
      | Inr previous \<Rightarrow> same_closed_window previous a)"

section \<open>The append\<close>

definition window_values ::
  "policy_control \<Rightarrow> policy_control \<Rightarrow> qa_authority \<Rightarrow> datetime \<Rightarrow> datetime option \<Rightarrow> string \<Rightarrow> string list \<Rightarrow>
   autonomy_mode \<Rightarrow> autonomy_mode option \<Rightarrow> bool \<Rightarrow> policy_control" where
  "window_values current head a at_time expires actor codes mode target read_only =
     (let revision = pc_control_revision head + 1;
          fp = canonical_fingerprint ''acquisition-runtime-qa-policy-window:v3'' (JObj
            [(''previous'', JStr (pc_policy_snapshot_id current)),
             (''durable_head'', JStr (pc_policy_snapshot_id head)),
             (''control_revision'', JInt revision),
             (''qa_signal_ref'', JStr (qa_signal_ref a)),
             (''autonomy_mode'', JStr (mode_value mode)),
             (''shadow_target_mode'', opt_str (map_option mode_value target)),
             (''read_only'', JBool read_only),
             (''allowed_commands'', str_list RUNTIME_COMMANDS),
             (''country'', JStr (qa_country a)), (''language'', JStr (qa_language a)),
             (''wedge'', JStr (qa_wedge a)), (''currency'', JStr ''CHF''),
             (''daily_cost_cap'', JStr (dec_str (qa_cost_cap a))),
             (''daily_volume_cap'', JInt QA_DAILY_VOLUME),
             (''effective_at'', JStr (isoformat at_time)),
             (''expires_at'', opt_str (map_option isoformat expires)),
             (''actor_ref'', JStr actor), (''reason_codes'', str_list codes)])
      in current\<lparr>
           pc_policy_snapshot_id := fp, pc_control_revision := revision,
           pc_autonomy_mode := mode, pc_shadow_target_mode := target,
           pc_read_only := read_only, pc_kill_switch := False,
           pc_qa_signal_ref := Some (qa_signal_ref a),
           pc_allowed_commands := RUNTIME_COMMANDS,
           pc_allowed_countries := [qa_country a], pc_allowed_languages := [qa_language a],
           pc_allowed_wedges := [qa_wedge a], pc_currency := ''CHF'',
           pc_daily_cost_cap := dec_val (qa_cost_cap a), pc_daily_volume_cap := QA_DAILY_VOLUME,
           pc_effective_at := instant_of at_time, pc_expires_at := map_option instant_of expires,
           pc_snapshot_fingerprint := fp, pc_created_at := instant_of at_time,
           pc_created_by_actor_type := ''HUMAN'', pc_created_by_actor_ref := actor,
           pc_reason_codes := codes \<rparr>)"

definition append_window ::
  "interference \<Rightarrow> control_log \<Rightarrow> policy_control \<Rightarrow> policy_control \<Rightarrow> (qa_error, policy_control option) result \<times> control_log" where
  "append_window i rows head window =
     (case PolicyControlSnapshot window of
        Inl _ \<Rightarrow> (Inl ''authority is invalid'', rows)
      | Inr replacement \<Rightarrow>
          (let read = before_maximum i rows in
           case append_control_if_latest read (before_insert i read) replacement
                  (Some (pc_control_revision head)) of
             (Inl e, rows') \<Rightarrow> (Inl ''authority is unavailable'', rows')
           | (Inr appended, rows') \<Rightarrow> (Inr (if appended then Some replacement else None), rows')))"

section \<open>Opening\<close>

fun open_attempts ::
  "interference list \<Rightarrow> qa_authority \<Rightarrow> datetime \<Rightarrow> datetime \<Rightarrow> string \<Rightarrow> string \<Rightarrow> control_log \<Rightarrow>
   (qa_error, policy_control) result \<times> control_log" where
  "open_attempts [] a at_time expires actor reason rows = (Inl ''authority changed concurrently'', rows)"
| "open_attempts (i # attempts) a at_time expires actor reason rows =
     (let seen = before_head i rows; table = before_current i seen in
      case get_latest_control seen of
        Inl e \<Rightarrow> (Inl ''authority is unavailable'', seen)
      | Inr head \<Rightarrow>
      (case get_effective_control table at_time of
        Inl e \<Rightarrow> (Inl ''authority is unavailable'', table)
      | Inr current \<Rightarrow>
        if pc_control_revision head < pc_control_revision current
        then open_attempts attempts a at_time expires actor reason table
        else if pc_control_revision current \<noteq> pc_control_revision head \<and>
          \<not> is_expected_expired_window head a at_time
        then (Inl ''durable head is unrelated'', table)
        else if pc_currency current \<noteq> ''CHF'' then (Inl ''requires CHF authority'', table)
        else if same_open_window current a at_time expires actor reason then (Inr current, table)
        else if pc_autonomy_mode current \<noteq> SHADOW \<or> \<not> pc_read_only current
        then (Inl ''cannot be opened'', table)
        else if pc_kill_switch current \<and> pc_created_by_actor_ref current = SAFETY_CONTROLLER_REF
        then (Inl ''critical stop must not be cleared'', table)
        else (case append_window i table head
                     (window_values current head a at_time (Some expires) actor
                        [QA_WINDOW_OPENED, reason] ASSISTED None False) of
                (Inl e, rows') \<Rightarrow> (Inl e, rows')
              | (Inr (Some replacement), rows') \<Rightarrow> (Inr replacement, rows')
              | (Inr None, rows') \<Rightarrow> open_attempts attempts a at_time expires actor reason rows')))"

definition open_request ::
  "string option \<Rightarrow> qa_reads \<Rightarrow> runtime_config \<Rightarrow> datetime \<Rightarrow> datetime \<Rightarrow> string \<Rightarrow> string \<Rightarrow>
   (qa_error, qa_authority \<times> datetime \<times> datetime \<times> string \<times> string) result" where
  \<comment> \<open>the checks before the loop\<close>
  "open_request environ reads cfg at_time expires_at actor_ref reason_code =
     rbind (require_staging environ) (\<lambda>_.
     rbind (qa_instant at_time) (\<lambda>at_utc.
     rbind (open_authority cfg reads) (\<lambda>a.
     rbind (verify_public_authority reads a) (\<lambda>_.
     rbind (qa_instant expires_at) (\<lambda>expires.
     rbind (qa_actor actor_ref) (\<lambda>actor.
     rbind (qa_reason reason_code) (\<lambda>reason.
     rbind (ensure (instant_of at_utc < instant_of expires \<and>
                    instant_of expires \<le> instant_of at_utc + MAXIMUM_QA_WINDOW) ''expiry is invalid'') (\<lambda>_.
     Inr (a, at_utc, expires, actor, reason)))))))))"

definition qa_open ::
  "string option \<Rightarrow> qa_reads \<Rightarrow> (nat \<Rightarrow> interference) \<Rightarrow> runtime_config \<Rightarrow> datetime \<Rightarrow> datetime \<Rightarrow> string \<Rightarrow> string \<Rightarrow>
   control_log \<Rightarrow> (qa_error, policy_control) result \<times> control_log" where
  "qa_open environ reads others cfg at_time expires_at actor_ref reason_code rows =
     (case open_request environ reads cfg at_time expires_at actor_ref reason_code of
        Inl e \<Rightarrow> (Inl e, rows)
      | Inr (a, at_utc, expires, actor, reason) \<Rightarrow>
          open_attempts (map others [0..<MAX_CONTROL_APPEND_ATTEMPTS]) a at_utc expires actor reason rows)"

section \<open>Closing\<close>

definition close_target ::
  "runtime_config \<Rightarrow> datetime \<Rightarrow> policy_control \<Rightarrow> policy_control \<Rightarrow> (qa_error, qa_authority \<times> policy_control) result" where
  \<comment> \<open>which control is closed, and the authority it must have\<close>
  "close_target cfg at_time head current =
     (if pc_control_revision current \<noteq> pc_control_revision head
      then rbind (close_authority cfg head) (\<lambda>a.
             if is_expected_expired_window head a at_time then Inr (a, head)
             else Inl ''durable head is not effective'')
      else rmap (\<lambda>a. (a, current)) (close_authority cfg current))"

fun close_attempts ::
  "interference list \<Rightarrow> runtime_config \<Rightarrow> datetime \<Rightarrow> string \<Rightarrow> string \<Rightarrow> control_log \<Rightarrow>
   (qa_error, policy_control) result \<times> control_log" where
  "close_attempts [] cfg at_time actor reason rows = (Inl ''authority changed concurrently'', rows)"
| "close_attempts (i # attempts) cfg at_time actor reason rows =
     (let seen = before_head i rows; table = before_current i seen in
      case get_latest_control seen of
        Inl e \<Rightarrow> (Inl ''authority is unavailable'', seen)
      | Inr head \<Rightarrow>
      (case get_effective_control table at_time of
        Inl e \<Rightarrow> (Inl ''authority is unavailable'', table)
      | Inr effective \<Rightarrow>
        if pc_control_revision head < pc_control_revision effective
        then close_attempts attempts cfg at_time actor reason table
        else (case close_target cfg at_time head effective of
          Inl e \<Rightarrow> (Inl e, table)
        | Inr (a, current) \<Rightarrow>
          if pc_currency current \<noteq> ''CHF'' then (Inl ''requires CHF authority'', table)
          else if same_closed_window current a then (Inr current, table)
          else if pc_autonomy_mode current = ASSISTED \<and>
            (\<not> same_qa_authority current a \<or> QA_WINDOW_OPENED \<notin> set (pc_reason_codes current))
          then (Inl ''authority is unrelated'', table)
          else let table' = (if pc_autonomy_mode current = ASSISTED then table else before_winner i table) in
            if pc_autonomy_mode current \<noteq> ASSISTED \<and> \<not> recoverable_qa_stop table' current a
            then (Inl ''authority is unsafe'', table')
            else (case append_window i table' head
                     (window_values current head a at_time None actor
                        [QA_WINDOW_CLOSED, reason] SHADOW (Some ASSISTED) True) of
                (Inl e, rows') \<Rightarrow> (Inl e, rows')
              | (Inr (Some replacement), rows') \<Rightarrow> (Inr replacement, rows')
              | (Inr None, rows') \<Rightarrow> close_attempts attempts cfg at_time actor reason rows'))))"

definition qa_close ::
  "string option \<Rightarrow> (nat \<Rightarrow> interference) \<Rightarrow> runtime_config \<Rightarrow> datetime \<Rightarrow> string \<Rightarrow> string \<Rightarrow>
   control_log \<Rightarrow> (qa_error, policy_control) result \<times> control_log" where
  "qa_close environ others cfg at_time actor_ref reason_code rows =
     (case rbind (require_staging environ) (\<lambda>_. rbind (qa_instant at_time) (\<lambda>at_utc.
           rbind (qa_actor actor_ref) (\<lambda>actor. rbind (qa_reason reason_code) (\<lambda>reason.
           Inr (at_utc, actor, reason))))) of
        Inl e \<Rightarrow> (Inl e, rows)
      | Inr (at_utc, actor, reason) \<Rightarrow>
          close_attempts (map others [0..<MAX_CONTROL_APPEND_ATTEMPTS]) cfg at_utc actor reason rows)"

section \<open>One append\<close>

definition rounded :: "policy_control \<Rightarrow> policy_control" where
  \<comment> \<open>the row a control is stored as\<close>
  "rounded c = c\<lparr> pc_daily_cost_cap := num_round 6 (pc_daily_cost_cap c) \<rparr>"

lemma rounded_simps [simp]:
  "pc_autonomy_mode (rounded c) = pc_autonomy_mode c" "pc_read_only (rounded c) = pc_read_only c"
  "pc_effective_at (rounded c) = pc_effective_at c" "pc_expires_at (rounded c) = pc_expires_at c"
  by (simp_all add: rounded_def)

lemma rounded_row: "control_values c = Some c \<Longrightarrow> rounded c = c"
  by (simp add: control_values_def rounded_def split: if_split_asm)

lemma prefix_full: "prefix xs ys \<Longrightarrow> length ys \<le> length xs \<Longrightarrow> xs = ys"
  by (auto simp: prefix_def)

lemma append_window_outcome:
  assumes "log_ok rows" and "rely_all i" and "log_ok seen" and "prefix seen rows"
    and "get_latest_control seen = Inr head" and "append_window i rows head window = (r, rows')"
  shows "log_ok rows' \<and> prefix rows rows' \<and> (\<forall>c. r = Inr (Some c) \<longrightarrow>
    c = strip_control window \<and> rows = seen \<and> rows' = rows @ [rounded c])"
proof (cases "PolicyControlSnapshot window")
  case (Inl e)
  then show ?thesis using assms(1,6) by (auto simp: append_window_def)
next
  case (Inr c)
  let ?read = "before_maximum i rows"
  let ?table = "before_insert i ?read"
  have read: "log_ok ?read" "prefix rows ?read"
    using rely_ok [OF _ assms(1), of "before_maximum i"] assms(2) by (simp_all add: rely_all_def)
  then have table: "log_ok ?table" "prefix ?read ?table"
    using rely_ok [of "before_insert i" ?read] assms(2) by (simp_all add: rely_all_def)
  note wf = snapshot_ok [OF Inr]
  obtain q where q: "append_control_if_latest ?read ?table c (Some (pc_control_revision head)) = (q, rows')"
    and r: "r = (case q of Inl e \<Rightarrow> Inl ''authority is unavailable'' | Inr b \<Rightarrow> Inr (if b then Some c else None))"
    using assms(6) Inr
    by (cases "append_control_if_latest ?read ?table c (Some (pc_control_revision head))")
       (auto simp: append_window_def Let_def split: sum.split_asm)
  note out = cas_outcome [OF table(1,2) _ q]
  show ?thesis
  proof (cases "q = Inr True")
    case False
    then have "rows' = ?table" "\<forall>c. r \<noteq> Inr (Some c)" using out wf r by (auto split: sum.split_asm)
    then show ?thesis using table read prefix_order.trans by blast
  next
    case True
    then have eq: "?read = ?table" "Some (pc_control_revision head) = max_revision ?table"
      and row: "\<exists>row. control_values c = Some row \<and> rows' = ?table @ [row]" "log_ok rows'"
      using out wf by auto
    have "length seen = length ?table"
      using eq(2) latest_ok [OF assms(3,5)] log_ok_max [OF table(1)] by (auto split: if_split_asm)
    moreover have "prefix seen rows" "prefix rows ?table" using assms(4) read eq(1) by auto
    ultimately have lens: "length rows \<le> length seen" "length ?table \<le> length rows"
      using prefix_length_le [of seen rows] prefix_length_le [of rows ?table] by linarith+
    have same: "rows = seen" "?table = rows"
      using prefix_full [OF assms(4) lens(1)] prefix_full [OF _ lens(2)] read(2) eq(1) by simp_all
    have "rows' = rows @ [rounded c]"
      using row(1) control_values_ok [of c] wf unfolding same(2) rounded_def by blast
    then show ?thesis using row(2) same(1) wf True r by simp
  qed
qed

lemma window_fields:
  fixes current head a d e actor codes mode target ro
  defines "c \<equiv> strip_control (window_values current head a d e actor codes mode target ro)"
  shows "pc_autonomy_mode c = mode" "pc_shadow_target_mode c = target" "pc_read_only c = ro"
    "\<not> pc_kill_switch c" "pc_expires_at c = map_option instant_of e" "pc_effective_at c = instant_of d"
    "pc_daily_cost_cap c = dec_val (qa_cost_cap a)" "pc_daily_volume_cap c = QA_DAILY_VOLUME"
    "pc_allowed_commands c = RUNTIME_COMMANDS" "pc_allowed_countries c = [py_strip (qa_country a)]"
    "pc_qa_signal_ref c = Some (py_strip (qa_signal_ref a))"
proof -
  have "map py_strip RUNTIME_COMMANDS = RUNTIME_COMMANDS" by code_simp
  then show "pc_autonomy_mode c = mode" "pc_shadow_target_mode c = target" "pc_read_only c = ro"
    "\<not> pc_kill_switch c" "pc_expires_at c = map_option instant_of e" "pc_effective_at c = instant_of d"
    "pc_daily_cost_cap c = dec_val (qa_cost_cap a)" "pc_daily_volume_cap c = QA_DAILY_VOLUME"
    "pc_allowed_commands c = RUNTIME_COMMANDS" "pc_allowed_countries c = [py_strip (qa_country a)]"
    "pc_qa_signal_ref c = Some (py_strip (qa_signal_ref a))"
    by (simp_all add: c_def strip_control_def window_values_def Let_def)
qed

lemma window_in_force:
  assumes "log_ok (rows @ [rounded c])" and "pc_effective_at c \<le> instant_of d"
    and "case pc_expires_at c of None \<Rightarrow> True | Some e \<Rightarrow> instant_of d < e" and "is_aware d"
  shows "get_effective_control (rows @ [rounded c]) d = Inr (rounded c)"
  using assms by (intro effective_top) (simp_all add: active_at_def)

section \<open>The opening loop\<close>

definition opens :: "control_log \<Rightarrow> control_log \<Rightarrow> qa_authority \<Rightarrow> datetime \<Rightarrow> datetime \<Rightarrow> string \<Rightarrow> string \<Rightarrow> policy_control \<Rightarrow> bool" where
  "opens rows rows' a d e actor reason c \<longleftrightarrow>
     (\<exists>seen prev. prefix rows seen \<and> get_effective_control seen d = Inr prev \<and>
        ((c = prev \<and> rows' = seen \<and> same_open_window c a d e actor reason) \<or>
         (rows' = seen @ [rounded c] \<and> pc_autonomy_mode prev = SHADOW \<and> pc_read_only prev \<and>
          \<not> (pc_kill_switch prev \<and> pc_created_by_actor_ref prev = SAFETY_CONTROLLER_REF) \<and>
          (\<exists>head. c = strip_control (window_values prev head a d (Some e) actor
                        [QA_WINDOW_OPENED, reason] ASSISTED None False)))))"

lemma opens_later: "prefix rows table \<Longrightarrow> opens table rows' a d e actor reason c \<Longrightarrow> opens rows rows' a d e actor reason c"
  unfolding opens_def using prefix_order.trans [of rows table] by blast

lemma open_attempts_ok:
  assumes "log_ok rows" and "\<forall>i \<in> set attempts. rely_all i"
    and "open_attempts attempts a d e actor reason rows = (r, rows')"
  shows "log_ok rows' \<and> prefix rows rows' \<and> (\<forall>c. r = Inr c \<longrightarrow> opens rows rows' a d e actor reason c)"
  using assms
proof (induction attempts arbitrary: rows)
  case (Cons i attempts)
  define seen where "seen = before_head i rows"
  define table where "table = before_current i seen"
  have rely: "rely_all i" "\<forall>j \<in> set attempts. rely_all j" using Cons.prems(2) by auto
  have seen: "log_ok seen" "prefix rows seen"
    using rely_ok [OF _ Cons.prems(1), of "before_head i"] rely(1) by (simp_all add: rely_all_def seen_def)
  then have table: "log_ok table" "prefix rows table" "prefix seen table"
    using rely_ok [of "before_current i" seen] rely(1) prefix_order.trans
    by (auto simp: rely_all_def table_def)
  note run = Cons.prems(3) [simplified, folded seen_def, unfolded Let_def, folded table_def]
  have step: ?case if "open_attempts attempts a d e actor reason next = (r, rows')" "log_ok next" "prefix rows next" for "next"
    using Cons.IH [OF that(2) rely(2) that(1)] that(3) opens_later prefix_order.trans by blast
  show ?case
  proof (cases "get_latest_control seen")
    case (Inl e) then show ?thesis using run seen by auto
  next
    case (Inr head)
    note head = Inr
    show ?thesis
    proof (cases "get_effective_control table d")
      case (Inl e) then show ?thesis using run head table by auto
    next
      case (Inr current)
      note current = Inr
      let ?w = "window_values current head a d (Some e) actor [QA_WINDOW_OPENED, reason] ASSISTED None False"
      have kept: "opens rows table a d e actor reason current" if "same_open_window current a d e actor reason"
        unfolding opens_def using that table(2) current by blast
      show ?thesis
      proof (cases "append_window i table head ?w")
        case (Pair q out)
        note ok = append_window_outcome [OF table(1) rely(1) seen(1) table(3) head Pair]
        have made: "opens rows out a d e actor reason c"
          if "q = Inr (Some c)" "pc_autonomy_mode current = SHADOW" "pc_read_only current"
            "\<not> (pc_kill_switch current \<and> pc_created_by_actor_ref current = SAFETY_CONTROLLER_REF)" for c
          unfolding opens_def using ok that table(2) current by blast
        have pre: "prefix rows out" using table(2) ok prefix_order.trans by blast
        show ?thesis
          using run head current Pair ok kept made pre table step
          by (auto split: if_split_asm sum.split_asm option.split_asm)
      qed
    qed
  qed
qed auto

section \<open>The closing loop\<close>

definition closes :: "control_log \<Rightarrow> control_log \<Rightarrow> runtime_config \<Rightarrow> datetime \<Rightarrow> string \<Rightarrow> string \<Rightarrow> policy_control \<Rightarrow> bool" where
  "closes rows rows' cfg d actor reason c \<longleftrightarrow>
     (\<exists>seen prev. prefix rows seen \<and> get_effective_control seen d = Inr prev \<and>
        ((c = prev \<and> rows' = seen \<and> (\<exists>a. same_closed_window c a)) \<or>
         (rows' = seen @ [rounded c] \<and>
          (\<exists>head a current. get_latest_control seen = Inr head \<and>
             close_target cfg d head prev = Inr (a, current) \<and>
             (pc_autonomy_mode current = ASSISTED \<or> recoverable_qa_stop seen current a) \<and>
             c = strip_control (window_values current head a d None actor
                   [QA_WINDOW_CLOSED, reason] SHADOW (Some ASSISTED) True)))))"

lemma closes_later: "prefix rows table \<Longrightarrow> closes table rows' cfg d actor reason c \<Longrightarrow> closes rows rows' cfg d actor reason c"
  unfolding closes_def using prefix_order.trans [of rows table] by blast

lemma close_target_closed:
  "close_target cfg d head prev = Inr (a, current) \<Longrightarrow> same_closed_window current a \<Longrightarrow> current = prev"
  by (auto simp: close_target_def is_expected_expired_window_def same_closed_window_def split: if_split_asm)

lemma close_attempts_ok:
  assumes "log_ok rows" and "\<forall>i \<in> set attempts. rely_all i"
    and "close_attempts attempts cfg d actor reason rows = (r, rows')"
  shows "log_ok rows' \<and> prefix rows rows' \<and> (\<forall>c. r = Inr c \<longrightarrow> closes rows rows' cfg d actor reason c)"
  using assms
proof (induction attempts arbitrary: rows)
  case (Cons i attempts)
  define seen where "seen = before_head i rows"
  define table where "table = before_current i seen"
  have rely: "rely_all i" "\<forall>j \<in> set attempts. rely_all j" using Cons.prems(2) by auto
  have seen: "log_ok seen" "prefix rows seen"
    using rely_ok [OF _ Cons.prems(1), of "before_head i"] rely(1) by (simp_all add: rely_all_def seen_def)
  then have table: "log_ok table" "prefix rows table" "prefix seen table"
    using rely_ok [of "before_current i" seen] rely(1) prefix_order.trans
    by (auto simp: rely_all_def table_def)
  note run = Cons.prems(3) [simplified, folded seen_def, unfolded Let_def, folded table_def]
  have step: ?case if "close_attempts attempts cfg d actor reason next = (r, rows')" "log_ok next" "prefix rows next" for "next"
    using Cons.IH [OF that(2) rely(2) that(1)] that(3) closes_later prefix_order.trans by blast
  show ?case
  proof (cases "get_latest_control seen")
    case (Inl e) then show ?thesis using run seen by auto
  next
    case (Inr head)
    note head = Inr
    show ?thesis
    proof (cases "get_effective_control table d")
      case (Inl e) then show ?thesis using run head table by auto
    next
      case (Inr prev)
      note prev = Inr
      show ?thesis
      proof (cases "close_target cfg d head prev")
        case (Inl e)
        then show ?thesis using run head prev table step by (auto split: if_split_asm)
      next
        case (Inr target)
        obtain a current where target: "close_target cfg d head prev = Inr (a, current)"
          using Inr by (cases target) auto
        let ?w = "window_values current head a d None actor [QA_WINDOW_CLOSED, reason] SHADOW (Some ASSISTED) True"
        define later where "later = (if pc_autonomy_mode current = ASSISTED then table else before_winner i table)"
        have later: "log_ok later" "prefix table later"
          using rely_ok [of "before_winner i" table] table(1) rely(1) by (auto simp: later_def rely_all_def)
        have pre: "prefix seen later" "prefix rows later" using later(2) table prefix_order.trans by blast+
        have kept: "closes rows table cfg d actor reason current" if "same_closed_window current a"
          unfolding closes_def using that close_target_closed [OF target that] table(2) prev by blast
        show ?thesis
        proof (cases "append_window i later head ?w")
          case (Pair q out)
          note ok = append_window_outcome [OF later(1) rely(1) seen(1) pre(1) head Pair]
          have made: "closes rows out cfg d actor reason c"
            if c: "q = Inr (Some c)" "pc_autonomy_mode current = ASSISTED \<or> recoverable_qa_stop later current a" for c
          proof -
            have same: "later = seen" "out = seen @ [rounded c]" "c = strip_control ?w"
              using ok c(1) by auto
            have "table = seen" using table(3) later(2) same(1) prefix_order.antisym by blast
            then show ?thesis
              unfolding closes_def using prev target head c(2) same seen(2) by blast
          qed
          have out: "prefix rows out" using pre(2) ok prefix_order.trans by blast
          show ?thesis
            using run head prev target Pair ok kept made out pre table step later
            by (auto simp: later_def split: if_split_asm sum.split_asm option.split_asm)
        qed
      qed
    qed
  qed
qed auto

section \<open>Properties of the window\<close>

lemma qa_open_opens:
  assumes "log_ok rows" and "\<And>n. rely_all (others n)"
    and "qa_open environ reads others cfg d e actor_ref reason_code rows = (Inr c, rows')"
  shows "\<exists>a at_utc expires actor reason.
    open_request environ reads cfg d e actor_ref reason_code = Inr (a, at_utc, expires, actor, reason) \<and>
    log_ok rows' \<and> prefix rows rows' \<and> opens rows rows' a at_utc expires actor reason c"
proof (cases "open_request environ reads cfg d e actor_ref reason_code")
  case (Inl err)
  then show ?thesis using assms(3) by (simp add: qa_open_def)
next
  case (Inr req)
  obtain a at_utc expires actor reason where req: "req = (a, at_utc, expires, actor, reason)"
    by (cases req) auto
  show ?thesis
    using open_attempts_ok [of rows "map others [0..<MAX_CONTROL_APPEND_ATTEMPTS]" a at_utc expires actor reason "Inr c" rows']
      assms Inr req by (auto simp: qa_open_def)
qed

lemma open_request_ok:
  assumes "open_request environ reads cfg d e actor_ref reason_code = Inr (a, at_utc, expires, actor, reason)"
  shows "rc_environment cfg = ''STAGING''" "at_utc = to_utc d" "expires = to_utc e"
    "instant_of at_utc < instant_of expires" "instant_of expires \<le> instant_of at_utc + MAXIMUM_QA_WINDOW"
    "dec_val (qa_cost_cap a) \<le> 50" "qr_countries reads (qa_opportunity_key a) = Some [qa_country a]"
    "resolve_acquisition_environment environ = Some ''STAGING''"
  using assms
  by (auto simp: open_request_def qa_instant_def open_authority_def authority_for_key_def require_staging_def
      verify_public_authority_def MAXIMUM_QA_COST_def dec_val_def
      split: if_split_asm option.split_asm list.split_asm)

text \<open>
  Opening the QA window grants a bounded authority and nothing more: only in staging, ASSISTED
  (so every commercial mutation still needs a human approval), for the runtime's commands on one
  public opportunity of one country, at most one send and a cost of at most 50, and for at most
  thirty minutes.
\<close>

theorem qa_window_bounded:
  assumes "log_ok rows" and "\<And>n. rely_all (others n)"
    and "qa_open environ reads others cfg d e actor_ref reason_code rows = (Inr c, rows')"
  shows "rc_environment cfg = ''STAGING'' \<and> pc_autonomy_mode c = ASSISTED \<and>
    pc_allowed_commands c = RUNTIME_COMMANDS \<and> length (pc_allowed_countries c) = 1 \<and>
    pc_qa_signal_ref c \<noteq> None \<and> pc_daily_volume_cap c = 1 \<and> pc_daily_cost_cap c \<le> 50 \<and>
    pc_expires_at c = Some (instant_of (to_utc e)) \<and>
    instant_of (to_utc d) < instant_of (to_utc e) \<and>
    instant_of (to_utc e) \<le> instant_of (to_utc d) + MAXIMUM_QA_WINDOW"
proof -
  obtain a at_utc expires actor reason where
    req: "open_request environ reads cfg d e actor_ref reason_code = Inr (a, at_utc, expires, actor, reason)"
    and opens: "opens rows rows' a at_utc expires actor reason c"
    using qa_open_opens [OF assms] by blast
  note r = open_request_ok [OF req]
  consider "same_open_window c a at_utc expires actor reason"
    | prev head where "c = strip_control (window_values prev head a at_utc (Some expires) actor
          [QA_WINDOW_OPENED, reason] ASSISTED None False)"
    using opens by (auto simp: opens_def)
  then show ?thesis
  proof cases
    case 1
    then show ?thesis using r by (auto simp: same_open_window_def same_qa_authority_def QA_DAILY_VOLUME_def)
  next
    case 2
    show ?thesis unfolding 2 window_fields using r by (auto simp: QA_DAILY_VOLUME_def)
  qed
qed

text \<open>
  Opening never clears a critical stop of the safety controller, whatever runs beside it: when a
  new window is appended, the log it was appended to held in force a read-only SHADOW control that was
  not such a stop, and no other row slipped in between; otherwise the log the call leaves is one other
  processes produced, and the window returned was already in force in it.
\<close>

theorem qa_open_keeps_critical_stop:
  assumes "log_ok rows" and "\<And>n. rely_all (others n)"
    and "qa_open environ reads others cfg d e actor_ref reason_code rows = (Inr c, rows')"
  shows "\<exists>seen prev. prefix rows seen \<and> get_effective_control seen (to_utc d) = Inr prev \<and>
    ((c = prev \<and> rows' = seen) \<or>
     (rows' = seen @ [rounded c] \<and> pc_autonomy_mode prev = SHADOW \<and> pc_read_only prev \<and>
      \<not> (is_exact_critical_stop prev \<and> pc_created_by_actor_ref prev = SAFETY_CONTROLLER_REF)))"
proof -
  obtain a at_utc expires actor reason where
    req: "open_request environ reads cfg d e actor_ref reason_code = Inr (a, at_utc, expires, actor, reason)"
    and opens: "opens rows rows' a at_utc expires actor reason c"
    using qa_open_opens [OF assms] by blast
  show ?thesis
    using opens unfolding opens_def open_request_ok(2) [OF req] is_exact_critical_stop_def by blast
qed

text \<open>
  Closing the window always leaves a read-only SHADOW control in force at the instant of the
  close, so no request executes then; and a critical stop at the durable head is only ever lifted when
  it is the operator's own recoverable QA stop over a window that was closed before it.
\<close>

theorem qa_close_restores_shadow:
  assumes "log_ok rows" and "\<And>n. rely_all (others n)"
    and "qa_close environ others cfg d actor_ref reason_code rows = (Inr c, rows')"
  shows "get_effective_control rows' (to_utc d) = Inr (rounded c) \<and> pc_autonomy_mode c = SHADOW \<and>
    pc_read_only c \<and>
    (\<forall>r usage s. gateway_snapshot rows' r (to_utc d) usage None = Inr s \<longrightarrow>
       \<not> pd_executable (evaluate_policy r s (instant_of (to_utc d)))) \<and>
    (\<exists>seen prev. prefix rows seen \<and> get_effective_control seen (to_utc d) = Inr prev \<and>
       (get_latest_control seen = Inr prev \<and> is_exact_critical_stop prev \<longrightarrow>
          (\<exists>a. recoverable_qa_stop seen prev a)))"
proof -
  obtain actor reason where run:
    "close_attempts (map others [0..<MAX_CONTROL_APPEND_ATTEMPTS]) cfg (to_utc d) actor reason rows = (Inr c, rows')"
    using assms(3)
    by (auto simp: qa_close_def qa_instant_def split: sum.split_asm prod.split_asm if_split_asm)
  have ok: "log_ok rows'" "closes rows rows' cfg (to_utc d) actor reason c"
    using close_attempts_ok [OF assms(1) _ run] assms(2) by auto
  obtain seen prev where seen: "prefix rows seen" "get_effective_control seen (to_utc d) = Inr prev"
    and cases: "(c = prev \<and> rows' = seen \<and> (\<exists>a. same_closed_window c a)) \<or>
         (rows' = seen @ [rounded c] \<and>
          (\<exists>head a current. get_latest_control seen = Inr head \<and>
             close_target cfg (to_utc d) head prev = Inr (a, current) \<and>
             (pc_autonomy_mode current = ASSISTED \<or> recoverable_qa_stop seen current a) \<and>
             c = strip_control (window_values current head a (to_utc d) None actor
                   [QA_WINDOW_CLOSED, reason] SHADOW (Some ASSISTED) True)))"
    using ok(2) unfolding closes_def by blast
  have force: "get_effective_control rows' (to_utc d) = Inr (rounded c) \<and> pc_autonomy_mode c = SHADOW \<and> pc_read_only c"
    using cases
  proof
    assume "c = prev \<and> rows' = seen \<and> (\<exists>a. same_closed_window c a)"
    then show ?thesis
      using seen(2) effective_ok [OF ok(1), of "to_utc d" c] by (auto simp: same_closed_window_def rounded_row)
  next
    assume new: "rows' = seen @ [rounded c] \<and> (\<exists>head a current. get_latest_control seen = Inr head \<and>
             close_target cfg (to_utc d) head prev = Inr (a, current) \<and>
             (pc_autonomy_mode current = ASSISTED \<or> recoverable_qa_stop seen current a) \<and>
             c = strip_control (window_values current head a (to_utc d) None actor
                   [QA_WINDOW_CLOSED, reason] SHADOW (Some ASSISTED) True))"
    then have fields: "pc_autonomy_mode c = SHADOW" "pc_read_only c" "pc_expires_at c = None"
      "pc_effective_at c = instant_of (to_utc d)"
      by (auto simp: window_fields)
    have "is_aware (to_utc d)" by simp
    then show ?thesis using window_in_force [of seen c "to_utc d"] fields new ok(1) by auto
  qed
  have "\<exists>a. recoverable_qa_stop seen prev a" if "get_latest_control seen = Inr prev" "is_exact_critical_stop prev"
    using cases that
    by (auto simp: same_closed_window_def close_target_def is_exact_critical_stop_def split: if_split_asm)
  moreover have "\<not> pd_executable (evaluate_policy r s (instant_of (to_utc d)))"
    if "gateway_snapshot rows' r (to_utc d) usage None = Inr s" for r usage s
    using that force
    by (auto simp: gateway_snapshot_def snapshot_of_def Let_def evaluate_status split: if_split_asm)
  ultimately show ?thesis using force seen by blast
qed

section \<open>Witnesses\<close>

definition sample_config :: runtime_config where
  "sample_config = \<lparr> rc_environment = ''STAGING'',
     rc_selection = Some \<lparr> sl_mode = ''fixed'', sl_allowed_opportunity_keys = [''opp-1''],
       sl_vertical = None, sl_region = None \<rparr>,
     rc_country = ''CH'', rc_language = ''fr'', rc_wedge = ''roofing'', rc_vertical = None,
     rc_region = None, rc_maximum_cycle_cost = Dec False 25 0 \<rparr>"

definition sample_reads :: qa_reads where
  "sample_reads = \<lparr> qr_selected = None, qr_countries = (\<lambda>k. Some [''CH'']) \<rparr>"

definition sample_clock_end :: datetime where
  "sample_clock_end = sample_clock\<lparr> dt_minute := 20 \<rparr>"

definition sample_window :: policy_control where
  "sample_window = (sample_control 3 (CHR ''c''))\<lparr>
     pc_allowed_commands := RUNTIME_COMMANDS, pc_qa_signal_ref := Some ''procurement-opportunity:opp-1'',
     pc_daily_volume_cap := 1, pc_expires_at := Some (instant_of sample_clock_end),
     pc_created_by_actor_ref := ''operator'', pc_reason_codes := [QA_WINDOW_OPENED, ''QA''] \<rparr>"

definition sample_opened :: control_log where "sample_opened = sample_log @ [sample_window]"

definition sample_closing :: policy_control where
  "sample_closing = sample_window\<lparr> pc_autonomy_mode := SHADOW, pc_shadow_target_mode := Some ASSISTED,
     pc_read_only := True, pc_expires_at := None, pc_reason_codes := [QA_WINDOW_CLOSED, ''QA''] \<rparr>"

definition sample_closed :: control_log where "sample_closed = sample_log @ [sample_closing]"

lemma sample_window_logs: "log_ok sample_opened" "log_ok sample_closed" by code_simp+

lemma sample_open_run:
  "qa_open (Some ''staging'') sample_reads alone sample_config sample_clock sample_clock_end ''operator'' ''QA''
     sample_opened = (Inr sample_window, sample_opened)"
  by code_simp

lemma sample_close_run:
  "qa_close (Some ''staging'') alone sample_config sample_clock ''operator'' ''QA''
     sample_closed = (Inr sample_closing, sample_closed)"
  by code_simp

theorem qa_window_bounded_witness: "pc_expires_at sample_window = Some (instant_of (to_utc sample_clock_end))"
  using qa_window_bounded [OF sample_window_logs(1) rely_alone sample_open_run] by blast

theorem qa_open_keeps_critical_stop_witness:
  "\<exists>seen prev. prefix sample_opened seen \<and> get_effective_control seen (to_utc sample_clock) = Inr prev"
  using qa_open_keeps_critical_stop [OF sample_window_logs(1) rely_alone sample_open_run] by blast

theorem qa_close_restores_shadow_witness:
  "get_effective_control sample_closed (to_utc sample_clock) = Inr (rounded sample_closing)"
  using qa_close_restores_shadow [OF sample_window_logs(2) rely_alone sample_close_run] by blast

end
