(* ===== verification/PolicyBootstrap.thy ===== *)
theory PolicyBootstrap
  imports QaWindow
begin

text \<open>
  \<open>operations/policy_bootstrap.py\<close>: the first control of an environment. It writes revision 1 through
  \<open>append_control\<close>, the one writer that does not compare-and-set. The reads and the insertion see the
  table as the interference leaves it; the steps of the control log it takes are those of
  \<open>control_step\<close>.
\<close>

datatype bootstrap_error =
    PolicyBootstrapError string
  | BootstrapPolicyError policy_error

definition SENDING_COMMANDS :: "string list" where
  "SENDING_COMMANDS = [''schedule_campaign'', ''execute_provider_operations'']"

definition BOOTSTRAP_ALLOWED_COMMANDS :: "string list" where
  "BOOTSTRAP_ALLOWED_COMMANDS = filter (\<lambda>c. c \<notin> set SENDING_COMMANDS) RUNTIME_COMMANDS"

record bootstrap_args =
  ba_at :: datetime
  ba_actor_ref :: string
  ba_reason_code :: string
  ba_daily_cost_cap :: decimal
  ba_country :: string
  ba_language :: string
  ba_wedge :: string

definition bootstrap_values :: "bootstrap_args \<Rightarrow> policy_control" where
  "bootstrap_values b =
     (let observed = to_utc (ba_at b);
          fp = canonical_fingerprint ''acquisition-policy-bootstrap:v1'' (JObj
            [(''control_revision'', JInt 1), (''autonomy_mode'', JStr (mode_value ASSISTED)),
             (''shadow_target_mode'', JNull), (''country'', JStr (ba_country b)),
             (''language'', JStr (ba_language b)), (''wedge'', JStr (ba_wedge b)),
             (''currency'', JStr ''CHF''), (''daily_cost_cap'', JStr (dec_str (ba_daily_cost_cap b))),
             (''effective_at'', JStr (isoformat observed)), (''actor_ref'', JStr (ba_actor_ref b)),
             (''reason_codes'', str_list [ba_reason_code b])])
      in \<lparr> pc_policy_snapshot_id = fp, pc_control_revision = 1, pc_policy_version = POLICY_VERSION,
           pc_autonomy_mode = ASSISTED, pc_shadow_target_mode = None, pc_read_only = False,
           pc_kill_switch = False, pc_qa_signal_ref = None,
           pc_allowed_commands = BOOTSTRAP_ALLOWED_COMMANDS, pc_allowed_countries = [ba_country b],
           pc_allowed_languages = [ba_language b], pc_allowed_wedges = [ba_wedge b],
           pc_currency = ''CHF'', pc_daily_cost_cap = dec_val (ba_daily_cost_cap b),
           pc_daily_volume_cap = 0, pc_effective_at = instant_of observed, pc_expires_at = None,
           pc_snapshot_fingerprint = fp, pc_created_at = instant_of observed,
           pc_created_by_actor_type = ''HUMAN'', pc_created_by_actor_ref = ba_actor_ref b,
           pc_reason_codes = [ba_reason_code b] \<rparr>)"

definition bootstrap_policy_control ::
  "interference \<Rightarrow> bootstrap_args \<Rightarrow> control_log \<Rightarrow> (bootstrap_error, policy_control) result \<times> control_log" where
  "bootstrap_policy_control i b rows =
     (if \<not> is_aware (ba_at b) then (Inl (PolicyBootstrapError ''TIMESTAMP_NOT_AWARE''), rows)
      else if ba_country b \<notin> {''CH'', ''FR''} \<or> ba_language b \<notin> {''fr'', ''en''} \<or> ba_wedge b = []
      then (Inl (PolicyBootstrapError ''SCOPE_INVALID''), rows)
      else if dec_val (ba_daily_cost_cap b) \<le> 0 then (Inl (PolicyBootstrapError ''COST_CAP_INVALID''), rows)
      else let seen = before_head i rows in
        case get_latest_control seen of
          Inr _ \<Rightarrow> (Inl (PolicyBootstrapError ''CONTROL_ALREADY_EXISTS''), seen)
        | Inl PolicyControlUnavailable \<Rightarrow>
            (case PolicyControlSnapshot (bootstrap_values b) of
               Inl _ \<Rightarrow> (Inl (PolicyBootstrapError ''CONTROL_INVALID''), seen)
             | Inr control \<Rightarrow>
                 (let read = before_maximum i seen in
                  case append_control read (before_insert i read) control of
                    (Inl e, rows') \<Rightarrow> (Inl (BootstrapPolicyError e), rows')
                  | (Inr _, rows') \<Rightarrow> (Inr control, rows')))
        | Inl e \<Rightarrow> (Inl (BootstrapPolicyError e), seen))"

section \<open>Outcome\<close>

lemma bootstrap_fields:
  fixes b defines "c \<equiv> strip_control (bootstrap_values b)"
  shows "pc_control_revision c = 1" "pc_autonomy_mode c = ASSISTED"
    "pc_allowed_commands c = BOOTSTRAP_ALLOWED_COMMANDS" "pc_daily_volume_cap c = 0"
    "pc_expires_at c = None" "pc_effective_at c = instant_of (to_utc (ba_at b))"
    "pc_policy_snapshot_id c = pc_snapshot_fingerprint c"
proof -
  have "map py_strip BOOTSTRAP_ALLOWED_COMMANDS = BOOTSTRAP_ALLOWED_COMMANDS" by code_simp
  then show "pc_control_revision c = 1" "pc_autonomy_mode c = ASSISTED"
    "pc_allowed_commands c = BOOTSTRAP_ALLOWED_COMMANDS" "pc_daily_volume_cap c = 0"
    "pc_expires_at c = None" "pc_effective_at c = instant_of (to_utc (ba_at b))"
    "pc_policy_snapshot_id c = pc_snapshot_fingerprint c"
    by (simp_all add: c_def strip_control_def bootstrap_values_def Let_def)
qed

lemma bootstrap_run:
  assumes "log_ok rows" and "rely_all i" and "bootstrap_policy_control i b rows = (r, rows')"
  shows "log_ok rows' \<and> prefix rows rows' \<and>
    (\<forall>c. r = Inr c \<longrightarrow> c = strip_control (bootstrap_values b) \<and> rows = [] \<and> rows' = [rounded c])"
proof -
  define seen where "seen = before_head i rows"
  define read where "read = before_maximum i seen"
  define table where "table = before_insert i read"
  have seen: "log_ok seen" "prefix rows seen"
    using rely_ok [OF _ assms(1), of "before_head i"] assms(2) by (simp_all add: rely_all_def seen_def)
  then have read: "log_ok read" "prefix seen read"
    using rely_ok [of "before_maximum i" seen] assms(2) by (simp_all add: rely_all_def read_def)
  then have table: "log_ok table" "prefix read table"
    using rely_ok [of "before_insert i" read] assms(2) by (simp_all add: rely_all_def table_def)
  have pre: "prefix rows table" using seen read table prefix_order.trans by blast
  note run = assms(3) [unfolded bootstrap_policy_control_def Let_def, folded seen_def, folded read_def, folded table_def]
  have made: "out = table \<or> (table = [] \<and> out = [rounded c] \<and> log_ok out)" "q = Inr () \<longrightarrow> out \<noteq> table"
    if c: "PolicyControlSnapshot (bootstrap_values b) = Inr c" and q: "append_control read table c = (q, out)"
    for c q out
  proof -
    note wf = snapshot_ok [OF c]
    have rev: "pc_control_revision c = 1" using wf bootstrap_fields(1) by simp
    show "q = Inr () \<longrightarrow> out \<noteq> table"
      using q by (auto simp: append_control_def Let_def split: if_split_asm option.split_asm)
    show "out = table \<or> (table = [] \<and> out = [rounded c] \<and> log_ok out)"
      using bootstrap_outcome [OF table _ rev q] wf q control_values_ok [of c]
      by (auto simp: append_control_def Let_def rounded_def split: if_split_asm option.split_asm)
  qed
  show ?thesis
  proof (cases "\<exists>c. PolicyControlSnapshot (bootstrap_values b) = Inr c \<and>
      (r, rows') = (case append_control read table c of
         (Inl e, out) \<Rightarrow> (Inl (BootstrapPolicyError e), out) | (Inr _, out) \<Rightarrow> (Inr c, out))")
    case True
    then obtain c where c: "PolicyControlSnapshot (bootstrap_values b) = Inr c"
      and run: "(r, rows') = (case append_control read table c of
         (Inl e, out) \<Rightarrow> (Inl (BootstrapPolicyError e), out) | (Inr _, out) \<Rightarrow> (Inr c, out))"
      by blast
    obtain q out where q: "append_control read table c = (q, out)" by (rule prod.exhaust)
    have r: "rows' = out" "r = (case q of Inl e \<Rightarrow> Inl (BootstrapPolicyError e) | Inr _ \<Rightarrow> Inr c)"
      using run unfolding q by (simp_all split: sum.split_asm)
    show ?thesis
      using made [OF c q] r snapshot_ok [OF c] table(1) pre by (auto split: sum.split_asm)
  next
    case False
    then show ?thesis
      using run assms(1) seen by (auto split: if_split_asm sum.split_asm policy_error.split_asm)
  qed
qed

lemma rounded_grants_ok:
  "pc_allowed_commands (rounded c) = pc_allowed_commands c" "pc_daily_volume_cap (rounded c) = pc_daily_volume_cap c"
  by (simp_all add: rounded_def)

text \<open>
  Bootstrap happens at most once and sends nothing: it succeeds only on an empty log, leaves
  exactly its control there, in force from then on; and under that control neither of the two sending
  commands executes for any request, while any other commercial mutation that executes carries a
  matching human approval.
\<close>

theorem bootstrap_authority:
  assumes "log_ok rows" and "rely_all i" and "bootstrap_policy_control i b rows = (Inr c, rows')"
    and "is_aware t" and "instant_of (to_utc (ba_at b)) \<le> instant_of t"
    and "gateway_snapshot rows' r t usage None = Inr s"
    and "pd_executable (evaluate_policy r s (instant_of t))"
  shows "rows = [] \<and> rows' = [rounded c] \<and> rq_command r \<notin> set SENDING_COMMANDS \<and>
    (\<forall>q. command_policy_of (rq_command r) = Some q \<and> cp_risk_class q = COMMERCIAL_MUTATION \<longrightarrow>
       (\<exists>g \<in> set (rq_approval_grants r). grant_matches g ACTION r s (instant_of t)))"
proof -
  have ok: "log_ok rows'" "c = strip_control (bootstrap_values b)" "rows = []" "rows' = [rounded c]"
    using bootstrap_run [OF assms(1-3)] by auto
  note f = bootstrap_fields [of b, folded ok(2)]
  have "get_effective_control rows' t = Inr (rounded c)"
    using window_in_force [of "[]" c t] ok(1,4) f assms(4,5) by simp
  then have s: "s = snapshot_of (rounded c) r t usage"
    using assms(6) by (auto simp: gateway_snapshot_def split: if_split_asm)
  have mode: "ps_autonomy_mode s = ASSISTED" "effective_mode s = Some ASSISTED"
    "ps_allowed_commands s = BOOTSTRAP_ALLOWED_COMMANDS"
    using f by (simp_all add: s snapshot_of_def Let_def effective_mode_def rounded_grants_ok)
  obtain q where q: "command_policy_of (rq_command r) = Some q" "in_scope q r s" "action_approved q r s (instant_of t)"
    using assms(7) by (auto simp: evaluate_status policy_outcome_approved permitted_def split: option.split_asm)
  have "rq_command r \<notin> set SENDING_COMMANDS"
    using q(2) mode(3) by (simp add: in_scope_def BOOTSTRAP_ALLOWED_COMMANDS_def)
  moreover have "cp_risk_class q = COMMERCIAL_MUTATION \<longrightarrow>
      (\<exists>g \<in> set (rq_approval_grants r). grant_matches g ACTION r s (instant_of t))"
    using q(3) mode(2) by (auto simp: action_approved_def list_ex_iff)
  ultimately show ?thesis using ok q(1) by auto
qed

section \<open>Witness\<close>

definition sample_boot :: bootstrap_args where
  "sample_boot = \<lparr> ba_at = sample_clock, ba_actor_ref = ''operator'', ba_reason_code = ''BOOT'',
     ba_daily_cost_cap = Dec False 25 0, ba_country = ''CH'', ba_language = ''fr'', ba_wedge = ''roofing'' \<rparr>"

definition sample_boot_row :: "string \<Rightarrow> policy_control" where
  "sample_boot_row fp = (sample_control 1 (CHR ''a''))\<lparr> pc_policy_snapshot_id := fp,
     pc_allowed_commands := BOOTSTRAP_ALLOWED_COMMANDS,
     pc_effective_at := instant_of (to_utc sample_clock), pc_snapshot_fingerprint := fp,
     pc_created_at := instant_of (to_utc sample_clock) \<rparr>"

lemma sample_boot_row_ok:
  assumes "is_fingerprint fp" and "py_strip fp = fp" and "no_nul_text fp"
  shows "wf_control (sample_boot_row fp) \<and> control_values (sample_boot_row fp) = Some (sample_boot_row fp)"
proof -
  have zero: "wf_control (sample_boot_row (replicate 64 (CHR ''0'')))"
    "control_values (sample_boot_row (replicate 64 (CHR ''0''))) = Some (sample_boot_row (replicate 64 (CHR ''0'')))"
    by code_simp+
  have len: "length fp = 64" using assms(1) by (simp add: is_fingerprint_def)
  have exp: "pc_expires_at (sample_control 1 (CHR ''a'')) = None" by (simp add: sample_control_def)
  have "wf_control (sample_boot_row fp)"
    using zero(1) assms len exp by (simp add: wf_control_def sample_boot_row_def clean_str_def)
  moreover have "control_columns_ok (sample_boot_row fp)"
    using zero(2) assms len
    by (simp add: control_values_def control_columns_ok_def sample_boot_row_def split: if_split_asm)
  moreover have "num_round 6 (pc_daily_cost_cap (sample_boot_row fp)) = pc_daily_cost_cap (sample_boot_row fp)"
    using num_round_of_int [of 6 25] by (simp add: sample_boot_row_def sample_control_def)
  ultimately show ?thesis by (simp add: control_values_def)
qed

lemma sample_boot_values: "\<exists>fp. bootstrap_values sample_boot = sample_boot_row (sha256_hex fp)"
proof -
  have "dec_val (Dec False 25 0) = 25" by (simp add: dec_val_def)
  then show ?thesis
    by (auto simp: bootstrap_values_def Let_def sample_boot_def sample_boot_row_def sample_control_def
        canonical_fingerprint_def)
qed

lemma sample_boot_run:
  "\<exists>c. bootstrap_policy_control (alone 0) sample_boot [] = (Inr c, [c]) \<and> (\<exists>fp. c = sample_boot_row fp) \<and>
     log_ok [c]"
proof -
  obtain fp where fp: "bootstrap_values sample_boot = sample_boot_row (sha256_hex fp)"
    using sample_boot_values by blast
  define c where "c = sample_boot_row (sha256_hex fp)"
  have ok: "wf_control c" "control_values c = Some c"
    unfolding c_def using sample_boot_row_ok fingerprint_strip fingerprint_columns(2) is_fingerprint_sha256 by blast+
  have val: "PolicyControlSnapshot (bootstrap_values sample_boot) = Inr c"
    using ok(1) by (simp add: fp c_def [symmetric] PolicyControlSnapshot_def strip_control_id Let_def)
  have guards: "is_aware (ba_at sample_boot)" "0 < dec_val (ba_daily_cost_cap sample_boot)"
    by (simp_all add: sample_boot_def sample_clock_facts dec_val_def)
  have "bootstrap_policy_control (alone 0) sample_boot [] = (Inr c, [c])"
    using val ok(2) guards
    by (simp add: bootstrap_policy_control_def sample_boot_def get_latest_control_def
        row_or_unavailable_def append_control_def Let_def conflicts_def)
  moreover have "log_ok [c]"
    using ok by (simp add: log_ok_def control_row_ok_def c_def sample_boot_row_def sample_control_def)
  ultimately show ?thesis using c_def by blast
qed

definition sample_seed_request :: policy_request where
  "sample_seed_request = sample_request\<lparr> rq_command := ''resolve_signal_seed'',
     rq_acquisition_opportunity_id := None, rq_approval_grants := [],
     rq_scope := \<lparr> sc_country = Some ''CH'', sc_language = None, sc_wedge = None \<rparr> \<rparr>"

lemma sample_seed_executes:
  "pd_executable (evaluate_policy sample_seed_request
     (snapshot_of (sample_boot_row fp) sample_seed_request sample_clock \<lparr> bu_cost_used = 0, bu_volume_used = 0 \<rparr>)
     (instant_of sample_clock))"
proof -
  have cmd: "command_policy_of ''resolve_signal_seed'' = Some (plain_policy READ_ONLY EITHER [])" by code_simp
  have "''resolve_signal_seed'' \<in> set BOOTSTRAP_ALLOWED_COMMANDS" by code_simp
  moreover have "ps_policy_version (snapshot_of (sample_boot_row fp) r t u) = POLICY_VERSION" for r t u
    by (simp add: snapshot_of_def Let_def sample_boot_row_def sample_control_def)
  ultimately show ?thesis
    by (simp add: evaluate_status policy_outcome_approved permitted_def sample_seed_request_def cmd
        plain_policy_def not_stopped_def in_scope_def compliant_def evidenced_def within_budget_def
        operational_def action_approved_def uses_operational_def snapshot_of_def Let_def
        sample_boot_row_def sample_control_def sample_request_def
        outside_def)
qed

theorem bootstrap_authority_witness:
  "\<exists>c rows'. bootstrap_policy_control (alone 0) sample_boot [] = (Inr c, rows') \<and> rows' = [rounded c]"
proof -
  obtain c fp where run: "bootstrap_policy_control (alone 0) sample_boot [] = (Inr c, [c])"
    and c: "c = sample_boot_row fp" "log_ok [c]"
    using sample_boot_run by blast
  let ?u = "\<lparr> bu_cost_used = 0, bu_volume_used = 0 \<rparr>"
  have eff: "pc_effective_at c \<le> instant_of sample_clock" "pc_expires_at c = None"
    "instant_of (to_utc (ba_at sample_boot)) \<le> instant_of sample_clock"
    using instant_of_to_utc [of sample_clock]
    by (simp_all add: c(1) sample_boot_row_def sample_control_def sample_boot_def) (code_simp)+
  have "get_effective_control ([] @ [c]) sample_clock = Inr c"
    using effective_top [of "[]" c sample_clock] c(2) eff sample_clock_facts by (simp add: active_at_def)
  then have snap: "gateway_snapshot [c] sample_seed_request sample_clock ?u None =
      Inr (snapshot_of c sample_seed_request sample_clock ?u)"
    by (simp add: gateway_snapshot_def sample_clock_facts BudgetUsage_ok_def)
  show ?thesis
    using bootstrap_authority [OF log_ok_Nil rely_alone run sample_clock_facts(1) eff(3) snap]
      sample_seed_executes [of fp] run unfolding c(1) by blast
qed

end
