(* ===== verification/OpsContracts.thy ===== *)
theory OpsContracts
  imports SafetyController
begin

text \<open>
  \<open>operations/contracts.py\<close>: the scopes, incidents, dead letters and the retry policy of the
  operations component, as validated records.

  A validated record is its own constructor's result: text is stripped and bounded, references are
  opaque (\<open>_internal_ref\<close>), codes follow their pattern and timestamps are aware and in UTC.
\<close>

section \<open>Enumerations\<close>

datatype scope_type = GLOBAL_SCOPE | COUNTRY_SCOPE | WEDGE_SCOPE | CAMPAIGN_SCOPE | MAILBOX_SCOPE

datatype incident_type =
    BOUNCE_RATE | COMPLAINT | COMPLIANCE_FAILURE | PROVIDER_FAILURE | UNEXPECTED_TRANSPORT_TRUTH
  | BUDGET_BREACH | COST_DRIFT | CONVERSION_DEGRADATION | RETENTION_DEGRADATION | MAILBOX_UNAVAILABLE

datatype incident_severity = WARNING | HIGH | CRITICAL

datatype incident_state = INCIDENT_OPEN | ACKNOWLEDGED | INCIDENT_RESOLVED

datatype dead_letter_status = LETTER_OPEN | REQUEUED | LETTER_RESOLVED

datatype work_type =
    SUPERVISOR_CYCLE | SUPPLIER_DISCOVERY | CONTACT_DISCOVERY | COMPANY_RESEARCH
  | CAMPAIGN_PROVIDER_OPERATION | RESPONSE_RESOLUTION | CONVERSION_RECONCILIATION | LEARNING_CYCLE

datatype retry_disposition = RETRY | DLQ | RECONCILE_FIRST

fun scope_type_value :: "scope_type \<Rightarrow> string" where
  "scope_type_value GLOBAL_SCOPE = ''GLOBAL''"
| "scope_type_value COUNTRY_SCOPE = ''COUNTRY''"
| "scope_type_value WEDGE_SCOPE = ''WEDGE''"
| "scope_type_value CAMPAIGN_SCOPE = ''CAMPAIGN''"
| "scope_type_value MAILBOX_SCOPE = ''MAILBOX''"

fun incident_type_value :: "incident_type \<Rightarrow> string" where
  "incident_type_value BOUNCE_RATE = ''BOUNCE_RATE''"
| "incident_type_value COMPLAINT = ''COMPLAINT''"
| "incident_type_value COMPLIANCE_FAILURE = ''COMPLIANCE_FAILURE''"
| "incident_type_value PROVIDER_FAILURE = ''PROVIDER_FAILURE''"
| "incident_type_value UNEXPECTED_TRANSPORT_TRUTH = ''UNEXPECTED_TRANSPORT_TRUTH''"
| "incident_type_value BUDGET_BREACH = ''BUDGET_BREACH''"
| "incident_type_value COST_DRIFT = ''COST_DRIFT''"
| "incident_type_value CONVERSION_DEGRADATION = ''CONVERSION_DEGRADATION''"
| "incident_type_value RETENTION_DEGRADATION = ''RETENTION_DEGRADATION''"
| "incident_type_value MAILBOX_UNAVAILABLE = ''MAILBOX_UNAVAILABLE''"

fun work_type_value :: "work_type \<Rightarrow> string" where
  "work_type_value SUPERVISOR_CYCLE = ''SUPERVISOR_CYCLE''"
| "work_type_value SUPPLIER_DISCOVERY = ''SUPPLIER_DISCOVERY''"
| "work_type_value CONTACT_DISCOVERY = ''CONTACT_DISCOVERY''"
| "work_type_value COMPANY_RESEARCH = ''COMPANY_RESEARCH''"
| "work_type_value CAMPAIGN_PROVIDER_OPERATION = ''CAMPAIGN_PROVIDER_OPERATION''"
| "work_type_value RESPONSE_RESOLUTION = ''RESPONSE_RESOLUTION''"
| "work_type_value CONVERSION_RECONCILIATION = ''CONVERSION_RECONCILIATION''"
| "work_type_value LEARNING_CYCLE = ''LEARNING_CYCLE''"

datatype ops_error =
    OpsValueError \<comment> \<open>\<open>ValueError\<close> and pydantic's \<open>ValidationError\<close>\<close>
  | OperationsConflict
  | OpsKeyError
  | OpsDatabaseError \<comment> \<open>\<open>IntegrityError\<close> and \<open>DataError\<close> of the database\<close>

section \<open>Text\<close>

fun py_contains :: "string \<Rightarrow> string \<Rightarrow> bool" where
  \<comment> \<open>\<open>p in s\<close>\<close>
  "py_contains [] p \<longleftrightarrow> p = []"
| "py_contains (c # cs) p \<longleftrightarrow> startswith (c # cs) p \<or> py_contains cs p"

definition internal_ref :: "string \<Rightarrow> bool" where
  "internal_ref s \<longleftrightarrow> CHR ''@'' \<notin> set s \<and> \<not> py_contains s ''://'' \<and> \<not> list_ex is_space s"

definition safe_ref :: "string \<Rightarrow> bool" where
  "safe_ref s \<longleftrightarrow> clean_str 256 s \<and> internal_ref s"

definition safe_ref_opt :: "string option \<Rightarrow> bool" where
  "safe_ref_opt so \<longleftrightarrow> (case so of None \<Rightarrow> True | Some s \<Rightarrow> safe_ref s)"

definition code_char :: "char \<Rightarrow> bool" where
  "code_char c \<longleftrightarrow> is_upper c \<or> is_digit c"

definition safe_code :: "string \<Rightarrow> bool" where
  \<comment> \<open>the pattern \<open>^[A-Z0-9][A-Z0-9_:-]{0,99}$\<close>\<close>
  "safe_code s \<longleftrightarrow> s \<noteq> [] \<and> length s \<le> 100 \<and> code_char (hd s) \<and>
     list_all (\<lambda>c. code_char c \<or> c = CHR ''_'' \<or> c = CHR '':'' \<or> c = CHR ''-'') (tl s)"

definition component_name :: "string \<Rightarrow> bool" where
  \<comment> \<open>the pattern \<open>^[a-z][a-z0-9_-]{0,63}$\<close>\<close>
  "component_name s \<longleftrightarrow> s \<noteq> [] \<and> length s \<le> 64 \<and> is_lower (hd s) \<and>
     list_all (\<lambda>c. is_lower c \<or> is_digit c \<or> c = CHR ''_'' \<or> c = CHR ''-'') (tl s)"

section \<open>Scopes and incidents\<close>

definition BREAKER_VERSION :: string where "BREAKER_VERSION = ''acquisition-circuit-breaker-v1''"

record breaker_scope =
  bs_scope_type :: scope_type
  bs_scope_ref :: string

definition BreakerScope :: "breaker_scope \<Rightarrow> (ops_error, breaker_scope) result" where
  "BreakerScope s =
     (let s' = s\<lparr> bs_scope_ref := py_strip (bs_scope_ref s) \<rparr> in
      if safe_ref (bs_scope_ref s') then Inr s' else Inl OpsValueError)"

record incident_trigger =
  it_incident_type :: incident_type
  it_severity :: incident_severity
  it_scope :: breaker_scope
  it_source_state_ref :: string
  it_triggered_at :: datetime
  it_reason_codes :: "string list"
  it_observed_value :: "rat option"
  it_threshold_value :: "rat option"
  it_metric_version :: "string option"
  it_campaign_ref :: "string option"
  it_mailbox_ref :: "string option"
  it_wedge :: "string option"
  it_country :: "string option"
  it_human_review_required :: bool
  it_pause_required :: bool
  it_policy_control_before :: "string option"
  it_policy_control_after :: "string option"

definition strip_trigger :: "incident_trigger \<Rightarrow> incident_trigger" where
  "strip_trigger t = t\<lparr>
     it_source_state_ref := py_strip (it_source_state_ref t),
     it_triggered_at := to_utc (it_triggered_at t),
     it_reason_codes := map py_strip (it_reason_codes t),
     it_metric_version := map_option py_strip (it_metric_version t),
     it_campaign_ref := map_option py_strip (it_campaign_ref t),
     it_mailbox_ref := map_option py_strip (it_mailbox_ref t),
     it_wedge := map_option py_strip (it_wedge t),
     it_country := map_option py_strip (it_country t),
     it_policy_control_before := map_option py_strip (it_policy_control_before t),
     it_policy_control_after := map_option py_strip (it_policy_control_after t) \<rparr>"

definition wf_trigger :: "incident_trigger \<Rightarrow> bool" where
  "wf_trigger t \<longleftrightarrow>
     safe_ref (bs_scope_ref (it_scope t)) \<and> safe_ref (it_source_state_ref t) \<and>
     is_aware (it_triggered_at t) \<and>
     1 \<le> length (it_reason_codes t) \<and> length (it_reason_codes t) \<le> 16 \<and>
     list_all safe_code (it_reason_codes t) \<and>
     clean_opt 256 (it_metric_version t) \<and>
     safe_ref_opt (it_campaign_ref t) \<and> safe_ref_opt (it_mailbox_ref t) \<and> safe_ref_opt (it_wedge t) \<and>
     it_country t \<in> {None, Some ''CH'', Some ''FR''} \<and>
     clean_opt 256 (it_policy_control_before t) \<and> clean_opt 256 (it_policy_control_after t)"

definition IncidentTrigger :: "incident_trigger \<Rightarrow> (ops_error, incident_trigger) result" where
  "IncidentTrigger t =
     (let t' = strip_trigger t in
      if is_aware (it_triggered_at t) \<and> wf_trigger t' then Inr t' else Inl OpsValueError)"

definition scope_json :: "breaker_scope \<Rightarrow> json" where
  "scope_json s = JObj [(''scope_type'', JStr (scope_type_value (bs_scope_type s))),
     (''scope_ref'', JStr (bs_scope_ref s))]"

definition trigger_fingerprint :: "incident_trigger \<Rightarrow> string" where
  "trigger_fingerprint t = canonical_fingerprint ''acquisition-operational-incident:v1'' (JObj
     [(''version'', JStr BREAKER_VERSION),
      (''type'', JStr (incident_type_value (it_incident_type t))),
      (''scope'', scope_json (it_scope t)),
      (''source_state_ref'', JStr (it_source_state_ref t)),
      (''metric_version'', opt_str (it_metric_version t))])"

definition incident_ref_of :: "string \<Rightarrow> string" where
  "incident_ref_of fp = canonical_fingerprint ''acquisition-operational-incident-ref:v1'' (JStr fp)"

definition incident_ref :: "incident_trigger \<Rightarrow> string" where
  "incident_ref t = incident_ref_of (trigger_fingerprint t)"

section \<open>Dead letters\<close>

record dead_letter_exhaustion =
  de_work_type :: work_type
  de_work_ref :: string
  de_scope :: breaker_scope
  de_attempt_count :: int
  de_first_failed_at :: datetime
  de_last_failed_at :: datetime
  de_failure_code :: string
  de_retry_policy_version :: string
  de_source_component :: string
  de_source_state_ref :: string

definition strip_exhaustion :: "dead_letter_exhaustion \<Rightarrow> dead_letter_exhaustion" where
  "strip_exhaustion x = x\<lparr>
     de_work_ref := py_strip (de_work_ref x),
     de_first_failed_at := to_utc (de_first_failed_at x),
     de_last_failed_at := to_utc (de_last_failed_at x),
     de_failure_code := py_strip (de_failure_code x),
     de_retry_policy_version := py_strip (de_retry_policy_version x),
     de_source_component := py_strip (de_source_component x),
     de_source_state_ref := py_strip (de_source_state_ref x) \<rparr>"

definition wf_exhaustion :: "dead_letter_exhaustion \<Rightarrow> bool" where
  "wf_exhaustion x \<longleftrightarrow>
     safe_ref (de_work_ref x) \<and> safe_ref (bs_scope_ref (de_scope x)) \<and>
     1 \<le> de_attempt_count x \<and> de_attempt_count x \<le> 100 \<and>
     safe_code (de_failure_code x) \<and> safe_ref (de_retry_policy_version x) \<and>
     component_name (de_source_component x) \<and> safe_ref (de_source_state_ref x) \<and>
     instant_of (de_first_failed_at x) \<le> instant_of (de_last_failed_at x)"

definition DeadLetterExhaustion ::
  "dead_letter_exhaustion \<Rightarrow> (ops_error, dead_letter_exhaustion) result" where
  "DeadLetterExhaustion x =
     (let x' = strip_exhaustion x in
      if is_aware (de_first_failed_at x) \<and> is_aware (de_last_failed_at x) \<and> wf_exhaustion x'
      then Inr x' else Inl OpsValueError)"

definition exhaustion_fingerprint :: "dead_letter_exhaustion \<Rightarrow> string" where
  "exhaustion_fingerprint x = canonical_fingerprint ''acquisition-dead-letter-exhaustion:v1'' (JObj
     [(''work_type'', JStr (work_type_value (de_work_type x))),
      (''work_ref'', JStr (de_work_ref x)),
      (''scope'', scope_json (de_scope x)),
      (''retry_policy_version'', JStr (de_retry_policy_version x)),
      (''source_component'', JStr (de_source_component x)),
      (''source_state_ref'', JStr (de_source_state_ref x))])"

definition dead_letter_ref_of :: "string \<Rightarrow> string" where
  "dead_letter_ref_of fp = canonical_fingerprint ''acquisition-dead-letter-ref:v1'' (JStr fp)"

definition dead_letter_ref :: "dead_letter_exhaustion \<Rightarrow> string" where
  "dead_letter_ref x = dead_letter_ref_of (exhaustion_fingerprint x)"

section \<open>The retry policy\<close>

record retry_policy =
  rp_version :: string
  rp_maximum_attempts :: int
  rp_delays_seconds :: "int list"

record retry_decision =
  rd_disposition :: retry_disposition
  rd_retry_at :: "datetime option"

definition wf_retry_policy :: "retry_policy \<Rightarrow> bool" where
  "wf_retry_policy p \<longleftrightarrow> clean_str 256 (rp_version p) \<and>
     1 \<le> rp_maximum_attempts p \<and> rp_maximum_attempts p \<le> 20 \<and>
     int (length (rp_delays_seconds p)) = rp_maximum_attempts p \<and>
     list_all (\<lambda>item. 0 < item) (rp_delays_seconds p)"

definition RetryPolicy :: "retry_policy \<Rightarrow> (ops_error, retry_policy) result" where
  "RetryPolicy p =
     (let p' = p\<lparr> rp_version := py_strip (rp_version p) \<rparr> in
      if wf_retry_policy p' then Inr p' else Inl OpsValueError)"

definition decide ::
  "retry_policy \<Rightarrow> int \<Rightarrow> datetime \<Rightarrow> bool \<Rightarrow> (ops_error, retry_decision) result" where
  "decide p attempt failed_at external_outcome_unknown =
     (if \<not> is_aware failed_at then Inl OpsValueError
      else let failed = to_utc failed_at in
      if external_outcome_unknown then Inr \<lparr> rd_disposition = RECONCILE_FIRST, rd_retry_at = None \<rparr>
      else if rp_maximum_attempts p \<le> attempt then Inr \<lparr> rd_disposition = DLQ, rd_retry_at = None \<rparr>
      else if attempt < 1 then Inl OpsValueError
      else Inr \<lparr> rd_disposition = RETRY,
                 rd_retry_at = Some (to_utc (dt_add failed
                   (rp_delays_seconds p ! nat (attempt - 1) * 1000000))) \<rparr>)"

definition DEFAULT_RETRY_POLICY :: retry_policy where
  "DEFAULT_RETRY_POLICY = \<lparr> rp_version = ''acquisition-retry-policy-v1'', rp_maximum_attempts = 5,
     rp_delays_seconds = [60, 120, 240, 480, 960] \<rparr>"

section \<open>Retries end\<close>

lemma wf_delay:
  "wf_retry_policy p \<Longrightarrow> 1 \<le> n \<Longrightarrow> n \<le> rp_maximum_attempts p \<Longrightarrow> 0 < rp_delays_seconds p ! nat (n - 1)"
  by (auto simp: wf_retry_policy_def list_all_length)

lemma decide_retry:
  assumes "wf_retry_policy p" and "is_aware d" and "day_micros \<le> instant_of d"
    and "1 \<le> n" and "n < rp_maximum_attempts p"
  obtains t where "decide p n d False = Inr \<lparr> rd_disposition = RETRY, rd_retry_at = Some t \<rparr>"
    and "is_aware t" and "instant_of t = instant_of d + rp_delays_seconds p ! nat (n - 1) * 1000000"
proof -
  let ?us = "rp_delays_seconds p ! nat (n - 1) * 1000000"
  have pos: "0 < ?us" using wf_delay [OF assms(1,4)] assms(5) by simp
  have utc: "instant_of (to_utc d) = instant_of d" "dt_offset (to_utc d) = Some 0"
    using assms(3) by (rule instant_of_to_utc) (simp add: to_utc_def)
  then have "instant_of (dt_add (to_utc d) ?us) = instant_of d + ?us"
    using assms(3) pos by (subst instant_of_dt_add) (auto simp: instant_of_def)
  then have "instant_of (to_utc (dt_add (to_utc d) ?us)) = instant_of d + ?us"
    using assms(3) pos by (subst instant_of_to_utc) auto
  then show thesis
    using assms that [of "to_utc (dt_add (to_utc d) ?us)"] by (simp add: decide_def Let_def)
qed

text \<open>
  Retries of a work item end. Under a valid retry policy, whatever the moments of its failures,
  every attempt below the maximum is scheduled strictly after its failure, by exactly the delay of
  that attempt; the attempt that reaches the maximum goes to the dead letters, and no attempt with an
  unknown external outcome is ever retried.
\<close>

theorem retries_end:
  assumes "wf_retry_policy p" and "\<And>n. is_aware (failed n) \<and> day_micros \<le> instant_of (failed n)"
  shows "(\<forall>n. 1 \<le> n \<and> n < rp_maximum_attempts p \<longrightarrow>
            (\<exists>t. decide p n (failed n) False = Inr \<lparr> rd_disposition = RETRY, rd_retry_at = Some t \<rparr> \<and>
                 instant_of (failed n) < instant_of t \<and>
                 instant_of t = instant_of (failed n) + rp_delays_seconds p ! nat (n - 1) * 1000000)) \<and>
         (\<forall>n \<ge> rp_maximum_attempts p.
            decide p n (failed n) False = Inr \<lparr> rd_disposition = DLQ, rd_retry_at = None \<rparr>) \<and>
         (\<forall>n. decide p n (failed n) True = Inr \<lparr> rd_disposition = RECONCILE_FIRST, rd_retry_at = None \<rparr>)"
proof (intro conjI allI impI)
  fix n assume n: "1 \<le> n \<and> n < rp_maximum_attempts p"
  obtain t where t: "decide p n (failed n) False = Inr \<lparr> rd_disposition = RETRY, rd_retry_at = Some t \<rparr>"
    "instant_of t = instant_of (failed n) + rp_delays_seconds p ! nat (n - 1) * 1000000"
    using decide_retry [OF assms(1), of "failed n" n] assms(2) n by blast
  moreover have "0 < rp_delays_seconds p ! nat (n - 1)" using wf_delay [OF assms(1)] n by simp
  ultimately show "\<exists>t. decide p n (failed n) False = Inr \<lparr> rd_disposition = RETRY, rd_retry_at = Some t \<rparr> \<and>
      instant_of (failed n) < instant_of t \<and>
      instant_of t = instant_of (failed n) + rp_delays_seconds p ! nat (n - 1) * 1000000" by force
qed (use assms(2) in \<open>auto simp: decide_def Let_def\<close>)

theorem retries_end_witness:
  "decide DEFAULT_RETRY_POLICY 5 sample_clock False = Inr \<lparr> rd_disposition = DLQ, rd_retry_at = None \<rparr> \<and>
   (\<exists>t. decide DEFAULT_RETRY_POLICY 4 sample_clock False = Inr \<lparr> rd_disposition = RETRY, rd_retry_at = Some t \<rparr> \<and>
        instant_of t = instant_of sample_clock + 480000000)"
proof -
  have wf: "wf_retry_policy DEFAULT_RETRY_POLICY" by code_simp
  have clock: "is_aware sample_clock \<and> day_micros \<le> instant_of sample_clock" by code_simp
  have policy: "rp_maximum_attempts DEFAULT_RETRY_POLICY = 5"
    "rp_delays_seconds DEFAULT_RETRY_POLICY ! 3 = 480" by code_simp+
  note run = retries_end [OF wf, of "\<lambda>_. sample_clock", OF clock, unfolded policy(1)]
  from run have "decide DEFAULT_RETRY_POLICY 5 sample_clock False = Inr \<lparr> rd_disposition = DLQ, rd_retry_at = None \<rparr>"
    by (elim conjE allE [of _ 5]) simp
  moreover have "\<exists>t. decide DEFAULT_RETRY_POLICY 4 sample_clock False = Inr \<lparr> rd_disposition = RETRY, rd_retry_at = Some t \<rparr> \<and>
      instant_of t = instant_of sample_clock + rp_delays_seconds DEFAULT_RETRY_POLICY ! nat (4 - 1) * 1000000"
    using run [THEN conjunct1, rule_format, of 4] by auto
  ultimately show ?thesis by (simp add: policy(2))
qed

end
