(* ===== verification/OpsStore.thy ===== *)
theory OpsStore
  imports OpsContracts "HOL-Library.Product_Lexorder"
begin

text \<open>
  \<open>operations/store.py\<close> and its two tables: operational incidents and dead letters.

  A table is the list of its rows in insertion order. An operation that reads a row and then updates
  it runs two statements; its first argument is the database as the read saw it and its second the
  database as the update finds it, so that other transactions may commit in between. An update
  checks the table's constraints and fails as a whole when one is violated.
\<close>

section \<open>Tables\<close>

record incident_row =
  in_incident_ref :: string
  in_trigger_fingerprint :: string
  in_incident_version :: string
  in_incident_type :: incident_type
  in_severity :: incident_severity
  in_scope_type :: scope_type
  in_scope_ref :: string
  in_source_state_ref :: string
  in_triggered_at :: instant
  in_observed_value :: "rat option"
  in_threshold_value :: "rat option"
  in_metric_version :: "string option"
  in_reason_codes :: "string list"
  in_state :: incident_state
  in_human_review_required :: bool
  in_pause_required :: bool
  in_policy_control_before :: "string option"
  in_policy_control_after :: "string option"
  in_campaign_ref :: "string option"
  in_mailbox_ref :: "string option"
  in_wedge :: "string option"
  in_country :: "string option"
  in_acknowledged_at :: "instant option"
  in_resolved_at :: "instant option"
  in_created_at :: instant
  in_updated_at :: instant

record dead_letter_row =
  dl_dead_letter_ref :: string
  dl_exhaustion_fingerprint :: string
  dl_work_type :: work_type
  dl_work_ref :: string
  dl_scope_type :: scope_type
  dl_scope_ref :: string
  dl_attempt_count :: int
  dl_first_failed_at :: instant
  dl_last_failed_at :: instant
  dl_failure_code :: string
  dl_retry_policy_version :: string
  dl_source_component :: string
  dl_source_state_ref :: string
  dl_status :: dead_letter_status
  dl_requeued_at :: "instant option"
  dl_resolved_at :: "instant option"
  dl_created_at :: instant
  dl_updated_at :: instant

record ops_db =
  db_campaigns :: "string list" \<comment> \<open>the keys of \<open>acquisition_campaign\<close>, referenced by incidents\<close>
  db_incidents :: "incident_row list"
  db_letters :: "dead_letter_row list"

definition fits :: "nat \<Rightarrow> string option \<Rightarrow> bool" where
  "fits n so \<longleftrightarrow> (case so of None \<Rightarrow> True | Some s \<Rightarrow> length s \<le> n \<and> no_nul_text s)"

definition fits_numeric :: "rat option \<Rightarrow> bool" where
  "fits_numeric v \<longleftrightarrow> (case v of None \<Rightarrow> True | Some x \<Rightarrow> num_fits 24 8 x)"

definition incident_lifecycle :: "incident_row \<Rightarrow> bool" where
  "incident_lifecycle r \<longleftrightarrow> (case in_state r of
     INCIDENT_OPEN \<Rightarrow> in_acknowledged_at r = None \<and> in_resolved_at r = None
   | ACKNOWLEDGED \<Rightarrow> in_acknowledged_at r \<noteq> None \<and> in_resolved_at r = None
   | INCIDENT_RESOLVED \<Rightarrow> in_resolved_at r \<noteq> None)"

definition incident_row_ok :: "incident_row \<Rightarrow> bool" where
  "incident_row_ok r \<longleftrightarrow>
     fits 256 (Some (in_scope_ref r)) \<and> fits 256 (Some (in_source_state_ref r)) \<and>
     fits 64 (in_metric_version r) \<and> fits 64 (in_policy_control_before r) \<and>
     fits 64 (in_policy_control_after r) \<and> fits 64 (in_campaign_ref r) \<and>
     fits 100 (in_mailbox_ref r) \<and> fits 100 (in_wedge r) \<and>
     fits_numeric (in_observed_value r) \<and> fits_numeric (in_threshold_value r) \<and>
     in_country r \<in> {None, Some ''CH'', Some ''FR''} \<and> incident_lifecycle r"

definition letter_lifecycle :: "dead_letter_row \<Rightarrow> bool" where
  "letter_lifecycle r \<longleftrightarrow> (case dl_status r of
     LETTER_OPEN \<Rightarrow> dl_requeued_at r = None \<and> dl_resolved_at r = None
   | REQUEUED \<Rightarrow> dl_requeued_at r \<noteq> None \<and> dl_resolved_at r = None
   | LETTER_RESOLVED \<Rightarrow> dl_resolved_at r \<noteq> None)"

definition letter_row_ok :: "dead_letter_row \<Rightarrow> bool" where
  "letter_row_ok r \<longleftrightarrow>
     fits 256 (Some (dl_work_ref r)) \<and> fits 256 (Some (dl_scope_ref r)) \<and>
     fits 100 (Some (dl_failure_code r)) \<and> fits 64 (Some (dl_retry_policy_version r)) \<and>
     fits 64 (Some (dl_source_component r)) \<and> fits 256 (Some (dl_source_state_ref r)) \<and>
     1 \<le> dl_attempt_count r \<and> dl_attempt_count r < 2 ^ 31 \<and>
     dl_first_failed_at r \<le> dl_last_failed_at r \<and> letter_lifecycle r"

section \<open>Keyed tables with a lifecycle\<close>

text \<open>\<open>SELECT .. WHERE key = k\<close> with \<open>one_or_none()\<close>, and \<open>UPDATE .. SET f WHERE key = k\<close>.\<close>

definition lookup_row :: "('r \<Rightarrow> string) \<Rightarrow> string \<Rightarrow> 'r list \<Rightarrow> (ops_error, 'r) result" where
  "lookup_row key k rows =
     (case List.find (\<lambda>r. key r = k) rows of None \<Rightarrow> Inl OpsKeyError | Some r \<Rightarrow> Inr r)"

definition update_rows ::
  "('r \<Rightarrow> string) \<Rightarrow> ('r \<Rightarrow> bool) \<Rightarrow> string \<Rightarrow> ('r \<Rightarrow> 'r) \<Rightarrow> 'r list \<Rightarrow> (ops_error, 'r list) result" where
  "update_rows key ok k f rows =
     (if list_all (\<lambda>r. key r = k \<longrightarrow> ok (f r)) rows
      then Inr (map (\<lambda>r. if key r = k then f r else r) rows) else Inl OpsDatabaseError)"

definition insert_row ::
  "('r \<Rightarrow> string) \<Rightarrow> ('r \<Rightarrow> string) \<Rightarrow> ('r \<Rightarrow> bool) \<Rightarrow> bool \<Rightarrow> 'r \<Rightarrow> 'r list \<Rightarrow>
   (ops_error, bool \<times> 'r list) result" where
  \<comment> \<open>\<open>insert_if_absent\<close> with a unique index \<open>unique\<close> beside the primary key; \<open>referenced\<close> is its foreign key\<close>
  "insert_row key unique ok referenced r rows =
     (if \<not> ok r then Inl OpsDatabaseError
      else if list_ex (\<lambda>x. unique x = unique r) rows then Inr (False, rows)
      else if list_ex (\<lambda>x. key x = key r) rows \<or> \<not> referenced then Inl OpsDatabaseError
      else Inr (True, rows @ [r]))"

section \<open>Incidents\<close>

definition incident_values :: "incident_trigger \<Rightarrow> incident_row" where
  "incident_values t =
     \<lparr> in_incident_ref = incident_ref t, in_trigger_fingerprint = trigger_fingerprint t,
       in_incident_version = BREAKER_VERSION, in_incident_type = it_incident_type t,
       in_severity = it_severity t, in_scope_type = bs_scope_type (it_scope t),
       in_scope_ref = bs_scope_ref (it_scope t), in_source_state_ref = it_source_state_ref t,
       in_triggered_at = instant_of (it_triggered_at t),
       in_observed_value = it_observed_value t, in_threshold_value = it_threshold_value t,
       in_metric_version = it_metric_version t, in_reason_codes = it_reason_codes t,
       in_state = INCIDENT_OPEN, in_human_review_required = it_human_review_required t,
       in_pause_required = it_pause_required t,
       in_policy_control_before = it_policy_control_before t,
       in_policy_control_after = it_policy_control_after t,
       in_campaign_ref = it_campaign_ref t, in_mailbox_ref = it_mailbox_ref t,
       in_wedge = it_wedge t, in_country = it_country t,
       in_acknowledged_at = None, in_resolved_at = None,
       in_created_at = instant_of (it_triggered_at t), in_updated_at = instant_of (it_triggered_at t) \<rparr>"

definition stored_incident :: "incident_row \<Rightarrow> incident_row" where
  \<comment> \<open>what the \<open>NUMERIC(24, 8)\<close> columns keep of the values\<close>
  "stored_incident r = r\<lparr> in_observed_value := map_option (num_round 8) (in_observed_value r),
     in_threshold_value := map_option (num_round 8) (in_threshold_value r) \<rparr>"

definition same_incident :: "incident_row \<Rightarrow> incident_row \<Rightarrow> bool" where
  \<comment> \<open>\<open>_require_same\<close> with the exclusions of \<open>open_incident\<close>\<close>
  "same_incident row expected \<longleftrightarrow>
     in_incident_ref row = in_incident_ref expected \<and>
     in_trigger_fingerprint row = in_trigger_fingerprint expected \<and>
     in_incident_version row = in_incident_version expected \<and>
     in_incident_type row = in_incident_type expected \<and> in_severity row = in_severity expected \<and>
     in_scope_type row = in_scope_type expected \<and> in_scope_ref row = in_scope_ref expected \<and>
     in_source_state_ref row = in_source_state_ref expected \<and>
     in_observed_value row = in_observed_value expected \<and>
     in_threshold_value row = in_threshold_value expected \<and>
     in_metric_version row = in_metric_version expected \<and>
     in_reason_codes row = in_reason_codes expected \<and>
     in_human_review_required row = in_human_review_required expected \<and>
     in_pause_required row = in_pause_required expected \<and>
     in_campaign_ref row = in_campaign_ref expected \<and> in_mailbox_ref row = in_mailbox_ref expected \<and>
     in_wedge row = in_wedge expected \<and> in_country row = in_country expected"

definition campaign_known :: "ops_db \<Rightarrow> string option \<Rightarrow> bool" where
  "campaign_known db c \<longleftrightarrow> (case c of None \<Rightarrow> True | Some k \<Rightarrow> k \<in> set (db_campaigns db))"

definition open_incident ::
  "ops_db \<Rightarrow> incident_trigger \<Rightarrow> (ops_error, incident_row \<times> bool) result \<times> ops_db" where
  "open_incident db t =
     (case insert_row in_incident_ref in_trigger_fingerprint incident_row_ok
             (campaign_known db (it_campaign_ref t)) (stored_incident (incident_values t)) (db_incidents db) of
        Inl e \<Rightarrow> (Inl e, db)
      | Inr (inserted, rows) \<Rightarrow>
          (case lookup_row in_incident_ref (incident_ref t) rows of
             Inl e \<Rightarrow> (Inl e, db)
           | Inr row \<Rightarrow>
               if same_incident row (incident_values t)
               then (Inr (row, \<not> inserted), db\<lparr> db_incidents := rows \<rparr>)
               else (Inl OperationsConflict, db)))"

definition get_incident :: "ops_db \<Rightarrow> string \<Rightarrow> (ops_error, incident_row) result" where
  "get_incident db r = lookup_row in_incident_ref r (db_incidents db)"

definition list_incidents :: "ops_db \<Rightarrow> bool \<Rightarrow> int \<Rightarrow> (ops_error, incident_row list) result" where
  "list_incidents db unresolved_only limit =
     (if \<not> (1 \<le> limit \<and> limit \<le> 500) then Inl OpsValueError
      else Inr (take (nat limit) (sort_key (\<lambda>r. (- in_triggered_at r, in_incident_ref r))
        (filter (\<lambda>r. unresolved_only \<longrightarrow> in_state r \<noteq> INCIDENT_RESOLVED) (db_incidents db)))))"

definition write_incident ::
  "ops_db \<Rightarrow> string \<Rightarrow> (incident_row \<Rightarrow> incident_row) \<Rightarrow> (ops_error, incident_row) result \<times> ops_db" where
  \<comment> \<open>the update statement of a transaction and the read of the row it returns\<close>
  "write_incident db r f =
     (case update_rows in_incident_ref incident_row_ok r f (db_incidents db) of
        Inl e \<Rightarrow> (Inl e, db)
      | Inr rows \<Rightarrow>
          (case lookup_row in_incident_ref r rows of
             Inl e \<Rightarrow> (Inl e, db) | Inr row \<Rightarrow> (Inr row, db\<lparr> db_incidents := rows \<rparr>)))"

definition ack_write :: "instant \<Rightarrow> incident_row \<Rightarrow> incident_row" where
  "ack_write at_time x = x\<lparr> in_state := ACKNOWLEDGED, in_acknowledged_at := Some at_time,
     in_updated_at := at_time \<rparr>"

definition resolve_write :: "bool \<Rightarrow> instant \<Rightarrow> incident_row \<Rightarrow> incident_row" where
  "resolve_write unacknowledged at_time x = x\<lparr> in_state := INCIDENT_RESOLVED,
     in_resolved_at := Some at_time, in_updated_at := at_time,
     in_acknowledged_at := (if unacknowledged then Some at_time else in_acknowledged_at x) \<rparr>"

definition bind_write :: "string option \<Rightarrow> string option \<Rightarrow> instant \<Rightarrow> incident_row \<Rightarrow> incident_row" where
  "bind_write before_ref after_ref at_time x = x\<lparr> in_updated_at := at_time,
     in_policy_control_before := (if before_ref = None then in_policy_control_before x else before_ref),
     in_policy_control_after := (if after_ref = None then in_policy_control_after x else after_ref) \<rparr>"

definition acknowledge_incident ::
  "ops_db \<Rightarrow> ops_db \<Rightarrow> string \<Rightarrow> instant \<Rightarrow> (ops_error, incident_row) result \<times> ops_db" where
  "acknowledge_incident seen db r at_time =
     (case get_incident seen r of
        Inl e \<Rightarrow> (Inl e, db)
      | Inr row \<Rightarrow>
          if in_state row = INCIDENT_RESOLVED then (Inr row, db)
          else if in_state row = INCIDENT_OPEN
          then write_incident db r (ack_write at_time)
          else (get_incident db r, db))"

definition resolve_incident ::
  "ops_db \<Rightarrow> ops_db \<Rightarrow> string \<Rightarrow> instant \<Rightarrow> (ops_error, incident_row) result \<times> ops_db" where
  "resolve_incident seen db r at_time =
     (case get_incident seen r of
        Inl e \<Rightarrow> (Inl e, db)
      | Inr row \<Rightarrow>
          if in_state row \<noteq> INCIDENT_RESOLVED
          then write_incident db r (resolve_write (in_acknowledged_at row = None) at_time)
          else (get_incident db r, db))"

definition bind_incident_policy_controls ::
  "ops_db \<Rightarrow> ops_db \<Rightarrow> string \<Rightarrow> string \<Rightarrow> string \<Rightarrow> instant \<Rightarrow> (ops_error, incident_row) result \<times> ops_db" where
  "bind_incident_policy_controls seen db r before_ref after_ref at_time =
     (case get_incident seen r of
        Inl e \<Rightarrow> (Inl e, db)
      | Inr row \<Rightarrow>
          if in_policy_control_before row \<notin> {None, Some before_ref} \<and> in_policy_control_after row = None
          then (Inl OperationsConflict, db)
          else if in_policy_control_after row \<notin> {None, Some after_ref} then (Inr row, db)
          else write_incident db r (bind_write
                 (if in_policy_control_before row = None then Some before_ref else None)
                 (if in_policy_control_after row = None then Some after_ref else None) at_time))"

definition blocks :: "breaker_scope \<Rightarrow> incident_row \<Rightarrow> bool" where
  "blocks scope r \<longleftrightarrow> in_state r \<noteq> INCIDENT_RESOLVED \<and> in_severity r \<in> {HIGH, CRITICAL} \<and>
     (in_scope_type r = GLOBAL_SCOPE \<and> in_scope_ref r = ''acquisition'' \<or>
      in_scope_type r = bs_scope_type scope \<and> in_scope_ref r = bs_scope_ref scope)"

definition has_open_breaker :: "ops_db \<Rightarrow> breaker_scope \<Rightarrow> bool" where
  "has_open_breaker db scope \<longleftrightarrow> list_ex (blocks scope) (db_incidents db)"

section \<open>Dead letters\<close>

definition letter_values :: "dead_letter_exhaustion \<Rightarrow> instant \<Rightarrow> dead_letter_row" where
  "letter_values x created_at =
     \<lparr> dl_dead_letter_ref = dead_letter_ref x, dl_exhaustion_fingerprint = exhaustion_fingerprint x,
       dl_work_type = de_work_type x, dl_work_ref = de_work_ref x,
       dl_scope_type = bs_scope_type (de_scope x), dl_scope_ref = bs_scope_ref (de_scope x),
       dl_attempt_count = de_attempt_count x,
       dl_first_failed_at = instant_of (de_first_failed_at x),
       dl_last_failed_at = instant_of (de_last_failed_at x),
       dl_failure_code = de_failure_code x, dl_retry_policy_version = de_retry_policy_version x,
       dl_source_component = de_source_component x, dl_source_state_ref = de_source_state_ref x,
       dl_status = LETTER_OPEN, dl_requeued_at = None, dl_resolved_at = None,
       dl_created_at = created_at, dl_updated_at = created_at \<rparr>"

definition letter_evidence :: "dead_letter_row \<Rightarrow> dead_letter_row" where
  \<comment> \<open>the columns \<open>_require_same\<close> compares, with the excluded ones blanked\<close>
  "letter_evidence r = r\<lparr> dl_status := LETTER_OPEN, dl_requeued_at := None, dl_resolved_at := None,
     dl_created_at := 0, dl_updated_at := 0 \<rparr>"

definition same_letter :: "dead_letter_row \<Rightarrow> dead_letter_row \<Rightarrow> bool" where
  "same_letter row expected \<longleftrightarrow> letter_evidence row = letter_evidence expected"

definition enqueue_dead_letter ::
  "ops_db \<Rightarrow> dead_letter_exhaustion \<Rightarrow> instant \<Rightarrow> (ops_error, dead_letter_row \<times> bool) result \<times> ops_db" where
  "enqueue_dead_letter db x created_at =
     (case insert_row dl_dead_letter_ref dl_exhaustion_fingerprint letter_row_ok True
             (letter_values x created_at) (db_letters db) of
        Inl e \<Rightarrow> (Inl e, db)
      | Inr (inserted, rows) \<Rightarrow>
          (case lookup_row dl_dead_letter_ref (dead_letter_ref x) rows of
             Inl e \<Rightarrow> (Inl e, db)
           | Inr row \<Rightarrow>
               if same_letter row (letter_values x created_at)
               then (Inr (row, \<not> inserted), db\<lparr> db_letters := rows \<rparr>)
               else (Inl OperationsConflict, db)))"

definition get_dead_letter :: "ops_db \<Rightarrow> string \<Rightarrow> (ops_error, dead_letter_row) result" where
  "get_dead_letter db r = lookup_row dl_dead_letter_ref r (db_letters db)"

definition list_dead_letters ::
  "ops_db \<Rightarrow> dead_letter_status option \<Rightarrow> int \<Rightarrow> (ops_error, dead_letter_row list) result" where
  "list_dead_letters db status limit =
     (if \<not> (1 \<le> limit \<and> limit \<le> 500) then Inl OpsValueError
      else Inr (take (nat limit) (sort_key (\<lambda>r. (- dl_created_at r, dl_dead_letter_ref r))
        (filter (\<lambda>r. status \<in> {None, Some (dl_status r)}) (db_letters db)))))"

definition write_letter ::
  "ops_db \<Rightarrow> string \<Rightarrow> (dead_letter_row \<Rightarrow> dead_letter_row) \<Rightarrow> (ops_error, dead_letter_row) result \<times> ops_db" where
  "write_letter db r f =
     (case update_rows dl_dead_letter_ref letter_row_ok r f (db_letters db) of
        Inl e \<Rightarrow> (Inl e, db)
      | Inr rows \<Rightarrow>
          (case lookup_row dl_dead_letter_ref r rows of
             Inl e \<Rightarrow> (Inl e, db) | Inr row \<Rightarrow> (Inr row, db\<lparr> db_letters := rows \<rparr>)))"

definition requeue_write :: "instant \<Rightarrow> dead_letter_row \<Rightarrow> dead_letter_row" where
  "requeue_write at_time x = x\<lparr> dl_status := REQUEUED, dl_requeued_at := Some at_time,
     dl_updated_at := at_time \<rparr>"

definition settle_write :: "instant \<Rightarrow> dead_letter_row \<Rightarrow> dead_letter_row" where
  "settle_write at_time x = x\<lparr> dl_status := LETTER_RESOLVED, dl_resolved_at := Some at_time,
     dl_updated_at := at_time \<rparr>"

definition mark_dead_letter_requeued ::
  "ops_db \<Rightarrow> ops_db \<Rightarrow> string \<Rightarrow> instant \<Rightarrow> (ops_error, dead_letter_row) result \<times> ops_db" where
  "mark_dead_letter_requeued seen db r at_time =
     (case get_dead_letter seen r of
        Inl e \<Rightarrow> (Inl e, db)
      | Inr row \<Rightarrow>
          if dl_status row = LETTER_OPEN
          then write_letter db r (requeue_write at_time)
          else if dl_status row \<noteq> REQUEUED then (Inl OperationsConflict, db)
          else (get_dead_letter db r, db))"

definition resolve_dead_letter ::
  "ops_db \<Rightarrow> ops_db \<Rightarrow> string \<Rightarrow> instant \<Rightarrow> (ops_error, dead_letter_row) result \<times> ops_db" where
  "resolve_dead_letter seen db r at_time =
     (case get_dead_letter seen r of
        Inl e \<Rightarrow> (Inl e, db)
      | Inr row \<Rightarrow>
          if dl_status row \<noteq> LETTER_RESOLVED
          then write_letter db r (settle_write at_time)
          else (get_dead_letter db r, db))"

section \<open>The operations interleaved\<close>

datatype ops_op =
    OpenIncident incident_trigger
  | AcknowledgeIncident string instant
  | ResolveIncident string instant
  | BindControls string string string instant
  | EnqueueLetter dead_letter_exhaustion instant
  | MarkRequeued string instant
  | ResolveLetter string instant
  | AddCampaign string \<comment> \<open>the campaign component adds a campaign\<close>

fun apply_op :: "ops_db \<Rightarrow> ops_op \<Rightarrow> ops_db \<Rightarrow> ops_db" where
  "apply_op seen (OpenIncident t) db = snd (open_incident db t)"
| "apply_op seen (AcknowledgeIncident r at_time) db = snd (acknowledge_incident seen db r at_time)"
| "apply_op seen (ResolveIncident r at_time) db = snd (resolve_incident seen db r at_time)"
| "apply_op seen (BindControls r b a at_time) db = snd (bind_incident_policy_controls seen db r b a at_time)"
| "apply_op seen (EnqueueLetter x created_at) db = snd (enqueue_dead_letter db x created_at)"
| "apply_op seen (MarkRequeued r at_time) db = snd (mark_dead_letter_requeued seen db r at_time)"
| "apply_op seen (ResolveLetter r at_time) db = snd (resolve_dead_letter seen db r at_time)"
| "apply_op seen (AddCampaign c) db = db\<lparr> db_campaigns := c # db_campaigns db \<rparr>"

text \<open>
  A history of transactions, each with what its read saw. The theorems quantify over every such
  history, so they cover any read, however stale.
\<close>

fun run_ops :: "(ops_db \<times> ops_op) list \<Rightarrow> ops_db \<Rightarrow> ops_db" where
  "run_ops [] db = db"
| "run_ops ((seen, p) # ops) db = run_ops ops (apply_op seen p db)"

section \<open>Tables that only advance\<close>

definition advances :: "('r \<Rightarrow> nat) \<Rightarrow> ('r \<Rightarrow> 'e) \<Rightarrow> 'r list \<Rightarrow> 'r list \<Rightarrow> bool" where
  \<comment> \<open>every row is still there, with the evidence it was written with and in the same state or a later one\<close>
  "advances rank evidence rows rows' \<longleftrightarrow> (\<exists>ys zs. rows' = ys @ zs \<and>
     list_all2 (\<lambda>r s. evidence s = evidence r \<and> rank r \<le> rank s) rows ys)"

lemma advances_refl: "advances rank evidence rows rows"
  unfolding advances_def by (rule exI [of _ rows]) (simp add: list_all2_refl)

lemma advances_trans:
  assumes "advances rank evidence xs ys" and "advances rank evidence ys zs"
  shows "advances rank evidence xs zs"
proof -
  let ?P = "\<lambda>r s. evidence s = evidence r \<and> rank r \<le> rank s"
  obtain a b where ab: "ys = a @ b" "list_all2 ?P xs a" using assms(1) unfolding advances_def by blast
  obtain c d where cd: "zs = c @ d" "list_all2 ?P ys c" using assms(2) unfolding advances_def by blast
  obtain e f where "c = e @ f" "list_all2 ?P a e" using cd(2) ab(1) by (auto simp: list_all2_append1)
  moreover have "list_all2 ?P xs e"
    by (rule list_all2_trans [OF _ ab(2) \<open>list_all2 ?P a e\<close>]) auto
  ultimately show ?thesis unfolding advances_def using cd(1) by (intro exI [of _ e] exI [of _ "f @ d"]) simp
qed

lemma advances_row:
  assumes "advances rank evidence rows rows'" and "r \<in> set rows"
  obtains s where "s \<in> set rows'" and "evidence s = evidence r" and "rank r \<le> rank s"
proof -
  obtain ys zs where "rows' = ys @ zs" "list_all2 (\<lambda>r s. evidence s = evidence r \<and> rank r \<le> rank s) rows ys"
    using assms(1) unfolding advances_def by blast
  then show thesis using assms(2) that by (fastforce simp: list_all2_conv_all_nth in_set_conv_nth)
qed

text \<open>
  The contract of a table with a lifecycle: its updates touch neither key nor evidence, and one that
  the constraints accept on an accepted row does not take the row back to an earlier state.
\<close>

locale lifecycle_table =
  fixes key :: "'r \<Rightarrow> string" and unique :: "'r \<Rightarrow> string" and ok :: "'r \<Rightarrow> bool"
    and rank :: "'r \<Rightarrow> nat" and evidence :: "'r \<Rightarrow> 'e" and writes :: "('r \<Rightarrow> 'r) set"
  assumes evidence_key: "evidence r = evidence s \<Longrightarrow> key r = key s"
    and write_evidence: "f \<in> writes \<Longrightarrow> evidence (f r) = evidence r"
    and write_rank: "f \<in> writes \<Longrightarrow> ok r \<Longrightarrow> ok (f r) \<Longrightarrow> rank r \<le> rank (f r)"
begin

lemma write_key: "f \<in> writes \<Longrightarrow> key (f r) = key r"
  using evidence_key write_evidence by blast

lemma update_ok:
  assumes "f \<in> writes" and "update_rows key ok k f rows = Inr rows'"
    and "list_all ok rows" and "distinct (map key rows)"
  shows "list_all ok rows' \<and> distinct (map key rows') \<and> advances rank evidence rows rows'"
proof -
  let ?g = "\<lambda>r. if key r = k then f r else r"
  have rows': "rows' = map ?g rows" and checked: "\<forall>r \<in> set rows. key r = k \<longrightarrow> ok (f r)"
    using assms(2) by (auto simp: update_rows_def list_all_iff split: if_split_asm)
  have "map key rows' = map key rows" unfolding rows' using write_key [OF assms(1)] by simp
  moreover have "list_all ok rows'" unfolding rows' using checked assms(3) by (auto simp: list_all_iff)
  moreover have "evidence (?g r) = evidence r \<and> rank r \<le> rank (?g r)" if "r \<in> set rows" for r
    using that checked assms(3) write_evidence [OF assms(1)] write_rank [OF assms(1), of r]
    by (simp add: list_all_iff)
  then have "list_all2 (\<lambda>r s. evidence s = evidence r \<and> rank r \<le> rank s) rows rows'"
    unfolding rows' by (intro list_all2_all_nthI) simp_all
  then have "advances rank evidence rows rows'"
    unfolding advances_def by (intro exI [of _ rows'] exI [of _ "[]"]) simp
  ultimately show ?thesis using assms(4) by simp
qed

lemma insert_ok:
  assumes "insert_row key unique ok referenced r rows = Inr (b, rows')"
    and "list_all ok rows" and "distinct (map key rows)"
  shows "list_all ok rows' \<and> distinct (map key rows') \<and> advances rank evidence rows rows'"
proof (cases "rows' = rows")
  case False
  then have "rows' = rows @ [r]" "ok r" "key r \<notin> key ` set rows"
    using assms(1) by (auto simp: insert_row_def list_ex_iff split: if_split_asm)
  moreover have "advances rank evidence rows (rows @ [r])"
    unfolding advances_def by (intro exI [of _ rows] exI [of _ "[r]"]) (simp add: list_all2_refl)
  ultimately show ?thesis using assms(2,3) by auto
qed (use assms advances_refl in auto)

lemma lookup_updated:
  assumes "distinct (map key rows)" and "f \<in> writes"
    and "lookup_row key k (map (\<lambda>r. if key r = k then f r else r) rows) = Inr s"
  shows "\<exists>r \<in> set rows. key r = k \<and> s = f r"
  using assms(3) write_key [OF assms(2)]
  by (auto simp: lookup_row_def find_Some_iff split: option.split_asm) (metis nth_mem)

end

lemma lookup_row_in: "lookup_row key k rows = Inr r \<Longrightarrow> r \<in> set rows \<and> key r = k"
  by (auto simp: lookup_row_def dest: find_Some_set split: option.split_asm)

lemma lookup_row_iff:
  "distinct (map key rows) \<Longrightarrow> lookup_row key k rows = Inr r \<longleftrightarrow> r \<in> set rows \<and> key r = k"
  by (induction rows) (auto simp: lookup_row_def split: option.split_asm)


section \<open>Incidents and dead letters advance\<close>

fun incident_rank :: "incident_state \<Rightarrow> nat" where
  "incident_rank INCIDENT_OPEN = 0"
| "incident_rank ACKNOWLEDGED = 1"
| "incident_rank INCIDENT_RESOLVED = 2"

fun letter_rank :: "dead_letter_status \<Rightarrow> nat" where
  "letter_rank LETTER_OPEN = 0"
| "letter_rank REQUEUED = 1"
| "letter_rank LETTER_RESOLVED = 2"

definition incident_evidence :: "incident_row \<Rightarrow> incident_row" where
  \<comment> \<open>everything but the state, its timestamps and the policy lineage\<close>
  "incident_evidence r = r\<lparr> in_state := INCIDENT_OPEN, in_policy_control_before := None,
     in_policy_control_after := None, in_acknowledged_at := None, in_resolved_at := None,
     in_updated_at := 0 \<rparr>"

lemma incident_evidence_fields:
  assumes "incident_evidence r = incident_evidence s"
  shows "in_incident_ref r = in_incident_ref s" "in_trigger_fingerprint r = in_trigger_fingerprint s"
    "in_severity r = in_severity s" "in_scope_type r = in_scope_type s" "in_scope_ref r = in_scope_ref s"
  using assms by (cases r, cases s, simp add: incident_evidence_def)+

lemma letter_evidence_fields:
  assumes "letter_evidence r = letter_evidence s"
  shows "dl_dead_letter_ref r = dl_dead_letter_ref s"
    "dl_exhaustion_fingerprint r = dl_exhaustion_fingerprint s"
  using assms by (cases r, cases s, simp add: letter_evidence_def)+

definition incident_writes :: "(incident_row \<Rightarrow> incident_row) set" where
  "incident_writes = range ack_write \<union> (\<Union>b. range (resolve_write b)) \<union> (\<Union>x y. range (bind_write x y))"

definition letter_writes :: "(dead_letter_row \<Rightarrow> dead_letter_row) set" where
  "letter_writes = range requeue_write \<union> range settle_write"

lemma incident_write_evidence: "f \<in> incident_writes \<Longrightarrow> incident_evidence (f r) = incident_evidence r"
  by (auto simp: incident_writes_def incident_evidence_def ack_write_def resolve_write_def bind_write_def)

lemma incident_write_rank:
  "f \<in> incident_writes \<Longrightarrow> incident_row_ok r \<Longrightarrow> incident_row_ok (f r) \<Longrightarrow>
   incident_rank (in_state r) \<le> incident_rank (in_state (f r))"
  by (auto simp: incident_writes_def incident_row_ok_def incident_lifecycle_def ack_write_def
      resolve_write_def bind_write_def split: incident_state.split_asm)

lemma letter_write_evidence: "f \<in> letter_writes \<Longrightarrow> letter_evidence (f r) = letter_evidence r"
  by (auto simp: letter_writes_def letter_evidence_def requeue_write_def settle_write_def)

lemma letter_write_rank:
  "f \<in> letter_writes \<Longrightarrow> letter_row_ok r \<Longrightarrow> letter_row_ok (f r) \<Longrightarrow>
   letter_rank (dl_status r) \<le> letter_rank (dl_status (f r))"
  by (auto simp: letter_writes_def letter_row_ok_def letter_lifecycle_def requeue_write_def settle_write_def
      split: dead_letter_status.split_asm)

interpretation incidents: lifecycle_table in_incident_ref in_trigger_fingerprint incident_row_ok
  "\<lambda>r. incident_rank (in_state r)" incident_evidence incident_writes
  by unfold_locales (fact incident_evidence_fields(1), fact incident_write_evidence, fact incident_write_rank)

interpretation letters: lifecycle_table dl_dead_letter_ref dl_exhaustion_fingerprint letter_row_ok
  "\<lambda>r. letter_rank (dl_status r)" letter_evidence letter_writes
  by unfold_locales (fact letter_evidence_fields(1), fact letter_write_evidence, fact letter_write_rank)

definition ops_ok :: "ops_db \<Rightarrow> bool" where
  "ops_ok db \<longleftrightarrow>
     list_all incident_row_ok (db_incidents db) \<and> distinct (map in_incident_ref (db_incidents db)) \<and>
     list_all letter_row_ok (db_letters db) \<and> distinct (map dl_dead_letter_ref (db_letters db))"

definition ops_advances :: "ops_db \<Rightarrow> ops_db \<Rightarrow> bool" where
  "ops_advances db db' \<longleftrightarrow>
     advances (\<lambda>r. incident_rank (in_state r)) incident_evidence (db_incidents db) (db_incidents db') \<and>
     advances (\<lambda>r. letter_rank (dl_status r)) letter_evidence (db_letters db) (db_letters db')"

lemma ops_advances_refl: "ops_advances db db"
  by (simp add: ops_advances_def advances_refl)

lemma ops_advances_trans: "ops_advances x y \<Longrightarrow> ops_advances y z \<Longrightarrow> ops_advances x z"
  unfolding ops_advances_def by (elim conjE, intro conjI) (erule (1) advances_trans)+

lemma write_incident_ok:
  assumes "ops_ok db" and "f \<in> incident_writes"
  shows "ops_ok (snd (write_incident db r f)) \<and> ops_advances db (snd (write_incident db r f))"
proof (cases "update_rows in_incident_ref incident_row_ok r f (db_incidents db)")
  case (Inr rows)
  have "list_all incident_row_ok rows \<and> distinct (map in_incident_ref rows) \<and>
      advances (\<lambda>r. incident_rank (in_state r)) incident_evidence (db_incidents db) rows"
    by (rule incidents.update_ok [OF assms(2) Inr]) (use assms(1) in \<open>simp_all add: ops_ok_def\<close>)
  then show ?thesis
    using Inr assms(1)
    by (cases "lookup_row in_incident_ref r rows")
       (simp_all add: write_incident_def ops_ok_def ops_advances_def advances_refl)
qed (use assms(1) in \<open>simp add: write_incident_def ops_advances_refl\<close>)

lemma write_letter_ok:
  assumes "ops_ok db" and "f \<in> letter_writes"
  shows "ops_ok (snd (write_letter db r f)) \<and> ops_advances db (snd (write_letter db r f))"
proof (cases "update_rows dl_dead_letter_ref letter_row_ok r f (db_letters db)")
  case (Inr rows)
  have "list_all letter_row_ok rows \<and> distinct (map dl_dead_letter_ref rows) \<and>
      advances (\<lambda>r. letter_rank (dl_status r)) letter_evidence (db_letters db) rows"
    by (rule letters.update_ok [OF assms(2) Inr]) (use assms(1) in \<open>simp_all add: ops_ok_def\<close>)
  then show ?thesis
    using Inr assms(1)
    by (cases "lookup_row dl_dead_letter_ref r rows")
       (simp_all add: write_letter_def ops_ok_def ops_advances_def advances_refl)
qed (use assms(1) in \<open>simp add: write_letter_def ops_advances_refl\<close>)

lemma writes_in [simp]:
  "ack_write t \<in> incident_writes" "resolve_write b t \<in> incident_writes" "bind_write x y t \<in> incident_writes"
  "requeue_write t \<in> letter_writes" "settle_write t \<in> letter_writes"
proof -
  show "ack_write t \<in> incident_writes" unfolding incident_writes_def by (intro UnI1 rangeI)
  show "resolve_write b t \<in> incident_writes"
    unfolding incident_writes_def by (rule UnI1, rule UnI2, rule UN_I [OF UNIV_I], rule rangeI)
  show "bind_write x y t \<in> incident_writes"
    unfolding incident_writes_def by (rule UnI2, rule UN_I [OF UNIV_I], rule UN_I [OF UNIV_I], rule rangeI)
  show "requeue_write t \<in> letter_writes" "settle_write t \<in> letter_writes"
    unfolding letter_writes_def by (rule UnI1, rule rangeI, rule UnI2, rule rangeI)
qed

lemma open_incident_ok:
  assumes "ops_ok db"
  shows "ops_ok (snd (open_incident db t)) \<and> ops_advances db (snd (open_incident db t))"
proof (cases "insert_row in_incident_ref in_trigger_fingerprint incident_row_ok
    (campaign_known db (it_campaign_ref t)) (stored_incident (incident_values t)) (db_incidents db)")
  case (Inr br)
  obtain b rows where br: "br = (b, rows)" by (cases br)
  have "list_all incident_row_ok rows \<and> distinct (map in_incident_ref rows) \<and>
      advances (\<lambda>r. incident_rank (in_state r)) incident_evidence (db_incidents db) rows"
    by (rule incidents.insert_ok [OF Inr [unfolded br]]) (use assms(1) in \<open>simp_all add: ops_ok_def\<close>)
  then show ?thesis
    using Inr br assms(1)
    by (cases "lookup_row in_incident_ref (incident_ref t) rows")
       (simp_all add: open_incident_def ops_ok_def ops_advances_def advances_refl)
qed (use assms(1) in \<open>simp add: open_incident_def ops_advances_refl\<close>)

lemma enqueue_ok:
  assumes "ops_ok db"
  shows "ops_ok (snd (enqueue_dead_letter db x t)) \<and> ops_advances db (snd (enqueue_dead_letter db x t))"
proof (cases "insert_row dl_dead_letter_ref dl_exhaustion_fingerprint letter_row_ok True (letter_values x t) (db_letters db)")
  case (Inr br)
  obtain b rows where br: "br = (b, rows)" by (cases br)
  have "list_all letter_row_ok rows \<and> distinct (map dl_dead_letter_ref rows) \<and>
      advances (\<lambda>r. letter_rank (dl_status r)) letter_evidence (db_letters db) rows"
    by (rule letters.insert_ok [OF Inr [unfolded br]]) (use assms(1) in \<open>simp_all add: ops_ok_def\<close>)
  then show ?thesis
    using Inr br assms(1)
    by (cases "lookup_row dl_dead_letter_ref (dead_letter_ref x) rows")
       (simp_all add: enqueue_dead_letter_def ops_ok_def ops_advances_def advances_refl)
qed (use assms(1) in \<open>simp add: enqueue_dead_letter_def ops_advances_refl\<close>)

lemma apply_op_ok:
  assumes "ops_ok db"
  shows "ops_ok (apply_op seen p db) \<and> ops_advances db (apply_op seen p db)"
proof (cases p)
  case (AddCampaign c)
  then show ?thesis using assms by (simp add: ops_ok_def ops_advances_def advances_refl)
qed (use assms open_incident_ok enqueue_ok write_incident_ok write_letter_ok in
      \<open>auto simp: acknowledge_incident_def resolve_incident_def bind_incident_policy_controls_def
         mark_dead_letter_requeued_def resolve_dead_letter_def ops_advances_refl split: sum.split\<close>)

lemma run_ops_ok: "ops_ok db \<Longrightarrow> ops_ok (run_ops ops db) \<and> ops_advances db (run_ops ops db)"
proof (induction ops db rule: run_ops.induct)
  case (2 seen p ops db)
  then show ?case using apply_op_ok [OF "2.prems", of seen p] ops_advances_trans by fastforce
qed (simp add: ops_advances_refl)

section \<open>The lifecycle\<close>

lemma advances_all:
  assumes "advances rank evidence rows rows'"
  shows "\<forall>r \<in> set rows. \<exists>s \<in> set rows'. evidence s = evidence r \<and> rank r \<le> rank s"
proof
  fix r assume "r \<in> set rows"
  then obtain s where "s \<in> set rows'" "evidence s = evidence r" "rank r \<le> rank s"
    by (rule advances_row [OF assms])
  then show "\<exists>s \<in> set rows'. evidence s = evidence r \<and> rank r \<le> rank s" by auto
qed

text \<open>
  C17. Incidents and dead letters only move forward. Whatever transactions run, in any interleaving
  and however stale their reads, no incident or dead letter is ever lost, its evidence (type,
  severity, scope, source, metric, reasons) never changes, and its state never goes back: in
  particular what was resolved stays resolved, because the lifecycle constraint of the table rejects
  an acknowledgement or a requeue computed from an outdated read.
\<close>

theorem operations_only_advance:
  assumes "ops_ok db"
  shows "ops_ok (run_ops ops db) \<and>
    (\<forall>r \<in> set (db_incidents db). \<exists>s \<in> set (db_incidents (run_ops ops db)).
       incident_evidence s = incident_evidence r \<and> incident_rank (in_state r) \<le> incident_rank (in_state s)) \<and>
    (\<forall>r \<in> set (db_letters db). \<exists>s \<in> set (db_letters (run_ops ops db)).
       letter_evidence s = letter_evidence r \<and> letter_rank (dl_status r) \<le> letter_rank (dl_status s))"
proof -
  note run = run_ops_ok [OF assms, of ops]
  have "advances (\<lambda>r. incident_rank (in_state r)) incident_evidence (db_incidents db) (db_incidents (run_ops ops db))"
    and "advances (\<lambda>r. letter_rank (dl_status r)) letter_evidence (db_letters db) (db_letters (run_ops ops db))"
    using run by (simp_all add: ops_advances_def)
  from this [THEN advances_all] show ?thesis using run by (intro conjI) simp_all
qed

definition sample_incident :: incident_row where
  "sample_incident = \<lparr> in_incident_ref = ''i1'', in_trigger_fingerprint = ''f1'',
     in_incident_version = BREAKER_VERSION, in_incident_type = COMPLAINT, in_severity = HIGH,
     in_scope_type = CAMPAIGN_SCOPE, in_scope_ref = ''c1'', in_source_state_ref = ''s1'',
     in_triggered_at = 5, in_observed_value = None, in_threshold_value = None, in_metric_version = None,
     in_reason_codes = [''AUTHORITATIVE_COMPLAINT''], in_state = INCIDENT_OPEN,
     in_human_review_required = True, in_pause_required = True, in_policy_control_before = None,
     in_policy_control_after = None, in_campaign_ref = None, in_mailbox_ref = None, in_wedge = None,
     in_country = None, in_acknowledged_at = None, in_resolved_at = None, in_created_at = 5,
     in_updated_at = 5 \<rparr>"

definition ops_sample :: ops_db where
  "ops_sample = \<lparr> db_campaigns = [''c1''], db_incidents = [sample_incident], db_letters = [] \<rparr>"

lemma ops_sample_ok: "ops_ok ops_sample" by code_simp

theorem operations_only_advance_witness:
  "\<exists>s \<in> set (db_incidents (run_ops [(ops_sample, ResolveIncident ''i1'' 9),
      (ops_sample, AcknowledgeIncident ''i1'' 10)] ops_sample)).
     incident_evidence s = incident_evidence sample_incident"
proof -
  have "sample_incident \<in> set (db_incidents ops_sample)" by (simp add: ops_sample_def)
  then show ?thesis using operations_only_advance [OF ops_sample_ok] by blast
qed

section \<open>An open breaker stays open\<close>

fun resolves :: "string \<Rightarrow> ops_op \<Rightarrow> bool" where
  "resolves r (ResolveIncident k t) \<longleftrightarrow> k = r"
| "resolves r _ \<longleftrightarrow> False"

definition unresolved :: "incident_row \<Rightarrow> ops_db \<Rightarrow> bool" where
  \<comment> \<open>the incident is there and not resolved\<close>
  "unresolved r db \<longleftrightarrow> (\<exists>s \<in> set (db_incidents db). incident_evidence s = incident_evidence r \<and>
     in_state s \<noteq> INCIDENT_RESOLVED)"

lemma unresolved_blocks:
  assumes "unresolved r db" and "blocks scope r"
  shows "has_open_breaker db scope"
proof -
  obtain s where s: "s \<in> set (db_incidents db)" "incident_evidence s = incident_evidence r"
    "in_state s \<noteq> INCIDENT_RESOLVED" using assms(1) by (auto simp: unresolved_def)
  have "blocks scope s" using assms(2) s(3) incident_evidence_fields(3-5) [OF s(2)] by (simp add: blocks_def)
  then show ?thesis using s(1) by (auto simp: has_open_breaker_def list_ex_iff)
qed

lemma write_keeps_unresolved:
  assumes "unresolved r db" and "f \<in> incident_writes"
    and "k = in_incident_ref r \<Longrightarrow> (\<forall>x. in_state (f x) = INCIDENT_RESOLVED \<longrightarrow> in_state x = INCIDENT_RESOLVED)"
  shows "unresolved r (snd (write_incident db k f))"
proof (cases "update_rows in_incident_ref incident_row_ok k f (db_incidents db)")
  case (Inr rows)
  obtain s where s: "s \<in> set (db_incidents db)" "incident_evidence s = incident_evidence r"
    "in_state s \<noteq> INCIDENT_RESOLVED" using assms(1) by (auto simp: unresolved_def)
  define s' where "s' = (if in_incident_ref s = k then f s else s)"
  have "s' \<in> set rows"
    using Inr s(1) by (auto simp: update_rows_def s'_def split: if_split_asm)
  moreover have "incident_evidence s' = incident_evidence r"
    using s(2) incident_write_evidence [OF assms(2)] by (simp add: s'_def)
  moreover have "in_state s' \<noteq> INCIDENT_RESOLVED"
    using s(3) assms(3) incident_evidence_fields(1) [OF s(2)] by (auto simp: s'_def)
  ultimately have "unresolved r (db\<lparr> db_incidents := rows \<rparr>)" by (auto simp: unresolved_def)
  then show ?thesis
    using Inr assms(1) by (cases "lookup_row in_incident_ref k rows") (simp_all add: write_incident_def)
qed (use assms(1) in \<open>simp add: write_incident_def\<close>)

lemma unresolved_cong: "db_incidents db = db_incidents db' \<Longrightarrow> unresolved r db = unresolved r db'"
  by (simp add: unresolved_def)

lemma open_keeps_unresolved: "unresolved r db \<Longrightarrow> unresolved r (snd (open_incident db t))"
  by (auto simp: open_incident_def insert_row_def unresolved_def split: sum.split prod.split)

lemma letters_keep_incidents:
  "db_incidents (snd (enqueue_dead_letter db x t)) = db_incidents db"
  "db_incidents (snd (mark_dead_letter_requeued seen db k t)) = db_incidents db"
  "db_incidents (snd (resolve_dead_letter seen db k t)) = db_incidents db"
  by (auto simp: enqueue_dead_letter_def mark_dead_letter_requeued_def resolve_dead_letter_def write_letter_def
      split: sum.split prod.split)

lemma write_states:
  "in_state (ack_write t x) = ACKNOWLEDGED" "in_state (bind_write a b t x) = in_state x"
  by (simp_all add: ack_write_def bind_write_def)

lemma apply_keeps_unresolved:
  assumes "unresolved r db" and "\<not> resolves (in_incident_ref r) p"
  shows "unresolved r (apply_op seen p db)"
proof (cases p)
  case (ResolveIncident k t)
  then show ?thesis
    using assms write_keeps_unresolved [OF assms(1), of "resolve_write b t" k for b]
    by (auto simp: resolve_incident_def split: sum.split)
next
  case (AcknowledgeIncident k t)
  then show ?thesis
    using assms write_keeps_unresolved [OF assms(1), of "ack_write t" k]
    by (auto simp: acknowledge_incident_def write_states split: sum.split)
next
  case (BindControls k b a t)
  then show ?thesis
    using assms write_keeps_unresolved [OF assms(1), of "bind_write x y t" k for x y]
    by (auto simp: bind_incident_policy_controls_def write_states split: sum.split)
qed (use assms open_keeps_unresolved letters_keep_incidents in
      \<open>auto simp: unresolved_cong [where db = "snd p" for p] unresolved_def\<close>)

lemma run_keeps_unresolved:
  "unresolved r db \<Longrightarrow> \<forall>p \<in> set (map snd ops). \<not> resolves (in_incident_ref r) p \<Longrightarrow> unresolved r (run_ops ops db)"
  by (induction ops db rule: run_ops.induct) (auto intro: apply_keeps_unresolved)

text \<open>
  C18. Only an explicit resolution closes a circuit breaker. Once an unresolved incident of severity
  HIGH or CRITICAL blocks a scope, the scope stays blocked through every later transaction, stale
  reads included, unless one of them is the resolution of that very incident; a global incident
  blocks every scope.
\<close>

theorem breaker_stays_open:
  assumes "r \<in> set (db_incidents db)" and "blocks scope r"
    and "\<forall>p \<in> set (map snd ops). \<not> resolves (in_incident_ref r) p"
  shows "has_open_breaker (run_ops ops db) scope \<and>
    (in_scope_type r = GLOBAL_SCOPE \<and> in_scope_ref r = ''acquisition'' \<longrightarrow>
       (\<forall>s. has_open_breaker (run_ops ops db) s))"
proof -
  have "unresolved r db" using assms(1,2) by (auto simp: unresolved_def blocks_def)
  then have "unresolved r (run_ops ops db)" using assms(3) by (rule run_keeps_unresolved)
  moreover have "blocks s r" if "in_scope_type r = GLOBAL_SCOPE \<and> in_scope_ref r = ''acquisition''" for s
    using assms(2) that by (auto simp: blocks_def)
  ultimately show ?thesis using unresolved_blocks assms(2) by blast
qed

theorem breaker_stays_open_witness:
  "has_open_breaker (run_ops [(ops_sample, AcknowledgeIncident ''i1'' 9), (ops_sample, ResolveIncident ''i2'' 10)]
     ops_sample) \<lparr> bs_scope_type = CAMPAIGN_SCOPE, bs_scope_ref = ''c1'' \<rparr>"
proof -
  have "sample_incident \<in> set (db_incidents ops_sample)" by (simp add: ops_sample_def)
  moreover have "blocks \<lparr> bs_scope_type = CAMPAIGN_SCOPE, bs_scope_ref = ''c1'' \<rparr> sample_incident" by code_simp
  moreover have "\<forall>p \<in> set (map snd [(ops_sample, AcknowledgeIncident ''i1'' 9), (ops_sample, ResolveIncident ''i2'' 10)]).
      \<not> resolves (in_incident_ref sample_incident) p" by (simp add: sample_incident_def)
  ultimately show ?thesis by (rule breaker_stays_open [THEN conjunct1])
qed
section \<open>Opening an incident\<close>

definition storable :: "incident_trigger \<Rightarrow> bool" where
  \<comment> \<open>the metrics survive the rounding of their columns\<close>
  "storable t \<longleftrightarrow> (\<forall>x \<in> set_option (it_observed_value t) \<union> set_option (it_threshold_value t). on_grid 8 x)"

lemma stored_same_iff: "same_incident (stored_incident (incident_values t)) (incident_values t) \<longleftrightarrow> storable t"
  by (cases "it_observed_value t"; cases "it_threshold_value t")
     (auto simp: same_incident_def stored_incident_def incident_values_def storable_def num_round_fix_iff)

lemma stored_id: "storable t \<Longrightarrow> stored_incident (incident_values t) = incident_values t"
  by (cases "it_observed_value t"; cases "it_threshold_value t")
     (simp_all add: stored_incident_def incident_values_def storable_def num_round_id)

definition unused :: "incident_trigger \<Rightarrow> ops_db \<Rightarrow> bool" where
  "unused t db \<longleftrightarrow> (\<forall>r \<in> set (db_incidents db). in_trigger_fingerprint r \<noteq> trigger_fingerprint t \<and>
     in_incident_ref r \<noteq> incident_ref t)"

lemma values_keys:
  "in_incident_ref (incident_values t) = incident_ref t"
  "in_trigger_fingerprint (incident_values t) = trigger_fingerprint t"
  "in_incident_ref (stored_incident r) = in_incident_ref r"
  "in_trigger_fingerprint (stored_incident r) = in_trigger_fingerprint r"
  by (simp_all add: incident_values_def stored_incident_def)

lemma lookup_appended:
  "\<forall>r \<in> set rows. key r \<noteq> k \<Longrightarrow> key x = k \<Longrightarrow> lookup_row key k (rows @ [x]) = Inr x"
  by (induction rows) (simp_all add: lookup_row_def)

lemma open_new:
  assumes "unused t db" and "campaign_known db (it_campaign_ref t)"
    and "incident_row_ok (stored_incident (incident_values t))"
  shows "open_incident db t =
    (if storable t then (Inr (incident_values t, False), db\<lparr> db_incidents := db_incidents db @ [incident_values t] \<rparr>)
     else (Inl OperationsConflict, db))"
proof -
  let ?r = "stored_incident (incident_values t)"
  have ins: "insert_row in_incident_ref in_trigger_fingerprint incident_row_ok
      (campaign_known db (it_campaign_ref t)) ?r (db_incidents db) = Inr (True, db_incidents db @ [?r])"
    using assms by (auto simp: insert_row_def unused_def list_ex_iff values_keys)
  have "lookup_row in_incident_ref (incident_ref t) (db_incidents db @ [?r]) = Inr ?r"
    by (rule lookup_appended) (use assms(1) in \<open>simp_all add: unused_def values_keys\<close>)
  then show ?thesis using ins stored_same_iff [of t] stored_id [of t] by (simp add: open_incident_def)
qed

lemma evidence_same:
  "incident_evidence s = incident_evidence r \<Longrightarrow> same_incident r v \<Longrightarrow> same_incident s v"
  by (cases r, cases s, cases v) (simp add: incident_evidence_def same_incident_def)

text \<open>
  Opening an incident is replay-safe for ever. A trigger whose incident was opened can be
  presented again after any history of transactions, acknowledgements and resolutions included: the
  call returns the same incident, marked as a replay, and changes nothing.
\<close>

theorem open_incident_replay:
  assumes "ops_ok db" and "open_incident db t = (Inr (r, b), db1)"
    and "incident_row_ok (stored_incident (incident_values t))"
  shows "\<exists>s. open_incident (run_ops ops db1) t = (Inr (s, True), run_ops ops db1) \<and>
    incident_evidence s = incident_evidence r \<and> incident_rank (in_state r) \<le> incident_rank (in_state s)"
proof -
  let ?db = "run_ops ops db1"
  have db1: "ops_ok db1" using open_incident_ok [OF assms(1), of t] assms(2) by simp
  have r: "r \<in> set (db_incidents db1)" "same_incident r (incident_values t)"
    using assms(2) lookup_row_in
    by (auto simp: open_incident_def split: sum.split_asm prod.split_asm if_split_asm) fastforce+
  obtain s where s: "s \<in> set (db_incidents ?db)" "incident_evidence s = incident_evidence r"
    "incident_rank (in_state r) \<le> incident_rank (in_state s)"
    using run_ops_ok [OF db1, of ops] r(1) unfolding ops_advances_def by (auto dest: advances_all)
  have same: "same_incident s (incident_values t)" by (rule evidence_same [OF s(2) r(2)])
  then have keys: "in_incident_ref s = incident_ref t" "in_trigger_fingerprint s = trigger_fingerprint t"
    by (simp_all add: same_incident_def values_keys)
  have "insert_row in_incident_ref in_trigger_fingerprint incident_row_ok (campaign_known ?db (it_campaign_ref t))
      (stored_incident (incident_values t)) (db_incidents ?db) = Inr (False, db_incidents ?db)"
    using assms(3) s(1) keys by (auto simp: insert_row_def list_ex_iff values_keys)
  moreover have "lookup_row in_incident_ref (incident_ref t) (db_incidents ?db) = Inr s"
    using run_ops_ok [OF db1, of ops] s(1) keys by (subst lookup_row_iff) (simp_all add: ops_ok_def)
  ultimately show ?thesis using same s by (simp add: open_incident_def)
qed

definition sample_trigger :: incident_trigger where
  "sample_trigger = \<lparr> it_incident_type = COMPLAINT, it_severity = HIGH,
     it_scope = \<lparr> bs_scope_type = CAMPAIGN_SCOPE, bs_scope_ref = ''c1'' \<rparr>, it_source_state_ref = ''s1'',
     it_triggered_at = sample_clock, it_reason_codes = [''AUTHORITATIVE_COMPLAINT''],
     it_observed_value = None, it_threshold_value = None, it_metric_version = None,
     it_campaign_ref = None, it_mailbox_ref = None, it_wedge = None, it_country = None,
     it_human_review_required = True, it_pause_required = True,
     it_policy_control_before = None, it_policy_control_after = None \<rparr>"

definition empty_db :: ops_db where
  "empty_db = \<lparr> db_campaigns = [], db_incidents = [], db_letters = [] \<rparr>"

definition opened_db :: ops_db where
  "opened_db = empty_db\<lparr> db_incidents := [incident_values sample_trigger] \<rparr>"

lemma sample_trigger_ok: "incident_row_ok (stored_incident (incident_values sample_trigger))" "storable sample_trigger"
proof -
  have "no_nul_text ''c1''" "no_nul_text ''s1''" by code_simp+
  then show "incident_row_ok (stored_incident (incident_values sample_trigger))" "storable sample_trigger"
    by (simp_all add: incident_row_ok_def stored_incident_def incident_values_def sample_trigger_def fits_def
        fits_numeric_def incident_lifecycle_def storable_def)
qed

lemma sample_opened_incident:
  "open_incident empty_db sample_trigger =
     (Inr (incident_values sample_trigger, False), opened_db)"
proof -
  have "unused sample_trigger empty_db" by (simp add: unused_def empty_db_def)
  moreover have "campaign_known empty_db (it_campaign_ref sample_trigger)"
    by (simp add: campaign_known_def sample_trigger_def)
  ultimately show ?thesis
    using open_new [of sample_trigger empty_db] sample_trigger_ok by (simp add: opened_db_def empty_db_def)
qed

theorem open_incident_replay_witness:
  "\<exists>s db. db = run_ops [(opened_db, ResolveIncident (incident_ref sample_trigger) 9)] opened_db \<and>
     open_incident db sample_trigger = (Inr (s, True), db)"
proof -
  have "ops_ok empty_db" by code_simp
  from open_incident_replay [OF this sample_opened_incident sample_trigger_ok(1)] show ?thesis by blast
qed

section \<open>The policy lineage of an incident\<close>

text \<open>
  Bound from a fresh read, the lineage keeps its first values; bound from a stale one, it does not:
  two bindings that both read the unbound row leave the lineage of the second.
\<close>

lemma lineage_lost_update:
  "map (\<lambda>r. (in_policy_control_before r, in_policy_control_after r))
     (db_incidents (run_ops [(ops_sample, BindControls ''i1'' ''p1'' ''p2'' 6),
        (ops_sample, BindControls ''i1'' ''p2'' ''p3'' 7)] ops_sample)) = [(Some ''p2'', Some ''p3'')]"
  by code_simp

lemma lineage_sequential:
  "map (\<lambda>r. (in_policy_control_before r, in_policy_control_after r))
     (db_incidents (let db = run_ops [(ops_sample, BindControls ''i1'' ''p1'' ''p2'' 6)] ops_sample
        in run_ops [(db, BindControls ''i1'' ''p2'' ''p3'' 7)] db)) = [(Some ''p1'', Some ''p2'')]"
  by code_simp

end
