(* ===== verification/OpsBreakers.thy ===== *)
theory OpsBreakers
  imports OpsStore
begin

text \<open>
  \<open>operations/circuit_breakers.py\<close>, the observations that open a breaker and the guard that reads
  it, and \<open>operations/dead_letter.py\<close>, the requeue boundary that combines the guard with the policy
  control in force.
\<close>

section \<open>Observations\<close>

definition BOUNCE_BREAKER_VERSION :: string where "BOUNCE_BREAKER_VERSION = ''step1-bounce-breaker-v1''"
definition BOUNCE_MINIMUM_SAMPLE :: nat where "BOUNCE_MINIMUM_SAMPLE = 20"
definition BOUNCE_MAXIMUM_RATE :: rat where "BOUNCE_MAXIMUM_RATE = 5 / 100"
definition PROVIDER_FAILURE_BREAKER_VERSION :: string where
  "PROVIDER_FAILURE_BREAKER_VERSION = ''provider-failure-breaker-v1''"
definition PROVIDER_FAILURE_THRESHOLD :: nat where "PROVIDER_FAILURE_THRESHOLD = 3"

record bounce_observation =
  bo_scope :: breaker_scope
  bo_authoritative_step1_members :: "string list"
  bo_bounced_step1_members :: "string list"
  bo_source_state_ref :: string
  bo_observed_at :: datetime
  bo_campaign_ref :: "string option"
  bo_mailbox_ref :: "string option"
  bo_wedge :: "string option"
  bo_country :: "string option"

definition wf_bounce :: "bounce_observation \<Rightarrow> bool" where
  "wf_bounce ob \<longleftrightarrow>
     (let sent = bo_authoritative_step1_members ob; bounced = bo_bounced_step1_members ob in
      safe_ref (bs_scope_ref (bo_scope ob)) \<and>
      length sent \<le> 100000 \<and> list_all (clean_str 256) sent \<and>
      length bounced \<le> 100000 \<and> list_all (clean_str 256) bounced \<and>
      clean_str 256 (bo_source_state_ref ob) \<and> clean_opt 256 (bo_campaign_ref ob) \<and>
      clean_opt 256 (bo_mailbox_ref ob) \<and> clean_opt 256 (bo_wedge ob) \<and>
      bo_country ob \<in> {None, Some ''CH'', Some ''FR''} \<and>
      distinct sent \<and> distinct bounced \<and> set bounced \<subseteq> set sent)"

definition BounceObservation :: "bounce_observation \<Rightarrow> (ops_error, bounce_observation) result" where
  "BounceObservation raw =
     (let ob = raw\<lparr> bo_authoritative_step1_members := map py_strip (bo_authoritative_step1_members raw),
            bo_bounced_step1_members := map py_strip (bo_bounced_step1_members raw),
            bo_source_state_ref := py_strip (bo_source_state_ref raw),
            bo_observed_at := to_utc (bo_observed_at raw),
            bo_campaign_ref := map_option py_strip (bo_campaign_ref raw),
            bo_mailbox_ref := map_option py_strip (bo_mailbox_ref raw),
            bo_wedge := map_option py_strip (bo_wedge raw),
            bo_country := map_option py_strip (bo_country raw) \<rparr>
      in if is_aware (bo_observed_at raw) \<and> wf_bounce ob then Inr ob else Inl OpsValueError)"

record provider_failure_observation =
  po_scope :: breaker_scope
  po_failure_refs :: "string list"
  po_failure_codes :: "string list"
  po_source_state_ref :: string
  po_observed_at :: datetime
  po_campaign_ref :: "string option"
  po_mailbox_ref :: "string option"

definition ProviderFailureObservation ::
  "provider_failure_observation \<Rightarrow> (ops_error, provider_failure_observation) result" where
  "ProviderFailureObservation raw =
     (let ob = raw\<lparr> po_failure_refs := map py_strip (po_failure_refs raw),
            po_failure_codes := map py_strip (po_failure_codes raw),
            po_source_state_ref := py_strip (po_source_state_ref raw),
            po_observed_at := to_utc (po_observed_at raw),
            po_campaign_ref := map_option py_strip (po_campaign_ref raw),
            po_mailbox_ref := map_option py_strip (po_mailbox_ref raw) \<rparr>
      in if is_aware (po_observed_at raw) \<and>
            safe_ref (bs_scope_ref (po_scope ob)) \<and>
            length (po_failure_refs ob) \<le> 100 \<and> list_all (clean_str 256) (po_failure_refs ob) \<and>
            length (po_failure_codes ob) \<le> 100 \<and> list_all safe_code (po_failure_codes ob) \<and>
            clean_str 256 (po_source_state_ref ob) \<and>
            clean_opt 256 (po_campaign_ref ob) \<and> clean_opt 256 (po_mailbox_ref ob) \<and>
            length (po_failure_refs ob) = length (po_failure_codes ob) \<and> distinct (po_failure_refs ob)
         then Inr ob else Inl OpsValueError)"

record degradation_thresholds =
  th_version :: string
  th_minimum_sample :: int
  th_minimum_conversion_rate :: "rat option"
  th_minimum_retention_rate :: "rat option"

definition configured :: "degradation_thresholds \<Rightarrow> bool" where
  "configured th \<longleftrightarrow> th_minimum_conversion_rate th \<noteq> None \<or> th_minimum_retention_rate th \<noteq> None"

definition LearningDegradationThresholds ::
  "degradation_thresholds \<Rightarrow> (ops_error, degradation_thresholds) result" where
  "LearningDegradationThresholds raw =
     (let th = raw\<lparr> th_version := py_strip (th_version raw) \<rparr>;
          rate_ok = (\<lambda>r. case r of None \<Rightarrow> True | Some x \<Rightarrow> 0 \<le> x \<and> x \<le> 1)
      in if clean_str 256 (th_version th) \<and> 1 \<le> th_minimum_sample th \<and> th_minimum_sample th \<le> 1000000 \<and>
            rate_ok (th_minimum_conversion_rate th) \<and> rate_ok (th_minimum_retention_rate th)
         then Inr th else Inl OpsValueError)"

record degradation_observation =
  do_incident_type :: incident_type
  do_scope :: breaker_scope
  do_authoritative_sample_count :: int
  do_observed_rate :: rat
  do_source_state_ref :: string
  do_observed_at :: datetime

definition DegradationObservation ::
  "degradation_observation \<Rightarrow> (ops_error, degradation_observation) result" where
  "DegradationObservation raw =
     (let ob = raw\<lparr> do_source_state_ref := py_strip (do_source_state_ref raw),
            do_observed_at := to_utc (do_observed_at raw) \<rparr>
      in if is_aware (do_observed_at raw) \<and> safe_ref (bs_scope_ref (do_scope ob)) \<and>
            0 \<le> do_authoritative_sample_count ob \<and> 0 \<le> do_observed_rate ob \<and> do_observed_rate ob \<le> 1 \<and>
            clean_str 256 (do_source_state_ref ob) \<and>
            do_incident_type ob \<in> {CONVERSION_DEGRADATION, RETENTION_DEGRADATION}
         then Inr ob else Inl OpsValueError)"

section \<open>The breaker service\<close>

type_synonym save_result = "incident_row \<times> bool"

definition trigger_incident ::
  "ops_db \<Rightarrow> incident_trigger \<Rightarrow> (ops_error, save_result) result \<times> ops_db" where
  \<comment> \<open>\<open>open_incident(IncidentTrigger(..))\<close>\<close>
  "trigger_incident db t =
     (case IncidentTrigger t of Inl e \<Rightarrow> (Inl e, db) | Inr t' \<Rightarrow> open_incident db t')"

definition plain_trigger ::
  "incident_type \<Rightarrow> incident_severity \<Rightarrow> breaker_scope \<Rightarrow> string \<Rightarrow> datetime \<Rightarrow> string list \<Rightarrow> incident_trigger" where
  \<comment> \<open>a trigger with the defaults of the contract, that requires a review and a pause\<close>
  "plain_trigger ty severity scope source at_time codes =
     \<lparr> it_incident_type = ty, it_severity = severity, it_scope = scope, it_source_state_ref = source,
       it_triggered_at = at_time, it_reason_codes = codes, it_observed_value = None,
       it_threshold_value = None, it_metric_version = None, it_campaign_ref = None,
       it_mailbox_ref = None, it_wedge = None, it_country = None, it_human_review_required = True,
       it_pause_required = True, it_policy_control_before = None, it_policy_control_after = None \<rparr>"

definition bounce_rate :: "bounce_observation \<Rightarrow> rat" where
  "bounce_rate ob = dec_div (of_nat (length (bo_bounced_step1_members ob)))
     (of_nat (length (bo_authoritative_step1_members ob)))"

definition bounce_trigger :: "bounce_observation \<Rightarrow> incident_trigger" where
  "bounce_trigger ob =
     (plain_trigger BOUNCE_RATE HIGH (bo_scope ob) (bo_source_state_ref ob) (bo_observed_at ob)
        [''STEP1_BOUNCE_RATE_ABOVE_LIMIT''])
     \<lparr> it_observed_value := Some (bounce_rate ob), it_threshold_value := Some BOUNCE_MAXIMUM_RATE,
       it_metric_version := Some BOUNCE_BREAKER_VERSION, it_campaign_ref := bo_campaign_ref ob,
       it_mailbox_ref := bo_mailbox_ref ob, it_wedge := bo_wedge ob, it_country := bo_country ob \<rparr>"

definition observe_bounces ::
  "ops_db \<Rightarrow> bounce_observation \<Rightarrow> (ops_error, save_result option) result \<times> ops_db" where
  "observe_bounces db ob =
     (if length (bo_authoritative_step1_members ob) < BOUNCE_MINIMUM_SAMPLE then (Inr None, db)
      else if bounce_rate ob \<le> BOUNCE_MAXIMUM_RATE then (Inr None, db)
      else case trigger_incident db (bounce_trigger ob) of (r, db') \<Rightarrow> (rmap Some r, db'))"

definition campaign_scope :: "string \<Rightarrow> (ops_error, breaker_scope) result" where
  "campaign_scope c = BreakerScope \<lparr> bs_scope_type = CAMPAIGN_SCOPE, bs_scope_ref = c \<rparr>"

definition observe_complaint ::
  "ops_db \<Rightarrow> string \<Rightarrow> string \<Rightarrow> datetime \<Rightarrow> (ops_error, save_result) result \<times> ops_db" where
  "observe_complaint db campaign_ref response_evaluation_ref observed_at =
     (case campaign_scope campaign_ref of
        Inl e \<Rightarrow> (Inl e, db)
      | Inr scope \<Rightarrow> trigger_incident db (plain_trigger COMPLAINT HIGH scope response_evaluation_ref
          observed_at [''AUTHORITATIVE_COMPLAINT'']))"

definition qualifying_failures :: "provider_failure_observation \<Rightarrow> string list" where
  "qualifying_failures ob = map fst (filter
     (\<lambda>(ref, code). code \<notin> {''RATE_LIMITED'', ''SEND_WINDOW_CLOSED'', ''NORMAL_WAITING''})
     (zip (po_failure_refs ob) (po_failure_codes ob)))"

definition provider_trigger :: "provider_failure_observation \<Rightarrow> incident_trigger" where
  "provider_trigger ob =
     (plain_trigger PROVIDER_FAILURE HIGH (po_scope ob) (po_source_state_ref ob) (po_observed_at ob)
        [''CONSECUTIVE_PROVIDER_FAILURES'', ''RECONCILE_BEFORE_RETRY''])
     \<lparr> it_observed_value := Some (of_nat (length (qualifying_failures ob))),
       it_threshold_value := Some (of_nat PROVIDER_FAILURE_THRESHOLD),
       it_metric_version := Some PROVIDER_FAILURE_BREAKER_VERSION,
       it_campaign_ref := po_campaign_ref ob, it_mailbox_ref := po_mailbox_ref ob \<rparr>"

definition observe_provider_failures ::
  "ops_db \<Rightarrow> provider_failure_observation \<Rightarrow> (ops_error, save_result option) result \<times> ops_db" where
  "observe_provider_failures db ob =
     (if length (qualifying_failures ob) < PROVIDER_FAILURE_THRESHOLD then (Inr None, db)
      else case trigger_incident db (provider_trigger ob) of (r, db') \<Rightarrow> (rmap Some r, db'))"

definition observe_degradation ::
  "ops_db \<Rightarrow> degradation_observation \<Rightarrow> degradation_thresholds \<Rightarrow>
   (ops_error, save_result option) result \<times> ops_db" where
  "observe_degradation db ob th =
     (case (if do_incident_type ob = CONVERSION_DEGRADATION then th_minimum_conversion_rate th
            else th_minimum_retention_rate th) of
        None \<Rightarrow> (Inr None, db)
      | Some threshold \<Rightarrow>
          if \<not> configured th \<or> do_authoritative_sample_count ob < th_minimum_sample th \<or>
             threshold \<le> do_observed_rate ob
          then (Inr None, db)
          else case trigger_incident db
            ((plain_trigger (do_incident_type ob) HIGH (do_scope ob) (do_source_state_ref ob)
                (do_observed_at ob)
                [incident_type_value (do_incident_type ob) @ ''_BELOW_OPERATOR_THRESHOLD''])
             \<lparr> it_observed_value := Some (do_observed_rate ob), it_threshold_value := Some threshold,
               it_metric_version := Some (th_version th) \<rparr>)
            of (r, db') \<Rightarrow> (rmap Some r, db'))"

definition CRITICAL_TRANSPORT_CODES :: "string list" where
  "CRITICAL_TRANSPORT_CODES = [''UNEXPECTED_EMAIL_SENT_AFTER_STOP'', ''CONFLICTING_STEP1_TRANSPORT_TRUTH'',
     ''DUPLICATE_BUSINESS_SEND'', ''TRANSPORT_STATE_CONFLICT'']"

definition observe_critical_transport ::
  "ops_db \<Rightarrow> string \<Rightarrow> string \<Rightarrow> string \<Rightarrow> datetime \<Rightarrow> (ops_error, save_result) result \<times> ops_db" where
  "observe_critical_transport db campaign_ref provider_event_ref incident_code observed_at =
     (if incident_code \<notin> set CRITICAL_TRANSPORT_CODES then (Inl OpsValueError, db)
      else case campaign_scope campaign_ref of
        Inl e \<Rightarrow> (Inl e, db)
      | Inr scope \<Rightarrow> trigger_incident db (plain_trigger UNEXPECTED_TRANSPORT_TRUTH CRITICAL scope
          provider_event_ref observed_at [incident_code, ''AUTHORITATIVE_SENT_TRUTH_PRESERVED'']))"

section \<open>The execution guard\<close>

datatype guard_error = GuardValueError | AcquisitionCircuitOpen

definition require_allowed :: "ops_db \<Rightarrow> breaker_scope list \<Rightarrow> (guard_error, unit) result" where
  "require_allowed db scopes =
     (if scopes = [] then Inl GuardValueError
      else if list_ex (has_open_breaker db) scopes then Inl AcquisitionCircuitOpen else Inr ())"

section \<open>Requeueing a dead letter\<close>

datatype requeue_error =
    DeadLetterRequeueBlocked
  | RequeueOpsError ops_error
  | RequeuePolicyError policy_error
  | RequeueHandlerError

definition require_requeue_allowed ::
  "control_log \<Rightarrow> ops_db \<Rightarrow> dead_letter_row \<Rightarrow> datetime \<Rightarrow> (requeue_error, unit) result" where
  "require_requeue_allowed rows db row at_time =
     (case get_effective_control rows at_time of
        Inl PolicyControlUnavailable \<Rightarrow> Inl DeadLetterRequeueBlocked
      | Inl e \<Rightarrow> Inl (RequeuePolicyError e)
      | Inr control \<Rightarrow>
          if pc_kill_switch control \<or> pc_read_only control then Inl DeadLetterRequeueBlocked
          else (case BreakerScope \<lparr> bs_scope_type = dl_scope_type row, bs_scope_ref = dl_scope_ref row \<rparr> of
            Inl e \<Rightarrow> Inl (RequeueOpsError e)
          | Inr scope \<Rightarrow>
              if is_ok (require_allowed db [scope]) then Inr () else Inl DeadLetterRequeueBlocked))"

text \<open>
  The handlers are the components' own: each is asked to reconstruct the work and answers whether it
  did, or raises (\<open>None\<close>). The arguments are the state at each statement: the letter as first read,
  the control log and the incidents as the guard reads them, and the letters as the final mark reads
  and finds them.
\<close>

record requeue_view =
  rv_first :: ops_db
  rv_controls :: control_log
  rv_guard :: ops_db
  rv_mark :: ops_db

definition requeue ::
  "(work_type \<Rightarrow> (dead_letter_row \<Rightarrow> datetime \<Rightarrow> bool option) option) \<Rightarrow> requeue_view \<Rightarrow> ops_db \<Rightarrow> string \<Rightarrow>
   datetime \<Rightarrow> (requeue_error, dead_letter_row) result \<times> ops_db" where
  "requeue handlers v db ref at_time =
     (case get_dead_letter (rv_first v) ref of
        Inl e \<Rightarrow> (Inl (RequeueOpsError e), db)
      | Inr row \<Rightarrow>
        if dl_status row = REQUEUED then (Inr row, db)
        else if dl_status row = LETTER_RESOLVED then (Inl DeadLetterRequeueBlocked, db)
        else case require_requeue_allowed (rv_controls v) (rv_guard v) row at_time of
          Inl e \<Rightarrow> (Inl e, db)
        | Inr _ \<Rightarrow>
          (case handlers (dl_work_type row) of
             None \<Rightarrow> (Inl DeadLetterRequeueBlocked, db)
           | Some handler \<Rightarrow>
             (case handler row at_time of
                None \<Rightarrow> (Inl RequeueHandlerError, db)
              | Some False \<Rightarrow> (Inl DeadLetterRequeueBlocked, db)
              | Some True \<Rightarrow>
                  (case mark_dead_letter_requeued (rv_mark v) db ref (instant_of at_time) of
                     (Inl e, db') \<Rightarrow> (Inl (RequeueOpsError e), db')
                   | (Inr r, db') \<Rightarrow> (Inr r, db')))))"

section \<open>The bounce breaker\<close>

lemma rate_bound:
  assumes "0 < n" and "n \<le> 100000" and "b \<le> (n::nat)"
  shows "dec_div (of_nat b) (of_nat n) \<le> 5 / 100 \<longleftrightarrow> 20 * b \<le> n"
proof -
  define x :: rat where "x = of_nat b / of_nat n"
  have n: "(0::rat) < of_nat n" "(of_nat n :: rat) \<le> 100000" using assms by auto
  have x: "0 \<le> x" "x \<le> 1" using assms by (simp_all add: x_def)
  have "\<bar>ctx_round x - x\<bar> \<le> \<bar>x\<bar> / (2 * 10 ^ 27)" by (rule ctx_round_error)
  also have "\<dots> \<le> 1 / (2 * 10 ^ 27)" using x by (simp add: divide_right_mono)
  also have "\<dots> < 1 / 4000000" by simp
  finally have err: "\<bar>ctx_round x - x\<bar> < 1 / 4000000" .
  have gap: "1 / 2000000 \<le> 1 / (20 * of_nat n :: rat)" using n by (simp add: field_simps)
  consider "20 * b = n" | "20 * b + 1 \<le> n" | "n + 1 \<le> 20 * b" by linarith
  then show ?thesis
  proof cases
    case 1
    then have "of_nat n = (20 :: rat) * of_nat b" by (metis of_nat_mult of_nat_numeral)
    then have x20: "x = 5 / 100" using n(1) by (simp add: x_def)
    then have "x = of_int 5 * 10 powi -2" by (simp add: power_int_def power2_eq_square)
    then have "ctx_round x = x" by (rule ctx_round_exact) simp
    then have "ctx_round x \<le> 5 / 100" using x20 by linarith
    with 1 show ?thesis by (simp add: dec_div_def x_def [symmetric])
  next
    case 2
    then have "(of_nat (20 * b + 1) :: rat) \<le> of_nat n" by (simp only: of_nat_le_iff)
    then have "x \<le> 1 / 20 - 1 / (20 * of_nat n)" using n(1) by (simp add: x_def field_simps)
    then have "ctx_round x \<le> 5 / 100" using err gap by linarith
    with 2 show ?thesis by (simp add: dec_div_def x_def [symmetric])
  next
    case 3
    then have "(of_nat (n + 1) :: rat) \<le> of_nat (20 * b)" by (simp only: of_nat_le_iff)
    then have "of_nat (n + 1) / (20 * of_nat n) \<le> (of_nat (20 * b) / (20 * of_nat n) :: rat)"
      using n(1) by (intro divide_right_mono) simp_all
    then have "1 / 20 + 1 / (20 * of_nat n) \<le> x" using n(1) by (simp add: x_def add_divide_distrib)
    then have "\<not> ctx_round x \<le> 5 / 100" using err gap by linarith
    with 3 show ?thesis by (simp add: dec_div_def x_def [symmetric])
  qed
qed

lemma valid_bounce: "BounceObservation raw = Inr ob \<Longrightarrow> wf_bounce ob"
  by (simp add: BounceObservation_def Let_def split: if_split_asm)

lemma observation_counts:
  assumes "BounceObservation raw = Inr ob"
  shows "length (bo_authoritative_step1_members ob) \<le> 100000"
    "length (bo_bounced_step1_members ob) \<le> length (bo_authoritative_step1_members ob)"
proof -
  have s: "length (bo_authoritative_step1_members ob) \<le> 100000" "distinct (bo_authoritative_step1_members ob)"
    "distinct (bo_bounced_step1_members ob)"
    "set (bo_bounced_step1_members ob) \<subseteq> set (bo_authoritative_step1_members ob)"
    using valid_bounce [OF assms] by (simp_all add: wf_bounce_def Let_def)
  then show "length (bo_authoritative_step1_members ob) \<le> 100000" by simp
  show "length (bo_bounced_step1_members ob) \<le> length (bo_authoritative_step1_members ob)"
    using s(2-4) card_mono [OF finite_set s(4)] by (simp add: distinct_card)
qed

definition bounce_excess :: "bounce_observation \<Rightarrow> bool" where
  \<comment> \<open>the sample is large enough and more than one message in twenty bounced\<close>
  "bounce_excess ob \<longleftrightarrow> 20 \<le> length (bo_authoritative_step1_members ob) \<and>
     length (bo_authoritative_step1_members ob) < 20 * length (bo_bounced_step1_members ob)"

lemma observe_bounces_excess:
  assumes "BounceObservation raw = Inr ob"
  shows "observe_bounces db ob =
    (if bounce_excess ob then (case trigger_incident db (bounce_trigger ob) of (r, db') \<Rightarrow> (rmap Some r, db'))
     else (Inr None, db))"
proof (cases "20 \<le> length (bo_authoritative_step1_members ob)")
  case True
  then have "bounce_rate ob \<le> BOUNCE_MAXIMUM_RATE \<longleftrightarrow>
      20 * length (bo_bounced_step1_members ob) \<le> length (bo_authoritative_step1_members ob)"
    using observation_counts [OF assms] unfolding bounce_rate_def BOUNCE_MAXIMUM_RATE_def
    by (intro rate_bound) linarith+
  with True show ?thesis by (auto simp: observe_bounces_def bounce_excess_def BOUNCE_MINIMUM_SAMPLE_def)
qed (simp add: observe_bounces_def bounce_excess_def BOUNCE_MINIMUM_SAMPLE_def)

lemma trigger_values:
  assumes "IncidentTrigger t = Inr t'"
  shows "it_scope t' = it_scope t" "it_severity t' = it_severity t" "it_observed_value t' = it_observed_value t"
    "it_threshold_value t' = it_threshold_value t"
  using assms by (auto simp: IncidentTrigger_def Let_def strip_trigger_def split: if_split_asm)

lemma opened_blocks:
  assumes "it_severity t \<in> {HIGH, CRITICAL}"
  shows "has_open_breaker (db\<lparr> db_incidents := rows @ [incident_values t] \<rparr>) (it_scope t)"
  using assms by (simp add: has_open_breaker_def blocks_def incident_values_def)


definition sample_bounce :: "nat \<Rightarrow> bounce_observation" where
  \<comment> \<open>\<open>n\<close> messages sent, two of them bounced\<close>
  "sample_bounce n = \<lparr> bo_scope = \<lparr> bs_scope_type = CAMPAIGN_SCOPE, bs_scope_ref = ''c1'' \<rparr>,
     bo_authoritative_step1_members = map nat_str [0..<n], bo_bounced_step1_members = map nat_str [0..<2],
     bo_source_state_ref = ''s1'', bo_observed_at = to_utc sample_clock, bo_campaign_ref = None,
     bo_mailbox_ref = None, bo_wedge = None, bo_country = None \<rparr>"

lemma sample_bounces_valid:
  "BounceObservation (sample_bounce 20) = Inr (sample_bounce 20)"
  "BounceObservation (sample_bounce 27) = Inr (sample_bounce 27)"
  by code_simp+

lemma sample_bounces_rates:
  "bounce_excess (sample_bounce 20) \<and> on_grid 8 (bounce_rate (sample_bounce 20))"
  "bounce_excess (sample_bounce 27) \<and> \<not> on_grid 8 (bounce_rate (sample_bounce 27))"
  by code_simp+

definition trigger_fits :: "incident_trigger \<Rightarrow> bool" where
  "trigger_fits t \<longleftrightarrow> fits 256 (Some (bs_scope_ref (it_scope t))) \<and> fits 256 (Some (it_source_state_ref t)) \<and>
     fits 64 (it_metric_version t) \<and> fits 64 (it_policy_control_before t) \<and>
     fits 64 (it_policy_control_after t) \<and> fits 64 (it_campaign_ref t) \<and> fits 100 (it_mailbox_ref t) \<and>
     fits 100 (it_wedge t) \<and> fits_numeric (map_option (num_round 8) (it_observed_value t)) \<and>
     fits_numeric (map_option (num_round 8) (it_threshold_value t)) \<and>
     it_country t \<in> {None, Some ''CH'', Some ''FR''}"

lemma trigger_fits_iff: "incident_row_ok (stored_incident (incident_values t)) \<longleftrightarrow> trigger_fits t"
  by (simp add: incident_row_ok_def stored_incident_def incident_values_def trigger_fits_def
      incident_lifecycle_def)

definition sample_bounce_trigger :: "nat \<Rightarrow> incident_trigger" where
  "sample_bounce_trigger n = strip_trigger (bounce_trigger (sample_bounce n))"

lemma sample_bounce_triggers:
  "wf_trigger (sample_bounce_trigger 20) \<and> trigger_fits (sample_bounce_trigger 20)"
  "wf_trigger (sample_bounce_trigger 27) \<and> trigger_fits (sample_bounce_trigger 27)"
  by code_simp+

lemma sample_bounce_trigger_valid:
  "wf_trigger (sample_bounce_trigger n) \<Longrightarrow> IncidentTrigger (bounce_trigger (sample_bounce n)) = Inr (sample_bounce_trigger n)"
  by (simp add: IncidentTrigger_def sample_bounce_trigger_def Let_def bounce_trigger_def plain_trigger_def
      sample_bounce_def)

lemma sample_bounce_fresh:
  "unused t empty_db" "campaign_known empty_db (it_campaign_ref (sample_bounce_trigger n))"
  by (simp_all add: unused_def empty_db_def campaign_known_def sample_bounce_trigger_def strip_trigger_def
      bounce_trigger_def plain_trigger_def sample_bounce_def)


section \<open>The requeue boundary\<close>

text \<open>
  C20. A dead letter is requeued only when everything allows it. The table changes only if the letter
  was open, a policy control was in force with neither its kill switch nor its read-only flag set, no
  unresolved breaker covered the letter's scope, and the handler of its work type reconstructed the
  work. A letter already requeued is returned unchanged and its handler is not called again; a
  resolved one is refused.
\<close>

theorem requeue_guarded:
  assumes "requeue handlers v db ref at_time = (r, db')"
  shows "(db' \<noteq> db \<longrightarrow> (\<exists>row control handler.
      get_dead_letter (rv_first v) ref = Inr row \<and> dl_status row = LETTER_OPEN \<and>
      get_effective_control (rv_controls v) at_time = Inr control \<and>
      \<not> pc_kill_switch control \<and> \<not> pc_read_only control \<and>
      \<not> has_open_breaker (rv_guard v)
          \<lparr> bs_scope_type = dl_scope_type row, bs_scope_ref = py_strip (dl_scope_ref row) \<rparr> \<and>
      handlers (dl_work_type row) = Some handler \<and> handler row at_time = Some True)) \<and>
    (\<forall>row. get_dead_letter (rv_first v) ref = Inr row \<and> dl_status row = REQUEUED \<longrightarrow> r = Inr row \<and> db' = db) \<and>
    (\<forall>row. get_dead_letter (rv_first v) ref = Inr row \<and> dl_status row = LETTER_RESOLVED \<longrightarrow>
       r = Inl DeadLetterRequeueBlocked \<and> db' = db)"
proof (intro conjI impI)
  assume "db' \<noteq> db"
  then obtain row handler where row: "get_dead_letter (rv_first v) ref = Inr row"
      "dl_status row \<noteq> REQUEUED" "dl_status row \<noteq> LETTER_RESOLVED"
    and allowed: "is_ok (require_requeue_allowed (rv_controls v) (rv_guard v) row at_time)"
    and handler: "handlers (dl_work_type row) = Some handler" "handler row at_time = Some True"
    using assms by (auto simp: requeue_def split: if_split_asm sum.split_asm option.split_asm bool.split_asm)
  have "dl_status row = LETTER_OPEN" using row(2,3) by (cases "dl_status row") auto
  moreover obtain control where "get_effective_control (rv_controls v) at_time = Inr control"
    "\<not> pc_kill_switch control" "\<not> pc_read_only control"
    "\<not> has_open_breaker (rv_guard v)
       \<lparr> bs_scope_type = dl_scope_type row, bs_scope_ref = py_strip (dl_scope_ref row) \<rparr>"
    using allowed by (auto simp: require_requeue_allowed_def require_allowed_def BreakerScope_def Let_def
        split: sum.split_asm policy_error.split_asm if_split_asm)
  ultimately show "\<exists>row control handler.
      get_dead_letter (rv_first v) ref = Inr row \<and> dl_status row = LETTER_OPEN \<and>
      get_effective_control (rv_controls v) at_time = Inr control \<and>
      \<not> pc_kill_switch control \<and> \<not> pc_read_only control \<and>
      \<not> has_open_breaker (rv_guard v)
          \<lparr> bs_scope_type = dl_scope_type row, bs_scope_ref = py_strip (dl_scope_ref row) \<rparr> \<and>
      handlers (dl_work_type row) = Some handler \<and> handler row at_time = Some True"
    using row(1) handler by blast
qed (use assms in \<open>auto simp: requeue_def\<close>)

definition sample_letter :: dead_letter_row where
  "sample_letter = \<lparr> dl_dead_letter_ref = ''d1'', dl_exhaustion_fingerprint = ''f1'',
     dl_work_type = LEARNING_CYCLE, dl_work_ref = ''w1'', dl_scope_type = CAMPAIGN_SCOPE,
     dl_scope_ref = ''c1'', dl_attempt_count = 5, dl_first_failed_at = 1, dl_last_failed_at = 2,
     dl_failure_code = ''TIMEOUT'', dl_retry_policy_version = ''v1'', dl_source_component = ''learning'',
     dl_source_state_ref = ''s1'', dl_status = LETTER_OPEN, dl_requeued_at = None, dl_resolved_at = None,
     dl_created_at = 3, dl_updated_at = 3 \<rparr>"

definition letter_db :: ops_db where
  "letter_db = empty_db\<lparr> db_letters := [sample_letter] \<rparr>"

definition sample_view :: requeue_view where
  "sample_view = \<lparr> rv_first = letter_db, rv_controls = sample_log, rv_guard = letter_db, rv_mark = letter_db \<rparr>"

definition sample_handlers :: "work_type \<Rightarrow> (dead_letter_row \<Rightarrow> datetime \<Rightarrow> bool option) option" where
  "sample_handlers w = (if w = LEARNING_CYCLE then Some (\<lambda>_ _. Some True) else None)"

lemma sample_requeue_run:
  "snd (requeue sample_handlers sample_view letter_db ''d1'' sample_clock) \<noteq> letter_db"
  by code_simp

theorem requeue_guarded_witness:
  "\<exists>control. get_effective_control sample_log sample_clock = Inr control \<and>
     \<not> pc_kill_switch control \<and> \<not> pc_read_only control"
proof -
  obtain r db' where run: "requeue sample_handlers sample_view letter_db ''d1'' sample_clock = (r, db')"
    by fastforce
  then have "db' \<noteq> letter_db" using sample_requeue_run by simp
  then show ?thesis
    using requeue_guarded [OF run, THEN conjunct1] by (auto simp: sample_view_def)
qed
end
