(* ===== verification/OpsObserver.thy ===== *)
theory OpsObserver
  imports OpsBreakers
begin

text \<open>
  \<open>operations/observer.py\<close>: the scan of one campaign, which turns stored transport facts into
  incidents and lowers or stops the policy control for each of them.

  The tables it reads are arguments. A transaction that committed before an error stays committed, so
  the scan returns the state it leaves next to its result. The \<open>k\<close>-th call of the safety controller
  runs under the interference \<open>others k\<close>.
\<close>

section \<open>The tables the scan reads\<close>

record campaign_row =
  cr_campaign_ref :: string
  cr_wedge :: string
  cr_country :: string

record provider_event_row =
  pe_provider_event_ref :: string
  pe_campaign_ref :: string
  pe_provider_event_type :: string
  pe_member_ref :: "string option"
  pe_step :: "int option"
  pe_occurred_at :: instant
  pe_incident_code :: "string option"

record response_evaluation_row =
  re_response_evaluation_id :: string
  re_campaign_ref :: string
  re_processing_state :: string
  re_classification :: "string option"

record provider_operation_row =
  po_operation_ref :: string
  po_operation_campaign_ref :: string
  po_kind :: string
  po_state :: string
  po_error_code :: "string option"
  po_updated_at :: instant

record campaign_tables =
  ct_campaigns :: "campaign_row list"
  ct_events :: "provider_event_row list"
  ct_evaluations :: "response_evaluation_row list"
  ct_operations :: "provider_operation_row list"

definition campaign_events :: "campaign_tables \<Rightarrow> string \<Rightarrow> provider_event_row list" where
  "campaign_events ct c = sort_key (\<lambda>e. (pe_occurred_at e, pe_provider_event_ref e))
     (filter (\<lambda>e. pe_campaign_ref e = c) (ct_events ct))"

definition campaign_complaints :: "campaign_tables \<Rightarrow> string \<Rightarrow> response_evaluation_row list" where
  "campaign_complaints ct c = filter (\<lambda>e. re_campaign_ref e = c \<and> re_processing_state e = ''FINALIZED'' \<and>
     re_classification e = Some ''COMPLAINT'') (ct_evaluations ct)"

definition campaign_operations :: "campaign_tables \<Rightarrow> string \<Rightarrow> provider_operation_row list" where
  \<comment> \<open>newest first\<close>
  "campaign_operations ct c = rev (sort_key (\<lambda>p. (po_updated_at p, po_operation_ref p))
     (filter (\<lambda>p. po_operation_campaign_ref p = c) (ct_operations ct)))"

section \<open>What the scan derives from them\<close>

definition sorted_set :: "string list \<Rightarrow> string list" where
  \<comment> \<open>\<open>tuple(sorted(set(..)))\<close>\<close>
  "sorted_set xs = sort (remdups xs)"

definition sent_members :: "provider_event_row list \<Rightarrow> string list" where
  "sent_members events = sorted_set (concat (map (\<lambda>e. opt_list (pe_member_ref e))
     (filter (\<lambda>e. pe_provider_event_type e = ''email_sent'' \<and> pe_step e = Some 1) events)))"

definition bounced_members :: "provider_event_row list \<Rightarrow> string list" where
  "bounced_members events = sorted_set (filter (\<lambda>m. m \<in> set (sent_members events))
     (concat (map (\<lambda>e. opt_list (pe_member_ref e))
       (filter (\<lambda>e. pe_provider_event_type e = ''email_bounced'' \<and> pe_step e = Some 1) events))))"

definition POSITIVE_PROVIDER_KINDS :: "string list" where
  "POSITIVE_PROVIDER_KINDS = [''CREATE_CAMPAIGN'', ''CONFIGURE_CAMPAIGN'', ''ADD_LEAD'', ''ACTIVATE_CAMPAIGN'']"

definition operation_code :: "provider_operation_row \<Rightarrow> string" where
  \<comment> \<open>\<open>operation["error_code"] or operation["state"]\<close>\<close>
  "operation_code p = (case po_error_code p of None \<Rightarrow> po_state p
     | Some c \<Rightarrow> if c = [] then po_state p else c)"

fun failing_run :: "nat \<Rightarrow> provider_operation_row list \<Rightarrow> (string \<times> string) list" where
  \<comment> \<open>the loop over the operations, newest first; \<open>n\<close> more failures end it\<close>
  "failing_run n [] = []"
| "failing_run n (p # ps) =
     (if po_kind p \<notin> set POSITIVE_PROVIDER_KINDS then failing_run n ps
      else if po_state p \<in> {''TERMINAL_FAILED'', ''RECONCILE_REQUIRED''}
      then (if operation_code p = ''RATE_LIMITED'' then failing_run n ps
            else if n = 1 then [(po_operation_ref p, operation_code p)]
            else (po_operation_ref p, operation_code p) # failing_run (n - 1) ps)
      else if po_state p = ''RETRYABLE_FAILED'' \<and> operation_code p \<noteq> ''RATE_LIMITED''
      then (if n = 1 then [(po_operation_ref p, operation_code p)]
            else (po_operation_ref p, operation_code p) # failing_run (n - 1) ps)
      else [])"

section \<open>The scan\<close>

datatype scan_error =
    ScanValueError
  | CampaignNotFound
  | ScanOpsError ops_error
  | ScanPolicyError policy_error
  | ScanSafetyError safety_error

type_synonym 'a scan = "(scan_error, 'a) result \<times> ops_db \<times> control_log"

definition upper_ascii :: "string \<Rightarrow> string" where
  \<comment> \<open>\<open>str.upper\<close> on the hexadecimal digits it is applied to\<close>
  "upper_ascii s = map (\<lambda>c. if is_lower c then char_of ((of_char c :: nat) - 32) else c) s"

definition incident_reasons :: "incident_row \<Rightarrow> bool \<Rightarrow> string list" where
  "incident_reasons row critical =
     [if critical then ''CRITICAL_OPERATIONAL_INCIDENT'' else ''OPERATIONAL_INCIDENT'',
      ''INCIDENT_'' @ upper_ascii (take 16 (in_incident_ref row))]"

definition observer_downgrade ::
  "(nat \<Rightarrow> interference) \<Rightarrow> incident_row \<Rightarrow> datetime \<Rightarrow> bool \<Rightarrow> ops_db \<Rightarrow> control_log \<Rightarrow> unit scan" where
  "observer_downgrade others row observed_at critical db rows =
     (case get_effective_control rows observed_at of
        Inl PolicyControlUnavailable \<Rightarrow> (Inr (), db, rows)
      | Inl e \<Rightarrow> (Inl (ScanPolicyError e), db, rows)
      | Inr before \<Rightarrow>
          (case (if critical then critical_stop others observed_at (incident_reasons row critical) rows
                 else downgrade others observed_at (incident_reasons row critical) rows) of
             (Inl e, rows') \<Rightarrow> (Inl (ScanSafetyError e), db, rows')
           | (Inr after, rows') \<Rightarrow>
               (case bind_incident_policy_controls db db (in_incident_ref row)
                       (pc_policy_snapshot_id before) (pc_policy_snapshot_id after)
                       (instant_of observed_at) of
                  (Inl e, db') \<Rightarrow> (Inl (ScanOpsError e), db', rows')
                | (Inr _, db') \<Rightarrow> (Inr (), db', rows'))))"

text \<open>
  One observation and its downgrade, for each item of a list: the items are the complaints, the
  critical events, or the single bounce and provider observations (which may record nothing).
\<close>

fun observe_each ::
  "(nat \<Rightarrow> nat \<Rightarrow> interference) \<Rightarrow> (ops_db \<Rightarrow> 'x \<Rightarrow> (ops_error, save_result option) result \<times> ops_db) \<Rightarrow>
   datetime \<Rightarrow> bool \<Rightarrow> nat \<Rightarrow> 'x list \<Rightarrow> ops_db \<Rightarrow> control_log \<Rightarrow> (incident_row list) scan" where
  "observe_each others observe observed_at critical k [] db rows = (Inr [], db, rows)"
| "observe_each others observe observed_at critical k (x # xs) db rows =
     (case observe db x of
        (Inl e, db1) \<Rightarrow> (Inl (ScanOpsError e), db1, rows)
      | (Inr None, db1) \<Rightarrow> observe_each others observe observed_at critical k xs db1 rows
      | (Inr (Some (row, replayed)), db1) \<Rightarrow>
          (case observer_downgrade (others k) row observed_at critical db1 rows of
             (Inl e, db2, rows2) \<Rightarrow> (Inl e, db2, rows2)
           | (Inr _, db2, rows2) \<Rightarrow>
               (case observe_each others observe observed_at critical (k + 1) xs db2 rows2 of
                  (r, db3, rows3) \<Rightarrow> (rmap (Cons row) r, db3, rows3))))"

definition lift_save :: "(ops_error, save_result) result \<times> ops_db \<Rightarrow> (ops_error, save_result option) result \<times> ops_db" where
  "lift_save p = (rmap Some (fst p), snd p)"

definition and_then :: "'a scan \<Rightarrow> ('a \<Rightarrow> ops_db \<Rightarrow> control_log \<Rightarrow> 'b scan) \<Rightarrow> 'b scan" where
  "and_then s f = (case s of (Inl e, db, rows) \<Rightarrow> (Inl e, db, rows) | (Inr x, db, rows) \<Rightarrow> f x db rows)"

definition scanned_bounces :: "campaign_row \<Rightarrow> provider_event_row list \<Rightarrow> datetime \<Rightarrow> breaker_scope \<Rightarrow> bounce_observation" where
  "scanned_bounces campaign events observed_at scope =
     (let c = cr_campaign_ref campaign; sent = sent_members events; bounced = bounced_members events in
      \<lparr> bo_scope = scope, bo_authoritative_step1_members = sent, bo_bounced_step1_members = bounced,
        bo_source_state_ref = canonical_fingerprint ''campaign-bounce-observation:v1''
          (JObj [(''campaign_ref'', JStr c), (''sent'', str_list sent), (''bounced'', str_list bounced)]),
        bo_observed_at = observed_at, bo_campaign_ref = Some c, bo_mailbox_ref = None,
        bo_wedge = Some (cr_wedge campaign), bo_country = Some (cr_country campaign) \<rparr>)"

definition scan_bounces ::
  "(nat \<Rightarrow> nat \<Rightarrow> interference) \<Rightarrow> campaign_row \<Rightarrow> provider_event_row list \<Rightarrow> datetime \<Rightarrow> ops_db \<Rightarrow> control_log \<Rightarrow>
   (incident_row list) scan" where
  "scan_bounces others campaign events observed_at db rows =
     (case rbind (campaign_scope (cr_campaign_ref campaign))
             (\<lambda>scope. BounceObservation (scanned_bounces campaign events observed_at scope)) of
        Inl e \<Rightarrow> (Inl (ScanOpsError e), db, rows)
      | Inr ob \<Rightarrow> observe_each others observe_bounces observed_at False 0 [ob] db rows)"

definition scan_complaints ::
  "(nat \<Rightarrow> nat \<Rightarrow> interference) \<Rightarrow> nat \<Rightarrow> string \<Rightarrow> response_evaluation_row list \<Rightarrow> datetime \<Rightarrow> ops_db \<Rightarrow> control_log \<Rightarrow>
   (incident_row list) scan" where
  "scan_complaints others k c complaints observed_at db rows =
     observe_each others (\<lambda>db complaint. lift_save
       (observe_complaint db c (re_response_evaluation_id complaint) observed_at))
       observed_at False k complaints db rows"

definition critical_events :: "provider_event_row list \<Rightarrow> provider_event_row list" where
  "critical_events events =
     filter (\<lambda>e. pe_incident_code e \<in> Some ` set CRITICAL_TRANSPORT_CODES) events"

definition scan_transport ::
  "(nat \<Rightarrow> nat \<Rightarrow> interference) \<Rightarrow> nat \<Rightarrow> string \<Rightarrow> provider_event_row list \<Rightarrow> datetime \<Rightarrow> ops_db \<Rightarrow> control_log \<Rightarrow>
   (incident_row list) scan" where
  "scan_transport others k c events observed_at db rows =
     observe_each others (\<lambda>db e. lift_save
       (observe_critical_transport db c (pe_provider_event_ref e) (the (pe_incident_code e)) observed_at))
       observed_at True k (critical_events events) db rows"

definition scan_provider ::
  "(nat \<Rightarrow> nat \<Rightarrow> interference) \<Rightarrow> nat \<Rightarrow> string \<Rightarrow> provider_operation_row list \<Rightarrow> datetime \<Rightarrow> ops_db \<Rightarrow> control_log \<Rightarrow>
   (incident_row list) scan" where
  "scan_provider others k c operations observed_at db rows =
     (let run = failing_run 3 operations in
      case campaign_scope c of
        Inl e \<Rightarrow> (Inl (ScanOpsError e), db, rows)
      | Inr scope \<Rightarrow>
          (case ProviderFailureObservation \<lparr> po_scope = scope, po_failure_refs = map fst run,
                  po_failure_codes = map snd run,
                  po_source_state_ref = canonical_fingerprint ''campaign-provider-failure-observation:v1''
                    (str_list (map fst run)),
                  po_observed_at = observed_at, po_campaign_ref = Some c, po_mailbox_ref = None \<rparr> of
             Inl e \<Rightarrow> (Inl (ScanOpsError e), db, rows)
           | Inr ob \<Rightarrow> observe_each others observe_provider_failures observed_at False k [ob] db rows))"

definition scan_campaign ::
  "(nat \<Rightarrow> nat \<Rightarrow> interference) \<Rightarrow> campaign_tables \<Rightarrow> string \<Rightarrow> datetime \<Rightarrow> ops_db \<Rightarrow> control_log \<Rightarrow>
   (string list) scan" where
  "scan_campaign others ct c observed_at db rows =
     (if \<not> is_aware observed_at then (Inl ScanValueError, db, rows)
      else case List.find (\<lambda>x. cr_campaign_ref x = c) (ct_campaigns ct) of
        None \<Rightarrow> (Inl CampaignNotFound, db, rows)
      | Some campaign \<Rightarrow>
          (let events = campaign_events ct c in
           and_then (scan_bounces others campaign events observed_at db rows) (\<lambda>r1 db rows.
           and_then (scan_complaints others (length r1) c (campaign_complaints ct c) observed_at db rows) (\<lambda>r2 db rows.
           and_then (scan_transport others (length (r1 @ r2)) c events observed_at db rows) (\<lambda>r3 db rows.
           and_then (scan_provider others (length (r1 @ r2 @ r3)) c (campaign_operations ct c) observed_at db rows) (\<lambda>r4 db rows.
             (Inr (sorted_set (map in_incident_ref (r1 @ r2 @ r3 @ r4))), db, rows)))))))"

section \<open>A stop is not undone by the scan\<close>

definition quiet :: "datetime \<Rightarrow> control_log \<Rightarrow> bool" where
  \<comment> \<open>whatever is in force at the instant is an exact critical stop\<close>
  "quiet d rows \<longleftrightarrow> (\<forall>c. get_effective_control rows d = Inr c \<longrightarrow> is_exact_critical_stop c)"

lemma downgrade_quiet:
  assumes "get_effective_control rows d = Inr c" and "is_exact_critical_stop c"
  shows "snd (downgrade_attempts (map alone ns) d codes rows) = rows"
  using assms(2)
  by (induction ns) (auto simp: assms(1) is_exact_critical_stop_def split: sum.split)

lemma stop_quiet:
  assumes "get_effective_control rows d = Inr c" and "is_exact_critical_stop c"
  shows "snd (stop_attempts (map alone ns) d codes rows) = rows"
  using assms(2) by (induction ns) (auto simp: assms(1) split: sum.split)

lemma observer_downgrade_quiet:
  assumes "quiet d rows"
  shows "snd (snd (observer_downgrade alone row d critical db rows)) = rows"
proof (cases "get_effective_control rows d")
  case (Inl e)
  then show ?thesis by (cases e) (simp_all add: observer_downgrade_def)
next
  case (Inr c)
  then have "is_exact_critical_stop c" using assms by (simp add: quiet_def)
  then have "snd (critical_stop alone d codes rows) = rows" "snd (downgrade alone d codes rows) = rows" for codes
    using downgrade_quiet stop_quiet Inr by (simp_all add: critical_stop_def downgrade_def)
  then have "snd (if critical then critical_stop alone d codes rows else downgrade alone d codes rows) = rows" for codes
    by simp
  then show ?thesis using Inr by (auto simp: observer_downgrade_def split: prod.split sum.split) (metis snd_conv)+
qed

lemma bind_ok:
  assumes "ops_ok db"
  shows "ops_ok (snd (bind_incident_policy_controls seen db k b a t)) \<and>
    ops_advances db (snd (bind_incident_policy_controls seen db k b a t))"
  using apply_op_ok [OF assms, of seen "BindControls k b a t"] by simp

lemma observer_downgrade_ok:
  assumes "ops_ok db" and "log_ok rows" and "\<And>n. rely_all (others n)"
    and "observer_downgrade others row d critical db rows = (r, db', rows')"
  shows "ops_ok db' \<and> ops_advances db db' \<and> log_ok rows' \<and> prefix rows rows' \<and>
    (critical \<and> r = Inr () \<longrightarrow> quiet d rows')"
proof (cases "get_effective_control rows d")
  case (Inl e)
  then show ?thesis using assms(1,2,4)
    by (cases e) (auto simp: observer_downgrade_def quiet_def ops_advances_refl)
next
  case (Inr c)
  obtain q table where q: "(if critical then critical_stop others d (incident_reasons row critical) rows
      else downgrade others d (incident_reasons row critical) rows) = (q, table)" by fastforce
  have stop: "critical_stop others d (incident_reasons row critical) rows = (q, table)" if critical using q that by simp
  have lower: "downgrade others d (incident_reasons row critical) rows = (q, table)" if "\<not> critical" using q that by simp
  have table: "log_ok table \<and> prefix rows table \<and> (critical \<longrightarrow> (\<forall>x. q = Inr x \<longrightarrow> quiet d table))"
  proof (cases critical)
    case True
    then show ?thesis
      using stop_attempts_ok [OF assms(2) _ stop [unfolded critical_stop_def]] assms(3) by (auto simp: quiet_def)
  next
    case False
    then show ?thesis
      using downgrade_attempts_ok [OF assms(2) _ lower [unfolded downgrade_def]] assms(3) by auto
  qed
  show ?thesis
  proof (cases q)
    case (Inl e)
    then show ?thesis using assms(1,4) Inr q table by (auto simp: observer_downgrade_def ops_advances_refl)
  next
    case (Inr after)
    then show ?thesis
      using assms(1,4) \<open>get_effective_control rows d = Inr c\<close> q table
        bind_ok [of db db "in_incident_ref row" "pc_policy_snapshot_id c" "pc_policy_snapshot_id after" "instant_of d"]
      by (auto simp: observer_downgrade_def split: prod.split_asm sum.split_asm)
  qed
qed

section \<open>The contract of an observation\<close>

text \<open>What the loop relies on: recording an observation only advances the tables.\<close>

locale observation =
  fixes observe :: "ops_db \<Rightarrow> 'x \<Rightarrow> (ops_error, save_result option) result \<times> ops_db"
  assumes observe_ok: "ops_ok db \<Longrightarrow> ops_ok (snd (observe db x)) \<and> ops_advances db (snd (observe db x))"
begin

lemma observe_each_ok:
  assumes "ops_ok db" and "log_ok rows" and "\<And>k n. rely_all (others k n)"
    and "observe_each others observe d critical k xs db rows = (r, db', rows')"
  shows "ops_ok db' \<and> ops_advances db db' \<and> log_ok rows' \<and> prefix rows rows'"
  using assms(1,2,4)
proof (induction xs arbitrary: k db rows r db' rows')
  case (Cons x xs)
  obtain q db1 where q: "observe db x = (q, db1)" by fastforce
  then have db1: "ops_ok db1" "ops_advances db db1" using observe_ok [OF Cons.prems(1), of x] by simp_all
  consider (error) e where "q = Inl e" | (nothing) "q = Inr None" | (row) row b where "q = Inr (Some (row, b))"
    by (metis old.sum.exhaust option.exhaust surj_pair)
  then show ?case
  proof cases
    case error
    then show ?thesis using Cons.prems q db1 by simp
  next
    case nothing
    then have "observe_each others observe d critical k xs db1 rows = (r, db', rows')"
      using Cons.prems(3) q by simp
    then show ?thesis using Cons.IH [OF db1(1) Cons.prems(2)] db1(2) ops_advances_trans by blast
  next
    case row
    obtain u db2 rows2 where u: "observer_downgrade (others k) row d critical db1 rows = (u, db2, rows2)"
      by (metis prod_cases3)
    note step = observer_downgrade_ok [OF db1(1) Cons.prems(2) assms(3) u]
    then have db2: "ops_advances db db2" using db1(2) ops_advances_trans by blast
    show ?thesis
    proof (cases u)
      case (Inl e)
      then show ?thesis using Cons.prems(3) q row u step db2 by simp
    next
      case (Inr v)
      obtain t db3 rows3 where t: "observe_each others observe d critical (k + 1) xs db2 rows2 = (t, db3, rows3)"
        by (metis prod_cases3)
      then have "db' = db3" "rows' = rows3" using Cons.prems(3) q row u Inr by simp_all
      moreover have "ops_ok db3 \<and> ops_advances db2 db3 \<and> log_ok rows3 \<and> prefix rows2 rows3"
        using Cons.IH [of db2 rows2, OF _ _ t] step by blast
      ultimately show ?thesis using step db2 ops_advances_trans prefix_order.trans by blast
    qed
  qed
qed (simp add: ops_advances_refl)

lemma observe_each_quiet:
  assumes "quiet d rows" and "observe_each (\<lambda>_. alone) observe d critical k xs db rows = (r, db', rows')"
  shows "rows' = rows"
  using assms(2)
proof (induction xs arbitrary: k db r db' rows')
  case (Cons x xs)
  have "snd (snd (observer_downgrade alone row d critical db1 rows)) = rows" for row db1
    by (rule observer_downgrade_quiet [OF assms(1)])
  then show ?case
    using Cons.prems Cons.IH
    by (auto split: prod.split_asm sum.split_asm option.split_asm) (metis Cons.IH snd_conv)+
qed simp

end

lemma trigger_incident_ok:
  assumes "ops_ok db"
  shows "ops_ok (snd (trigger_incident db t)) \<and> ops_advances db (snd (trigger_incident db t))"
  using assms open_incident_ok by (auto simp: trigger_incident_def ops_advances_refl split: sum.split)

interpretation bounces: observation observe_bounces
proof
  fix db ob assume "ops_ok db"
  then show "ops_ok (snd (observe_bounces db ob)) \<and> ops_advances db (snd (observe_bounces db ob))"
    using trigger_incident_ok [of db "bounce_trigger ob"]
    by (auto simp: observe_bounces_def ops_advances_refl split: prod.split)
qed

interpretation provider: observation observe_provider_failures
proof
  fix db ob assume "ops_ok db"
  then show "ops_ok (snd (observe_provider_failures db ob)) \<and> ops_advances db (snd (observe_provider_failures db ob))"
    using trigger_incident_ok [of db "provider_trigger ob"]
    by (auto simp: observe_provider_failures_def ops_advances_refl split: prod.split)
qed

interpretation complaints: observation
  "\<lambda>db complaint. lift_save (observe_complaint db c (re_response_evaluation_id complaint) d)" for c d
proof
  fix db complaint assume "ops_ok db"
  then show "ops_ok (snd (lift_save (observe_complaint db c (re_response_evaluation_id complaint) d))) \<and>
      ops_advances db (snd (lift_save (observe_complaint db c (re_response_evaluation_id complaint) d)))"
    using trigger_incident_ok
    by (auto simp: observe_complaint_def lift_save_def ops_advances_refl split: sum.split)
qed

text \<open>
  An observation that always records: each item leaves an incident that satisfies \<open>about\<close>.
\<close>

locale recording = observation observe
  for observe :: "ops_db \<Rightarrow> 'x \<Rightarrow> (ops_error, save_result option) result \<times> ops_db" +
  fixes about :: "'x \<Rightarrow> incident_row \<Rightarrow> bool"
  assumes records: "observe db x = (Inr s, db1) \<Longrightarrow>
      \<exists>row b. s = Some (row, b) \<and> row \<in> set (db_incidents db1) \<and> about x row"
begin

lemma observe_each_records:
  assumes "ops_ok db" and "log_ok rows" and "\<And>k n. rely_all (others k n)"
    and "observe_each others observe d critical k xs db rows = (Inr rs, db', rows')"
  shows "(\<forall>x \<in> set xs. \<exists>row \<in> set rs. about x row \<and>
        (\<exists>s \<in> set (db_incidents db'). incident_evidence s = incident_evidence row)) \<and>
      (critical \<and> others = (\<lambda>_. alone) \<and> xs \<noteq> [] \<longrightarrow> quiet d rows')"
  using assms(1,2,4)
proof (induction xs arbitrary: k db rows rs)
  case (Cons x xs)
  obtain q db1 where q: "observe db x = (q, db1)" by fastforce
  then have db1: "ops_ok db1" using observe_ok [OF Cons.prems(1), of x] by simp
  obtain s where s: "q = Inr s" using Cons.prems(3) q by (cases q) auto
  then obtain row b where row: "s = Some (row, b)" "row \<in> set (db_incidents db1)" "about x row"
    using records [OF q [unfolded s]] by blast
  obtain u db2 rows2 where u: "observer_downgrade (others k) row d critical db1 rows = (u, db2, rows2)"
    by (metis prod_cases3)
  obtain v where v: "u = Inr v" using Cons.prems(3) q s row(1) u by (cases u) auto
  note step = observer_downgrade_ok [OF db1 Cons.prems(2) assms(3) u]
  obtain t db3 rows3 where t: "observe_each others observe d critical (k + 1) xs db2 rows2 = (t, db3, rows3)"
    by (metis prod_cases3)
  then obtain rs' where rs: "t = Inr rs'" "rs = row # rs'" "db' = db3" "rows' = rows3"
    using Cons.prems(3) q s row(1) u v by (cases t) auto
  have tail: "(\<forall>x \<in> set xs. \<exists>row \<in> set rs'. about x row \<and>
        (\<exists>s \<in> set (db_incidents db'). incident_evidence s = incident_evidence row)) \<and>
      (critical \<and> others = (\<lambda>_. alone) \<and> xs \<noteq> [] \<longrightarrow> quiet d rows')"
    by (rule Cons.IH [of db2 rows2 "k + 1" rs']) (use t rs step in auto)
  have "ops_ok db2" "log_ok rows2" using step by auto
  then have "ops_advances db2 db'" using observe_each_ok [OF _ _ assms(3) t] rs by blast
  then have "ops_advances db1 db'" using step ops_advances_trans by blast
  then have kept: "\<exists>s \<in> set (db_incidents db'). incident_evidence s = incident_evidence row"
    using row(2) unfolding ops_advances_def by (auto dest: advances_all)
  have "quiet d rows'" if "critical" "others = (\<lambda>_. alone)"
    using observe_each_quiet [OF _ t [unfolded that]] step v that rs(4) by auto
  then show ?case using tail kept row(3) rs(2) by auto
qed simp

end

definition transport_incident :: "string \<Rightarrow> provider_event_row \<Rightarrow> incident_row \<Rightarrow> bool" where
  "transport_incident c e r \<longleftrightarrow> in_incident_type r = UNEXPECTED_TRANSPORT_TRUTH \<and> in_severity r = CRITICAL \<and>
     in_scope_type r = CAMPAIGN_SCOPE \<and> in_scope_ref r = py_strip c \<and>
     in_source_state_ref r = py_strip (pe_provider_event_ref e)"

lemma open_incident_row:
  assumes "open_incident db t = (Inr (row, b), db')"
  shows "row \<in> set (db_incidents db') \<and> same_incident row (incident_values t)"
  using assms lookup_row_in
  by (auto simp: open_incident_def split: sum.split_asm prod.split_asm if_split_asm) fastforce+

lemma transport_records:
  assumes "lift_save (observe_critical_transport db c (pe_provider_event_ref e) code d) = (Inr s, db1)"
  shows "\<exists>row b. s = Some (row, b) \<and> row \<in> set (db_incidents db1) \<and> transport_incident c e row"
proof -
  obtain scope t row b where run: "campaign_scope c = Inr scope" "open_incident db t = (Inr (row, b), db1)"
    "s = Some (row, b)" "IncidentTrigger (plain_trigger UNEXPECTED_TRANSPORT_TRUTH CRITICAL scope
      (pe_provider_event_ref e) d [code, ''AUTHORITATIVE_SENT_TRUTH_PRESERVED'']) = Inr t"
    using assms
    by (cases "campaign_scope c") (auto simp: lift_save_def observe_critical_transport_def trigger_incident_def
        prod_eq_iff split: if_split_asm sum.split_asm)
  have "scope = \<lparr> bs_scope_type = CAMPAIGN_SCOPE, bs_scope_ref = py_strip c \<rparr>"
    using run(1) by (simp add: campaign_scope_def BreakerScope_def Let_def split: if_split_asm)
  moreover have "t = strip_trigger (plain_trigger UNEXPECTED_TRANSPORT_TRUTH CRITICAL scope
      (pe_provider_event_ref e) d [code, ''AUTHORITATIVE_SENT_TRUTH_PRESERVED''])"
    using run(4) by (simp add: IncidentTrigger_def Let_def split: if_split_asm)
  ultimately show ?thesis
    using open_incident_row [OF run(2)] run(3)
    by (simp add: transport_incident_def same_incident_def incident_values_def strip_trigger_def plain_trigger_def)
qed

interpretation transport: recording
  "\<lambda>db e. lift_save (observe_critical_transport db c (pe_provider_event_ref e) (the (pe_incident_code e)) d)"
  "transport_incident c" for c d
proof
  fix db e assume "ops_ok db"
  then show "ops_ok (snd (lift_save (observe_critical_transport db c (pe_provider_event_ref e) (the (pe_incident_code e)) d))) \<and>
      ops_advances db (snd (lift_save (observe_critical_transport db c (pe_provider_event_ref e) (the (pe_incident_code e)) d)))"
    using trigger_incident_ok
    by (auto simp: observe_critical_transport_def lift_save_def ops_advances_refl split: sum.split)
qed (rule transport_records)

section \<open>The whole scan\<close>

lemma and_then_Inr:
  assumes "and_then p f = (Inr y, db', rows')"
  obtains x db rows where "p = (Inr x, db, rows)" and "f x db rows = (Inr y, db', rows')"
  using assms by (cases p; cases "fst p") (auto simp: and_then_def)

lemma scan_bounces_ok:
  assumes "ops_ok db" and "log_ok rows" and "\<And>k n. rely_all (others k n)"
    and "scan_bounces others campaign events d db rows = (r, db', rows')"
  shows "ops_ok db' \<and> ops_advances db db' \<and> log_ok rows' \<and> prefix rows rows'"
  using assms bounces.observe_each_ok [OF assms(1-3)]
  by (auto simp: scan_bounces_def ops_advances_refl simp del: observe_each.simps split: sum.split_asm)

lemma scan_provider_ok:
  assumes "ops_ok db" and "log_ok rows" and "\<And>k n. rely_all (others k n)"
    and "scan_provider others k c ps d db rows = (r, db', rows')"
  shows "ops_ok db' \<and> ops_advances db db' \<and> log_ok rows' \<and> prefix rows rows' \<and>
    (others = (\<lambda>_. alone) \<and> quiet d rows \<longrightarrow> rows' = rows)"
  using assms provider.observe_each_ok [OF assms(1-3)] provider.observe_each_quiet
  by (auto simp: scan_provider_def Let_def ops_advances_refl simp del: observe_each.simps split: sum.split_asm)

lemma scan_parts:
  assumes "scan_campaign others ct c d db rows = (Inr refs, db', rows')"
  obtains campaign r1 db1 rows1 r2 db2 rows2 r3 db3 rows3 r4
  where "scan_bounces others campaign (campaign_events ct c) d db rows = (Inr r1, db1, rows1)"
    and "scan_complaints others (length r1) c (campaign_complaints ct c) d db1 rows1 = (Inr r2, db2, rows2)"
    and "scan_transport others (length (r1 @ r2)) c (campaign_events ct c) d db2 rows2 = (Inr r3, db3, rows3)"
    and "scan_provider others (length (r1 @ r2 @ r3)) c (campaign_operations ct c) d db3 rows3 = (Inr r4, db', rows')"
    and "refs = sorted_set (map in_incident_ref (r1 @ r2 @ r3 @ r4))"
  using assms
  by (auto simp: scan_campaign_def Let_def split: if_split_asm option.split_asm elim!: and_then_Inr)

lemma set_sorted_set [simp]: "set (sorted_set xs) = set xs"
  by (simp add: sorted_set_def)

lemma transport_incident_evidence:
  "incident_evidence s = incident_evidence r \<Longrightarrow> transport_incident c e r \<Longrightarrow> transport_incident c e s"
  by (cases r, cases s) (simp add: incident_evidence_def transport_incident_def)

lemma quiet_blocks:
  assumes "quiet d rows" and "gateway_snapshot rows r d usage None = Inr s"
  shows "\<not> pd_executable (evaluate_policy r s (instant_of d))"
  using assms
  by (auto simp: quiet_def gateway_snapshot_def snapshot_of_def Let_def evaluate_status is_exact_critical_stop_def
      split: if_split_asm)

text \<open>
  C16. A scan that finds critical transport evidence stops the programme. When the scan of a campaign
  returns and the campaign has a provider event with a critical code, a CRITICAL incident for that
  event is stored in the scope of the campaign and reported; the tables only advanced and the control
  log only grew, whatever other processes did to it meanwhile; and if they left it alone, no request
  executes through the gateway at the instant of the scan, even though the scan may go on to lower
  the control for other incidents after the stop.
\<close>

theorem critical_scan_stops:
  assumes "ops_ok db" and "log_ok rows" and "\<And>k n. rely_all (others k n)"
    and "scan_campaign others ct c d db rows = (Inr refs, db', rows')"
    and "e \<in> set (ct_events ct)" and "pe_campaign_ref e = c"
    and "pe_incident_code e = Some code" and "code \<in> set CRITICAL_TRANSPORT_CODES"
  shows "(\<exists>s \<in> set (db_incidents db'). transport_incident c e s \<and> in_incident_ref s \<in> set refs) \<and>
    ops_ok db' \<and> ops_advances db db' \<and> log_ok rows' \<and> prefix rows rows' \<and>
    (others = (\<lambda>_. alone) \<longrightarrow> (\<forall>r usage s. gateway_snapshot rows' r d usage None = Inr s \<longrightarrow>
       \<not> pd_executable (evaluate_policy r s (instant_of d))))"
proof -
  obtain campaign r1 db1 rows1 r2 db2 rows2 r3 db3 rows3 r4 where
    b: "scan_bounces others campaign (campaign_events ct c) d db rows = (Inr r1, db1, rows1)" and
    p: "scan_complaints others (length r1) c (campaign_complaints ct c) d db1 rows1 = (Inr r2, db2, rows2)" and
    t: "scan_transport others (length (r1 @ r2)) c (campaign_events ct c) d db2 rows2 = (Inr r3, db3, rows3)" and
    q: "scan_provider others (length (r1 @ r2 @ r3)) c (campaign_operations ct c) d db3 rows3 = (Inr r4, db', rows')" and
    refs: "refs = sorted_set (map in_incident_ref (r1 @ r2 @ r3 @ r4))"
    using scan_parts [OF assms(4)] .
  note ok1 = scan_bounces_ok [OF assms(1-3) b]
  then have ok1': "ops_ok db1" "log_ok rows1" by blast+
  note ok2 = complaints.observe_each_ok [OF ok1' assms(3) p [unfolded scan_complaints_def]]
  then have ok2': "ops_ok db2" "log_ok rows2" by blast+
  note ok3 = transport.observe_each_ok [OF ok2' assms(3) t [unfolded scan_transport_def]]
  note rec3 = transport.observe_each_records [OF ok2' assms(3) t [unfolded scan_transport_def]]
  have ok3': "ops_ok db3" "log_ok rows3" using ok3 by blast+
  note ok4 = scan_provider_ok [OF ok3' assms(3) q]
  have "e \<in> set (critical_events (campaign_events ct c))"
    using assms(5-8) by (simp add: critical_events_def campaign_events_def)
  then obtain row s where row: "row \<in> set r3" "transport_incident c e row"
    "s \<in> set (db_incidents db3)" "incident_evidence s = incident_evidence row"
    and stopped: "others = (\<lambda>_. alone) \<longrightarrow> quiet d rows3" using rec3 by fastforce
  obtain s' where s': "s' \<in> set (db_incidents db')" "incident_evidence s' = incident_evidence s"
    using ok4 row(3) unfolding ops_advances_def by (auto dest: advances_all)
  have "transport_incident c e s'" "in_incident_ref s' = in_incident_ref row"
    using transport_incident_evidence row(2,4) s'(2) incident_evidence_fields(1) by metis+
  then have "\<exists>s \<in> set (db_incidents db'). transport_incident c e s \<and> in_incident_ref s \<in> set refs"
    using s'(1) row(1) refs by auto
  moreover have "quiet d rows'" if "others = (\<lambda>_. alone)" using that stopped ok4 by simp
  moreover have "ops_advances db db'" using ok1 ok2 ok3 ok4 by (blast intro: ops_advances_trans)
  moreover have "prefix rows rows'" using ok1 ok2 ok3 ok4 by (blast intro: prefix_order.trans)
  ultimately show ?thesis using ok4 quiet_blocks by blast
qed

text \<open>
  A bounce rate with more than eight decimals aborts the whole scan. When more than one message
  in twenty bounced and the rate is not representable in its column, the scan raises before it looks
  at complaints, critical transport events or provider failures: no incident is stored, no control is
  lowered or stopped, whatever those tables hold, and a repetition of the scan fares no better.
\<close>

theorem off_grid_bounce_aborts_scan:
  assumes "is_aware d" and "List.find (\<lambda>x. cr_campaign_ref x = c) (ct_campaigns ct) = Some campaign"
    and "campaign_scope c = Inr scope"
    and "BounceObservation (scanned_bounces campaign (campaign_events ct c) d scope) = Inr ob"
    and "bounce_excess ob" and "\<not> on_grid 8 (bounce_rate ob)"
    and "IncidentTrigger (bounce_trigger ob) = Inr t"
    and "unused t db" and "campaign_known db (it_campaign_ref t)"
    and "incident_row_ok (stored_incident (incident_values t))"
  shows "scan_campaign others ct c d db rows = (Inl (ScanOpsError OperationsConflict), db, rows)"
proof -
  have "\<not> storable t" using trigger_values(3) [OF assms(7)] assms(6) by (simp add: storable_def bounce_trigger_def)
  then have "trigger_incident db (bounce_trigger ob) = (Inl OperationsConflict, db)"
    using open_new [OF assms(8-10)] assms(7) by (simp add: trigger_incident_def)
  then have "observe_bounces db ob = (Inl OperationsConflict, db)"
    using observe_bounces_excess [OF assms(4)] assms(5) by simp
  moreover have "cr_campaign_ref campaign = c" using assms(2) by (auto dest: find_Some_set)
  ultimately show ?thesis
    using assms(1-4) by (simp add: scan_campaign_def scan_bounces_def Let_def and_then_def)
qed

section \<open>Sample scans\<close>

lemma hash_ref: "clean_str 256 (canonical_fingerprint x v)" "safe_ref (canonical_fingerprint x v)"
  "py_strip (canonical_fingerprint x v) = canonical_fingerprint x v"
proof -
  define h where "h = canonical_fingerprint x v"
  have strip: "py_strip h = h" "length h = 64"
    by (simp_all add: h_def canonical_fingerprint_def fingerprint_strip fingerprint_columns)
  have hex: "is_lower_hex c" if "c \<in> set h" for c
    using that is_fingerprint_sha256 by (auto simp: h_def canonical_fingerprint_def is_fingerprint_def)
  have plain: "c \<noteq> CHR ''@'' \<and> c \<noteq> CHR '':'' \<and> \<not> is_space c" if "c \<in> set h" for c
    using hex [OF that] by (auto simp: is_lower_hex_def is_digit_def is_space_def Let_def)
  have "\<not> py_contains s ''://''" if "\<forall>c \<in> set s. c \<noteq> CHR '':''" for s
    using that by (induction s) (auto simp: startswith_def)
  then have "internal_ref h" using plain by (auto simp: internal_ref_def list_ex_iff)
  then show "clean_str 256 (canonical_fingerprint x v)" "safe_ref (canonical_fingerprint x v)"
    "py_strip (canonical_fingerprint x v) = canonical_fingerprint x v"
    using strip by (simp_all add: safe_ref_def clean_str_def h_def [symmetric])
qed

definition sample_campaign :: campaign_row where
  "sample_campaign = \<lparr> cr_campaign_ref = ''c1'', cr_wedge = ''w1'', cr_country = ''CH'' \<rparr>"

definition scan_event :: "string \<Rightarrow> string \<Rightarrow> string option \<Rightarrow> string option \<Rightarrow> provider_event_row" where
  "scan_event ref ty member code = \<lparr> pe_provider_event_ref = ref, pe_campaign_ref = ''c1'',
     pe_provider_event_type = ty, pe_member_ref = member, pe_step = Some 1, pe_occurred_at = 1,
     pe_incident_code = code \<rparr>"

definition sample_duplicate :: provider_event_row where
  "sample_duplicate = scan_event ''e0'' ''email_opened'' None (Some ''DUPLICATE_BUSINESS_SEND'')"

definition sample_tables :: "nat \<Rightarrow> campaign_tables" where
  \<comment> \<open>\<open>n\<close> messages sent, the first two bounced, and one critical event\<close>
  "sample_tables n = \<lparr> ct_campaigns = [sample_campaign],
     ct_events = sample_duplicate #
       map (\<lambda>i. scan_event (''s'' @ nat_str i) ''email_sent'' (Some (nat_str i)) None) [0..<n] @
       map (\<lambda>i. scan_event (''b'' @ nat_str i) ''email_bounced'' (Some (nat_str i)) None) [0..<2],
     ct_evaluations = [], ct_operations = [] \<rparr>"

definition scan_db :: ops_db where "scan_db = empty_db\<lparr> db_campaigns := [''c1''] \<rparr>"

definition sample_scope1 :: breaker_scope where
  "sample_scope1 = \<lparr> bs_scope_type = CAMPAIGN_SCOPE, bs_scope_ref = ''c1'' \<rparr>"

lemma sample_scope1_valid: "campaign_scope ''c1'' = Inr sample_scope1" by code_simp

definition scanned :: "nat \<Rightarrow> bounce_observation" where
  "scanned n = (scanned_bounces sample_campaign (campaign_events (sample_tables n) ''c1'') sample_clock sample_scope1)
     \<lparr> bo_observed_at := to_utc sample_clock \<rparr>"

lemma scanned_valid:
  assumes "wf_bounce ((scanned n)\<lparr> bo_source_state_ref := ''x'' \<rparr>)"
    and "map py_strip (bo_authoritative_step1_members (scanned n)) = bo_authoritative_step1_members (scanned n)"
    and "map py_strip (bo_bounced_step1_members (scanned n)) = bo_bounced_step1_members (scanned n)"
  shows "BounceObservation (scanned_bounces sample_campaign (campaign_events (sample_tables n) ''c1'') sample_clock sample_scope1)
    = Inr (scanned n)"
proof -
  let ?raw = "scanned_bounces sample_campaign (campaign_events (sample_tables n) ''c1'') sample_clock sample_scope1"
  have texts: "py_strip ''c1'' = ''c1''" "py_strip ''w1'' = ''w1''" "py_strip ''CH'' = ''CH''" "is_aware sample_clock"
    by code_simp+
  have "wf_bounce (scanned n)"
    using assms(1) hash_ref(1) by (simp add: wf_bounce_def Let_def scanned_def scanned_bounces_def)
  moreover have "?raw\<lparr> bo_authoritative_step1_members := map py_strip (bo_authoritative_step1_members ?raw),
            bo_bounced_step1_members := map py_strip (bo_bounced_step1_members ?raw),
            bo_source_state_ref := py_strip (bo_source_state_ref ?raw),
            bo_observed_at := to_utc (bo_observed_at ?raw),
            bo_campaign_ref := map_option py_strip (bo_campaign_ref ?raw),
            bo_mailbox_ref := map_option py_strip (bo_mailbox_ref ?raw),
            bo_wedge := map_option py_strip (bo_wedge ?raw),
            bo_country := map_option py_strip (bo_country ?raw) \<rparr> = scanned n"
    using assms(2,3) texts hash_ref(3)
    by (simp add: scanned_def scanned_bounces_def Let_def sample_campaign_def)
  moreover have "is_aware (bo_observed_at ?raw)" using texts by (simp add: scanned_bounces_def Let_def)
  ultimately show ?thesis by (simp only: BounceObservation_def Let_def simp_thms if_True)
qed

lemma scanned_members:
  "bo_authoritative_step1_members (scanned n) = sent_members (campaign_events (sample_tables n) ''c1'')"
  "bo_bounced_step1_members (scanned n) = bounced_members (campaign_events (sample_tables n) ''c1'')"
  by (simp_all add: scanned_def scanned_bounces_def Let_def)

definition plain_scanned :: "nat \<Rightarrow> bounce_observation" where
  \<comment> \<open>the observation with its source reference left out\<close>
  "plain_scanned n = \<lparr> bo_scope = sample_scope1,
     bo_authoritative_step1_members = sent_members (campaign_events (sample_tables n) ''c1''),
     bo_bounced_step1_members = bounced_members (campaign_events (sample_tables n) ''c1''),
     bo_source_state_ref = ''x'', bo_observed_at = to_utc sample_clock, bo_campaign_ref = Some ''c1'',
     bo_mailbox_ref = None, bo_wedge = Some ''w1'', bo_country = Some ''CH'' \<rparr>"

lemma plain_scanned_eq: "(scanned n)\<lparr> bo_source_state_ref := ''x'' \<rparr> = plain_scanned n"
  by (simp add: scanned_def scanned_bounces_def plain_scanned_def Let_def sample_campaign_def)

lemma plain_scanned_ok:
  "wf_bounce (plain_scanned 0) \<and> bo_authoritative_step1_members (plain_scanned 0) = [] \<and>
     bo_bounced_step1_members (plain_scanned 0) = []"
  "wf_bounce (plain_scanned 21) \<and> bounce_excess (plain_scanned 21) \<and> \<not> on_grid 8 (bounce_rate (plain_scanned 21)) \<and>
     map py_strip (bo_authoritative_step1_members (plain_scanned 21)) = bo_authoritative_step1_members (plain_scanned 21) \<and>
     map py_strip (bo_bounced_step1_members (plain_scanned 21)) = bo_bounced_step1_members (plain_scanned 21)"
  by code_simp+

definition off_grid_trigger :: incident_trigger where
  "off_grid_trigger = strip_trigger (bounce_trigger (scanned 21))"

lemma plain_trigger_fields:
  "it_source_state_ref (strip_trigger (bounce_trigger (scanned n))) = bo_source_state_ref (scanned n)"
  "(strip_trigger (bounce_trigger (scanned n)))\<lparr> it_source_state_ref := ''x'' \<rparr> =
     strip_trigger (bounce_trigger (plain_scanned n))"
proof -
  have x: "py_strip ''x'' = ''x''" by code_simp
  show "it_source_state_ref (strip_trigger (bounce_trigger (scanned n))) = bo_source_state_ref (scanned n)"
    by (simp add: strip_trigger_def bounce_trigger_def plain_trigger_def scanned_def scanned_bounces_def
        Let_def hash_ref(3))
  show "(strip_trigger (bounce_trigger (scanned n)))\<lparr> it_source_state_ref := ''x'' \<rparr> =
     strip_trigger (bounce_trigger (plain_scanned n))"
    by (simp add: strip_trigger_def bounce_trigger_def plain_trigger_def bounce_rate_def x
        flip: plain_scanned_eq)
qed

lemma off_grid_plain:
  "wf_trigger (strip_trigger (bounce_trigger (plain_scanned 21))) \<and>
   trigger_fits (strip_trigger (bounce_trigger (plain_scanned 21)))"
  by code_simp

lemma hash_fits: "fits 256 (Some (canonical_fingerprint x v))"
  by (simp add: fits_def canonical_fingerprint_def fingerprint_columns)

lemma off_grid_trigger_ok: "wf_trigger off_grid_trigger" "trigger_fits off_grid_trigger"
proof -
  have src: "\<exists>v. it_source_state_ref off_grid_trigger = canonical_fingerprint ''campaign-bounce-observation:v1'' v"
    unfolding off_grid_trigger_def plain_trigger_fields(1) by (auto simp: scanned_def scanned_bounces_def Let_def)
  have "wf_trigger (off_grid_trigger\<lparr> it_source_state_ref := ''x'' \<rparr>)"
    "trigger_fits (off_grid_trigger\<lparr> it_source_state_ref := ''x'' \<rparr>)"
    using off_grid_plain by (simp_all add: off_grid_trigger_def plain_trigger_fields(2))
  then show "wf_trigger off_grid_trigger" "trigger_fits off_grid_trigger"
    using src hash_ref(2) hash_fits by (auto simp: wf_trigger_def trigger_fits_def)
qed

theorem off_grid_bounce_aborts_scan_witness:
  "scan_campaign (\<lambda>_. alone) (sample_tables 21) ''c1'' sample_clock scan_db sample_log =
     (Inl (ScanOpsError OperationsConflict), scan_db, sample_log)"
proof (rule off_grid_bounce_aborts_scan)
  show "is_aware sample_clock" by code_simp
  show "List.find (\<lambda>x. cr_campaign_ref x = ''c1'') (ct_campaigns (sample_tables 21)) = Some sample_campaign"
    by (simp add: sample_tables_def sample_campaign_def)
  show "campaign_scope ''c1'' = Inr sample_scope1" by (rule sample_scope1_valid)
  have plain: "bo_authoritative_step1_members (scanned 21) = bo_authoritative_step1_members (plain_scanned 21)"
    "bo_bounced_step1_members (scanned 21) = bo_bounced_step1_members (plain_scanned 21)"
    by (simp_all add: scanned_members plain_scanned_def)
  show "BounceObservation (scanned_bounces sample_campaign (campaign_events (sample_tables 21) ''c1'') sample_clock sample_scope1)
      = Inr (scanned 21)"
    by (rule scanned_valid) (use plain_scanned_ok(2) in \<open>simp_all add: plain_scanned_eq plain\<close>)
  show "bounce_excess (scanned 21)" "\<not> on_grid 8 (bounce_rate (scanned 21))"
    using plain_scanned_ok(2) by (simp_all add: bounce_excess_def bounce_rate_def plain)
  show "IncidentTrigger (bounce_trigger (scanned 21)) = Inr off_grid_trigger"
    using off_grid_trigger_ok(1)
    by (simp add: IncidentTrigger_def off_grid_trigger_def Let_def)
       (simp add: bounce_trigger_def plain_trigger_def scanned_def)
  show "unused off_grid_trigger scan_db" by (simp add: unused_def scan_db_def empty_db_def)
  have "it_campaign_ref (strip_trigger (bounce_trigger (plain_scanned 21))) = Some ''c1''" by code_simp
  then have "it_campaign_ref off_grid_trigger = Some ''c1''"
    by (simp add: off_grid_trigger_def flip: plain_trigger_fields(2))
  then show "campaign_known scan_db (it_campaign_ref off_grid_trigger)"
    by (simp add: campaign_known_def scan_db_def)
  show "incident_row_ok (stored_incident (incident_values off_grid_trigger))"
    using off_grid_trigger_ok(2) trigger_fits_iff by blast
qed

subsection \<open>A scan that stops\<close>

definition duplicate_trigger :: incident_trigger where
  "duplicate_trigger = strip_trigger (plain_trigger UNEXPECTED_TRANSPORT_TRUTH CRITICAL sample_scope1 ''e0''
     sample_clock [''DUPLICATE_BUSINESS_SEND'', ''AUTHORITATIVE_SENT_TRUTH_PRESERVED''])"

lemma duplicate_trigger_ok:
  "wf_trigger duplicate_trigger \<and> trigger_fits duplicate_trigger \<and> storable duplicate_trigger \<and>
   it_campaign_ref duplicate_trigger = None"
  by code_simp

definition duplicate_db :: "incident_row \<Rightarrow> ops_db" where
  "duplicate_db r = scan_db\<lparr> db_incidents := [r] \<rparr>"

lemma duplicate_observed:
  "observe_critical_transport scan_db ''c1'' ''e0'' ''DUPLICATE_BUSINESS_SEND'' sample_clock =
     (Inr (incident_values duplicate_trigger, False), duplicate_db (incident_values duplicate_trigger))"
proof -
  have "open_incident scan_db duplicate_trigger =
      (Inr (incident_values duplicate_trigger, False), duplicate_db (incident_values duplicate_trigger))"
    using open_new [of duplicate_trigger scan_db] duplicate_trigger_ok trigger_fits_iff [of duplicate_trigger]
    by (simp add: unused_def scan_db_def empty_db_def duplicate_db_def campaign_known_def)
  moreover have "is_aware sample_clock" "''DUPLICATE_BUSINESS_SEND'' \<in> set CRITICAL_TRANSPORT_CODES" by code_simp+
  ultimately show ?thesis
    using duplicate_trigger_ok sample_scope1_valid
    by (simp add: observe_critical_transport_def trigger_incident_def IncidentTrigger_def Let_def
        duplicate_trigger_def [symmetric]) (simp add: plain_trigger_def)
qed

lemma stopped_reads:
  "get_effective_control sample_stopped sample_clock = Inr sample_stop"
  "get_latest_control sample_stopped = Inr sample_stop" "is_exact_critical_stop sample_stop"
  "fits 64 (Some (pc_policy_snapshot_id sample_stop))"
  by code_simp+

lemma stop_again: "critical_stop alone sample_clock codes sample_stopped = (Inr sample_stop, sample_stopped)"
  using stopped_reads by (simp add: critical_stop_def MAX_CONTROL_APPEND_ATTEMPTS_def upt_rec)

lemma duplicate_downgrade:
  "\<exists>db. observer_downgrade alone (incident_values duplicate_trigger) sample_clock True
     (duplicate_db (incident_values duplicate_trigger)) sample_stopped = (Inr (), db, sample_stopped)"
proof -
  let ?r = "incident_values duplicate_trigger"
  have ok: "incident_row_ok ?r" using duplicate_trigger_ok trigger_fits_iff [of duplicate_trigger] stored_id by metis
  have lineage: "in_policy_control_before ?r = None" "in_policy_control_after ?r = None"
    by (simp_all add: incident_values_def duplicate_trigger_def strip_trigger_def plain_trigger_def)
  have bound: "incident_row_ok (bind_write (Some (pc_policy_snapshot_id sample_stop))
      (Some (pc_policy_snapshot_id sample_stop)) t ?r)" for t
    using ok stopped_reads(4)
    by (simp add: incident_row_ok_def bind_write_def incident_lifecycle_def split: incident_state.splits)
  have "\<exists>row db. bind_incident_policy_controls (duplicate_db ?r) (duplicate_db ?r) (in_incident_ref ?r)
      (pc_policy_snapshot_id sample_stop) (pc_policy_snapshot_id sample_stop) (instant_of sample_clock) = (Inr row, db)"
    using lineage bound
    by (simp add: bind_incident_policy_controls_def get_incident_def lookup_row_def duplicate_db_def
        write_incident_def update_rows_def bind_write_def)
  then show ?thesis by (auto simp: observer_downgrade_def stopped_reads(1) stop_again)
qed

lemma no_bounces:
  "scan_bounces (\<lambda>_. alone) sample_campaign (campaign_events (sample_tables 0) ''c1'') sample_clock scan_db rows =
     (Inr [], scan_db, rows)"
proof -
  have plain: "bo_authoritative_step1_members (scanned 0) = []" "bo_bounced_step1_members (scanned 0) = []"
    using plain_scanned_ok(1) by (simp_all add: scanned_members plain_scanned_def)
  have "BounceObservation (scanned_bounces sample_campaign (campaign_events (sample_tables 0) ''c1'') sample_clock sample_scope1)
      = Inr (scanned 0)"
    by (rule scanned_valid) (use plain_scanned_ok(1) in \<open>simp_all add: plain_scanned_eq plain\<close>)
  moreover have "cr_campaign_ref sample_campaign = ''c1''" by (simp add: sample_campaign_def)
  ultimately show ?thesis
    using sample_scope1_valid plain by (simp add: scan_bounces_def observe_bounces_def BOUNCE_MINIMUM_SAMPLE_def)
qed

lemma no_provider_failures:
  "scan_provider (\<lambda>_. alone) k ''c1'' [] sample_clock db rows = (Inr [], db, rows)"
proof -
  have "is_aware sample_clock" "py_strip ''c1'' = ''c1''" "clean_str 256 ''c1''" "safe_ref (bs_scope_ref sample_scope1)"
    by code_simp+
  then show ?thesis
    using sample_scope1_valid hash_ref
    by (simp add: scan_provider_def Let_def ProviderFailureObservation_def observe_provider_failures_def
        qualifying_failures_def PROVIDER_FAILURE_THRESHOLD_def)
qed

lemma sample_critical_events: "critical_events (campaign_events (sample_tables 0) ''c1'') = [sample_duplicate]"
  "campaign_complaints (sample_tables 0) ''c1'' = []" "campaign_operations (sample_tables 0) ''c1'' = []"
  by code_simp+

lemma sample_scan:
  "\<exists>db. scan_campaign (\<lambda>_. alone) (sample_tables 0) ''c1'' sample_clock scan_db sample_stopped =
     (Inr [incident_ref duplicate_trigger], db, sample_stopped)"
proof -
  obtain db where db: "observer_downgrade alone (incident_values duplicate_trigger) sample_clock True
     (duplicate_db (incident_values duplicate_trigger)) sample_stopped = (Inr (), db, sample_stopped)"
    using duplicate_downgrade by blast
  have event: "pe_provider_event_ref sample_duplicate = ''e0''"
    "pe_incident_code sample_duplicate = Some ''DUPLICATE_BUSINESS_SEND''"
    by (simp_all add: sample_duplicate_def scan_event_def)
  have "scan_transport (\<lambda>_. alone) 0 ''c1'' (campaign_events (sample_tables 0) ''c1'') sample_clock scan_db sample_stopped
      = (Inr [incident_values duplicate_trigger], db, sample_stopped)"
    using duplicate_observed db by (simp add: scan_transport_def sample_critical_events event lift_save_def)
  moreover have "is_aware sample_clock" by code_simp
  moreover have "List.find (\<lambda>x. cr_campaign_ref x = ''c1'') (ct_campaigns (sample_tables 0)) = Some sample_campaign"
    by (simp add: sample_tables_def sample_campaign_def)
  ultimately show ?thesis
    using no_bounces no_provider_failures
    by (simp add: scan_campaign_def Let_def and_then_def scan_complaints_def sample_critical_events sorted_set_def
        values_keys)
qed

theorem critical_scan_stops_witness:
  "\<exists>db refs. scan_campaign (\<lambda>_. alone) (sample_tables 0) ''c1'' sample_clock scan_db sample_stopped =
     (Inr refs, db, sample_stopped) \<and> (\<exists>s \<in> set (db_incidents db). transport_incident ''c1'' sample_duplicate s)"
proof -
  obtain db where run: "scan_campaign (\<lambda>_. alone) (sample_tables 0) ''c1'' sample_clock scan_db sample_stopped =
     (Inr [incident_ref duplicate_trigger], db, sample_stopped)" using sample_scan by blast
  have "ops_ok scan_db" by (simp add: ops_ok_def scan_db_def empty_db_def)
  moreover have "sample_duplicate \<in> set (ct_events (sample_tables 0))" "pe_campaign_ref sample_duplicate = ''c1''"
    "pe_incident_code sample_duplicate = Some ''DUPLICATE_BUSINESS_SEND''"
    by (simp_all add: sample_tables_def sample_duplicate_def scan_event_def)
  moreover have "''DUPLICATE_BUSINESS_SEND'' \<in> set CRITICAL_TRANSPORT_CODES" by code_simp
  ultimately have "\<exists>s \<in> set (db_incidents db). transport_incident ''c1'' sample_duplicate s"
    using critical_scan_stops [OF _ sample_stopped_ok rely_alone run, of sample_duplicate] by blast
  then show ?thesis using run by blast
qed

end
