(* ===== verification/OpsHealth.thy ===== *)
theory OpsHealth
  imports OpsStore PolicyBootstrap
begin

text \<open>
  \<open>operations/health.py\<close>, \<open>readiness.py\<close>, \<open>evidence.py\<close> and \<open>service.py\<close>: how the stored state is
  summarised as operational health and as the highest mode the programme is ready for.

  The service reads the incidents, the dead letters, the control log and the last observation of the
  runtime. The observation is an argument, already parsed, or the fact that it is absent or that its
  row could not be parsed; so are the Hermes pin of the lock file and whether the database answered.
\<close>

section \<open>Health\<close>

datatype health_status = HEALTH_READY | DEGRADED | HEALTH_NOT_READY

record hermes_identity =
  hi_repository :: string
  hi_tag :: string
  hi_commit :: string
  hi_version :: string
  hi_python_contract :: string

record health_component =
  hc_status :: health_status
  hc_reason_codes :: "string list"

definition verify_hermes_runtime :: "hermes_identity option \<Rightarrow> hermes_identity \<Rightarrow> health_component" where
  "verify_hermes_runtime observed pin =
     (case observed of
        None \<Rightarrow> \<lparr> hc_status = HEALTH_NOT_READY, hc_reason_codes = [''HERMES_RUNTIME_UNCONFIGURED''] \<rparr>
      | Some actual \<Rightarrow>
          if actual \<noteq> pin
          then \<lparr> hc_status = HEALTH_NOT_READY, hc_reason_codes = [''HERMES_RUNTIME_IDENTITY_MISMATCH''] \<rparr>
          else \<lparr> hc_status = HEALTH_READY, hc_reason_codes = [] \<rparr>)"

record health_evidence =
  he_observed_at :: instant
  he_api :: health_status
  he_database :: health_status
  he_hermes_runtime :: health_status
  he_supervisor_loop :: health_status
  he_policy_control :: health_status
  he_campaign_execution :: health_status
  he_dlq :: health_status
  he_circuit_breakers :: health_status
  he_reason_codes :: "string list"

record operational_health = health_evidence +
  oh_status :: health_status

definition HealthEvidence :: "health_evidence \<Rightarrow> (ops_error, health_evidence) result" where
  "HealthEvidence e =
     (let e' = e\<lparr> he_reason_codes := map py_strip (he_reason_codes e) \<rparr> in
      if length (he_reason_codes e') \<le> 32 \<and> list_all safe_code (he_reason_codes e')
      then Inr e' else Inl OpsValueError)"

definition least_ready :: "health_status list \<Rightarrow> health_status" where
  "least_ready xs = (if HEALTH_NOT_READY \<in> set xs then HEALTH_NOT_READY
     else if DEGRADED \<in> set xs then DEGRADED else HEALTH_READY)"

definition sorted_codes :: "string list \<Rightarrow> string list" where
  \<comment> \<open>\<open>tuple(sorted(set(..)))\<close>\<close>
  "sorted_codes xs = sort (remdups xs)"

definition health_values :: "health_evidence \<Rightarrow> health_status list" where
  "health_values e = [he_api e, he_database e, he_hermes_runtime e, he_supervisor_loop e,
     he_policy_control e, he_campaign_execution e, he_dlq e, he_circuit_breakers e]"

definition evaluate_health :: "health_evidence \<Rightarrow> operational_health" where
  "evaluate_health e =
     health_evidence.extend (e\<lparr> he_reason_codes := sorted_codes (he_reason_codes e) \<rparr>)
       (operational_health.fields (least_ready (health_values e)))"

section \<open>Gates\<close>

datatype gate_status = GATE_READY | GATE_NOT_READY | INSUFFICIENT_EVIDENCE

record gate_evidence =
  ge_status :: gate_status
  ge_reason_codes :: "string list"
  ge_evidence_refs :: "string list"

definition GateEvidence :: "gate_evidence \<Rightarrow> (ops_error, gate_evidence) result" where
  "GateEvidence g =
     (let g' = g\<lparr> ge_reason_codes := map py_strip (ge_reason_codes g),
                  ge_evidence_refs := map py_strip (ge_evidence_refs g) \<rparr> in
      if length (ge_reason_codes g') \<le> 16 \<and> list_all safe_code (ge_reason_codes g') \<and>
         length (ge_evidence_refs g') \<le> 32 \<and> list_all (clean_str 256) (ge_evidence_refs g')
      then Inr g' else Inl OpsValueError)"

definition gate :: "gate_status \<Rightarrow> string list \<Rightarrow> string list \<Rightarrow> gate_evidence" where
  "gate s codes refs = \<lparr> ge_status = s, ge_reason_codes = codes, ge_evidence_refs = refs \<rparr>"

record readiness_evidence =
  rn_evaluated_at :: instant
  rn_h_a_runtime :: gate_evidence
  rn_h_b_state :: gate_evidence
  rn_h_c_policy :: gate_evidence
  rn_h_d_shadow :: gate_evidence
  rn_h_e_capped :: gate_evidence
  rn_h_f_closed_loop :: gate_evidence
  rn_h_g_precision :: gate_evidence

record autonomous_readiness = readiness_evidence +
  ar_highest_safe_mode :: autonomy_mode
  ar_blockers :: "string list"
  ar_evidence_refs :: "string list"

definition repository_default :: "instant \<Rightarrow> readiness_evidence" where
  "repository_default evaluated_at =
     \<lparr> rn_evaluated_at = evaluated_at,
       rn_h_a_runtime = gate GATE_NOT_READY [''HERMES_RUNTIME_UNCONFIGURED'', ''ENVIRONMENT_UNCONFIGURED''] [],
       rn_h_b_state = gate GATE_READY [''DURABLE_REPLAY_CONTRACTS_PRESENT''] [''acquisition-state-v1''],
       rn_h_c_policy = gate GATE_READY [''POLICY_COMMAND_COVERAGE_PRESENT''] [''acquisition-policy-v1''],
       rn_h_d_shadow = gate INSUFFICIENT_EVIDENCE [''HUMAN_REVIEW_TRUTH_UNAVAILABLE''] [],
       rn_h_e_capped = gate GATE_NOT_READY [''PRODUCTION_MAILBOX_UNCONFIGURED'', ''COST_COVERAGE_INCOMPLETE''] [],
       rn_h_f_closed_loop = gate GATE_READY [''CLOSED_LOOP_IDENTITIES_PRESENT''] [''weekly-commercial-cockpit-v1''],
       rn_h_g_precision = gate GATE_NOT_READY [''ALLOCATION_ENVELOPE_UNCONFIGURED''] [''wedge-economic-value-v1''] \<rparr>"

definition gates :: "readiness_evidence \<Rightarrow> gate_evidence list" where
  "gates e = [rn_h_a_runtime e, rn_h_b_state e, rn_h_c_policy e, rn_h_d_shadow e, rn_h_e_capped e,
     rn_h_f_closed_loop e, rn_h_g_precision e]"

definition all_ready :: "gate_evidence list \<Rightarrow> bool" where
  "all_ready gs \<longleftrightarrow> list_all (\<lambda>g. ge_status g = GATE_READY) gs"

definition ready_mode :: "readiness_evidence \<Rightarrow> autonomy_mode" where
  "ready_mode e =
     (if all_ready (gates e) then ADAPTIVE_VOLUME
      else if all_ready [rn_h_a_runtime e, rn_h_b_state e, rn_h_c_policy e, rn_h_e_capped e] then AUTONOMOUS_CAPPED
      else if all_ready [rn_h_a_runtime e, rn_h_b_state e, rn_h_c_policy e] then ASSISTED
      else SHADOW)"

definition evaluate_readiness :: "readiness_evidence \<Rightarrow> autonomous_readiness" where
  "evaluate_readiness e =
     readiness_evidence.extend e (autonomous_readiness.fields (ready_mode e)
       (sorted_codes (concat (map ge_reason_codes (filter (\<lambda>g. ge_status g \<noteq> GATE_READY) (gates e)))))
       (sorted_codes (concat (map ge_evidence_refs (gates e)))))"

section \<open>Evidence of single gates\<close>

record shadow_facts =
  sf_shadow_decision_count :: int
  sf_human_review_count :: int
  sf_agreement_count :: int
  sf_disagreement_count :: int
  sf_outcome_refs :: "string list"

definition ShadowEvidenceFacts :: "shadow_facts \<Rightarrow> (ops_error, shadow_facts) result" where
  "ShadowEvidenceFacts f =
     (let f' = f\<lparr> sf_outcome_refs := map py_strip (sf_outcome_refs f) \<rparr>;
          compared = sf_agreement_count f + sf_disagreement_count f in
      if 0 \<le> sf_shadow_decision_count f \<and> 0 \<le> sf_human_review_count f \<and> 0 \<le> sf_agreement_count f \<and>
         0 \<le> sf_disagreement_count f \<and> length (sf_outcome_refs f') \<le> 100 \<and>
         list_all (clean_str 256) (sf_outcome_refs f') \<and>
         compared \<le> sf_shadow_decision_count f \<and> compared \<le> sf_human_review_count f
      then Inr f' else Inl OpsValueError)"

definition evaluate_shadow_evidence :: "shadow_facts \<Rightarrow> (ops_error, gate_evidence) result" where
  "evaluate_shadow_evidence f = GateEvidence
     (if sf_shadow_decision_count f = 0 then gate INSUFFICIENT_EVIDENCE [''SHADOW_DECISIONS_UNAVAILABLE''] []
      else if sf_human_review_count f = 0 then gate INSUFFICIENT_EVIDENCE [''HUMAN_REVIEW_TRUTH_UNAVAILABLE''] []
      else if sf_agreement_count f + sf_disagreement_count f = 0
      then gate INSUFFICIENT_EVIDENCE [''SHADOW_COMPARISON_UNAVAILABLE''] []
      else gate GATE_READY [''SHADOW_COMPARISON_AVAILABLE''] (sorted_codes (sf_outcome_refs f)))"

record closed_loop_facts =
  cl_orphan_response_count :: int
  cl_orphan_click_count :: int
  cl_orphan_journey_count :: int
  cl_orphan_conversion_event_count :: int

definition evaluate_closed_loop_integrity :: "closed_loop_facts \<Rightarrow> gate_evidence" where
  "evaluate_closed_loop_integrity f =
     (if cl_orphan_response_count f + cl_orphan_click_count f + cl_orphan_journey_count f +
         cl_orphan_conversion_event_count f \<noteq> 0
      then gate GATE_NOT_READY [''CLOSED_LOOP_ORPHAN_DETECTED''] []
      else gate GATE_READY [''CLOSED_LOOP_IDENTITIES_JOINABLE''] [''acquisition-state-v1'', ''conversion-event-v1''])"

section \<open>The read service\<close>

record runtime_observation =
  ro_hermes :: hermes_identity
  ro_registry_identity :: string
  ro_dependencies :: "(bool \<times> string list) list" \<comment> \<open>whether it is ready, and its reason codes\<close>
  ro_observed_at :: instant
  ro_heartbeat_at :: instant
  ro_last_cycle :: "(string \<times> cycle_status \<times> instant) option" \<comment> \<open>all three or none\<close>

datatype observation_read = ObservationInvalid | ObservationAbsent | Observed runtime_observation

record runtime_state =
  rs_hermes :: health_status
  rs_supervisor :: health_status
  rs_execution :: health_status
  rs_reason_codes :: "string list"
  rs_evidence_refs :: "string list"

record policy_state =
  pv_status :: health_status
  pv_reason_codes :: "string list"
  pv_evidence_refs :: "string list"

definition RUNTIME_OBSERVATION_MAX_AGE :: int where "RUNTIME_OBSERVATION_MAX_AGE = 90 * 60 * 1000000"

definition fresh_at :: "instant \<Rightarrow> instant \<Rightarrow> bool" where
  "fresh_at now val \<longleftrightarrow> 0 \<le> now - val \<and> now - val \<le> RUNTIME_OBSERVATION_MAX_AGE"

definition cycle_evidence ::
  "(string \<Rightarrow> string option) \<Rightarrow> instant \<Rightarrow> (string \<times> cycle_status \<times> instant) option \<Rightarrow> bool \<times> string list" where
  \<comment> \<open>whether the last cycle is healthy, and the reasons it adds\<close>
  "cycle_evidence cycle_reason now cycle =
     (case cycle of
        None \<Rightarrow> (False, [''RUNTIME_LAST_CYCLE_UNOBSERVED''])
      | Some (ref, status, last_at) \<Rightarrow>
          if \<not> fresh_at now last_at then (False, [''RUNTIME_LAST_CYCLE_STALE''])
          else if status = CYCLE_SUCCEEDED then (True, [])
          else if status = CYCLE_SUPPRESSED \<and> cycle_reason ref = Some ''VERIFIED_CONTACT_NOT_FOUND''
          then (True, [''RUNTIME_LAST_CYCLE_EXPECTED_SUPPRESSION''])
          else (False, [''RUNTIME_LAST_CYCLE_'' @ cycle_status_value status,
                        case cycle_reason ref of None \<Rightarrow> ''RUNTIME_LAST_CYCLE_REASON_UNAVAILABLE''
                        | Some r \<Rightarrow> if r = [] then ''RUNTIME_LAST_CYCLE_REASON_UNAVAILABLE'' else r]))"

definition runtime_evidence ::
  "hermes_identity \<Rightarrow> string \<Rightarrow> (string \<Rightarrow> string option) \<Rightarrow> observation_read \<Rightarrow> instant \<Rightarrow> runtime_state" where
  "runtime_evidence pin registry cycle_reason read now =
     (case read of
        ObservationInvalid \<Rightarrow> \<lparr> rs_hermes = HEALTH_NOT_READY, rs_supervisor = HEALTH_NOT_READY,
          rs_execution = HEALTH_NOT_READY, rs_reason_codes = [''RUNTIME_OBSERVATION_INVALID''], rs_evidence_refs = [] \<rparr>
      | ObservationAbsent \<Rightarrow> \<lparr> rs_hermes = HEALTH_NOT_READY, rs_supervisor = HEALTH_NOT_READY,
          rs_execution = HEALTH_NOT_READY, rs_reason_codes = [''RUNTIME_OBSERVATION_UNAVAILABLE''], rs_evidence_refs = [] \<rparr>
      | Observed ob \<Rightarrow>
          (let hermes = verify_hermes_runtime (Some (ro_hermes ob)) pin;
               mismatch = ro_registry_identity ob \<noteq> registry;
               fresh = fresh_at now (ro_observed_at ob) \<and> fresh_at now (ro_heartbeat_at ob);
               unavailable = filter (\<lambda>(ready, codes). \<not> ready) (ro_dependencies ob);
               (healthy, cycle_codes) = cycle_evidence cycle_reason now (ro_last_cycle ob)
           in \<lparr> rs_hermes = hc_status hermes,
                rs_supervisor = (if fresh then HEALTH_READY else HEALTH_NOT_READY),
                rs_execution = (if unavailable \<noteq> [] \<or> \<not> healthy \<or> hc_status hermes \<noteq> HEALTH_READY \<or> mismatch
                                then HEALTH_NOT_READY else HEALTH_READY),
                rs_reason_codes = sorted_codes (hc_reason_codes hermes @
                  (if mismatch then [''RUNTIME_REGISTRY_IDENTITY_MISMATCH''] else []) @
                  (if fresh then [] else [''RUNTIME_OBSERVATION_STALE'']) @
                  (if unavailable = [] then [] else ''RUNTIME_DEPENDENCY_UNAVAILABLE'' # concat (map snd unavailable)) @
                  cycle_codes),
                rs_evidence_refs = [''acquisition-runtime-observation-v1''] \<rparr>))"

definition policy_evidence :: "bool \<Rightarrow> control_log \<Rightarrow> datetime \<Rightarrow> policy_state" where
  "policy_evidence production rows now =
     (case get_effective_control rows now of
        Inl _ \<Rightarrow> \<lparr> pv_status = HEALTH_NOT_READY, pv_reason_codes = [''POLICY_CONTROL_UNAVAILABLE''], pv_evidence_refs = [] \<rparr>
      | Inr c \<Rightarrow>
          (let reasons =
             (if pc_kill_switch c then [''KILL_SWITCH_ACTIVE''] else []) @
             (if production
              then (if pc_autonomy_mode c \<noteq> ASSISTED then [''POLICY_MODE_NOT_ASSISTED''] else []) @
                   (if pc_read_only c then [''POLICY_WRITE_MODE_DISABLED''] else []) @
                   (if \<not> set BOOTSTRAP_ALLOWED_COMMANDS \<subseteq> set (pc_allowed_commands c)
                    then [''POLICY_COMMANDS_INCOMPLETE''] else []) @
                   (if set SENDING_COMMANDS \<inter> set (pc_allowed_commands c) \<noteq> {}
                    then [''POLICY_ALLOWS_SENDING_COMMANDS''] else [])
              else (if pc_autonomy_mode c \<noteq> SHADOW then [''POLICY_MODE_NOT_SHADOW''] else []) @
                   (if \<not> pc_read_only c then [''POLICY_WRITE_MODE_ENABLED''] else []) @
                   (if \<not> set RUNTIME_COMMANDS \<subseteq> set (pc_allowed_commands c)
                    then [''POLICY_COMMANDS_INCOMPLETE''] else []))
           in \<lparr> pv_status = (if reasons = [] then HEALTH_READY else HEALTH_NOT_READY),
                pv_reason_codes = sorted_codes reasons, pv_evidence_refs = [''acquisition-policy-v1''] \<rparr>))"

record service_view =
  sv_pin :: hermes_identity
  sv_registry :: string
  sv_cycle_reason :: "string \<Rightarrow> string option"
  sv_observation :: observation_read
  sv_production :: bool
  sv_database_up :: bool
  sv_controls :: control_log
  sv_db :: ops_db

definition breaker_health :: "ops_db \<Rightarrow> (ops_error, health_status \<times> string list) result" where
  "breaker_health db =
     rmap (\<lambda>unresolved.
       if list_ex (\<lambda>r. in_severity r = CRITICAL) unresolved then (HEALTH_NOT_READY, [''CRITICAL_BREAKER_OPEN''])
       else if list_ex (\<lambda>r. in_severity r = HIGH) unresolved then (DEGRADED, [''EXECUTION_BREAKER_OPEN''])
       else (HEALTH_READY, []))
     (list_incidents db True 500)"

definition dlq_health :: "ops_db \<Rightarrow> (ops_error, health_status \<times> string list) result" where
  "dlq_health db =
     rmap (\<lambda>ls. if list_ex (\<lambda>r. dl_status r = LETTER_OPEN) ls then (DEGRADED, [''DEAD_LETTER_BACKLOG''])
       else (HEALTH_READY, []))
     (list_dead_letters db None 500)"

definition service_health ::
  "service_view \<Rightarrow> datetime \<Rightarrow> (ops_error, operational_health \<times> runtime_state \<times> policy_state) result" where
  "service_health v observed_at =
     (if \<not> is_aware observed_at then Inl OpsValueError
      else let now = instant_of observed_at;
               runtime = runtime_evidence (sv_pin v) (sv_registry v) (sv_cycle_reason v) (sv_observation v) now;
               policy = policy_evidence (sv_production v) (sv_controls v) observed_at in
        rbind (breaker_health (sv_db v)) (\<lambda>(breakers, breaker_codes).
        rbind (dlq_health (sv_db v)) (\<lambda>(dlq, dlq_codes).
        rbind (HealthEvidence
          \<lparr> he_observed_at = now, he_api = HEALTH_READY,
            he_database = (if sv_database_up v then HEALTH_READY else HEALTH_NOT_READY),
            he_hermes_runtime = rs_hermes runtime, he_supervisor_loop = rs_supervisor runtime,
            he_policy_control = pv_status policy,
            he_campaign_execution = least_ready [rs_execution runtime, breakers],
            he_dlq = dlq, he_circuit_breakers = breakers,
            he_reason_codes = sorted_codes ((if sv_database_up v then [] else [''DATABASE_UNAVAILABLE'']) @
              rs_reason_codes runtime @ pv_reason_codes policy @ breaker_codes @ dlq_codes) \<rparr>)
          (\<lambda>e. Inr (evaluate_health e, runtime, policy)))))"

definition service_readiness :: "service_view \<Rightarrow> datetime \<Rightarrow> (ops_error, autonomous_readiness) result" where
  "service_readiness v evaluated_at =
     rbind (service_health v evaluated_at) (\<lambda>(health, runtime, policy).
     let base = repository_default (instant_of evaluated_at);
         runtime_ready = (he_hermes_runtime health = HEALTH_READY \<and> he_supervisor_loop health = HEALTH_READY \<and>
           he_database health = HEALTH_READY \<and> he_campaign_execution health = HEALTH_READY) in
     rbind (GateEvidence (gate (if runtime_ready then GATE_READY else GATE_NOT_READY)
       (if runtime_ready then [''DURABLE_RUNTIME_OBSERVED'']
        else sorted_codes (rs_reason_codes runtime @
          (if he_database health \<noteq> HEALTH_READY then [''DATABASE_UNAVAILABLE''] else []) @
          (if he_campaign_execution health \<noteq> HEALTH_READY then [''CAMPAIGN_EXECUTION_UNHEALTHY''] else [])))
       (if runtime_ready then rs_evidence_refs runtime else []))) (\<lambda>h_a.
     rbind (GateEvidence (gate (if pv_status policy = HEALTH_READY then GATE_READY else GATE_NOT_READY)
       (if pv_status policy = HEALTH_READY then [''DURABLE_SHADOW_POLICY_OBSERVED''] else pv_reason_codes policy)
       (pv_evidence_refs policy))) (\<lambda>h_c.
     let h_e = (if he_circuit_breakers health = HEALTH_NOT_READY
           then (rn_h_e_capped base)\<lparr> ge_reason_codes :=
             sorted_codes (ge_reason_codes (rn_h_e_capped base) @ [''CRITICAL_BREAKER_OPEN'']) \<rparr>
           else rn_h_e_capped base);
         readiness = evaluate_readiness (base\<lparr> rn_h_a_runtime := h_a, rn_h_c_policy := h_c, rn_h_e_capped := h_e \<rparr>)
     in Inr (if rs_evidence_refs runtime \<noteq> []
             then readiness\<lparr> ar_highest_safe_mode := SHADOW,
               ar_blockers := sorted_codes (ar_blockers readiness @ [''QA_SHADOW_RUNTIME_ONLY'']) \<rparr>
             else readiness))))"

section \<open>What the service reports\<close>

lemma set_sorted_codes [simp]: "set (sorted_codes xs) = set xs"
  by (simp add: sorted_codes_def)

lemma GateEvidence_status: "GateEvidence g = Inr h \<Longrightarrow> ge_status h = ge_status g"
  by (auto simp: GateEvidence_def Let_def split: if_split_asm)

lemma health_statuses:
  assumes "service_health v d = Inr (health, runtime, policy)"
  shows "runtime = runtime_evidence (sv_pin v) (sv_registry v) (sv_cycle_reason v) (sv_observation v) (instant_of d)"
    "he_hermes_runtime health = rs_hermes runtime"
  using assms
  by (auto simp: service_health_def Let_def HealthEvidence_def evaluate_health_def
      health_evidence.defs operational_health.defs split: if_split_asm)

lemma no_refs_not_ready:
  "rs_evidence_refs (runtime_evidence pin registry f read now) = [] \<Longrightarrow>
   rs_hermes (runtime_evidence pin registry f read now) = HEALTH_NOT_READY"
  by (cases read) (auto simp: runtime_evidence_def Let_def split: prod.split_asm)

lemma evaluate_readiness_fields:
  "ar_highest_safe_mode (evaluate_readiness e) = ready_mode e"
  "rn_h_a_runtime (evaluate_readiness e) = rn_h_a_runtime e"
  by (simp_all add: evaluate_readiness_def readiness_evidence.defs autonomous_readiness.defs)

lemma runtime_gate_needed: "ge_status (rn_h_a_runtime e) \<noteq> GATE_READY \<Longrightarrow> ready_mode e = SHADOW"
  by (simp add: ready_mode_def all_ready_def gates_def)

lemma readiness_cases:
  assumes "service_readiness v d = Inr rd" and "service_health v d = Inr (health, runtime, policy)"
  obtains e where "rd = (if rs_evidence_refs runtime \<noteq> []
      then (evaluate_readiness e)\<lparr> ar_highest_safe_mode := SHADOW,
        ar_blockers := sorted_codes (ar_blockers (evaluate_readiness e) @ [''QA_SHADOW_RUNTIME_ONLY'']) \<rparr>
      else evaluate_readiness e)"
    and "he_hermes_runtime health \<noteq> HEALTH_READY \<Longrightarrow> ge_status (rn_h_a_runtime e) = GATE_NOT_READY"
proof -
  obtain h_a e where run: "rd = (if rs_evidence_refs runtime \<noteq> []
      then (evaluate_readiness e)\<lparr> ar_highest_safe_mode := SHADOW,
        ar_blockers := sorted_codes (ar_blockers (evaluate_readiness e) @ [''QA_SHADOW_RUNTIME_ONLY'']) \<rparr>
      else evaluate_readiness e)" "rn_h_a_runtime e = h_a"
    and gate: "\<exists>codes refs. GateEvidence (gate (if he_hermes_runtime health = HEALTH_READY \<and>
      he_supervisor_loop health = HEALTH_READY \<and> he_database health = HEALTH_READY \<and>
      he_campaign_execution health = HEALTH_READY then GATE_READY else GATE_NOT_READY) codes refs) = Inr h_a"
    using assms unfolding service_readiness_def Let_def rbind_Inr_iff by force
  show thesis
  proof (rule that [OF run(1)])
    assume "he_hermes_runtime health \<noteq> HEALTH_READY"
    then show "ge_status (rn_h_a_runtime e) = GATE_NOT_READY"
      using gate run(2) by (auto dest!: GateEvidence_status simp: gate_def)
  qed
qed

text \<open>
  The service never reports more than shadow mode as safe. Whatever the stored state, the
  environment and the runtime observation, when the readiness report is produced its highest safe
  mode is SHADOW: without an observation the runtime gate is not ready, and with one the report is
  capped and says so among its blockers.
\<close>

theorem readiness_reports_shadow:
  assumes "service_readiness v d = Inr rd"
  shows "ar_highest_safe_mode rd = SHADOW \<and>
    (case sv_observation v of Observed ob \<Rightarrow> ''QA_SHADOW_RUNTIME_ONLY'' \<in> set (ar_blockers rd)
     | _ \<Rightarrow> ge_status (rn_h_a_runtime rd) = GATE_NOT_READY)"
proof -
  obtain health runtime policy where h: "service_health v d = Inr (health, runtime, policy)"
    using assms unfolding service_readiness_def rbind_Inr_iff by auto
  note st = health_statuses [OF h]
  obtain e where rd: "rd = (if rs_evidence_refs runtime \<noteq> []
      then (evaluate_readiness e)\<lparr> ar_highest_safe_mode := SHADOW,
        ar_blockers := sorted_codes (ar_blockers (evaluate_readiness e) @ [''QA_SHADOW_RUNTIME_ONLY'']) \<rparr>
      else evaluate_readiness e)"
    and gate: "he_hermes_runtime health \<noteq> HEALTH_READY \<Longrightarrow> ge_status (rn_h_a_runtime e) = GATE_NOT_READY"
    using readiness_cases [OF assms h] by blast
  show ?thesis
  proof (cases "sv_observation v")
    case (Observed ob)
    then have "rs_evidence_refs runtime \<noteq> []"
      unfolding st(1) by (auto simp: runtime_evidence_def Let_def split: prod.split)
    then show ?thesis using rd Observed by simp
  qed (use rd gate st runtime_gate_needed in \<open>simp_all add: runtime_evidence_def evaluate_readiness_fields\<close>)
qed

definition sample_view1 :: service_view where
  "sample_view1 = \<lparr> sv_pin = \<lparr> hi_repository = ''r'', hi_tag = ''t'', hi_commit = ''c'', hi_version = ''v'',
       hi_python_contract = ''p'' \<rparr>,
     sv_registry = ''g'', sv_cycle_reason = (\<lambda>_. None), sv_observation = ObservationAbsent,
     sv_production = True, sv_database_up = True, sv_controls = sample_log, sv_db = ops_sample \<rparr>"

lemma sample_readiness: "is_ok (service_readiness sample_view1 sample_clock)"
  by code_simp

theorem readiness_reports_shadow_witness:
  "\<exists>rd. service_readiness sample_view1 sample_clock = Inr rd \<and> ar_highest_safe_mode rd = SHADOW"
proof -
  obtain rd where "service_readiness sample_view1 sample_clock = Inr rd"
    using sample_readiness by (auto simp: is_ok_iff)
  then show ?thesis using readiness_reports_shadow by blast
qed

section \<open>Limits of the report\<close>

text \<open>
  The report validates its own reasons: a runtime observation with more than sixteen distinct reasons
  makes it raise instead of reporting that the runtime is not ready.
\<close>

definition many_reasons :: runtime_observation where
  "many_reasons = \<lparr> ro_hermes = sv_pin sample_view1, ro_registry_identity = ''g'',
     ro_dependencies = map (\<lambda>i. (False, [''A'' @ nat_str i, ''B'' @ nat_str i])) [0..<11],
     ro_observed_at = instant_of sample_clock, ro_heartbeat_at = instant_of sample_clock, ro_last_cycle = None \<rparr>"

lemma readiness_raises_on_many_reasons:
  "service_readiness (sample_view1\<lparr> sv_observation := Observed many_reasons \<rparr>) sample_clock = Inl OpsValueError"
  "is_ok (service_health (sample_view1\<lparr> sv_observation := Observed many_reasons \<rparr>) sample_clock)"
  by code_simp+

text \<open>
  The dead-letter status is computed from the 500 newest letters of any status, so an open letter
  older than 500 settled ones is not seen.
\<close>

lemma insort_last: "\<forall>y \<in> set ys. f y < f x \<Longrightarrow> insort_key f x ys = ys @ [x]"
  by (induction ys) (auto simp: not_le)

lemma old_open_letter_unseen:
  assumes "500 \<le> length ls" and "\<forall>l \<in> set ls. dl_status l \<noteq> LETTER_OPEN"
    and "\<forall>l \<in> set ls. dl_created_at old < dl_created_at l"
  shows "dlq_health \<lparr> db_campaigns = cs, db_incidents = incs, db_letters = old # ls \<rparr> = Inr (HEALTH_READY, [])"
proof -
  let ?k = "\<lambda>r. (- dl_created_at r, dl_dead_letter_ref r)"
  have "sort_key ?k (old # ls) = sort_key ?k ls @ [old]"
    unfolding sort_key_simps by (rule insort_last) (use assms(3) in \<open>simp add: less_prod_simp\<close>)
  then have newest: "take 500 (sort_key ?k (old # ls)) = take 500 (sort_key ?k ls)"
    using assms(1) by (simp only: take_append length_sort) simp
  have "\<not> list_ex (\<lambda>r. dl_status r = LETTER_OPEN) (take 500 (sort_key ?k ls))"
    using assms(2) by (auto simp: list_ex_iff dest!: in_set_takeD)
  then show ?thesis using newest by (simp add: dlq_health_def list_dead_letters_def)
qed

end
