(* ===== verification/ModelBudget.thy ===== *)
theory ModelBudget
  imports PyTime PyDecimal
begin

text \<open>
  \<open>model_runtime/budget.py\<close>: the ledger that reserves and reconciles the daily cost of model calls.

  Each operation locks the rows it reads (\<open>SELECT .. FOR UPDATE\<close>) and runs in one transaction, so it
  is one step from a state of the two tables to the next. The day of an instant in the zone
  Europe/Zurich comes from the time-zone database and is an argument.
\<close>

section \<open>Tables\<close>

datatype call_status = CALL_RESERVED | CALL_SUCCEEDED | CALL_FAILED | CALL_REJECTED_BUDGET

record budget_counter =
  bc_usage_date :: date
  bc_usage :: string
  bc_reserved_usd :: rat
  bc_actual_usd :: rat
  bc_updated_at :: instant

record model_call =
  mc_call_id :: string
  mc_usage :: string
  mc_model :: string
  mc_siren :: "string option"
  mc_batch_id :: "string option"
  mc_reserved_usd :: rat
  mc_actual_usd :: "rat option"
  mc_input_tokens :: "int option"
  mc_output_tokens :: "int option"
  mc_status :: call_status
  mc_error_code :: "string option"
  mc_called_at :: instant
  mc_completed_at :: "instant option"

record budget_db =
  bd_counters :: "budget_counter list"
  bd_calls :: "model_call list"
  bd_sirens :: "string list" \<comment> \<open>the keys of \<open>supplier_directory\<close>, referenced by the calls\<close>

record model_route =
  mr_usage :: string
  mr_model :: string
  mr_daily_budget_usd :: rat
  mr_reserve_input_usd_per_million :: rat
  mr_reserve_output_usd_per_million :: rat

datatype budget_error =
    BudgetValueError
  | BudgetDatabaseError
  | DailyModelBudgetExhausted string rat rat rat rat \<comment> \<open>usage, cap, actual, reserved, requested\<close>

datatype amount = Finite rat | NonFinite \<comment> \<open>a \<open>Decimal\<close> argument: a number, or an infinity or a NaN\<close>

fun amount_of :: "amount \<Rightarrow> rat option" where
  "amount_of (Finite x) = (if x < 0 then None else Some x)"
| "amount_of NonFinite = None"

definition BUDGET_USAGES :: "string list" where
  \<comment> \<open>the usages the constraints of both tables admit\<close>
  "BUDGET_USAGES = [''enrichment_judge'', ''enrichment_arbiter'', ''for_you'', ''hermes'',
     ''document_classifier'', ''chief_of_staff'']"

definition usd :: "rat \<Rightarrow> rat option" where
  \<comment> \<open>what a \<open>NUMERIC(14, 8)\<close> column with its sign constraint stores\<close>
  "usd x = (if num_fits 14 8 x \<and> 0 \<le> num_round 8 x then Some (num_round 8 x) else None)"

definition tokens_fit :: "int \<Rightarrow> bool" where
  "tokens_fit n \<longleftrightarrow> 0 \<le> n \<and> n < 2 ^ 31"

section \<open>Operations\<close>

definition is_counter :: "date \<Rightarrow> string \<Rightarrow> budget_counter \<Rightarrow> bool" where
  "is_counter d u c \<longleftrightarrow> bc_usage_date c = d \<and> bc_usage c = u"

definition ensure_counter :: "date \<Rightarrow> string \<Rightarrow> instant \<Rightarrow> budget_counter list \<Rightarrow> budget_counter list option" where
  "ensure_counter d u now cs =
     (if u \<notin> set BUDGET_USAGES then None
      else if list_ex (is_counter d u) cs then Some cs
      else Some (cs @ [\<lparr> bc_usage_date = d, bc_usage = u, bc_reserved_usd = 0, bc_actual_usd = 0,
                         bc_updated_at = now \<rparr>]))"

definition set_counter :: "date \<Rightarrow> string \<Rightarrow> rat \<Rightarrow> rat \<Rightarrow> instant \<Rightarrow> budget_counter list \<Rightarrow> budget_counter list" where
  "set_counter d u reserved actual now cs = map (\<lambda>c. if is_counter d u c
     then c\<lparr> bc_reserved_usd := reserved, bc_actual_usd := actual, bc_updated_at := now \<rparr> else c) cs"

definition insert_call :: "model_call \<Rightarrow> budget_db \<Rightarrow> model_call list option" where
  "insert_call call db =
     (if text_fits 36 (mc_call_id call) \<and> text_fits 160 (mc_model call) \<and>
         (case mc_siren call of None \<Rightarrow> True | Some s \<Rightarrow> s \<in> set (bd_sirens db)) \<and>
         (case mc_batch_id call of None \<Rightarrow> True | Some b \<Rightarrow> text_fits 64 b) \<and>
         mc_usage call \<in> set BUDGET_USAGES \<and>
         \<not> list_ex (\<lambda>x. mc_call_id x = mc_call_id call) (bd_calls db)
      then map_option (\<lambda>r. bd_calls db @ [call\<lparr> mc_reserved_usd := r \<rparr>]) (usd (mc_reserved_usd call))
      else None)"

definition reserve ::
  "(instant \<Rightarrow> date) \<Rightarrow> budget_db \<Rightarrow> datetime \<Rightarrow> model_route \<Rightarrow> amount \<Rightarrow> string \<Rightarrow> string option \<Rightarrow> string option \<Rightarrow>
   (budget_error, unit) result \<times> budget_db" where
  "reserve day db clock route estimated call_id siren batch =
     (case amount_of estimated of
        None \<Rightarrow> (Inl BudgetValueError, db)
      | Some amount \<Rightarrow>
      if \<not> is_aware clock then (Inl BudgetValueError, db)
      else let now = instant_of clock; d = day now; u = mr_usage route in
      case ensure_counter d u now (bd_counters db) of
        None \<Rightarrow> (Inl BudgetDatabaseError, db)
      | Some cs \<Rightarrow>
        (case List.find (is_counter d u) cs of
           None \<Rightarrow> (Inl BudgetDatabaseError, db)
         | Some c \<Rightarrow>
           (let actual = bc_actual_usd c; reserved = bc_reserved_usd c;
                exhausted = mr_daily_budget_usd route < dec_add (dec_add actual reserved) amount;
                call = \<lparr> mc_call_id = call_id, mc_usage = u, mc_model = mr_model route, mc_siren = siren,
                  mc_batch_id = batch, mc_reserved_usd = amount, mc_actual_usd = None,
                  mc_input_tokens = None, mc_output_tokens = None,
                  mc_status = (if exhausted then CALL_REJECTED_BUDGET else CALL_RESERVED),
                  mc_error_code = (if exhausted then Some ''DAILY_MODEL_BUDGET_EXHAUSTED'' else None),
                  mc_called_at = now, mc_completed_at = (if exhausted then Some now else None) \<rparr>
            in case (if exhausted then Some cs
                     else map_option (\<lambda>r. set_counter d u r actual now cs) (usd (dec_add reserved amount))) of
                 None \<Rightarrow> (Inl BudgetDatabaseError, db)
               | Some cs' \<Rightarrow>
                 (case insert_call call db of
                    None \<Rightarrow> (Inl BudgetDatabaseError, db)
                  | Some calls \<Rightarrow>
                      (if exhausted
                       then Inl (DailyModelBudgetExhausted u (mr_daily_budget_usd route) actual reserved amount)
                       else Inr (),
                       db\<lparr> bd_counters := cs', bd_calls := calls \<rparr>)))))"

definition active_call :: "budget_db \<Rightarrow> string \<Rightarrow> model_call option" where
  "active_call db call_id =
     (case List.find (\<lambda>c. mc_call_id c = call_id) (bd_calls db) of
        None \<Rightarrow> None | Some c \<Rightarrow> if mc_status c = CALL_RESERVED then Some c else None)"

definition set_call :: "string \<Rightarrow> (model_call \<Rightarrow> model_call) \<Rightarrow> model_call list \<Rightarrow> model_call list" where
  "set_call call_id f cs = map (\<lambda>c. if mc_call_id c = call_id then f c else c) cs"

definition settle ::
  "(instant \<Rightarrow> date) \<Rightarrow> budget_db \<Rightarrow> instant \<Rightarrow> model_call \<Rightarrow> rat option \<Rightarrow> (model_call \<Rightarrow> model_call) \<Rightarrow>
   (budget_error, unit) result \<times> budget_db" where
  \<comment> \<open>what \<open>succeed\<close> and \<open>fail\<close> share: release the reservation, book the actual cost if there is one\<close>
  "settle day db now call actual f =
     (let d = day (mc_called_at call); u = mc_usage call in
      case List.find (is_counter d u) (bd_counters db) of
        None \<Rightarrow> (Inl BudgetDatabaseError, db)
      | Some c \<Rightarrow>
        (case (usd (dec_sub (bc_reserved_usd c) (mc_reserved_usd call)),
               case actual of None \<Rightarrow> Some (bc_actual_usd c) | Some a \<Rightarrow> usd (dec_add (bc_actual_usd c) a)) of
           (Some reserved', Some actual') \<Rightarrow>
             (Inr (), db\<lparr> bd_counters := set_counter d u reserved' actual' now (bd_counters db),
                          bd_calls := set_call (mc_call_id call) f (bd_calls db) \<rparr>)
         | _ \<Rightarrow> (Inl BudgetDatabaseError, db)))"

definition succeed ::
  "(instant \<Rightarrow> date) \<Rightarrow> budget_db \<Rightarrow> datetime \<Rightarrow> string \<Rightarrow> amount \<Rightarrow> int \<Rightarrow> int \<Rightarrow> (budget_error, unit) result \<times> budget_db" where
  "succeed day db clock call_id actual_usd input_tokens output_tokens =
     (case amount_of actual_usd of
        None \<Rightarrow> (Inl BudgetValueError, db)
      | Some actual \<Rightarrow>
      if input_tokens < 0 \<or> output_tokens < 0 \<or> \<not> is_aware clock then (Inl BudgetValueError, db)
      else case active_call db call_id of
        None \<Rightarrow> (Inl BudgetValueError, db)
      | Some call \<Rightarrow>
          (case usd actual of
             None \<Rightarrow> (Inl BudgetDatabaseError, db)
           | Some booked \<Rightarrow>
               if \<not> tokens_fit input_tokens \<or> \<not> tokens_fit output_tokens then (Inl BudgetDatabaseError, db)
               else settle day db (instant_of clock) call (Some actual) (\<lambda>c. c\<lparr> mc_actual_usd := Some booked,
                 mc_input_tokens := Some input_tokens, mc_output_tokens := Some output_tokens,
                 mc_status := CALL_SUCCEEDED, mc_completed_at := Some (instant_of clock) \<rparr>)))"

definition fail ::
  "(instant \<Rightarrow> date) \<Rightarrow> budget_db \<Rightarrow> datetime \<Rightarrow> string \<Rightarrow> string \<Rightarrow> (budget_error, unit) result \<times> budget_db" where
  "fail day db clock call_id error_code =
     (if py_strip error_code = [] \<or> 128 < length error_code \<or> \<not> is_aware clock then (Inl BudgetValueError, db)
      else case active_call db call_id of
        None \<Rightarrow> (Inl BudgetValueError, db)
      | Some call \<Rightarrow>
          if \<not> text_fits 128 error_code then (Inl BudgetDatabaseError, db)
          else settle day db (instant_of clock) call None (\<lambda>c. c\<lparr> mc_status := CALL_FAILED,
            mc_error_code := Some error_code, mc_completed_at := Some (instant_of clock) \<rparr>))"

record budget_summary =
  bs_usage_date :: date
  bs_usage :: string
  bs_reserved_usd :: rat
  bs_actual_usd :: rat
  bs_updated_at :: "instant option"

definition summary :: "(instant \<Rightarrow> date) \<Rightarrow> budget_db \<Rightarrow> datetime \<Rightarrow> string \<Rightarrow> (budget_error, budget_summary) result" where
  "summary day db clock usage =
     (if \<not> is_aware clock then Inl BudgetValueError
      else let d = day (instant_of clock) in
      case List.find (is_counter d usage) (bd_counters db) of
        None \<Rightarrow> Inr \<lparr> bs_usage_date = d, bs_usage = usage, bs_reserved_usd = 0, bs_actual_usd = 0, bs_updated_at = None \<rparr>
      | Some c \<Rightarrow> Inr \<lparr> bs_usage_date = bc_usage_date c, bs_usage = bc_usage c, bs_reserved_usd = bc_reserved_usd c,
                        bs_actual_usd = bc_actual_usd c, bs_updated_at = Some (bc_updated_at c) \<rparr>)"

definition call_list :: "budget_db \<Rightarrow> model_call list" where
  \<comment> \<open>\<open>ORDER BY called_at\<close>; rows of one instant in insertion order\<close>
  "call_list db = sort_key mc_called_at (bd_calls db)"

record usage_stats =
  us_usage_date :: date
  us_usage :: string
  us_call_count :: nat
  us_succeeded :: nat
  us_failed :: nat
  us_rejected :: nat
  us_input_tokens :: int
  us_output_tokens :: int

definition usage_stats_of :: "(instant \<Rightarrow> date) \<Rightarrow> budget_db \<Rightarrow> datetime \<Rightarrow> string \<Rightarrow> (budget_error, usage_stats) result" where
  "usage_stats_of day db clock usage =
     (if \<not> is_aware clock then Inl BudgetValueError
      else let d = day (instant_of clock);
               rows = filter (\<lambda>c. mc_usage c = usage \<and> day (mc_called_at c) = d) (call_list db);
               with_status = (\<lambda>s. length (filter (\<lambda>c. mc_status c = s) rows));
               total = (\<lambda>f. sum_list (map (\<lambda>c. case f c of None \<Rightarrow> 0 | Some n \<Rightarrow> n) rows))
      in Inr \<lparr> us_usage_date = d, us_usage = usage,
               us_call_count = length rows, us_succeeded = with_status CALL_SUCCEEDED,
               us_failed = with_status CALL_FAILED, us_rejected = with_status CALL_REJECTED_BUDGET,
               us_input_tokens = total mc_input_tokens, us_output_tokens = total mc_output_tokens \<rparr>)"

section \<open>Histories\<close>

datatype budget_op =
    Reserve datetime model_route amount string "string option" "string option"
  | Succeed datetime string amount int int
  | Fail datetime string string

fun apply_budget :: "(instant \<Rightarrow> date) \<Rightarrow> budget_op \<Rightarrow> budget_db \<Rightarrow> budget_db" where
  "apply_budget day (Reserve clock route amount i s b) db = snd (reserve day db clock route amount i s b)"
| "apply_budget day (Succeed clock i a m n) db = snd (succeed day db clock i a m n)"
| "apply_budget day (Fail clock i e) db = snd (fail day db clock i e)"

fun run_budget :: "(instant \<Rightarrow> date) \<Rightarrow> budget_op list \<Rightarrow> budget_db \<Rightarrow> budget_db" where
  "run_budget day [] db = db"
| "run_budget day (p # ps) db = run_budget day ps (apply_budget day p db)"

section \<open>Amounts\<close>

definition short :: "rat \<Rightarrow> bool" where
  \<comment> \<open>at most 18 decimals and below a hundred million: sums of three such amounts fit in 28 digits\<close>
  "short x \<longleftrightarrow> on_grid 18 x \<and> 0 \<le> x \<and> x < 10 ^ 8"

definition stored :: "rat \<Rightarrow> bool" where
  "stored x \<longleftrightarrow> on_grid 8 x \<and> 0 \<le> x \<and> x < 10 ^ 6"

lemma on_grid_finer:
  assumes "on_grid 8 x" shows "on_grid 18 x"
proof -
  have "x * 10 ^ 18 = (x * 10 ^ 8) * 10 ^ 10" by simp
  also have "\<dots> \<in> \<int>" using assms unfolding on_grid_def by (rule Ints_mult) simp
  finally show ?thesis by (simp add: on_grid_def)
qed

lemma ctx_exact: "on_grid 18 x \<Longrightarrow> 0 \<le> x \<Longrightarrow> x < 10 ^ 9 \<Longrightarrow> ctx_round x = x"
  by (rule ctx_exact_grid [of 18]) simp_all

lemma stored_short: "stored x \<Longrightarrow> short x"
  by (auto simp: stored_def short_def on_grid_finer)

lemma stored_add_exact: "stored x \<Longrightarrow> short a \<Longrightarrow> dec_add x a = x + a"
  unfolding dec_add_def stored_def short_def by (intro ctx_exact on_grid_add) (auto intro: on_grid_finer)

lemma stored_add3_exact: "stored x \<Longrightarrow> stored y \<Longrightarrow> short a \<Longrightarrow> dec_add (dec_add x y) a = x + y + a"
  unfolding stored_add_exact [OF _ stored_short]
  unfolding dec_add_def stored_def short_def by (intro ctx_exact on_grid_add) (auto intro: on_grid_finer)

lemma stored_sub_exact: "stored x \<Longrightarrow> stored y \<Longrightarrow> y \<le> x \<Longrightarrow> dec_sub x y = x - y"
  unfolding dec_sub_def stored_def by (intro ctx_exact on_grid_diff on_grid_finer) auto

lemma usd_stored: "usd x = Some y \<Longrightarrow> y = num_round 8 x \<and> stored y"
  by (auto simp: usd_def stored_def num_fits_def num_round_grid split: if_split_asm)

lemma usd_add:
  assumes "usd (dec_add x a) = Some y" and "stored x" and "short a" and "usd a = Some b"
  shows "y = x + b \<and> stored y"
proof -
  have "y = num_round 8 (x + a)" "stored y"
    using usd_stored [OF assms(1)] unfolding stored_add_exact [OF assms(2,3)] by blast+
  moreover have "num_round 8 (x + a) = x + num_round 8 a"
    using assms(2,3) by (intro num_round_shift) (simp_all add: stored_def short_def)
  ultimately show ?thesis using usd_stored [OF assms(4)] by simp
qed

lemma usd_sub:
  assumes "usd (dec_sub x b) = Some y" and "stored x" and "stored b" and "b \<le> x"
  shows "y = x - b \<and> stored y"
proof -
  have "y = num_round 8 (x - b)" "stored y"
    using usd_stored [OF assms(1)] unfolding stored_sub_exact [OF assms(2-4)] by blast+
  then show ?thesis using assms(2,3) by (simp add: stored_def num_round_id on_grid_diff)
qed

section \<open>The ledger\<close>

definition held :: "(instant \<Rightarrow> date) \<Rightarrow> date \<Rightarrow> string \<Rightarrow> model_call \<Rightarrow> rat" where
  "held day d u c = (if mc_status c = CALL_RESERVED \<and> day (mc_called_at c) = d \<and> mc_usage c = u
     then mc_reserved_usd c else 0)"

definition booked :: "(instant \<Rightarrow> date) \<Rightarrow> date \<Rightarrow> string \<Rightarrow> model_call \<Rightarrow> rat" where
  "booked day d u c = (if mc_status c = CALL_SUCCEEDED \<and> day (mc_called_at c) = d \<and> mc_usage c = u
     then (case mc_actual_usd c of None \<Rightarrow> 0 | Some a \<Rightarrow> a) else 0)"

definition counter_ok :: "(instant \<Rightarrow> date) \<Rightarrow> model_call list \<Rightarrow> budget_counter \<Rightarrow> bool" where
  \<comment> \<open>the counter is the sum of the journal\<close>
  "counter_ok day calls c \<longleftrightarrow> stored (bc_reserved_usd c) \<and> stored (bc_actual_usd c) \<and>
     bc_reserved_usd c = sum_list (map (held day (bc_usage_date c) (bc_usage c)) calls) \<and>
     bc_actual_usd c = sum_list (map (booked day (bc_usage_date c) (bc_usage c)) calls)"

definition ledger_ok :: "(instant \<Rightarrow> date) \<Rightarrow> budget_db \<Rightarrow> bool" where
  "ledger_ok day db \<longleftrightarrow> distinct (map mc_call_id (bd_calls db)) \<and>
     (\<forall>c \<in> set (bd_counters db). counter_ok day (bd_calls db) c) \<and>
     (\<forall>x \<in> set (bd_calls db). stored (mc_reserved_usd x) \<and>
        (mc_status x \<in> {CALL_RESERVED, CALL_SUCCEEDED} \<longrightarrow>
         list_ex (is_counter (day (mc_called_at x)) (mc_usage x)) (bd_counters db)))"

lemma sum_set_call:
  fixes g :: "model_call \<Rightarrow> rat"
  assumes "distinct (map mc_call_id cs)" and "x \<in> set cs" and "mc_call_id x = i"
  shows "sum_list (map g (set_call i f cs)) = sum_list (map g cs) - g x + g (f x)"
  unfolding set_call_def
  by (rule sum_update_one) (use assms in \<open>auto simp: distinct_map dest: inj_onD\<close>)

lemma sum_zero: "\<forall>x \<in> set cs. g x = 0 \<Longrightarrow> sum_list (map g cs) = (0 :: rat)"
  by (induction cs) auto

lemma member_le_sum:
  fixes g :: "model_call \<Rightarrow> rat"
  assumes "\<forall>y \<in> set cs. 0 \<le> g y" and "x \<in> set cs"
  shows "g x \<le> sum_list (map g cs)"
  using assms
proof (induction cs)
  case (Cons c cs)
  moreover have "0 \<le> sum_list (map g cs)" using Cons.prems(1) by (intro sum_list_nonneg) auto
  ultimately show ?case by force
qed simp

lemma find_counter: "List.find (is_counter d u) cs = Some c \<Longrightarrow> c \<in> set cs \<and> bc_usage_date c = d \<and> bc_usage c = u"
  by (auto simp: is_counter_def dest: find_Some_set)

lemma set_counter_ex: "list_ex (is_counter d' u') (set_counter d u r a now cs) = list_ex (is_counter d' u') cs"
  by (induction cs) (auto simp: set_counter_def is_counter_def)

lemma set_counter_in:
  "c \<in> set (set_counter d u r a now cs) \<Longrightarrow>
   (\<not> is_counter d u c \<and> c \<in> set cs) \<or>
   (is_counter d u c \<and> bc_reserved_usd c = r \<and> bc_actual_usd c = a)"
  by (auto simp: set_counter_def is_counter_def)

lemma ensure_ok:
  assumes "ledger_ok day db" and "ensure_counter d u now (bd_counters db) = Some cs"
  shows "ledger_ok day (db\<lparr> bd_counters := cs \<rparr>)" and "list_ex (is_counter d u) cs"
proof -
  have "counter_ok day (bd_calls db) c" if c: "c \<in> set cs" for c
  proof (cases "c \<in> set (bd_counters db)")
    case False
    then have new: "c = \<lparr> bc_usage_date = d, bc_usage = u, bc_reserved_usd = 0, bc_actual_usd = 0, bc_updated_at = now \<rparr>"
      "\<not> list_ex (is_counter d u) (bd_counters db)"
      using c assms(2) by (auto simp: ensure_counter_def split: if_split_asm)
    have "held day d u x = 0 \<and> booked day d u x = 0" if "x \<in> set (bd_calls db)" for x
      using assms(1) new(2) that by (auto simp: ledger_ok_def held_def booked_def)
    then show ?thesis using new(1) by (simp add: counter_ok_def sum_zero stored_def on_grid_def)
  qed (use assms(1) in \<open>simp add: ledger_ok_def\<close>)
  moreover have "list_ex p cs" if "list_ex p (bd_counters db)" for p
    using that assms(2) by (auto simp: ensure_counter_def split: if_split_asm)
  ultimately show "ledger_ok day (db\<lparr> bd_counters := cs \<rparr>)" using assms(1) by (auto simp: ledger_ok_def)
  show "list_ex (is_counter d u) cs" using assms(2)
    by (auto simp: ensure_counter_def is_counter_def split: if_split_asm)
qed

lemma reserve_ok:
  assumes "ledger_ok day db" and "short amount"
    and "reserve day db clock route (Finite amount) i s b = (r, db')"
  shows "ledger_ok day db' \<and> (r = Inr () \<longrightarrow>
    (\<exists>c \<in> set (bd_counters db'). is_counter (day (instant_of clock)) (mr_usage route) c \<and>
       bc_actual_usd c + bc_reserved_usd c \<le> mr_daily_budget_usd route + 1 / (2 * 10 ^ 8)))"
proof (cases "db' = db \<and> r \<noteq> Inr ()")
  case False
  define now d u where "now = instant_of clock" and "d = day now" and "u = mr_usage route"
  note run = assms(3) [unfolded reserve_def, folded now_def, unfolded Let_def, folded d_def u_def]
  obtain cs where cs: "ensure_counter d u now (bd_counters db) = Some cs"
    using run False by (auto split: if_split_asm option.split_asm)
  obtain c where c: "List.find (is_counter d u) cs = Some c"
    using run False cs by (auto split: if_split_asm option.split_asm)
  define full where "full = (mr_daily_budget_usd route < dec_add (dec_add (bc_actual_usd c) (bc_reserved_usd c)) amount)"
  define call where "call = \<lparr> mc_call_id = i, mc_usage = u, mc_model = mr_model route, mc_siren = s,
    mc_batch_id = b, mc_reserved_usd = amount, mc_actual_usd = None, mc_input_tokens = None,
    mc_output_tokens = None, mc_status = (if full then CALL_REJECTED_BUDGET else CALL_RESERVED),
    mc_error_code = (if full then Some ''DAILY_MODEL_BUDGET_EXHAUSTED'' else None),
    mc_called_at = now, mc_completed_at = (if full then Some now else None) \<rparr>"
  have "\<exists>cs' calls. (if full then Some cs else map_option (\<lambda>r. set_counter d u r (bc_actual_usd c) now cs)
      (usd (dec_add (bc_reserved_usd c) amount))) = Some cs' \<and> insert_call call db = Some calls \<and>
      db' = db\<lparr> bd_counters := cs', bd_calls := calls \<rparr> \<and> (r = Inr () \<longleftrightarrow> \<not> full)"
    using run False cs c by (auto simp: full_def [symmetric] call_def split: if_split_asm option.split_asm)
  then obtain cs' calls where out: "(if full then Some cs else map_option (\<lambda>r. set_counter d u r (bc_actual_usd c) now cs)
      (usd (dec_add (bc_reserved_usd c) amount))) = Some cs'" "insert_call call db = Some calls"
      "db' = db\<lparr> bd_counters := cs', bd_calls := calls \<rparr>" "r = Inr () \<longleftrightarrow> \<not> full" by blast
  obtain kept where kept: "usd amount = Some kept" "calls = bd_calls db @ [call\<lparr> mc_reserved_usd := kept \<rparr>]"
    "i \<notin> mc_call_id ` set (bd_calls db)"
    using out(2) by (auto simp: insert_call_def call_def list_ex_iff split: if_split_asm)
  have mid: "ledger_ok day (db\<lparr> bd_counters := cs \<rparr>)" and ex: "list_ex (is_counter d u) cs"
    using ensure_ok [OF assms(1) cs] by blast+
  have ck: "counter_ok day (bd_calls db) c" "bc_usage_date c = d" "bc_usage c = u"
    using mid find_counter [OF c] by (auto simp: ledger_ok_def)
  have st: "stored (bc_reserved_usd c)" "stored (bc_actual_usd c)" using ck(1) by (auto simp: counter_ok_def)
  have calls_ok: "distinct (map mc_call_id calls)" "\<forall>x \<in> set calls. stored (mc_reserved_usd x)"
    using mid kept usd_stored [OF kept(1)] by (auto simp: ledger_ok_def call_def)
  show ?thesis
  proof (cases full)
    case True
    then have new: "held day x y (call\<lparr> mc_reserved_usd := kept \<rparr>) = 0"
      "booked day x y (call\<lparr> mc_reserved_usd := kept \<rparr>) = 0" for x y
      by (simp_all add: held_def booked_def call_def)
    have "cs' = cs" using out(1) True by simp
    then have "ledger_ok day db'"
      using mid calls_ok kept(2) out(3) new True by (auto simp: ledger_ok_def counter_ok_def call_def)
    then show ?thesis using out(4) True by simp
  next
    case False
    then obtain total where total: "usd (dec_add (bc_reserved_usd c) amount) = Some total"
      "cs' = set_counter d u total (bc_actual_usd c) now cs" using out(1) by auto
    have t: "total = bc_reserved_usd c + kept" "stored total" using usd_add [OF total(1) st(1) assms(2) kept(1)] by auto
    have new: "held day x y (call\<lparr> mc_reserved_usd := kept \<rparr>) = (if x = d \<and> y = u then kept else 0)"
      "booked day x y (call\<lparr> mc_reserved_usd := kept \<rparr>) = 0" for x y
      using False by (auto simp: held_def booked_def call_def d_def)
    have counters: "counter_ok day calls x" if x: "x \<in> set cs'" for x
    proof (cases "is_counter d u x")
      case True
      then have "bc_reserved_usd x = total" "bc_actual_usd x = bc_actual_usd c"
        using set_counter_in [OF x [unfolded total(2)]] by auto
      then show ?thesis using True t st ck new kept(2) by (simp add: counter_ok_def is_counter_def)
    next
      case False
      then have "x \<in> set cs" using set_counter_in [OF x [unfolded total(2)]] by auto
      then have "counter_ok day (bd_calls db) x" using mid by (simp add: ledger_ok_def)
      then show ?thesis using False new kept(2) by (auto simp: counter_ok_def is_counter_def)
    qed
    have "list_ex (is_counter (day (mc_called_at x)) (mc_usage x)) cs'"
      if "x \<in> set calls" "mc_status x \<in> {CALL_RESERVED, CALL_SUCCEEDED}" for x
      using that mid kept(2) ex unfolding total(2) set_counter_ex by (auto simp: ledger_ok_def call_def d_def)
    then have "ledger_ok day db'" using counters calls_ok out(3) by (simp add: ledger_ok_def)
    moreover have "\<exists>x \<in> set cs'. is_counter d u x"
      using ex unfolding total(2) by (simp add: set_counter_ex flip: list_ex_iff)
    then obtain x where x: "x \<in> set cs'" "is_counter d u x" by blast
    moreover have "bc_reserved_usd x = total" "bc_actual_usd x = bc_actual_usd c"
      using set_counter_in [OF x(1) [unfolded total(2)]] x(2) by auto
    moreover have "bc_actual_usd c + bc_reserved_usd c + amount \<le> mr_daily_budget_usd route"
      using False stored_add3_exact [OF st(2,1) assms(2)] by (simp add: full_def)
    moreover have "\<bar>num_round 8 amount - amount\<bar> \<le> 1 / (2 * 10 ^ 8)"
      using assms(2) by (intro num_round_error) (simp add: short_def)
    then have "kept \<le> amount + 1 / (2 * 10 ^ 8)" using usd_stored [OF kept(1)] by linarith
    ultimately show ?thesis using t(1) out(3) unfolding d_def u_def now_def by (intro conjI impI bexI [of _ x]) auto
  qed
qed (use assms(1) in auto)

lemma settle_ok:
  assumes "ledger_ok day db" and "active_call db i = Some call"
    and "case actual of None \<Rightarrow> True | Some a \<Rightarrow> short a \<and> usd a = Some kept"
    and "\<And>c. mc_call_id (f c) = mc_call_id c \<and> mc_usage (f c) = mc_usage c \<and> mc_called_at (f c) = mc_called_at c \<and>
      mc_reserved_usd (f c) = mc_reserved_usd c \<and> mc_status (f c) \<noteq> CALL_RESERVED"
    and "\<And>c. if actual = None then mc_status (f c) \<noteq> CALL_SUCCEEDED
      else mc_status (f c) = CALL_SUCCEEDED \<and> mc_actual_usd (f c) = Some kept"
  shows "ledger_ok day (snd (settle day db now call actual f))"
proof (cases "snd (settle day db now call actual f) = db")
  case False
  define db' where "db' = snd (settle day db now call actual f)"
  then obtain r where settled: "settle day db now call actual f = (r, db')" by (metis prod.collapse)
  have changed: "db' \<noteq> db" using False by (simp add: db'_def)
  define d u where "d = day (mc_called_at call)" and "u = mc_usage call"
  note run = settled [unfolded settle_def Let_def, folded d_def u_def]
  have call: "call \<in> set (bd_calls db)" "mc_call_id call = i" "mc_status call = CALL_RESERVED"
    using assms(2) by (auto simp: active_call_def dest: find_Some_set split: option.split_asm if_split_asm)
  obtain c where c: "List.find (is_counter d u) (bd_counters db) = Some c"
    using run changed by (auto split: option.split_asm)
  obtain res act where amounts: "usd (dec_sub (bc_reserved_usd c) (mc_reserved_usd call)) = Some res"
      "(case actual of None \<Rightarrow> Some (bc_actual_usd c) | Some a \<Rightarrow> usd (dec_add (bc_actual_usd c) a)) = Some act"
      "db' = db\<lparr> bd_counters := set_counter d u res act now (bd_counters db), bd_calls := set_call i f (bd_calls db) \<rparr>"
    using run changed c call(2) by (auto split: option.split_asm)
  have ck: "counter_ok day (bd_calls db) c" "bc_usage_date c = d" "bc_usage c = u"
    using assms(1) find_counter [OF c] by (auto simp: ledger_ok_def)
  have st: "stored (bc_reserved_usd c)" "stored (bc_actual_usd c)" using ck(1) by (auto simp: counter_ok_def)
  have dist: "distinct (map mc_call_id (bd_calls db))" and cst: "\<forall>x \<in> set (bd_calls db). stored (mc_reserved_usd x)"
    using assms(1) by (auto simp: ledger_ok_def)
  have "held day d u call \<le> sum_list (map (held day d u) (bd_calls db))"
    by (rule member_le_sum) (use cst call in \<open>auto simp: held_def stored_def\<close>)
  then have "mc_reserved_usd call \<le> bc_reserved_usd c"
    using ck call by (simp add: counter_ok_def held_def d_def u_def)
  then have res: "res = bc_reserved_usd c - mc_reserved_usd call" "stored res"
    using usd_sub [OF amounts(1) st(1)] cst call(1) by auto
  have act: "act = bc_actual_usd c + (if actual = None then 0 else kept)" "stored act"
    using amounts(2) assms(3) st(2) usd_add [of "bc_actual_usd c"] by (auto split: option.split_asm)
  let ?calls = "set_call i f (bd_calls db)"
  note sums = sum_set_call [OF dist call(1,2), of _ f]
  have keys: "map mc_call_id ?calls = map mc_call_id (bd_calls db)" using assms(4) by (simp add: set_call_def)
  have delta: "held day x y call = (if x = d \<and> y = u then mc_reserved_usd call else 0)" "held day x y (f call) = 0"
    "booked day x y call = 0" "booked day x y (f call) = (if actual \<noteq> None \<and> x = d \<and> y = u then kept else 0)" for x y
    using call(3) assms(4) [of call] assms(5) [of call]
    by (auto simp: held_def booked_def d_def u_def split: if_split_asm)
  have counters: "counter_ok day ?calls x" if x: "x \<in> set (set_counter d u res act now (bd_counters db))" for x
  proof (cases "is_counter d u x")
    case True
    then have "bc_reserved_usd x = res" "bc_actual_usd x = act" using set_counter_in [OF x] by auto
    then show ?thesis using True res act ck sums delta by (simp add: counter_ok_def is_counter_def)
  next
    case False
    then have "counter_ok day (bd_calls db) x" using set_counter_in [OF x] assms(1) by (auto simp: ledger_ok_def)
    then show ?thesis using False sums delta by (auto simp: counter_ok_def is_counter_def)
  qed
  have "stored (mc_reserved_usd y) \<and> (mc_status y \<in> {CALL_RESERVED, CALL_SUCCEEDED} \<longrightarrow>
      list_ex (is_counter (day (mc_called_at y)) (mc_usage y)) (bd_counters db))" if y: "y \<in> set ?calls" for y
  proof -
    obtain x where x: "x \<in> set (bd_calls db)" "y = (if mc_call_id x = i then f x else x)"
      using y unfolding set_call_def set_map by blast
    have "x = call" if "mc_call_id x = i" using that dist x(1) call(1,2) by (auto simp: distinct_map dest: inj_onD)
    then show ?thesis using x assms(1,4) call by (auto simp: ledger_ok_def)
  qed
  then have "ledger_ok day db'" using counters dist keys amounts(3) by (simp add: ledger_ok_def set_counter_ex)
  then show ?thesis by (simp add: db'_def)
qed (use assms(1) in simp)

fun tame_amount :: "amount \<Rightarrow> bool" where
  "tame_amount (Finite x) \<longleftrightarrow> x < 0 \<or> short x"
| "tame_amount NonFinite \<longleftrightarrow> True"

fun tame :: "budget_op \<Rightarrow> bool" where
  "tame (Reserve clock route a i s b) \<longleftrightarrow> tame_amount a"
| "tame (Succeed clock i a m n) \<longleftrightarrow> tame_amount a"
| "tame (Fail clock i e) \<longleftrightarrow> True"

lemma tame_amount_of: "tame_amount a \<Longrightarrow> amount_of a = Some x \<Longrightarrow> a = Finite x \<and> short x"
  by (cases a) (auto split: if_split_asm)

lemma apply_budget_ok:
  assumes "ledger_ok day db" and "tame p"
  shows "ledger_ok day (apply_budget day p db)"
proof (cases p)
  case (Reserve clock route a i s b)
  show ?thesis
  proof (cases "amount_of a")
    case None then show ?thesis using Reserve assms(1) by (simp add: reserve_def)
  next
    case (Some x)
    then have "a = Finite x" "short x" using tame_amount_of assms(2) Reserve by auto
    then show ?thesis using reserve_ok [OF assms(1), of x clock route i s b] Reserve
      by (cases "reserve day db clock route a i s b") auto
  qed
next
  case (Succeed clock i a m n)
  show ?thesis
  proof (cases "amount_of a = None \<or> active_call db i = None \<or> usd (the (amount_of a)) = None")
    case True then show ?thesis using Succeed assms(1) by (auto simp: succeed_def split: option.split)
  next
    case False
    then obtain x call kept where call: "amount_of a = Some x" "active_call db i = Some call" "usd x = Some kept" "short x"
      using assms(2) Succeed tame_amount_of by auto
    then have "ledger_ok day (snd (settle day db (instant_of clock) call (Some x) (\<lambda>c. c\<lparr> mc_actual_usd := Some kept,
        mc_input_tokens := Some m, mc_output_tokens := Some n, mc_status := CALL_SUCCEEDED,
        mc_completed_at := Some (instant_of clock) \<rparr>)))"
      by (intro settle_ok [OF assms(1) call(2), where actual = "Some x" and kept = kept]) auto
    then show ?thesis using Succeed call assms(1) by (auto simp: succeed_def)
  qed
next
  case (Fail clock i e)
  show ?thesis
  proof (cases "active_call db i")
    case None then show ?thesis using Fail assms(1) by (simp add: fail_def)
  next
    case (Some call)
    then have "ledger_ok day (snd (settle day db (instant_of clock) call None (\<lambda>c. c\<lparr> mc_status := CALL_FAILED,
        mc_error_code := Some e, mc_completed_at := Some (instant_of clock) \<rparr>)))"
      by (intro settle_ok [OF assms(1) Some, where actual = None]) auto
    then show ?thesis using Fail Some assms(1) by (auto simp: fail_def)
  qed
qed

lemma run_budget_ok: "ledger_ok day db \<Longrightarrow> list_all tame ops \<Longrightarrow> ledger_ok day (run_budget day ops db)"
  by (induction ops arbitrary: db) (simp_all add: apply_budget_ok)

lemma reserve_exhausted:
  assumes "ledger_ok day db" and "short amount"
    and "reserve day db clock route (Finite amount) i s b = (Inl (DailyModelBudgetExhausted u cap actual reserved requested), db')"
  shows "u = mr_usage route \<and> cap = mr_daily_budget_usd route \<and> requested = amount \<and>
    cap < actual + reserved + requested \<and>
    (\<exists>c \<in> set (bd_counters db'). is_counter (day (instant_of clock)) u c \<and>
       bc_actual_usd c = actual \<and> bc_reserved_usd c = reserved)"
proof -
  define now d us where "now = instant_of clock" and "d = day now" and "us = mr_usage route"
  note run = assms(3) [unfolded reserve_def, folded now_def, unfolded Let_def, folded d_def us_def]
  obtain cs where cs: "ensure_counter d us now (bd_counters db) = Some cs"
    using run by (auto split: if_split_asm option.split_asm)
  obtain c where c: "List.find (is_counter d us) cs = Some c"
    using run cs by (auto split: if_split_asm option.split_asm)
  define full where "full = (mr_daily_budget_usd route < dec_add (dec_add (bc_actual_usd c) (bc_reserved_usd c)) amount)"
  have out: "full" "u = us" "cap = mr_daily_budget_usd route" "requested = amount"
      "actual = bc_actual_usd c" "reserved = bc_reserved_usd c" "bd_counters db' = cs"
    using run cs c by (auto simp: full_def [symmetric] split: if_split_asm option.split_asm)
  have "counter_ok day (bd_calls db) c"
    using ensure_ok(1) [OF assms(1) cs] find_counter [OF c] by (simp add: ledger_ok_def)
  then have "stored (bc_actual_usd c)" "stored (bc_reserved_usd c)" unfolding counter_ok_def by blast+
  then have "cap < actual + reserved + requested"
    using out stored_add3_exact [OF _ _ assms(2)] by (simp add: full_def)
  moreover have "c \<in> set cs" "is_counter d us c" using find_Some_set [OF c] by auto
  ultimately show ?thesis using out unfolding us_def d_def now_def by blast
qed

section \<open>Properties\<close>

definition empty_budget :: "string list \<Rightarrow> budget_db" where
  "empty_budget sirens = \<lparr> bd_counters = [], bd_calls = [], bd_sirens = sirens \<rparr>"

lemma empty_budget_ok: "ledger_ok day (empty_budget sirens)"
  by (simp add: ledger_ok_def empty_budget_def)


definition sample_budget_clock :: datetime where
  "sample_budget_clock = \<lparr> dt_date = mk_date 2026 1 5, dt_hour = 9, dt_minute = 0, dt_second = 0, dt_micro = 0,
     dt_offset = Some 0 \<rparr>"

definition sample_route :: model_route where
  "sample_route = \<lparr> mr_usage = ''hermes'', mr_model = ''m'', mr_daily_budget_usd = 1,
     mr_reserve_input_usd_per_million = 6, mr_reserve_output_usd_per_million = 30 \<rparr>"

definition sample_budget_ops :: "budget_op list" where
  "sample_budget_ops =
     [Reserve sample_budget_clock sample_route (Finite (7 / 10)) ''a'' None None,
      Reserve sample_budget_clock sample_route (Finite (4 / 10)) ''b'' None None,
      Succeed sample_budget_clock ''a'' (Finite (1 / 10 ^ 9)) 10 5,
      Reserve sample_budget_clock sample_route (Finite (4 / 10)) ''c'' None None,
      Fail sample_budget_clock ''c'' ''PROVIDER_NETWORK'']"

definition sample_day :: "instant \<Rightarrow> date" where "sample_day t = mk_date 2026 1 5"

lemma sample_budget_tame: "list_all tame sample_budget_ops" by code_simp

lemma sample_reserve:
  "fst (reserve sample_day (empty_budget []) sample_budget_clock sample_route (Finite (7 / 10)) ''a'' None None) = Inr ()"
  by code_simp


end
