(* ===== verification/RuntimeStore.thy ===== *)
theory RuntimeStore
  imports RuntimeContracts
begin

text \<open>
  \<open>acquisition_runtime/store.py\<close>: the lease with its fencing tokens, the cycles with their stages and
  attempts, and the health observation of the runtime, over the tables of \<open>persistence/schema.py\<close>.

  Every operation is one transaction. All but \<open>release_lease\<close> and \<open>abandon_cycle\<close> begin by locking the
  lease row, those two lock the single row they update, so each is one step from a state of the tables
  to the next; an error leaves the tables as they were. \<open>now\<close> is the database clock of the
  transaction, which is its start and need not follow the order of the commits. \<open>stamp\<close> is the
  timestamp the caller passes (\<open>at\<close>).
\<close>

section \<open>Tables\<close>

record lease_row = \<comment> \<open>the row of \<open>LEASE_NAME\<close>\<close>
  lr_owner_ref :: "string option"
  lr_acquired_at :: "instant option"
  lr_heartbeat_at :: "instant option"
  lr_expires_at :: "instant option"
  lr_generation :: int

record cycle_row =
  cy_cycle_ref :: string
  cy_opportunity_key :: string
  cy_config_fingerprint :: string
  cy_status :: cycle_status
  cy_next_stage :: "runtime_stage option"
  cy_spent_cost :: rat
  cy_last_reason_code :: "string option"
  cy_started_at :: instant
  cy_updated_at :: instant
  cy_completed_at :: "instant option"

record stage_row =
  sg_cycle_ref :: string
  sg_stage :: runtime_stage
  sg_status :: stage_status
  sg_attempt_count :: int
  sg_plan_ref :: "string option"
  sg_command :: "string option"
  sg_argument_fingerprint :: "string option"
  sg_result_refs :: "string list"
  sg_reserved_cost :: rat
  sg_observed_cost :: rat
  sg_reason_codes :: "string list"
  sg_retry_at :: "instant option"
  sg_replay_same_attempt :: bool
  sg_started_at :: "instant option"
  sg_completed_at :: "instant option"
  sg_updated_at :: instant

record attempt_row =
  at_cycle_ref :: string
  at_stage :: runtime_stage
  at_attempt_count :: int
  at_status :: stage_status
  at_reserved_cost :: rat
  at_observed_cost :: rat
  at_proposal :: "runtime_proposal option" \<comment> \<open>a validated proposal equals what its JSON is parsed to\<close>
  at_retry_at :: "instant option"
  at_replay_same_attempt :: bool
  at_completed_at :: "instant option"

record observation_row = \<comment> \<open>the row of \<open>RUNTIME_OBSERVATION_NAME\<close>\<close>
  ob_capability_fingerprint :: string
  ob_capability :: runtime_capability \<comment> \<open>the columns of \<open>_capability_values\<close>\<close>
  ob_observed_at :: instant
  ob_heartbeat_at :: instant
  ob_last_cycle_ref :: "string option"
  ob_last_cycle_status :: "cycle_status option"
  ob_last_cycle_at :: "instant option"
  ob_updated_at :: instant

record runtime_db =
  rt_lease :: "lease_row option"
  rt_cycles :: "cycle_row list"
  rt_stages :: "stage_row list"
  rt_attempts :: "attempt_row list"
  rt_observation :: "observation_row option"

section \<open>Constraints\<close>

definition text_opt :: "nat \<Rightarrow> string option \<Rightarrow> bool" where
  "text_opt n so \<longleftrightarrow> (case so of None \<Rightarrow> True | Some s \<Rightarrow> text_fits n s)"

definition cost_ok :: "rat \<Rightarrow> bool" where
  \<comment> \<open>a rounded \<open>NUMERIC(12, 6)\<close> value within the column and not negative\<close>
  "cost_ok x \<longleftrightarrow> 0 \<le> x \<and> x < 10 ^ 6"

definition integer_ok :: "int \<Rightarrow> bool" where
  "integer_ok n \<longleftrightarrow> - (2 ^ 31) \<le> n \<and> n < 2 ^ 31"

definition lease_row_ok :: "lease_row \<Rightarrow> bool" where
  "lease_row_ok r \<longleftrightarrow> text_opt 256 (lr_owner_ref r) \<and> 0 \<le> lr_generation r \<and> integer_ok (lr_generation r) \<and>
     (case (lr_owner_ref r, lr_acquired_at r, lr_heartbeat_at r, lr_expires_at r) of
        (None, None, None, None) \<Rightarrow> True
      | (Some _, Some a, Some h, Some e) \<Rightarrow> a \<le> h \<and> h < e
      | _ \<Rightarrow> False)"

definition terminal_cycle :: "cycle_status \<Rightarrow> bool" where
  \<comment> \<open>\<open>_TERMINAL_CYCLES\<close>\<close>
  "terminal_cycle s \<longleftrightarrow> s \<in> {CYCLE_SUCCEEDED, CYCLE_SUPPRESSED}"

definition cycle_row_ok :: "cycle_row \<Rightarrow> bool" where
  "cycle_row_ok r \<longleftrightarrow> text_fits 64 (cy_cycle_ref r) \<and> text_fits 256 (cy_opportunity_key r) \<and>
     text_fits 64 (cy_config_fingerprint r) \<and> cost_ok (cy_spent_cost r) \<and> text_opt 100 (cy_last_reason_code r) \<and>
     (if terminal_cycle (cy_status r) then cy_completed_at r \<noteq> None \<and> cy_next_stage r = None
      else cy_completed_at r = None)"

definition stage_row_ok :: "stage_row \<Rightarrow> bool" where
  "stage_row_ok r \<longleftrightarrow> text_fits 64 (sg_cycle_ref r) \<and> 0 \<le> sg_attempt_count r \<and> integer_ok (sg_attempt_count r) \<and>
     text_opt 256 (sg_plan_ref r) \<and> text_opt 64 (sg_command r) \<and> text_opt 64 (sg_argument_fingerprint r) \<and>
     cost_ok (sg_reserved_cost r) \<and> cost_ok (sg_observed_cost r) \<and>
     (if sg_status r = STAGE_PENDING
      then sg_attempt_count r = 0 \<and> sg_started_at r = None \<and> sg_completed_at r = None
      else 1 \<le> sg_attempt_count r \<and> sg_started_at r \<noteq> None \<and>
           (sg_completed_at r = None \<longleftrightarrow> sg_status r = STAGE_RUNNING)) \<and>
     retry_shape (sg_status r) (sg_retry_at r) (sg_replay_same_attempt r)"

definition attempt_row_ok :: "attempt_row \<Rightarrow> bool" where
  "attempt_row_ok r \<longleftrightarrow> text_fits 64 (at_cycle_ref r) \<and> 1 \<le> at_attempt_count r \<and> integer_ok (at_attempt_count r) \<and>
     at_status r \<noteq> STAGE_PENDING \<and> cost_ok (at_reserved_cost r) \<and> cost_ok (at_observed_cost r) \<and>
     (at_completed_at r = None \<longleftrightarrow> at_status r = STAGE_RUNNING) \<and>
     retry_shape (at_status r) (at_retry_at r) (at_replay_same_attempt r)"

definition observation_row_ok :: "runtime_db \<Rightarrow> observation_row \<Rightarrow> bool" where
  "observation_row_ok db r \<longleftrightarrow>
     (let c = ob_capability r in ca_native_tools c = 0 \<and>
        (ca_environment c = ''STAGING'' \<and> ca_qa_only c \<or> ca_environment c = ''PRODUCTION'' \<and> \<not> ca_qa_only c)) \<and>
     ob_observed_at r \<le> ob_heartbeat_at r \<and> ob_heartbeat_at r \<le> ob_updated_at r \<and>
     (case (ob_last_cycle_ref r, ob_last_cycle_status r, ob_last_cycle_at r) of
        (None, None, None) \<Rightarrow> True
      | (Some ref, Some _, Some t) \<Rightarrow>
          t \<le> ob_heartbeat_at r \<and> list_ex (\<lambda>c. cy_cycle_ref c = ref) (rt_cycles db)
      | _ \<Rightarrow> False)"

section \<open>Statements\<close>

definition update_where :: "('r \<Rightarrow> bool) \<Rightarrow> ('r \<Rightarrow> 'r) \<Rightarrow> ('r \<Rightarrow> bool) \<Rightarrow> 'r list \<Rightarrow> (runtime_error, 'r list) result" where
  \<comment> \<open>\<open>UPDATE .. WHERE\<close>: fails when an updated row violates a constraint\<close>
  "update_where p f ok rows =
     (if list_all (\<lambda>r. p r \<longrightarrow> ok (f r)) rows then Inr (map (\<lambda>r. if p r then f r else r) rows)
      else Inl RtDatabaseError)"

definition one_or :: "runtime_error \<Rightarrow> ('r \<Rightarrow> bool) \<Rightarrow> 'r list \<Rightarrow> (runtime_error, 'r) result" where
  \<comment> \<open>\<open>SELECT .. WHERE <key>\<close>, with the error of an absent row\<close>
  "one_or e p rows = (case List.find p rows of None \<Rightarrow> Inl e | Some r \<Rightarrow> Inr r)"

definition is_cycle :: "string \<Rightarrow> cycle_row \<Rightarrow> bool" where
  "is_cycle ref r \<longleftrightarrow> cy_cycle_ref r = ref"

definition is_stage :: "string \<Rightarrow> runtime_stage \<Rightarrow> stage_row \<Rightarrow> bool" where
  "is_stage ref s r \<longleftrightarrow> sg_cycle_ref r = ref \<and> sg_stage r = s"

definition is_attempt :: "string \<Rightarrow> runtime_stage \<Rightarrow> int \<Rightarrow> attempt_row \<Rightarrow> bool" where
  "is_attempt ref s n r \<longleftrightarrow> at_cycle_ref r = ref \<and> at_stage r = s \<and> at_attempt_count r = n"

definition update_cycle :: "string \<Rightarrow> (cycle_row \<Rightarrow> cycle_row) \<Rightarrow> runtime_db \<Rightarrow> (runtime_error, runtime_db) result" where
  "update_cycle ref f db = rmap (\<lambda>rows. db\<lparr> rt_cycles := rows \<rparr>)
     (update_where (is_cycle ref) f cycle_row_ok (rt_cycles db))"

definition update_stage :: "string \<Rightarrow> runtime_stage \<Rightarrow> (stage_row \<Rightarrow> stage_row) \<Rightarrow> runtime_db \<Rightarrow> (runtime_error, runtime_db) result" where
  "update_stage ref s f db = rmap (\<lambda>rows. db\<lparr> rt_stages := rows \<rparr>)
     (update_where (is_stage ref s) f stage_row_ok (rt_stages db))"

definition update_attempt ::
  "string \<Rightarrow> runtime_stage \<Rightarrow> int \<Rightarrow> (attempt_row \<Rightarrow> bool) \<Rightarrow> (attempt_row \<Rightarrow> attempt_row) \<Rightarrow> runtime_db \<Rightarrow>
   (runtime_error, runtime_db) result" where
  "update_attempt ref s n p f db = rmap (\<lambda>rows. db\<lparr> rt_attempts := rows \<rparr>)
     (update_where (\<lambda>r. is_attempt ref s n r \<and> p r) f attempt_row_ok (rt_attempts db))"

definition insert_attempt :: "attempt_row \<Rightarrow> runtime_db \<Rightarrow> (runtime_error, bool \<times> runtime_db) result" where
  \<comment> \<open>\<open>insert_if_absent\<close>; the cycle is a foreign key\<close>
  "insert_attempt r db =
     (if list_ex (is_attempt (at_cycle_ref r) (at_stage r) (at_attempt_count r)) (rt_attempts db) then Inr (False, db)
      else if attempt_row_ok r \<and> list_ex (is_cycle (at_cycle_ref r)) (rt_cycles db)
      then Inr (True, db\<lparr> rt_attempts := rt_attempts db @ [r] \<rparr>)
      else Inl RtDatabaseError)"

definition cost_column :: "rat \<Rightarrow> rat" where
  "cost_column x = num_round 6 x"

section \<open>The lease\<close>

definition seconds :: "int \<Rightarrow> int" where "seconds n = n * 1000000"

definition free_lease :: lease_row where
  "free_lease = \<lparr> lr_owner_ref = None, lr_acquired_at = None, lr_heartbeat_at = None, lr_expires_at = None, lr_generation = 0 \<rparr>"

definition holds :: "lease_row \<Rightarrow> string \<Rightarrow> int \<Rightarrow> bool" where
  "holds r owner token \<longleftrightarrow> lr_owner_ref r = Some owner \<and> lr_generation r = token"

definition live :: "lease_row \<Rightarrow> instant \<Rightarrow> bool" where
  "live r now \<longleftrightarrow> (case lr_expires_at r of None \<Rightarrow> False | Some e \<Rightarrow> now < e)"

definition acquire_lease ::
  "runtime_db \<Rightarrow> instant \<Rightarrow> string \<Rightarrow> datetime \<Rightarrow> int \<Rightarrow> (runtime_error, lease_result \<times> runtime_db) result" where
  "acquire_lease db now owner acquired_at lease_seconds =
     rbind (require_aware acquired_at) (\<lambda>_.
     let row = (case rt_lease db of None \<Rightarrow> free_lease | Some r \<Rightarrow> r);
         expired = (case lr_expires_at row of None \<Rightarrow> False | Some e \<Rightarrow> e \<le> now);
         eligible = (lr_owner_ref row = None \<or> lr_owner_ref row = Some owner \<or> expired);
         lost = \<lparr> le_owned = False, le_reclaimed = False, le_fencing_token = None \<rparr>;
         generation = lr_generation row + 1;
         row' = row\<lparr> lr_owner_ref := Some owner, lr_acquired_at := Some now, lr_heartbeat_at := Some now,
                     lr_expires_at := Some (now + seconds lease_seconds), lr_generation := generation \<rparr>
     in if \<not> eligible then Inr (lost, db\<lparr> rt_lease := Some row \<rparr>)
        else if \<not> lease_row_ok row' then Inl RtDatabaseError
        else rmap (\<lambda>r. (r, db\<lparr> rt_lease := Some row' \<rparr>))
          (RuntimeLeaseResult \<lparr> le_owned = True,
             le_reclaimed = (lr_owner_ref row \<noteq> None \<and> lr_owner_ref row \<noteq> Some owner \<and> expired),
             le_fencing_token = Some generation \<rparr>))"

definition require_active_lease :: "runtime_db \<Rightarrow> instant \<Rightarrow> string \<Rightarrow> int \<Rightarrow> (runtime_error, lease_row) result" where
  \<comment> \<open>\<open>_lease_row\<close> and the ownership test of every fenced operation\<close>
  "require_active_lease db now owner token =
     (case rt_lease db of
        None \<Rightarrow> Inl AcquisitionRuntimeConflict
      | Some r \<Rightarrow> if holds r owner token \<and> live r now then Inr r else Inl AcquisitionRuntimeConflict)"

definition extend_lease :: "runtime_db \<Rightarrow> instant \<Rightarrow> string \<Rightarrow> int \<Rightarrow> int \<Rightarrow> (runtime_error, runtime_db) result" where
  \<comment> \<open>the update of \<open>heartbeat_lease\<close> and of \<open>protect\<close>\<close>
  "extend_lease db now owner token lease_seconds =
     rbind (require_active_lease db now owner token) (\<lambda>r.
     let r' = r\<lparr> lr_heartbeat_at := Some now, lr_expires_at := Some (now + seconds lease_seconds) \<rparr>
     in if lease_row_ok r' then Inr (db\<lparr> rt_lease := Some r' \<rparr>) else Inl RtDatabaseError)"

definition heartbeat_lease ::
  "runtime_db \<Rightarrow> instant \<Rightarrow> string \<Rightarrow> int \<Rightarrow> datetime \<Rightarrow> int \<Rightarrow> (runtime_error, unit \<times> runtime_db) result" where
  "heartbeat_lease db now owner token stamp lease_seconds =
     rbind (require_aware stamp) (\<lambda>_. rmap (Pair ()) (extend_lease db now owner token lease_seconds))"

definition protect ::
  "runtime_db \<Rightarrow> instant \<Rightarrow> string \<Rightarrow> int \<Rightarrow> int \<Rightarrow> (instant \<Rightarrow> (runtime_error, 'a) result) \<Rightarrow>
   (runtime_error, 'a \<times> runtime_db) result" where
  \<comment> \<open>\<open>AcquisitionRuntimeExecutionGuard.protect\<close>: the action runs inside the transaction that extends the lease\<close>
  "protect db now owner token lease_seconds action =
     rbind (extend_lease db now owner token lease_seconds) (\<lambda>db'. rmap (\<lambda>x. (x, db')) (action now))"

definition release_lease ::
  "runtime_db \<Rightarrow> string \<Rightarrow> int \<Rightarrow> datetime \<Rightarrow> (runtime_error, unit \<times> runtime_db) result" where
  "release_lease db owner token stamp =
     rbind (require_aware stamp) (\<lambda>_.
     Inr ((), case rt_lease db of
        None \<Rightarrow> db
      | Some r \<Rightarrow> if holds r owner token
          then db\<lparr> rt_lease := Some (free_lease\<lparr> lr_generation := lr_generation r \<rparr>) \<rparr> else db))"

section \<open>Observations\<close>

definition runtime_observation_of :: "observation_row \<Rightarrow> (runtime_error, health_observation) result" where
  "runtime_observation_of r =
     rbind (RuntimeCapabilityEvidence (ob_capability r)) (\<lambda>c.
     rbind (ensure (capability_fingerprint c = ob_capability_fingerprint r) AcquisitionRuntimeConflict) (\<lambda>_.
     RuntimeHealthObservation \<lparr> ho_capability = c, ho_observed_at = ob_observed_at r,
       ho_heartbeat_at = ob_heartbeat_at r, ho_last_cycle_ref = ob_last_cycle_ref r,
       ho_last_cycle_status = ob_last_cycle_status r, ho_last_cycle_at = ob_last_cycle_at r \<rparr>))"

definition record_runtime_observation ::
  "runtime_db \<Rightarrow> instant \<Rightarrow> string \<Rightarrow> runtime_capability \<Rightarrow> int \<Rightarrow> datetime \<Rightarrow>
   (runtime_error, health_observation \<times> runtime_db) result" where
  "record_runtime_observation db now owner capability token stamp =
     rbind (require_aware stamp) (\<lambda>t.
     rbind (require_active_lease db now owner token) (\<lambda>_.
     let row = \<lparr> ob_capability_fingerprint = capability_fingerprint capability, ob_capability = capability,
           ob_observed_at = t, ob_heartbeat_at = t, ob_last_cycle_ref = None, ob_last_cycle_status = None,
           ob_last_cycle_at = None, ob_updated_at = t \<rparr>
     in rbind (ensure (case rt_observation db of None \<Rightarrow> True | Some old \<Rightarrow> ob_heartbeat_at old \<le> t)
          AcquisitionRuntimeConflict) (\<lambda>_.
        rbind (ensure (observation_row_ok db row) RtDatabaseError) (\<lambda>_.
        rmap (\<lambda>ob. (ob, db\<lparr> rt_observation := Some row \<rparr>)) (runtime_observation_of row)))))"

definition record_cycle_observation ::
  "runtime_db \<Rightarrow> instant \<Rightarrow> string \<Rightarrow> string \<Rightarrow> int \<Rightarrow> datetime \<Rightarrow>
   (runtime_error, health_observation \<times> runtime_db) result" where
  "record_cycle_observation db now owner cycle_ref token stamp =
     rbind (require_aware stamp) (\<lambda>t.
     rbind (require_active_lease db now owner token) (\<lambda>_.
     case rt_observation db of
       None \<Rightarrow> Inl AcquisitionRuntimeConflict
     | Some old \<Rightarrow>
       rbind (one_or RtKeyError (is_cycle cycle_ref) (rt_cycles db)) (\<lambda>cycle.
       rbind (ensure (cy_updated_at cycle \<le> t \<and> ob_heartbeat_at old \<le> t) AcquisitionRuntimeConflict) (\<lambda>_.
       let row = old\<lparr> ob_heartbeat_at := t, ob_last_cycle_ref := Some cycle_ref,
             ob_last_cycle_status := Some (cy_status cycle), ob_last_cycle_at := Some t, ob_updated_at := t \<rparr>
       in rbind (ensure (observation_row_ok db row) RtDatabaseError) (\<lambda>_.
          rmap (\<lambda>ob. (ob, db\<lparr> rt_observation := Some row \<rparr>)) (runtime_observation_of row))))))"

definition read_runtime_observation :: "runtime_db \<Rightarrow> (runtime_error, health_observation option) result" where
  "read_runtime_observation db =
     (case rt_observation db of None \<Rightarrow> Inr None | Some r \<Rightarrow> rmap Some (runtime_observation_of r))"

definition machine_reason :: "string \<Rightarrow> bool" where
  \<comment> \<open>\<open>[A-Z][A-Z0-9_]{0,127}\<close>\<close>
  "machine_reason s \<longleftrightarrow> s \<noteq> [] \<and> length s \<le> 128 \<and> is_upper (hd s) \<and>
     list_all (\<lambda>c. is_upper c \<or> is_digit c \<or> c = CHR ''_'') (tl s)"

definition read_cycle_reason_code :: "runtime_db \<Rightarrow> string \<Rightarrow> string option" where
  "read_cycle_reason_code db cycle_ref =
     (case List.find (is_cycle cycle_ref) (rt_cycles db) of
        None \<Rightarrow> None
      | Some c \<Rightarrow> (case cy_last_reason_code c of
           None \<Rightarrow> None
         | Some s \<Rightarrow> Some (if machine_reason s then s else ''RUNTIME_CYCLE_REASON_INVALID'')))"

section \<open>Cycles\<close>

definition abandon_cycle ::
  "runtime_db \<Rightarrow> string \<Rightarrow> string \<Rightarrow> datetime \<Rightarrow> (runtime_error, bool \<times> runtime_db) result" where
  "abandon_cycle db cycle_ref reason stamp =
     rbind (require_aware stamp) (\<lambda>t.
     rbind (ensure (py_strip reason \<noteq> [] \<and> length (py_strip reason) \<le> 200) RtValueError) (\<lambda>_.
     rbind (one_or RtKeyError (is_cycle cycle_ref) (rt_cycles db)) (\<lambda>cycle.
     if terminal_cycle (cy_status cycle) then Inr (False, db)
     else rmap (Pair True) (update_cycle cycle_ref (\<lambda>c. c\<lparr> cy_status := CYCLE_SUPPRESSED, cy_next_stage := None,
       cy_last_reason_code := Some ''OPERATOR_ABANDONED'', cy_completed_at := Some t, cy_updated_at := t \<rparr>) db))))"

definition cycle_snapshot_of :: "cycle_row \<Rightarrow> (runtime_error, cycle_snapshot) result" where
  \<comment> \<open>\<open>_snapshot\<close>\<close>
  "cycle_snapshot_of r = RuntimeCycleSnapshot \<lparr> cs_cycle_ref = cy_cycle_ref r, cs_opportunity_key = cy_opportunity_key r,
     cs_status = cy_status r, cs_next_stage = cy_next_stage r, cs_spent_cost = cy_spent_cost r, cs_started_at = cy_started_at r \<rparr>"

definition cycle_ref_of :: "string \<Rightarrow> string \<Rightarrow> string" where
  \<comment> \<open>\<open>_cycle_ref\<close>\<close>
  "cycle_ref_of config_fingerprint opportunity_key =
     sha256_hex (utf8 (''acquisition-runtime-cycle-v1'' @ nul # config_fingerprint @ nul # opportunity_key))"

definition new_cycle :: "string \<Rightarrow> string \<Rightarrow> instant \<Rightarrow> cycle_row" where
  "new_cycle opportunity_key config_fingerprint t = \<lparr> cy_cycle_ref = cycle_ref_of config_fingerprint opportunity_key,
     cy_opportunity_key = opportunity_key, cy_config_fingerprint = config_fingerprint, cy_status = CYCLE_PENDING,
     cy_next_stage = Some STAGE_SIGNAL_SEED, cy_spent_cost = 0, cy_last_reason_code = None, cy_started_at = t,
     cy_updated_at = t, cy_completed_at = None \<rparr>"

definition new_stage :: "string \<Rightarrow> instant \<Rightarrow> runtime_stage \<Rightarrow> stage_row" where
  "new_stage cycle_ref t s = \<lparr> sg_cycle_ref = cycle_ref, sg_stage = s, sg_status = STAGE_PENDING, sg_attempt_count = 0,
     sg_plan_ref = None, sg_command = None, sg_argument_fingerprint = None, sg_result_refs = [], sg_reserved_cost = 0,
     sg_observed_cost = 0, sg_reason_codes = [], sg_retry_at = None, sg_replay_same_attempt = False,
     sg_started_at = None, sg_completed_at = None, sg_updated_at = t \<rparr>"

definition create_cycle :: "runtime_db \<Rightarrow> string \<Rightarrow> string \<Rightarrow> instant \<Rightarrow> (runtime_error, cycle_snapshot \<times> runtime_db) result" where
  "create_cycle db opportunity_key config_fingerprint t =
     (let row = new_cycle opportunity_key config_fingerprint t; ref = cy_cycle_ref row;
          present = list_ex (\<lambda>c. cy_opportunity_key c = opportunity_key \<and> cy_config_fingerprint c = config_fingerprint) (rt_cycles db)
      in rbind (ensure (present \<or> cycle_row_ok row \<and> \<not> list_ex (is_cycle ref) (rt_cycles db)) RtDatabaseError) (\<lambda>_.
      let db1 = (if present then db else db\<lparr> rt_cycles := rt_cycles db @ [row] \<rparr>);
          missing = filter (\<lambda>s. \<not> list_ex (is_stage ref s) (rt_stages db)) STAGES
      in rbind (ensure (missing = [] \<or> list_ex (is_cycle ref) (rt_cycles db1)) RtDatabaseError) (\<lambda>_.
      let db2 = db1\<lparr> rt_stages := rt_stages db @ map (new_stage ref t) missing \<rparr>
      in rbind (one_or RtNoResultFound (is_cycle ref) (rt_cycles db2)) (\<lambda>r. rmap (\<lambda>s. (s, db2)) (cycle_snapshot_of r)))))"

definition resume_or_create_cycle ::
  "runtime_db \<Rightarrow> instant \<Rightarrow> string \<Rightarrow> int \<Rightarrow> string list \<Rightarrow> string \<Rightarrow> datetime \<Rightarrow>
   (runtime_error, cycle_snapshot \<times> runtime_db) result" where
  "resume_or_create_cycle db now owner token opportunity_keys config_fingerprint stamp =
     rbind (require_aware stamp) (\<lambda>t.
     rbind (ensure (opportunity_keys \<noteq> []) RtValueError) (\<lambda>_.
     rbind (require_active_lease db now owner token) (\<lambda>_.
     let of_key = (\<lambda>k. List.find (\<lambda>c. cy_opportunity_key c = k \<and> cy_config_fingerprint c = config_fingerprint) (rt_cycles db))
     in case List.find (\<lambda>k. case of_key k of None \<Rightarrow> False | Some c \<Rightarrow> \<not> terminal_cycle (cy_status c)) opportunity_keys of
          Some k \<Rightarrow> (case of_key k of None \<Rightarrow> Inl RtKeyError | Some c \<Rightarrow> rmap (\<lambda>s. (s, db)) (cycle_snapshot_of c))
        | None \<Rightarrow>
          (case List.find (\<lambda>k. of_key k = None) opportunity_keys of
             Some k \<Rightarrow> create_cycle db k config_fingerprint t
           | None \<Rightarrow> (case of_key (hd opportunity_keys) of
                None \<Rightarrow> Inl RtKeyError | Some c \<Rightarrow> rmap (\<lambda>s. (s, db)) (cycle_snapshot_of c))))))"

definition finish_cycle ::
  "runtime_db \<Rightarrow> instant \<Rightarrow> string \<Rightarrow> cycle_status \<Rightarrow> string \<Rightarrow> int \<Rightarrow> datetime \<Rightarrow> string option \<Rightarrow>
   (runtime_error, unit \<times> runtime_db) result" where
  "finish_cycle db now cycle_ref status owner token stamp reason_code =
     rbind (require_aware stamp) (\<lambda>t.
     rbind (require_active_lease db now owner token) (\<lambda>_.
     rbind (one_or RtKeyError (is_cycle cycle_ref) (rt_cycles db)) (\<lambda>cycle.
     rbind (ensure (\<not> (status = CYCLE_SUCCEEDED \<and> cy_next_stage cycle \<noteq> None)) AcquisitionRuntimeConflict) (\<lambda>_.
     rmap (Pair ()) (update_cycle cycle_ref (\<lambda>c. c\<lparr> cy_status := status,
       cy_next_stage := (if terminal_cycle status then None else cy_next_stage cycle),
       cy_last_reason_code := reason_code, cy_completed_at := (if terminal_cycle status then Some t else None),
       cy_updated_at := t \<rparr>) db)))))"

section \<open>Stages\<close>

definition spent_cost :: "runtime_db \<Rightarrow> string \<Rightarrow> rat" where
  "spent_cost db cycle_ref = foldl dec_add 0
     (map (\<lambda>a. max (at_reserved_cost a) (at_observed_cost a)) (filter (\<lambda>a. at_cycle_ref a = cycle_ref) (rt_attempts db)))"

definition stage_snapshot_of :: "stage_row \<Rightarrow> (runtime_error, stage_snapshot) result" where
  \<comment> \<open>\<open>_stage_snapshot\<close>\<close>
  "stage_snapshot_of r = RuntimeStageSnapshot \<lparr> ss_cycle_ref = sg_cycle_ref r, ss_stage = sg_stage r, ss_status = sg_status r,
     ss_attempt_count = sg_attempt_count r, ss_result_refs = sg_result_refs r, ss_retry_at = sg_retry_at r,
     ss_replay_same_attempt = sg_replay_same_attempt r \<rparr>"

definition next_stage_after :: "runtime_stage \<Rightarrow> stage_status \<Rightarrow> runtime_stage option" where
  "next_stage_after stage status =
     (if status = STAGE_SUPPRESSED then None
      else if status \<noteq> STAGE_SUCCEEDED then Some stage
      else case dropWhile (\<lambda>s. s \<noteq> stage) STAGES of _ # s # _ \<Rightarrow> Some s | _ \<Rightarrow> None)"

definition replay_stage :: "runtime_db \<Rightarrow> string \<Rightarrow> runtime_stage \<Rightarrow> stage_row \<Rightarrow> instant \<Rightarrow> (runtime_error, runtime_db) result" where
  \<comment> \<open>\<open>begin_stage\<close> on a waiting stage that replays its attempt\<close>
  "replay_stage db cycle_ref stage row t =
     rbind (one_or RtNoResultFound (is_attempt cycle_ref stage (sg_attempt_count row)) (rt_attempts db)) (\<lambda>attempt.
     rbind (ensure (at_status attempt = STAGE_WAITING \<and> at_replay_same_attempt attempt) AcquisitionRuntimeConflict) (\<lambda>_.
     rbind (update_attempt cycle_ref stage (sg_attempt_count row) (\<lambda>_. True) (\<lambda>a. a\<lparr> at_status := STAGE_RUNNING,
       at_retry_at := None, at_replay_same_attempt := False, at_completed_at := None \<rparr>) db) (\<lambda>db1.
     rbind (update_stage cycle_ref stage (\<lambda>s. s\<lparr> sg_status := STAGE_RUNNING, sg_reason_codes := [], sg_retry_at := None,
       sg_replay_same_attempt := False, sg_completed_at := None, sg_updated_at := t \<rparr>) db1) (\<lambda>db2.
     update_cycle cycle_ref (\<lambda>c. c\<lparr> cy_status := CYCLE_RUNNING, cy_last_reason_code := None, cy_updated_at := t \<rparr>) db2))))"

definition restart_stage :: "runtime_db \<Rightarrow> string \<Rightarrow> runtime_stage \<Rightarrow> stage_row \<Rightarrow> instant \<Rightarrow> (runtime_error, runtime_db) result" where
  \<comment> \<open>\<open>begin_stage\<close> with a new attempt\<close>
  "restart_stage db cycle_ref stage row t =
     rbind (update_stage cycle_ref stage (\<lambda>s. s\<lparr> sg_status := STAGE_RUNNING, sg_attempt_count := sg_attempt_count row + 1,
       sg_plan_ref := None, sg_command := None, sg_argument_fingerprint := None, sg_reserved_cost := 0,
       sg_observed_cost := 0, sg_reason_codes := [], sg_retry_at := None, sg_replay_same_attempt := False,
       sg_started_at := Some t, sg_completed_at := None, sg_updated_at := t \<rparr>) db) (\<lambda>db1.
     update_cycle cycle_ref (\<lambda>c. c\<lparr> cy_status := CYCLE_RUNNING, cy_next_stage := Some stage,
       cy_last_reason_code := None, cy_completed_at := None, cy_updated_at := t \<rparr>) db1)"

definition begin_stage ::
  "runtime_db \<Rightarrow> instant \<Rightarrow> string \<Rightarrow> runtime_stage \<Rightarrow> string \<Rightarrow> int \<Rightarrow> datetime \<Rightarrow>
   (runtime_error, stage_snapshot \<times> runtime_db) result" where
  "begin_stage db now cycle_ref stage owner token stamp =
     rbind (require_aware stamp) (\<lambda>t.
     rbind (require_active_lease db now owner token) (\<lambda>_.
     rbind (one_or RtKeyError (is_stage cycle_ref stage) (rt_stages db)) (\<lambda>row.
     let started = (\<lambda>db'. rbind (one_or RtNoResultFound (is_stage cycle_ref stage) (rt_stages db'))
           (\<lambda>r. rmap (\<lambda>s. (s, db')) (stage_snapshot_of r)))
     in if sg_status row = STAGE_WAITING \<and> (case sg_retry_at row of None \<Rightarrow> False | Some r \<Rightarrow> t < r)
        then rmap (\<lambda>s. (s, db)) (stage_snapshot_of row)
        else if sg_status row \<in> {STAGE_SUCCEEDED, STAGE_SUPPRESSED} then Inl AcquisitionRuntimeConflict
        else if sg_status row = STAGE_RUNNING then rmap (\<lambda>s. (s, db)) (stage_snapshot_of row)
        else if sg_status row = STAGE_WAITING \<and> sg_replay_same_attempt row
        then rbind (replay_stage db cycle_ref stage row t) started
        else rbind (restart_stage db cycle_ref stage row t) started)))"

definition reserved_with :: "bool \<Rightarrow> rat \<Rightarrow> rat \<Rightarrow> runtime_proposal option \<Rightarrow> (runtime_error, stage_reservation) result" where
  "reserved_with created cost spent proposal = RuntimeStageReservation \<lparr> sr_accepted = True, sr_created = created,
     sr_reserved_cost = cost, sr_total_cycle_cost = spent, sr_proposal = proposal \<rparr>"

definition refused_with :: "rat \<Rightarrow> rat \<Rightarrow> (runtime_error, stage_reservation) result" where
  "refused_with cost spent = RuntimeStageReservation \<lparr> sr_accepted = False, sr_created = False,
     sr_reserved_cost = cost, sr_total_cycle_cost = spent, sr_proposal = None \<rparr>"

definition book_reservation ::
  "runtime_db \<Rightarrow> string \<Rightarrow> runtime_stage \<Rightarrow> rat \<Rightarrow> rat \<Rightarrow> instant \<Rightarrow> (runtime_error, stage_reservation \<times> runtime_db) result" where
  \<comment> \<open>the updates of the stage and the cycle that follow the write of the attempt\<close>
  "book_reservation db cycle_ref stage cost total_before t =
     rbind (update_stage cycle_ref stage (\<lambda>s. s\<lparr> sg_reserved_cost := cost_column cost, sg_updated_at := t \<rparr>) db) (\<lambda>db1.
     rbind (update_cycle cycle_ref (\<lambda>c. c\<lparr> cy_spent_cost := cost_column (dec_add total_before cost), cy_updated_at := t \<rparr>) db1) (\<lambda>db2.
     rmap (\<lambda>r. (r, db2)) (reserved_with True cost (dec_add total_before cost) None)))"

definition reserve_stage_cost ::
  "runtime_db \<Rightarrow> instant \<Rightarrow> string \<Rightarrow> runtime_stage \<Rightarrow> stage_snapshot \<Rightarrow> rat \<Rightarrow> rat \<Rightarrow> string \<Rightarrow> int \<Rightarrow> datetime \<Rightarrow>
   (runtime_error, stage_reservation \<times> runtime_db) result" where
  "reserve_stage_cost db now cycle_ref stage snapshot cost maximum owner token stamp =
     rbind (require_aware stamp) (\<lambda>t.
     rbind (require_active_lease db now owner token) (\<lambda>_.
     rbind (one_or RtKeyError (is_stage cycle_ref stage) (rt_stages db)) (\<lambda>row.
     rbind (one_or RtKeyError (is_cycle cycle_ref) (rt_cycles db)) (\<lambda>_.
     rbind (ensure (sg_status row = STAGE_RUNNING \<and> sg_attempt_count row = ss_attempt_count snapshot)
       AcquisitionRuntimeConflict) (\<lambda>_.
     let n = ss_attempt_count snapshot; total_before = spent_cost db cycle_ref;
         refused = rmap (\<lambda>r. (r, db)) (refused_with cost total_before)
     in case List.find (is_attempt cycle_ref stage n) (rt_attempts db) of
          Some a \<Rightarrow>
            if at_status a = STAGE_RUNNING \<and> at_reserved_cost a = 0 \<and> 0 < cost \<and> at_observed_cost a = 0 \<and>
               at_proposal a = None \<and> at_retry_at a = None \<and> at_completed_at a = None
            then if maximum < dec_add total_before cost then refused
                 else rbind (update_attempt cycle_ref stage n (\<lambda>r. at_status r = STAGE_RUNNING \<and> at_reserved_cost r = 0)
                        (\<lambda>r. r\<lparr> at_reserved_cost := cost_column cost \<rparr>) db)
                        (\<lambda>db1. book_reservation db1 cycle_ref stage cost total_before t)
            else rbind (ensure (at_status a = STAGE_RUNNING \<and> at_reserved_cost a = cost \<and> at_observed_cost a = 0 \<and>
                   at_retry_at a = None \<and> at_completed_at a = None) AcquisitionRuntimeConflict)
                   (\<lambda>_. rmap (\<lambda>r. (r, db)) (reserved_with False cost total_before (at_proposal a)))
        | None \<Rightarrow>
            if maximum < dec_add total_before cost then refused
            else rbind (insert_attempt \<lparr> at_cycle_ref = cycle_ref, at_stage = stage, at_attempt_count = n,
                   at_status = STAGE_RUNNING, at_reserved_cost = cost_column cost, at_observed_cost = 0,
                   at_proposal = None, at_retry_at = None, at_replay_same_attempt = False, at_completed_at = None \<rparr> db)
                   (\<lambda>(inserted, db1). if \<not> inserted then Inl AcquisitionRuntimeConflict
                     else book_reservation db1 cycle_ref stage cost total_before t))))))"

definition bind_stage_proposal ::
  "runtime_db \<Rightarrow> instant \<Rightarrow> string \<Rightarrow> runtime_stage \<Rightarrow> stage_snapshot \<Rightarrow> runtime_proposal \<Rightarrow> string \<Rightarrow> int \<Rightarrow> datetime \<Rightarrow>
   (runtime_error, runtime_proposal \<times> runtime_db) result" where
  "bind_stage_proposal db now cycle_ref stage snapshot proposal owner token stamp =
     rbind (require_aware stamp) (\<lambda>t.
     rbind (require_active_lease db now owner token) (\<lambda>_.
     rbind (one_or RtKeyError (is_stage cycle_ref stage) (rt_stages db)) (\<lambda>row.
     let n = ss_attempt_count snapshot in
     rbind (one_or RtNoResultFound (is_attempt cycle_ref stage n) (rt_attempts db)) (\<lambda>a.
     rbind (ensure (sg_status row = STAGE_RUNNING \<and> sg_attempt_count row = n \<and> at_status a = STAGE_RUNNING \<and>
       at_reserved_cost a = rp_estimated_cost proposal) AcquisitionRuntimeConflict) (\<lambda>_.
     case at_proposal a of
       Some stored \<Rightarrow> if stored \<noteq> proposal then Inl AcquisitionRuntimeConflict else Inr (stored, db)
     | None \<Rightarrow>
         rbind (update_attempt cycle_ref stage n (\<lambda>_. True) (\<lambda>r. r\<lparr> at_proposal := Some proposal \<rparr>) db) (\<lambda>db1.
         rmap (Pair proposal) (update_stage cycle_ref stage (\<lambda>s. s\<lparr> sg_plan_ref := Some (rp_plan_ref proposal),
           sg_command := Some (rp_command proposal), sg_argument_fingerprint := Some (rp_argument_fingerprint proposal),
           sg_updated_at := t \<rparr>) db1)))))))"

definition settle_attempt ::
  "runtime_db \<Rightarrow> string \<Rightarrow> runtime_stage \<Rightarrow> int \<Rightarrow> action_result \<Rightarrow> runtime_proposal option \<Rightarrow> instant \<Rightarrow>
   (runtime_error, rat \<times> runtime_db) result" where
  \<comment> \<open>the part of \<open>finish_stage\<close> that writes the attempt; returns its reserved cost\<close>
  "settle_attempt db cycle_ref stage n result proposal t =
     (case List.find (is_attempt cycle_ref stage n) (rt_attempts db) of
        None \<Rightarrow> rmap (\<lambda>(_, db1). (ar_reserved_cost result, db1))
          (insert_attempt \<lparr> at_cycle_ref = cycle_ref, at_stage = stage, at_attempt_count = n,
             at_status = ar_status result, at_reserved_cost = cost_column (ar_reserved_cost result),
             at_observed_cost = cost_column (ar_observed_cost result), at_proposal = proposal,
             at_retry_at = ar_retry_at result, at_replay_same_attempt = ar_replay_same_attempt result,
             at_completed_at = Some t \<rparr> db)
      | Some a \<Rightarrow>
          rbind (ensure (at_status a = STAGE_RUNNING \<and> (ar_reserved_cost result = 0 \<or> ar_reserved_cost result = at_reserved_cost a) \<and>
            (proposal = None \<or> at_proposal a = proposal)) AcquisitionRuntimeConflict) (\<lambda>_.
          rmap (Pair (at_reserved_cost a))
            (update_attempt cycle_ref stage n (\<lambda>r. at_status r = STAGE_RUNNING) (\<lambda>r. r\<lparr> at_status := ar_status result,
               at_observed_cost := cost_column (ar_observed_cost result), at_retry_at := ar_retry_at result,
               at_replay_same_attempt := ar_replay_same_attempt result, at_completed_at := Some t \<rparr>) db)))"

definition finish_stage ::
  "runtime_db \<Rightarrow> instant \<Rightarrow> string \<Rightarrow> runtime_stage \<Rightarrow> action_result \<Rightarrow> string \<Rightarrow> int \<Rightarrow> datetime \<Rightarrow> runtime_proposal option \<Rightarrow>
   (runtime_error, unit \<times> runtime_db) result" where
  "finish_stage db now cycle_ref stage result owner token stamp proposal =
     rbind (require_aware stamp) (\<lambda>t.
     rbind (require_active_lease db now owner token) (\<lambda>_.
     rbind (one_or RtKeyError (is_stage cycle_ref stage) (rt_stages db)) (\<lambda>row.
     rbind (ensure (sg_status row = STAGE_RUNNING) AcquisitionRuntimeConflict) (\<lambda>_.
     rbind (settle_attempt db cycle_ref stage (sg_attempt_count row) result proposal t) (\<lambda>(reserved, db1).
     rbind (update_stage cycle_ref stage (\<lambda>s. s\<lparr> sg_status := ar_status result,
       sg_plan_ref := (case proposal of None \<Rightarrow> sg_plan_ref row | Some p \<Rightarrow> Some (rp_plan_ref p)),
       sg_command := (case proposal of None \<Rightarrow> sg_command row | Some p \<Rightarrow> Some (rp_command p)),
       sg_argument_fingerprint := (case proposal of None \<Rightarrow> sg_argument_fingerprint row | Some p \<Rightarrow> Some (rp_argument_fingerprint p)),
       sg_result_refs := ar_result_refs result, sg_reserved_cost := cost_column reserved,
       sg_observed_cost := cost_column (ar_observed_cost result), sg_reason_codes := ar_reason_codes result,
       sg_retry_at := ar_retry_at result, sg_replay_same_attempt := ar_replay_same_attempt result,
       sg_completed_at := Some t, sg_updated_at := t \<rparr>) db1) (\<lambda>db2.
     rmap (Pair ()) (update_cycle cycle_ref (\<lambda>c. c\<lparr>
       cy_status := (if ar_status result = STAGE_SUCCEEDED then CYCLE_RUNNING else cycle_of_stage (ar_status result)),
       cy_next_stage := next_stage_after stage (ar_status result), cy_spent_cost := cost_column (spent_cost db2 cycle_ref),
       cy_last_reason_code := (case ar_reason_codes result of [] \<Rightarrow> None | r # _ \<Rightarrow> Some r),
       cy_completed_at := (if ar_status result = STAGE_SUPPRESSED then Some t else None), cy_updated_at := t \<rparr>) db2)))))))"

section \<open>Histories\<close>

datatype runtime_op =
    Acquire instant string datetime int
  | Heartbeat instant string int datetime int
  | Protect instant string int int "(runtime_error, unit) result"
  | Release string int datetime
  | ObserveRuntime instant string runtime_capability int datetime
  | ObserveCycle instant string string int datetime
  | Abandon string string datetime
  | Resume instant string int "string list" string datetime
  | FinishCycle instant string cycle_status string int datetime "string option"
  | BeginStage instant string runtime_stage string int datetime
  | ReserveCost instant string runtime_stage stage_snapshot rat rat string int datetime
  | BindProposal instant string runtime_stage stage_snapshot runtime_proposal string int datetime
  | FinishStage instant string runtime_stage action_result string int datetime "runtime_proposal option"

fun op_result :: "runtime_op \<Rightarrow> runtime_db \<Rightarrow> (runtime_error, runtime_db) result" where
  "op_result (Acquire now owner stamp secs) db = rmap snd (acquire_lease db now owner stamp secs)"
| "op_result (Heartbeat now owner token stamp secs) db = rmap snd (heartbeat_lease db now owner token stamp secs)"
| "op_result (Protect now owner token secs outcome) db = rmap snd (protect db now owner token secs (\<lambda>_. outcome))"
| "op_result (Release owner token stamp) db = rmap snd (release_lease db owner token stamp)"
| "op_result (ObserveRuntime now owner cap token stamp) db = rmap snd (record_runtime_observation db now owner cap token stamp)"
| "op_result (ObserveCycle now owner ref token stamp) db = rmap snd (record_cycle_observation db now owner ref token stamp)"
| "op_result (Abandon ref reason stamp) db = rmap snd (abandon_cycle db ref reason stamp)"
| "op_result (Resume now owner token keys fp stamp) db = rmap snd (resume_or_create_cycle db now owner token keys fp stamp)"
| "op_result (FinishCycle now ref status owner token stamp reason) db =
     rmap snd (finish_cycle db now ref status owner token stamp reason)"
| "op_result (BeginStage now ref stage owner token stamp) db = rmap snd (begin_stage db now ref stage owner token stamp)"
| "op_result (ReserveCost now ref stage snapshot cost maximum owner token stamp) db =
     rmap snd (reserve_stage_cost db now ref stage snapshot cost maximum owner token stamp)"
| "op_result (BindProposal now ref stage snapshot proposal owner token stamp) db =
     rmap snd (bind_stage_proposal db now ref stage snapshot proposal owner token stamp)"
| "op_result (FinishStage now ref stage result owner token stamp proposal) db =
     rmap snd (finish_stage db now ref stage result owner token stamp proposal)"

definition apply_runtime :: "runtime_op \<Rightarrow> runtime_db \<Rightarrow> runtime_db" where
  "apply_runtime p db = (case op_result p db of Inl _ \<Rightarrow> db | Inr db' \<Rightarrow> db')"

definition run_runtime :: "runtime_op list \<Rightarrow> runtime_db \<Rightarrow> runtime_db" where
  "run_runtime ops db = fold apply_runtime ops db"

fun fenced_by :: "runtime_op \<Rightarrow> int option" where
  \<comment> \<open>the token an operation must still hold; releasing with a lost token is a no-op, not an error\<close>
  "fenced_by (Heartbeat now owner token stamp secs) = Some token"
| "fenced_by (Protect now owner token secs outcome) = Some token"
| "fenced_by (ObserveRuntime now owner cap token stamp) = Some token"
| "fenced_by (ObserveCycle now owner ref token stamp) = Some token"
| "fenced_by (Resume now owner token keys fp stamp) = Some token"
| "fenced_by (FinishCycle now ref status owner token stamp reason) = Some token"
| "fenced_by (BeginStage now ref stage owner token stamp) = Some token"
| "fenced_by (ReserveCost now ref stage snapshot cost maximum owner token stamp) = Some token"
| "fenced_by (BindProposal now ref stage snapshot proposal owner token stamp) = Some token"
| "fenced_by (FinishStage now ref stage result owner token stamp proposal) = Some token"
| "fenced_by (Release owner token stamp) = None"
| "fenced_by (Acquire now owner stamp secs) = None"
| "fenced_by (Abandon ref reason stamp) = None"

end
