(* ===== verification/RuntimeActions.thy ===== *)
theory RuntimeActions
  imports RuntimeStore
begin

text \<open>
  What the runner of an acquisition cycle calls besides the store:
  \<open>acquisition_runtime/supervisor.py\<close> (one closed proposal per stage from Hermes),
  \<open>acquisition_runtime/registry.py\<close> (dispatch of a proposal to the handler of its stage) and
  \<open>acquisition_runtime/events.py\<close> (the operational events).

  The Hermes process is a parameter: its health and the plan it answers a context with. So are the
  handlers of the stages.
\<close>

section \<open>Exceptions\<close>

datatype run_exn =
    RunInterrupted \<comment> \<open>\<open>InterruptedError\<close>\<close>
  | RunExit \<comment> \<open>a \<open>BaseException\<close> that is no \<open>Exception\<close>\<close>
  | RunError runtime_error
  | SupervisorUnavailable
  | SupervisorVersionMismatch
  | SupervisorValidationError
  | RunOther \<comment> \<open>any other \<open>Exception\<close>\<close>

section \<open>The closed Hermes supervisor\<close>

fun KIVOU_STAGE_COSTS :: "runtime_stage \<Rightarrow> rat" where
  "KIVOU_STAGE_COSTS STAGE_SIGNAL_SEED = 0"
| "KIVOU_STAGE_COSTS STAGE_SUPPLIER_DISCOVERY = 2"
| "KIVOU_STAGE_COSTS STAGE_CONTACT_DISCOVERY = 6"
| "KIVOU_STAGE_COSTS STAGE_COMPANY_RESEARCH = 2"
| "KIVOU_STAGE_COSTS STAGE_DECISION = 0"
| "KIVOU_STAGE_COSTS STAGE_PERSONALIZATION = 0"
| "KIVOU_STAGE_COSTS STAGE_COMPLIANCE = 0"
| "KIVOU_STAGE_COSTS STAGE_CAMPAIGN = 0"
| "KIVOU_STAGE_COSTS STAGE_PROVIDER_HANDOFF = 0"
| "KIVOU_STAGE_COSTS STAGE_RESPONSE = 0"
| "KIVOU_STAGE_COSTS STAGE_ATTRIBUTION_CONVERSION = 0"

record supervisor_health =
  sh_available :: bool \<comment> \<open>the state is \<open>AVAILABLE\<close>\<close>
  sh_hermes_version :: "string option"
  sh_source_commit :: "string option"
  sh_executable_tools :: "string list"

record proposed_action =
  pa_command :: string
  pa_target_ref :: string
  pa_estimated_cost :: rat

record supervisor_plan = \<comment> \<open>the fields the runtime reads\<close>
  sp_plan_id :: string
  sp_proposed_actions :: "proposed_action list"
  sp_estimated_cost :: rat
  sp_supervisor_version :: string
  sp_skill_version :: string

record supervisor_context = \<comment> \<open>the fields that are not constants\<close>
  sc_current_time :: datetime
  sc_maximum_cycle_cost :: rat
  sc_available_commands :: "string list"
  sc_object_ref :: string
  sc_evidence_refs :: "string list"

record hermes_session = \<comment> \<open>the supervisor the adapter wraps\<close>
  hs_health :: "(run_exn, supervisor_health) result"
  hs_plan :: "supervisor_context \<Rightarrow> (run_exn, supervisor_plan) result"

record hermes_pin =
  hp_version :: string
  hp_commit :: string

definition PROFILE_VERSION :: string where "PROFILE_VERSION = ''1.0.0''"

definition require_closed_hermes :: "hermes_pin \<Rightarrow> hermes_session \<Rightarrow> (run_exn, unit) result" where
  "require_closed_hermes pin hermes =
     rbind (hs_health hermes) (\<lambda>health.
     rbind (ensure (sh_available health) SupervisorUnavailable) (\<lambda>_.
     rbind (ensure (sh_hermes_version health = Some (hp_version pin) \<and> sh_source_commit health = Some (hp_commit pin))
       SupervisorVersionMismatch) (\<lambda>_.
     ensure (sh_executable_tools health = []) SupervisorVersionMismatch)))"

definition validate_plan ::
  "hermes_pin \<Rightarrow> supervisor_plan \<Rightarrow> runtime_stage \<Rightarrow> string \<Rightarrow> rat \<Rightarrow> (run_exn, proposed_action) result" where
  "validate_plan pin plan stage cycle_ref maximum_model_cost =
     rbind (ensure (sp_supervisor_version plan = ''hermes-agent-'' @ hp_version pin) SupervisorVersionMismatch) (\<lambda>_.
     rbind (ensure (sp_skill_version plan = PROFILE_VERSION) SupervisorVersionMismatch) (\<lambda>_.
     case sp_proposed_actions plan of
       [action] \<Rightarrow>
         rbind (ensure (pa_command action = stage_command stage) SupervisorValidationError) (\<lambda>_.
         rbind (ensure (pa_target_ref action = cycle_ref) SupervisorValidationError) (\<lambda>_.
         rbind (ensure (sp_estimated_cost plan = pa_estimated_cost action) SupervisorValidationError) (\<lambda>_.
         rbind (ensure (\<not> (maximum_model_cost < sp_estimated_cost plan \<or> maximum_model_cost < pa_estimated_cost action))
           SupervisorValidationError) (\<lambda>_. Inr action))))
     | _ \<Rightarrow> Inl SupervisorValidationError))"

definition argument_fingerprint :: "string \<Rightarrow> runtime_stage \<Rightarrow> cycle_snapshot \<Rightarrow> string" where
  "argument_fingerprint registry_identity stage cycle = sha256_hex (dumps (JObj [
     (''cycle_ref'', JStr (cs_cycle_ref cycle)), (''kind'', JStr ''acquisition-runtime-hermes-action-v1''),
     (''opportunity_key'', JStr (cs_opportunity_key cycle)), (''registry_identity'', JStr registry_identity),
     (''stage'', JStr (stage_value stage)), (''command'', JStr (stage_command stage))]))"

definition RuntimeProposal :: "runtime_proposal \<Rightarrow> (run_exn, runtime_proposal) result" where
  \<comment> \<open>the model strips its text\<close>
  "RuntimeProposal raw = (let p = raw\<lparr> rp_plan_ref := py_strip (rp_plan_ref raw), rp_command := py_strip (rp_command raw),
       rp_target_ref := py_strip (rp_target_ref raw), rp_argument_fingerprint := py_strip (rp_argument_fingerprint raw),
       rp_reason_codes := map py_strip (rp_reason_codes raw), rp_evidence_refs := map py_strip (rp_evidence_refs raw) \<rparr>
     in if wf_proposal p then Inr p else Inl (RunError RtValueError))"

definition propose ::
  "hermes_pin \<Rightarrow> string \<Rightarrow> hermes_session \<Rightarrow> runtime_stage \<Rightarrow> cycle_snapshot \<Rightarrow> rat \<Rightarrow> datetime \<Rightarrow>
   (run_exn, runtime_proposal) result" where
  "propose pin registry_identity hermes stage cycle remaining_cost stamp =
     rbind (ensure (is_aware stamp) (RunError RtValueError)) (\<lambda>_.
     rbind (ensure (1 \<le> length (cs_cycle_ref cycle) \<and> length (cs_cycle_ref cycle) \<le> 100) SupervisorValidationError) (\<lambda>_.
     rbind (ensure (cs_next_stage cycle = Some stage) SupervisorValidationError) (\<lambda>_.
     rbind (ensure (0 \<le> remaining_cost) SupervisorValidationError) (\<lambda>_.
     rbind (require_closed_hermes pin hermes) (\<lambda>_.
     let fingerprint = argument_fingerprint registry_identity stage cycle; stage_cost = KIVOU_STAGE_COSTS stage;
         context = \<lparr> sc_current_time = to_utc stamp, sc_maximum_cycle_cost = min stage_cost remaining_cost,
           sc_available_commands = [stage_command stage], sc_object_ref = cs_cycle_ref cycle,
           sc_evidence_refs = [fingerprint] \<rparr>
     in rbind (hs_plan hermes context) (\<lambda>plan.
        rbind (validate_plan pin plan stage (cs_cycle_ref cycle) (min stage_cost remaining_cost)) (\<lambda>action.
        RuntimeProposal \<lparr> rp_plan_ref = sp_plan_id plan, rp_action_index = 0, rp_command = pa_command action,
          rp_target_ref = cs_cycle_ref cycle, rp_argument_fingerprint = fingerprint, rp_estimated_cost = stage_cost,
          rp_reason_codes = [''HERMES_CLOSED_PROPOSAL''], rp_evidence_refs = [fingerprint] \<rparr>)))))))"

section \<open>The action registry\<close>

record action_context =
  ac_stage :: runtime_stage
  ac_proposal :: runtime_proposal
  ac_cycle :: cycle_snapshot
  ac_stage_snapshot :: stage_snapshot
  ac_allow_qa_provider_mutations :: bool
  ac_at :: datetime

datatype registry_step = Refused action_result | Dispatch action_context | BadStamp

definition registry_execute ::
  "runtime_stage \<Rightarrow> runtime_proposal \<Rightarrow> cycle_snapshot \<Rightarrow> stage_snapshot \<Rightarrow> bool \<Rightarrow> bool \<Rightarrow> datetime \<Rightarrow> registry_step" where
  \<comment> \<open>\<open>AcquisitionActionRegistry.execute\<close> up to the call of the handler; \<open>guarded\<close>: a guard is given\<close>
  "registry_execute stage proposal cycle snapshot allow guarded stamp =
     (if \<not> is_aware stamp then BadStamp
      else if rp_command proposal \<noteq> stage_command stage then Refused (stopped_with STAGE_BLOCKED ''REGISTRY_COMMAND_MISMATCH'')
      else if rp_target_ref proposal \<noteq> cs_cycle_ref cycle then Refused (stopped_with STAGE_BLOCKED ''REGISTRY_TARGET_MISMATCH'')
      else if stage = STAGE_PROVIDER_HANDOFF \<and> \<not> allow
      then Refused (stopped_with STAGE_WAITING ''QA_PROVIDER_MUTATION_NOT_AUTHORIZED'')
      else if \<not> guarded then Refused (stopped_with STAGE_BLOCKED ''RUNTIME_FENCE_MISSING'')
      else Dispatch \<lparr> ac_stage = stage, ac_proposal = proposal, ac_cycle = cycle, ac_stage_snapshot = snapshot,
        ac_allow_qa_provider_mutations = allow, ac_at = to_utc stamp \<rparr>)"

definition registry_identity :: string where
  "registry_identity = sha256_hex (dumps (JList (map (\<lambda>s. JObj [(''stage'', JStr (stage_value s)),
     (''command'', JStr (stage_command s))]) STAGES)))"

section \<open>Operational events\<close>

definition event_actions :: "string list" where
  "event_actions = [''lease'', ''cycle'', ''stage'', ''health'', ''runtime'']"

definition event_statuses :: "string list" where
  "event_statuses = [''started'', ''already_running'', ''succeeded'', ''waiting'', ''blocked'', ''failed'',
     ''suppressed'', ''cancelled'', ''released'', ''ready'', ''not_ready'']"

definition event_code :: "string \<Rightarrow> bool" where
  \<comment> \<open>\<open>^[A-Z][A-Z0-9_]{0,99}$\<close>\<close>
  "event_code s \<longleftrightarrow> s \<noteq> [] \<and> length s \<le> 100 \<and> is_upper (hd s) \<and>
     list_all (\<lambda>c. is_upper c \<or> is_digit c \<or> c = CHR ''_'') (tl s)"

definition event_payload :: "string \<Rightarrow> string \<Rightarrow> string \<Rightarrow> int \<Rightarrow> string option \<Rightarrow> string option \<Rightarrow> payload" where
  \<comment> \<open>the payload \<open>emit_acquisition_runtime_event\<close> logs\<close>
  "event_payload action status code attempt cycle_ref stage =
     [(''event'', JStr ''acquisition_runtime''),
      (''action'', JStr (if action \<in> set event_actions then action else ''runtime'')),
      (''status'', JStr (if status \<in> set event_statuses then status else ''failed'')),
      (''code'', JStr (if event_code code then code else ''INVALID_RUNTIME_VALUE'')),
      (''attempt'', JInt (max 0 attempt))] @
     (case cycle_ref of None \<Rightarrow> [] | Some r \<Rightarrow> [(''cycle_ref'', JStr (if is_fingerprint r then r else ''invalid_ref''))]) @
     (case stage of None \<Rightarrow> [] | Some s \<Rightarrow>
        [(''stage'', JStr (if s \<in> set (map stage_value STAGES) then s else ''INVALID_STAGE''))])"

definition required_keys :: "string list" where
  "required_keys = [''event'', ''action'', ''status'', ''code'', ''attempt'']"

fun json_str :: "(string \<Rightarrow> bool) \<Rightarrow> json \<Rightarrow> bool" where
  "json_str p (JStr s) = p s"
| "json_str p _ = False"

definition valid_event :: "payload \<Rightarrow> bool" where
  "valid_event v \<longleftrightarrow> list_all (phas v) required_keys \<and>
     list_all (\<lambda>k. k \<in> set required_keys \<or> k \<in> {''cycle_ref'', ''stage''}) (map fst v) \<and>
     pget v ''event'' = JStr ''acquisition_runtime'' \<and>
     json_str (\<lambda>s. s \<in> set event_actions) (pget v ''action'') \<and>
     json_str (\<lambda>s. s \<in> set event_statuses) (pget v ''status'') \<and>
     json_str event_code (pget v ''code'') \<and>
     (case pget v ''attempt'' of JInt n \<Rightarrow> 0 \<le> n | _ \<Rightarrow> False) \<and>
     (pget v ''cycle_ref'' = JNull \<or> json_str (\<lambda>s. s = ''invalid_ref'' \<or> is_fingerprint s) (pget v ''cycle_ref'')) \<and>
     (pget v ''stage'' = JNull \<or> json_str (\<lambda>s. s = ''INVALID_STAGE'' \<or> s \<in> set (map stage_value STAGES)) (pget v ''stage''))"

definition validated_payload :: "json \<Rightarrow> payload" where
  "validated_payload v =
     (case v of
        JObj p \<Rightarrow> if valid_event p then p else event_payload ''runtime'' ''failed'' ''INVALID_RUNTIME_EVENT'' 0 None None
      | _ \<Rightarrow> event_payload ''runtime'' ''failed'' ''INVALID_RUNTIME_EVENT'' 0 None None)"

definition format_event :: "json \<Rightarrow> string" where
  \<comment> \<open>\<open>_ClosedJsonFormatter.format\<close>\<close>
  "format_event v = dumps (JObj (validated_payload v))"

section \<open>Facts\<close>

lemma registry_refuses:
  assumes "registry_execute stage proposal cycle snapshot allow guarded stamp = Dispatch ctx"
  shows "rp_command proposal = stage_command stage \<and> rp_target_ref proposal = cs_cycle_ref cycle \<and>
    (stage = STAGE_PROVIDER_HANDOFF \<longrightarrow> allow) \<and> guarded \<and> ac_stage ctx = stage \<and> ac_proposal ctx = proposal \<and>
    ac_cycle ctx = cycle \<and> ac_stage_snapshot ctx = snapshot \<and> ac_allow_qa_provider_mutations ctx = allow"
  using assms by (auto simp: registry_execute_def split: if_split_asm)

lemma stage_value_inj: "stage_value s = stage_value t \<longleftrightarrow> s = t"
  by (cases s; cases t) simp_all

lemma stage_command_inj: "stage_command s = stage_command t \<longleftrightarrow> s = t"
  by (cases s; cases t) simp_all

lemma event_code_constants:
  "event_code ''INVALID_RUNTIME_VALUE''" "event_code ''INVALID_RUNTIME_EVENT''"
  by code_simp+

lemma valid_event_payload: "valid_event (event_payload action status code attempt cycle_ref stage)"
  by (cases cycle_ref; cases stage)
     (simp_all add: valid_event_def event_payload_def required_keys_def phas_def pget_def event_actions_def event_statuses_def
       event_code_constants)

text \<open>
  Closed events. Whatever values the runtime passes to the event sink, the payload it logs is one
  the formatter accepts as it is, so every line of the log is the JSON of exactly that payload: a
  listed action and status, a machine code, a non-negative attempt, and at most a fingerprint and a
  listed stage besides. Anything else that reaches the formatter is replaced by one fixed event.
\<close>

theorem events_closed:
  "validated_payload (JObj (event_payload action status code attempt cycle_ref stage)) =
     event_payload action status code attempt cycle_ref stage \<and>
   valid_event (validated_payload v) \<and>
   format_event (JObj (event_payload action status code attempt cycle_ref stage)) =
     dumps (JObj (event_payload action status code attempt cycle_ref stage))"
  by (auto simp: validated_payload_def format_event_def valid_event_payload split: json.split)

lemma py_strip_stage_command [simp]: "py_strip (stage_command s) = stage_command s"
  by (cases s) (simp_all add: py_strip_no_space is_space_def)

lemma fingerprint_opaque: "is_fingerprint s \<Longrightarrow> opaque_ref s"
  by (cases s) (auto simp: is_fingerprint_def opaque_ref_def list_all_iff is_lower_hex_def is_alnum_def is_lower_def Let_def)

lemma validate_plan_Inr:
  "validate_plan pin plan stage ref maximum = Inr action \<Longrightarrow> sp_proposed_actions plan = [action] \<and>
     pa_command action = stage_command stage \<and> pa_target_ref action = ref \<and> pa_estimated_cost action \<le> maximum"
  by (cases "sp_proposed_actions plan"; cases "tl (sp_proposed_actions plan)") (auto simp: validate_plan_def not_less)

text \<open>
  Closed proposals. A proposal the supervisor returns asks for the command of exactly the stage
  it was asked for, targets the cycle (its reference stripped of white space), reserves the fixed cost of the stage,
  and is well-formed; and it is returned only when Hermes is available at the pinned version and
  commit, exposes no executable tool, and answered with a single action within the remaining budget.
\<close>

theorem proposal_closed:
  assumes "propose pin identity hermes stage cycle remaining stamp = Inr p"
  shows "rp_command p = stage_command stage \<and> rp_target_ref p = py_strip (cs_cycle_ref cycle) \<and>
    rp_estimated_cost p = KIVOU_STAGE_COSTS stage \<and> wf_proposal p \<and> cs_next_stage cycle = Some stage \<and>
    (\<exists>health. hs_health hermes = Inr health \<and> sh_available health \<and> sh_executable_tools health = [] \<and>
       sh_hermes_version health = Some (hp_version pin) \<and> sh_source_commit health = Some (hp_commit pin)) \<and>
    (\<exists>context plan action. hs_plan hermes context = Inr plan \<and> sp_proposed_actions plan = [action] \<and>
       sc_available_commands context = [stage_command stage] \<and> pa_estimated_cost action \<le> min (KIVOU_STAGE_COSTS stage) remaining)"
proof -
  let ?ctx = "\<lparr> sc_current_time = to_utc stamp, sc_maximum_cycle_cost = min (KIVOU_STAGE_COSTS stage) remaining,
    sc_available_commands = [stage_command stage], sc_object_ref = cs_cycle_ref cycle,
    sc_evidence_refs = [argument_fingerprint identity stage cycle] \<rparr>"
  obtain plan action where plan: "require_closed_hermes pin hermes = Inr ()" "hs_plan hermes ?ctx = Inr plan"
      "validate_plan pin plan stage (cs_cycle_ref cycle) (min (KIVOU_STAGE_COSTS stage) remaining) = Inr action"
    and p: "RuntimeProposal \<lparr> rp_plan_ref = sp_plan_id plan, rp_action_index = 0, rp_command = pa_command action,
      rp_target_ref = cs_cycle_ref cycle, rp_argument_fingerprint = argument_fingerprint identity stage cycle,
      rp_estimated_cost = KIVOU_STAGE_COSTS stage, rp_reason_codes = [''HERMES_CLOSED_PROPOSAL''],
      rp_evidence_refs = [argument_fingerprint identity stage cycle] \<rparr> = Inr p" "cs_next_stage cycle = Some stage"
    using assms by (auto simp: propose_def Let_def)
  have "pa_command action = stage_command stage" "sp_proposed_actions plan = [action]"
      "pa_estimated_cost action \<le> min (KIVOU_STAGE_COSTS stage) remaining"
    using validate_plan_Inr [OF plan(3)] by auto
  with p plan(2) have "rp_command p = stage_command stage \<and> rp_target_ref p = py_strip (cs_cycle_ref cycle) \<and>
      rp_estimated_cost p = KIVOU_STAGE_COSTS stage \<and> wf_proposal p \<and>
      (\<exists>context plan action. hs_plan hermes context = Inr plan \<and> sp_proposed_actions plan = [action] \<and>
       sc_available_commands context = [stage_command stage] \<and> pa_estimated_cost action \<le> min (KIVOU_STAGE_COSTS stage) remaining)"
    by (fastforce simp: RuntimeProposal_def Let_def split: if_split_asm)
  moreover have "\<exists>health. hs_health hermes = Inr health \<and> sh_available health \<and> sh_executable_tools health = [] \<and>
       sh_hermes_version health = Some (hp_version pin) \<and> sh_source_commit health = Some (hp_commit pin)"
    using plan(1) by (auto simp: require_closed_hermes_def)
  ultimately show ?thesis using p(2) by blast
qed

definition sample_session :: hermes_session where
  "sample_session = \<lparr> hs_health = Inr \<lparr> sh_available = True, sh_hermes_version = Some ''0.1'', sh_source_commit = Some ''c'',
       sh_executable_tools = [] \<rparr>,
     hs_plan = (\<lambda>ctx. Inr \<lparr> sp_plan_id = ''plan-1'', sp_proposed_actions = [\<lparr> pa_command = ''discover_suppliers'',
       pa_target_ref = sc_object_ref ctx, pa_estimated_cost = 1 \<rparr>], sp_estimated_cost = 1,
       sp_supervisor_version = ''hermes-agent-0.1'', sp_skill_version = ''1.0.0'' \<rparr>) \<rparr>"

definition sample_open_cycle :: cycle_snapshot where
  "sample_open_cycle = \<lparr> cs_cycle_ref = ''c1'', cs_opportunity_key = ''tender:1'', cs_status = CYCLE_RUNNING,
     cs_next_stage = Some STAGE_SUPPLIER_DISCOVERY, cs_spent_cost = 0, cs_started_at = 0 \<rparr>"

definition sample_day :: datetime where
  "sample_day = \<lparr> dt_date = mk_date 2026 1 5, dt_hour = 9, dt_minute = 0, dt_second = 0, dt_micro = 0, dt_offset = Some 0 \<rparr>"

lemma sample_proposed:
  "\<exists>p. propose \<lparr> hp_version = ''0.1'', hp_commit = ''c'' \<rparr> ''id'' sample_session STAGE_SUPPLIER_DISCOVERY sample_open_cycle 10 sample_day = Inr p"
proof -
  have texts: "py_strip ''plan-1'' = ''plan-1''" "py_strip ''discover_suppliers'' = ''discover_suppliers''" "py_strip ''c1'' = ''c1''"
    "py_strip ''HERMES_CLOSED_PROPOSAL'' = ''HERMES_CLOSED_PROPOSAL''" "opaque_ref ''plan-1''" "opaque_ref ''c1''"
    "runtime_command_name ''discover_suppliers''" "machine_code ''HERMES_CLOSED_PROPOSAL''" "is_aware sample_day"
    by code_simp+
  have "opaque_ref (sha256_hex x)" for x
    using is_fingerprint_sha256 [of x] by (rule fingerprint_opaque)
  then show ?thesis
    by (simp add: propose_def require_closed_hermes_def validate_plan_def RuntimeProposal_def Let_def sample_session_def
        sample_open_cycle_def PROFILE_VERSION_def argument_fingerprint_def is_fingerprint_strip wf_proposal_def cost_in_range_def texts)
qed

theorem proposal_closed_witness:
  "\<exists>p. propose \<lparr> hp_version = ''0.1'', hp_commit = ''c'' \<rparr> ''id'' sample_session STAGE_SUPPLIER_DISCOVERY sample_open_cycle 10 sample_day = Inr p \<and>
     rp_command p = ''discover_suppliers'' \<and> rp_estimated_cost p = 2"
proof -
  obtain p where p: "propose \<lparr> hp_version = ''0.1'', hp_commit = ''c'' \<rparr> ''id'' sample_session STAGE_SUPPLIER_DISCOVERY sample_open_cycle 10 sample_day = Inr p"
    using sample_proposed by blast
  then show ?thesis using proposal_closed [OF p] by auto
qed

end
