(* ===== verification/RuntimeRunner.thy ===== *)
theory RuntimeRunner
  imports RuntimeActions
begin

text \<open>
  \<open>acquisition_runtime/runner.py\<close>: one bounded run over a cycle, \<open>AcquisitionRuntimeRunner.run_once\<close>.

  A run is a computation on a world: the tables, the events it logged, the handlers it called, and
  the local variables of \<open>run_once\<close> that its \<open>except\<close> and \<open>finally\<close> clauses read. It returns a value or
  raises. The environment is a parameter, indexed by a step counter that every clock reading,
  transaction, plan and handler call advances: the process clock, the clock of the database, what other
  processes do before a transaction, the transactions that raise (applied or not: a lost connection,
  an interrupt), the answers of Hermes and of the handlers.
\<close>

section \<open>The world of a run\<close>

record runner =
  ru_allowed_opportunity_keys :: "string list"
  ru_config_fingerprint :: string
  ru_maximum_cost :: rat
  ru_maximum_wall :: int \<comment> \<open>seconds\<close>
  ru_lease_seconds :: int
  ru_capability :: runtime_capability
  ru_pin :: hermes_pin

record run_request =
  rq_owner_ref :: string
  rq_allow_qa_provider_mutations :: bool

record handler_answer =
  ha_protected :: "instant list" \<comment> \<open>the side effects it made under the guard, by the clock of the database\<close>
  ha_result :: "(run_exn, action_result) result"

record runner_env =
  en_clock :: "nat \<Rightarrow> datetime"
  en_db_now :: "nat \<Rightarrow> instant"
  en_others :: "nat \<Rightarrow> runtime_op list"
  en_fault :: "nat \<Rightarrow> (run_exn \<times> bool) option" \<comment> \<open>the call raises, after it was applied or not\<close>
  en_hermes :: "nat \<Rightarrow> hermes_session"
  en_handler :: "nat \<Rightarrow> action_context \<Rightarrow> handler_answer"

record run_world =
  wo_db :: runtime_db
  wo_tick :: nat
  wo_events :: "payload list"
  wo_handled :: "action_context list"
  wo_now :: datetime
  wo_token :: "int option"
  wo_cycle :: "cycle_snapshot option"
  wo_stage :: "runtime_stage option"
  wo_attempt :: int

type_synonym 'a run = "run_world \<Rightarrow> (run_exn, 'a) result \<times> run_world"

definition yield :: "'a \<Rightarrow> 'a run" where "yield x w = (Inr x, w)"

definition throw :: "run_exn \<Rightarrow> 'a run" where "throw e w = (Inl e, w)"

definition bind :: "'a run \<Rightarrow> ('a \<Rightarrow> 'b run) \<Rightarrow> 'b run" where
  "bind m k w = (case m w of (Inl e, w') \<Rightarrow> (Inl e, w') | (Inr x, w') \<Rightarrow> k x w')"

definition set_local :: "(run_world \<Rightarrow> run_world) \<Rightarrow> unit run" where "set_local f w = (Inr (), f w)"

definition tick :: "run_world \<Rightarrow> run_world" where "tick w = w\<lparr> wo_tick := wo_tick w + 1 \<rparr>"

definition lift :: "(run_exn, 'a) result \<Rightarrow> 'a run" where "lift r w = (r, w)"

definition read_now :: "runner_env \<Rightarrow> datetime run" where
  \<comment> \<open>\<open>_now\<close>\<close>
  "read_now env w = (let d = en_clock env (wo_tick w) in
     (if is_aware d then Inr (to_utc d) else Inl (RunError RtValueError), tick w))"

definition transaction ::
  "runner_env \<Rightarrow> (runtime_db \<Rightarrow> instant \<Rightarrow> (runtime_error, 'a \<times> runtime_db) result) \<Rightarrow> 'a run" where
  "transaction env f w =
     (let n = wo_tick w; db = run_runtime (en_others env n) (wo_db w); w1 = (tick w)\<lparr> wo_db := db \<rparr>; r = f db (en_db_now env n)
      in case en_fault env n of
           Some (e, applied) \<Rightarrow> (Inl e, case r of Inl _ \<Rightarrow> w1 | Inr (_, db') \<Rightarrow> if applied then w1\<lparr> wo_db := db' \<rparr> else w1)
         | None \<Rightarrow> (case r of Inl e \<Rightarrow> (Inl (RunError e), w1) | Inr (x, db') \<Rightarrow> (Inr x, w1\<lparr> wo_db := db' \<rparr>)))"

definition ask_hermes :: "runner_env \<Rightarrow> (hermes_session \<Rightarrow> (run_exn, 'a) result) \<Rightarrow> 'a run" where
  "ask_hermes env f w = (f (en_hermes env (wo_tick w)), tick w)"

definition call_handler :: "runner_env \<Rightarrow> string \<Rightarrow> int \<Rightarrow> int \<Rightarrow> action_context \<Rightarrow> action_result run" where
  \<comment> \<open>the handler of a stage; its side effects go through the execution guard\<close>
  "call_handler env owner token lease_seconds ctx w =
     (let n = wo_tick w; answer = en_handler env n ctx;
          db = run_runtime (en_others env n @ map (\<lambda>now. Protect now owner token lease_seconds (Inr ())) (ha_protected answer)) (wo_db w)
      in (ha_result answer, (tick w)\<lparr> wo_db := db, wo_handled := wo_handled w @ [ctx] \<rparr>))"

definition event :: "string \<Rightarrow> string \<Rightarrow> string \<Rightarrow> int \<Rightarrow> string option \<Rightarrow> string option \<Rightarrow> unit run" where
  "event action status code attempt cycle_ref stage w =
     (Inr (), w\<lparr> wo_events := wo_events w @ [event_payload action status code attempt cycle_ref stage] \<rparr>)"

section \<open>Results and events\<close>

definition RuntimeRunResult ::
  "run_status \<Rightarrow> string option \<Rightarrow> runtime_stage option \<Rightarrow> string option \<Rightarrow> (run_exn, run_result) result" where
  "RuntimeRunResult status cycle_ref stage reason_code =
     (let ref = map_option py_strip cycle_ref; reason = map_option py_strip reason_code in
      if (case ref of None \<Rightarrow> True | Some r \<Rightarrow> opaque_ref r) \<and> (case reason of None \<Rightarrow> True | Some c \<Rightarrow> machine_code c)
      then Inr \<lparr> rr_status = status, rr_cycle_ref = ref, rr_stage = stage, rr_reason_code = reason \<rparr>
      else Inl (RunError RtValueError))"

fun run_status_word :: "run_status \<Rightarrow> string" where
  \<comment> \<open>the normalized word of \<open>_emit_cycle\<close>\<close>
  "run_status_word RUN_ALREADY_RUNNING = ''already_running''"
| "run_status_word RUN_COMPLETED = ''succeeded''"
| "run_status_word RUN_WAITING = ''waiting''"
| "run_status_word RUN_BLOCKED = ''blocked''"
| "run_status_word RUN_FAILED = ''failed''"
| "run_status_word RUN_SUPPRESSED = ''suppressed''"
| "run_status_word RUN_CANCELLED = ''cancelled''"

fun stage_status_word :: "stage_status \<Rightarrow> string" where
  \<comment> \<open>\<open>status.value.casefold()\<close>\<close>
  "stage_status_word STAGE_PENDING = ''pending''"
| "stage_status_word STAGE_RUNNING = ''running''"
| "stage_status_word STAGE_WAITING = ''waiting''"
| "stage_status_word STAGE_SUCCEEDED = ''succeeded''"
| "stage_status_word STAGE_BLOCKED = ''blocked''"
| "stage_status_word STAGE_FAILED = ''failed''"
| "stage_status_word STAGE_SUPPRESSED = ''suppressed''"
| "stage_status_word STAGE_CANCELLED = ''cancelled''"

definition emit_stage :: "string \<Rightarrow> runtime_stage \<Rightarrow> int \<Rightarrow> action_result \<Rightarrow> unit run" where
  "emit_stage cycle_ref stage attempt result = event ''stage'' (stage_status_word (ar_status result))
     (case ar_reason_codes result of [] \<Rightarrow> ''STAGE_SUCCEEDED'' | c # _ \<Rightarrow> c) attempt (Some cycle_ref) (Some (stage_value stage))"

definition emit_cycle :: "string \<Rightarrow> run_status \<Rightarrow> string \<Rightarrow> unit run" where
  "emit_cycle cycle_ref status code = event ''cycle'' (run_status_word status) code 0 (Some cycle_ref) None"

section \<open>Store calls\<close>

definition observe_cycle :: "runner_env \<Rightarrow> string \<Rightarrow> int \<Rightarrow> string \<Rightarrow> datetime \<Rightarrow> health_observation run" where
  "observe_cycle env owner token ref stamp =
     transaction env (\<lambda>db now. record_cycle_observation db now owner ref token stamp)"

definition close_cycle ::
  "runner_env \<Rightarrow> string \<Rightarrow> int \<Rightarrow> string \<Rightarrow> cycle_status \<Rightarrow> string option \<Rightarrow> datetime \<Rightarrow> unit run" where
  \<comment> \<open>\<open>finish_cycle\<close> and then \<open>record_cycle_observation\<close>\<close>
  "close_cycle env owner token ref status reason stamp =
     bind (transaction env (\<lambda>db now. finish_cycle db now ref status owner token stamp reason)) (\<lambda>_.
     bind (observe_cycle env owner token ref stamp) (\<lambda>_. yield ()))"

definition complete_cycle :: "runner_env \<Rightarrow> string \<Rightarrow> int \<Rightarrow> string \<Rightarrow> datetime \<Rightarrow> run_result run" where
  "complete_cycle env owner token ref stamp =
     bind (close_cycle env owner token ref CYCLE_SUCCEEDED None stamp) (\<lambda>_.
     bind (emit_cycle ref RUN_COMPLETED ''CYCLE_SUCCEEDED'') (\<lambda>_.
     lift (RuntimeRunResult RUN_COMPLETED (Some ref) None None)))"

section \<open>One stage\<close>

definition result_with :: "action_result \<Rightarrow> rat \<Rightarrow> action_result" where
  "result_with result reserved = result\<lparr> ar_reserved_cost := reserved \<rparr>"

definition overrun_result :: "action_result \<Rightarrow> rat \<Rightarrow> action_result" where
  \<comment> \<open>\<open>model_copy\<close> of a result whose observed cost exceeds the remaining budget; the retry fields are kept\<close>
  "overrun_result result reserved = result\<lparr> ar_status := STAGE_FAILED, ar_reserved_cost := reserved,
     ar_reason_codes := [''OBSERVED_CYCLE_COST_EXCEEDED''] \<rparr>"

definition dispatch ::
  "runner_env \<Rightarrow> runner \<Rightarrow> run_request \<Rightarrow> int \<Rightarrow> runtime_stage \<Rightarrow> runtime_proposal \<Rightarrow> cycle_snapshot \<Rightarrow> stage_snapshot \<Rightarrow>
   datetime \<Rightarrow> action_result run" where
  \<comment> \<open>\<open>registry.execute\<close>\<close>
  "dispatch env ru rq token stage proposal cycle snapshot stamp =
     (case registry_execute stage proposal cycle snapshot (rq_allow_qa_provider_mutations rq) True stamp of
        BadStamp \<Rightarrow> throw (RunError RtValueError)
      | Refused r \<Rightarrow> yield r
      | Dispatch ctx \<Rightarrow> call_handler env (rq_owner_ref rq) token (ru_lease_seconds ru) ctx)"

definition bound_proposal ::
  "runner_env \<Rightarrow> runner \<Rightarrow> run_request \<Rightarrow> int \<Rightarrow> runtime_stage \<Rightarrow> cycle_snapshot \<Rightarrow> stage_snapshot \<Rightarrow> stage_reservation \<Rightarrow>
   rat \<Rightarrow> datetime \<Rightarrow> runtime_proposal run" where
  "bound_proposal env ru rq token stage cycle snapshot reservation remaining stamp =
     (case sr_proposal reservation of
        Some p \<Rightarrow> yield p
      | None \<Rightarrow>
          bind (ask_hermes env (\<lambda>hermes. propose (ru_pin ru) registry_identity hermes stage
            (cycle\<lparr> cs_spent_cost := sr_total_cycle_cost reservation \<rparr>) remaining stamp)) (\<lambda>p.
          transaction env (\<lambda>db now. bind_stage_proposal db now (cs_cycle_ref cycle) stage snapshot p (rq_owner_ref rq) token stamp)))"

definition execute_stage ::
  "runner_env \<Rightarrow> runner \<Rightarrow> run_request \<Rightarrow> int \<Rightarrow> runtime_stage \<Rightarrow> cycle_snapshot \<Rightarrow> stage_snapshot \<Rightarrow> datetime \<Rightarrow>
   (runtime_proposal option \<times> action_result \<times> rat) run" where
  "execute_stage env ru rq token stage cycle snapshot stamp =
     (let envelope = KIVOU_STAGE_COSTS stage in
      bind (transaction env (\<lambda>db now. reserve_stage_cost db now (cs_cycle_ref cycle) stage snapshot envelope
        (ru_maximum_cost ru) (rq_owner_ref rq) token stamp)) (\<lambda>reservation.
      let spent = sr_total_cycle_cost reservation;
          remaining = dec_add (dec_sub (ru_maximum_cost ru) spent) (sr_reserved_cost reservation)
      in if \<not> sr_accepted reservation then yield (None, stopped_with STAGE_BLOCKED ''CYCLE_BUDGET_EXCEEDED'', spent)
         else bind (bound_proposal env ru rq token stage cycle snapshot reservation remaining stamp) (\<lambda>p.
           if rp_command p \<noteq> stage_command stage then yield (Some p, stopped_with STAGE_BLOCKED ''SUPERVISOR_ACTION_MISMATCH'', spent)
           else if rp_estimated_cost p \<noteq> envelope then yield (Some p, stopped_with STAGE_BLOCKED ''CYCLE_BUDGET_EXCEEDED'', spent)
           else bind (dispatch env ru rq token stage p cycle snapshot stamp) (\<lambda>result.
             if remaining < ar_observed_cost result
             then yield (Some p, overrun_result result (rp_estimated_cost p), spent)
             else yield (Some p, result_with result (rp_estimated_cost p),
               max spent (dec_add (dec_sub spent (sr_reserved_cost reservation)) (ar_observed_cost result)))))))"

fun stop_statuses :: "stage_status \<Rightarrow> (cycle_status \<times> run_status) option" where
  "stop_statuses STAGE_WAITING = Some (CYCLE_WAITING, RUN_WAITING)"
| "stop_statuses STAGE_BLOCKED = Some (CYCLE_BLOCKED, RUN_BLOCKED)"
| "stop_statuses STAGE_FAILED = Some (CYCLE_FAILED, RUN_FAILED)"
| "stop_statuses STAGE_SUPPRESSED = Some (CYCLE_SUPPRESSED, RUN_SUPPRESSED)"
| "stop_statuses STAGE_CANCELLED = Some (CYCLE_CANCELLED, RUN_CANCELLED)"
| "stop_statuses _ = None"

definition stop_result ::
  "runner_env \<Rightarrow> string \<Rightarrow> int \<Rightarrow> string \<Rightarrow> runtime_stage \<Rightarrow> action_result \<Rightarrow> datetime \<Rightarrow> run_result run" where
  "stop_result env owner token ref stage result stamp =
     (case (stop_statuses (ar_status result), ar_reason_codes result) of
        (Some (cycle_status, run_status), reason # _) \<Rightarrow>
          bind (transaction env (\<lambda>db now. finish_cycle db now ref cycle_status owner token stamp (Some reason))) (\<lambda>_.
          lift (RuntimeRunResult run_status (Some ref) (Some stage) (Some reason)))
      | _ \<Rightarrow> throw RunOther)"

definition settle_stage ::
  "runner_env \<Rightarrow> runner \<Rightarrow> run_request \<Rightarrow> int \<Rightarrow> string \<Rightarrow> runtime_stage \<Rightarrow> stage_snapshot \<Rightarrow>
   runtime_proposal option \<times> action_result \<times> rat \<Rightarrow> (run_result + rat) run" where
  \<comment> \<open>the checkpoint after a stage: the run goes on with what is spent, or ends\<close>
  "settle_stage env ru rq token ref stage snapshot = (\<lambda>(proposal, result, spent).
     bind (read_now env) (\<lambda>checkpoint.
     bind (transaction env (\<lambda>db now. heartbeat_lease db now (rq_owner_ref rq) token checkpoint (ru_lease_seconds ru))) (\<lambda>_.
     bind (transaction env (\<lambda>db now. finish_stage db now ref stage result (rq_owner_ref rq) token checkpoint proposal)) (\<lambda>_.
     bind (set_local (\<lambda>w. w\<lparr> wo_now := checkpoint \<rparr>)) (\<lambda>_.
     bind (emit_stage ref stage (ss_attempt_count snapshot) result) (\<lambda>_.
     if ar_status result = STAGE_SUCCEEDED then yield (Inr spent)
     else bind (stop_result env (rq_owner_ref rq) token ref stage result checkpoint) (\<lambda>stopped.
       bind (observe_cycle env (rq_owner_ref rq) token ref checkpoint) (\<lambda>_.
       bind (emit_cycle ref (rr_status stopped) (case rr_reason_code stopped of None \<Rightarrow> ''CYCLE_STOPPED''
         | Some r \<Rightarrow> if r = [] then ''CYCLE_STOPPED'' else r)) (\<lambda>_. yield (Inl stopped))))))))))"

definition perform_stage ::
  "runner_env \<Rightarrow> runner \<Rightarrow> run_request \<Rightarrow> int \<Rightarrow> cycle_snapshot \<Rightarrow> runtime_stage \<Rightarrow> stage_snapshot \<Rightarrow> rat \<Rightarrow> datetime \<Rightarrow>
   (runtime_proposal option \<times> action_result \<times> rat) run" where
  "perform_stage env ru rq token cycle stage snapshot spent now =
     (if stage = STAGE_PROVIDER_HANDOFF \<and> \<not> rq_allow_qa_provider_mutations rq
      then yield (None, stopped_with STAGE_WAITING ''QA_PROVIDER_MUTATION_NOT_AUTHORIZED'', spent)
      else execute_stage env ru rq token stage
        (cycle\<lparr> cs_status := CYCLE_RUNNING, cs_next_stage := Some stage, cs_spent_cost := spent \<rparr>) snapshot now)"

definition run_stage ::
  "runner_env \<Rightarrow> runner \<Rightarrow> run_request \<Rightarrow> int \<Rightarrow> datetime \<Rightarrow> cycle_snapshot \<Rightarrow> runtime_stage \<Rightarrow> rat \<Rightarrow> (run_result + rat) run" where
  \<comment> \<open>the body of the loop over the stages\<close>
  "run_stage env ru rq token started_at cycle stage spent =
     (let ref = cs_cycle_ref cycle; owner = rq_owner_ref rq in
      bind (set_local (\<lambda>w. w\<lparr> wo_stage := Some stage, wo_attempt := 0 \<rparr>)) (\<lambda>_.
      bind (read_now env) (\<lambda>now.
      bind (set_local (\<lambda>w. w\<lparr> wo_now := now \<rparr>)) (\<lambda>_.
      if seconds (ru_maximum_wall ru) \<le> instant_of now - instant_of started_at
      then bind (close_cycle env owner token ref CYCLE_WAITING (Some ''CYCLE_TIME_BUDGET_REACHED'') now) (\<lambda>_.
        bind (emit_cycle ref RUN_WAITING ''CYCLE_TIME_BUDGET_REACHED'') (\<lambda>_.
        bind (lift (RuntimeRunResult RUN_WAITING (Some ref) (Some stage) (Some ''CYCLE_TIME_BUDGET_REACHED''))) (\<lambda>r. yield (Inl r))))
      else bind (transaction env (\<lambda>db t. begin_stage db t ref stage owner token now)) (\<lambda>snapshot.
        bind (set_local (\<lambda>w. w\<lparr> wo_attempt := ss_attempt_count snapshot \<rparr>)) (\<lambda>_.
        if ss_status snapshot = STAGE_WAITING \<and> (case ss_retry_at snapshot of None \<Rightarrow> False | Some t \<Rightarrow> instant_of now < t)
        then bind (observe_cycle env owner token ref now) (\<lambda>_.
          bind (emit_cycle ref RUN_WAITING ''STAGE_RETRY_NOT_DUE'') (\<lambda>_.
          bind (lift (RuntimeRunResult RUN_WAITING (Some ref) (Some stage) (Some ''STAGE_RETRY_NOT_DUE''))) (\<lambda>r. yield (Inl r))))
        else bind (observe_cycle env owner token ref now) (\<lambda>_.
          bind (event ''stage'' ''started'' ''STAGE_STARTED'' (ss_attempt_count snapshot) (Some ref) (Some (stage_value stage))) (\<lambda>_.
          bind (perform_stage env ru rq token cycle stage snapshot spent now)
            (settle_stage env ru rq token ref stage snapshot)))))))))"

fun run_stages ::
  "runner_env \<Rightarrow> runner \<Rightarrow> run_request \<Rightarrow> int \<Rightarrow> datetime \<Rightarrow> cycle_snapshot \<Rightarrow> runtime_stage list \<Rightarrow> rat \<Rightarrow> run_result run" where
  "run_stages env ru rq token started_at cycle [] spent =
     (\<lambda>w. complete_cycle env (rq_owner_ref rq) token (cs_cycle_ref cycle) (wo_now w) w)"
| "run_stages env ru rq token started_at cycle (stage # stages) spent =
     bind (run_stage env ru rq token started_at cycle stage spent) (\<lambda>outcome. case outcome of
       Inl r \<Rightarrow> yield r
     | Inr spent' \<Rightarrow> run_stages env ru rq token started_at cycle stages spent')"

section \<open>The whole run\<close>

definition run_cycle :: "runner_env \<Rightarrow> runner \<Rightarrow> run_request \<Rightarrow> int \<Rightarrow> datetime \<Rightarrow> cycle_snapshot \<Rightarrow> run_result run" where
  "run_cycle env ru rq token now cycle =
     (let ref = cs_cycle_ref cycle in
      case cs_next_stage cycle of
        Some next \<Rightarrow> run_stages env ru rq token now cycle (dropWhile (\<lambda>s. s \<noteq> next) STAGES) (cs_spent_cost cycle)
      | None \<Rightarrow>
          if cs_status cycle = CYCLE_SUPPRESSED
          then bind (emit_cycle ref RUN_SUPPRESSED ''CYCLE_SUPPRESSED'') (\<lambda>_.
            lift (RuntimeRunResult RUN_SUPPRESSED (Some ref) None None))
          else if cs_status cycle = CYCLE_SUCCEEDED
          then bind (emit_cycle ref RUN_COMPLETED ''CYCLE_SUCCEEDED'') (\<lambda>_.
            lift (RuntimeRunResult RUN_COMPLETED (Some ref) None None))
          else complete_cycle env (rq_owner_ref rq) token ref now)"

definition run_body :: "runner_env \<Rightarrow> runner \<Rightarrow> run_request \<Rightarrow> int \<Rightarrow> datetime \<Rightarrow> run_result run" where
  \<comment> \<open>the \<open>try\<close> block\<close>
  "run_body env ru rq token now =
     bind (transaction env (\<lambda>db t. record_runtime_observation db t (rq_owner_ref rq) (ru_capability ru) token now)) (\<lambda>_.
     case List.find (\<lambda>d. \<not> sd_ready d) (ca_dependencies (ru_capability ru)) of
       Some d \<Rightarrow>
         (case sd_reason_codes d of
            [] \<Rightarrow> throw RunOther
          | reason # _ \<Rightarrow>
              bind (event ''cycle'' ''blocked'' reason 0 None (Some (stage_value (sd_stage d)))) (\<lambda>_.
              lift (RuntimeRunResult RUN_BLOCKED None (Some (sd_stage d)) (Some reason))))
     | None \<Rightarrow>
         bind (transaction env (\<lambda>db t. resume_or_create_cycle db t (rq_owner_ref rq) token (ru_allowed_opportunity_keys ru)
           (ru_config_fingerprint ru) now)) (\<lambda>cycle.
         bind (set_local (\<lambda>w. w\<lparr> wo_cycle := Some cycle \<rparr>)) (\<lambda>_.
         bind (observe_cycle env (rq_owner_ref rq) token (cs_cycle_ref cycle) now) (\<lambda>_.
         bind (event ''cycle'' ''started'' ''CYCLE_RESUMED'' 0 (Some (cs_cycle_ref cycle)) None) (\<lambda>_.
         run_cycle env ru rq token now cycle)))))"

definition interrupted_result :: "datetime \<Rightarrow> action_result" where
  "interrupted_result checkpoint = (stopped_with STAGE_WAITING ''CURRENT_RUN_INTERRUPTED'')\<lparr>
     ar_retry_at := Some (instant_of checkpoint + 60000000), ar_replay_same_attempt := True \<rparr>"

definition on_interrupt :: "runner_env \<Rightarrow> run_request \<Rightarrow> int \<Rightarrow> run_result run" where
  \<comment> \<open>\<open>except InterruptedError\<close>\<close>
  "on_interrupt env rq token w =
     (case (wo_cycle w, wo_stage w) of
        (Some cycle, Some stage) \<Rightarrow>
          if wo_attempt w \<le> 0 then (Inl RunInterrupted, w)
          else (let ref = cs_cycle_ref cycle; owner = rq_owner_ref rq; attempt = wo_attempt w in
            bind (read_now env) (\<lambda>checkpoint.
            bind (transaction env (\<lambda>db t. finish_stage db t ref stage (interrupted_result checkpoint) owner token checkpoint None)) (\<lambda>_.
            bind (close_cycle env owner token ref CYCLE_WAITING (Some ''CURRENT_RUN_INTERRUPTED'') checkpoint) (\<lambda>_.
            bind (emit_stage ref stage attempt (interrupted_result checkpoint)) (\<lambda>_.
            bind (emit_cycle ref RUN_CANCELLED ''CURRENT_RUN_INTERRUPTED'') (\<lambda>_.
            lift (RuntimeRunResult RUN_CANCELLED (Some ref) (Some stage) (Some ''CURRENT_RUN_INTERRUPTED'')))))))) w
      | _ \<Rightarrow> (Inl RunInterrupted, w))"

definition failed_result :: action_result where
  "failed_result = stopped_with STAGE_FAILED ''CURRENT_RUN_TECHNICAL_FAILURE''"

definition on_failure :: "runner_env \<Rightarrow> run_request \<Rightarrow> int \<Rightarrow> run_result run" where
  \<comment> \<open>\<open>except Exception\<close>\<close>
  "on_failure env rq token w =
     (case wo_cycle w of
        None \<Rightarrow> bind (event ''cycle'' ''failed'' ''CURRENT_RUN_TECHNICAL_FAILURE'' 0 None None) (\<lambda>_.
          lift (RuntimeRunResult RUN_FAILED None None (Some ''CURRENT_RUN_TECHNICAL_FAILURE''))) w
      | Some cycle \<Rightarrow>
          (let ref = cs_cycle_ref cycle; owner = rq_owner_ref rq; now = wo_now w; attempt = wo_attempt w;
               current = (case wo_stage w of None \<Rightarrow> None | Some s \<Rightarrow> if 0 < attempt then Some s else None) in
           bind (case current of None \<Rightarrow> yield ()
             | Some s \<Rightarrow> transaction env (\<lambda>db t. finish_stage db t ref s failed_result owner token now None)) (\<lambda>_.
           bind (close_cycle env owner token ref CYCLE_FAILED (Some ''CURRENT_RUN_TECHNICAL_FAILURE'') now) (\<lambda>_.
           bind (case current of None \<Rightarrow> yield () | Some s \<Rightarrow> emit_stage ref s attempt failed_result) (\<lambda>_.
           bind (emit_cycle ref RUN_FAILED ''CURRENT_RUN_TECHNICAL_FAILURE'') (\<lambda>_.
           lift (RuntimeRunResult RUN_FAILED (Some ref) (wo_stage w) (Some ''CURRENT_RUN_TECHNICAL_FAILURE'')))))) w))"

definition recover :: "runner_env \<Rightarrow> run_request \<Rightarrow> int \<Rightarrow> (run_exn, run_result) result \<Rightarrow> run_result run" where
  \<comment> \<open>the \<open>except\<close> clauses\<close>
  "recover env rq token r =
     (case r of
        Inr x \<Rightarrow> yield x
      | Inl RunInterrupted \<Rightarrow> on_interrupt env rq token
      | Inl RunExit \<Rightarrow> throw RunExit
      | Inl _ \<Rightarrow> on_failure env rq token)"

definition release :: "runner_env \<Rightarrow> run_request \<Rightarrow> int \<Rightarrow> unit run" where
  \<comment> \<open>the \<open>finally\<close> clause\<close>
  "release env rq token w =
     bind (transaction env (\<lambda>db t. release_lease db (rq_owner_ref rq) token (wo_now w))) (\<lambda>_.
     event ''lease'' ''released'' ''LEASE_RELEASED'' 0 None None) w"

definition owned_run :: "runner_env \<Rightarrow> runner \<Rightarrow> run_request \<Rightarrow> int \<Rightarrow> datetime \<Rightarrow> run_result run" where
  "owned_run env ru rq token now w =
     (let (_, w1) = event ''lease'' ''started'' ''LEASE_ACQUIRED'' 0 None None w;
          (r1, w2) = run_body env ru rq token now w1;
          (r2, w3) = recover env rq token r1 w2;
          (r3, w4) = release env rq token w3
      in (rbind r3 (\<lambda>_. r2), w4))"

definition fresh_locals :: "run_world \<Rightarrow> run_world" where
  "fresh_locals w = w\<lparr> wo_token := None, wo_cycle := None, wo_stage := None, wo_attempt := 0 \<rparr>"

definition run_once :: "runner_env \<Rightarrow> runner \<Rightarrow> run_request \<Rightarrow> run_result run" where
  "run_once env ru rq =
     bind (set_local fresh_locals) (\<lambda>_.
     bind (read_now env) (\<lambda>now.
     bind (set_local (\<lambda>w. w\<lparr> wo_now := now \<rparr>)) (\<lambda>_.
     bind (transaction env (\<lambda>db t. acquire_lease db t (rq_owner_ref rq) now (ru_lease_seconds ru))) (\<lambda>lease.
     case le_fencing_token lease of
       None \<Rightarrow> bind (event ''lease'' ''already_running'' ''LEASE_HELD'' 0 None None) (\<lambda>_.
         lift (RuntimeRunResult RUN_ALREADY_RUNNING None None None))
     | Some token \<Rightarrow> bind (set_local (\<lambda>w. w\<lparr> wo_token := Some token \<rparr>)) (\<lambda>_. owned_run env ru rq token now)))))"

end
