(* ===== verification/RuntimeProps.thy ===== *)
theory RuntimeProps
  imports RuntimeStore
begin

text \<open>
  What the runtime store promises: fencing tokens exclude a superseded runner for ever, the attempts are
  an append-only ledger of costs that the cycles sum up exactly, and finished stages stay finished.

  A history is a list of operations, by any number of processes, each with its own clock readings. The
  locale \<open>runtime_contract\<close> lifts a law of one operation to every history.
\<close>

section \<open>From operations to histories\<close>

locale runtime_contract =
  fixes inv :: "runtime_db \<Rightarrow> bool"
    and admissible :: "runtime_op \<Rightarrow> bool"
    and rel :: "runtime_db \<Rightarrow> runtime_db \<Rightarrow> bool"
  assumes rel_refl: "rel db db"
    and rel_trans: "rel a b \<Longrightarrow> rel b c \<Longrightarrow> rel a c"
    and op_step: "inv db \<Longrightarrow> admissible p \<Longrightarrow> op_result p db = Inr db' \<Longrightarrow> inv db' \<and> rel db db'"
begin

lemma apply_step: "inv db \<Longrightarrow> admissible p \<Longrightarrow> inv (apply_runtime p db) \<and> rel db (apply_runtime p db)"
  by (cases "op_result p db") (auto simp: apply_runtime_def rel_refl op_step)

lemma run_steps:
  assumes "inv db" and "list_all admissible ops"
  shows "inv (run_runtime ops db) \<and> rel db (run_runtime ops db)"
  using assms
proof (induction ops arbitrary: db)
  case (Cons p ops)
  then have "inv (apply_runtime p db)" "rel db (apply_runtime p db)" using apply_step by auto
  with Cons show ?case using rel_trans by (fastforce simp: run_runtime_def)
qed (simp add: run_runtime_def rel_refl)

lemma run_inv: "inv db \<Longrightarrow> list_all admissible ops \<Longrightarrow> inv (run_runtime ops db)"
  using run_steps by blast

end

section \<open>Statements\<close>

lemma one_or_Inr: "one_or e p rows = Inr r \<longleftrightarrow> List.find p rows = Some r"
  by (auto simp: one_or_def split: option.split)

lemma update_cycle_Inr:
  "update_cycle ref f db = Inr db' \<longleftrightarrow> (\<forall>r \<in> set (rt_cycles db). is_cycle ref r \<longrightarrow> cycle_row_ok (f r)) \<and>
     db' = db\<lparr> rt_cycles := map (\<lambda>r. if is_cycle ref r then f r else r) (rt_cycles db) \<rparr>"
  by (auto simp: update_cycle_def update_where_def list_all_iff)

lemma update_stage_Inr:
  "update_stage ref s f db = Inr db' \<longleftrightarrow> (\<forall>r \<in> set (rt_stages db). is_stage ref s r \<longrightarrow> stage_row_ok (f r)) \<and>
     db' = db\<lparr> rt_stages := map (\<lambda>r. if is_stage ref s r then f r else r) (rt_stages db) \<rparr>"
  by (auto simp: update_stage_def update_where_def list_all_iff)

lemma update_attempt_Inr:
  "update_attempt ref s n p f db = Inr db' \<longleftrightarrow>
     (\<forall>r \<in> set (rt_attempts db). is_attempt ref s n r \<and> p r \<longrightarrow> attempt_row_ok (f r)) \<and>
     db' = db\<lparr> rt_attempts := map (\<lambda>r. if is_attempt ref s n r \<and> p r then f r else r) (rt_attempts db) \<rparr>"
  by (auto simp: update_attempt_def update_where_def list_all_iff)

lemma insert_attempt_Inr:
  "insert_attempt r db = Inr (b, db') \<longleftrightarrow>
     (if list_ex (is_attempt (at_cycle_ref r) (at_stage r) (at_attempt_count r)) (rt_attempts db) then \<not> b \<and> db' = db
      else b \<and> attempt_row_ok r \<and> list_ex (is_cycle (at_cycle_ref r)) (rt_cycles db) \<and>
           db' = db\<lparr> rt_attempts := rt_attempts db @ [r] \<rparr>)"
  by (auto simp: insert_attempt_def)

lemmas statement_Inr = one_or_Inr update_cycle_Inr update_stage_Inr update_attempt_Inr insert_attempt_Inr

section \<open>The lease\<close>

definition generation :: "runtime_db \<Rightarrow> int" where
  "generation db = (case rt_lease db of None \<Rightarrow> 0 | Some r \<Rightarrow> lr_generation r)"

definition lease_owner :: "runtime_db \<Rightarrow> string option" where
  "lease_owner db = (case rt_lease db of None \<Rightarrow> None | Some r \<Rightarrow> lr_owner_ref r)"

definition lease_le :: "runtime_db \<Rightarrow> runtime_db \<Rightarrow> bool" where
  \<comment> \<open>a new owner comes with a new generation\<close>
  "lease_le db db' \<longleftrightarrow> generation db < generation db' \<or>
     generation db = generation db' \<and> lease_owner db' \<in> {lease_owner db, None}"

lemma require_active_Inr:
  "require_active_lease db now owner token = Inr r \<longleftrightarrow> rt_lease db = Some r \<and> holds r owner token \<and> live r now"
  by (auto simp: require_active_lease_def split: option.split)

lemma extend_lease_Inr:
  "extend_lease db now owner token secs = Inr db' \<longleftrightarrow> (\<exists>r. rt_lease db = Some r \<and> holds r owner token \<and> live r now \<and>
     lease_row_ok (r\<lparr> lr_heartbeat_at := Some now, lr_expires_at := Some (now + seconds secs) \<rparr>) \<and>
     db' = db\<lparr> rt_lease := Some (r\<lparr> lr_heartbeat_at := Some now, lr_expires_at := Some (now + seconds secs) \<rparr>) \<rparr>)"
  by (auto simp: extend_lease_def require_active_Inr Let_def)

lemma acquire_lease_Inr:
  assumes "acquire_lease db now owner stamp secs = Inr (res, db')"
  shows "if le_owned res
     then le_fencing_token res = Some (generation db + 1) \<and> generation db' = generation db + 1 \<and>
          lease_owner db' = Some owner \<and> (\<exists>r. rt_lease db' = Some r \<and> lr_expires_at r = Some (now + seconds secs))
     else le_fencing_token res = None \<and> generation db' = generation db \<and> lease_owner db' = lease_owner db"
  using assms
  by (cases "rt_lease db")
     (auto simp: acquire_lease_def Let_def RuntimeLeaseResult_def generation_def lease_owner_def free_lease_def
       split: if_split_asm)

lemma lease_kept:
  "record_runtime_observation db now owner cap token stamp = Inr (ob, db') \<Longrightarrow> rt_lease db' = rt_lease db"
  "record_cycle_observation db now owner ref token stamp = Inr (ob, db') \<Longrightarrow> rt_lease db' = rt_lease db"
  "abandon_cycle db ref reason stamp = Inr (b, db') \<Longrightarrow> rt_lease db' = rt_lease db"
  "create_cycle db key fp t = Inr (c, db') \<Longrightarrow> rt_lease db' = rt_lease db"
  "finish_cycle db now ref status owner token stamp code = Inr (u, db') \<Longrightarrow> rt_lease db' = rt_lease db"
  by (auto simp: record_runtime_observation_def record_cycle_observation_def abandon_cycle_def create_cycle_def
      finish_cycle_def update_cycle_Inr Let_def split: option.split_asm if_split_asm)

lemma resume_cases:
  assumes "resume_or_create_cycle db now owner token keys fp stamp = Inr (c, db')"
  obtains (resumed) row where "db' = db" "row \<in> set (rt_cycles db)" "cycle_snapshot_of row = Inr c"
  | (created) key where "create_cycle db key fp (instant_of stamp) = Inr (c, db')"
  using assms
  by (auto simp: resume_or_create_cycle_def Let_def dest: find_Some_set split: option.split_asm)

lemma begin_cases:
  assumes "begin_stage db now ref stage owner token stamp = Inr (s, db')"
  obtains (kept) "db' = db"
  | (replayed) row where "List.find (is_stage ref stage) (rt_stages db) = Some row" "sg_status row = STAGE_WAITING"
      "sg_replay_same_attempt row" "replay_stage db ref stage row (instant_of stamp) = Inr db'"
  | (restarted) row where "List.find (is_stage ref stage) (rt_stages db) = Some row"
      "sg_status row \<notin> {STAGE_SUCCEEDED, STAGE_SUPPRESSED, STAGE_RUNNING}"
      "restart_stage db ref stage row (instant_of stamp) = Inr db'"
  using assms
  by (auto simp: begin_stage_def Let_def one_or_Inr split: if_split_asm)

lemma book_Inr:
  "book_reservation db ref stage cost before t = Inr (r, db') \<longleftrightarrow> (\<exists>db1.
     update_stage ref stage (\<lambda>s. s\<lparr> sg_reserved_cost := cost_column cost, sg_updated_at := t \<rparr>) db = Inr db1 \<and>
     update_cycle ref (\<lambda>c. c\<lparr> cy_spent_cost := cost_column (dec_add before cost), cy_updated_at := t \<rparr>) db1 = Inr db' \<and>
     reserved_with True cost (dec_add before cost) None = Inr r)"
  by (auto simp: book_reservation_def)

lemma reserve_cases:
  assumes "reserve_stage_cost db now ref stage snapshot cost maximum owner token stamp = Inr (r, db')"
  obtains (refused) "db' = db" "\<not> sr_accepted r" "maximum < dec_add (spent_cost db ref) cost"
      "sr_total_cycle_cost r = spent_cost db ref" "cost_in_range cost"
  | (replayed) a where "db' = db" "sr_accepted r" "\<not> sr_created r" "a \<in> set (rt_attempts db)"
      "is_attempt ref stage (ss_attempt_count snapshot) a" "at_status a = STAGE_RUNNING" "at_reserved_cost a = cost"
      "sr_total_cycle_cost r = spent_cost db ref" "sr_proposal r = at_proposal a"
  | (filled) db1 a where "sr_accepted r" "sr_created r" "dec_add (spent_cost db ref) cost \<le> maximum"
      "sr_total_cycle_cost r = dec_add (spent_cost db ref) cost"
      "List.find (is_attempt ref stage (ss_attempt_count snapshot)) (rt_attempts db) = Some a"
      "at_status a = STAGE_RUNNING" "at_reserved_cost a = 0" "at_observed_cost a = 0"
      "update_attempt ref stage (ss_attempt_count snapshot) (\<lambda>r. at_status r = STAGE_RUNNING \<and> at_reserved_cost r = 0)
        (\<lambda>r. r\<lparr> at_reserved_cost := cost_column cost \<rparr>) db = Inr db1"
      "book_reservation db1 ref stage cost (spent_cost db ref) (instant_of stamp) = Inr (r, db')"
  | (opened) a row where "sr_accepted r" "sr_created r" "dec_add (spent_cost db ref) cost \<le> maximum"
      "sr_total_cycle_cost r = dec_add (spent_cost db ref) cost"
      "List.find (is_stage ref stage) (rt_stages db) = Some row" "sg_attempt_count row = at_attempt_count a"
      "List.find (is_attempt ref stage (at_attempt_count a)) (rt_attempts db) = None"
      "at_cycle_ref a = ref" "at_stage a = stage" "at_status a = STAGE_RUNNING" "attempt_row_ok a"
      "at_reserved_cost a = cost_column cost" "at_observed_cost a = 0"
      "book_reservation (db\<lparr> rt_attempts := rt_attempts db @ [a] \<rparr>) ref stage cost (spent_cost db ref) (instant_of stamp) = Inr (r, db')"
proof -
  obtain row where row: "List.find (is_stage ref stage) (rt_stages db) = Some row"
    "sg_attempt_count row = ss_attempt_count snapshot"
    using assms by (auto simp: reserve_stage_cost_def one_or_Inr)
  have acc: "sr_accepted r" "sr_created r" "sr_total_cycle_cost r = dec_add before cost"
    if "book_reservation x ref stage cost before t = Inr (r, db')" for x before t
    using that by (auto simp: book_Inr reserved_with_def RuntimeStageReservation_def split: if_split_asm)
  show thesis
  proof (cases "List.find (is_attempt ref stage (ss_attempt_count snapshot)) (rt_attempts db)")
    case None
    let ?a = "\<lparr> at_cycle_ref = ref, at_stage = stage, at_attempt_count = ss_attempt_count snapshot,
      at_status = STAGE_RUNNING, at_reserved_cost = cost_column cost, at_observed_cost = 0, at_proposal = None,
      at_retry_at = None, at_replay_same_attempt = False, at_completed_at = None \<rparr>"
    show thesis
    proof (cases "maximum < dec_add (spent_cost db ref) cost")
      case True
      then show thesis using assms None
        by (auto simp: reserve_stage_cost_def one_or_Inr Let_def refused_with_def RuntimeStageReservation_def
            split: if_split_asm intro: refused)
    next
      case False
      then have "attempt_row_ok ?a"
        "book_reservation (db\<lparr> rt_attempts := rt_attempts db @ [?a] \<rparr>) ref stage cost (spent_cost db ref) (instant_of stamp) = Inr (r, db')"
        using assms None
        by (auto simp: reserve_stage_cost_def one_or_Inr Let_def insert_attempt_Inr split: if_split_asm)
      then show thesis using opened [of row ?a] False None row acc by (simp add: not_less)
    qed
  next
    case (Some a)
    then show thesis using assms acc find_Some_set [OF Some]
      by (auto simp: reserve_stage_cost_def one_or_Inr Let_def refused_with_def reserved_with_def
          RuntimeStageReservation_def not_less split: if_split_asm intro: refused filled replayed)
  qed
qed

lemma bind_cases:
  assumes "bind_stage_proposal db now ref stage snapshot proposal owner token stamp = Inr (q, db')"
  obtains (kept) "db' = db"
  | (bound) a db1 where "List.find (is_attempt ref stage (ss_attempt_count snapshot)) (rt_attempts db) = Some a"
      "at_status a = STAGE_RUNNING" "at_proposal a = None"
      "update_attempt ref stage (ss_attempt_count snapshot) (\<lambda>_. True) (\<lambda>r. r\<lparr> at_proposal := Some proposal \<rparr>) db = Inr db1"
      "update_stage ref stage (\<lambda>s. s\<lparr> sg_plan_ref := Some (rp_plan_ref proposal),
        sg_command := Some (rp_command proposal), sg_argument_fingerprint := Some (rp_argument_fingerprint proposal),
        sg_updated_at := instant_of stamp \<rparr>) db1 = Inr db'"
      "List.find (is_stage ref stage) (rt_stages db) \<noteq> None"
      "\<forall>row. List.find (is_stage ref stage) (rt_stages db) = Some row \<longrightarrow> sg_status row = STAGE_RUNNING"
  using assms
  by (auto simp: bind_stage_proposal_def Let_def one_or_Inr split: option.split_asm if_split_asm)

lemma settle_cases:
  assumes "settle_attempt db ref stage n result proposal t = Inr (reserved, db')"
  obtains (late) a where "List.find (is_attempt ref stage n) (rt_attempts db) = None" "is_attempt ref stage n a"
      "attempt_row_ok a" "at_status a = ar_status result" "at_reserved_cost a = cost_column (ar_reserved_cost result)"
      "at_observed_cost a = cost_column (ar_observed_cost result)" "list_ex (is_cycle ref) (rt_cycles db)"
      "db' = db\<lparr> rt_attempts := rt_attempts db @ [a] \<rparr>" "at_completed_at a = Some t"
  | (settled) a where "List.find (is_attempt ref stage n) (rt_attempts db) = Some a" "at_status a = STAGE_RUNNING"
      "reserved = at_reserved_cost a"
      "update_attempt ref stage n (\<lambda>r. at_status r = STAGE_RUNNING) (\<lambda>r. r\<lparr> at_status := ar_status result,
         at_observed_cost := cost_column (ar_observed_cost result), at_retry_at := ar_retry_at result,
         at_replay_same_attempt := ar_replay_same_attempt result, at_completed_at := Some t \<rparr>) db = Inr db'"
proof (cases "List.find (is_attempt ref stage n) (rt_attempts db)")
  case None
  then have "\<not> list_ex (is_attempt ref stage n) (rt_attempts db)" by (auto simp: find_None_iff list_ex_iff)
  define a where "a = \<lparr> at_cycle_ref = ref, at_stage = stage, at_attempt_count = n, at_status = ar_status result,
    at_reserved_cost = cost_column (ar_reserved_cost result), at_observed_cost = cost_column (ar_observed_cost result),
    at_proposal = proposal, at_retry_at = ar_retry_at result, at_replay_same_attempt = ar_replay_same_attempt result,
    at_completed_at = Some t \<rparr>"
  have "attempt_row_ok a" "list_ex (is_cycle ref) (rt_cycles db)" "db' = db\<lparr> rt_attempts := rt_attempts db @ [a] \<rparr>"
    using assms None \<open>\<not> list_ex _ _\<close> by (auto simp: settle_attempt_def insert_attempt_Inr a_def split: if_split_asm)
  then show thesis using late [OF None, of a] by (simp add: is_attempt_def a_def)
next
  case (Some a)
  then show thesis using assms settled [OF Some] by (auto simp: settle_attempt_def)
qed

lemma finish_cases:
  assumes "finish_stage db now ref stage result owner token stamp proposal = Inr (u, db')"
  obtains row reserved db1 db2 f where "List.find (is_stage ref stage) (rt_stages db) = Some row" "sg_status row = STAGE_RUNNING"
      "settle_attempt db ref stage (sg_attempt_count row) result proposal (instant_of stamp) = Inr (reserved, db1)"
      "update_stage ref stage f db1 = Inr db2"
      "\<And>s. sg_cycle_ref (f s) = sg_cycle_ref s \<and> sg_stage (f s) = sg_stage s \<and> sg_attempt_count (f s) = sg_attempt_count s \<and>
         sg_status (f s) = ar_status result \<and> sg_started_at (f s) = sg_started_at s \<and>
         sg_retry_at (f s) = ar_retry_at result \<and> sg_replay_same_attempt (f s) = ar_replay_same_attempt result"
      "update_cycle ref (\<lambda>c. c\<lparr>
         cy_status := (if ar_status result = STAGE_SUCCEEDED then CYCLE_RUNNING else cycle_of_stage (ar_status result)),
         cy_next_stage := next_stage_after stage (ar_status result), cy_spent_cost := cost_column (spent_cost db2 ref),
         cy_last_reason_code := (case ar_reason_codes result of [] \<Rightarrow> None | r # _ \<Rightarrow> Some r),
         cy_completed_at := (if ar_status result = STAGE_SUPPRESSED then Some (instant_of stamp) else None),
         cy_updated_at := instant_of stamp \<rparr>) db2 = Inr db'"
  using assms
  by (auto simp: finish_stage_def one_or_Inr)

lemma stage_ops_keep_lease:
  "begin_stage db now ref stage owner token stamp = Inr (s, db') \<Longrightarrow> rt_lease db' = rt_lease db"
  "reserve_stage_cost db now ref stage snap cost maximum owner token stamp = Inr (r, db') \<Longrightarrow> rt_lease db' = rt_lease db"
  "bind_stage_proposal db now ref stage snap proposal owner token stamp = Inr (q, db') \<Longrightarrow> rt_lease db' = rt_lease db"
  "finish_stage db now ref stage result owner token stamp prop = Inr (u, db') \<Longrightarrow> rt_lease db' = rt_lease db"
  subgoal by (erule begin_cases) (auto simp: replay_stage_def restart_stage_def statement_Inr)
  subgoal by (erule reserve_cases) (auto simp: book_Inr statement_Inr)
  subgoal by (erule bind_cases) (auto simp: statement_Inr)
  subgoal by (erule finish_cases) (auto simp: statement_Inr elim!: settle_cases)
  done

lemma resume_keeps_lease:
  "resume_or_create_cycle db now owner token keys fp stamp = Inr (c, db') \<Longrightarrow> rt_lease db' = rt_lease db"
  by (erule resume_cases) (auto dest: lease_kept)

lemma lease_le_same: "rt_lease db' = rt_lease db \<Longrightarrow> lease_le db db'"
  by (simp add: lease_le_def generation_def lease_owner_def)

lemma lease_step:
  assumes "op_result p db = Inr db'"
  shows "lease_le db db'"
proof (cases p)
  case (Acquire now owner stamp secs)
  then obtain res where "acquire_lease db now owner stamp secs = Inr (res, db')" using assms by auto
  from acquire_lease_Inr [OF this] show ?thesis by (auto simp: lease_le_def split: if_split_asm)
next
  case (Heartbeat now owner token stamp secs)
  then show ?thesis using assms
    by (auto simp: heartbeat_lease_def extend_lease_Inr lease_le_def generation_def lease_owner_def)
next
  case (Protect now owner token secs outcome)
  then show ?thesis using assms
    by (auto simp: protect_def extend_lease_Inr lease_le_def generation_def lease_owner_def)
next
  case (Release owner token stamp)
  then show ?thesis using assms
    by (auto simp: release_lease_def lease_le_def generation_def lease_owner_def free_lease_def split: option.split)
qed (use assms in \<open>auto intro!: lease_le_same dest: lease_kept stage_ops_keep_lease resume_keeps_lease\<close>)

interpretation lease: runtime_contract "\<lambda>_. True" "\<lambda>_. True" lease_le
proof unfold_locales
  show "lease_le a b \<Longrightarrow> lease_le b c \<Longrightarrow> lease_le a c" for a b c by (auto simp: lease_le_def)
qed (simp_all add: lease_step, simp add: lease_le_def)

lemma fenced_op_error:
  assumes "fenced_by p = Some token" and "token \<noteq> generation db"
  shows "\<exists>e. op_result p db = Inl e"
proof -
  have no: "require_active_lease db now owner token = Inl AcquisitionRuntimeConflict" for now owner
    using assms(2) by (auto simp: require_active_lease_def holds_def generation_def split: option.split)
  have "op_result p db \<noteq> Inr db'" for db'
    using assms(1)
    by (cases p) (auto simp: no heartbeat_lease_def protect_def extend_lease_def record_runtime_observation_def
        record_cycle_observation_def resume_or_create_cycle_def finish_cycle_def begin_stage_def
        reserve_stage_cost_def bind_stage_proposal_def finish_stage_def)
  then show ?thesis by (metis sum.exhaust)
qed

lemma release_lost: "token \<noteq> generation db \<Longrightarrow> apply_runtime (Release owner token stamp) db = db"
  by (cases "is_aware stamp")
     (auto simp: apply_runtime_def release_lease_def require_aware_def holds_def generation_def split: option.split)

text \<open>
  C21. Fencing. A lease that is acquired comes with a token greater than every earlier one. From then on,
  whatever any process does, no operation fenced by a smaller token succeeds or changes anything, and
  releasing with one changes nothing: a runner that lost its lease can never write again. Every later
  acquisition gets a greater token, and takes a lease away from another owner only at or after the
  expiry it carries.
\<close>

theorem fencing:
  assumes acquired: "acquire_lease db now owner stamp secs = Inr (res, db1)" "le_fencing_token res = Some t"
    and later: "db2 = run_runtime ops db1"
  shows "generation db < t \<and>
    (\<forall>p token. fenced_by p = Some token \<and> token < t \<longrightarrow> (\<exists>e. op_result p db2 = Inl e)) \<and>
    (\<forall>o' token stamp'. token < t \<longrightarrow> apply_runtime (Release o' token stamp') db2 = db2) \<and>
    (\<forall>o' now' stamp' secs' res' db3 t'. acquire_lease db2 now' o' stamp' secs' = Inr (res', db3) \<and>
       le_fencing_token res' = Some t' \<longrightarrow> t < t' \<and>
       (lease_owner db2 = Some owner \<and> o' \<noteq> owner \<longrightarrow>
          (\<exists>r e. rt_lease db2 = Some r \<and> lr_expires_at r = Some e \<and> e \<le> now')))"
proof -
  have t: "t = generation db + 1" "generation db1 = t"
    using acquire_lease_Inr [OF acquired(1)] acquired(2) by (auto split: if_split_asm)
  have "lease_le db1 db2" using lease.run_steps [where db = db1 and ops = ops] later by (simp add: list_all_iff)
  then have gen: "t \<le> generation db2" using t by (auto simp: lease_le_def)
  have "t < t' \<and> (lease_owner db2 = Some owner \<and> o' \<noteq> owner \<longrightarrow>
      (\<exists>r e. rt_lease db2 = Some r \<and> lr_expires_at r = Some e \<and> e \<le> now'))"
    if "acquire_lease db2 now' o' stamp' secs' = Inr (res', db3)" "le_fencing_token res' = Some t'"
    for o' now' stamp' secs' res' db3 t'
  proof -
    have owned: "le_owned res'" "t' = generation db2 + 1"
      using acquire_lease_Inr [OF that(1)] that(2) by (auto split: if_split_asm)
    moreover have "\<exists>r e. rt_lease db2 = Some r \<and> lr_expires_at r = Some e \<and> e \<le> now'"
      if "lease_owner db2 = Some owner" "o' \<noteq> owner"
      using \<open>acquire_lease db2 now' o' stamp' secs' = Inr (res', db3)\<close> owned(1) that
      by (auto simp: acquire_lease_def Let_def lease_owner_def split: option.split_asm if_split_asm)
    ultimately show ?thesis using gen by auto
  qed
  moreover have "\<exists>e. op_result p db2 = Inl e" if "fenced_by p = Some token" "token < t" for p token
    using fenced_op_error that gen by (metis leD)
  moreover have "apply_runtime (Release o' token stamp') db2 = db2" if "token < t" for o' token stamp'
    using release_lost that gen by (metis leD)
  ultimately show ?thesis using t(1) by fastforce
qed

definition sample_stamp :: "nat \<Rightarrow> datetime" where
  "sample_stamp m = \<lparr> dt_date = mk_date 2026 1 5, dt_hour = 9, dt_minute = m, dt_second = 0, dt_micro = 0, dt_offset = Some 0 \<rparr>"

definition empty_runtime :: runtime_db where
  "empty_runtime = \<lparr> rt_lease = None, rt_cycles = [], rt_stages = [], rt_attempts = [], rt_observation = None \<rparr>"

definition sample_leased :: "string \<Rightarrow> instant \<Rightarrow> int \<Rightarrow> runtime_db" where
  "sample_leased owner now token = empty_runtime\<lparr> rt_lease := Some \<lparr> lr_owner_ref = Some owner, lr_acquired_at = Some now,
     lr_heartbeat_at = Some now, lr_expires_at = Some (now + 300000000), lr_generation = token \<rparr> \<rparr>"

definition sample_lease :: "int \<Rightarrow> lease_result" where
  "sample_lease t = \<lparr> le_owned = True, le_reclaimed = (t = 2), le_fencing_token = Some t \<rparr>"

lemma sample_acquired:
  "acquire_lease empty_runtime 0 ''runner-a'' (sample_stamp 0) 300 = Inr (sample_lease 1, sample_leased ''runner-a'' 0 1)"
  "acquire_lease (sample_leased ''runner-a'' 0 1) 300000000 ''runner-b'' (sample_stamp 5) 300 =
     Inr (sample_lease 2, sample_leased ''runner-b'' 300000000 2)"
  by code_simp+

theorem fencing_witness:
  "1 < (2::int) \<and> (\<exists>e. op_result (FinishCycle 300000001 ''c'' CYCLE_WAITING ''runner-a'' 1 (sample_stamp 6) None)
     (run_runtime [Heartbeat 300000001 ''runner-b'' 2 (sample_stamp 5) 300] (sample_leased ''runner-b'' 300000000 2)) = Inl e)"
proof -
  have "le_fencing_token (sample_lease 2) = Some 2" by (simp add: sample_lease_def)
  from fencing [OF sample_acquired(2) this refl] have fenced:
    "\<forall>p token. fenced_by p = Some token \<and> token < 2 \<longrightarrow> (\<exists>e. op_result p (run_runtime ops (sample_leased ''runner-b'' 300000000 2)) = Inl e)"
    for ops by blast
  have "fenced_by (FinishCycle 300000001 ''c'' CYCLE_WAITING ''runner-a'' 1 (sample_stamp 6) None) = Some 1 \<and> (1::int) < 2" by simp
  then show ?thesis using fenced by blast
qed

section \<open>The ledger of attempts\<close>

definition charge :: "attempt_row \<Rightarrow> rat" where
  "charge a = max (at_reserved_cost a) (at_observed_cost a)"

definition charge_of :: "string \<Rightarrow> attempt_row \<Rightarrow> rat" where
  "charge_of ref a = (if at_cycle_ref a = ref then charge a else 0)"

definition charged :: "runtime_db \<Rightarrow> string \<Rightarrow> rat" where
  \<comment> \<open>what the attempts of a cycle cost, summed exactly\<close>
  "charged db ref = sum_list (map (charge_of ref) (rt_attempts db))"

definition attempt_key :: "attempt_row \<Rightarrow> string \<times> runtime_stage \<times> int" where
  "attempt_key a = (at_cycle_ref a, at_stage a, at_attempt_count a)"

definition stage_key :: "stage_row \<Rightarrow> string \<times> runtime_stage" where
  "stage_key s = (sg_cycle_ref s, sg_stage s)"

definition ledger_row :: "attempt_row \<Rightarrow> bool" where
  "ledger_row a \<longleftrightarrow> attempt_row_ok a \<and> on_grid 6 (at_reserved_cost a) \<and> on_grid 6 (at_observed_cost a)"

definition counted :: "stage_row list \<Rightarrow> attempt_row \<Rightarrow> bool" where
  \<comment> \<open>an attempt belongs to a stage that counted it, and runs only as the last one of a running stage\<close>
  "counted stages a \<longleftrightarrow> (\<exists>s \<in> set stages. stage_key s = (at_cycle_ref a, at_stage a) \<and> at_attempt_count a \<le> sg_attempt_count s \<and>
     (at_status a = STAGE_RUNNING \<longrightarrow> sg_status s = STAGE_RUNNING \<and> at_attempt_count a = sg_attempt_count s))"

definition attempts_ok :: "attempt_row list \<Rightarrow> string set \<Rightarrow> stage_row list \<Rightarrow> bool" where
  "attempts_ok attempts cycles stages \<longleftrightarrow> distinct (map attempt_key attempts) \<and>
     (\<forall>a \<in> set attempts. ledger_row a \<and> at_cycle_ref a \<in> cycles \<and> counted stages a)"

definition runtime_ok :: "runtime_db \<Rightarrow> bool" where
  "runtime_ok db \<longleftrightarrow> distinct (map cy_cycle_ref (rt_cycles db)) \<and> distinct (map stage_key (rt_stages db)) \<and>
     attempts_ok (rt_attempts db) (cy_cycle_ref ` set (rt_cycles db)) (rt_stages db) \<and>
     (\<forall>c \<in> set (rt_cycles db). cycle_row_ok c \<and> cy_spent_cost c = charged db (cy_cycle_ref c)) \<and>
     (\<forall>s \<in> set (rt_stages db). stage_row_ok s)"

lemma ledger_row_charge:
  assumes "ledger_row a"
  shows "on_grid 6 (charge a)" "0 \<le> charge a" "charge a < 10 ^ 6" "0 \<le> charge_of ref a" "charge_of ref a < 10 ^ 6"
  using assms by (auto simp: ledger_row_def charge_def charge_of_def attempt_row_ok_def cost_ok_def max_def)

lemma charged_filter: "charged db ref = sum_list (map charge (filter (\<lambda>a. at_cycle_ref a = ref) (rt_attempts db)))"
  by (simp add: charged_def charge_of_def [abs_def] sum_list_map_filter')

lemma spent_cost_exact:
  assumes "\<forall>a \<in> set (rt_attempts db). ledger_row a" and "charged db ref < 10 ^ 22"
  shows "spent_cost db ref = charged db ref"
proof -
  have "foldl dec_add 0 (map charge (filter (\<lambda>a. at_cycle_ref a = ref) (rt_attempts db))) = 0 + charged db ref"
    unfolding charged_filter
    by (rule foldl_dec_add_exact [of _ 6]) (use assms in \<open>auto simp: ledger_row_charge simp flip: charged_filter\<close>)
  then show ?thesis by (simp add: spent_cost_def charge_def [abs_def])
qed

lemma charged_grid: "\<forall>a \<in> set (rt_attempts db). ledger_row a \<Longrightarrow> on_grid 6 (charged db ref) \<and> 0 \<le> charged db ref"
proof -
  have "on_grid 6 (sum_list (map (charge_of ref) as)) \<and> 0 \<le> sum_list (map (charge_of ref) as)"
    if "\<forall>a \<in> set as. ledger_row a" for as
    using that
    by (induction as) (auto simp: charge_of_def ledger_row_charge intro: on_grid_add add_nonneg_nonneg)
  then show "\<forall>a \<in> set (rt_attempts db). ledger_row a \<Longrightarrow> on_grid 6 (charged db ref) \<and> 0 \<le> charged db ref"
    by (simp add: charged_def)
qed

lemma runtime_ok_rows:
  assumes "runtime_ok db"
  shows "\<forall>a \<in> set (rt_attempts db). ledger_row a" "distinct (rt_attempts db)" "inj_on attempt_key (set (rt_attempts db))"
    "inj_on stage_key (set (rt_stages db))" "inj_on cy_cycle_ref (set (rt_cycles db))"
  using assms by (auto simp: runtime_ok_def attempts_ok_def distinct_map)

lemma charged_absent:
  assumes "runtime_ok db" and "ref \<notin> cy_cycle_ref ` set (rt_cycles db)"
  shows "charged db ref = 0"
proof -
  have "\<forall>a \<in> set (rt_attempts db). charge_of ref a = 0"
    using assms by (auto simp: runtime_ok_def attempts_ok_def charge_of_def)
  then show ?thesis by (simp add: charged_def cong: map_cong)
qed

lemma charged_small:
  assumes "runtime_ok db"
  shows "charged db ref < 10 ^ 6"
proof (cases "ref \<in> cy_cycle_ref ` set (rt_cycles db)")
  case True
  then show ?thesis using assms by (auto simp: runtime_ok_def cycle_row_ok_def cost_ok_def)
qed (simp add: charged_absent [OF assms])

lemma runtime_spent: "runtime_ok db \<Longrightarrow> spent_cost db ref = charged db ref"
  by (rule spent_cost_exact) (simp_all add: runtime_ok_rows less_trans [OF charged_small])

lemma charged_eqI: "rt_attempts db' = rt_attempts db \<Longrightarrow> charged db' ref = charged db ref"
  by (simp add: charged_def)

lemma runtime_ok_alter:
  assumes "runtime_ok db"
    and "attempts_ok as (cy_cycle_ref ` set (rt_cycles db)) (map (\<lambda>r. if is_stage ref stage r then fs r else r) (rt_stages db))"
    and "\<And>r. r \<in> set (rt_stages db) \<Longrightarrow> is_stage ref stage r \<Longrightarrow> stage_key (fs r) = stage_key r \<and> stage_row_ok (fs r)"
    and "\<And>r. r \<in> set (rt_cycles db) \<Longrightarrow> is_cycle ref r \<Longrightarrow> cy_cycle_ref (fc r) = cy_cycle_ref r \<and> cycle_row_ok (fc r) \<and>
       cy_spent_cost (fc r) = charged (db\<lparr> rt_attempts := as \<rparr>) ref"
    and "\<And>ref'. ref' \<noteq> ref \<Longrightarrow> charged (db\<lparr> rt_attempts := as \<rparr>) ref' = charged db ref'"
  shows "runtime_ok (db\<lparr> rt_attempts := as, rt_stages := map (\<lambda>r. if is_stage ref stage r then fs r else r) (rt_stages db),
    rt_cycles := map (\<lambda>r. if is_cycle ref r then fc r else r) (rt_cycles db) \<rparr>)" (is "runtime_ok ?db")
proof -
  have keys: "map stage_key (rt_stages ?db) = map stage_key (rt_stages db)" "map cy_cycle_ref (rt_cycles ?db) = map cy_cycle_ref (rt_cycles db)"
    using assms(3,4) by auto
  then have refs: "cy_cycle_ref ` set (rt_cycles ?db) = cy_cycle_ref ` set (rt_cycles db)" by (metis list.set_map)
  have ch: "charged ?db r = charged (db\<lparr> rt_attempts := as \<rparr>) r" for r by (simp add: charged_def)
  have "cycle_row_ok c \<and> cy_spent_cost c = charged ?db (cy_cycle_ref c)" if c: "c \<in> set (rt_cycles ?db)" for c
  proof -
    obtain r where r: "r \<in> set (rt_cycles db)" "c = (if is_cycle ref r then fc r else r)" using c by auto
    show ?thesis
    proof (cases "is_cycle ref r")
      case True
      then show ?thesis using assms(4) [OF r(1)] r(2) ch by (simp add: is_cycle_def)
    next
      case False
      then show ?thesis using r assms(1) ch assms(5) by (simp add: is_cycle_def runtime_ok_def)
    qed
  qed
  moreover have "stage_row_ok r" if "r \<in> set (rt_stages ?db)" for r
    using that assms(1,3) by (auto simp: runtime_ok_def)
  ultimately show ?thesis using assms(1,2) unfolding runtime_ok_def keys refs by simp
qed

lemma attempts_ok_map:
  assumes "attempts_ok as cycles stages" and "\<And>a. a \<in> set as \<Longrightarrow> attempt_key (g a) = attempt_key a"
    and "\<And>a. a \<in> set as \<Longrightarrow> ledger_row a \<Longrightarrow> counted stages a \<Longrightarrow> ledger_row (g a) \<and> counted stages' (g a)"
  shows "attempts_ok (map g as) cycles stages'"
proof -
  have "map attempt_key (map g as) = map attempt_key as" using assms(2) by simp
  moreover have "at_cycle_ref (g a) = at_cycle_ref a" if "a \<in> set as" for a
    using assms(2) [OF that] by (simp add: attempt_key_def)
  ultimately show ?thesis using assms(1,3) unfolding attempts_ok_def by (simp del: map_map)
qed

definition final_attempt :: "attempt_row \<Rightarrow> bool" where
  "final_attempt a \<longleftrightarrow> at_status a \<noteq> STAGE_RUNNING \<and> \<not> at_replay_same_attempt a"

definition terminal_stage :: "stage_row \<Rightarrow> bool" where
  "terminal_stage s \<longleftrightarrow> sg_status s \<in> {STAGE_SUCCEEDED, STAGE_SUPPRESSED}"

definition every_row :: "('a \<Rightarrow> 'a \<Rightarrow> bool) \<Rightarrow> 'a list \<Rightarrow> 'a list \<Rightarrow> bool" where
  "every_row R xs ys \<longleftrightarrow> (\<forall>x \<in> set xs. \<exists>y \<in> set ys. R x y)"

definition stage_le :: "stage_row \<Rightarrow> stage_row \<Rightarrow> bool" where
  "stage_le s s' \<longleftrightarrow> stage_key s' = stage_key s \<and> sg_attempt_count s \<le> sg_attempt_count s' \<and> (terminal_stage s \<longrightarrow> s' = s)"

definition same_cycle :: "cycle_row \<Rightarrow> cycle_row \<Rightarrow> bool" where
  "same_cycle c c' \<longleftrightarrow> cy_cycle_ref c' = cy_cycle_ref c \<and> cy_opportunity_key c' = cy_opportunity_key c \<and>
     cy_config_fingerprint c' = cy_config_fingerprint c"

definition progress :: "runtime_db \<Rightarrow> runtime_db \<Rightarrow> bool" where
  \<comment> \<open>settled attempts and finished stages stay as they are, stages only count up, cycles are kept\<close>
  "progress db db' \<longleftrightarrow> (\<forall>a \<in> set (rt_attempts db). final_attempt a \<longrightarrow> a \<in> set (rt_attempts db')) \<and>
     every_row stage_le (rt_stages db) (rt_stages db') \<and> every_row same_cycle (rt_cycles db) (rt_cycles db')"

lemma every_row_refl: "(\<And>x. R x x) \<Longrightarrow> every_row R xs xs"
  by (auto simp: every_row_def)

lemma every_row_append: "(\<And>x. R x x) \<Longrightarrow> every_row R xs (xs @ ys)"
  by (auto simp: every_row_def)

lemma every_row_trans: "transp R \<Longrightarrow> every_row R xs ys \<Longrightarrow> every_row R ys zs \<Longrightarrow> every_row R xs zs"
  unfolding every_row_def by (meson transpD)

lemma every_row_map:
  assumes "\<And>x. x \<in> set xs \<Longrightarrow> R x (h x)"
  shows "every_row R xs (map h xs)"
  using assms by (auto simp: every_row_def)

lemma row_order [simp]: "stage_le s s" "same_cycle c c"
  by (simp_all add: stage_le_def same_cycle_def)

lemma transp_rows: "transp stage_le" "transp same_cycle"
  by (auto simp: transp_def stage_le_def same_cycle_def)

lemma progress_refl: "progress db db"
  by (simp add: progress_def every_row_refl)

lemma progress_trans: "progress a b \<Longrightarrow> progress b c \<Longrightarrow> progress a c"
  unfolding progress_def using every_row_trans [OF transp_rows(1)] every_row_trans [OF transp_rows(2)] by blast

lemma progress_alter:
  assumes "\<And>a. a \<in> set (rt_attempts db) \<Longrightarrow> final_attempt a \<Longrightarrow> a \<in> set as"
    and "\<And>r. r \<in> set (rt_stages db) \<Longrightarrow> is_stage ref stage r \<Longrightarrow> stage_key (fs r) = stage_key r \<and>
       sg_attempt_count r \<le> sg_attempt_count (fs r) \<and> \<not> terminal_stage r"
    and "\<And>r. same_cycle r (fc r)"
  shows "progress db (db\<lparr> rt_attempts := as, rt_stages := map (\<lambda>r. if is_stage ref stage r then fs r else r) (rt_stages db),
    rt_cycles := map (\<lambda>r. if is_cycle ref r then fc r else r) (rt_cycles db) \<rparr>)"
  using assms unfolding progress_def by (auto intro!: every_row_map simp: stage_le_def)

lemma find_row_unique:
  assumes "inj_on k (set xs)" and "List.find P xs = Some x" and "\<And>y. y \<in> set xs \<Longrightarrow> P y \<Longrightarrow> k y = c" and "y \<in> set xs" and "P y"
  shows "y = x"
  using assms find_Some_set [OF assms(2)] by (metis inj_onD)

lemma found_stage:
  assumes "runtime_ok db" and "List.find (is_stage ref stage) (rt_stages db) = Some row" and "r \<in> set (rt_stages db)" and "is_stage ref stage r"
  shows "r = row"
  by (rule find_row_unique [OF runtime_ok_rows(4) [OF assms(1)] assms(2), of "(ref, stage)"])
     (use assms in \<open>auto simp: is_stage_def stage_key_def\<close>)

lemma found_attempt:
  assumes "runtime_ok db" and "List.find (is_attempt ref stage n) (rt_attempts db) = Some a" and "r \<in> set (rt_attempts db)" and "is_attempt ref stage n r"
  shows "r = a"
  by (rule find_row_unique [OF runtime_ok_rows(3) [OF assms(1)] assms(2), of "(ref, stage, n)"])
     (use assms in \<open>auto simp: is_attempt_def attempt_key_def\<close>)

lemma counted_alter:
  assumes c: "counted stages a"
    and only: "\<And>r. r \<in> set stages \<Longrightarrow> is_stage ref stage r \<Longrightarrow> r = row"
    and keys: "attempt_key a' = attempt_key a" "stage_key (fs row) = stage_key row"
    and outside: "(at_cycle_ref a, at_stage a) \<noteq> (ref, stage) \<Longrightarrow> at_status a' = at_status a"
    and inside: "(at_cycle_ref a, at_stage a) = (ref, stage) \<Longrightarrow> at_attempt_count a \<le> sg_attempt_count row \<Longrightarrow>
       (at_status a = STAGE_RUNNING \<Longrightarrow> sg_status row = STAGE_RUNNING \<and> at_attempt_count a = sg_attempt_count row) \<Longrightarrow>
       at_attempt_count a \<le> sg_attempt_count (fs row) \<and>
       (at_status a' = STAGE_RUNNING \<longrightarrow> sg_status (fs row) = STAGE_RUNNING \<and> at_attempt_count a = sg_attempt_count (fs row))"
  shows "counted (map (\<lambda>r. if is_stage ref stage r then fs r else r) stages) a'"
proof -
  obtain s where s: "s \<in> set stages" "stage_key s = (at_cycle_ref a, at_stage a)" "at_attempt_count a \<le> sg_attempt_count s"
      "at_status a = STAGE_RUNNING \<Longrightarrow> sg_status s = STAGE_RUNNING \<and> at_attempt_count a = sg_attempt_count s"
    using c by (auto simp: counted_def)
  have k: "at_cycle_ref a' = at_cycle_ref a" "at_stage a' = at_stage a" "at_attempt_count a' = at_attempt_count a"
    using keys(1) by (auto simp: attempt_key_def)
  show ?thesis
  proof (cases "is_stage ref stage s")
    case True
    then have row: "s = row" "(at_cycle_ref a, at_stage a) = (ref, stage)"
      using only [OF s(1)] s(2) by (auto simp: is_stage_def stage_key_def)
    have new: "at_attempt_count a \<le> sg_attempt_count (fs row) \<and>
      (at_status a' = STAGE_RUNNING \<longrightarrow> sg_status (fs row) = STAGE_RUNNING \<and> at_attempt_count a = sg_attempt_count (fs row))"
      by (rule inside) (use row s in auto)
    have "fs row \<in> set (map (\<lambda>r. if is_stage ref stage r then fs r else r) stages)" using True row s(1) by auto
    then show ?thesis unfolding counted_def using new k keys(2) row s(2) by (intro bexI) auto
  next
    case False
    then have "at_status a' = at_status a" using outside s(2) by (auto simp: is_stage_def stage_key_def)
    moreover have "s \<in> set (map (\<lambda>r. if is_stage ref stage r then fs r else r) stages)" using False s(1) by force
    ultimately show ?thesis unfolding counted_def using k s by (intro bexI) auto
  qed
qed

lemma restart_ok:
  assumes ok: "runtime_ok db" and row: "List.find (is_stage ref stage) (rt_stages db) = Some row"
    and status: "sg_status row \<notin> {STAGE_SUCCEEDED, STAGE_SUPPRESSED, STAGE_RUNNING}"
    and run: "restart_stage db ref stage row t = Inr db'"
  shows "runtime_ok db' \<and> progress db db'"
proof -
  let ?fs = "\<lambda>s. s\<lparr> sg_status := STAGE_RUNNING, sg_attempt_count := sg_attempt_count row + 1,
    sg_plan_ref := None, sg_command := None, sg_argument_fingerprint := None, sg_reserved_cost := 0,
    sg_observed_cost := 0, sg_reason_codes := [], sg_retry_at := None, sg_replay_same_attempt := False,
    sg_started_at := Some t, sg_completed_at := None, sg_updated_at := t \<rparr>"
  let ?fc = "\<lambda>c. c\<lparr> cy_status := CYCLE_RUNNING, cy_next_stage := Some stage, cy_last_reason_code := None,
    cy_completed_at := None, cy_updated_at := t \<rparr>"
  have db': "db' = db\<lparr> rt_attempts := rt_attempts db, rt_stages := map (\<lambda>r. if is_stage ref stage r then ?fs r else r) (rt_stages db),
      rt_cycles := map (\<lambda>r. if is_cycle ref r then ?fc r else r) (rt_cycles db) \<rparr>"
    and rows: "\<forall>r \<in> set (rt_stages db). is_stage ref stage r \<longrightarrow> stage_row_ok (?fs r)"
      "\<forall>r \<in> set (rt_cycles db). is_cycle ref r \<longrightarrow> cycle_row_ok (?fc r)"
    using run by (auto simp: restart_stage_def statement_Inr)
  have same: "r = row" if "r \<in> set (rt_stages db)" "is_stage ref stage r" for r
    using found_stage [OF ok row that] .
  have "attempts_ok (map id (rt_attempts db)) (cy_cycle_ref ` set (rt_cycles db)) (map (\<lambda>r. if is_stage ref stage r then ?fs r else r) (rt_stages db))"
  proof (rule attempts_ok_map)
    fix a assume "a \<in> set (rt_attempts db)" "ledger_row a" "counted (rt_stages db) a"
    then show "ledger_row (id a) \<and> counted (map (\<lambda>r. if is_stage ref stage r then ?fs r else r) (rt_stages db)) (id a)"
      using status by (intro conjI counted_alter [where a = a, OF _ same]) (auto simp: stage_key_def)
  qed (use ok in \<open>auto simp: runtime_ok_def\<close>)
  then have "runtime_ok db'" unfolding db' using rows ok
    by (intro runtime_ok_alter) (auto simp: stage_key_def runtime_ok_def charged_def is_cycle_def)
  moreover have "progress db db'" unfolding db'
    by (rule progress_alter) (use same status in \<open>auto simp: stage_key_def terminal_stage_def same_cycle_def\<close>)
  ultimately show ?thesis ..
qed

lemma replay_ok:
  assumes ok: "runtime_ok db" and row: "List.find (is_stage ref stage) (rt_stages db) = Some row"
    and status: "sg_status row = STAGE_WAITING"
    and run: "replay_stage db ref stage row t = Inr db'"
  shows "runtime_ok db' \<and> progress db db'"
proof -
  let ?fa = "\<lambda>a. a\<lparr> at_status := STAGE_RUNNING, at_retry_at := None, at_replay_same_attempt := False, at_completed_at := None \<rparr>"
  let ?fs = "\<lambda>s. s\<lparr> sg_status := STAGE_RUNNING, sg_reason_codes := [], sg_retry_at := None,
    sg_replay_same_attempt := False, sg_completed_at := None, sg_updated_at := t \<rparr>"
  let ?fc = "\<lambda>c. c\<lparr> cy_status := CYCLE_RUNNING, cy_last_reason_code := None, cy_updated_at := t \<rparr>"
  let ?g = "\<lambda>a. if is_attempt ref stage (sg_attempt_count row) a then ?fa a else a"
  have db': "db' = db\<lparr> rt_attempts := map ?g (rt_attempts db),
      rt_stages := map (\<lambda>r. if is_stage ref stage r then ?fs r else r) (rt_stages db),
      rt_cycles := map (\<lambda>r. if is_cycle ref r then ?fc r else r) (rt_cycles db) \<rparr>"
    and rows: "\<forall>r \<in> set (rt_stages db). is_stage ref stage r \<longrightarrow> stage_row_ok (?fs r)"
      "\<forall>r \<in> set (rt_cycles db). is_cycle ref r \<longrightarrow> cycle_row_ok (?fc r)"
      "\<forall>r \<in> set (rt_attempts db). is_attempt ref stage (sg_attempt_count row) r \<longrightarrow> attempt_row_ok (?fa r)"
    using run by (auto simp: replay_stage_def statement_Inr)
  obtain a where a: "List.find (is_attempt ref stage (sg_attempt_count row)) (rt_attempts db) = Some a" "at_replay_same_attempt a"
    using run by (auto simp: replay_stage_def statement_Inr)
  have same: "r = row" if "r \<in> set (rt_stages db)" "is_stage ref stage r" for r
    using found_stage [OF ok row that] .
  have same_attempt: "r = a" if "r \<in> set (rt_attempts db)" "is_attempt ref stage (sg_attempt_count row) r" for r
    using found_attempt [OF ok a(1) that] .
  have "attempts_ok (map ?g (rt_attempts db)) (cy_cycle_ref ` set (rt_cycles db)) (map (\<lambda>r. if is_stage ref stage r then ?fs r else r) (rt_stages db))"
  proof (rule attempts_ok_map)
    fix a assume "a \<in> set (rt_attempts db)" "ledger_row a" "counted (rt_stages db) a"
    then show "ledger_row (?g a) \<and> counted (map (\<lambda>r. if is_stage ref stage r then ?fs r else r) (rt_stages db)) (?g a)"
      using rows(3) \<open>a \<in> _\<close> status
      by (intro conjI counted_alter [where a = a, OF _ same]) (auto simp: stage_key_def is_attempt_def ledger_row_def attempt_key_def)
  qed (use ok in \<open>auto simp: runtime_ok_def attempt_key_def\<close>)
  moreover have "charge_of r (?g a) = charge_of r a" for r a by (simp add: charge_of_def charge_def)
  then have "charged (db\<lparr> rt_attempts := map ?g (rt_attempts db) \<rparr>) r = charged db r" for r
    by (simp add: charged_def comp_def)
  ultimately have "runtime_ok db'" unfolding db' using rows ok
    by (intro runtime_ok_alter) (auto simp: stage_key_def runtime_ok_def is_cycle_def)
  moreover have "progress db db'" unfolding db'
    by (rule progress_alter)
       (use same same_attempt status a(2) in \<open>auto simp: stage_key_def terminal_stage_def same_cycle_def final_attempt_def\<close>)
  ultimately show ?thesis ..
qed

lemma bind_proposal_ok:
  assumes ok: "runtime_ok db" and run: "bind_stage_proposal db now ref stage snap proposal owner token stamp = Inr (q, db')"
  shows "runtime_ok db' \<and> progress db db'"
  using run
proof (cases rule: bind_cases)
  case kept
  then show ?thesis using ok by (simp add: progress_refl)
next
  case (bound a db1)
  let ?fa = "\<lambda>r. r\<lparr> at_proposal := Some proposal \<rparr>"
  let ?g = "\<lambda>a. if is_attempt ref stage (ss_attempt_count snap) a then ?fa a else a"
  let ?fs = "\<lambda>s. s\<lparr> sg_plan_ref := Some (rp_plan_ref proposal), sg_command := Some (rp_command proposal),
    sg_argument_fingerprint := Some (rp_argument_fingerprint proposal), sg_updated_at := instant_of stamp \<rparr>"
  have db': "db' = db\<lparr> rt_attempts := map ?g (rt_attempts db),
      rt_stages := map (\<lambda>r. if is_stage ref stage r then ?fs r else r) (rt_stages db),
      rt_cycles := map (\<lambda>r. if is_cycle ref r then r else r) (rt_cycles db) \<rparr>"
    and rows: "\<forall>r \<in> set (rt_stages db). is_stage ref stage r \<longrightarrow> stage_row_ok (?fs r)"
    using bound(4,5) by (cases db, simp_all add: statement_Inr)
  obtain row where row: "List.find (is_stage ref stage) (rt_stages db) = Some row" "sg_status row = STAGE_RUNNING"
    using bound by auto
  have same: "r = row" if "r \<in> set (rt_stages db)" "is_stage ref stage r" for r
    using found_stage [OF ok row(1) that] .
  have same_attempt: "r = a" if "r \<in> set (rt_attempts db)" "is_attempt ref stage (ss_attempt_count snap) r" for r
    using found_attempt [OF ok bound(1) that] .
  have "attempts_ok (map ?g (rt_attempts db)) (cy_cycle_ref ` set (rt_cycles db)) (map (\<lambda>r. if is_stage ref stage r then ?fs r else r) (rt_stages db))"
  proof (rule attempts_ok_map)
    fix a assume "a \<in> set (rt_attempts db)" "ledger_row a" "counted (rt_stages db) a"
    then show "ledger_row (?g a) \<and> counted (map (\<lambda>r. if is_stage ref stage r then ?fs r else r) (rt_stages db)) (?g a)"
      using row(2)
      by (intro conjI counted_alter [where a = a, OF _ same]) (auto simp: stage_key_def ledger_row_def attempt_row_ok_def attempt_key_def)
  qed (use ok in \<open>auto simp: runtime_ok_def attempt_key_def\<close>)
  moreover have "charge_of r (?g a) = charge_of r a" for r a by (simp add: charge_of_def charge_def)
  then have "charged (db\<lparr> rt_attempts := map ?g (rt_attempts db) \<rparr>) r = charged db r" for r
    by (simp add: charged_def comp_def)
  ultimately have "runtime_ok db'" unfolding db' using rows ok
    by (intro runtime_ok_alter) (auto simp: stage_key_def runtime_ok_def is_cycle_def)
  moreover have "progress db db'" unfolding db'
    by (rule progress_alter)
       (use same same_attempt row(2) bound(2) in \<open>auto simp: stage_key_def terminal_stage_def same_cycle_def final_attempt_def\<close>)
  ultimately show ?thesis ..
qed

lemma counted_same:
  assumes "counted stages a" and "\<And>s. s \<in> set stages \<Longrightarrow> stage_key (h s) = stage_key s \<and> sg_attempt_count (h s) = sg_attempt_count s \<and> sg_status (h s) = sg_status s"
  shows "counted (map h stages) a"
  using assms unfolding counted_def by (auto 0 4)

lemma booked_total:
  assumes ok: "runtime_ok db" and cost: "on_grid 6 cost" "0 \<le> cost" "cost \<le> 50"
  shows "dec_add (spent_cost db ref) cost = charged db ref + cost" "cost_column (charged db ref + cost) = charged db ref + cost"
    "cost_column cost = cost"
proof -
  have c: "on_grid 6 (charged db ref)" "0 \<le> charged db ref" "charged db ref < 10 ^ 6"
    using charged_grid runtime_ok_rows(1) [OF ok] charged_small [OF ok] by blast+
  then show "dec_add (spent_cost db ref) cost = charged db ref + cost"
    unfolding dec_add_def runtime_spent [OF ok] using cost by (intro ctx_exact_grid [of 6] on_grid_add) auto
  show "cost_column (charged db ref + cost) = charged db ref + cost" "cost_column cost = cost"
    unfolding cost_column_def using c cost by (auto intro!: num_round_id on_grid_add)
qed

lemma book_ok:
  assumes ok: "runtime_ok db" and cost: "on_grid 6 cost"
    and row: "List.find (is_stage ref stage) (rt_stages db) = Some row" "sg_status row = STAGE_RUNNING"
    and new: "attempts_ok as (cy_cycle_ref ` set (rt_cycles db)) (rt_stages db)"
    and sum: "0 \<le> cost \<Longrightarrow> cost \<le> 50 \<Longrightarrow> charged (db\<lparr> rt_attempts := as \<rparr>) ref = charged db ref + cost"
      "\<And>r. r \<noteq> ref \<Longrightarrow> charged (db\<lparr> rt_attempts := as \<rparr>) r = charged db r"
    and kept: "\<And>a. a \<in> set (rt_attempts db) \<Longrightarrow> final_attempt a \<Longrightarrow> a \<in> set as"
    and run: "book_reservation (db\<lparr> rt_attempts := as \<rparr>) ref stage cost (spent_cost db ref) t = Inr (r, db')"
  shows "runtime_ok db' \<and> progress db db' \<and> charged db' ref = charged db ref + cost \<and> 0 \<le> cost"
proof -
  have range: "0 \<le> cost" "cost \<le> 50"
    using run by (auto simp: book_Inr reserved_with_def RuntimeStageReservation_def cost_in_range_def split: if_split_asm)
  let ?fs = "\<lambda>s. s\<lparr> sg_reserved_cost := cost_column cost, sg_updated_at := t \<rparr>"
  let ?fc = "\<lambda>c. c\<lparr> cy_spent_cost := charged db ref + cost, cy_updated_at := t \<rparr>"
  have db': "db' = db\<lparr> rt_attempts := as, rt_stages := map (\<lambda>r. if is_stage ref stage r then ?fs r else r) (rt_stages db),
      rt_cycles := map (\<lambda>r. if is_cycle ref r then ?fc r else r) (rt_cycles db) \<rparr>"
    and rows: "\<forall>r \<in> set (rt_stages db). is_stage ref stage r \<longrightarrow> stage_row_ok (?fs r)"
      "\<forall>r \<in> set (rt_cycles db). is_cycle ref r \<longrightarrow> cycle_row_ok (?fc r)"
    using run booked_total [OF ok cost range] by (auto simp: book_Inr statement_Inr)
  have same: "r = row" if "r \<in> set (rt_stages db)" "is_stage ref stage r" for r
    using found_stage [OF ok row(1) that] .
  have "attempts_ok as (cy_cycle_ref ` set (rt_cycles db)) (map (\<lambda>r. if is_stage ref stage r then ?fs r else r) (rt_stages db))"
    using new unfolding attempts_ok_def by (auto intro!: counted_same simp: stage_key_def)
  then have "runtime_ok db'" unfolding db' using rows sum(1) [OF range] sum(2)
    by (intro runtime_ok_alter [OF ok]) (auto simp: stage_key_def)
  moreover have "progress db db'" unfolding db'
    by (rule progress_alter) (use same row(2) kept in \<open>auto simp: stage_key_def terminal_stage_def same_cycle_def\<close>)
  moreover have "charged db' ref = charged db ref + cost" unfolding db' using sum(1) [OF range] by (simp add: charged_def)
  ultimately show ?thesis using range by blast
qed

lemma reserve_row:
  assumes "reserve_stage_cost db now ref stage snap cost maximum owner token stamp = Inr (r, db')"
  obtains row where "List.find (is_stage ref stage) (rt_stages db) = Some row" "sg_status row = STAGE_RUNNING"
    "sg_attempt_count row = ss_attempt_count snap" "ref \<in> cy_cycle_ref ` set (rt_cycles db)"
proof -
  obtain row c where "List.find (is_stage ref stage) (rt_stages db) = Some row" "sg_status row = STAGE_RUNNING"
      "sg_attempt_count row = ss_attempt_count snap" "List.find (is_cycle ref) (rt_cycles db) = Some c"
    using assms by (auto simp: reserve_stage_cost_def one_or_Inr)
  moreover from this(4) have "ref \<in> cy_cycle_ref ` set (rt_cycles db)" by (auto simp: is_cycle_def dest!: find_Some_set)
  ultimately show thesis using that by blast
qed

lemma charged_update:
  assumes "runtime_ok db" and "a \<in> set (rt_attempts db)" and "\<And>y. y \<in> set (rt_attempts db) \<Longrightarrow> P y \<longleftrightarrow> y = a"
  shows "charged (db\<lparr> rt_attempts := map (\<lambda>y. if P y then f y else y) (rt_attempts db) \<rparr>) r =
    charged db r - charge_of r a + charge_of r (f a)"
  using sum_update_one [OF runtime_ok_rows(2) [OF assms(1)] assms(2,3), of "charge_of r" f] by (simp add: charged_def)

lemma reserve_range:
  "reserve_stage_cost db now ref stage snap cost maximum owner token stamp = Inr (r, db') \<Longrightarrow> sr_accepted r \<Longrightarrow> sr_created r \<Longrightarrow>
   0 \<le> cost \<and> cost \<le> 50"
  by (erule reserve_cases)
     (auto simp: book_Inr reserved_with_def RuntimeStageReservation_def cost_in_range_def split: if_split_asm)

lemma reserve_cost_ok:
  assumes ok: "runtime_ok db" and cost: "on_grid 6 cost"
    and run: "reserve_stage_cost db now ref stage snap cost maximum owner token stamp = Inr (r, db')"
  shows "runtime_ok db' \<and> progress db db' \<and>
    (if sr_accepted r \<and> sr_created r
     then charged db' ref = charged db ref + cost \<and> charged db' ref \<le> maximum \<and> sr_total_cycle_cost r = charged db' ref
     else db' = db \<and> sr_total_cycle_cost r = charged db ref \<and> (sr_accepted r \<or> maximum < charged db ref + cost))"
proof -
  obtain row where row: "List.find (is_stage ref stage) (rt_stages db) = Some row" "sg_status row = STAGE_RUNNING"
      "sg_attempt_count row = ss_attempt_count snap" "ref \<in> cy_cycle_ref ` set (rt_cycles db)"
    using reserve_row [OF run] .
  let ?n = "ss_attempt_count snap"
  have ledger: "attempts_ok (rt_attempts db) (cy_cycle_ref ` set (rt_cycles db)) (rt_stages db)"
    using ok by (simp add: runtime_ok_def)
  show ?thesis using run
  proof (cases rule: reserve_cases)
    case refused
    then show ?thesis using ok booked_total [OF ok cost] by (auto simp: progress_refl runtime_spent cost_in_range_def)
  next
    case (replayed a)
    then show ?thesis using ok by (simp add: progress_refl runtime_spent)
  next
    case (filled db1 a)
    let ?P = "\<lambda>x. is_attempt ref stage ?n x \<and> at_status x = STAGE_RUNNING \<and> at_reserved_cost x = 0"
    let ?f = "\<lambda>x. x\<lparr> at_reserved_cost := cost_column cost \<rparr>"
    let ?as = "map (\<lambda>x. if ?P x then ?f x else x) (rt_attempts db)"
    have db1: "db1 = db\<lparr> rt_attempts := ?as \<rparr>" and rows: "\<forall>x \<in> set (rt_attempts db). ?P x \<longrightarrow> attempt_row_ok (?f x)"
      using filled(9) by (auto simp: statement_Inr)
    have a: "a \<in> set (rt_attempts db)" "is_attempt ref stage ?n a" using find_Some_set [OF filled(5)] by auto
    have sum: "charged (db\<lparr> rt_attempts := ?as \<rparr>) r' = charged db r' - charge_of r' a + charge_of r' (?f a)" for r'
    proof (rule charged_update [OF ok a(1)])
      fix y assume "y \<in> set (rt_attempts db)"
      then show "?P y \<longleftrightarrow> y = a" using found_attempt [OF ok filled(5)] a(2) filled(6,7) by blast
    qed
    have "attempts_ok ?as (cy_cycle_ref ` set (rt_cycles db)) (rt_stages db)"
      by (rule attempts_ok_map [OF ledger])
         (use rows in \<open>auto simp: attempt_key_def ledger_row_def counted_def cost_column_def num_round_grid\<close>)
    moreover have "charged (db\<lparr> rt_attempts := ?as \<rparr>) ref = charged db ref + cost" if "0 \<le> cost" "cost \<le> 50"
      unfolding sum using a(2) filled(7,8) booked_total(3) [OF ok cost that] that
      by (simp add: charge_of_def charge_def is_attempt_def)
    moreover have "charged (db\<lparr> rt_attempts := ?as \<rparr>) r' = charged db r'" if "r' \<noteq> ref" for r'
      unfolding sum using a(2) that by (simp add: charge_of_def is_attempt_def)
    moreover have "x \<in> set ?as" if "x \<in> set (rt_attempts db)" "final_attempt x" for x
      using that by (force simp: final_attempt_def)
    ultimately have "runtime_ok db' \<and> progress db db' \<and> charged db' ref = charged db ref + cost \<and> 0 \<le> cost"
      by (rule book_ok [OF ok cost row(1,2) _ _ _ _ filled(10) [unfolded db1]])
    then show ?thesis using filled booked_total(1) [OF ok cost] reserve_range [OF run] by auto
  next
    case (opened a row')
    have a: "attempt_key a = (ref, stage, ?n)" "sg_attempt_count row = at_attempt_count a"
      using opened row by (auto simp: attempt_key_def)
    have "attempt_key a \<notin> attempt_key ` set (rt_attempts db)"
      using opened(7) a by (auto simp: find_None_iff is_attempt_def attempt_key_def)
    moreover have "counted (rt_stages db) a"
      unfolding counted_def using find_Some_set [OF row(1)] row a opened(8,9)
      by (intro bexI [of _ row]) (auto simp: is_stage_def stage_key_def)
    moreover have "ledger_row a" using opened by (simp add: ledger_row_def cost_column_def num_round_grid)
    ultimately have "attempts_ok (rt_attempts db @ [a]) (cy_cycle_ref ` set (rt_cycles db)) (rt_stages db)"
      using ledger opened(8) row(4) by (auto simp: attempts_ok_def)
    moreover have "charged (db\<lparr> rt_attempts := rt_attempts db @ [a] \<rparr>) ref = charged db ref + cost" if "0 \<le> cost" "cost \<le> 50"
      using opened(8,12,13) booked_total(3) [OF ok cost that] that by (simp add: charged_def charge_of_def charge_def)
    moreover have "charged (db\<lparr> rt_attempts := rt_attempts db @ [a] \<rparr>) r' = charged db r'" if "r' \<noteq> ref" for r'
      using opened(8) that by (simp add: charged_def charge_of_def)
    moreover have "x \<in> set (rt_attempts db @ [a])" if "x \<in> set (rt_attempts db)" "final_attempt x" for x using that by simp
    ultimately have "runtime_ok db' \<and> progress db db' \<and> charged db' ref = charged db ref + cost \<and> 0 \<le> cost"
      by (rule book_ok [OF ok cost row(1,2) _ _ _ _ opened(14)])
    then show ?thesis using opened booked_total(1) [OF ok cost] reserve_range [OF run] by auto
  qed
qed

lemma runtime_ok_frame:
  assumes "runtime_ok db" and "rt_cycles db' = rt_cycles db" and "rt_stages db' = rt_stages db" and "rt_attempts db' = rt_attempts db"
  shows "runtime_ok db' \<and> progress db db'"
  using assms by (simp add: runtime_ok_def charged_def progress_def every_row_refl)

lemma settle_attempt_ok:
  assumes ok: "runtime_ok db" and row: "List.find (is_stage ref stage) (rt_stages db) = Some row" "sg_status row = STAGE_RUNNING"
    and fs: "\<And>s. sg_cycle_ref (fs s) = sg_cycle_ref s \<and> sg_stage (fs s) = sg_stage s \<and> sg_attempt_count (fs s) = sg_attempt_count s \<and>
      sg_status (fs s) = ar_status result"
    and run: "settle_attempt db ref stage (sg_attempt_count row) result proposal t = Inr (reserved, db1)"
  shows "db1 = db\<lparr> rt_attempts := rt_attempts db1 \<rparr> \<and>
    attempts_ok (rt_attempts db1) (cy_cycle_ref ` set (rt_cycles db)) (map (\<lambda>r. if is_stage ref stage r then fs r else r) (rt_stages db)) \<and>
    charged db1 ref < 10 ^ 7 \<and> (\<forall>r. r \<noteq> ref \<longrightarrow> charged db1 r = charged db r) \<and>
    (\<forall>a \<in> set (rt_attempts db). final_attempt a \<longrightarrow> a \<in> set (rt_attempts db1))"
proof -
  let ?n = "sg_attempt_count row"
  let ?h = "\<lambda>r. if is_stage ref stage r then fs r else r"
  have ledger: "attempts_ok (rt_attempts db) (cy_cycle_ref ` set (rt_cycles db)) (rt_stages db)"
    using ok by (simp add: runtime_ok_def)
  have same: "r = row" if "r \<in> set (rt_stages db)" "is_stage ref stage r" for r
    using found_stage [OF ok row(1) that] .
  have key: "stage_key (fs row) = stage_key row" using fs by (simp add: stage_key_def)
  show ?thesis using run
  proof (cases rule: settle_cases)
    case (late a)
    have idle: "at_status b \<noteq> STAGE_RUNNING" if b: "b \<in> set (rt_attempts db)" "(at_cycle_ref b, at_stage b) = (ref, stage)" for b
    proof
      assume run: "at_status b = STAGE_RUNNING"
      then obtain s where "s \<in> set (rt_stages db)" "stage_key s = (ref, stage)" "at_attempt_count b = sg_attempt_count s"
        using ledger b by (fastforce simp: attempts_ok_def counted_def)
      then have "at_attempt_count b = ?n" using same by (auto simp: is_stage_def stage_key_def)
      then show False using late(1) b by (auto simp: find_None_iff is_attempt_def)
    qed
    have "attempts_ok (map id (rt_attempts db)) (cy_cycle_ref ` set (rt_cycles db)) (map ?h (rt_stages db))"
    proof (rule attempts_ok_map [OF ledger])
      fix b assume "b \<in> set (rt_attempts db)" "ledger_row b" "counted (rt_stages db) b"
      then show "ledger_row (id b) \<and> counted (map ?h (rt_stages db)) (id b)"
        using fs idle key by (intro conjI counted_alter [where a = b, OF _ same]) auto
    qed simp
    moreover have "attempt_key a \<notin> attempt_key ` set (rt_attempts db)"
      using late(1,2) by (auto simp: find_None_iff is_attempt_def attempt_key_def)
    moreover have "ledger_row a" using late by (simp add: ledger_row_def cost_column_def num_round_grid)
    moreover have "ref \<in> cy_cycle_ref ` set (rt_cycles db)" using late(7) by (auto simp: list_ex_iff is_cycle_def)
    moreover have "counted (map ?h (rt_stages db)) a"
    proof -
      have "fs row \<in> set (map ?h (rt_stages db))" using find_Some_set [OF row(1)] by auto
      moreover have "stage_key row = (ref, stage)" using find_Some_set [OF row(1)] by (simp add: is_stage_def stage_key_def)
      moreover have "at_status a \<noteq> STAGE_RUNNING" using late(3,9) by (auto simp: attempt_row_ok_def)
      ultimately show ?thesis unfolding counted_def using fs key late(2,4) by (intro bexI) (auto simp: is_attempt_def)
    qed
    ultimately have "attempts_ok (rt_attempts db @ [a]) (cy_cycle_ref ` set (rt_cycles db)) (map ?h (rt_stages db))"
      using late(2) by (auto simp: attempts_ok_def is_attempt_def)
    moreover have "charge_of ref a < 10 ^ 6" using ledger_row_charge \<open>ledger_row a\<close> by blast
    then have "charged db1 ref < 10 ^ 7" using charged_small [OF ok, of ref] late(8) by (simp add: charged_def)
    ultimately show ?thesis using late(2,8) by (auto simp: charged_def charge_of_def is_attempt_def)
  next
    case (settled a)
    let ?f = "\<lambda>r. r\<lparr> at_status := ar_status result, at_observed_cost := cost_column (ar_observed_cost result),
      at_retry_at := ar_retry_at result, at_replay_same_attempt := ar_replay_same_attempt result, at_completed_at := Some t \<rparr>"
    let ?P = "\<lambda>r. is_attempt ref stage ?n r \<and> at_status r = STAGE_RUNNING"
    let ?g = "\<lambda>r. if ?P r then ?f r else r"
    have db1: "db1 = db\<lparr> rt_attempts := map ?g (rt_attempts db) \<rparr>"
      and rows: "\<forall>r \<in> set (rt_attempts db). ?P r \<longrightarrow> attempt_row_ok (?f r)"
      using settled(4) by (auto simp: statement_Inr)
    have a: "a \<in> set (rt_attempts db)" "is_attempt ref stage ?n a" using find_Some_set [OF settled(1)] by auto
    have closed: "ar_status result \<noteq> STAGE_RUNNING"
      using rows a settled(2) by (auto simp: attempt_row_ok_def)
    have "attempts_ok (map ?g (rt_attempts db)) (cy_cycle_ref ` set (rt_cycles db)) (map ?h (rt_stages db))"
    proof (rule attempts_ok_map [OF ledger])
      fix b assume b: "b \<in> set (rt_attempts db)" "ledger_row b" "counted (rt_stages db) b"
      have "counted (map ?h (rt_stages db)) (?g b)"
        using b(3) same
      proof (rule counted_alter)
        show "(at_cycle_ref b, at_stage b) \<noteq> (ref, stage) \<Longrightarrow> at_status (?g b) = at_status b" by (auto simp: is_attempt_def)
        assume "(at_cycle_ref b, at_stage b) = (ref, stage)" "at_attempt_count b \<le> ?n"
          "at_status b = STAGE_RUNNING \<Longrightarrow> sg_status row = STAGE_RUNNING \<and> at_attempt_count b = ?n"
        then show "at_attempt_count b \<le> sg_attempt_count (fs row) \<and>
          (at_status (?g b) = STAGE_RUNNING \<longrightarrow> sg_status (fs row) = STAGE_RUNNING \<and> at_attempt_count b = sg_attempt_count (fs row))"
          using fs closed by (auto simp: is_attempt_def)
      qed (use key in \<open>auto simp: attempt_key_def\<close>)
      then show "ledger_row (?g b) \<and> counted (map ?h (rt_stages db)) (?g b)"
        using b rows by (auto simp: ledger_row_def cost_column_def num_round_grid)
    qed (auto simp: attempt_key_def)
    moreover have sum: "charged db1 r = charged db r - charge_of r a + charge_of r (?f a)" for r
      unfolding db1
    proof (rule charged_update [OF ok a(1)])
      fix y assume "y \<in> set (rt_attempts db)"
      then show "?P y \<longleftrightarrow> y = a" using found_attempt [OF ok settled(1)] a(2) settled(2) by blast
    qed
    have "ledger_row a" using ok a(1) runtime_ok_rows(1) by blast
    moreover have "ledger_row (?f a)" using rows a settled(2) \<open>ledger_row a\<close> by (auto simp: ledger_row_def cost_column_def num_round_grid)
    ultimately have "charged db1 ref < 10 ^ 7"
      unfolding sum using charged_small [OF ok, of ref] ledger_row_charge(4) [of a ref] ledger_row_charge(5) [of "?f a" ref] by simp
    moreover have "charged db1 r = charged db r" if "r \<noteq> ref" for r
      unfolding sum using a(2) that by (simp add: charge_of_def is_attempt_def)
    moreover have "x \<in> set (map ?g (rt_attempts db))" if "x \<in> set (rt_attempts db)" "final_attempt x" for x
      using that by (force simp: final_attempt_def)
    ultimately show ?thesis
      using \<open>attempts_ok (map ?g (rt_attempts db)) _ _\<close> unfolding db1 by simp
  qed
qed

lemma finish_stage_ok:
  assumes ok: "runtime_ok db" and run: "finish_stage db now ref stage result owner token stamp proposal = Inr (u, db')"
  shows "runtime_ok db' \<and> progress db db'"
  using run
proof (cases rule: finish_cases)
  case (1 row reserved db1 db2 fs)
  let ?fc = "\<lambda>c. c\<lparr> cy_status := (if ar_status result = STAGE_SUCCEEDED then CYCLE_RUNNING else cycle_of_stage (ar_status result)),
    cy_next_stage := next_stage_after stage (ar_status result), cy_spent_cost := charged db1 ref,
    cy_last_reason_code := (case ar_reason_codes result of [] \<Rightarrow> None | r # _ \<Rightarrow> Some r),
    cy_completed_at := (if ar_status result = STAGE_SUPPRESSED then Some (instant_of stamp) else None),
    cy_updated_at := instant_of stamp \<rparr>"
  note fs = 1(5)
  have "\<And>s. sg_cycle_ref (fs s) = sg_cycle_ref s \<and> sg_stage (fs s) = sg_stage s \<and> sg_attempt_count (fs s) = sg_attempt_count s \<and>
      sg_status (fs s) = ar_status result" using fs by blast
  from settle_attempt_ok [OF ok 1(1,2) this 1(3)] have s:
    "db1 = db\<lparr> rt_attempts := rt_attempts db1 \<rparr>"
    "attempts_ok (rt_attempts db1) (cy_cycle_ref ` set (rt_cycles db)) (map (\<lambda>r. if is_stage ref stage r then fs r else r) (rt_stages db))"
    "charged db1 ref < 10 ^ 7" "\<And>r. r \<noteq> ref \<Longrightarrow> charged db1 r = charged db r"
    "\<And>a. a \<in> set (rt_attempts db) \<Longrightarrow> final_attempt a \<Longrightarrow> a \<in> set (rt_attempts db1)" by blast+
  have tables: "rt_stages db1 = rt_stages db" "rt_cycles db1 = rt_cycles db" by (subst s(1), simp)+
  have rows1: "\<forall>a \<in> set (rt_attempts db1). ledger_row a" using s(2) by (auto simp: attempts_ok_def)
  have db2: "db2 = db1\<lparr> rt_stages := map (\<lambda>r. if is_stage ref stage r then fs r else r) (rt_stages db) \<rparr>"
    and stages: "\<forall>r \<in> set (rt_stages db). is_stage ref stage r \<longrightarrow> stage_row_ok (fs r)"
    using 1(4) by (auto simp: update_stage_Inr tables)
  have "spent_cost db2 ref = spent_cost db1 ref" unfolding db2 by (simp add: spent_cost_def)
  also have "\<dots> = charged db1 ref" by (rule spent_cost_exact [OF rows1]) (use s(3) in simp)
  finally have "cost_column (spent_cost db2 ref) = charged db1 ref"
    using charged_grid [OF rows1] by (simp add: cost_column_def num_round_id)
  then have cycles: "\<forall>r \<in> set (rt_cycles db). is_cycle ref r \<longrightarrow> cycle_row_ok (?fc r)"
    and "db' = db1\<lparr> rt_stages := map (\<lambda>r. if is_stage ref stage r then fs r else r) (rt_stages db),
      rt_cycles := map (\<lambda>r. if is_cycle ref r then ?fc r else r) (rt_cycles db) \<rparr>"
    using 1(6) by (auto simp: update_cycle_Inr db2 tables)
  then have db': "db' = db\<lparr> rt_attempts := rt_attempts db1,
      rt_stages := map (\<lambda>r. if is_stage ref stage r then fs r else r) (rt_stages db),
      rt_cycles := map (\<lambda>r. if is_cycle ref r then ?fc r else r) (rt_cycles db) \<rparr>" by (subst (asm) s(1)) simp
  have same: "r = row" if "r \<in> set (rt_stages db)" "is_stage ref stage r" for r
    using found_stage [OF ok 1(1) that] .
  have "runtime_ok db'" unfolding db'
    by (rule runtime_ok_alter [OF ok s(2)]) (use stages cycles fs s in \<open>auto simp: stage_key_def charged_def\<close>)
  moreover have "progress db db'" unfolding db'
    by (rule progress_alter) (use same 1(2) s(5) fs in \<open>auto simp: stage_key_def terminal_stage_def same_cycle_def\<close>)
  ultimately show ?thesis ..
qed

lemma cycle_update_ok:
  assumes ok: "runtime_ok db" and run: "update_cycle ref f db = Inr db'"
    and f: "\<And>c. same_cycle c (f c) \<and> cy_spent_cost (f c) = cy_spent_cost c"
  shows "runtime_ok db' \<and> progress db db'"
proof -
  let ?h = "\<lambda>r. if is_cycle ref r then f r else r"
  have db': "db' = db\<lparr> rt_cycles := map ?h (rt_cycles db) \<rparr>" and rows: "\<forall>r \<in> set (rt_cycles db). is_cycle ref r \<longrightarrow> cycle_row_ok (f r)"
    using run by (auto simp: update_cycle_Inr)
  have key: "cy_cycle_ref (?h r) = cy_cycle_ref r" for r using f [of r] by (simp add: same_cycle_def)
  then have keys: "map cy_cycle_ref (map ?h (rt_cycles db)) = map cy_cycle_ref (rt_cycles db)" by simp
  moreover have "cy_cycle_ref ` set (map ?h (rt_cycles db)) = cy_cycle_ref ` set (rt_cycles db)"
    using arg_cong [OF keys, of set] by (simp only: list.set_map)
  moreover have "cycle_row_ok c \<and> cy_spent_cost c = charged db (cy_cycle_ref c)" if c: "c \<in> set (map ?h (rt_cycles db))" for c
  proof -
    obtain r where r: "r \<in> set (rt_cycles db)" "c = ?h r" using c by auto
    then show ?thesis using rows ok f [of r] key [of r] by (auto simp: runtime_ok_def)
  qed
  ultimately have "runtime_ok db'" using ok unfolding db' runtime_ok_def by (simp add: charged_def del: map_map)
  moreover have "progress db db'" unfolding db' progress_def using f by (auto intro!: every_row_map every_row_refl)
  ultimately show ?thesis ..
qed

lemma create_ok:
  assumes ok: "runtime_ok db" and run: "create_cycle db key fp t = Inr (c, db')"
  shows "runtime_ok db' \<and> progress db db'"
proof -
  define row where "row = new_cycle key fp t"
  define ref where "ref = cy_cycle_ref row"
  define missing where "missing = filter (\<lambda>s. \<not> list_ex (is_stage ref s) (rt_stages db)) STAGES"
  define new where "new = map (new_stage ref t) missing"
  obtain cycles where cycles: "cycles = rt_cycles db \<or> cycles = rt_cycles db @ [row] \<and> cycle_row_ok row \<and> \<not> list_ex (is_cycle ref) (rt_cycles db)"
      "db' = db\<lparr> rt_cycles := cycles, rt_stages := rt_stages db @ new \<rparr>" "missing = [] \<or> list_ex (is_cycle ref) cycles"
    using run unfolding create_cycle_def Let_def row_def [symmetric] ref_def [symmetric] missing_def [symmetric] new_def [symmetric]
    by (cases db) (auto split: if_split_asm)
  have rows: "\<forall>c \<in> set cycles. cycle_row_ok c \<and> cy_spent_cost c = charged db (cy_cycle_ref c)"
  proof -
    have "charged db ref = 0" if "\<not> list_ex (is_cycle ref) (rt_cycles db)"
      by (rule charged_absent [OF ok]) (use that in \<open>auto simp: list_ex_iff is_cycle_def\<close>)
    then show ?thesis using cycles(1) ok by (auto simp: runtime_ok_def ref_def row_def new_cycle_def)
  qed
  have "s \<in> set missing \<Longrightarrow> text_fits 64 ref" for s
    using cycles(3) rows by (auto simp: list_ex_iff is_cycle_def cycle_row_ok_def)
  then have stage_rows: "\<forall>s \<in> set new. stage_row_ok s"
    by (auto simp: new_def new_stage_def stage_row_ok_def text_opt_def integer_ok_def cost_ok_def retry_shape_def)
  have "distinct (map stage_key (rt_stages db @ new))"
  proof -
    have "distinct (map stage_key new)"
      by (simp add: new_def missing_def stage_key_def new_stage_def distinct_map distinct_STAGES inj_on_def)
    moreover have "stage_key s \<notin> stage_key ` set (rt_stages db)" if "s \<in> set new" for s
      using that by (auto simp: new_def missing_def stage_key_def new_stage_def list_ex_iff is_stage_def)
    ultimately show ?thesis using ok by (auto simp: runtime_ok_def image_iff)
  qed
  moreover have "distinct (map cy_cycle_ref cycles)"
    using cycles(1) ok by (force simp: runtime_ok_def ref_def list_ex_iff is_cycle_def)
  moreover have "attempts_ok (rt_attempts db) (cy_cycle_ref ` set cycles) (rt_stages db @ new)"
  proof -
    have "cy_cycle_ref ` set (rt_cycles db) \<subseteq> cy_cycle_ref ` set cycles" using cycles(1) by auto
    then show ?thesis using ok by (fastforce simp: runtime_ok_def attempts_ok_def counted_def)
  qed
  ultimately have "runtime_ok db'"
    unfolding cycles(2) runtime_ok_def using rows stage_rows ok by (auto simp: charged_def runtime_ok_def)
  moreover have "progress db db'"
    unfolding cycles(2) progress_def using cycles(1) by (auto intro: every_row_append every_row_refl)
  ultimately show ?thesis ..
qed

fun exact_cost :: "runtime_op \<Rightarrow> bool" where
  \<comment> \<open>a reservation names at most six decimals, as the columns hold\<close>
  "exact_cost (ReserveCost now ref stage snapshot cost maximum owner token stamp) \<longleftrightarrow> on_grid 6 cost"
| "exact_cost _ \<longleftrightarrow> True"

fun is_lease_op :: "runtime_op \<Rightarrow> bool" where
  "is_lease_op (Acquire now owner stamp secs) \<longleftrightarrow> True"
| "is_lease_op (Heartbeat now owner token stamp secs) \<longleftrightarrow> True"
| "is_lease_op (Protect now owner token secs outcome) \<longleftrightarrow> True"
| "is_lease_op (Release owner token stamp) \<longleftrightarrow> True"
| "is_lease_op (ObserveRuntime now owner cap token stamp) \<longleftrightarrow> True"
| "is_lease_op (ObserveCycle now owner ref token stamp) \<longleftrightarrow> True"
| "is_lease_op _ \<longleftrightarrow> False"

lemma lease_op_frame:
  assumes "is_lease_op p" and "op_result p db = Inr db'"
  shows "rt_cycles db' = rt_cycles db" and "rt_stages db' = rt_stages db" and "rt_attempts db' = rt_attempts db"
  using assms
  by (auto simp: acquire_lease_def heartbeat_lease_def protect_def release_lease_def record_runtime_observation_def
      record_cycle_observation_def extend_lease_Inr Let_def elim!: is_lease_op.elims(2)
      split: if_split_asm option.split_asm sum.split_asm)

lemma runtime_step:
  assumes ok: "runtime_ok db" and "exact_cost p" and run: "op_result p db = Inr db'"
  shows "runtime_ok db' \<and> progress db db'"
proof (cases "is_lease_op p")
  case True
  then show ?thesis by (intro runtime_ok_frame [OF ok] lease_op_frame [OF _ run])
next
  case False
  then show ?thesis
  proof (cases p)
  case (Abandon ref reason stamp)
  then have "db' = db \<or> (\<exists>f. update_cycle ref f db = Inr db' \<and> (\<forall>c. same_cycle c (f c) \<and> cy_spent_cost (f c) = cy_spent_cost c))"
    using run by (fastforce simp: abandon_cycle_def same_cycle_def split: if_split_asm)
  then show ?thesis using ok progress_refl cycle_update_ok [OF ok] by blast
next
  case (Resume now owner token keys fp stamp)
  then obtain c where "resume_or_create_cycle db now owner token keys fp stamp = Inr (c, db')" using run by auto
  then show ?thesis by (cases rule: resume_cases) (auto simp: ok progress_refl dest: create_ok [OF ok])
next
  case (FinishCycle now ref status owner token stamp reason)
  then have "\<exists>f. update_cycle ref f db = Inr db' \<and> (\<forall>c. same_cycle c (f c) \<and> cy_spent_cost (f c) = cy_spent_cost c)"
    using run by (fastforce simp: finish_cycle_def same_cycle_def split: if_split_asm)
  then show ?thesis using cycle_update_ok [OF ok] by blast
next
  case (BeginStage now ref stage owner token stamp)
  then obtain s where "begin_stage db now ref stage owner token stamp = Inr (s, db')" using run by auto
  then show ?thesis
    by (cases rule: begin_cases) (use ok in \<open>auto simp: progress_refl dest: replay_ok restart_ok\<close>)
next
  case (ReserveCost now ref stage snap cost maximum owner token stamp)
  then show ?thesis using run assms(2) reserve_cost_ok [OF ok] by auto
next
  case (BindProposal now ref stage snap proposal owner token stamp)
  then show ?thesis using run bind_proposal_ok [OF ok] by auto
next
  case (FinishStage now ref stage result owner token stamp proposal)
  then show ?thesis using run finish_stage_ok [OF ok] by auto
  qed simp_all
qed

interpretation ledger: runtime_contract runtime_ok exact_cost progress
  by unfold_locales (use progress_refl progress_trans runtime_step in blast)+

section \<open>What a history keeps\<close>

definition sample_cycle :: cycle_row where
  "sample_cycle = \<lparr> cy_cycle_ref = ''c1'', cy_opportunity_key = ''tender:1'', cy_config_fingerprint = replicate 64 CHR ''a'',
     cy_status = CYCLE_RUNNING, cy_next_stage = Some STAGE_SUPPLIER_DISCOVERY, cy_spent_cost = 3 / 2,
     cy_last_reason_code = None, cy_started_at = 0, cy_updated_at = 0, cy_completed_at = None \<rparr>"

definition sample_settled :: attempt_row where
  "sample_settled = \<lparr> at_cycle_ref = ''c1'', at_stage = STAGE_SIGNAL_SEED, at_attempt_count = 1, at_status = STAGE_SUCCEEDED,
     at_reserved_cost = 1, at_observed_cost = 3 / 2, at_proposal = None, at_retry_at = None,
     at_replay_same_attempt = False, at_completed_at = Some 5 \<rparr>"

definition sample_stages :: "stage_row list" where
  "sample_stages = [(new_stage ''c1'' 0 STAGE_SIGNAL_SEED)\<lparr> sg_status := STAGE_SUCCEEDED, sg_attempt_count := 1,
       sg_reserved_cost := 1, sg_observed_cost := 3 / 2, sg_started_at := Some 1, sg_completed_at := Some 5 \<rparr>,
     new_stage ''c1'' 0 STAGE_SUPPLIER_DISCOVERY]"

definition sample_runtime :: runtime_db where
  "sample_runtime = (sample_leased ''runner-a'' 0 1)\<lparr> rt_cycles := [sample_cycle], rt_stages := sample_stages,
     rt_attempts := [sample_settled] \<rparr>"

lemmas sample_defs = sample_runtime_def sample_stages_def sample_settled_def sample_cycle_def sample_leased_def
  empty_runtime_def new_stage_def

lemma sample_runtime_ok: "runtime_ok sample_runtime"
proof -
  have grid: "on_grid 6 1" "on_grid 6 (3 / 2)" by (simp_all add: on_grid_def) 
  show ?thesis
    by (simp add: runtime_ok_def attempts_ok_def counted_def ledger_row_def attempt_row_ok_def cycle_row_ok_def stage_row_ok_def
        sample_defs stage_key_def charged_def charge_of_def charge_def text_fits_def text_opt_def integer_ok_def
        cost_ok_def retry_shape_def terminal_cycle_def grid list_all_iff) code_simp
qed

text \<open>
  C23. The budget of a cycle. In every state a history of the runtime store reaches, the spent cost of
  a cycle is the exact sum of what its attempts cost, each the larger of its reservation and its
  observed cost. A new reservation is accepted only when that sum with it stays within the maximum,
  and adds exactly its cost; it is refused only when the sum would exceed the maximum, and then changes
  nothing. A repeated reservation of the running attempt is not charged twice.
\<close>

theorem cycle_budget:
  assumes "runtime_ok db0" and "list_all exact_cost ops" and db: "db = run_runtime ops db0"
  shows "(\<forall>c \<in> set (rt_cycles db). cy_spent_cost c = charged db (cy_cycle_ref c)) \<and>
    (\<forall>now ref stage snap cost maximum owner token stamp r db'. on_grid 6 cost \<and>
       reserve_stage_cost db now ref stage snap cost maximum owner token stamp = Inr (r, db') \<longrightarrow>
       (if sr_accepted r \<and> sr_created r
        then charged db' ref = charged db ref + cost \<and> charged db' ref \<le> maximum \<and>
             (\<forall>c \<in> set (rt_cycles db'). cy_spent_cost c = charged db' (cy_cycle_ref c))
        else db' = db \<and> (sr_accepted r \<or> maximum < charged db ref + cost)))"
proof -
  have ok: "runtime_ok db" using ledger.run_inv assms by blast
  have "if sr_accepted r \<and> sr_created r
        then charged db' ref = charged db ref + cost \<and> charged db' ref \<le> maximum \<and>
             (\<forall>c \<in> set (rt_cycles db'). cy_spent_cost c = charged db' (cy_cycle_ref c))
        else db' = db \<and> (sr_accepted r \<or> maximum < charged db ref + cost)"
    if "on_grid 6 cost" "reserve_stage_cost db now ref stage snap cost maximum owner token stamp = Inr (r, db')"
    for now ref stage snap cost maximum owner token stamp r db'
    using reserve_cost_ok [OF ok that] by (auto simp: runtime_ok_def split: if_split_asm)
  moreover have "\<forall>c \<in> set (rt_cycles db). cy_spent_cost c = charged db (cy_cycle_ref c)"
    using ok by (simp add: runtime_ok_def)
  ultimately show ?thesis by blast
qed

definition sample_begin :: "runtime_op list" where
  "sample_begin = [BeginStage 10 ''c1'' STAGE_SUPPLIER_DISCOVERY ''runner-a'' 1 (sample_stamp 1)]"

definition sample_stage :: stage_snapshot where
  "sample_stage = \<lparr> ss_cycle_ref = ''c1'', ss_stage = STAGE_SUPPLIER_DISCOVERY, ss_status = STAGE_RUNNING,
     ss_attempt_count = 1, ss_result_refs = [], ss_retry_at = None, ss_replay_same_attempt = False \<rparr>"

definition sample_booking :: "rat \<Rightarrow> (runtime_error, stage_reservation \<times> runtime_db) result" where
  "sample_booking maximum = reserve_stage_cost (run_runtime sample_begin sample_runtime) 10 ''c1'' STAGE_SUPPLIER_DISCOVERY
     sample_stage 2 maximum ''runner-a'' 1 (sample_stamp 2)"

lemma sample_booked:
  "case sample_booking 50 of Inl _ \<Rightarrow> False | Inr (r, _) \<Rightarrow> sr_accepted r \<and> sr_created r"
  "case sample_booking 3 of Inl _ \<Rightarrow> False | Inr (r, _) \<Rightarrow> \<not> sr_accepted r"
  by code_simp+

theorem cycle_budget_witness:
  "\<exists>r db'. sample_booking 50 = Inr (r, db') \<and> charged db' ''c1'' = charged (run_runtime sample_begin sample_runtime) ''c1'' + 2 \<and>
     charged db' ''c1'' \<le> 50"
proof -
  obtain r db' where r: "sample_booking 50 = Inr (r, db')" "sr_accepted r \<and> sr_created r"
    using sample_booked(1) by (auto split: sum.split_asm)
  have "list_all exact_cost sample_begin" and "on_grid 6 2" by (simp_all add: sample_begin_def on_grid_def)
  with cycle_budget [OF sample_runtime_ok _ refl] r show ?thesis unfolding sample_booking_def by (metis (no_types, lifting))
qed

text \<open>
  The ledger of attempts. A settled attempt, unless it waits to be replayed, is never changed or
  removed by any later history, a stage that succeeded or was suppressed stays as it is, attempt
  counts never decrease, and no cycle is dropped or given another opportunity or configuration.
\<close>

theorem settled_attempts_kept:
  assumes "runtime_ok db0" and "list_all exact_cost ops" and "db = run_runtime ops db0"
  shows "(\<forall>a \<in> set (rt_attempts db0). at_status a \<noteq> STAGE_RUNNING \<and> \<not> at_replay_same_attempt a \<longrightarrow> a \<in> set (rt_attempts db)) \<and>
    (\<forall>s \<in> set (rt_stages db0). \<exists>s' \<in> set (rt_stages db). stage_key s' = stage_key s \<and> sg_attempt_count s \<le> sg_attempt_count s' \<and>
       (sg_status s \<in> {STAGE_SUCCEEDED, STAGE_SUPPRESSED} \<longrightarrow> s' = s)) \<and>
    (\<forall>c \<in> set (rt_cycles db0). \<exists>c' \<in> set (rt_cycles db). same_cycle c c')"
  using ledger.run_steps [OF assms(1,2)] assms(3)
  by (simp add: progress_def every_row_def final_attempt_def stage_le_def terminal_stage_def)

theorem settled_attempts_kept_witness:
  "sample_settled \<in> set (rt_attempts (run_runtime sample_begin sample_runtime))"
proof -
  have "list_all exact_cost sample_begin" by (simp add: sample_begin_def)
  from settled_attempts_kept [OF sample_runtime_ok this refl]
  have "\<forall>a \<in> set (rt_attempts sample_runtime). at_status a \<noteq> STAGE_RUNNING \<and> \<not> at_replay_same_attempt a \<longrightarrow>
     a \<in> set (rt_attempts (run_runtime sample_begin sample_runtime))" by blast
  then show ?thesis by (simp add: sample_defs)
qed

lemma find_update:
  assumes "List.find p rows = Some r" and key: "\<And>x. p (f x) = p x"
  shows "List.find p (map (\<lambda>x. if p x then f x else x) rows) = Some (f r)"
  using assms(1)
proof (induction rows)
  case (Cons a rows)
  then show ?case using key [of a] by (cases "p a") simp_all
qed simp

text \<open>
  Abandoning a cycle does not stop a runner that already works on it. The cycle is suppressed
  and completed, and resuming does not pick it, but a runner that holds the lease can still begin one
  of its waiting stages, which sets the cycle back to running and forgets the abandonment.
\<close>

theorem abandoned_cycle_resumes:
  assumes ok: "runtime_ok db" and abandoned: "abandon_cycle db ref reason stamp = Inr (True, db1)"
    and lease: "require_active_lease db now owner token = Inr l"
    and pending: "List.find (is_stage ref stage) (rt_stages db) = Some row" "sg_status row = STAGE_PENDING" "sg_result_refs row = []"
    and "opaque_ref (py_strip ref)" and aware: "is_aware stamp'"
  shows "(\<exists>c. List.find (is_cycle ref) (rt_cycles db1) = Some c \<and> cy_status c = CYCLE_SUPPRESSED \<and> cy_completed_at c \<noteq> None) \<and>
    (\<exists>s db2 c. begin_stage db1 now ref stage owner token stamp' = Inr (s, db2) \<and> List.find (is_cycle ref) (rt_cycles db2) = Some c \<and>
       cy_status c = CYCLE_RUNNING \<and> cy_next_stage c = Some stage \<and> cy_completed_at c = None \<and> cy_last_reason_code c = None)"
proof -
  define f :: "cycle_row \<Rightarrow> cycle_row" where "f = (\<lambda>c. c\<lparr> cy_status := CYCLE_SUPPRESSED, cy_next_stage := None,
    cy_last_reason_code := Some ''OPERATOR_ABANDONED'', cy_completed_at := Some (instant_of stamp), cy_updated_at := instant_of stamp \<rparr>)"
  define g :: "stage_row \<Rightarrow> stage_row" where "g = (\<lambda>s. s\<lparr> sg_status := STAGE_RUNNING, sg_attempt_count := sg_attempt_count row + 1,
       sg_plan_ref := None, sg_command := None, sg_argument_fingerprint := None, sg_reserved_cost := 0,
       sg_observed_cost := 0, sg_reason_codes := [], sg_retry_at := None, sg_replay_same_attempt := False,
       sg_started_at := Some (instant_of stamp'), sg_completed_at := None, sg_updated_at := instant_of stamp' \<rparr>)"
  define h :: "cycle_row \<Rightarrow> cycle_row" where "h = (\<lambda>c. c\<lparr> cy_status := CYCLE_RUNNING, cy_next_stage := Some stage,
       cy_last_reason_code := None, cy_completed_at := None, cy_updated_at := instant_of stamp' \<rparr>)"
  obtain c where c: "List.find (is_cycle ref) (rt_cycles db) = Some c" and upd: "update_cycle ref f db = Inr db1"
    using abandoned by (auto simp: abandon_cycle_def f_def one_or_Inr split: if_split_asm)
  have ok1: "runtime_ok db1"
    using cycle_update_ok [OF ok upd] by (simp add: f_def same_cycle_def)
  have "is_cycle ref (f d) = is_cycle ref d" for d by (simp add: f_def is_cycle_def)
  then have db1: "rt_lease db1 = rt_lease db" "rt_stages db1 = rt_stages db"
    and c1: "List.find (is_cycle ref) (rt_cycles db1) = Some (f c)"
    using upd find_update [OF c, of f] by (auto simp: update_cycle_Inr)
  have row: "stage_row_ok row" "sg_cycle_ref row = ref" "sg_stage row = stage"
    using pending(1) ok by (auto simp: runtime_ok_def find_Some_iff is_stage_def)
  have keys: "is_stage ref stage (g s) = is_stage ref stage s" "is_cycle ref (h d) = is_cycle ref d" for s d
    by (simp_all add: g_def h_def is_stage_def is_cycle_def)
  have stages: "stage_row_ok (g s)" if "s \<in> set (rt_stages db)" for s
    using that ok row(1) pending(2)
    by (auto simp: runtime_ok_def g_def stage_row_ok_def text_opt_def integer_ok_def cost_ok_def retry_shape_def)
  have cycles: "cycle_row_ok (h d)" if "d \<in> set (rt_cycles db1)" for d
    using that ok1 by (auto simp: runtime_ok_def h_def cycle_row_ok_def text_opt_def terminal_cycle_def)
  define db2 where "db2 = db1\<lparr> rt_stages := map (\<lambda>s. if is_stage ref stage s then g s else s) (rt_stages db1),
    rt_cycles := map (\<lambda>d. if is_cycle ref d then h d else d) (rt_cycles db1) \<rparr>"
  have "restart_stage db1 ref stage row (instant_of stamp') = Inr db2"
    using stages cycles unfolding restart_stage_def g_def [symmetric] h_def [symmetric]
    by (simp add: update_stage_Inr update_cycle_Inr db2_def db1)
  moreover have "List.find (is_stage ref stage) (rt_stages db2) = Some (g row)"
    using find_update [OF pending(1), of g] keys by (simp add: db2_def db1)
  moreover have "\<exists>s. stage_snapshot_of (g row) = Inr s"
    using assms(7) row pending by (simp add: stage_snapshot_of_def RuntimeStageSnapshot_def Let_def g_def retry_shape_def stage_row_ok_def)
  moreover have "require_active_lease db1 now owner token = Inr l" using lease by (simp add: require_active_lease_def db1)
  ultimately have "\<exists>s. begin_stage db1 now ref stage owner token stamp' = Inr (s, db2)"
    using aware pending by (auto simp: begin_stage_def one_or_def require_aware_def db1 Let_def)
  moreover have "List.find (is_cycle ref) (rt_cycles db2) = Some (h (f c))"
    using find_update [OF c1, of h] keys by (simp add: db2_def)
  ultimately show ?thesis using c1 by (auto simp: f_def h_def)
qed

theorem abandoned_cycle_resumes_witness:
  "\<exists>db1 s db2. abandon_cycle sample_runtime ''c1'' ''duplicate'' (sample_stamp 3) = Inr (True, db1) \<and>
     begin_stage db1 10 ''c1'' STAGE_SUPPLIER_DISCOVERY ''runner-a'' 1 (sample_stamp 4) = Inr (s, db2)"
proof -
  have "case abandon_cycle sample_runtime ''c1'' ''duplicate'' (sample_stamp 3) of Inr (True, _) \<Rightarrow> True | _ \<Rightarrow> False" by code_simp
  then obtain db1 where db1: "abandon_cycle sample_runtime ''c1'' ''duplicate'' (sample_stamp 3) = Inr (True, db1)"
    by (auto split: sum.split_asm bool.split_asm)
  have facts: "\<exists>l. require_active_lease sample_runtime 10 ''runner-a'' 1 = Inr l"
    "List.find (is_stage ''c1'' STAGE_SUPPLIER_DISCOVERY) (rt_stages sample_runtime) = Some (new_stage ''c1'' 0 STAGE_SUPPLIER_DISCOVERY)"
    "opaque_ref (py_strip ''c1'')" "is_aware (sample_stamp 4)"
    by (simp add: require_active_lease_def sample_defs holds_def live_def, code_simp+)
  then obtain l where "require_active_lease sample_runtime 10 ''runner-a'' 1 = Inr l" by blast
  from abandoned_cycle_resumes [OF sample_runtime_ok db1 this facts(2) _ _ facts(3,4)] db1 show ?thesis
    by (auto simp: new_stage_def)
qed

end
