(* ===== verification/RunnerProps.thy ===== *)
theory RunnerProps
  imports RuntimeRunner RuntimeProps "HOL-Library.Sublist"
begin

text \<open>
  What a run of the acquisition runtime guarantees. The locale \<open>run_relation\<close> states when a relation on
  worlds is respected by every step of a run except the call of a handler, \<open>handler_relation\<close> adds the
  calls. They are interpreted on the steps of the store (a run is a history of the store, so what holds
  of every history holds of runs), on the events and handler calls, and on the handler calls alone.
\<close>

section \<open>Relations that a run respects\<close>

definition respecting :: "(run_world \<Rightarrow> run_world \<Rightarrow> bool) \<Rightarrow> 'a run \<Rightarrow> bool" where
  "respecting R m \<longleftrightarrow> (\<forall>w. R w (snd (m w)))"

definition own_op :: "run_request \<Rightarrow> int \<Rightarrow> runtime_op \<Rightarrow> bool" where
  \<comment> \<open>the operations a run performs itself\<close>
  "own_op rq token p \<longleftrightarrow> exact_cost p \<and> (fenced_by p = Some token \<or>
     (\<exists>now stamp secs. p = Acquire now (rq_owner_ref rq) stamp secs) \<or> (\<exists>stamp. p = Release (rq_owner_ref rq) token stamp))"

definition implements :: "(runtime_db \<Rightarrow> instant \<Rightarrow> (runtime_error, 'a \<times> runtime_db) result) \<Rightarrow> (instant \<Rightarrow> runtime_op) \<Rightarrow> bool" where
  "implements f p \<longleftrightarrow> (\<forall>db now. rmap snd (f db now) = op_result (p now) db)"

lemma implemented:
  "implements (\<lambda>db now. acquire_lease db now owner stamp secs) (\<lambda>now. Acquire now owner stamp secs)"
  "implements (\<lambda>db now. heartbeat_lease db now owner token stamp secs) (\<lambda>now. Heartbeat now owner token stamp secs)"
  "implements (\<lambda>db now. release_lease db owner token stamp) (\<lambda>now. Release owner token stamp)"
  "implements (\<lambda>db now. record_runtime_observation db now owner cap token stamp) (\<lambda>now. ObserveRuntime now owner cap token stamp)"
  "implements (\<lambda>db now. record_cycle_observation db now owner ref token stamp) (\<lambda>now. ObserveCycle now owner ref token stamp)"
  "implements (\<lambda>db now. resume_or_create_cycle db now owner token keys fp stamp) (\<lambda>now. Resume now owner token keys fp stamp)"
  "implements (\<lambda>db now. finish_cycle db now ref status owner token stamp reason) (\<lambda>now. FinishCycle now ref status owner token stamp reason)"
  "implements (\<lambda>db now. begin_stage db now ref stage owner token stamp) (\<lambda>now. BeginStage now ref stage owner token stamp)"
  "implements (\<lambda>db now. reserve_stage_cost db now ref stage snap cost maximum owner token stamp)
     (\<lambda>now. ReserveCost now ref stage snap cost maximum owner token stamp)"
  "implements (\<lambda>db now. bind_stage_proposal db now ref stage snap proposal owner token stamp)
     (\<lambda>now. BindProposal now ref stage snap proposal owner token stamp)"
  "implements (\<lambda>db now. finish_stage db now ref stage result owner token stamp bound)
     (\<lambda>now. FinishStage now ref stage result owner token stamp bound)"
  by (simp_all add: implements_def)

lemma stage_cost_grid: "on_grid 6 (KIVOU_STAGE_COSTS stage)"
  by (cases stage) (simp_all add: on_grid_def)

lemma own_ops:
  "own_op rq token (Acquire now (rq_owner_ref rq) stamp secs)"
  "own_op rq token (Heartbeat now owner token stamp secs)"
  "own_op rq token (Protect now owner token secs outcome)"
  "own_op rq token (Release (rq_owner_ref rq) token stamp)"
  "own_op rq token (ObserveRuntime now owner cap token stamp)"
  "own_op rq token (ObserveCycle now owner ref token stamp)"
  "own_op rq token (Resume now owner token keys fp stamp)"
  "own_op rq token (FinishCycle now ref status owner token stamp reason)"
  "own_op rq token (BeginStage now ref stage owner token stamp)"
  "own_op rq token (ReserveCost now ref stage snap (KIVOU_STAGE_COSTS stage) maximum owner token stamp)"
  "own_op rq token (BindProposal now ref stage snap proposal owner token stamp)"
  "own_op rq token (FinishStage now ref stage result owner token stamp bound)"
  by (simp_all add: own_op_def stage_cost_grid)

lemma read_now_aware: "fst (read_now env w) = Inr d \<Longrightarrow> is_aware d"
  by (auto simp: read_now_def Let_def split: if_split_asm)

locale run_relation =
  fixes R :: "run_world \<Rightarrow> run_world \<Rightarrow> bool" and env :: runner_env and rq :: run_request and token :: int
  assumes same: "R w w"
    and ticked: "R w (tick w)"
    and placed: "R w (w\<lparr> wo_stage := s, wo_attempt := 0 \<rparr>)" "R w (w\<lparr> wo_attempt := a \<rparr>)" "R w (w\<lparr> wo_cycle := c \<rparr>)"
    and timed: "is_aware d \<Longrightarrow> R w (w\<lparr> wo_now := d \<rparr>)"
    and composed: "R w w1 \<Longrightarrow> R w1 w2 \<Longrightarrow> R w w2"
    and logged: "R w (w\<lparr> wo_events := wo_events w @ [event_payload action status code attempt ref stage] \<rparr>)"
    and interfered: "R w (w\<lparr> wo_db := run_runtime (en_others env n) (wo_db w) \<rparr>)"
    and operated: "own_op rq token p \<Longrightarrow> op_result p (wo_db w) = Inr db \<Longrightarrow> R w (w\<lparr> wo_db := db \<rparr>)"
begin

lemma respects_yield: "respecting R (yield x)"
  by (simp add: respecting_def yield_def same)

lemma respects_throw: "respecting R (throw e)"
  by (simp add: respecting_def throw_def same)

lemma respects_lift: "respecting R (lift r)"
  by (simp add: respecting_def lift_def same)

lemma respects_bind:
  assumes "respecting R m" and "\<And>x w. fst (m w) = Inr x \<Longrightarrow> respecting R (k x)"
  shows "respecting R (bind m k)"
proof -
  have "R w (snd (bind m k w))" for w
  proof (cases "m w")
    case (Pair r w1)
    then have "R w w1" using assms(1) by (metis respecting_def snd_conv)
    then show ?thesis
      using Pair assms(2) [of w] composed by (cases r) (auto simp: bind_def respecting_def)
  qed
  then show ?thesis by (simp add: respecting_def)
qed

lemma respects_if: "(c \<Longrightarrow> respecting R a) \<Longrightarrow> (\<not> c \<Longrightarrow> respecting R b) \<Longrightarrow> respecting R (if c then a else b)"
  by simp

lemma respects_event: "respecting R (event action status code attempt ref stage)"
  by (simp add: respecting_def event_def logged)

lemma respects_read_now: "respecting R (read_now env)"
  by (simp add: respecting_def read_now_def ticked Let_def)

lemma respects_ask: "respecting R (ask_hermes env f)"
  by (simp add: respecting_def ask_hermes_def ticked)

lemma respects_locals:
  "respecting R (set_local (\<lambda>w. w\<lparr> wo_stage := s, wo_attempt := 0 \<rparr>))"
  "respecting R (set_local (\<lambda>w. w\<lparr> wo_attempt := a \<rparr>))"
  "respecting R (set_local (\<lambda>w. w\<lparr> wo_cycle := c \<rparr>))"
  "is_aware d \<Longrightarrow> respecting R (set_local (\<lambda>w. w\<lparr> wo_now := d \<rparr>))"
  by (simp_all add: respecting_def set_local_def placed timed)

lemma transaction_step:
  assumes "implements f p" and "\<And>now. own_op rq token (p now)"
  shows "R w (snd (transaction env f w))"
proof -
  let ?n = "wo_tick w"
  define w0 where "w0 = tick w"
  define w1 where "w1 = w0\<lparr> wo_db := run_runtime (en_others env ?n) (wo_db w0) \<rparr>"
  have "R w w0" by (simp add: w0_def ticked)
  moreover have "R w0 w1" unfolding w1_def by (rule interfered)
  ultimately have start: "R w w1" by (rule composed)
  have "R w (w1\<lparr> wo_db := db \<rparr>)" if "f (wo_db w1) (en_db_now env ?n) = Inr (x, db)" for x db
  proof -
    have "op_result (p (en_db_now env ?n)) (wo_db w1) = Inr db"
      using assms(1) that by (metis implements_def rmap.simps(2) snd_conv)
    then show ?thesis using operated [OF assms(2)] composed [OF start] by blast
  qed
  then show ?thesis using start
    by (auto simp: transaction_def Let_def w0_def w1_def tick_def split: option.split sum.split)
qed

lemma respects_transaction: "implements f p \<Longrightarrow> (\<And>now. own_op rq token (p now)) \<Longrightarrow> respecting R (transaction env f)"
  by (simp add: respecting_def transaction_step)

lemmas respects_steps = respects_yield respects_throw respects_lift respects_bind respects_if respects_event respects_read_now
  respects_ask respects_locals respects_transaction [OF implemented(1)] respects_transaction [OF implemented(2)]
  respects_transaction [OF implemented(3)] respects_transaction [OF implemented(4)] respects_transaction [OF implemented(5)]
  respects_transaction [OF implemented(6)] respects_transaction [OF implemented(7)] respects_transaction [OF implemented(8)]
  respects_transaction [OF implemented(9)] respects_transaction [OF implemented(10)] respects_transaction [OF implemented(11)] own_ops

lemma respects_emit: "respecting R (emit_stage ref stage attempt result)" "respecting R (emit_cycle ref status code)"
  by (simp_all add: emit_stage_def emit_cycle_def respects_event)

lemma respects_observe: "respecting R (observe_cycle env owner token ref stamp)"
  unfolding observe_cycle_def by (intro respects_steps)

lemma respects_close: "respecting R (close_cycle env owner token ref status reason stamp)"
  unfolding close_cycle_def by (intro respects_steps respects_observe)

lemma respects_complete: "respecting R (complete_cycle env owner token ref stamp)"
  unfolding complete_cycle_def by (intro respects_steps respects_close respects_emit)

lemma respects_stop: "respecting R (stop_result env owner token ref stage result stamp)"
  unfolding stop_result_def
  by (cases "stop_statuses (ar_status result)"; cases "ar_reason_codes result")
     (auto intro!: respects_steps split: prod.split)

lemma respects_bound: "respecting R (bound_proposal env ru rq token stage cycle snapshot reservation remaining stamp)"
  unfolding bound_proposal_def by (cases "sr_proposal reservation") (auto intro!: respects_steps)

lemma respects_settle: "respecting R (settle_stage env ru rq token ref stage snapshot x)"
  unfolding settle_stage_def
  by (cases x) (auto intro!: respects_steps respects_emit respects_observe respects_stop dest: read_now_aware)

lemma respects_on_interrupt: "respecting R (on_interrupt env rq token)"
proof -
  have "respecting R (bind (read_now env) (\<lambda>checkpoint.
      bind (transaction env (\<lambda>db t. finish_stage db t ref stage (interrupted_result checkpoint) owner token checkpoint None)) (\<lambda>_.
      bind (close_cycle env owner token ref CYCLE_WAITING (Some ''CURRENT_RUN_INTERRUPTED'') checkpoint) (\<lambda>_.
      bind (emit_stage ref stage attempt (interrupted_result checkpoint)) (\<lambda>_.
      bind (emit_cycle ref RUN_CANCELLED ''CURRENT_RUN_INTERRUPTED'') (\<lambda>_.
      lift (RuntimeRunResult RUN_CANCELLED (Some ref) (Some stage) (Some ''CURRENT_RUN_INTERRUPTED''))))))))" for ref stage owner attempt
    by (intro respects_steps respects_close respects_emit)
  then show ?thesis
    by (auto simp: respecting_def on_interrupt_def Let_def same split: option.split)
qed

lemma respects_on_failure: "respecting R (on_failure env rq token)"
proof -
  have finish: "respecting R (case current of None \<Rightarrow> yield ()
      | Some s \<Rightarrow> transaction env (\<lambda>db t. finish_stage db t ref s failed_result owner token now None))" for current ref owner now
    by (cases current) (auto intro!: respects_steps)
  have emit: "respecting R (case current of None \<Rightarrow> yield () | Some s \<Rightarrow> emit_stage ref s attempt failed_result)" for current ref attempt
    by (cases current) (auto intro!: respects_steps respects_emit)
  have "respecting R (bind (case current of None \<Rightarrow> yield ()
      | Some s \<Rightarrow> transaction env (\<lambda>db t. finish_stage db t ref s failed_result owner token now None)) (\<lambda>_.
      bind (close_cycle env owner token ref CYCLE_FAILED (Some ''CURRENT_RUN_TECHNICAL_FAILURE'') now) (\<lambda>_.
      bind (case current of None \<Rightarrow> yield () | Some s \<Rightarrow> emit_stage ref s attempt failed_result) (\<lambda>_.
      bind (emit_cycle ref RUN_FAILED ''CURRENT_RUN_TECHNICAL_FAILURE'') (\<lambda>_.
      lift (RuntimeRunResult RUN_FAILED (Some ref) stage (Some ''CURRENT_RUN_TECHNICAL_FAILURE'')))))))"
    for ref owner now current attempt stage
    by (intro respects_bind respects_lift respects_close respects_emit finish emit)
  moreover have "respecting R (bind (event ''cycle'' ''failed'' ''CURRENT_RUN_TECHNICAL_FAILURE'' 0 None None) (\<lambda>_.
      lift (RuntimeRunResult RUN_FAILED None None (Some ''CURRENT_RUN_TECHNICAL_FAILURE''))))"
    by (intro respects_steps)
  ultimately show ?thesis
    by (simp add: respecting_def on_failure_def Let_def split: option.split)
qed

lemma respects_recover: "respecting R (recover env rq token r)"
  unfolding recover_def
  by (auto intro!: respects_steps respects_on_interrupt respects_on_failure split: sum.split run_exn.split)

lemma respects_release: "respecting R (release env rq token)"
proof -
  have "respecting R (bind (transaction env (\<lambda>db t. release_lease db (rq_owner_ref rq) token now)) (\<lambda>_.
     event ''lease'' ''released'' ''LEASE_RELEASED'' 0 None None))" for now
    by (intro respects_steps)
  then show ?thesis by (simp add: respecting_def release_def)
qed

end

section \<open>Handler calls\<close>

definition cleared :: "run_request \<Rightarrow> action_context \<Rightarrow> bool" where
  \<comment> \<open>what holds whenever a handler is called\<close>
  "cleared rq ctx \<longleftrightarrow> (ac_stage ctx = STAGE_PROVIDER_HANDOFF \<longrightarrow> rq_allow_qa_provider_mutations rq) \<and>
     rp_command (ac_proposal ctx) = stage_command (ac_stage ctx) \<and>
     rp_target_ref (ac_proposal ctx) = cs_cycle_ref (ac_cycle ctx) \<and>
     rp_estimated_cost (ac_proposal ctx) = KIVOU_STAGE_COSTS (ac_stage ctx)"

locale handler_relation = run_relation +
  assumes handled: "cleared rq ctx \<Longrightarrow> R w (w\<lparr> wo_handled := wo_handled w @ [ctx] \<rparr>)"
begin

lemma protected_steps:
  "R w (w\<lparr> wo_db := run_runtime (map (\<lambda>now. Protect now owner token secs (Inr ())) ts) (wo_db w) \<rparr>)"
proof (induction ts arbitrary: w)
  case Nil
  then show ?case by (simp add: run_runtime_def same)
next
  case (Cons t ts)
  let ?p = "Protect t owner token secs (Inr ())"
  have "R w (w\<lparr> wo_db := apply_runtime ?p (wo_db w) \<rparr>)"
    using operated [OF own_ops(3), of t owner secs "Inr ()" w]
    by (auto simp: apply_runtime_def same simp del: op_result.simps split: sum.split)
  from composed [OF this Cons.IH] show ?case by (simp add: run_runtime_def)
qed

lemma respects_handler:
  assumes "cleared rq ctx"
  shows "respecting R (call_handler env owner token secs ctx)"
proof -
  have "R w (snd (call_handler env owner token secs ctx w))" for w
  proof -
    let ?ts = "ha_protected (en_handler env (wo_tick w) ctx)"
    have start: "R w (tick w)" by (rule ticked)
    define w0 where "w0 = (tick w)\<lparr> wo_db := run_runtime (en_others env (wo_tick w)) (wo_db (tick w)) \<rparr>"
    define w1 where "w1 = w0\<lparr> wo_db := run_runtime (map (\<lambda>now. Protect now owner token secs (Inr ())) ?ts) (wo_db w0) \<rparr>"
    define w2 where "w2 = w1\<lparr> wo_handled := wo_handled w1 @ [ctx] \<rparr>"
    have "R (tick w) w0" "R w0 w1" "R w1 w2"
      unfolding w0_def w1_def w2_def by (rule interfered protected_steps handled [OF assms])+
    then have "R w w2" using start composed by blast
    then show ?thesis by (simp add: call_handler_def Let_def tick_def w0_def w1_def w2_def run_runtime_def)
  qed
  then show ?thesis by (simp add: respecting_def)
qed

lemma respects_dispatch:
  assumes "rp_estimated_cost p = KIVOU_STAGE_COSTS stage"
  shows "respecting R (dispatch env ru rq token stage p cycle snapshot stamp)"
proof (cases "registry_execute stage p cycle snapshot (rq_allow_qa_provider_mutations rq) True stamp")
  case (Dispatch ctx)
  then have "cleared rq ctx" using registry_refuses [OF Dispatch] assms by (auto simp: cleared_def)
  then show ?thesis using Dispatch by (simp add: dispatch_def respects_handler)
qed (simp_all add: dispatch_def respects_yield respects_throw)

lemma respects_execute: "respecting R (execute_stage env ru rq token stage cycle snapshot stamp)"
  unfolding execute_stage_def Let_def
  by (intro respects_steps respects_bound) (simp_all add: respects_dispatch)

lemma respects_perform: "respecting R (perform_stage env ru rq token cycle stage snapshot spent now)"
  unfolding perform_stage_def by (intro respects_steps respects_execute)

lemma respects_stage: "respecting R (run_stage env ru rq token started_at cycle stage spent)"
  unfolding run_stage_def Let_def
  by (intro respects_steps respects_close respects_emit respects_observe respects_perform respects_settle) (auto dest: read_now_aware)

lemma respects_stages: "respecting R (run_stages env ru rq token started_at cycle stages spent)"
proof (induction stages arbitrary: spent)
  case Nil
  then show ?case using respects_complete by (simp add: respecting_def)
next
  case (Cons stage stages)
  then show ?case by (auto intro!: respects_bind respects_stage respects_yield split: sum.split)
qed

lemma respects_cycle: "respecting R (run_cycle env ru rq token now cycle)"
  unfolding run_cycle_def Let_def
  by (cases "cs_next_stage cycle") (auto intro!: respects_steps respects_emit respects_complete respects_stages)

lemma respects_body: "respecting R (run_body env ru rq token now)"
  unfolding run_body_def
  by (auto intro!: respects_steps respects_observe respects_cycle split: option.split list.split)

lemma respects_owned: "respecting R (owned_run env ru rq token now)"
proof -
  have "R w (snd (owned_run env ru rq token now w))" for w
  proof -
    define w1 where "w1 = snd (event ''lease'' ''started'' ''LEASE_ACQUIRED'' 0 None None w)"
    define w2 where "w2 = snd (run_body env ru rq token now w1)"
    define w3 where "w3 = snd (recover env rq token (fst (run_body env ru rq token now w1)) w2)"
    have "R w w1" "R w1 w2" "R w2 w3" "R w3 (snd (release env rq token w3))"
      unfolding w1_def w2_def w3_def
      using respects_event respects_body respects_recover respects_release by (simp_all add: respecting_def)
    then have "R w (snd (release env rq token w3))" using composed by blast
    then show ?thesis by (simp add: owned_run_def w1_def w2_def w3_def split_beta)
  qed
  then show ?thesis by (simp add: respecting_def)
qed

end

section \<open>A run is a history of the store\<close>

definition run_op :: "runner_env \<Rightarrow> run_request \<Rightarrow> int \<Rightarrow> runtime_op \<Rightarrow> bool" where
  "run_op env rq token p \<longleftrightarrow> own_op rq token p \<or> (\<exists>n. p \<in> set (en_others env n))"

definition store_steps :: "runner_env \<Rightarrow> run_request \<Rightarrow> int \<Rightarrow> run_world \<Rightarrow> run_world \<Rightarrow> bool" where
  "store_steps env rq token w w' \<longleftrightarrow> (\<exists>ops. list_all (run_op env rq token) ops \<and> wo_db w' = run_runtime ops (wo_db w))"

lemma store_stepsI: "list_all (run_op env rq token) ops \<Longrightarrow> wo_db w' = run_runtime ops (wo_db w) \<Longrightarrow> store_steps env rq token w w'"
  by (auto simp: store_steps_def)

lemma run_runtime_append: "run_runtime (ops @ ops') db = run_runtime ops' (run_runtime ops db)"
  by (simp add: run_runtime_def)

interpretation steps: handler_relation "store_steps env rq token" env rq token for env rq token
proof
  fix w w1 w2 :: run_world
  assume "store_steps env rq token w w1" "store_steps env rq token w1 w2"
  then obtain ops ops' where "list_all (run_op env rq token) (ops @ ops')" "wo_db w2 = run_runtime (ops @ ops') (wo_db w)"
    by (auto simp: store_steps_def run_runtime_append)
  then show "store_steps env rq token w w2" by (rule store_stepsI)
next
  fix w :: run_world and n
  show "store_steps env rq token w (w\<lparr> wo_db := run_runtime (en_others env n) (wo_db w) \<rparr>)"
    by (rule store_stepsI [where ops = "en_others env n"]) (auto simp: list_all_iff run_op_def)
next
  fix p and w :: run_world and db
  assume "own_op rq token p" "op_result p (wo_db w) = Inr db"
  then show "store_steps env rq token w (w\<lparr> wo_db := db \<rparr>)"
    by (intro store_stepsI [where ops = "[p]"]) (auto simp: run_op_def run_runtime_def apply_runtime_def)
qed (auto intro!: store_stepsI [where ops = "[]"] simp: run_runtime_def tick_def)

section \<open>The trace of a run\<close>

definition trace_steps :: "run_request \<Rightarrow> run_world \<Rightarrow> run_world \<Rightarrow> bool" where
  "trace_steps rq w w' \<longleftrightarrow> (\<exists>es hs. wo_events w' = wo_events w @ es \<and> list_all valid_event es \<and>
     wo_handled w' = wo_handled w @ hs \<and> list_all (cleared rq) hs)"

interpretation trace: handler_relation "trace_steps rq" env rq token for env rq token
proof
  fix w w1 w2 :: run_world
  assume "trace_steps rq w w1" "trace_steps rq w1 w2"
  then show "trace_steps rq w w2" unfolding trace_steps_def
    by (metis (no_types, opaque_lifting) append.assoc list_all_append)
qed (auto simp: trace_steps_def valid_event_payload tick_def)

definition quiet :: "run_world \<Rightarrow> run_world \<Rightarrow> bool" where
  "quiet w w' \<longleftrightarrow> wo_handled w' = wo_handled w"

interpretation quiet: run_relation quiet env rq token for env rq token
  by unfold_locales (auto simp: quiet_def tick_def)

definition steady :: "run_world \<Rightarrow> run_world \<Rightarrow> bool" where
  \<comment> \<open>the fencing token is assigned once, and \<open>now\<close> stays a timestamp with an offset\<close>
  "steady w w' \<longleftrightarrow> wo_token w' = wo_token w \<and> (is_aware (wo_now w) \<longrightarrow> is_aware (wo_now w'))"

interpretation steady: handler_relation steady env rq token for env rq token
  by unfold_locales (auto simp: steady_def tick_def)

section \<open>Whole runs\<close>

lemma run_once_cases:
  fixes env ru rq and w :: run_world
  defines "now \<equiv> to_utc (en_clock env (wo_tick w))"
  defines "w1 \<equiv> (tick (fresh_locals w))\<lparr> wo_now := now \<rparr>"
  defines "acquired \<equiv> transaction env (\<lambda>db t. acquire_lease db t (rq_owner_ref rq) now (ru_lease_seconds ru)) w1"
  obtains (unaware) e where "run_once env ru rq w = (Inl e, tick (fresh_locals w))"
  | (unowned) r w' where "is_aware now" "run_once env ru rq w = (r, w')"
      "w' = snd acquired \<or> w' = snd (event ''lease'' ''already_running'' ''LEASE_HELD'' 0 None None (snd acquired))"
  | (owned) token where "is_aware now" "run_once env ru rq w = owned_run env ru rq token now ((snd acquired)\<lparr> wo_token := Some token \<rparr>)"
proof (cases "is_aware (en_clock env (wo_tick w))")
  case False
  then show ?thesis by (intro unaware) (simp add: run_once_def bind_def read_now_def set_local_def fresh_locals_def)
next
  case True
  then have aware: "is_aware now" by (simp add: now_def)
  have run: "run_once env ru rq w = bind (\<lambda>_. acquired) (\<lambda>lease. case le_fencing_token lease of
       None \<Rightarrow> bind (event ''lease'' ''already_running'' ''LEASE_HELD'' 0 None None) (\<lambda>_.
         lift (RuntimeRunResult RUN_ALREADY_RUNNING None None None))
     | Some token \<Rightarrow> bind (set_local (\<lambda>w. w\<lparr> wo_token := Some token \<rparr>)) (\<lambda>_. owned_run env ru rq token now)) w"
    using True unfolding now_def
    by (simp add: run_once_def bind_def read_now_def set_local_def acquired_def w1_def now_def fresh_locals_def)
  show ?thesis
  proof (cases "fst acquired")
    case (Inl e)
    then have "run_once env ru rq w = (Inl e, snd acquired)"
      unfolding run by (cases acquired) (simp add: bind_def)
    then show ?thesis using unowned aware by blast
  next
    case (Inr lease)
    show ?thesis
    proof (cases "le_fencing_token lease")
      case None
      have "run_once env ru rq w = (RuntimeRunResult RUN_ALREADY_RUNNING None None None,
          snd (event ''lease'' ''already_running'' ''LEASE_HELD'' 0 None None (snd acquired)))"
        unfolding run using Inr None by (cases acquired) (simp add: bind_def event_def lift_def)
      then show ?thesis using unowned aware by blast
    next
      case (Some token)
      have "run_once env ru rq w = owned_run env ru rq token now ((snd acquired)\<lparr> wo_token := Some token \<rparr>)"
        unfolding run using Inr Some by (cases acquired) (simp add: bind_def set_local_def)
      then show ?thesis using owned aware by blast
    qed
  qed
qed

lemma run_once_respects:
  assumes rel: "\<And>token. handler_relation (S token) env rq token"
    and start: "\<And>token v. S token v (fresh_locals v)" and begun: "\<And>token v. S token v (v\<lparr> wo_token := Some token \<rparr>)"
  shows "\<exists>token. S token w (snd (run_once env ru rq w)) \<and>
    (wo_token (snd (run_once env ru rq w)) = None \<or> wo_token (snd (run_once env ru rq w)) = Some token)"
proof -
  note base = handler_relation.axioms(1) [OF rel]
  define now where "now = to_utc (en_clock env (wo_tick w))"
  define w1 where "w1 = (tick (fresh_locals w))\<lparr> wo_now := now \<rparr>"
  define w2 where "w2 = snd (transaction env (\<lambda>db t. acquire_lease db t (rq_owner_ref rq) now (ru_lease_seconds ru)) w1)"
  have first: "S token w (tick (fresh_locals w))" for token
    using start run_relation.ticked [OF base] run_relation.composed [OF base] by blast
  have second: "S token w w2" if "is_aware now" for token
  proof -
    have "S token (tick (fresh_locals w)) w1" unfolding w1_def by (rule run_relation.timed [OF base that])
    moreover have "S token w1 w2" unfolding w2_def by (rule run_relation.transaction_step [OF base implemented(1) own_ops(1)])
    ultimately show ?thesis using first run_relation.composed [OF base] by blast
  qed
  have "steady w1 w2" unfolding w2_def by (rule steady.transaction_step [OF implemented(1) own_ops(1)])
  then have none: "wo_token w2 = None" by (simp add: steady_def w1_def fresh_locals_def tick_def)
  show ?thesis
  proof (cases rule: run_once_cases [of env ru rq w])
    case (unaware e)
    then show ?thesis using first by (auto simp: fresh_locals_def tick_def)
  next
    case (unowned r w')
    then have "S 0 w w2" using second by (simp add: now_def)
    moreover define w3 where "w3 = snd (event ''lease'' ''already_running'' ''LEASE_HELD'' 0 None None w2)"
    then have w3: "S 0 w2 w3" "wo_token w3 = wo_token w2"
      using run_relation.respects_event [OF base] by (simp_all add: respecting_def event_def)
    ultimately have both: "S 0 w w2 \<and> S 0 w w3" using run_relation.composed [OF base] by blast
    have "w' = w2 \<or> w' = w3" using unowned(3) by (simp only: w3_def w2_def w1_def now_def)
    then show ?thesis using both w3 none unowned(2) by auto
  next
    case (owned token)
    then have "S token w w2" using second by (simp add: now_def)
    moreover have "S token (w2\<lparr> wo_token := Some token \<rparr>) (snd (run_once env ru rq w))"
      using handler_relation.respects_owned [OF rel] owned(2) by (simp add: respecting_def w2_def w1_def now_def)
    ultimately have "S token w (snd (run_once env ru rq w))"
      using begun run_relation.composed [OF base] by blast
    moreover have "steady (w2\<lparr> wo_token := Some token \<rparr>) (snd (run_once env ru rq w))"
      using steady.respects_owned owned(2) by (simp add: respecting_def w2_def w1_def now_def)
    ultimately show ?thesis by (auto simp: steady_def)
  qed
qed

lemma run_once_history:
  "\<exists>token ops. wo_db (snd (run_once env ru rq w)) = run_runtime ops (wo_db w) \<and> list_all (run_op env rq token) ops \<and>
     (wo_token (snd (run_once env ru rq w)) = None \<or> wo_token (snd (run_once env ru rq w)) = Some token)"
proof -
  have quiet_store: "store_steps env rq token v v'" if "wo_db v' = wo_db v" for token v v'
    using that by (intro store_stepsI [where ops = "[]"]) (simp_all add: run_runtime_def)
  have "\<exists>token. store_steps env rq token w (snd (run_once env ru rq w)) \<and>
      (wo_token (snd (run_once env ru rq w)) = None \<or> wo_token (snd (run_once env ru rq w)) = Some token)"
    by (rule run_once_respects) (auto simp: fresh_locals_def intro: steps.handler_relation_axioms quiet_store)
  then show ?thesis unfolding store_steps_def by blast
qed

text \<open>
  C22. A run refines the store. Whatever the clocks, Hermes, the handlers, failing calls and other
  processes do, the tables a run leaves are those of some history of the store: the operations of the
  others, and operations of the run that are all an acquisition or release in its name or fenced by its
  own token, with the fixed stage costs. What is proved of every history therefore holds of every run.
\<close>

theorem run_refines_store:
  "\<exists>token ops. wo_db (snd (run_once env ru rq w)) = run_runtime ops (wo_db w) \<and>
     list_all (\<lambda>p. own_op rq token p \<or> (\<exists>n. p \<in> set (en_others env n))) ops \<and>
     (wo_token (snd (run_once env ru rq w)) = None \<or> wo_token (snd (run_once env ru rq w)) = Some token)"
proof -
  obtain token ops where "wo_db (snd (run_once env ru rq w)) = run_runtime ops (wo_db w)" "list_all (run_op env rq token) ops"
      "wo_token (snd (run_once env ru rq w)) = None \<or> wo_token (snd (run_once env ru rq w)) = Some token"
    using run_once_history by blast
  then show ?thesis by (intro exI [of _ token] exI [of _ ops]) (auto simp: run_op_def list_all_iff)
qed

text \<open>
  Runs keep the ledger. Started on coherent tables, and with other processes that reserve whole
  micro-units, a run leaves coherent tables however it ends: in every cycle the spent cost is the exact
  sum of what its attempts cost, no settled attempt or finished stage has changed, no cycle is lost.
\<close>

theorem run_keeps_ledger:
  assumes ok: "runtime_ok (wo_db w)" and others: "\<forall>n. list_all exact_cost (en_others env n)"
  shows "runtime_ok (wo_db (snd (run_once env ru rq w))) \<and> progress (wo_db w) (wo_db (snd (run_once env ru rq w))) \<and>
    (\<forall>c \<in> set (rt_cycles (wo_db (snd (run_once env ru rq w)))).
       cy_spent_cost c = charged (wo_db (snd (run_once env ru rq w))) (cy_cycle_ref c))"
proof -
  obtain token ops where ops: "wo_db (snd (run_once env ru rq w)) = run_runtime ops (wo_db w)" "list_all (run_op env rq token) ops"
    using run_once_history by blast
  then have "list_all exact_cost ops" using others by (auto simp: list_all_iff run_op_def own_op_def)
  then have "runtime_ok (wo_db (snd (run_once env ru rq w)))" "progress (wo_db w) (wo_db (snd (run_once env ru rq w)))"
    using ledger.run_inv [OF ok] ledger.run_steps [OF ok] ops(1) by simp_all
  then show ?thesis by (simp add: runtime_ok_def)
qed

section \<open>The handler calls of a run\<close>

definition calls :: "runtime_stage list \<Rightarrow> string \<Rightarrow> 'a run \<Rightarrow> bool" where
  \<comment> \<open>handlers are called for some of these stages, in this order, all for this cycle\<close>
  "calls ss ref m \<longleftrightarrow> (\<forall>w. \<exists>hs. wo_handled (snd (m w)) = wo_handled w @ hs \<and> subseq (map ac_stage hs) ss \<and>
     list_all (\<lambda>ctx. cs_cycle_ref (ac_cycle ctx) = ref) hs)"

lemma calls_quiet: "respecting quiet m \<Longrightarrow> calls ss ref m"
  unfolding calls_def by (auto simp: respecting_def quiet_def intro!: exI [of _ "[]"])

lemma calls_bind:
  assumes "calls ss ref m" and "\<And>x. calls ts ref (k x)"
  shows "calls (ss @ ts) ref (bind m k)"
  unfolding calls_def
proof
  fix w
  obtain hs where hs: "wo_handled (snd (m w)) = wo_handled w @ hs" "subseq (map ac_stage hs) ss"
      "list_all (\<lambda>ctx. cs_cycle_ref (ac_cycle ctx) = ref) hs"
    using assms(1) unfolding calls_def by blast
  show "\<exists>hs. wo_handled (snd (bind m k w)) = wo_handled w @ hs \<and> subseq (map ac_stage hs) (ss @ ts) \<and>
     list_all (\<lambda>ctx. cs_cycle_ref (ac_cycle ctx) = ref) hs"
  proof (cases "m w")
    case (Pair r w1)
    show ?thesis
    proof (cases r)
      case (Inl e)
      then show ?thesis using hs Pair
        by (intro exI [of _ hs]) (auto simp: bind_def intro: subseq_rev_drop_many list_emb_append2)
    next
      case (Inr x)
      obtain hs' where "wo_handled (snd (k x w1)) = wo_handled w1 @ hs'" "subseq (map ac_stage hs') ts"
          "list_all (\<lambda>ctx. cs_cycle_ref (ac_cycle ctx) = ref) hs'"
        using assms(2) unfolding calls_def by blast
      then show ?thesis using hs Pair Inr
        by (intro exI [of _ "hs @ hs'"]) (auto simp: bind_def intro: list_emb_append_mono)
    qed
  qed
qed

lemma calls_mono: "calls ss ref m \<Longrightarrow> subseq ss ts \<Longrightarrow> calls ts ref m"
  unfolding calls_def by (meson subseq_order.trans)

lemma calls_after: "respecting quiet m \<Longrightarrow> (\<And>x. calls ts ref (k x)) \<Longrightarrow> calls ts ref (bind m k)"
  by (rule calls_bind [where ss = "[]", simplified]) (simp_all add: calls_quiet)

lemma calls_before: "calls ss ref m \<Longrightarrow> (\<And>x. respecting quiet (k x)) \<Longrightarrow> calls ss ref (bind m k)"
  by (rule calls_bind [where ts = "[]", simplified]) (simp_all add: calls_quiet)

lemma calls_if: "calls ss ref a \<Longrightarrow> calls ss ref b \<Longrightarrow> calls ss ref (if c then a else b)"
  by simp

lemma calls_yield: "calls ss ref (yield x)"
  by (rule calls_quiet [OF quiet.respects_yield])

lemma quiet_transaction: "respecting quiet (transaction env f)"
  by (auto simp: respecting_def quiet_def transaction_def Let_def tick_def split: option.split sum.split)

lemma calls_dispatch: "calls [stage] (cs_cycle_ref cycle) (dispatch env ru rq token stage p cycle snapshot stamp)"
proof (cases "registry_execute stage p cycle snapshot (rq_allow_qa_provider_mutations rq) True stamp")
  case (Dispatch ctx)
  then have "ac_stage ctx = stage" "ac_cycle ctx = cycle" using registry_refuses by blast+
  then have "calls [stage] (cs_cycle_ref cycle) (call_handler env owner token secs ctx)" for owner secs
    by (auto simp: calls_def call_handler_def Let_def tick_def intro!: exI [of _ "[ctx]"])
  then show ?thesis using Dispatch by (simp add: dispatch_def)
qed (auto simp: dispatch_def intro!: calls_quiet quiet.respects_yield quiet.respects_throw)

lemma calls_execute: "calls [stage] (cs_cycle_ref cycle) (execute_stage env ru rq token stage cycle snapshot stamp)"
  unfolding execute_stage_def Let_def
  by (rule calls_after, rule quiet_transaction, rule calls_if, rule calls_yield, rule calls_after, rule quiet.respects_bound,
      rule calls_if, rule calls_yield, rule calls_if, rule calls_yield, rule calls_before [OF calls_dispatch],
      intro quiet.respects_if quiet.respects_yield)

lemma calls_stage: "calls [stage] (cs_cycle_ref cycle) (run_stage env ru rq token started_at cycle stage spent)"
proof -
  have perform: "calls [stage] (cs_cycle_ref cycle) (perform_stage env ru rq token cycle stage snapshot spent now)" for snapshot now
    using calls_execute [of stage "cycle\<lparr> cs_status := CYCLE_RUNNING, cs_next_stage := Some stage, cs_spent_cost := spent \<rparr>"]
    by (auto simp: perform_stage_def intro: calls_quiet quiet.respects_yield)
  have local_now: "respecting quiet (set_local (\<lambda>w. w\<lparr> wo_now := now \<rparr>))" for now
    by (simp add: respecting_def set_local_def quiet_def)
  have stopped: "respecting quiet (bind m (\<lambda>_. bind (emit_cycle ref status code) (\<lambda>_. bind (lift r) (\<lambda>x. yield (Inl x)))))"
    if "respecting quiet m" for m :: "'a run" and ref status code and r :: "(run_exn, run_result) result"
    using that by (intro quiet.respects_bind quiet.respects_emit quiet.respects_lift quiet.respects_yield)
  have settled: "calls [stage] (cs_cycle_ref cycle) (bind (perform_stage env ru rq token cycle stage snapshot spent now)
      (settle_stage env ru rq token (cs_cycle_ref cycle) stage snapshot))" for snapshot now
    by (rule calls_before [OF perform quiet.respects_settle])
  show ?thesis
    unfolding run_stage_def Let_def
    by (rule calls_after, rule quiet.respects_locals, rule calls_after, rule quiet.respects_read_now, rule calls_after, rule local_now,
        rule calls_if, rule calls_quiet [OF stopped [OF quiet.respects_close]], rule calls_after, rule quiet_transaction,
        rule calls_after, rule quiet.respects_locals, rule calls_if, rule calls_quiet [OF stopped [OF quiet.respects_observe]],
        rule calls_after, rule quiet.respects_observe, rule calls_after, rule quiet.respects_event, rule settled)
qed

lemma calls_stages: "calls stages (cs_cycle_ref cycle) (run_stages env ru rq token started_at cycle stages spent)"
proof (induction stages arbitrary: spent)
  case Nil
  have "respecting quiet (run_stages env ru rq token started_at cycle [] spent)"
    using quiet.respects_complete by (simp add: respecting_def)
  then show ?case by (rule calls_quiet)
next
  case (Cons stage stages)
  have "calls ([stage] @ stages) (cs_cycle_ref cycle) (run_stages env ru rq token started_at cycle (stage # stages) spent)"
    unfolding run_stages.simps
    by (rule calls_bind [OF calls_stage]) (auto intro: Cons.IH calls_quiet quiet.respects_yield split: sum.split)
  then show ?case by simp
qed

lemma calls_cycle: "calls STAGES (cs_cycle_ref cycle) (run_cycle env ru rq token now cycle)"
proof (cases "cs_next_stage cycle")
  case None
  then show ?thesis unfolding run_cycle_def Let_def
    by (auto intro!: calls_quiet quiet.respects_steps quiet.respects_emit quiet.respects_complete)
next
  case (Some nx)
  have "subseq (dropWhile (\<lambda>s. s \<noteq> nx) STAGES) STAGES" by (rule suffix_imp_subseq [OF suffix_dropWhile])
  with calls_stages have "calls STAGES (cs_cycle_ref cycle)
      (run_stages env ru rq token now cycle (dropWhile (\<lambda>s. s \<noteq> nx) STAGES) (cs_spent_cost cycle))"
    by (rule calls_mono)
  then show ?thesis using Some by (simp add: run_cycle_def)
qed

definition one_cycle :: "'a run \<Rightarrow> bool" where
  "one_cycle m \<longleftrightarrow> (\<forall>w. \<exists>ref hs. wo_handled (snd (m w)) = wo_handled w @ hs \<and> subseq (map ac_stage hs) STAGES \<and>
     list_all (\<lambda>ctx. cs_cycle_ref (ac_cycle ctx) = ref) hs)"

lemma one_cycle_calls: "calls STAGES ref m \<Longrightarrow> one_cycle m"
  unfolding calls_def one_cycle_def by blast

lemma one_cycle_quiet: "respecting quiet m \<Longrightarrow> one_cycle m"
  by (rule one_cycle_calls [OF calls_quiet])

lemma one_cycle_after: "respecting quiet m \<Longrightarrow> (\<And>x. one_cycle (k x)) \<Longrightarrow> one_cycle (bind m k)"
  unfolding one_cycle_def bind_def respecting_def quiet_def
  by (auto split: prod.split sum.split) (metis append_Nil2 list.map_disc_iff list.pred_inject(1) list_emb_Nil snd_conv)+

lemma one_cycle_body: "one_cycle (run_body env ru rq token now)"
proof -
  have "one_cycle (bind (transaction env f) (\<lambda>cycle. bind (set_local (\<lambda>w. w\<lparr> wo_cycle := Some cycle \<rparr>)) (\<lambda>_.
      bind (observe_cycle env (rq_owner_ref rq) token (cs_cycle_ref cycle) now) (\<lambda>_.
      bind (event ''cycle'' ''started'' ''CYCLE_RESUMED'' 0 (Some (cs_cycle_ref cycle)) None) (\<lambda>_.
      run_cycle env ru rq token now cycle)))))" for f
    by (intro one_cycle_after quiet_transaction quiet.respects_locals(3) quiet.respects_observe quiet.respects_event
        one_cycle_calls [OF calls_cycle])
  moreover have "one_cycle (case sd_reason_codes d of [] \<Rightarrow> throw RunOther | reason # _ \<Rightarrow>
      bind (event ''cycle'' ''blocked'' reason 0 None (Some (stage_value (sd_stage d)))) (\<lambda>_.
      lift (RuntimeRunResult RUN_BLOCKED None (Some (sd_stage d)) (Some reason))))" for d
    by (auto intro!: one_cycle_quiet quiet.respects_steps split: list.split)
  ultimately show ?thesis
    unfolding run_body_def
    by (intro one_cycle_after quiet_transaction) (auto split: option.split)
qed

lemma one_cycle_owned: "one_cycle (owned_run env ru rq token now)"
proof -
  have "wo_handled (snd (owned_run env ru rq token now w)) = wo_handled (snd (run_body env ru rq token now
      (snd (event ''lease'' ''started'' ''LEASE_ACQUIRED'' 0 None None w))))" for w
    using quiet.respects_recover quiet.respects_release
    by (simp add: owned_run_def split_beta respecting_def quiet_def)
  moreover have "wo_handled (snd (event ''lease'' ''started'' ''LEASE_ACQUIRED'' 0 None None w)) = wo_handled w" for w
    by (simp add: event_def)
  ultimately show ?thesis using one_cycle_body unfolding one_cycle_def by metis
qed

lemma one_cycle_run: "one_cycle (run_once env ru rq)"
proof -
  have "respecting quiet (set_local fresh_locals)" "respecting quiet (set_local (\<lambda>w. w\<lparr> wo_now := now \<rparr>))"
      "respecting quiet (set_local (\<lambda>w. w\<lparr> wo_token := t \<rparr>))" for now t
    by (simp_all add: respecting_def set_local_def quiet_def fresh_locals_def)
  then show ?thesis unfolding run_once_def
    by (auto intro!: one_cycle_after quiet.respects_read_now quiet_transaction one_cycle_owned one_cycle_quiet [OF quiet.respects_lift]
        quiet.respects_event split: option.split)
qed

text \<open>
  C24. The handlers a run calls. A run calls the handlers of some of the stages, each at most once, in
  the order of the stages, all for the same cycle. Each is called with a proposal for the command of its
  stage, for that cycle and at the fixed cost of the stage; and the handler that hands over to
  providers is never called unless the request allows provider mutations.
\<close>

theorem handlers_in_order:
  "\<exists>ref hs. wo_handled (snd (run_once env ru rq w)) = wo_handled w @ hs \<and> subseq (map ac_stage hs) STAGES \<and>
     list_all (\<lambda>ctx. cs_cycle_ref (ac_cycle ctx) = ref \<and> rp_target_ref (ac_proposal ctx) = ref \<and>
       rp_command (ac_proposal ctx) = stage_command (ac_stage ctx) \<and>
       rp_estimated_cost (ac_proposal ctx) = KIVOU_STAGE_COSTS (ac_stage ctx) \<and>
       (ac_stage ctx \<noteq> STAGE_PROVIDER_HANDOFF \<or> rq_allow_qa_provider_mutations rq)) hs"
proof -
  obtain ref hs where hs: "wo_handled (snd (run_once env ru rq w)) = wo_handled w @ hs" "subseq (map ac_stage hs) STAGES"
      "list_all (\<lambda>ctx. cs_cycle_ref (ac_cycle ctx) = ref) hs"
    using one_cycle_run unfolding one_cycle_def by blast
  have "\<exists>token. trace_steps rq w (snd (run_once env ru rq w)) \<and> (wo_token (snd (run_once env ru rq w)) = None \<or>
      wo_token (snd (run_once env ru rq w)) = Some token)"
    by (rule run_once_respects [where S = "\<lambda>_. trace_steps rq"])
       (auto simp: fresh_locals_def trace_steps_def intro: trace.handler_relation_axioms)
  then have "list_all (cleared rq) hs" using hs(1) by (auto simp: trace_steps_def)
  with hs show ?thesis by (intro exI [of _ ref] exI [of _ hs]) (auto simp: cleared_def list_all_iff)
qed

section \<open>The lease after a run\<close>

lemma released_after:
  assumes "is_aware (wo_now w)" and "en_fault env (wo_tick w) = None"
  shows "\<forall>row. rt_lease (wo_db (snd (release env rq token w))) = Some row \<longrightarrow> \<not> holds row (rq_owner_ref rq) token"
  using assms
  by (auto simp: release_def bind_def transaction_def release_lease_def require_aware_def event_def Let_def tick_def
      holds_def free_lease_def split: option.split_asm if_split_asm) (metis lease_row.select_convs(1) option.distinct(1))

lemma release_tick: "wo_tick (snd (release env rq token w)) = wo_tick w + 1"
  by (auto simp: release_def bind_def transaction_def event_def Let_def tick_def split: option.split sum.split)

lemma transaction_locals: "wo_token (snd (transaction env f w)) = wo_token w" "wo_now (snd (transaction env f w)) = wo_now w"
  by (auto simp: transaction_def Let_def tick_def split: option.split sum.split)

lemma owned_last:
  obtains w' where "steady w w'" "snd (owned_run env ru rq token now w) = snd (release env rq token w')"
proof -
  let ?w1 = "snd (event ''lease'' ''started'' ''LEASE_ACQUIRED'' 0 None None w)"
  let ?w2 = "snd (run_body env ru rq token now ?w1)"
  let ?w3 = "snd (recover env rq token (fst (run_body env ru rq token now ?w1)) ?w2)"
  have "steady w ?w1" "steady ?w1 ?w2" "steady ?w2 ?w3"
    using steady.respects_event steady.respects_body steady.respects_recover by (simp_all add: respecting_def)
  then have "steady w ?w3" by (simp add: steady_def)
  moreover have "snd (owned_run env ru rq token now w) = snd (release env rq token ?w3)"
    by (simp add: owned_run_def split_beta)
  ultimately show ?thesis by (rule that)
qed

text \<open>
  C25. The lease is released. However a run ends, with a result, interrupted, by a failure or by an exit
  from a handler, it does not hold the lease afterwards under the token it acquired, unless the very
  call that releases it raised.
\<close>

theorem lease_released:
  assumes token: "wo_token (snd (run_once env ru rq w)) = Some t"
    and last: "en_fault env (wo_tick (snd (run_once env ru rq w)) - 1) = None"
  shows "\<forall>row. rt_lease (wo_db (snd (run_once env ru rq w))) = Some row \<longrightarrow> \<not> holds row (rq_owner_ref rq) t"
proof (cases rule: run_once_cases [of env ru rq w])
  case (unaware e)
  then show ?thesis using token by (simp add: fresh_locals_def tick_def)
next
  case (unowned r w')
  then have "wo_token w' = None" by (auto simp: transaction_locals event_def fresh_locals_def tick_def)
  then show ?thesis using token unowned(2) by simp
next
  case (owned t')
  define v where "v = (snd (transaction env (\<lambda>db u. acquire_lease db u (rq_owner_ref rq) (to_utc (en_clock env (wo_tick w)))
      (ru_lease_seconds ru)) ((tick (fresh_locals w))\<lparr> wo_now := to_utc (en_clock env (wo_tick w)) \<rparr>)))\<lparr> wo_token := Some t' \<rparr>"
  obtain w' where w': "steady v w'" "snd (run_once env ru rq w) = snd (release env rq t' w')"
    using owned(2) owned_last [of v] unfolding v_def by metis
  have "wo_token v = Some t'" "is_aware (wo_now v)" using owned(1) by (simp_all add: v_def transaction_locals)
  then have aware: "wo_token w' = Some t'" "is_aware (wo_now w')" using w'(1) by (simp_all add: steady_def)
  have "steady w' (snd (release env rq t' w'))" using steady.respects_release by (simp add: respecting_def)
  then have "t' = t" using token w'(2) aware(1) by (simp add: steady_def)
  moreover have "en_fault env (wo_tick w') = None" using last w'(2) by (simp add: release_tick)
  ultimately show ?thesis using released_after [OF aware(2)] w'(2) by simp
qed

lemma finished_shape:
  assumes "finish_stage db now ref stage result owner token stamp proposal = Inr (u, db')"
  shows "retry_shape (ar_status result) (ar_retry_at result) (ar_replay_same_attempt result)"
  using assms
proof (cases rule: finish_cases)
  case (1 row reserved db1 db2 f)
  have "rt_stages db1 = rt_stages db" using 1(3) by (cases rule: settle_cases) (auto simp: update_attempt_Inr)
  then have "stage_row_ok (f row)" using 1(1,4) by (auto simp: update_stage_Inr dest: find_Some_set)
  then show ?thesis using 1(5) [of row] by (simp add: stage_row_ok_def)
qed

lemma settled_observed:
  assumes ok: "runtime_ok db" and run: "settle_attempt db ref stage n result proposal t = Inr (reserved, db1)"
    and a: "a \<in> set (rt_attempts db1)" "is_attempt ref stage n a"
  shows "at_observed_cost a = cost_column (ar_observed_cost result)"
  using run
proof (cases rule: settle_cases)
  case (late b)
  then have "a = b" using a by (auto simp: find_None_iff)
  then show ?thesis using late by simp
next
  case (settled b)
  let ?f = "\<lambda>r. r\<lparr> at_status := ar_status result, at_observed_cost := cost_column (ar_observed_cost result),
    at_retry_at := ar_retry_at result, at_replay_same_attempt := ar_replay_same_attempt result, at_completed_at := Some t \<rparr>"
  obtain c where c: "c \<in> set (rt_attempts db)" "a = (if is_attempt ref stage n c \<and> at_status c = STAGE_RUNNING then ?f c else c)"
    using settled(4) a(1) by (auto simp: update_attempt_Inr)
  then have "is_attempt ref stage n c" using a(2) by (simp add: is_attempt_def split: if_split_asm)
  then have "c = b" using found_attempt [OF ok settled(1)] c(1) by blast
  then show ?thesis using c(2) settled(2) \<open>is_attempt ref stage n c\<close> by simp
qed


section \<open>Samples\<close>

definition sample_env :: runner_env where
  "sample_env = \<lparr> en_clock = (\<lambda>_. sample_stamp 0), en_db_now = (\<lambda>_. 0), en_others = (\<lambda>_. []),
     en_fault = (\<lambda>_. None), en_hermes = (\<lambda>_. sample_session),
     en_handler = (\<lambda>_ _. \<lparr> ha_protected = [], ha_result = Inl RunExit \<rparr>) \<rparr>"

definition sample_capability :: runtime_capability where
  "sample_capability = \<lparr> ca_environment = ''STAGING'', ca_mode = MODE_SHADOW, ca_qa_only = True,
     ca_hermes = \<lparr> rh_repository = ''r'', rh_tag = ''t'', rh_commit = replicate 40 CHR ''a'', rh_version = ''0.1'',
       rh_python_contract = ''3.12'' \<rparr>,
     ca_registry_identity = replicate 64 CHR ''b'', ca_native_tools = 0, ca_commands = map stage_command STAGES,
     ca_dependencies = map (\<lambda>s. \<lparr> sd_stage = s, sd_ready = True, sd_reason_codes = [] \<rparr>) STAGES \<rparr>"

definition sample_runner :: runner where
  "sample_runner = \<lparr> ru_allowed_opportunity_keys = [''tender:1''], ru_config_fingerprint = replicate 64 CHR ''a'',
     ru_maximum_cost = 50, ru_maximum_wall = 240, ru_lease_seconds = 300, ru_capability = sample_capability,
     ru_pin = \<lparr> hp_version = ''0.1'', hp_commit = ''c'' \<rparr> \<rparr>"

definition sample_request :: run_request where
  "sample_request = \<lparr> rq_owner_ref = ''runner-a'', rq_allow_qa_provider_mutations = False \<rparr>"

definition sample_world :: "runtime_db \<Rightarrow> run_world" where
  "sample_world db = \<lparr> wo_db = db, wo_tick = 0, wo_events = [], wo_handled = [], wo_now = sample_stamp 0, wo_token = None,
     wo_cycle = None, wo_stage = None, wo_attempt = 0 \<rparr>"

theorem run_keeps_ledger_witness:
  "runtime_ok (wo_db (snd (run_once sample_env sample_runner sample_request (sample_world sample_runtime))))"
proof -
  have "runtime_ok (wo_db (sample_world sample_runtime))" using sample_runtime_ok by (simp add: sample_world_def)
  moreover have "\<forall>n. list_all exact_cost (en_others sample_env n)" by (simp add: sample_env_def)
  ultimately show ?thesis using run_keeps_ledger by blast
qed

lemma sample_owned:
  "\<exists>w. run_once sample_env sample_runner sample_request (sample_world empty_runtime) =
     owned_run sample_env sample_runner sample_request 1 (sample_stamp 0) w \<and> wo_token w = Some 1"
proof -
  have utc: "is_aware (sample_stamp 0)" "to_utc (sample_stamp 0) = sample_stamp 0" by code_simp+
  have acquired: "transaction sample_env (\<lambda>db t. acquire_lease db t ''runner-a'' (sample_stamp 0) 300) w =
      (Inr (sample_lease 1), (tick w)\<lparr> wo_db := sample_leased ''runner-a'' 0 1 \<rparr>)" if "wo_db w = empty_runtime" for w
    using that sample_acquired(1) by (simp add: transaction_def sample_env_def run_runtime_def)
  have "read_now sample_env w = (Inr (sample_stamp 0), tick w)" for w
    using utc by (simp add: read_now_def sample_env_def)
  then show ?thesis
    using acquired by (simp add: run_once_def bind_def set_local_def fresh_locals_def sample_world_def sample_request_def sample_runner_def
        tick_def sample_lease_def) (intro exI conjI, rule refl, simp)
qed

theorem handlers_in_order_witness:
  "\<exists>ref hs. wo_handled (snd (run_once sample_env sample_runner sample_request (sample_world empty_runtime))) = hs \<and>
     subseq (map ac_stage hs) STAGES \<and>
     list_all (\<lambda>ctx. cs_cycle_ref (ac_cycle ctx) = ref \<and> ac_stage ctx \<noteq> STAGE_PROVIDER_HANDOFF) hs"
proof -
  have "wo_handled (sample_world empty_runtime) = []" "\<not> rq_allow_qa_provider_mutations sample_request"
    by (simp_all add: sample_world_def sample_request_def)
  with handlers_in_order [of sample_env sample_runner sample_request "sample_world empty_runtime"] show ?thesis
    by (auto simp: list_all_iff)
qed

theorem lease_released_witness:
  "\<not> (\<exists>row. rt_lease (wo_db (snd (run_once sample_env sample_runner sample_request (sample_world empty_runtime)))) = Some row \<and>
     holds row ''runner-a'' 1)"
proof -
  let ?w = "snd (run_once sample_env sample_runner sample_request (sample_world empty_runtime))"
  have "wo_token ?w = Some 1"
    using sample_owned steady.respects_owned by (metis respecting_def steady_def)
  moreover have "en_fault sample_env (wo_tick ?w - 1) = None" by (simp add: sample_env_def)
  moreover have "rq_owner_ref sample_request = ''runner-a''" by (simp add: sample_request_def)
  ultimately show ?thesis using lease_released by metis
qed


end
