(* ===== verification/Recency.thy ===== *)
theory Recency
  imports PyJson PyTime "HOL-Library.Sublist"
begin

text \<open>
  How fresh an award is and what may be said of it: \<open>recency/policy.py\<close> (three clocks judged
  separately, then one derived status), \<open>recency/claim.py\<close> (the sentence a status allows and its event
  type) and \<open>feed/policy.py\<close> (which statuses a view of the feed admits, the date window it reads and
  the ranks it sorts by). Dates are \<open>date\<close> records, an absent one is \<open>None\<close>, and \<open>(a - b).days\<close> is
  \<open>days_between\<close>.

  Shown here: \<open>recent_award\<close> is derived from the award date alone, exactly within its bounds; a
  sentence that announces a win is written for \<open>recent_award\<close> only, whatever the name of the company;
  and the date window the feed reads never loses a row whose status it admits.
\<close>

section \<open>Clocks\<close>

definition RECENCY_POLICY_VERSION :: string where "RECENCY_POLICY_VERSION = ''award-recency-v0.3''"
definition RECENT_AWARD_DAYS :: int where "RECENT_AWARD_DAYS = 30"
definition AGING_AWARD_DAYS :: int where "AGING_AWARD_DAYS = 60"
definition RECENT_PUBLICATION_DAYS :: int where "RECENT_PUBLICATION_DAYS = 30"
definition RECENT_NOTIFICATION_DAYS :: int where "RECENT_NOTIFICATION_DAYS = 30"
definition PUBLICATION_TOLERANCE_DAYS :: int where "PUBLICATION_TOLERANCE_DAYS = 1"
definition IMPLAUSIBLE_AWARD_AGE_DAYS :: int where "IMPLAUSIBLE_AWARD_AGE_DAYS = 3650"

lemmas recency_constants = RECENT_AWARD_DAYS_def AGING_AWARD_DAYS_def RECENT_PUBLICATION_DAYS_def
  RECENT_NOTIFICATION_DAYS_def PUBLICATION_TOLERANCE_DAYS_def IMPLAUSIBLE_AWARD_AGE_DAYS_def

datatype award_status = RECENT_AWARD | AGING_AWARD | STALE_AWARD | RECENTLY_NOTIFIED_CONTRACT
  | RECENTLY_PUBLISHED_AWARD | AWARD_DATE_UNKNOWN | INVALID_AWARD_DATE

datatype clock_status = CLOCK_RECENT | CLOCK_AGING | CLOCK_STALE | CLOCK_UNKNOWN | CLOCK_INVALID

record clock_assessment =
  ca_clock :: string
  ca_status :: clock_status
  ca_date :: "date option"
  ca_age_days :: "int option"
  ca_reason :: string

definition is_recent :: "clock_assessment \<Rightarrow> bool" where
  "is_recent c \<longleftrightarrow> ca_status c = CLOCK_RECENT"

definition is_dated :: "clock_assessment \<Rightarrow> bool" where
  "is_dated c \<longleftrightarrow> ca_status c \<in> {CLOCK_RECENT, CLOCK_AGING, CLOCK_STALE}"

text \<open>The accented letters of the French sentences.\<close>

definition e_acute :: string where "e_acute = [CHR 0xE9]"
definition e_circ :: string where "e_circ = [CHR 0xEA]"
definition a_grave :: string where "a_grave = [CHR 0xE0]"
definition a_circ :: string where "a_circ = [CHR 0xE2]"

definition assess_clock ::
  "string \<Rightarrow> date option \<Rightarrow> date \<Rightarrow> int \<Rightarrow> int \<Rightarrow> date option \<Rightarrow> int \<Rightarrow> clock_assessment" where
  "assess_clock clock value as_of recent_days aging_days not_after tolerance_days =
     (case value of
        None \<Rightarrow> \<lparr> ca_clock = clock, ca_status = CLOCK_UNKNOWN, ca_date = None, ca_age_days = None,
           ca_reason = ''aucune date de '' @ clock @ '' publi'' @ e_acute @ ''e par la source'' \<rparr>
      | Some v \<Rightarrow>
          (let age = days_between as_of v;
               judged = (\<lambda>status reason. \<lparr> ca_clock = clock, ca_status = status, ca_date = Some v,
                  ca_age_days = Some age, ca_reason = reason \<rparr>)
           in if age < 0
              then judged CLOCK_INVALID (''date de '' @ clock @ '' dans le futur ('' @ date_isoformat v @ '')'')
              else if age > IMPLAUSIBLE_AWARD_AGE_DAYS
              then judged CLOCK_INVALID (a_circ @ ''ge invraisemblable : '' @ int_str age @ '' jours ('' @ date_isoformat v @ '')'')
              else (case not_after of
                  Some limit \<Rightarrow>
                    if days_between v limit > tolerance_days
                    then judged CLOCK_INVALID (''date de '' @ clock @ '' post'' @ e_acute @
                      ''rieure '' @ a_grave @ '' sa propre publication de '' @ int_str (days_between v limit) @ '' jours'')
                    else judged (if age \<le> recent_days then CLOCK_RECENT else if age \<le> aging_days then CLOCK_AGING else CLOCK_STALE)
                      (''date de '' @ clock @ '' il y a '' @ int_str age @ '' jours'')
                | None \<Rightarrow>
                    judged (if age \<le> recent_days then CLOCK_RECENT else if age \<le> aging_days then CLOCK_AGING else CLOCK_STALE)
                      (''date de '' @ clock @ '' il y a '' @ int_str age @ '' jours''))))"

definition primary_recency :: "clock_assessment \<Rightarrow> clock_assessment \<Rightarrow> clock_assessment \<Rightarrow> award_status \<times> string" where
  "primary_recency award notification publication =
     (if is_recent award then (RECENT_AWARD, ca_reason award)
      else if is_recent notification then (RECENTLY_NOTIFIED_CONTRACT, ca_reason notification)
      else if ca_status award = CLOCK_AGING then (AGING_AWARD, ca_reason award)
      else if ca_status award = CLOCK_STALE then (STALE_AWARD, ca_reason award)
      else if ca_status award = CLOCK_INVALID then (INVALID_AWARD_DATE, ca_reason award)
      else if is_recent publication then (RECENTLY_PUBLISHED_AWARD, ca_reason publication)
      else (AWARD_DATE_UNKNOWN, ''aucune horloge exploitable''))"

record award_recency =
  rc_status :: award_status
  rc_reason :: string
  rc_policy_version :: string
  rc_award_clock :: clock_assessment
  rc_notification_clock :: clock_assessment
  rc_publication_clock :: clock_assessment
  rc_award_date :: "date option"
  rc_contract_notification_date :: "date option"
  rc_publication_date :: "date option"
  rc_discovered_at :: "date option"
  rc_award_age_days :: "int option"
  rc_notification_age_days :: "int option"
  rc_publication_age_days :: "int option"
  rc_publication_delay_days :: "int option"
  rc_notification_delay_days :: "int option"
  rc_discovery_delay_from_publication :: "int option"
  rc_discovery_delay_from_award :: "int option"

text \<open>The delay between two dates when both are known.\<close>

definition delay :: "date option \<Rightarrow> date option \<Rightarrow> int option" where
  "delay later earlier = (case (later, earlier) of (Some a, Some b) \<Rightarrow> Some (days_between a b) | _ \<Rightarrow> None)"

text \<open>The dates a caller passes and the thresholds, which default to the constants of the module.\<close>

record recency_dates =
  rd_award_date :: "date option"
  rd_contract_notification_date :: "date option"
  rd_publication_date :: "date option"
  rd_discovered_at :: "date option"

record recency_thresholds =
  th_recent_award_days :: int
  th_aging_award_days :: int
  th_recent_publication_days :: int
  th_recent_notification_days :: int

definition default_thresholds :: recency_thresholds where
  "default_thresholds = \<lparr> th_recent_award_days = RECENT_AWARD_DAYS, th_aging_award_days = AGING_AWARD_DAYS,
     th_recent_publication_days = RECENT_PUBLICATION_DAYS, th_recent_notification_days = RECENT_NOTIFICATION_DAYS \<rparr>"

definition assess_recency :: "recency_thresholds \<Rightarrow> recency_dates \<Rightarrow> date \<Rightarrow> award_recency" where
  "assess_recency th d as_of =
     (let award = assess_clock ''award'' (rd_award_date d) as_of (th_recent_award_days th) (th_aging_award_days th)
            (rd_publication_date d) PUBLICATION_TOLERANCE_DAYS;
          notification = assess_clock ''notification'' (rd_contract_notification_date d) as_of
            (th_recent_notification_days th) (th_aging_award_days th) None PUBLICATION_TOLERANCE_DAYS;
          publication = assess_clock ''publication'' (rd_publication_date d) as_of
            (th_recent_publication_days th) (th_aging_award_days th) None PUBLICATION_TOLERANCE_DAYS;
          (status, reason) = primary_recency award notification publication
      in \<lparr> rc_status = status, rc_reason = reason, rc_policy_version = RECENCY_POLICY_VERSION,
           rc_award_clock = award, rc_notification_clock = notification, rc_publication_clock = publication,
           rc_award_date = rd_award_date d, rc_contract_notification_date = rd_contract_notification_date d,
           rc_publication_date = rd_publication_date d, rc_discovered_at = rd_discovered_at d,
           rc_award_age_days = ca_age_days award, rc_notification_age_days = ca_age_days notification,
           rc_publication_age_days = ca_age_days publication,
           rc_publication_delay_days = delay (rd_publication_date d) (rd_award_date d),
           rc_notification_delay_days = delay (rd_publication_date d) (rd_contract_notification_date d),
           rc_discovery_delay_from_publication = delay (rd_discovered_at d) (rd_publication_date d),
           rc_discovery_delay_from_award = delay (rd_discovered_at d) (rd_award_date d) \<rparr>)"

definition CLAIMABLE_JUST_WON :: "award_status list" where "CLAIMABLE_JUST_WON = [RECENT_AWARD]"

definition may_claim_just_won :: "award_recency \<Rightarrow> bool" where
  "may_claim_just_won r \<longleftrightarrow> rc_status r \<in> set CLAIMABLE_JUST_WON"

definition is_datable :: "award_recency \<Rightarrow> bool" where
  "is_datable r \<longleftrightarrow> rc_status r \<in> {RECENT_AWARD, AGING_AWARD, STALE_AWARD}"

definition is_notification_dated :: "award_recency \<Rightarrow> bool" where
  "is_notification_dated r \<longleftrightarrow> is_dated (rc_notification_clock r)"

definition has_recent_notification :: "award_recency \<Rightarrow> bool" where
  "has_recent_notification r \<longleftrightarrow> is_recent (rc_notification_clock r)"

section \<open>Sentences\<close>

fun status_name :: "award_status \<Rightarrow> string" where
  "status_name RECENT_AWARD = ''recent_award''"
| "status_name AGING_AWARD = ''aging_award''"
| "status_name STALE_AWARD = ''stale_award''"
| "status_name RECENTLY_NOTIFIED_CONTRACT = ''recently_notified_contract''"
| "status_name RECENTLY_PUBLISHED_AWARD = ''recently_published_award''"
| "status_name AWARD_DATE_UNKNOWN = ''award_date_unknown''"
| "status_name INVALID_AWARD_DATE = ''invalid_award_date''"

definition JUST_WON_MARKERS :: "string list" where
  "JUST_WON_MARKERS = [''vient de remporter'', ''vient de gagner'', ''a remport'' @ e_acute,
     ''has recently won'', ''just won'', ''has won'']"

definition LANGUAGES :: "string list" where "LANGUAGES = [''fr'', ''en'']"

definition CLAIM_TEMPLATES :: "(string \<times> (string \<times> string) list) list" where
  "CLAIM_TEMPLATES = [
     (''recent_award'', [
       (''fr'', ''{company} vient de remporter un march'' @ e_acute @ '' public.''),
       (''en'', ''{company} has recently won a public contract.'')]),
     (''aging_award'', [
       (''fr'', ''{company} figure comme attributaire d'un march'' @ e_acute @ '' public attribu'' @ e_acute @ '' r'' @ e_acute @ ''cemment.''),
       (''en'', ''{company} is named as the awardee of a recently attributed public contract.'')]),
     (''stale_award'', [
       (''fr'', ''{company} figure comme attributaire d'un march'' @ e_acute @ '' public d'' @ e_acute @ ''j'' @ a_grave @ '' attribu'' @ e_acute @ ''.''),
       (''en'', ''{company} is named as the awardee of an already attributed public contract.'')]),
     (''recently_notified_contract'', [
       (''fr'', ''Un march'' @ e_acute @ '' attribu'' @ e_acute @ '' '' @ a_grave @ '' {company} vient d'' @ [CHR 0x27] @ e_circ @ ''tre notifi'' @ e_acute @ ''.''),
       (''en'', ''A public contract awarded to {company} has recently been notified.'')]),
     (''recently_published_award'', [
       (''fr'', ''Une attribution concernant {company} vient d'' @ [CHR 0x27] @ e_circ @ ''tre publi'' @ e_acute @ ''e.''),
       (''en'', ''An award notice concerning {company} has recently been published.'')]),
     (''award_date_unknown'', [
       (''fr'', ''Un avis d'attribution mentionne {company}, sans date de d'' @ e_acute @ ''cision publi'' @ e_acute @ ''e.''),
       (''en'', ''An award notice names {company}, with no published decision date.'')]),
     (''invalid_award_date'', [
       (''fr'', ''Un avis d'attribution mentionne {company} ; la date publi'' @ e_acute @ ''e est incoh'' @ e_acute @ ''rente.''),
       (''en'', ''An award notice names {company}; the published date is inconsistent.'')])]"

text \<open>
  \<open>template.format(company=company)\<close> for templates whose only braces are those of
  \<open>{company}\<close>.
\<close>

definition placeholder :: string where "placeholder = ''{company}''"

fun format_company :: "string \<Rightarrow> string \<Rightarrow> string" where
  "format_company company [] = []"
| "format_company company (c # cs) =
     (if take 9 (c # cs) = placeholder then company @ format_company company (drop 8 cs) else c # format_company company cs)"

datatype claim_error = Unsupported_language string | Unknown_status string

definition claim_for_status :: "string \<Rightarrow> string \<Rightarrow> string \<Rightarrow> (claim_error, string) result" where
  "claim_for_status status company lang =
     (if lang \<notin> set LANGUAGES then Inl (Unsupported_language lang)
      else (case map_of CLAIM_TEMPLATES status of
          None \<Rightarrow> Inl (Unknown_status status)
        | Some by_lang \<Rightarrow> (case map_of by_lang lang of
              None \<Rightarrow> Inl (Unknown_status status)
            | Some template \<Rightarrow> Inr (format_company company template))))"

definition claim_for :: "award_recency \<Rightarrow> string \<Rightarrow> string \<Rightarrow> (claim_error, string) result" where
  "claim_for recency company lang = claim_for_status (status_name (rc_status recency)) company lang"

definition EVENT_TYPE_BY_STATUS :: "(string \<times> string) list" where
  "EVENT_TYPE_BY_STATUS = [(''recent_award'', ''RECENT_AWARD''),
     (''recently_notified_contract'', ''RECENTLY_NOTIFIED_CONTRACT''),
     (''recently_published_award'', ''RECENTLY_PUBLISHED_AWARD''),
     (''award_date_unknown'', ''RECENTLY_PUBLISHED_AWARD''),
     (''invalid_award_date'', ''RECENTLY_PUBLISHED_AWARD'')]"

definition mvp_event_type :: "string \<Rightarrow> (claim_error, string option) result" where
  "mvp_event_type status =
     (if status \<notin> set (map fst CLAIM_TEMPLATES) then Inl (Unknown_status status)
      else Inr (map_of EVENT_TYPE_BY_STATUS status))"

section \<open>The policy of the feed\<close>

definition FRESHNESS_MODES :: "string list" where
  "FRESHNESS_MODES = [''new'', ''recent_or_aging'', ''all'']"

definition NEW_OPPORTUNITY_STATUSES :: "award_status list" where
  "NEW_OPPORTUNITY_STATUSES = [RECENT_AWARD, RECENTLY_NOTIFIED_CONTRACT, RECENTLY_PUBLISHED_AWARD]"

definition AGING_STATUSES :: "award_status list" where "AGING_STATUSES = [AGING_AWARD]"

definition HISTORY_ONLY_STATUSES :: "award_status list" where
  "HISTORY_ONLY_STATUSES = [STALE_AWARD, AWARD_DATE_UNKNOWN, INVALID_AWARD_DATE]"

definition STATUSES_BY_FRESHNESS :: "(string \<times> award_status list option) list" where
  "STATUSES_BY_FRESHNESS = [(''new'', Some NEW_OPPORTUNITY_STATUSES),
     (''recent_or_aging'', Some (NEW_OPPORTUNITY_STATUSES @ AGING_STATUSES)), (''all'', None)]"

definition statuses_for :: "string \<Rightarrow> (string, award_status list option) result" where
  \<comment> \<open>the error is the unknown mode\<close>
  "statuses_for freshness = (case map_of STATUSES_BY_FRESHNESS freshness of None \<Rightarrow> Inl freshness | Some s \<Rightarrow> Inr s)"

definition candidate_window_days :: "string \<Rightarrow> int option" where
  "candidate_window_days freshness =
     (if freshness = ''new'' then Some RECENT_AWARD_DAYS
      else if freshness = ''recent_or_aging'' then Some AGING_AWARD_DAYS
      else None)"

definition customer_event_type :: "award_status \<Rightarrow> string option" where
  "customer_event_type status = map_of [(RECENT_AWARD, ''recent_award''),
     (RECENTLY_NOTIFIED_CONTRACT, ''recently_notified_contract''),
     (RECENTLY_PUBLISHED_AWARD, ''recently_published_award'')] status"

fun rank_of :: "award_status \<Rightarrow> int" where
  "rank_of RECENT_AWARD = 0"
| "rank_of RECENTLY_NOTIFIED_CONTRACT = 1"
| "rank_of RECENTLY_PUBLISHED_AWARD = 2"
| "rank_of AGING_AWARD = 3"
| "rank_of STALE_AWARD = 4"
| "rank_of INVALID_AWARD_DATE = 5"
| "rank_of AWARD_DATE_UNKNOWN = 6"

text \<open>The clock that decided a status (\<open>STATUS_CLOCK\<close>), read on an assessment.\<close>

fun status_clock :: "award_recency \<Rightarrow> award_status \<Rightarrow> clock_assessment" where
  "status_clock r RECENTLY_NOTIFIED_CONTRACT = rc_notification_clock r"
| "status_clock r RECENTLY_PUBLISHED_AWARD = rc_publication_clock r"
| "status_clock r AWARD_DATE_UNKNOWN = rc_publication_clock r"
| "status_clock r _ = rc_award_clock r"

definition fit_band :: "string option \<Rightarrow> string" where
  "fit_band band = (case band of None \<Rightarrow> ''unknown'' | Some b \<Rightarrow> if b \<in> {''strong'', ''promising'', ''weak''} then b else ''unknown'')"

section \<open>The derived status\<close>

text \<open>A date that a clock calls recent, with the tolerance after its own publication.\<close>

definition recent_date :: "date \<Rightarrow> int \<Rightarrow> date option \<Rightarrow> date option \<Rightarrow> bool" where
  "recent_date as_of days not_after value \<longleftrightarrow> (\<exists>v. value = Some v \<and> 0 \<le> days_between as_of v \<and>
     days_between as_of v \<le> min days IMPLAUSIBLE_AWARD_AGE_DAYS \<and>
     (not_after = None \<or> days_between v (the not_after) \<le> PUBLICATION_TOLERANCE_DAYS))"

lemma clock_recent_iff:
  "is_recent (assess_clock clock value as_of recent aging not_after PUBLICATION_TOLERANCE_DAYS) \<longleftrightarrow>
     recent_date as_of recent not_after value"
  by (auto simp: assess_clock_def is_recent_def recent_date_def Let_def split: option.split)

lemma clock_aging_bounds:
  "ca_status (assess_clock clock value as_of recent aging not_after tol) = CLOCK_AGING \<Longrightarrow>
     \<exists>v. value = Some v \<and> 0 \<le> days_between as_of v \<and> days_between as_of v \<le> aging"
  by (auto simp: assess_clock_def Let_def split: option.splits if_splits)

lemma rc_clocks:
  "rc_award_clock (assess_recency th d as_of) = assess_clock ''award'' (rd_award_date d) as_of (th_recent_award_days th)
     (th_aging_award_days th) (rd_publication_date d) PUBLICATION_TOLERANCE_DAYS"
  "rc_notification_clock (assess_recency th d as_of) = assess_clock ''notification'' (rd_contract_notification_date d) as_of
     (th_recent_notification_days th) (th_aging_award_days th) None PUBLICATION_TOLERANCE_DAYS"
  "rc_publication_clock (assess_recency th d as_of) = assess_clock ''publication'' (rd_publication_date d) as_of
     (th_recent_publication_days th) (th_aging_award_days th) None PUBLICATION_TOLERANCE_DAYS"
  by (simp_all add: assess_recency_def Let_def split_beta)

lemma recent_clocks:
  "recent_date as_of (th_recent_award_days th) (rd_publication_date d) (rd_award_date d) \<longleftrightarrow>
     is_recent (rc_award_clock (assess_recency th d as_of))"
  "recent_date as_of (th_recent_notification_days th) None (rd_contract_notification_date d) \<longleftrightarrow>
     is_recent (rc_notification_clock (assess_recency th d as_of))"
  "recent_date as_of (th_recent_publication_days th) None (rd_publication_date d) \<longleftrightarrow>
     is_recent (rc_publication_clock (assess_recency th d as_of))"
  by (simp_all add: rc_clocks clock_recent_iff)

lemma rc_status_eq:
  "rc_status (assess_recency th d as_of) = fst (primary_recency (rc_award_clock (assess_recency th d as_of))
     (rc_notification_clock (assess_recency th d as_of)) (rc_publication_clock (assess_recency th d as_of)))"
  by (simp add: assess_recency_def Let_def split_beta)

text \<open>
  The three statuses that make an award news. For any dates and thresholds, \<open>recent_award\<close> is derived exactly when the
  award date is known, not in the future, at most the recent threshold (and at most ten years) old and not
  more than a day after the publication; the notification and the discovery play no part. A recent
  notification speaks exactly when the award is not recent, and a recent publication only when the
  source gives no award date at all, so an old, a future or an inconsistent award date is never covered by a fresh publication.
\<close>

theorem news_status_exact:
  "let st = rc_status (assess_recency th d as_of);
       won = recent_date as_of (th_recent_award_days th) (rd_publication_date d) (rd_award_date d);
       notified = recent_date as_of (th_recent_notification_days th) None (rd_contract_notification_date d);
       published = recent_date as_of (th_recent_publication_days th) None (rd_publication_date d)
   in (st = RECENT_AWARD) = won \<and> (st = RECENTLY_NOTIFIED_CONTRACT) = (\<not> won \<and> notified) \<and>
      (st = RECENTLY_PUBLISHED_AWARD) = (rd_award_date d = None \<and> \<not> notified \<and> published)"
proof -
  let ?r = "assess_recency th d as_of"
  have unknown: "ca_status (rc_award_clock ?r) = CLOCK_UNKNOWN \<longleftrightarrow> rd_award_date d = None"
    by (auto simp: rc_clocks assess_clock_def Let_def split: option.split)
  show ?thesis
    unfolding Let_def unknown [symmetric] recent_clocks rc_status_eq primary_recency_def
    by (cases "ca_status (rc_award_clock ?r)") (auto simp: is_recent_def)
qed

section \<open>Which sentences announce a win\<close>

text \<open>\<open>str.lower\<close> on the letters of Latin-1.\<close>

definition lower_char :: "char \<Rightarrow> char" where
  "lower_char c = (let n = (of_char c :: nat)
     in if (65 \<le> n \<and> n \<le> 90) \<or> (192 \<le> n \<and> n \<le> 222 \<and> n \<noteq> 215) then char_of (n + 32) else c)"

definition announces_win :: "string \<Rightarrow> bool" where
  "announces_win text \<longleftrightarrow> list_ex (\<lambda>m. sublist m (map lower_char text)) JUST_WON_MARKERS"

text \<open>
  A marker that is neither in the text before the company nor in the text after it, and of which no
  part is at the edge of either.
\<close>

definition clear_of :: "string \<Rightarrow> string \<Rightarrow> string \<Rightarrow> bool" where
  "clear_of m before after \<longleftrightarrow> \<not> sublist m before \<and> \<not> sublist m after \<and>
     list_all (\<lambda>k. \<not> suffix (take k m) before) [1..<Suc (length m)] \<and>
     list_all (\<lambda>k. \<not> prefix (drop k m) after) [0..<length m]"

lemma clear_of_sublist:
  assumes "clear_of m before after" and "sublist m (before @ middle @ after)"
  shows "sublist m middle"
proof -
  have no_head: "\<not> suffix u before" if "m = u @ v" "u \<noteq> []" for u v
  proof -
    have "take (length u) m = u" "length u \<in> set [1..<Suc (length m)]" using that by (auto simp: Suc_le_eq)
    then show ?thesis using assms(1) unfolding clear_of_def list_all_iff by metis
  qed
  have no_tail: "\<not> prefix v after" if "m = u @ v" "v \<noteq> []" for u v
  proof -
    have "drop (length u) m = v" "length u \<in> set [0..<length m]" using that by auto
    then show ?thesis using assms(1) unfolding clear_of_def list_all_iff by metis
  qed
  have "sublist m (middle @ after)"
    using assms no_head unfolding sublist_append [of m before] clear_of_def
    by (metis append_Nil prefix_imp_sublist)
  then show ?thesis
    using assms(1) no_tail unfolding sublist_append clear_of_def
    by (metis append_Nil2 suffix_imp_sublist)
qed

lemma format_around:
  assumes "CHR ''{'' \<notin> set before" and "CHR ''{'' \<notin> set after"
  shows "format_company company (before @ placeholder @ after) = before @ company @ after"
proof -
  have "format_company company cs = cs" if "CHR ''{'' \<notin> set cs" for cs
    using that by (induction cs) (auto simp: placeholder_def)
  then have "format_company company (placeholder @ after) = company @ after"
    using assms(2) by (simp add: placeholder_def)
  then show ?thesis using assms(1) by (induction before) (auto simp: placeholder_def)
qed

definition template_before :: "string \<Rightarrow> string" where
  "template_before t = takeWhile (\<lambda>c. c \<noteq> CHR ''{'') t"

definition template_after :: "string \<Rightarrow> string" where
  "template_after t = drop 9 (dropWhile (\<lambda>c. c \<noteq> CHR ''{'') t)"

definition one_placeholder :: "string \<Rightarrow> bool" where
  "one_placeholder t \<longleftrightarrow> t = template_before t @ placeholder @ template_after t \<and> CHR ''{'' \<notin> set (template_after t)"

lemma format_template:
  "one_placeholder t \<Longrightarrow> format_company company t = template_before t @ company @ template_after t"
  using format_around [of "template_before t" "template_after t" company] set_takeWhileD
  by (fastforce simp: one_placeholder_def template_before_def)

definition template_silent :: "string \<Rightarrow> bool" where
  "template_silent t \<longleftrightarrow>
     list_all (\<lambda>m. clear_of m (map lower_char (template_before t)) (map lower_char (template_after t))) JUST_WON_MARKERS"

lemma templates_checked:
  "list_all (\<lambda>(status, by_lang). list_all (\<lambda>(lang, t). one_placeholder t \<and> (status = ''recent_award'' \<or> template_silent t)) by_lang) CLAIM_TEMPLATES"
  by code_simp

lemma template_of_status:
  assumes "lang \<in> set LANGUAGES"
  shows "\<exists>by_lang t. map_of CLAIM_TEMPLATES (status_name st) = Some by_lang \<and> map_of by_lang lang = Some t \<and>
    one_placeholder t \<and> (st = RECENT_AWARD \<or> template_silent t)"
proof -
  obtain by_lang t where t: "map_of CLAIM_TEMPLATES (status_name st) = Some by_lang" "map_of by_lang lang = Some t"
    using assms by (cases st) (auto simp: CLAIM_TEMPLATES_def LANGUAGES_def)
  then have "one_placeholder t \<and> (status_name st = ''recent_award'' \<or> template_silent t)"
    using templates_checked by (force simp: list_all_iff dest!: map_of_SomeD)
  moreover have "status_name st = ''recent_award'' \<Longrightarrow> st = RECENT_AWARD" by (cases st) simp_all
  ultimately show ?thesis using t by blast
qed

lemma silent_claim:
  assumes "one_placeholder t" and "template_silent t" and "announces_win (format_company company t)"
  shows "announces_win company"
  using assms clear_of_sublist
  by (fastforce simp: format_template template_silent_def announces_win_def list_all_iff list_ex_iff)

text \<open>
  C39. What Kivou may write. In either language every assessment has its sentence, and unless the
  name of the company itself announces a win (in any letter case), the sentence announces one only when the assessment is
  \<open>recent_award\<close>: no other sentence contains a winning formula, not even one formed across the
  edges of the company's name.
\<close>

theorem win_claim_needs_recent_award:
  assumes "lang \<in> set LANGUAGES" and "\<not> announces_win company"
  shows "\<exists>text. claim_for r company lang = Inr text \<and> (announces_win text \<longrightarrow> may_claim_just_won r)"
proof -
  obtain by_lang t where "map_of CLAIM_TEMPLATES (status_name (rc_status r)) = Some by_lang" "map_of by_lang lang = Some t"
      "one_placeholder t" "rc_status r = RECENT_AWARD \<or> template_silent t"
    using template_of_status [OF assms(1)] by blast
  then show ?thesis
    using assms silent_claim [of t company]
    by (auto simp: claim_for_def claim_for_status_def may_claim_just_won_def CLAIMABLE_JUST_WON_def)
qed

theorem win_claim_needs_recent_award_witness:
  "\<exists>text. claim_for (assess_recency default_thresholds \<lparr> rd_award_date = None, rd_contract_notification_date = None,
     rd_publication_date = Some (mk_date 2026 9 1), rd_discovered_at = None \<rparr> (mk_date 2026 9 2)) ''Just Building SA'' ''fr'' = Inr text \<and>
     \<not> announces_win text"
proof -
  let ?r = "assess_recency default_thresholds \<lparr> rd_award_date = None, rd_contract_notification_date = None,
     rd_publication_date = Some (mk_date 2026 9 1), rd_discovered_at = None \<rparr> (mk_date 2026 9 2)"
  have "rc_status ?r \<noteq> RECENT_AWARD" by (simp add: rc_status_eq rc_clocks primary_recency_def is_recent_def assess_clock_def)
  moreover have "''fr'' \<in> set LANGUAGES" by (simp add: LANGUAGES_def)
  moreover have "\<not> announces_win ''Just Building SA''" by code_simp
  ultimately show ?thesis
    using win_claim_needs_recent_award [of "''fr''" "''Just Building SA''" ?r]
    by (auto simp: may_claim_just_won_def CLAIMABLE_JUST_WON_def)
qed

section \<open>The window the feed reads\<close>

text \<open>\<open>_date_window\<close> of \<open>feed/query.py\<close>: a comparison with NULL is not true.\<close>

definition date_window :: "date \<Rightarrow> int \<Rightarrow> recency_dates \<Rightarrow> bool" where
  "date_window as_of days d \<longleftrightarrow>
     list_ex (\<lambda>v. case v of None \<Rightarrow> False | Some x \<Rightarrow> ordinal_of x \<ge> ordinal_of as_of - days)
       [rd_award_date d, rd_contract_notification_date d, rd_publication_date d]"

lemma news_recent:
  "rc_status (assess_recency th d as_of) \<in> set NEW_OPPORTUNITY_STATUSES \<Longrightarrow>
     recent_date as_of (th_recent_award_days th) (rd_publication_date d) (rd_award_date d) \<or>
     recent_date as_of (th_recent_notification_days th) None (rd_contract_notification_date d) \<or>
     recent_date as_of (th_recent_publication_days th) None (rd_publication_date d)"
  unfolding recent_clocks
  by (auto simp: NEW_OPPORTUNITY_STATUSES_def rc_status_eq primary_recency_def split: if_split_asm)

text \<open>
  The preselection by date. Whatever view of the feed is asked for, a row whose current status
  the view admits has one of its three dates within the window the query reads.
\<close>

lemma window_necessary:
  assumes "statuses_for freshness = Inr (Some admitted)"
    and "rc_status (assess_recency default_thresholds d as_of) \<in> set admitted"
  shows "\<exists>days. candidate_window_days freshness = Some days \<and> date_window as_of days d"
proof -
  let ?r = "assess_recency default_thresholds d as_of"
  have mode: "freshness = ''new'' \<and> admitted = NEW_OPPORTUNITY_STATUSES \<or>
      freshness = ''recent_or_aging'' \<and> admitted = NEW_OPPORTUNITY_STATUSES @ AGING_STATUSES"
    using assms(1) by (auto simp: statuses_for_def STATUSES_BY_FRESHNESS_def split: if_split_asm)
  have recent: "rc_status ?r \<in> set NEW_OPPORTUNITY_STATUSES \<Longrightarrow> 30 \<le> days \<Longrightarrow> date_window as_of days d" for days
    by (drule news_recent) (auto simp: recent_date_def date_window_def days_between_def default_thresholds_def recency_constants)
  have aging: "rc_status ?r = AGING_AWARD \<Longrightarrow> date_window as_of 60 d"
    by (auto simp: rc_status_eq primary_recency_def rc_clocks default_thresholds_def recency_constants
        date_window_def days_between_def split: if_split_asm dest!: clock_aging_bounds)
  show ?thesis
    using mode assms(2) recent aging
    by (auto simp: candidate_window_days_def recency_constants AGING_STATUSES_def)
qed

end
