(* ===== verification/FeedModel.thy ===== *)
theory FeedModel
  imports Recency "HOL-Library.Product_Lexorder"
begin

text \<open>
  What the customer feed reads: the rows of its tables as records, the ownership restriction and
  the filters of its queries (\<open>feed/query.py\<close>), the identity it displays for the holder of a contract
  (\<open>resolve_display_identity\<close> with \<open>companies/official_cache.py\<close>), the place it derives from a postal code
  (\<open>domain/french_departments.py\<close>) and the factual date of the history (\<open>feed/history.py\<close>).

  A row of the query is a \<open>stored_signal\<close>, the join of the signal, its award and its event, cut to the
  columns the feed uses. An \<open>ORDER BY\<close> is a \<open>sort_key\<close>, and a comparison with NULL is not
  true. The prefix of a CPV code is digits, so that \<open>LIKE\<close> reads it literally.

  Shown here: the identity displayed for a signal does not depend on the other signals of the batch.
\<close>

section \<open>Departments\<close>

definition DEPARTMENTS :: "string list" where
  "DEPARTMENTS = [''01'', ''02'', ''03'', ''04'', ''05'', ''06'', ''07'', ''08'', ''09'', ''10'', ''11'', ''12'',
     ''13'', ''14'', ''15'', ''16'', ''17'', ''18'', ''19'', ''2A'', ''2B'', ''21'', ''22'', ''23'', ''24'', ''25'',
     ''26'', ''27'', ''28'', ''29'', ''30'', ''31'', ''32'', ''33'', ''34'', ''35'', ''36'', ''37'', ''38'', ''39'',
     ''40'', ''41'', ''42'', ''43'', ''44'', ''45'', ''46'', ''47'', ''48'', ''49'', ''50'', ''51'', ''52'', ''53'',
     ''54'', ''55'', ''56'', ''57'', ''58'', ''59'', ''60'', ''61'', ''62'', ''63'', ''64'', ''65'', ''66'', ''67'',
     ''68'', ''69'', ''70'', ''71'', ''72'', ''73'', ''74'', ''75'', ''76'', ''77'', ''78'', ''79'', ''80'', ''81'',
     ''82'', ''83'', ''84'', ''85'', ''86'', ''87'', ''88'', ''89'', ''90'', ''91'', ''92'', ''93'', ''94'', ''95'',
     ''971'', ''972'', ''973'', ''974'', ''976'']"

text \<open>
  Two codes of five digits compare as numbers as they do as text. The superscript digits of
  Latin-1, which \<open>str.isdigit\<close> accepts and \<open>int\<close> refuses, do not occur in a postal code.
\<close>

definition department_from_postal_code :: "string option \<Rightarrow> string option" where
  "department_from_postal_code postal_code =
     (case postal_code of
        None \<Rightarrow> None
      | Some p \<Rightarrow>
          (let code = py_strip p
           in if p = [] \<or> length code \<noteq> 5 \<or> \<not> list_all is_digit code then None
              else if startswith code ''20'' then Some (if code < ''20200'' then ''2A'' else ''2B'')
              else (let candidate = (if take 2 code \<in> {''97'', ''98''} then take 3 code else take 2 code)
                    in if candidate \<in> set DEPARTMENTS then Some candidate else None)))"

record place =
  pl_subdivision_code :: "string option"
  pl_country :: "string option"
  pl_postal_code :: "string option"

definition location_subdivision :: "place option \<Rightarrow> string option" where
  "location_subdivision place =
     (case place of
        None \<Rightarrow> None
      | Some pl \<Rightarrow>
          if pl_subdivision_code pl \<noteq> None \<and> pl_subdivision_code pl \<noteq> Some [] then pl_subdivision_code pl
          else if pl_country pl \<noteq> Some ''FR'' then None
          else map_option (\<lambda>d. ''FR-'' @ d) (department_from_postal_code (pl_postal_code pl)))"

section \<open>Rows\<close>

record organization =
  og_legal_name :: "string option"
  og_country :: "string option"
  og_identifiers :: "(string option \<times> string option) list" \<comment> \<open>scheme and value\<close>

record stored_signal =
  sg_signal_key :: string
  sg_opportunity_key :: string
  sg_materialization_award_key :: string
  sg_target_icp_id :: string
  sg_target_icp_revision :: int
  sg_invalidated_at :: "instant option"
  sg_materialized_at :: instant
  sg_company_identity_fingerprint :: "string option"
  sg_winner_name :: "string option"
  sg_winner_country :: "string option"
  sg_winner_identifier_scheme :: "string option"
  sg_winner_identifier_value :: "string option"
  sg_title :: "string option"
  sg_cpv_main :: "string option"
  sg_amount :: "rat option"
  sg_currency :: "string option"
  sg_place_of_performance :: "place option"
  sg_award_date :: "date option"
  sg_contract_notification_date :: "date option"
  sg_source_country :: string
  sg_published_on :: "date option"
  sg_discovered_at :: "date option"

record icp_row =
  ic_target_icp_id :: string
  ic_account_id :: string
  ic_label :: string
  ic_status :: string
  ic_matching_revision :: int
  ic_plan_limit_code :: "string option"
  ic_created_at :: instant

record company_row =
  co_company_key :: string
  co_identity_fingerprint :: string
  co_official_source :: string
  co_official_name :: string
  co_official_country :: "string option"
  co_official_identifiers :: "(string option \<times> string option) list"
  co_official_observed_at :: instant
  co_source_award_key :: string

record representation_row =
  rr_opportunity_key :: string
  rr_award_key :: string
  rr_awardee_parties :: "organization list list" \<comment> \<open>the members of each party\<close>

record feed_db =
  fd_icps :: "icp_row list"
  fd_signals :: "stored_signal list"
  fd_companies :: "company_row list"
  fd_representations :: "representation_row list"

definition raw_dates :: "stored_signal \<Rightarrow> recency_dates" where
  "raw_dates s = \<lparr> rd_award_date = sg_award_date s, rd_contract_notification_date = sg_contract_notification_date s,
     rd_publication_date = sg_published_on s, rd_discovered_at = sg_discovered_at s \<rparr>"

definition current_recency :: "stored_signal \<Rightarrow> date \<Rightarrow> award_recency" where
  "current_recency s as_of = assess_recency default_thresholds (raw_dates s) as_of"

section \<open>Displayed identity\<close>

definition identifier_like :: "string \<Rightarrow> string" where
  \<comment> \<open>\<open>str.translate\<close> that deletes the space, the hyphen, the dot, the middle dot and the slash\<close>
  "identifier_like s = filter (\<lambda>c. c \<notin> {CHR '' '', CHR ''-'', CHR ''.'', CHR 0xB7, CHR ''/''}) s"

definition py_isdigit :: "string \<Rightarrow> bool" where
  \<comment> \<open>\<open>str.isdigit\<close>, the superscripts of Latin-1 included\<close>
  "py_isdigit s \<longleftrightarrow> s \<noteq> [] \<and> list_all (\<lambda>c. is_digit c \<or> c \<in> {CHR 0xB2, CHR 0xB3, CHR 0xB9}) s"

definition looks_like_identifier :: "string \<Rightarrow> string option \<Rightarrow> bool" where
  "looks_like_identifier name identifier =
     (let stripped = identifier_like (py_strip name)
      in if stripped = [] then True
         else if py_isdigit stripped then True
         else (let reference = identifier_like (py_strip (case identifier of None \<Rightarrow> [] | Some i \<Rightarrow> i))
               in reference \<noteq> [] \<and> stripped = reference))"

definition or_empty :: "string option \<Rightarrow> string" where
  \<comment> \<open>\<open>value or ""\<close>\<close>
  "or_empty so = (case so of None \<Rightarrow> [] | Some s \<Rightarrow> s)"

definition is_customer_display_name :: "string option \<Rightarrow> string option \<Rightarrow> bool" where
  "is_customer_display_name name identifier =
     (let cleaned = py_strip (or_empty name) in cleaned \<noteq> [] \<and> \<not> looks_like_identifier cleaned identifier)"

definition is_customer_ready :: "stored_signal \<Rightarrow> bool" where
  "is_customer_ready s = is_customer_display_name (sg_winner_name s) (sg_winner_identifier_value s)"

record display_identity =
  di_name :: string
  di_country :: "string option"
  di_identifier_scheme :: "string option"
  di_identifier_value :: "string option"
  di_from_award_key :: string

definition member_identity :: "organization \<Rightarrow> (string \<times> string option \<times> (string option \<times> string option) option) option" where
  "member_identity og =
     (let name = py_strip (or_empty (og_legal_name og));
          identifier = (case og_identifiers og of [] \<Rightarrow> None | i # _ \<Rightarrow> Some i);
          value = Option.bind identifier snd
      in if is_customer_display_name (Some name) value then Some (name, og_country og, identifier) else None)"

fun first_some :: "('a \<Rightarrow> 'b option) \<Rightarrow> 'a list \<Rightarrow> 'b option" where
  "first_some f [] = None"
| "first_some f (x # xs) = (case f x of None \<Rightarrow> first_some f xs | Some y \<Rightarrow> Some y)"

definition named_identity ::
  "organization list list \<Rightarrow> (string \<times> string option \<times> (string option \<times> string option) option) option" where
  "named_identity awardee_parties = first_some member_identity (concat awardee_parties)"

definition py_isalpha_char :: "char \<Rightarrow> bool" where
  "py_isalpha_char c \<longleftrightarrow> (let n = (of_char c :: nat) in (65 \<le> n \<and> n \<le> 90) \<or> (97 \<le> n \<and> n \<le> 122) \<or>
     n \<in> {170, 181, 186} \<or> (192 \<le> n \<and> n \<noteq> 215 \<and> n \<noteq> 247))"

text \<open>\<open>official_holders_for_opportunities\<close>: the newest official name of each opportunity.\<close>

definition holder_rows :: "feed_db \<Rightarrow> string list \<Rightarrow> (string \<times> company_row) list" where
  "holder_rows db keys =
     sort_key (\<lambda>(opportunity, c). (opportunity, - co_official_observed_at c, co_company_key c))
       (concat (map (\<lambda>s. map (Pair (sg_opportunity_key s))
            (filter (\<lambda>c. Some (co_identity_fingerprint c) = sg_company_identity_fingerprint s \<and>
                co_official_source c = ''official_register'' \<and>
                list_ex (\<lambda>ch. ch \<noteq> CHR '' '') (co_official_name c)) (fd_companies db)))
          (filter (\<lambda>s. sg_opportunity_key s \<in> set keys) (fd_signals db))))"

definition official_holder :: "company_row \<Rightarrow> display_identity" where
  "official_holder c =
     (let first = (case co_official_identifiers c of [] \<Rightarrow> None | i # _ \<Rightarrow> Some i)
      in \<lparr> di_name = py_strip (co_official_name c), di_country = co_official_country c,
           di_identifier_scheme = Option.bind first fst, di_identifier_value = Option.bind first snd,
           di_from_award_key = co_source_award_key c \<rparr>)"

definition official_holders_for_opportunities :: "feed_db \<Rightarrow> string list \<Rightarrow> string \<Rightarrow> display_identity option" where
  "official_holders_for_opportunities db keys =
     foldl (\<lambda>resolved (opportunity, c).
        if list_ex py_isalpha_char (py_strip (co_official_name c)) \<and> resolved opportunity = None
        then resolved(opportunity \<mapsto> official_holder c) else resolved)
       Map.empty (holder_rows db keys)"

text \<open>
  \<open>pending\<close> is a dictionary from an opportunity to the signals that wait for it; here the list of
  those signals, from which an entry is the signals of that opportunity.
\<close>

definition own_identity :: "stored_signal \<Rightarrow> display_identity" where
  "own_identity s = \<lparr> di_name = py_strip (or_empty (sg_winner_name s)), di_country = sg_winner_country s,
     di_identifier_scheme = sg_winner_identifier_scheme s, di_identifier_value = sg_winner_identifier_value s,
     di_from_award_key = sg_materialization_award_key s \<rparr>"

definition resolve_own :: "stored_signal list \<Rightarrow> (string \<Rightarrow> display_identity option) \<times> stored_signal list" where
  "resolve_own signals =
     foldl (\<lambda>(resolved, pending) s.
        if is_customer_ready s then (resolved(sg_signal_key s \<mapsto> own_identity s), pending) else (resolved, pending @ [s]))
       (Map.empty, []) signals"

definition resolve_official ::
  "(string \<Rightarrow> display_identity option) \<Rightarrow> stored_signal list \<Rightarrow> (string \<Rightarrow> display_identity option) \<Rightarrow>
     (string \<Rightarrow> display_identity option) \<times> stored_signal list" where
  "resolve_official cached pending resolved =
     (foldl (\<lambda>res s. case cached (sg_opportunity_key s) of None \<Rightarrow> res | Some h \<Rightarrow> res(sg_signal_key s \<mapsto> h)) resolved pending,
      filter (\<lambda>s. cached (sg_opportunity_key s) = None) pending)"

definition representation_rows :: "feed_db \<Rightarrow> string list \<Rightarrow> representation_row list" where
  "representation_rows db keys = sort_key (\<lambda>r. (rr_opportunity_key r, rr_award_key r))
     (filter (\<lambda>r. rr_opportunity_key r \<in> set keys) (fd_representations db))"

definition representation_identity :: "representation_row \<Rightarrow> display_identity option" where
  "representation_identity r = map_option (\<lambda>(name, country, identifier).
     \<lparr> di_name = name, di_country = country, di_identifier_scheme = Option.bind identifier fst,
       di_identifier_value = Option.bind identifier snd, di_from_award_key = rr_award_key r \<rparr>)
     (named_identity (rr_awardee_parties r))"

definition resolve_published ::
  "representation_row list \<Rightarrow> stored_signal list \<Rightarrow> (string \<Rightarrow> display_identity option) \<Rightarrow> string \<Rightarrow> display_identity option" where
  "resolve_published rows pending resolved =
     foldl (\<lambda>res r. case representation_identity r of
         None \<Rightarrow> res
       | Some identity \<Rightarrow>
           foldl (\<lambda>res' s. if sg_opportunity_key s = rr_opportunity_key r \<and> res' (sg_signal_key s) = None
             then res'(sg_signal_key s \<mapsto> identity) else res') res pending)
       resolved rows"

definition resolve_display_identity :: "feed_db \<Rightarrow> stored_signal list \<Rightarrow> string \<Rightarrow> display_identity option" where
  "resolve_display_identity db signals =
     (let (resolved, pending) = resolve_own signals
      in if pending = [] then resolved
         else (let cached = official_holders_for_opportunities db (map sg_opportunity_key pending);
                   (resolved1, pending1) = resolve_official cached pending resolved
               in if pending1 = [] then resolved1
                  else resolve_published (representation_rows db (map sg_opportunity_key pending1)) pending1 resolved1))"

section \<open>The identity of one signal\<close>

text \<open>What the batch computation comes to for one signal: its own name, else the register's, else a published one.\<close>

definition display_identity_of :: "feed_db \<Rightarrow> stored_signal \<Rightarrow> display_identity option" where
  "display_identity_of db s =
     (if is_customer_ready s then Some (own_identity s)
      else (case official_holders_for_opportunities db [sg_opportunity_key s] (sg_opportunity_key s) of
          Some h \<Rightarrow> Some h
        | None \<Rightarrow> first_some representation_identity (representation_rows db [sg_opportunity_key s])))"

lemma first_some_filter: "(\<And>x. \<not> P x \<Longrightarrow> f x = None) \<Longrightarrow> first_some f (filter P xs) = first_some f xs"
  by (induction xs) (auto split: option.split)

lemma first_some_cong: "(\<And>x. x \<in> set xs \<Longrightarrow> f x = g x) \<Longrightarrow> first_some f xs = first_some g xs"
  by (induction xs) (auto split: option.split)

lemma official_holder_first:
  "foldl (\<lambda>resolved (opportunity, c). if list_ex py_isalpha_char (py_strip (co_official_name c)) \<and> resolved opportunity = None
       then resolved(opportunity \<mapsto> official_holder c) else resolved) m rows k =
     (case m k of Some h \<Rightarrow> Some h
      | None \<Rightarrow> first_some (\<lambda>(opportunity, c). if opportunity = k \<and> list_ex py_isalpha_char (py_strip (co_official_name c))
          then Some (official_holder c) else None) rows)"
  by (induction rows arbitrary: m) (auto split: option.split prod.split)

lemma join_filter:
  "k \<in> set keys \<Longrightarrow> filter (\<lambda>(o', c). o' = k) (concat (map (\<lambda>s. map (Pair (opp s)) (cs s)) (filter (\<lambda>s. opp s \<in> set keys) ss))) =
     concat (map (\<lambda>s. map (Pair (opp s)) (cs s)) (filter (\<lambda>s. opp s = k) ss))"
  by (induction ss) (auto simp: filter_map comp_def filter_empty_conv)

lemma holder_rows_of:
  "k \<in> set keys \<Longrightarrow> filter (\<lambda>(opportunity, c). opportunity = k) (holder_rows db keys) = holder_rows db [k]"
  unfolding holder_rows_def filter_sort join_filter by (simp add: join_filter)

lemma official_holders_at:
  assumes "k \<in> set keys"
  shows "official_holders_for_opportunities db keys k = official_holders_for_opportunities db [k] k"
proof -
  let ?f = "\<lambda>(opportunity, c). if opportunity = k \<and> list_ex py_isalpha_char (py_strip (co_official_name c))
      then Some (official_holder c) else None"
  have "first_some ?f (holder_rows db keys) = first_some ?f (filter (\<lambda>(opportunity, c). opportunity = k) (holder_rows db keys))"
    by (rule first_some_filter [symmetric]) auto
  then show ?thesis
    unfolding official_holders_for_opportunities_def official_holder_first holder_rows_of [OF assms] by simp
qed

lemma representation_rows_of:
  "k \<in> set keys \<Longrightarrow> filter (\<lambda>r. rr_opportunity_key r = k) (representation_rows db keys) = representation_rows db [k]"
  unfolding representation_rows_def filter_sort
  by (intro arg_cong [where f = "sort_key _"]) (auto intro!: filter_cong)

lemma foldl_update_other:
  "\<forall>s \<in> set xs. key s \<noteq> k \<Longrightarrow> foldl (\<lambda>m s. case g s of None \<Rightarrow> m | Some h \<Rightarrow> m(key s \<mapsto> h)) m xs k = m k"
  by (induction xs arbitrary: m) (auto split: option.split)

lemma foldl_update_at:
  assumes "distinct (map key xs)" and "s \<in> set xs"
  shows "foldl (\<lambda>m s. case g s of None \<Rightarrow> m | Some h \<Rightarrow> m(key s \<mapsto> h)) m xs (key s) =
    (case g s of None \<Rightarrow> m (key s) | Some h \<Rightarrow> Some h)"
  using assms
proof (induction xs arbitrary: m)
  case (Cons x xs)
  show ?case
  proof (cases "s = x")
    case True
    then have "\<forall>y \<in> set xs. key y \<noteq> key s" using Cons.prems(1) by (auto simp: image_iff)
    then show ?thesis using True by (simp add: foldl_update_other split: option.split)
  next
    case False
    then have "s \<in> set xs" "key s \<noteq> key x" using Cons.prems by (auto simp: image_iff)
    then show ?thesis using Cons by (simp split: option.split)
  qed
qed simp

lemma resolve_own_eq:
  "resolve_own signals = (foldl (\<lambda>m s. case (if is_customer_ready s then Some (own_identity s) else None) of
       None \<Rightarrow> m | Some h \<Rightarrow> m(sg_signal_key s \<mapsto> h)) Map.empty signals,
     filter (\<lambda>s. \<not> is_customer_ready s) signals)"
proof -
  have "foldl (\<lambda>(resolved, pending) s. if is_customer_ready s then (resolved(sg_signal_key s \<mapsto> own_identity s), pending)
        else (resolved, pending @ [s])) (m, p) signals =
      (foldl (\<lambda>m s. case (if is_customer_ready s then Some (own_identity s) else None) of
         None \<Rightarrow> m | Some h \<Rightarrow> m(sg_signal_key s \<mapsto> h)) m signals, p @ filter (\<lambda>s. \<not> is_customer_ready s) signals)" for m p
    by (induction signals arbitrary: m p) simp_all
  then show ?thesis by (simp add: resolve_own_def)
qed

lemma key_unique:
  "distinct (map sg_signal_key xs) \<Longrightarrow> x \<in> set xs \<Longrightarrow> y \<in> set xs \<Longrightarrow> sg_signal_key x = sg_signal_key y \<Longrightarrow> x = y"
  by (metis distinct_map inj_onD)

lemma published_inner:
  assumes "distinct (map sg_signal_key pending)"
  shows "foldl (\<lambda>res' s. if sg_opportunity_key s = k \<and> res' (sg_signal_key s) = None
      then res'(sg_signal_key s \<mapsto> identity) else res') res pending key =
    (if res key = None \<and> (\<exists>s \<in> set pending. sg_signal_key s = key \<and> sg_opportunity_key s = k) then Some identity else res key)"
  using assms
proof (induction pending arbitrary: res)
  case (Cons x xs)
  then show ?case by (cases "res (sg_signal_key x)") (force)+
qed simp

lemma published_at:
  assumes "distinct (map sg_signal_key pending)" and "s \<in> set pending"
  shows "resolve_published rows pending res (sg_signal_key s) =
    (case res (sg_signal_key s) of Some h \<Rightarrow> Some h
     | None \<Rightarrow> first_some (\<lambda>r. if rr_opportunity_key r = sg_opportunity_key s then representation_identity r else None) rows)"
proof -
  have same: "(\<exists>s' \<in> set pending. sg_signal_key s' = sg_signal_key s \<and> sg_opportunity_key s' = k) \<longleftrightarrow> sg_opportunity_key s = k" for k
    using assms by (metis distinct_map inj_onD)
  show ?thesis unfolding resolve_published_def
    by (induction rows arbitrary: res) (auto simp: published_inner [OF assms(1)] same split: option.split)
qed

lemma published_other:
  assumes "distinct (map sg_signal_key pending)" and "\<forall>s' \<in> set pending. sg_signal_key s' \<noteq> key"
  shows "resolve_published rows pending res key = res key"
  unfolding resolve_published_def using assms(2)
  by (induction rows arbitrary: res) (auto simp: published_inner [OF assms(1)] split: option.split)

lemma official_at:
  assumes "distinct (map sg_signal_key signals)" and "s \<in> set signals" and "pending = filter (\<lambda>s. \<not> is_customer_ready s) signals"
    and "resolved (sg_signal_key s) = (if is_customer_ready s then Some (own_identity s) else None)"
  shows "fst (resolve_official cached pending resolved) (sg_signal_key s) =
    (if is_customer_ready s then Some (own_identity s) else cached (sg_opportunity_key s))"
proof (cases "is_customer_ready s")
  case True
  have "\<forall>x \<in> set pending. sg_signal_key x \<noteq> sg_signal_key s"
    using assms(1-3) True by (auto dest: key_unique)
  from foldl_update_other [OF this, of "cached \<circ> sg_opportunity_key" resolved] show ?thesis
    using assms(4) True by (auto simp: resolve_official_def comp_def)
next
  case False
  then have "distinct (map sg_signal_key pending)" "s \<in> set pending" using assms(1-3) by (simp_all add: distinct_map_filter)
  from foldl_update_at [OF this, of "cached \<circ> sg_opportunity_key" resolved] show ?thesis
    using assms(4) False by (auto simp: resolve_official_def comp_def split: option.split)
qed

lemma published_batch:
  assumes "distinct (map sg_signal_key pending)" and "s \<in> set pending"
  shows "resolve_published (representation_rows db (map sg_opportunity_key pending)) pending res (sg_signal_key s) =
    (case res (sg_signal_key s) of Some h \<Rightarrow> Some h
     | None \<Rightarrow> first_some representation_identity (representation_rows db [sg_opportunity_key s]))"
proof -
  let ?f = "\<lambda>r. if rr_opportunity_key r = sg_opportunity_key s then representation_identity r else None"
  let ?rows = "representation_rows db (map sg_opportunity_key pending)"
  have k: "sg_opportunity_key s \<in> set (map sg_opportunity_key pending)" using assms(2) by simp
  have "first_some ?f ?rows = first_some ?f (filter (\<lambda>r. rr_opportunity_key r = sg_opportunity_key s) ?rows)"
    by (rule first_some_filter [symmetric]) simp
  also have "\<dots> = first_some representation_identity (representation_rows db [sg_opportunity_key s])"
    unfolding representation_rows_of [OF k] by (rule first_some_cong) (simp add: representation_rows_def)
  finally show ?thesis by (simp add: published_at [OF assms] split: option.split)
qed

text \<open>
  The displayed holder. For signals with distinct keys, the identity that a batch resolves for each of them is the one
  the signal has on its own: the name its current revision carries, else the newest name of the
  official register for its opportunity, else the first real name that a published representation
  of the contract gives. Cutting the rows into batches therefore never changes, adds or removes a name.
\<close>

lemma identity_batch_independent:
  assumes "distinct (map sg_signal_key signals)" and "s \<in> set signals"
  shows "resolve_display_identity db signals (sg_signal_key s) = display_identity_of db s"
proof -
  let ?own = "\<lambda>s. if is_customer_ready s then Some (own_identity s) else None"
  define pending where "pending = filter (\<lambda>s. \<not> is_customer_ready s) signals"
  define cached where "cached = official_holders_for_opportunities db (map sg_opportunity_key pending)"
  define waiting where "waiting = filter (\<lambda>s. cached (sg_opportunity_key s) = None) pending"
  obtain resolved where own: "resolve_own signals = (resolved, pending)" "resolved (sg_signal_key s) = ?own s"
    using foldl_update_at [OF assms, of ?own Map.empty] by (auto simp: resolve_own_eq pending_def)
  obtain known where official: "resolve_official cached pending resolved = (known, waiting)"
    by (simp add: resolve_official_def waiting_def)
  have known: "known (sg_signal_key s) = (if is_customer_ready s then Some (own_identity s) else cached (sg_opportunity_key s))"
    using official_at [OF assms pending_def, of resolved cached] own(2) official by simp
  have cached: "\<not> is_customer_ready s \<Longrightarrow> cached (sg_opportunity_key s) =
      official_holders_for_opportunities db [sg_opportunity_key s] (sg_opportunity_key s)"
    unfolding cached_def using assms(2) by (intro official_holders_at) (simp add: pending_def)
  have dist: "distinct (map sg_signal_key waiting)" using assms(1) by (simp add: waiting_def pending_def distinct_map_filter)
  have published: "resolve_published (representation_rows db (map sg_opportunity_key waiting)) waiting known (sg_signal_key s) =
      display_identity_of db s"
  proof (cases "s \<in> set waiting")
    case True
    then show ?thesis using known cached published_batch [OF dist True]
      by (auto simp: display_identity_of_def waiting_def pending_def)
  next
    case False
    then have "\<forall>x \<in> set waiting. sg_signal_key x \<noteq> sg_signal_key s"
      using assms by (metis (no_types, lifting) filter_is_subset key_unique pending_def subsetD waiting_def)
    then show ?thesis using False assms(2) known cached published_other [OF dist]
      by (auto simp: display_identity_of_def waiting_def pending_def split: option.split)
  qed
  show ?thesis
  proof (cases "pending = []")
    case True
    then have "is_customer_ready s" using assms(2) by (auto simp: pending_def filter_empty_conv)
    then show ?thesis using True own by (simp add: resolve_display_identity_def display_identity_of_def)
  next
    case False
    then show ?thesis using published own(1) official
      by (auto simp: resolve_display_identity_def cached_def published_other)
  qed
qed

end
