(* ===== verification/FeedPage.thy ===== *)
theory FeedPage
  imports FeedModel
begin

text \<open>
  The recent view of the customer feed, \<open>feed_page\<close> of \<open>feed/query.py\<close>: the ownership and the filters of its
  query, the scan in batches that resumes after the last row read, and what is done with the
  candidates (freshness, event, plan, publication window, status counts, sort and page).

  The interface \<open>keyset\<close> states what resuming after a row relies on: the condition that a cursor adds to the
  query selects exactly the rows that the \<open>ORDER BY\<close> puts after that row.

  Shown here: the scan in batches reads what one scan of the rows would, it announces a truncation exactly
  when something was left out, and an untruncated page is selected from all the signals of the account
  that the request describes, whatever window the query preselects.
\<close>

section \<open>Resuming after a row\<close>

definition resume :: "('c \<Rightarrow> 'r \<Rightarrow> bool) \<Rightarrow> 'c option \<Rightarrow> 'r list \<Rightarrow> 'r list" where
  \<comment> \<open>the rows of an ordered query, restricted to those after the cursor when there is one\<close>
  "resume after c rows = (case c of None \<Rightarrow> rows | Some c' \<Rightarrow> filter (after c') rows)"

definition last_cursor :: "('r \<Rightarrow> 'c) \<Rightarrow> 'r list \<Rightarrow> 'c option" where
  "last_cursor cursor_of rows = (if rows = [] then None else Some (cursor_of (last rows)))"

lemma last_cursor_append: "last_cursor f (xs @ ys) = (if ys = [] then last_cursor f xs else Some (f (last ys)))"
  by (simp add: last_cursor_def)

locale keyset =
  fixes order :: "'r \<Rightarrow> 'k::linorder" and cursor_of :: "'r \<Rightarrow> 'c" and after :: "'c \<Rightarrow> 'r \<Rightarrow> bool"
  assumes after_iff: "after (cursor_of r) r' \<longleftrightarrow> order r < order r'"
begin

lemma filter_after_split:
  assumes "sorted_wrt (\<lambda>a b. order a < order b) (xs @ r # ys)"
  shows "filter (after (cursor_of r)) (xs @ r # ys) = ys"
proof -
  have "\<forall>x \<in> set xs. \<not> order r < order x" "\<forall>y \<in> set ys. order r < order y"
    using assms by (auto simp: sorted_wrt_append)
  then show ?thesis by (auto simp: after_iff filter_empty_conv intro!: filter_True)
qed

lemma resume_split:
  assumes "sorted_wrt (\<lambda>a b. order a < order b) (xs @ ys)"
  shows "resume after (last_cursor cursor_of xs) (xs @ ys) = ys"
proof (cases xs rule: rev_cases)
  case (snoc zs r)
  then show ?thesis using assms filter_after_split [of zs r ys] by (simp add: resume_def last_cursor_def)
qed (simp add: resume_def last_cursor_def)

end

lemma sort_key_strict:
  assumes "distinct (map k xs)"
  shows "sorted_wrt (\<lambda>a b. k a < k b) (sort_key k xs)"
proof -
  have "distinct (map k (sort_key k xs))" using assms by (metis distinct_map distinct_sort set_sort)
  then have "sorted_wrt (<) (map k (sort_key k xs))"
    by (simp add: strict_sorted_iff)
  then show ?thesis by (simp add: sorted_wrt_map)
qed

section \<open>The query of the recent view\<close>

definition FEEDING_ICP_STATUS :: string where "FEEDING_ICP_STATUS = ''active''"
definition RECENT_SCAN_BATCH :: nat where "RECENT_SCAN_BATCH = 200"
definition RECENT_SCAN_ROW_FACTOR :: nat where "RECENT_SCAN_ROW_FACTOR = 10"
definition MAXIMUM_PAGE_SIZE :: int where "MAXIMUM_PAGE_SIZE = 50"
definition CANDIDATE_SCAN_CAP :: nat where "CANDIDATE_SCAN_CAP = 500"
definition UNIFIED_STATUSES :: "string list" where "UNIFIED_STATUSES = [''new'', ''saved'', ''ignored'', ''contacted'']"

record owned_icp =
  ow_label :: string
  ow_status :: string

definition owned_target_icps :: "feed_db \<Rightarrow> string \<Rightarrow> (string \<times> owned_icp) list" where
  "owned_target_icps db account_id =
     map (\<lambda>i. (ic_target_icp_id i, \<lparr> ow_label = ic_label i, ow_status = ic_status i \<rparr>))
       (sort_key (\<lambda>i. (ic_created_at i, ic_target_icp_id i)) (filter (\<lambda>i. ic_account_id i = account_id) (fd_icps db)))"

text \<open>The join with the profiles of the account and the conditions of \<open>_ownership_scoped\<close>.\<close>

definition feeds :: "string \<Rightarrow> stored_signal \<Rightarrow> icp_row \<Rightarrow> bool" where
  "feeds account_id s i \<longleftrightarrow> sg_target_icp_id s = ic_target_icp_id i \<and> ic_account_id i = account_id \<and>
     ic_status i = FEEDING_ICP_STATUS \<and> ic_plan_limit_code i = None \<and> sg_invalidated_at s = None \<and>
     sg_target_icp_revision s = ic_matching_revision i"

definition ownership_scoped :: "feed_db \<Rightarrow> string \<Rightarrow> stored_signal list" where
  "ownership_scoped db account_id = filter (\<lambda>s. list_ex (feeds account_id s) (fd_icps db)) (fd_signals db)"

definition history_date :: "stored_signal \<Rightarrow> date option" where
  \<comment> \<open>\<open>coalesce(award_date, contract_notification_date, published_on)\<close>\<close>
  "history_date s = (case sg_award_date s of Some d \<Rightarrow> Some d | None \<Rightarrow>
     (case sg_contract_notification_date s of Some d \<Rightarrow> Some d | None \<Rightarrow> sg_published_on s))"

definition not_null :: "('a \<Rightarrow> bool) \<Rightarrow> 'a option \<Rightarrow> bool" where
  \<comment> \<open>a comparison in SQL: not true on NULL\<close>
  "not_null P v = (case v of None \<Rightarrow> False | Some x \<Rightarrow> P x)"

definition optionally :: "('a \<Rightarrow> bool) \<Rightarrow> 'a option \<Rightarrow> bool" where
  \<comment> \<open>a filter that applies when its parameter is given\<close>
  "optionally P v = (case v of None \<Rightarrow> True | Some x \<Rightarrow> P x)"

text \<open>
  The filters that the two views share. Those on the text, on the consultation scope and on the plan are
  functions the caller gives; \<open>fq_text\<close> stands for \<open>_matches_text_query\<close> with the normalised
  query, whose Unicode tables are outside the strings of this development.
\<close>

record feed_filter =
  fq_target_icp_id :: "string option"
  fq_allowed_target_icp_ids :: "string list option"
  fq_country :: "string option"
  fq_subdivision_code :: "string option"
  fq_cpv_prefix :: "string option"
  fq_date_from :: "date option"
  fq_date_to :: "date option"
  fq_min_amount :: "rat option"
  fq_text :: "(stored_signal \<Rightarrow> display_identity \<Rightarrow> bool) option"
  fq_winner :: "string option"
  fq_scope :: "(stored_signal \<Rightarrow> bool) option"

definition sql_filters :: "feed_filter \<Rightarrow> stored_signal \<Rightarrow> bool" where
  "sql_filters q s \<longleftrightarrow>
     optionally (\<lambda>i. sg_target_icp_id s = i) (fq_target_icp_id q) \<and>
     optionally (\<lambda>is. sg_target_icp_id s \<in> set is) (fq_allowed_target_icp_ids q) \<and>
     optionally (\<lambda>c. sg_source_country s = c) (fq_country q) \<and>
     optionally (\<lambda>w. sg_winner_identifier_value s = Some w \<or> sg_winner_name s = Some w) (fq_winner q) \<and>
     optionally (\<lambda>p. not_null (\<lambda>c. startswith c p) (sg_cpv_main s)) (fq_cpv_prefix q) \<and>
     optionally (\<lambda>d. not_null (\<lambda>e. ordinal_of d \<le> ordinal_of e) (history_date s)) (fq_date_from q) \<and>
     optionally (\<lambda>d. not_null (\<lambda>e. ordinal_of e \<le> ordinal_of d) (history_date s)) (fq_date_to q) \<and>
     optionally (\<lambda>m. not_null (\<lambda>a. m \<le> a) (sg_amount s)) (fq_min_amount q)"

definition python_filters :: "feed_filter \<Rightarrow> stored_signal \<Rightarrow> display_identity \<Rightarrow> bool" where
  "python_filters q s display \<longleftrightarrow>
     \<not> ((case fq_scope q of None \<Rightarrow> False | Some matches \<Rightarrow> \<not> matches s) \<or>
        (case fq_subdivision_code q of None \<Rightarrow> False | Some c \<Rightarrow> location_subdivision (sg_place_of_performance s) \<noteq> Some c) \<or>
        (case fq_text q of None \<Rightarrow> False | Some matches \<Rightarrow> \<not> matches s display))"

record feed_signal =
  fs_signal :: stored_signal
  fs_recency :: award_recency
  fs_account_id :: string
  fs_target_icp_label :: string
  fs_display :: "display_identity option"

definition fs_status :: "feed_signal \<Rightarrow> award_status" where
  "fs_status item = rc_status (fs_recency item)"

record feed_request =
  fr_freshness :: string
  fr_filter :: feed_filter
  fr_primary_event :: "string option"
  fr_limit :: int
  fr_offset :: int
  fr_scan_cap :: "nat option"
  fr_status_of :: "(string \<Rightarrow> string) option"
  fr_statuses :: "string list option"
  fr_admit :: "(feed_signal \<Rightarrow> bool) option"
  fr_published_since :: "date option"
  fr_sort :: string

definition recent_order :: "stored_signal \<Rightarrow> int \<times> string" where
  "recent_order s = (- sg_materialized_at s, sg_signal_key s)"

definition recent_cursor :: "stored_signal \<Rightarrow> instant \<times> string" where
  "recent_cursor s = (sg_materialized_at s, sg_signal_key s)"

definition recent_after :: "instant \<times> string \<Rightarrow> stored_signal \<Rightarrow> bool" where
  "recent_after c s = (case c of (last_at, last_key) \<Rightarrow>
     sg_materialized_at s < last_at \<or> (sg_materialized_at s = last_at \<and> sg_signal_key s > last_key))"

interpretation recent: keyset recent_order recent_cursor recent_after
  by unfold_locales (auto simp: recent_order_def recent_cursor_def recent_after_def less_prod_def)

definition feed_rows :: "feed_db \<Rightarrow> string \<Rightarrow> date \<Rightarrow> feed_request \<Rightarrow> stored_signal list" where
  "feed_rows db account_id as_of rq =
     sort_key recent_order (filter (\<lambda>s. sql_filters (fr_filter rq) s \<and>
         optionally (\<lambda>days. date_window as_of days (raw_dates s)) (candidate_window_days (fr_freshness rq)) \<and>
         optionally (\<lambda>d. not_null (\<lambda>p. ordinal_of d \<le> ordinal_of p) (sg_published_on s)) (fr_published_since rq))
       (ownership_scoped db account_id))"

section \<open>The scan\<close>

record scan_state =
  sc_rows_read :: nat
  sc_last :: "(instant \<times> string) option"
  sc_displayable :: "feed_signal list"
  sc_without_name :: nat
  sc_excluded_by_filters :: nat
  sc_truncated :: bool

definition reassess :: "(string \<times> owned_icp) list \<Rightarrow> string \<Rightarrow> date \<Rightarrow> stored_signal \<Rightarrow> feed_signal" where
  "reassess owned account_id as_of s =
     \<lparr> fs_signal = s, fs_recency = current_recency s as_of, fs_account_id = account_id,
       fs_target_icp_label = ow_label (the (map_of owned (sg_target_icp_id s))), fs_display = None \<rparr>"

fun scan_candidates ::
  "nat \<Rightarrow> (stored_signal \<Rightarrow> display_identity option) \<Rightarrow> feed_filter \<Rightarrow> feed_signal list \<Rightarrow> scan_state \<Rightarrow> scan_state" where
  "scan_candidates cap identities q [] st = st"
| "scan_candidates cap identities q (item # items) st =
     (case identities (fs_signal item) of
        None \<Rightarrow> scan_candidates cap identities q items (st\<lparr> sc_without_name := sc_without_name st + 1 \<rparr>)
      | Some display \<Rightarrow>
          if \<not> python_filters q (fs_signal item) display
          then scan_candidates cap identities q items (st\<lparr> sc_excluded_by_filters := sc_excluded_by_filters st + 1 \<rparr>)
          else if length (sc_displayable st) = cap then st\<lparr> sc_truncated := True \<rparr>
          else scan_candidates cap identities q items
            (st\<lparr> sc_displayable := sc_displayable st @ [item\<lparr> fs_display := Some display \<rparr>] \<rparr>))"

lemma scan_candidates_read [simp]:
  "sc_rows_read (scan_candidates cap identities q items st) = sc_rows_read st"
  "sc_last (scan_candidates cap identities q items st) = sc_last st"
  by (induction items arbitrary: st) (auto split: option.split)

text \<open>One turn of the loop: the state after the batch, and whether there were more rows than the batch.\<close>

definition feed_batch ::
  "feed_db \<Rightarrow> (stored_signal \<Rightarrow> feed_signal) \<Rightarrow> feed_filter \<Rightarrow> nat \<Rightarrow> nat \<Rightarrow> stored_signal list \<Rightarrow> scan_state \<Rightarrow> scan_state \<times> bool" where
  "feed_batch db candidate q cap row_ceiling rows st =
     (let batch_limit = min RECENT_SCAN_BATCH (row_ceiling - sc_rows_read st);
          fetched = take (batch_limit + 1) (resume recent_after (sc_last st) rows);
          batch = take batch_limit fetched;
          st1 = st\<lparr> sc_rows_read := sc_rows_read st + length batch,
                   sc_last := (if batch = [] then sc_last st else Some (recent_cursor (last batch))) \<rparr>;
          identities = resolve_display_identity db batch
      in (scan_candidates cap (\<lambda>s. identities (sg_signal_key s)) q (map candidate batch) st1, batch_limit < length fetched))"

lemma feed_batch_reads:
  "feed_batch db candidate q cap row_ceiling rows st = (st2, True) \<Longrightarrow>
     sc_rows_read st2 = sc_rows_read st + min RECENT_SCAN_BATCH (row_ceiling - sc_rows_read st)"
  by (auto simp: feed_batch_def Let_def)

function feed_scan ::
  "feed_db \<Rightarrow> (stored_signal \<Rightarrow> feed_signal) \<Rightarrow> feed_filter \<Rightarrow> nat \<Rightarrow> nat \<Rightarrow> stored_signal list \<Rightarrow> scan_state \<Rightarrow> scan_state" where
  "feed_scan db candidate q cap row_ceiling rows st =
     (case feed_batch db candidate q cap row_ceiling rows st of (st2, more_rows) \<Rightarrow>
        if sc_truncated st2 \<or> \<not> more_rows then st2
        else if row_ceiling \<le> sc_rows_read st2 then st2\<lparr> sc_truncated := True \<rparr>
        else feed_scan db candidate q cap row_ceiling rows st2)"
  by pat_completeness auto
termination
  by (relation "measure (\<lambda>(db, candidate, q, cap, row_ceiling, rows, st). row_ceiling - sc_rows_read st)")
    (auto dest!: feed_batch_reads [OF sym] simp: RECENT_SCAN_BATCH_def)

declare feed_scan.simps [simp del]

section \<open>The page\<close>

definition event_date :: "feed_signal \<Rightarrow> date option" where
  "event_date item = ca_date (status_clock (fs_recency item) (fs_status item))"

definition feed_sort_key :: "feed_signal \<Rightarrow> int \<times> int \<times> string" where
  "feed_sort_key item = (rank_of (fs_status item),
     (case event_date item of Some d \<Rightarrow> - ordinal_of d | None \<Rightarrow> 1), sg_signal_key (fs_signal item))"

definition amount_sort_key :: "stored_signal \<Rightarrow> int \<times> string \<times> rat \<times> string" where
  "amount_sort_key s = (case (sg_amount s, sg_currency s) of
     (Some amount, Some currency) \<Rightarrow> (0, currency, - amount, sg_signal_key s)
   | _ \<Rightarrow> (1, [], 0, sg_signal_key s))"

definition unified_status :: "(string \<Rightarrow> string) option \<Rightarrow> feed_signal \<Rightarrow> string" where
  "unified_status status_of item = (case status_of of None \<Rightarrow> ''new'' | Some f \<Rightarrow> f (sg_signal_key (fs_signal item)))"

text \<open>\<open>status_counts[status] += 1\<close> on the four unified statuses; another one is a \<open>KeyError\<close>.\<close>

fun count_statuses :: "string list \<Rightarrow> (string \<times> nat) list \<Rightarrow> (string, (string \<times> nat) list) result" where
  "count_statuses [] counts = Inr counts"
| "count_statuses (st # sts) counts =
     (if st \<in> set (map fst counts)
      then count_statuses sts (map (\<lambda>(k, n). (k, if k = st then n + 1 else n)) counts)
      else Inl st)"

record feed_answer =
  fp_items :: "feed_signal list"
  fp_limit :: int
  fp_offset :: int
  fp_has_more :: bool
  fp_scan_truncated :: bool
  fp_excluded_without_display_name :: nat
  fp_excluded_by_freshness :: nat
  fp_status_counts :: "(string \<times> nat) list"
  fp_excluded_by_status :: nat
  fp_matched :: "feed_signal list"
  fp_excluded_by_filters :: nat

datatype feed_error = Unknown_freshness string | Foreign_target_icp string | Unknown_unified_status string | Scan_cap_not_positive
  | Invalid_history_cursor

definition zero_counts :: "(string \<times> nat) list" where
  "zero_counts = map (\<lambda>st. (st, 0)) UNIFIED_STATUSES"

definition empty_page :: "int \<Rightarrow> int \<Rightarrow> feed_answer" where
  "empty_page limit offset = \<lparr> fp_items = [], fp_limit = limit, fp_offset = offset, fp_has_more = False,
     fp_scan_truncated = False, fp_excluded_without_display_name = 0, fp_excluded_by_freshness = 0,
     fp_status_counts = zero_counts, fp_excluded_by_status = 0, fp_matched = [], fp_excluded_by_filters = 0 \<rparr>"

definition fresh_scan :: scan_state where
  "fresh_scan = \<lparr> sc_rows_read = 0, sc_last = None, sc_displayable = [], sc_without_name = 0,
     sc_excluded_by_filters = 0, sc_truncated = False \<rparr>"

definition by_freshness :: "award_status list option \<Rightarrow> string option \<Rightarrow> feed_signal \<Rightarrow> bool" where
  "by_freshness admitted primary_event item \<longleftrightarrow>
     optionally (\<lambda>sts. fs_status item \<in> set sts) admitted \<and>
     optionally (\<lambda>e. customer_event_type (fs_status item) = Some e) primary_event"

definition by_plan :: "feed_request \<Rightarrow> feed_signal \<Rightarrow> bool" where
  "by_plan rq item \<longleftrightarrow> optionally (\<lambda>admit. admit item) (fr_admit rq) \<and>
     optionally (\<lambda>since. not_null (\<lambda>p. ordinal_of since \<le> ordinal_of p) (sg_published_on (fs_signal item))) (fr_published_since rq)"

definition by_status :: "feed_request \<Rightarrow> feed_signal \<Rightarrow> bool" where
  "by_status rq item = optionally (\<lambda>sts. unified_status (fr_status_of rq) item \<in> set sts) (fr_statuses rq)"

definition feed_sorted :: "string \<Rightarrow> feed_signal list \<Rightarrow> feed_signal list" where
  "feed_sorted by items = (if by = ''amount'' then sort_key (amount_sort_key \<circ> fs_signal) items else sort_key feed_sort_key items)"

definition page_of :: "award_status list option \<Rightarrow> feed_request \<Rightarrow> int \<Rightarrow> int \<Rightarrow> scan_state \<Rightarrow> (feed_error, feed_answer) result" where
  "page_of admitted rq limit offset st =
     (let fresh = filter (by_freshness admitted (fr_primary_event rq)) (sc_displayable st);
          allowed = filter (by_plan rq) fresh;
          kept = filter (by_status rq) allowed;
          matched = feed_sorted (fr_sort rq) kept
      in case count_statuses (map (unified_status (fr_status_of rq)) allowed) zero_counts of
           Inl s \<Rightarrow> Inl (Unknown_unified_status s)
         | Inr counts \<Rightarrow> Inr \<lparr> fp_items = take (nat limit) (drop (nat offset) matched), fp_limit = limit, fp_offset = offset,
             fp_has_more = (offset + limit < int (length matched)), fp_scan_truncated = sc_truncated st,
             fp_excluded_without_display_name = sc_without_name st,
             fp_excluded_by_freshness = length (sc_displayable st) - length fresh, fp_status_counts = counts,
             fp_excluded_by_status = length allowed - length kept, fp_matched = matched,
             fp_excluded_by_filters = sc_excluded_by_filters st \<rparr>)"

definition feed_page :: "feed_db \<Rightarrow> string \<Rightarrow> date \<Rightarrow> feed_request \<Rightarrow> (feed_error, feed_answer) result" where
  "feed_page db account_id as_of rq =
     (case statuses_for (fr_freshness rq) of
        Inl mode \<Rightarrow> Inl (Unknown_freshness mode)
      | Inr admitted \<Rightarrow>
          (let q = fr_filter rq;
               scan_cap = (case fr_scan_cap rq of None \<Rightarrow> CANDIDATE_SCAN_CAP | Some n \<Rightarrow> n);
               limit = max 1 (min (fr_limit rq) MAXIMUM_PAGE_SIZE);
               offset = max 0 (fr_offset rq);
               owned = owned_target_icps db account_id
           in if \<not> optionally (\<lambda>i. i \<in> set (map fst owned)) (fq_target_icp_id q)
              then Inl (Foreign_target_icp (the (fq_target_icp_id q)))
              else if \<not> list_ex (\<lambda>(_, o'). ow_status o' = FEEDING_ICP_STATUS) owned then Inr (empty_page limit offset)
              else if fq_allowed_target_icp_ids q = Some [] then Inr (empty_page limit offset)
              else page_of admitted rq limit offset
                (feed_scan db (reassess owned account_id as_of) q scan_cap (scan_cap * RECENT_SCAN_ROW_FACTOR)
                   (feed_rows db account_id as_of rq) fresh_scan)))"

section \<open>The scan in batches is one scan\<close>

definition shown :: "feed_db \<Rightarrow> feed_filter \<Rightarrow> stored_signal \<Rightarrow> bool" where
  "shown db q s = not_null (python_filters q s) (display_identity_of db s)"

definition shown_item :: "feed_db \<Rightarrow> (stored_signal \<Rightarrow> feed_signal) \<Rightarrow> stored_signal \<Rightarrow> feed_signal" where
  "shown_item db candidate s = (candidate s)\<lparr> fs_display := display_identity_of db s \<rparr>"

lemma scan_candidates_cong:
  "(\<And>item. item \<in> set items \<Longrightarrow> f (fs_signal item) = g (fs_signal item)) \<Longrightarrow>
     scan_candidates cap f q items st = scan_candidates cap g q items st"
  by (induction items arbitrary: st) (auto split: option.split)

lemma scan_candidates_closed:
  assumes "\<And>s. fs_signal (candidate s) = s" and "\<not> sc_truncated st" and "length (sc_displayable st) \<le> cap"
  shows "sc_displayable (scan_candidates cap (display_identity_of db) q (map candidate xs) st) =
      sc_displayable st @ map (shown_item db candidate) (take (cap - length (sc_displayable st)) (filter (shown db q) xs)) \<and>
    (sc_truncated (scan_candidates cap (display_identity_of db) q (map candidate xs) st) \<longleftrightarrow>
      cap - length (sc_displayable st) < length (filter (shown db q) xs))"
  using assms(2,3)
proof (induction xs arbitrary: st)
  case (Cons x xs)
  show ?case
  proof (cases "display_identity_of db x")
    case None
    then show ?thesis using Cons by (simp add: assms(1) shown_def not_null_def)
  next
    case (Some d)
    let ?full = "length (sc_displayable st) = cap"
    consider "\<not> python_filters q x d" | "python_filters q x d" ?full | "python_filters q x d" "\<not> ?full" by blast
    then show ?thesis
    proof cases
      case 3
      then have "length (sc_displayable st) < cap" using Cons.prems by simp
      then show ?thesis using 3 Some Cons
        by (auto simp: assms(1) shown_def not_null_def shown_item_def Suc_diff_Suc [symmetric])
    qed (use Some Cons in \<open>auto simp: assms(1) shown_def not_null_def\<close>)
  qed
qed simp


lemma feed_batch_closed:
  fixes row_ceiling :: nat
  assumes "sorted_wrt (\<lambda>a b. recent_order a < recent_order b) (seen @ todo)" and "distinct (map sg_signal_key (seen @ todo))"
    and "\<And>s. fs_signal (candidate s) = s" and "sc_rows_read st = length seen"
    and "sc_last st = last_cursor recent_cursor seen" and "\<not> sc_truncated st" and "length (sc_displayable st) \<le> cap"
  defines "batch \<equiv> take (min RECENT_SCAN_BATCH (row_ceiling - length seen)) todo"
  obtains st2 where "feed_batch db candidate q cap row_ceiling (seen @ todo) st = (st2, batch \<noteq> todo)"
    and "sc_rows_read st2 = length seen + length batch" and "sc_last st2 = last_cursor recent_cursor (seen @ batch)"
    and "sc_displayable st2 = sc_displayable st @
      map (shown_item db candidate) (take (cap - length (sc_displayable st)) (filter (shown db q) batch))"
    and "sc_truncated st2 \<longleftrightarrow> cap - length (sc_displayable st) < length (filter (shown db q) batch)"
proof -
  define st1 where "st1 = st\<lparr> sc_rows_read := sc_rows_read st + length batch,
    sc_last := (if batch = [] then sc_last st else Some (recent_cursor (last batch))) \<rparr>"
  define st2 where "st2 = scan_candidates cap (display_identity_of db) q (map candidate batch) st1"
  have rest: "resume recent_after (sc_last st) (seen @ todo) = todo"
    using assms(1,5) recent.resume_split by simp
  have "distinct (map sg_signal_key batch)" using assms(2) by (simp add: batch_def take_map [symmetric])
  then have ids: "scan_candidates cap (\<lambda>s. resolve_display_identity db batch (sg_signal_key s)) q (map candidate batch) st1 = st2"
    unfolding st2_def using assms(3) by (intro scan_candidates_cong) (auto simp: identity_batch_independent)
  have "feed_batch db candidate q cap row_ceiling (seen @ todo) st = (st2, batch \<noteq> todo)"
    unfolding feed_batch_def Let_def rest assms(4) take_take min.absorb1 [OF le_add1] batch_def [symmetric]
    using ids by (auto simp: st1_def assms(4) batch_def)
  moreover have st1: "sc_displayable st1 = sc_displayable st" "\<not> sc_truncated st1" using assms(6) by (simp_all add: st1_def)
  note scan_candidates_closed [OF assms(3) st1(2), of cap db q batch, folded st2_def, unfolded st1(1), OF assms(7)]
  moreover have "sc_rows_read st2 = length seen + length batch" "sc_last st2 = last_cursor recent_cursor (seen @ batch)"
    using assms(4,5) by (simp_all add: st2_def st1_def last_cursor_append)
  ultimately show ?thesis using that by blast
qed

lemma feed_scan_batches:
  assumes "sorted_wrt (\<lambda>a b. recent_order a < recent_order b) (seen @ todo)" and "distinct (map sg_signal_key (seen @ todo))"
    and "\<And>s. fs_signal (candidate s) = s" and "sc_rows_read st = length seen"
    and "sc_last st = last_cursor recent_cursor seen" and "\<not> sc_truncated st" and "length (sc_displayable st) \<le> cap"
  shows "sc_displayable (feed_scan db candidate q cap row_ceiling (seen @ todo) st) = sc_displayable st @
      map (shown_item db candidate) (take (cap - length (sc_displayable st)) (filter (shown db q) (take (row_ceiling - length seen) todo))) \<and>
    (sc_truncated (feed_scan db candidate q cap row_ceiling (seen @ todo) st) \<longleftrightarrow>
      cap - length (sc_displayable st) < length (filter (shown db q) (take (row_ceiling - length seen) todo)) \<or>
      row_ceiling - length seen < length todo)"
  using assms
proof (induction "row_ceiling - length seen" arbitrary: seen todo st rule: less_induct)
  case less
  define n where "n = row_ceiling - length seen"
  define batch where "batch = take (min RECENT_SCAN_BATCH n) todo"
  obtain st2 where st2: "feed_batch db candidate q cap row_ceiling (seen @ todo) st = (st2, batch \<noteq> todo)"
      "sc_rows_read st2 = length seen + length batch" "sc_last st2 = last_cursor recent_cursor (seen @ batch)"
      "sc_displayable st2 = sc_displayable st @
        map (shown_item db candidate) (take (cap - length (sc_displayable st)) (filter (shown db q) batch))"
      "sc_truncated st2 \<longleftrightarrow> cap - length (sc_displayable st) < length (filter (shown db q) batch)"
    using feed_batch_closed [where row_ceiling = row_ceiling and db = db and q = q, OF less.prems] unfolding batch_def n_def by blast
  define rest where "rest = drop (length batch) todo"
  have todo: "todo = batch @ rest" by (simp add: rest_def batch_def min_def)
  have batch_n: "take n todo = batch @ take (n - length batch) rest" "length batch \<le> n"
    by (auto simp: batch_def rest_def min_def take_add [symmetric])
  have scan: "feed_scan db candidate q cap row_ceiling (seen @ todo) st =
      (if sc_truncated st2 \<or> batch = todo then st2
       else if n \<le> length batch then st2\<lparr> sc_truncated := True \<rparr>
       else feed_scan db candidate q cap row_ceiling (seen @ todo) st2)"
    using st2(1,2) by (subst feed_scan.simps) (auto simp: n_def)
  consider "sc_truncated st2" | "\<not> sc_truncated st2" "rest = []" | "\<not> sc_truncated st2" "rest \<noteq> []" "n \<le> length batch"
    | "\<not> sc_truncated st2" "rest \<noteq> []" "length batch < n" by linarith
  then show ?case
  proof cases
    case 4
    then have "batch \<noteq> []" by (auto simp: batch_def rest_def RECENT_SCAN_BATCH_def)
    have "feed_scan db candidate q cap row_ceiling (seen @ todo) st =
        feed_scan db candidate q cap row_ceiling ((seen @ batch) @ rest) st2"
      using scan 4 todo by auto
    moreover have "sorted_wrt (\<lambda>a b. recent_order a < recent_order b) ((seen @ batch) @ rest)"
        "distinct (map sg_signal_key ((seen @ batch) @ rest))" "length (sc_displayable st2) \<le> cap"
        "sc_rows_read st2 = length (seen @ batch)"
      using less.prems(1,2,7) todo st2(2,4) by auto
    moreover have "row_ceiling - length (seen @ batch) < n" using 4 \<open>batch \<noteq> []\<close> by (cases batch) (auto simp: n_def)
    note less.hyps [folded n_def, OF this calculation(2,3) less.prems(3) calculation(5) st2(3) 4(1) calculation(4)]
    moreover have "cap - length (sc_displayable st2) = cap - length (sc_displayable st) - length (filter (shown db q) batch)"
        "row_ceiling - length (seen @ batch) = n - length batch"
      using st2(4,5) 4(1) by (auto simp: n_def)
    ultimately show ?thesis unfolding n_def [symmetric] using st2(4,5) 4 todo batch_n(1) by auto
  qed (use scan st2 batch_n todo in \<open>auto simp flip: n_def\<close>)
qed
lemma feed_rows_sorted:
  assumes "distinct (map sg_signal_key (fd_signals db))"
  shows "sorted_wrt (\<lambda>a b. recent_order a < recent_order b) (feed_rows db account_id as_of rq)"
    and "distinct (map sg_signal_key (feed_rows db account_id as_of rq))"
proof -
  define rows where "rows = filter (\<lambda>s. sql_filters (fr_filter rq) s \<and>
         optionally (\<lambda>days. date_window as_of days (raw_dates s)) (candidate_window_days (fr_freshness rq)) \<and>
         optionally (\<lambda>d. not_null (\<lambda>p. ordinal_of d \<le> ordinal_of p) (sg_published_on s)) (fr_published_since rq))
       (ownership_scoped db account_id)"
  have rows: "distinct (map sg_signal_key rows)"
    using assms by (simp add: rows_def ownership_scoped_def distinct_map_filter)
  then have "distinct (map recent_order rows)"
    by (auto simp: distinct_map recent_order_def inj_on_def)
  then show "sorted_wrt (\<lambda>a b. recent_order a < recent_order b) (feed_rows db account_id as_of rq)"
    unfolding feed_rows_def rows_def [symmetric] by (rule sort_key_strict)
  show "distinct (map sg_signal_key (feed_rows db account_id as_of rq))"
    unfolding feed_rows_def rows_def [symmetric] using rows by (simp add: distinct_map)
qed

lemma fs_signal_reassess [simp]: "fs_signal (reassess owned account_id as_of s) = s"
  by (simp add: reassess_def)

text \<open>
  The scan in batches of two hundred rows, each resumed after the last row of the one before, keeps exactly the
  first \<open>scan_cap\<close> displayable candidates of the first ten times \<open>scan_cap\<close> rows, in the order of the query.
\<close>

lemma scan_of_rows:
  assumes "distinct (map sg_signal_key (fd_signals db))"
  shows "let rows = feed_rows db account_id as_of rq; q = fr_filter rq;
       candidate = reassess (owned_target_icps db account_id) account_id as_of;
       visible = filter (shown db q) (take (scan_cap * RECENT_SCAN_ROW_FACTOR) rows);
       st = feed_scan db candidate q scan_cap (scan_cap * RECENT_SCAN_ROW_FACTOR) rows fresh_scan
     in sc_displayable st = map (shown_item db candidate) (take scan_cap visible) \<and>
        (sc_truncated st \<longleftrightarrow> scan_cap < length visible \<or> scan_cap * RECENT_SCAN_ROW_FACTOR < length rows)"
  using feed_scan_batches [of "[]" "feed_rows db account_id as_of rq" "reassess (owned_target_icps db account_id) account_id as_of" fresh_scan]
    feed_rows_sorted [OF assms]
  by (simp add: fresh_scan_def last_cursor_def Let_def)

section \<open>What an untruncated page is\<close>

text \<open>
  The signals the request describes, with no window, no batches and no caps: those of the account that
  the filters admit and whose holder has a name, at their current status.
\<close>

definition wanted :: "award_status list option \<Rightarrow> feed_request \<Rightarrow> feed_signal \<Rightarrow> bool" where
  "wanted admitted rq item \<longleftrightarrow> by_freshness admitted (fr_primary_event rq) item \<and> by_plan rq item \<and> by_status rq item"

definition feed_reference :: "feed_db \<Rightarrow> string \<Rightarrow> date \<Rightarrow> feed_request \<Rightarrow> award_status list option \<Rightarrow> feed_signal list" where
  "feed_reference db account_id as_of rq admitted =
     feed_sorted (fr_sort rq) (filter (wanted admitted rq)
       (map (shown_item db (reassess (owned_target_icps db account_id) account_id as_of))
         (filter (\<lambda>s. sql_filters (fr_filter rq) s \<and> shown db (fr_filter rq) s)
           (sort_key recent_order (ownership_scoped db account_id)))))"

lemma fs_shown_item [simp]:
  "fs_signal (shown_item db (reassess owned account_id as_of) s) = s"
  "fs_status (shown_item db (reassess owned account_id as_of) s) = rc_status (current_recency s as_of)"
  "fs_account_id (shown_item db (reassess owned account_id as_of) s) = account_id"
  "fs_display (shown_item db (reassess owned account_id as_of) s) = display_identity_of db s"
  by (simp_all add: shown_item_def reassess_def fs_status_def)

lemma wanted_in_window:
  assumes "statuses_for (fr_freshness rq) = Inr admitted"
    and "wanted admitted rq (shown_item db (reassess owned account_id as_of) s)"
  shows "optionally (\<lambda>days. date_window as_of days (raw_dates s)) (candidate_window_days (fr_freshness rq)) \<and>
    optionally (\<lambda>d. not_null (\<lambda>p. ordinal_of d \<le> ordinal_of p) (sg_published_on s)) (fr_published_since rq)"
proof
  show "optionally (\<lambda>days. date_window as_of days (raw_dates s)) (candidate_window_days (fr_freshness rq))"
  proof (cases admitted)
    case None
    then have "fr_freshness rq = ''all''"
      using assms(1) by (auto simp: statuses_for_def STATUSES_BY_FRESHNESS_def split: if_split_asm)
    then show ?thesis by (simp add: candidate_window_days_def optionally_def)
  next
    case (Some sts)
    then have "rc_status (assess_recency default_thresholds (raw_dates s) as_of) \<in> set sts"
      using assms(2) by (simp add: wanted_def by_freshness_def optionally_def current_recency_def)
    then show ?thesis using window_necessary assms(1) Some by (fastforce simp: optionally_def)
  qed
qed (use assms(2) in \<open>simp add: wanted_def by_plan_def\<close>)



lemma set_feed_sorted [simp]: "set (feed_sorted by items) = set items"
  by (simp add: feed_sorted_def)

lemma page_of_matched:
  assumes "page_of admitted rq limit offset st = Inr page"
  shows "fp_matched page = feed_sorted (fr_sort rq) (filter (wanted admitted rq) (sc_displayable st))"
    and "fp_items page = take (nat limit) (drop (nat offset) (fp_matched page))"
    and "fp_has_more page \<longleftrightarrow> offset + limit < int (length (fp_matched page))"
    and "fp_scan_truncated page = sc_truncated st"
  using assms by (auto simp: page_of_def Let_def wanted_def [abs_def] conj_commute conj_left_commute split: sum.split_asm)

text \<open>The two ways a page is empty without a scan leave the reference empty too.\<close>

lemma reference_empty:
  assumes "\<not> list_ex (\<lambda>(_, o'). ow_status o' = FEEDING_ICP_STATUS) (owned_target_icps db account_id) \<or>
    fq_allowed_target_icp_ids (fr_filter rq) = Some []"
  shows "feed_reference db account_id as_of rq admitted = []"
proof -
  have "filter (\<lambda>s. sql_filters (fr_filter rq) s \<and> shown db (fr_filter rq) s) (sort_key recent_order (ownership_scoped db account_id)) = []"
    using assms
    by (force simp: filter_empty_conv ownership_scoped_def feeds_def owned_target_icps_def list_ex_iff sql_filters_def optionally_def)
  then show ?thesis by (simp add: feed_reference_def feed_sorted_def)
qed

lemma untruncated_reference:
  assumes "distinct (map sg_signal_key (fd_signals db))" and "statuses_for (fr_freshness rq) = Inr admitted"
    and "st = feed_scan db (reassess (owned_target_icps db account_id) account_id as_of) (fr_filter rq) cap
      (cap * RECENT_SCAN_ROW_FACTOR) (feed_rows db account_id as_of rq) fresh_scan" and "\<not> sc_truncated st"
  shows "feed_sorted (fr_sort rq) (filter (wanted admitted rq) (sc_displayable st)) = feed_reference db account_id as_of rq admitted"
proof -
  let ?item = "shown_item db (reassess (owned_target_icps db account_id) account_id as_of)"
  let ?rows = "feed_rows db account_id as_of rq"
  have "sc_displayable st = map ?item (filter (shown db (fr_filter rq)) ?rows)"
    using scan_of_rows [OF assms(1), of account_id as_of rq cap, unfolded Let_def] assms(3,4) by (auto simp: not_less)
  then have "filter (wanted admitted rq) (sc_displayable st) =
      map ?item (filter (\<lambda>s. shown db (fr_filter rq) s \<and> wanted admitted rq (?item s)) ?rows)"
    by (simp add: filter_map comp_def conj_commute)
  also have "filter (\<lambda>s. shown db (fr_filter rq) s \<and> wanted admitted rq (?item s)) ?rows =
      filter (\<lambda>s. sql_filters (fr_filter rq) s \<and> shown db (fr_filter rq) s \<and> wanted admitted rq (?item s))
        (sort_key recent_order (ownership_scoped db account_id))"
    unfolding feed_rows_def filter_sort filter_filter
    using wanted_in_window [OF assms(2), of db "owned_target_icps db account_id" account_id as_of]
    by (auto intro!: arg_cong [where f = "sort_key _"] filter_cong)
  finally show ?thesis by (simp add: feed_reference_def filter_map comp_def conj_commute conj_left_commute)
qed

lemma feed_page_cases:
  assumes "feed_page db account_id as_of rq = Inr page"
  obtains (empty) admitted limit offset where "statuses_for (fr_freshness rq) = Inr admitted" "page = empty_page limit offset"
      "\<And>admitted. feed_reference db account_id as_of rq admitted = []" "0 < limit" "0 \<le> offset"
    | (scanned) admitted limit offset cap st where "statuses_for (fr_freshness rq) = Inr admitted"
      "cap = (case fr_scan_cap rq of None \<Rightarrow> CANDIDATE_SCAN_CAP | Some n \<Rightarrow> n)"
      "st = feed_scan db (reassess (owned_target_icps db account_id) account_id as_of) (fr_filter rq) cap
        (cap * RECENT_SCAN_ROW_FACTOR) (feed_rows db account_id as_of rq) fresh_scan"
      "page_of admitted rq limit offset st = Inr page" "limit = max 1 (min (fr_limit rq) MAXIMUM_PAGE_SIZE)" "offset = max 0 (fr_offset rq)"
  using assms reference_empty [of db account_id rq as_of] unfolding feed_page_def Let_def
  by (auto split: sum.split_asm if_split_asm)

lemma sublist_reference:
  assumes "distinct (map sg_signal_key (fd_signals db))" and "statuses_for (fr_freshness rq) = Inr admitted"
    and "st = feed_scan db (reassess (owned_target_icps db account_id) account_id as_of) (fr_filter rq) cap
      (cap * RECENT_SCAN_ROW_FACTOR) (feed_rows db account_id as_of rq) fresh_scan"
    and "item \<in> set (filter (wanted admitted rq) (sc_displayable st))"
  shows "item \<in> set (feed_reference db account_id as_of rq admitted)"
proof -
  let ?item = "shown_item db (reassess (owned_target_icps db account_id) account_id as_of)"
  have "set (sc_displayable st) \<subseteq> ?item ` set (filter (shown db (fr_filter rq)) (feed_rows db account_id as_of rq))"
    using scan_of_rows [OF assms(1), of account_id as_of rq cap, unfolded Let_def] assms(3)
    by (auto dest!: in_set_takeD)
  with assms(4) show ?thesis by (auto simp: feed_reference_def feed_rows_def)
qed




section \<open>A small feed\<close>

definition sample_signal :: "string \<Rightarrow> instant \<Rightarrow> string option \<Rightarrow> date option \<Rightarrow> stored_signal" where
  "sample_signal key t name award = \<lparr> sg_signal_key = key, sg_opportunity_key = ''o'' @ key, sg_materialization_award_key = ''a'' @ key,
     sg_target_icp_id = ''icp'', sg_target_icp_revision = 1, sg_invalidated_at = None, sg_materialized_at = t,
     sg_company_identity_fingerprint = None, sg_winner_name = name, sg_winner_country = None,
     sg_winner_identifier_scheme = None, sg_winner_identifier_value = None, sg_title = None, sg_cpv_main = None,
     sg_amount = None, sg_currency = None, sg_place_of_performance = None, sg_award_date = award,
     sg_contract_notification_date = None, sg_source_country = ''FR'', sg_published_on = None, sg_discovered_at = None \<rparr>"

definition sample_feed :: feed_db where
  "sample_feed = \<lparr> fd_icps = [\<lparr> ic_target_icp_id = ''icp'', ic_account_id = ''acc'', ic_label = ''Icp'', ic_status = ''active'',
       ic_matching_revision = 1, ic_plan_limit_code = None, ic_created_at = 0 \<rparr>],
     fd_signals = [sample_signal ''s1'' 1 (Some ''Acme'') (Some (mk_date 2026 8 30)),
       sample_signal ''s2'' 2 (Some ''442 849 790'') (Some (mk_date 2026 8 31)),
       sample_signal ''s3'' 3 (Some ''Beta'') (Some (mk_date 2026 2 1)),
       sample_signal ''s4'' 4 (Some ''Gamma'') (Some (mk_date 2026 9 1))],
     fd_companies = [], fd_representations = [] \<rparr>"

definition no_filter :: feed_filter where
  "no_filter = \<lparr> fq_target_icp_id = None, fq_allowed_target_icp_ids = None, fq_country = None, fq_subdivision_code = None,
     fq_cpv_prefix = None, fq_date_from = None, fq_date_to = None, fq_min_amount = None, fq_text = None, fq_winner = None, fq_scope = None \<rparr>"

definition sample_feed_request :: feed_request where
  "sample_feed_request = \<lparr> fr_freshness = ''new'', fr_filter = no_filter, fr_primary_event = None, fr_limit = 20, fr_offset = 0,
     fr_scan_cap = None, fr_status_of = None, fr_statuses = None, fr_admit = None, fr_published_since = None, fr_sort = ''recent'' \<rparr>"

lemma sample_feed_keys: "distinct (map sg_signal_key (fd_signals sample_feed))"
  by (simp add: sample_feed_def sample_signal_def)

lemma sample_feed_page:
  "case feed_page sample_feed ''acc'' (mk_date 2026 9 2) sample_feed_request of
     Inl _ \<Rightarrow> False
   | Inr page \<Rightarrow> map (sg_signal_key \<circ> fs_signal) (fp_items page) = [''s4'', ''s1''] \<and> \<not> fp_scan_truncated page"
  by code_simp

lemma sample_feed_answer:
  obtains page where "feed_page sample_feed ''acc'' (mk_date 2026 9 2) sample_feed_request = Inr page"
    and "map (sg_signal_key \<circ> fs_signal) (fp_items page) = [''s4'', ''s1'']" and "\<not> fp_scan_truncated page"
  using sample_feed_page by (auto split: sum.split_asm)



end
