(* ===== verification/FeedHistory.thy ===== *)
theory FeedHistory
  imports FeedPage
begin

text \<open>
  The history view of the customer feed: the cursor of \<open>feed/history.py\<close> and \<open>history_page\<close> of
  \<open>feed/query.py\<close>, which walks all the awards of an account by date or by amount, a page at a time.

  The text of a cursor (base64 of JSON) is not modelled; \<open>transmit_cursor\<close> is what remains of a cursor that
  a client sends back, with the checks that decoding makes. \<open>hq_has_object\<close> stands for \<open>_has_display_object\<close>,
  whose tables of labels are data.

  Shown here: the cursors of both orders resume after their row; and a client that follows the cursors from the
  first page gets every admitted signal of the history, each once, in order.
\<close>

section \<open>Cursors\<close>

record history_cursor =
  hc_date :: "date option"
  hc_signal_key :: string
  hc_context_tag :: "string option"
  hc_sort :: string
  hc_amount :: "rat option"
  hc_currency :: "string option"

definition valid_signal_key :: "string \<Rightarrow> bool" where
  "valid_signal_key k \<longleftrightarrow> 40 \<le> length k \<and> length k \<le> 64 \<and> list_all is_lower_hex k"

definition valid_context :: "string option \<Rightarrow> string \<Rightarrow> bool" where
  "valid_context context_tag by \<longleftrightarrow> by \<in> {''recent'', ''amount''} \<and>
     optionally (\<lambda>t. length t = 24 \<and> list_all is_lower_hex t) context_tag"

text \<open>\<open>__post_init__\<close> of the cursor.\<close>

definition checked_cursor :: "history_cursor \<Rightarrow> (feed_error, history_cursor) result" where
  "checked_cursor c =
     (if \<not> valid_signal_key (hc_signal_key c) then Inl Invalid_history_cursor
      else if \<not> valid_context (hc_context_tag c) (hc_sort c) then Inl Invalid_history_cursor
      else Inr c)"

text \<open>
  Encoding and decoding: the amount and the currency travel with the context or an order other than
  \<open>recent\<close> only, and decoding refuses a negative amount and a currency that is not three capitals.
\<close>

definition transmit_cursor :: "history_cursor \<Rightarrow> (feed_error, history_cursor) result" where
  "transmit_cursor c =
     (if hc_context_tag c = None \<and> hc_sort c = ''recent''
      then checked_cursor (c\<lparr> hc_amount := None, hc_currency := None \<rparr>)
      else if \<not> optionally (\<lambda>a. 0 \<le> a) (hc_amount c) \<or> \<not> optionally (\<lambda>u. length u = 3 \<and> list_all is_upper u) (hc_currency c)
      then Inl Invalid_history_cursor
      else checked_cursor c)"

definition effective_history_date :: "stored_signal \<Rightarrow> date option \<times> string" where
  "effective_history_date s =
     (if sg_award_date s \<noteq> None then (sg_award_date s, ''award'')
      else if sg_contract_notification_date s \<noteq> None then (sg_contract_notification_date s, ''notification'')
      else if sg_published_on s \<noteq> None then (sg_published_on s, ''publication'')
      else (None, ''unknown''))"

definition history_cursor_of :: "string option \<Rightarrow> string \<Rightarrow> stored_signal \<Rightarrow> history_cursor" where
  "history_cursor_of context_tag by s = \<lparr> hc_date = fst (effective_history_date s), hc_signal_key = sg_signal_key s,
     hc_context_tag = context_tag, hc_sort = by, hc_amount = sg_amount s, hc_currency = sg_currency s \<rparr>"

definition cursor_for_signal :: "string option \<Rightarrow> string \<Rightarrow> stored_signal \<Rightarrow> (feed_error, history_cursor) result" where
  "cursor_for_signal context_tag by s = checked_cursor (history_cursor_of context_tag by s)"

definition history_sort_key :: "stored_signal \<Rightarrow> int \<times> int" where
  "history_sort_key s = (case fst (effective_history_date s) of None \<Rightarrow> (1, 0) | Some d \<Rightarrow> (0, - ordinal_of d))"

section \<open>The two orders\<close>

definition history_order :: "stored_signal \<Rightarrow> int \<times> int \<times> string" where
  \<comment> \<open>\<open>ORDER BY null_rank, effective DESC, signal_key\<close>\<close>
  "history_order s = (case history_date s of None \<Rightarrow> (1, 0, sg_signal_key s) | Some d \<Rightarrow> (0, - ordinal_of d, sg_signal_key s))"

definition history_after :: "history_cursor \<Rightarrow> stored_signal \<Rightarrow> bool" where
  "history_after c s =
     (if hc_sort c = ''amount''
      then (let unknown = (sg_amount s = None \<or> sg_currency s = None)
            in if hc_amount c = None \<or> hc_currency c = None
               then unknown \<and> sg_signal_key s > hc_signal_key c
               else unknown \<or>
                 not_null (\<lambda>u. u > the (hc_currency c)) (sg_currency s) \<or>
                 (sg_currency s = hc_currency c \<and> not_null (\<lambda>a. a < the (hc_amount c)) (sg_amount s)) \<or>
                 (sg_currency s = hc_currency c \<and> sg_amount s = hc_amount c \<and> sg_signal_key s > hc_signal_key c))
      else (case hc_date c of
          None \<Rightarrow> history_date s = None \<and> sg_signal_key s > hc_signal_key c
        | Some d \<Rightarrow>
            not_null (\<lambda>e. ordinal_of e < ordinal_of d) (history_date s) \<or>
            (not_null (\<lambda>e. ordinal_of e = ordinal_of d) (history_date s) \<and> sg_signal_key s > hc_signal_key c) \<or>
            history_date s = None))"

lemma effective_history_date_fst [simp]: "fst (effective_history_date s) = history_date s"
  by (auto simp: effective_history_date_def history_date_def split: option.split)

interpretation by_date: keyset history_order "history_cursor_of tag ''recent''" history_after
  by unfold_locales (auto simp: history_order_def history_after_def history_cursor_of_def not_null_def less_prod_def split: option.split)

interpretation by_amount: keyset amount_sort_key "history_cursor_of tag ''amount''" history_after
  by unfold_locales (auto simp: amount_sort_key_def history_after_def history_cursor_of_def not_null_def less_prod_def split: option.split)

section \<open>The page\<close>

definition HISTORY_SCAN_BATCH :: nat where "HISTORY_SCAN_BATCH = 100"
definition HISTORY_SCAN_CAP :: int where "HISTORY_SCAN_CAP = 500"

record history_request =
  hq_filter :: feed_filter
  hq_has_object :: "stored_signal \<Rightarrow> bool"
  hq_primary_event :: "string option"
  hq_status :: "string option"
  hq_limit :: int
  hq_scan_cap :: "int option"
  hq_status_of :: "(string \<Rightarrow> string) option"
  hq_statuses :: "string list option"
  hq_sort :: string
  hq_context_tag :: "string option"

record history_view =
  hp_items :: "feed_signal list"
  hp_limit :: int
  hp_next_cursor :: "history_cursor option"
  hp_has_more :: bool
  hp_scan_truncated :: bool
  hp_excluded_without_display_name :: nat
  hp_excluded_by_filters :: nat
  hp_status_counts :: "(string \<times> nat) list"
  hp_counts_truncated :: bool
  hp_excluded_by_status :: nat
  hp_counts_available :: bool

definition history_rows :: "feed_db \<Rightarrow> string \<Rightarrow> history_request \<Rightarrow> stored_signal list" where
  "history_rows db account_id hq =
     (let rows = filter (sql_filters (hq_filter hq)) (ownership_scoped db account_id)
      in if hq_sort hq = ''amount'' then sort_key amount_sort_key rows else sort_key history_order rows)"

definition history_passes :: "history_request \<Rightarrow> feed_signal \<Rightarrow> display_identity \<Rightarrow> bool" where
  "history_passes hq item display \<longleftrightarrow>
     python_filters (hq_filter hq) (fs_signal item) display \<and>
     optionally (\<lambda>st. status_name (fs_status item) = st) (hq_status hq) \<and>
     optionally (\<lambda>e. customer_event_type (fs_status item) = Some e) (hq_primary_event hq)"

record history_state =
  hs_selected :: "feed_signal list"
  hs_without_name :: nat
  hs_by_filters :: nat
  hs_by_status :: nat
  hs_counts :: "(string \<times> nat) list"
  hs_scanned :: nat
  hs_position :: "history_cursor option"
  hs_last_returned :: "history_cursor option"
  hs_found_more :: bool
  hs_stopped_early :: bool
  hs_exhausted :: bool

text \<open>What is done with a candidate that passes the filters: count it, then keep it or note that there is more.\<close>

definition history_keep :: "history_request \<Rightarrow> bool \<Rightarrow> nat \<Rightarrow> feed_signal \<Rightarrow> history_cursor \<Rightarrow> history_state \<Rightarrow> (feed_error, history_state) result" where
  "history_keep hq counting limit item current st =
     (let unified = unified_status (hq_status_of hq) item
      in case (if counting then count_statuses [unified] (hs_counts st) else Inr (hs_counts st)) of
           Inl s \<Rightarrow> Inl (Unknown_unified_status s)
         | Inr counts \<Rightarrow>
             (let st' = st\<lparr> hs_counts := counts \<rparr>
              in if \<not> optionally (\<lambda>sts. unified \<in> set sts) (hq_statuses hq)
                 then Inr (st'\<lparr> hs_by_status := hs_by_status st + 1 \<rparr>)
                 else if length (hs_selected st) < limit
                 then Inr (st'\<lparr> hs_selected := hs_selected st @ [item], hs_last_returned := Some current \<rparr>)
                 else Inr (st'\<lparr> hs_found_more := True, hs_stopped_early := \<not> counting \<rparr>)))"

fun history_items ::
  "history_request \<Rightarrow> bool \<Rightarrow> nat \<Rightarrow> (stored_signal \<Rightarrow> display_identity option) \<Rightarrow> (stored_signal \<Rightarrow> feed_signal) \<Rightarrow>
     stored_signal list \<Rightarrow> history_state \<Rightarrow> (feed_error, history_state) result" where
  "history_items hq counting limit identities candidate [] st = Inr st"
| "history_items hq counting limit identities candidate (s # ss) st =
     (case cursor_for_signal (hq_context_tag hq) (hq_sort hq) s of
        Inl e \<Rightarrow> Inl e
      | Inr current \<Rightarrow>
          (let st1 = st\<lparr> hs_position := Some current, hs_scanned := hs_scanned st + 1 \<rparr>
           in case identities s of
                None \<Rightarrow> history_items hq counting limit identities candidate ss (st1\<lparr> hs_without_name := hs_without_name st + 1 \<rparr>)
              | Some display \<Rightarrow>
                  (let item = (candidate s)\<lparr> fs_display := Some display \<rparr>
                   in if \<not> hq_has_object hq s \<or> \<not> history_passes hq item display
                      then history_items hq counting limit identities candidate ss (st1\<lparr> hs_by_filters := hs_by_filters st + 1 \<rparr>)
                      else (case history_keep hq counting limit item current st1 of
                          Inl e \<Rightarrow> Inl e
                        | Inr st2 \<Rightarrow> if hs_stopped_early st2 then Inr st2
                            else history_items hq counting limit identities candidate ss st2))))"

definition history_batch ::
  "feed_db \<Rightarrow> history_request \<Rightarrow> bool \<Rightarrow> nat \<Rightarrow> nat \<Rightarrow> (stored_signal \<Rightarrow> feed_signal) \<Rightarrow> stored_signal list \<Rightarrow> history_state \<Rightarrow>
     (feed_error, history_state) result" where
  "history_batch db hq counting limit scan_cap candidate rows st =
     (let batch_limit = min HISTORY_SCAN_BATCH (scan_cap - hs_scanned st);
          batch = take batch_limit (resume history_after (hs_position st) rows);
          identities = resolve_display_identity db batch
      in if batch = [] then Inr (st\<lparr> hs_exhausted := True \<rparr>)
         else (case history_items hq counting limit (\<lambda>s. identities (sg_signal_key s)) candidate batch st of
             Inl e \<Rightarrow> Inl e
           | Inr st1 \<Rightarrow> if hs_stopped_early st1 then Inr st1
               else if length batch < batch_limit then Inr (st1\<lparr> hs_exhausted := True \<rparr>)
               else Inr st1))"

lemma history_keep_scanned:
  "history_keep hq counting limit item current st = Inr st1 \<Longrightarrow> hs_scanned st1 = hs_scanned st \<and> hs_position st1 = hs_position st"
  by (auto simp: history_keep_def Let_def split: sum.split_asm if_split_asm)

lemma history_items_scanned:
  "history_items hq counting limit identities candidate ss st = Inr st1 \<Longrightarrow> hs_scanned st < hs_scanned st1 \<or> ss = []"
  by (induction ss arbitrary: st)
     (fastforce simp: Let_def split: sum.split_asm option.split_asm if_split_asm dest: history_keep_scanned)+

lemma history_batch_scanned:
  "history_batch db hq counting limit scan_cap candidate rows st = Inr st1 \<Longrightarrow> hs_scanned st < hs_scanned st1 \<or> hs_exhausted st1"
  by (auto simp: history_batch_def Let_def split: sum.split_asm if_split_asm dest!: history_items_scanned)

function history_scan ::
  "feed_db \<Rightarrow> history_request \<Rightarrow> bool \<Rightarrow> nat \<Rightarrow> nat \<Rightarrow> (stored_signal \<Rightarrow> feed_signal) \<Rightarrow> stored_signal list \<Rightarrow> history_state \<Rightarrow>
     (feed_error, history_state) result" where
  "history_scan db hq counting limit scan_cap candidate rows st =
     (if hs_scanned st < scan_cap
      then (case history_batch db hq counting limit scan_cap candidate rows st of
          Inl e \<Rightarrow> Inl e
        | Inr st1 \<Rightarrow> if hs_exhausted st1 \<or> hs_stopped_early st1 then Inr st1
            else history_scan db hq counting limit scan_cap candidate rows st1)
      else Inr st)"
  by pat_completeness auto
termination
  by (relation "measure (\<lambda>(db, hq, counting, limit, scan_cap, candidate, rows, st). scan_cap - hs_scanned st)")
     (auto dest!: history_batch_scanned)

declare history_scan.simps [simp del]

definition history_start :: "history_cursor option \<Rightarrow> history_state" where
  "history_start decoded = \<lparr> hs_selected = [], hs_without_name = 0, hs_by_filters = 0, hs_by_status = 0, hs_counts = zero_counts,
     hs_scanned = 0, hs_position = decoded, hs_last_returned = None, hs_found_more = False, hs_stopped_early = False,
     hs_exhausted = False \<rparr>"

definition empty_history :: "int \<Rightarrow> history_view" where
  "empty_history limit = \<lparr> hp_items = [], hp_limit = limit, hp_next_cursor = None, hp_has_more = False, hp_scan_truncated = False,
     hp_excluded_without_display_name = 0, hp_excluded_by_filters = 0, hp_status_counts = zero_counts, hp_counts_truncated = False,
     hp_excluded_by_status = 0, hp_counts_available = True \<rparr>"

definition history_answer :: "int \<Rightarrow> bool \<Rightarrow> history_state \<Rightarrow> history_view" where
  "history_answer limit counting st =
     (let full = (int (length (hs_selected st)) = limit);
          next_cursor = (if hs_exhausted st then (if hs_found_more st then hs_last_returned st else None)
             else if full then hs_last_returned st
             else if hs_position st \<noteq> None then hs_position st else hs_last_returned st);
          scan_truncated = (\<not> hs_exhausted st \<and> \<not> hs_stopped_early st)
      in \<lparr> hp_items = hs_selected st, hp_limit = limit, hp_next_cursor = next_cursor,
           hp_has_more = (if hs_exhausted st then hs_found_more st else True), hp_scan_truncated = scan_truncated,
           hp_excluded_without_display_name = hs_without_name st, hp_excluded_by_filters = hs_by_filters st,
           hp_status_counts = hs_counts st, hp_counts_truncated = (scan_truncated \<and> counting),
           hp_excluded_by_status = hs_by_status st, hp_counts_available = counting \<rparr>)"

definition history_page :: "feed_db \<Rightarrow> string \<Rightarrow> date \<Rightarrow> history_request \<Rightarrow> history_cursor option \<Rightarrow> (feed_error, history_view) result" where
  \<comment> \<open>the cursor as the client sends it back\<close>
  "history_page db account_id as_of hq cursor =
     (let scan_cap = (case hq_scan_cap hq of None \<Rightarrow> HISTORY_SCAN_CAP | Some n \<Rightarrow> n);
          limit = max 1 (min (hq_limit hq) MAXIMUM_PAGE_SIZE);
          counting = (cursor = None);
          owned = owned_target_icps db account_id
      in if scan_cap < 1 then Inl Scan_cap_not_positive
         else (case (case cursor of None \<Rightarrow> Inr None | Some c \<Rightarrow> rmap Some (transmit_cursor c)) of
             Inl e \<Rightarrow> Inl e
           | Inr decoded \<Rightarrow>
               if \<not> optionally (\<lambda>c. (hc_context_tag c = None \<or> hc_context_tag c = hq_context_tag hq) \<and> hc_sort c = hq_sort hq) decoded
               then Inl Invalid_history_cursor
               else if \<not> optionally (\<lambda>i. i \<in> set (map fst owned)) (fq_target_icp_id (hq_filter hq))
               then Inl (Foreign_target_icp (the (fq_target_icp_id (hq_filter hq))))
               else if \<not> list_ex (\<lambda>(_, o'). ow_status o' = FEEDING_ICP_STATUS) owned then Inr (empty_history limit)
               else if fq_allowed_target_icp_ids (hq_filter hq) = Some [] then Inr (empty_history limit)
               else rmap (history_answer limit counting)
                 (history_scan db hq counting (nat limit) (nat scan_cap) (reassess owned account_id as_of)
                    (history_rows db account_id hq) (history_start decoded))))"


section \<open>What a scan has done\<close>

definition admits :: "feed_db \<Rightarrow> history_request \<Rightarrow> (stored_signal \<Rightarrow> feed_signal) \<Rightarrow> stored_signal \<Rightarrow> bool" where
  "admits db hq candidate s \<longleftrightarrow>
     not_null (\<lambda>d. hq_has_object hq s \<and> history_passes hq (shown_item db candidate s) d) (display_identity_of db s) \<and>
     optionally (\<lambda>sts. unified_status (hq_status_of hq) (shown_item db candidate s) \<in> set sts) (hq_statuses hq)"

text \<open>
  The state \<open>st'\<close> that a scan of the rows \<open>xs\<close> leaves from the state \<open>st\<close>: the page is filled with the admitted rows,
  the cursor to return is that of the last of them, and the scan either stopped at an admitted row that did not fit
  or is after its last row.
\<close>

definition scanned_to ::
  "bool \<Rightarrow> nat \<Rightarrow> (stored_signal \<Rightarrow> history_cursor) \<Rightarrow> (stored_signal \<Rightarrow> feed_signal) \<Rightarrow> (stored_signal \<Rightarrow> bool) \<Rightarrow>
     stored_signal list \<Rightarrow> history_state \<Rightarrow> history_state \<Rightarrow> bool" where
  "scanned_to counting limit cur item adm xs st st' \<longleftrightarrow>
     (let kept = filter adm xs; room = limit - length (hs_selected st)
      in hs_selected st' = hs_selected st @ map item (take room kept) \<and>
         hs_last_returned st' = (if take room kept = [] then hs_last_returned st else Some (cur (last (take room kept)))) \<and>
         (hs_found_more st' \<longleftrightarrow> hs_found_more st \<or> room < length kept) \<and>
         (hs_stopped_early st' \<longleftrightarrow> \<not> counting \<and> room < length kept) \<and>
         map fst (hs_counts st') = map fst (hs_counts st) \<and>
         (hs_stopped_early st' \<or> hs_position st' = (if xs = [] then hs_position st else Some (cur (last xs))) \<and>
           hs_scanned st' = hs_scanned st + length xs))"

lemma scanned_to_append:
  assumes "scanned_to counting limit cur item adm xs st st1" and "\<not> hs_stopped_early st1"
    and "scanned_to counting limit cur item adm ys st1 st2"
  shows "scanned_to counting limit cur item adm (xs @ ys) st st2"
proof -
  define room where "room = limit - length (hs_selected st)"
  have first: "hs_selected st1 = hs_selected st @ map item (take room (filter adm xs))"
      "hs_last_returned st1 = (if take room (filter adm xs) = [] then hs_last_returned st else Some (cur (last (take room (filter adm xs)))))"
      "hs_found_more st1 \<longleftrightarrow> hs_found_more st \<or> room < length (filter adm xs)" "counting \<or> length (filter adm xs) \<le> room"
      "map fst (hs_counts st1) = map fst (hs_counts st)"
      "hs_position st1 = (if xs = [] then hs_position st else Some (cur (last xs)))" "hs_scanned st1 = hs_scanned st + length xs"
    using assms(1,2) by (auto simp: scanned_to_def Let_def room_def)
  have "limit - length (hs_selected st1) = room - length (filter adm xs)" by (simp add: first(1) room_def)
  then have rest: "hs_selected st2 = hs_selected st1 @ map item (take (room - length (filter adm xs)) (filter adm ys))"
      "hs_last_returned st2 = (if take (room - length (filter adm xs)) (filter adm ys) = [] then hs_last_returned st1
         else Some (cur (last (take (room - length (filter adm xs)) (filter adm ys)))))"
      "hs_found_more st2 \<longleftrightarrow> hs_found_more st1 \<or> room - length (filter adm xs) < length (filter adm ys)"
      "hs_stopped_early st2 \<longleftrightarrow> \<not> counting \<and> room - length (filter adm xs) < length (filter adm ys)"
      "map fst (hs_counts st2) = map fst (hs_counts st1)"
      "hs_stopped_early st2 \<or> hs_position st2 = (if ys = [] then hs_position st1 else Some (cur (last ys))) \<and>
        hs_scanned st2 = hs_scanned st1 + length ys"
    using assms(3) by (auto simp: scanned_to_def Let_def)
  have more: "room < length (filter adm xs) \<or> room - length (filter adm xs) < length (filter adm ys) \<longleftrightarrow>
      room < length (filter adm (xs @ ys))" by auto
  have "hs_selected st2 = hs_selected st @ map item (take room (filter adm (xs @ ys)))" using first(1) rest(1) by simp
  moreover have "hs_last_returned st2 = (if take room (filter adm (xs @ ys)) = [] then hs_last_returned st
      else Some (cur (last (take room (filter adm (xs @ ys))))))" by (simp add: first(2) rest(2))
  moreover have "hs_found_more st2 \<longleftrightarrow> hs_found_more st \<or> room < length (filter adm (xs @ ys))" using first(3) rest(3) more by blast
  moreover have "hs_stopped_early st2 \<longleftrightarrow> \<not> counting \<and> room < length (filter adm (xs @ ys))"
    using first(4) rest(4) more by (metis leD)
  moreover have "hs_stopped_early st2 \<or> hs_position st2 = (if xs @ ys = [] then hs_position st else Some (cur (last (xs @ ys)))) \<and>
      hs_scanned st2 = hs_scanned st + length (xs @ ys)" using first(6,7) rest(6) by (auto split: if_split_asm)
  ultimately show ?thesis unfolding scanned_to_def Let_def room_def [symmetric] using first(5) rest(5) by simp
qed

lemma scanned_to_exhausted: "scanned_to counting limit cur item adm xs st (st'\<lparr> hs_exhausted := b \<rparr>) = scanned_to counting limit cur item adm xs st st'"
  by (simp add: scanned_to_def)

lemma scanned_to_stopped:
  assumes "scanned_to counting limit cur item adm xs st st1" and "hs_stopped_early st1"
  shows "scanned_to counting limit cur item adm (xs @ ys) st st1"
  using assms by (auto simp: scanned_to_def Let_def)

lemma count_keys: "count_statuses sts counts = Inr counts' \<Longrightarrow> map fst counts' = map fst counts"
  by (induction sts arbitrary: counts) (auto simp: comp_def split_beta split: if_split_asm)

lemma count_one:
  "st \<in> set (map fst counts) \<Longrightarrow> \<exists>counts'. count_statuses [st] counts = Inr counts' \<and> map fst counts' = map fst counts"
  by (auto simp: comp_def split_beta)

lemma history_keep_scanned_to:
  assumes "unified_status (hq_status_of hq) (item s) \<in> set UNIFIED_STATUSES" and "map fst (hs_counts st) = UNIFIED_STATUSES"
    and "length (hs_selected st) \<le> limit" and "\<not> hs_stopped_early st"
    and "adm s \<longleftrightarrow> optionally (\<lambda>sts. unified_status (hq_status_of hq) (item s) \<in> set sts) (hq_statuses hq)"
    and "st1 = st\<lparr> hs_position := Some (cur s), hs_scanned := hs_scanned st + 1 \<rparr>"
  shows "\<exists>st2. history_keep hq counting limit (item s) (cur s) st1 = Inr st2 \<and>
    scanned_to counting limit cur item adm [s] st st2 \<and> hs_exhausted st2 = hs_exhausted st"
proof -
  obtain counts where counts: "(if counting then count_statuses [unified_status (hq_status_of hq) (item s)] (hs_counts st1) else Inr (hs_counts st1)) = Inr counts"
      "map fst counts = map fst (hs_counts st)"
    using count_one [of "unified_status (hq_status_of hq) (item s)" "hs_counts st"] assms(1,2,6) by (cases counting) auto
  consider "\<not> adm s" | "adm s" "length (hs_selected st) < limit" | "adm s" "length (hs_selected st) = limit"
    using assms(3) by linarith
  then show ?thesis using assms(4-6) counts
    by cases (auto simp: history_keep_def Let_def scanned_to_def Suc_leI)
qed

lemma history_items_scanned_to:
  fixes hq candidate db
  defines "cur \<equiv> history_cursor_of (hq_context_tag hq) (hq_sort hq)" and "item \<equiv> shown_item db candidate"
  assumes "\<forall>s \<in> set xs. cursor_for_signal (hq_context_tag hq) (hq_sort hq) s = Inr (cur s) \<and>
      unified_status (hq_status_of hq) (item s) \<in> set UNIFIED_STATUSES"
    and "map fst (hs_counts st) = UNIFIED_STATUSES" and "\<not> hs_stopped_early st" and "length (hs_selected st) \<le> limit"
  shows "\<exists>st'. history_items hq counting limit (display_identity_of db) candidate xs st = Inr st' \<and>
    scanned_to counting limit cur item (admits db hq candidate) xs st st' \<and> hs_exhausted st' = hs_exhausted st"
  using assms(3-)
proof (induction xs arbitrary: st)
  case Nil
  then show ?case by (simp add: scanned_to_def)
next
  case (Cons s ss)
  define st1 where "st1 = st\<lparr> hs_position := Some (cur s), hs_scanned := hs_scanned st + 1 \<rparr>"
  have step: "\<exists>st2. history_items hq counting limit (display_identity_of db) candidate (s # ss) st =
        (if hs_stopped_early st2 then Inr st2 else history_items hq counting limit (display_identity_of db) candidate ss st2) \<and>
      scanned_to counting limit cur item (admits db hq candidate) [s] st st2 \<and> hs_exhausted st2 = hs_exhausted st"
  proof (cases "display_identity_of db s")
    case None
    then show ?thesis using Cons.prems
      by (intro exI [of _ "st1\<lparr> hs_without_name := hs_without_name st + 1 \<rparr>"])
         (auto simp: st1_def scanned_to_def admits_def not_null_def)
  next
    case (Some d)
    have item: "(candidate s)\<lparr> fs_display := Some d \<rparr> = item s" using Some by (simp add: item_def shown_item_def)
    show ?thesis
    proof (cases "hq_has_object hq s \<and> history_passes hq (item s) d")
      case False
      then show ?thesis using Cons.prems Some item
        by (intro exI [of _ "st1\<lparr> hs_by_filters := hs_by_filters st + 1 \<rparr>"])
           (auto simp: st1_def scanned_to_def admits_def not_null_def item_def)
    next
      case True
      obtain st2 where keep: "history_keep hq counting limit (item s) (cur s) st1 = Inr st2"
          "scanned_to counting limit cur item (admits db hq candidate) [s] st st2" "hs_exhausted st2 = hs_exhausted st"
        using history_keep_scanned_to [of hq item s st limit "admits db hq candidate" st1 cur counting] Cons.prems True Some
        by (auto simp: admits_def not_null_def item_def st1_def)
      then show ?thesis using True Some item Cons.prems(1) by (intro exI [of _ st2]) (simp add: st1_def)
    qed
  qed
  then obtain st2 where st2: "history_items hq counting limit (display_identity_of db) candidate (s # ss) st =
        (if hs_stopped_early st2 then Inr st2 else history_items hq counting limit (display_identity_of db) candidate ss st2)"
      "scanned_to counting limit cur item (admits db hq candidate) [s] st st2" "hs_exhausted st2 = hs_exhausted st"
    by blast
  show ?case
  proof (cases "hs_stopped_early st2")
    case True
    then show ?thesis using st2 scanned_to_stopped [OF st2(2) True, of ss] by simp
  next
    case False
    have "map fst (hs_counts st2) = UNIFIED_STATUSES" "length (hs_selected st2) \<le> limit"
      using st2(2) Cons.prems by (auto simp: scanned_to_def Let_def)
    from Cons.IH [OF _ this(1) False this(2)] Cons.prems(1) obtain st' where
        "history_items hq counting limit (display_identity_of db) candidate ss st2 = Inr st'"
        "scanned_to counting limit cur item (admits db hq candidate) ss st2 st'" "hs_exhausted st' = hs_exhausted st2"
      by auto
    then show ?thesis using st2 False scanned_to_append [OF st2(2) False, of ss st'] by simp
  qed
qed

section \<open>The scan in batches\<close>

lemma history_items_cong:
  "(\<And>s. s \<in> set ss \<Longrightarrow> f s = g s) \<Longrightarrow> history_items hq counting limit f candidate ss st = history_items hq counting limit g candidate ss st"
  by (induction ss arbitrary: st) (auto simp: Let_def split: sum.split option.split)


text \<open>What the rows and the request have to be for the cursors to work.\<close>

definition history_ready :: "feed_db \<Rightarrow> history_request \<Rightarrow> (stored_signal \<Rightarrow> feed_signal) \<Rightarrow> stored_signal list \<Rightarrow> bool" where
  "history_ready db hq candidate rows \<longleftrightarrow> distinct (map sg_signal_key rows) \<and> valid_context (hq_context_tag hq) (hq_sort hq) \<and>
     list_all (\<lambda>s. valid_signal_key (sg_signal_key s) \<and> optionally (\<lambda>a. 0 \<le> a) (sg_amount s) \<and>
       optionally (\<lambda>u. length u = 3 \<and> list_all is_upper u) (sg_currency s) \<and>
       unified_status (hq_status_of hq) (shown_item db candidate s) \<in> set UNIFIED_STATUSES) rows"

definition resumes :: "(stored_signal \<Rightarrow> history_cursor) \<Rightarrow> stored_signal list \<Rightarrow> bool" where
  "resumes cur rows \<longleftrightarrow> (\<forall>xs s ys. rows = xs @ s # ys \<longrightarrow> filter (history_after (cur s)) rows = ys)"

lemma history_scan_batch:
  fixes hq candidate db
  defines "cur \<equiv> history_cursor_of (hq_context_tag hq) (hq_sort hq)" and "item \<equiv> shown_item db candidate"
  assumes "history_ready db hq candidate (seen @ todo)" and "resume history_after (hs_position st) (seen @ todo) = todo"
    and "map fst (hs_counts st) = UNIFIED_STATUSES" and "\<not> hs_stopped_early st" and "\<not> hs_exhausted st"
    and "length (hs_selected st) \<le> limit" and "hs_scanned st < scan_cap" and "todo \<noteq> []"
    and "batch = take (min HISTORY_SCAN_BATCH (scan_cap - hs_scanned st)) todo"
  obtains st1 where "scanned_to counting limit cur item (admits db hq candidate) batch st st1" and "hs_exhausted st1 = hs_exhausted st"
    and "history_scan db hq counting limit scan_cap candidate (seen @ todo) st =
        (if hs_stopped_early st1 then Inr st1
         else if length batch < min HISTORY_SCAN_BATCH (scan_cap - hs_scanned st) then Inr (st1\<lparr> hs_exhausted := True \<rparr>)
         else history_scan db hq counting limit scan_cap candidate (seen @ todo) st1)"
proof -
  have sub: "set batch \<subseteq> set todo" unfolding assms(11) by (rule set_take_subset)
  then have ok: "\<forall>s \<in> set batch. cursor_for_signal (hq_context_tag hq) (hq_sort hq) s = Inr (cur s) \<and>
      unified_status (hq_status_of hq) (item s) \<in> set UNIFIED_STATUSES"
    using assms(3)
    by (auto simp: history_ready_def list_all_iff cursor_for_signal_def checked_cursor_def cur_def item_def history_cursor_of_def)
  obtain st1 where st1: "history_items hq counting limit (display_identity_of db) candidate batch st = Inr st1"
      "scanned_to counting limit cur item (admits db hq candidate) batch st st1" "hs_exhausted st1 = hs_exhausted st"
    using history_items_scanned_to [of batch hq db candidate st limit counting] ok assms(5,6,8) unfolding cur_def item_def by blast
  have "distinct (map sg_signal_key batch)"
    using assms(3) by (simp add: history_ready_def assms(11) take_map [symmetric])
  then have ids: "history_items hq counting limit (\<lambda>s. resolve_display_identity db batch (sg_signal_key s)) candidate batch st = Inr st1"
    using st1(1) history_items_cong [of batch "\<lambda>s. resolve_display_identity db batch (sg_signal_key s)" "display_identity_of db"]
      identity_batch_independent by metis
  have "take (min HISTORY_SCAN_BATCH (scan_cap - hs_scanned st)) (resume history_after (hs_position st) (seen @ todo)) = batch" "batch \<noteq> []"
    using assms(4,9,10,11) by (simp_all add: HISTORY_SCAN_BATCH_def)
  then show ?thesis using ids st1 assms(7,9)
    by (intro that [OF st1(2,3)], subst history_scan.simps) (simp add: history_batch_def Let_def del: take_eq_Nil take_eq_Nil2)
qed

lemma history_scan_closed:
  fixes hq candidate db
  defines "cur \<equiv> history_cursor_of (hq_context_tag hq) (hq_sort hq)" and "item \<equiv> shown_item db candidate"
  assumes "history_ready db hq candidate rows" and "resumes cur rows" and "rows = seen @ todo"
    and "resume history_after (hs_position st) rows = todo" and "map fst (hs_counts st) = UNIFIED_STATUSES"
    and "\<not> hs_stopped_early st" and "\<not> hs_exhausted st" and "length (hs_selected st) \<le> limit"
  shows "\<exists>st'. history_scan db hq counting limit scan_cap candidate rows st = Inr st' \<and>
    scanned_to counting limit cur item (admits db hq candidate) (take (scan_cap - hs_scanned st) todo) st st' \<and>
    (hs_exhausted st' \<longleftrightarrow> \<not> hs_stopped_early st' \<and> length todo < scan_cap - hs_scanned st)"
  using assms(5-)
proof (induction "scan_cap - hs_scanned st" arbitrary: seen todo st rule: less_induct)
  case less
  define m where "m = scan_cap - hs_scanned st"
  show ?case
  proof (cases "m = 0 \<or> todo = []")
    case True
    then show ?thesis using less.prems
      by (subst history_scan.simps) (auto simp: m_def history_batch_def scanned_to_def)
  next
    case False
    define batch where "batch = take (min HISTORY_SCAN_BATCH m) todo"
    define rest where "rest = drop (min HISTORY_SCAN_BATCH m) todo"
    have todo: "todo = batch @ rest" "batch \<noteq> []" "take m todo = batch @ take (m - length batch) rest"
      using False by (auto simp: batch_def rest_def HISTORY_SCAN_BATCH_def min_def take_add [symmetric])
    obtain st1 where st1: "scanned_to counting limit cur item (admits db hq candidate) batch st st1" "hs_exhausted st1 = hs_exhausted st"
        and scan: "history_scan db hq counting limit scan_cap candidate rows st =
          (if hs_stopped_early st1 then Inr st1
           else if length batch < min HISTORY_SCAN_BATCH m then Inr (st1\<lparr> hs_exhausted := True \<rparr>)
           else history_scan db hq counting limit scan_cap candidate rows st1)"
      using history_scan_batch [of db hq candidate seen todo st limit scan_cap batch counting] False less.prems assms(3)
      unfolding cur_def item_def m_def batch_def by auto
    consider "hs_stopped_early st1" | "\<not> hs_stopped_early st1" "length batch < min HISTORY_SCAN_BATCH m"
      | "\<not> hs_stopped_early st1" "length batch = min HISTORY_SCAN_BATCH m" by (fastforce simp: batch_def)
    then show ?thesis
    proof cases
      case 1
      then show ?thesis using scan st1 less.prems(5) scanned_to_stopped [OF st1(1) 1] todo(3) by (auto simp: m_def)
    next
      case 2
      then have "rest = []" by (auto simp: batch_def rest_def)
      then show ?thesis using 2 scan st1 todo by (auto simp: m_def scanned_to_exhausted)
    next
      case 3
      have after: "hs_scanned st1 = hs_scanned st + length batch" "hs_position st1 = Some (cur (last batch))"
          "map fst (hs_counts st1) = UNIFIED_STATUSES" "length (hs_selected st1) \<le> limit"
        using st1(1) 3(1) todo(2) less.prems(3,6) by (auto simp: scanned_to_def Let_def)
      have "rows = (seen @ butlast batch) @ last batch # rest" using less.prems(1) todo by simp
      then have "filter (history_after (cur (last batch))) rows = rest" using assms(4) unfolding resumes_def by blast
      then have "resume history_after (hs_position st1) rows = rest" by (simp add: after(2) resume_def)
      moreover have "scan_cap - hs_scanned st1 < m" using after(1) False todo(2) by (cases batch) (auto simp: m_def)
      moreover have "rows = (seen @ batch) @ rest" using less.prems(1) todo(1) by simp
      ultimately obtain st' where "history_scan db hq counting limit scan_cap candidate rows st1 = Inr st'"
          "scanned_to counting limit cur item (admits db hq candidate) (take (scan_cap - hs_scanned st1) rest) st1 st'"
          "hs_exhausted st' \<longleftrightarrow> \<not> hs_stopped_early st' \<and> length rest < scan_cap - hs_scanned st1"
        using less.hyps [folded m_def, of st1 "seen @ batch" rest] after(3,4) 3(1) st1(2) less.prems(5) by blast
      moreover have "scan_cap - hs_scanned st1 = m - length batch" using after(1) by (simp add: m_def)
      ultimately show ?thesis
        using scan 3 scanned_to_append [OF st1(1) 3(1)] todo(1,3) unfolding m_def [symmetric] by (auto simp: less_diff_conv2)
    qed
  qed
qed

section \<open>One page and the walk\<close>

lemma filter_take_prefix:
  assumes "0 < n" and "n \<le> length (filter P xs)"
  shows "\<exists>ys zs. xs = ys @ zs \<and> ys \<noteq> [] \<and> filter P ys = take n (filter P xs) \<and> last ys = last (take n (filter P xs))"
  using assms
proof (induction xs arbitrary: n)
  case (Cons x xs)
  consider "\<not> P x" | "P x" "n = 1" | "P x" "1 < n" using Cons.prems(1) by linarith
  then show ?case
  proof cases
    case 1
    then have "n \<le> length (filter P xs)" using Cons.prems(2) by simp
    from Cons.IH [OF Cons.prems(1) this] obtain ys zs where
      "xs = ys @ zs" "ys \<noteq> []" "filter P ys = take n (filter P xs)" "last ys = last (take n (filter P xs))" by blast
    then show ?thesis using 1 by (intro exI [of _ "x # ys"] exI [of _ zs]) simp
  next
    case 2
    then show ?thesis by (intro exI [of _ "[x]"] exI [of _ xs]) simp
  next
    case 3
    then have "0 < n - 1" "n - 1 \<le> length (filter P xs)" using Cons.prems(2) by simp_all
    from Cons.IH [OF this] obtain ys zs where "xs = ys @ zs" "ys \<noteq> []" "filter P ys = take (n - 1) (filter P xs)"
      "last ys = last (take (n - 1) (filter P xs))" by blast
    then show ?thesis using 3 Cons.prems by (intro exI [of _ "x # ys"] exI [of _ zs]) (auto simp: take_Cons')
  qed
qed simp

lemma history_answer_closed:
  assumes "scanned_to counting (nat limit) cur item adm (take cap todo) (history_start decoded) st" and "0 < limit" and "0 < cap"
    and "hs_exhausted st \<longleftrightarrow> \<not> hs_stopped_early st \<and> length todo < cap"
  shows "\<exists>read rest. todo = read @ rest \<and> hp_items (history_answer limit counting st) = map item (filter adm read) \<and>
    (hp_next_cursor (history_answer limit counting st) = None \<and> filter adm rest = [] \<or>
     read \<noteq> [] \<and> hp_next_cursor (history_answer limit counting st) = Some (cur (last read)))"
proof -
  define kept where "kept = filter adm (take cap todo)"
  note start = assms(1) [unfolded scanned_to_def Let_def history_start_def history_state.simps list.size diff_zero append_Nil
      simp_thms, folded kept_def]
  have st: "hs_selected st = map item (take (nat limit) kept)"
      "hs_last_returned st = (if take (nat limit) kept = [] then None else Some (cur (last (take (nat limit) kept))))"
      "hs_found_more st \<longleftrightarrow> nat limit < length kept" "hs_stopped_early st \<longleftrightarrow> \<not> counting \<and> nat limit < length kept"
    using start by blast+
  have position: "hs_stopped_early st \<or> take cap todo = [] \<or> hs_position st = Some (cur (last (take cap todo)))"
    using start by (metis (full_types))
  show ?thesis
  proof (cases "nat limit \<le> length kept \<and> (length todo < cap \<longrightarrow> nat limit < length kept)")
    case True
    then have "0 < nat limit" "nat limit \<le> length (filter adm (take cap todo))" using assms(2) by (simp_all add: kept_def)
    from filter_take_prefix [OF this, folded kept_def] obtain ys zs where ys: "take cap todo = ys @ zs" "ys \<noteq> []"
      "filter adm ys = take (nat limit) kept" "last ys = last (take (nat limit) kept)" by blast
    then have "todo = ys @ (zs @ drop cap todo)" by (metis append.assoc append_take_drop_id)
    moreover have "hp_next_cursor (history_answer limit counting st) = Some (cur (last ys))"
      using True st(1-4) assms(2,4) ys(3,4) by (auto simp: history_answer_def Let_def)
    ultimately show ?thesis using ys st(1) by (intro exI [of _ ys] exI [of _ "zs @ drop cap todo"]) (simp add: history_answer_def Let_def)
  next
    case False
    then have few: "length kept \<le> nat limit" "hs_selected st = map item kept" "\<not> hs_stopped_early st" "\<not> hs_found_more st"
      using st(1,3,4) by auto
    show ?thesis
    proof (cases "length todo < cap")
      case True
      then show ?thesis using few assms(4) by (intro exI [of _ todo] exI [of _ "[]"]) (simp add: history_answer_def Let_def kept_def)
    next
      case big: False
      then have "take cap todo \<noteq> []" "int (length (hs_selected st)) \<noteq> limit"
        using False few assms(2,3) by auto
      then show ?thesis using big few(2,3) position assms(4)
        by (intro exI [of _ "take cap todo"] exI [of _ "drop cap todo"]) (auto simp: history_answer_def Let_def kept_def)
    qed
  qed
qed

lemma history_rows_resume:
  assumes "history_ready db hq candidate (history_rows db account_id hq)"
  shows "resumes (history_cursor_of (hq_context_tag hq) (hq_sort hq)) (history_rows db account_id hq)"
proof -
  let ?rows = "filter (sql_filters (hq_filter hq)) (ownership_scoped db account_id)"
  have "distinct (map sg_signal_key ?rows)"
    using assms by (auto simp: history_ready_def history_rows_def Let_def distinct_map split: if_split_asm)
  then have keys: "distinct (map amount_sort_key ?rows)" "distinct (map history_order ?rows)"
    by (auto simp: distinct_map inj_on_def amount_sort_key_def history_order_def split: option.split_asm)
  show ?thesis
  proof (cases "hq_sort hq = ''amount''")
    case True
    then have rows: "sort_key amount_sort_key ?rows = history_rows db account_id hq" by (simp add: history_rows_def)
    show ?thesis unfolding resumes_def True
      using sort_key_strict [OF keys(1), unfolded rows] by (metis by_amount.filter_after_split)
  next
    case False
    then have "hq_sort hq = ''recent''" using assms by (auto simp: history_ready_def valid_context_def)
    moreover have rows: "sort_key history_order ?rows = history_rows db account_id hq" using False by (simp add: history_rows_def)
    ultimately show ?thesis unfolding resumes_def
      using sort_key_strict [OF keys(2), unfolded rows] by (metis by_date.filter_after_split)
  qed
qed

lemma transmit_ready:
  assumes "history_ready db hq candidate rows" and "s \<in> set rows" and "cur = history_cursor_of (hq_context_tag hq) (hq_sort hq)"
  shows "\<exists>c. transmit_cursor (cur s) = Inr c \<and> hc_context_tag c = hq_context_tag hq \<and> hc_sort c = hq_sort hq \<and>
    history_after c = history_after (cur s)"
proof (cases "hq_context_tag hq = None \<and> hq_sort hq = ''recent''")
  case True
  have "history_after (cur s\<lparr> hc_amount := None, hc_currency := None \<rparr>) = history_after (cur s)"
    using True by (intro ext) (simp add: history_after_def assms(3) history_cursor_of_def split: option.split)
  with True assms show ?thesis
    by (auto simp: history_ready_def list_all_iff transmit_cursor_def checked_cursor_def history_cursor_of_def)
next
  case False
  with assms show ?thesis
    by (auto simp: history_ready_def list_all_iff transmit_cursor_def checked_cursor_def history_cursor_of_def)
qed

text \<open>The account can be served: the profile asked for is its own and the cap of the scan is positive.\<close>

definition served :: "feed_db \<Rightarrow> string \<Rightarrow> history_request \<Rightarrow> bool" where
  "served db account_id hq \<longleftrightarrow> optionally (\<lambda>n. 1 \<le> n) (hq_scan_cap hq) \<and>
     optionally (\<lambda>i. i \<in> set (map fst (owned_target_icps db account_id))) (fq_target_icp_id (hq_filter hq))"

lemma no_profile_no_rows:
  assumes "\<not> list_ex (\<lambda>(_, o'). ow_status o' = FEEDING_ICP_STATUS) (owned_target_icps db account_id) \<or>
    fq_allowed_target_icp_ids (hq_filter hq) = Some []"
  shows "history_rows db account_id hq = []"
proof -
  have "filter (sql_filters (hq_filter hq)) (ownership_scoped db account_id) = []"
    using assms
    by (force simp: filter_empty_conv ownership_scoped_def feeds_def owned_target_icps_def list_ex_iff sql_filters_def optionally_def)
  then show ?thesis by (simp add: history_rows_def)
qed

lemma history_page_step:
  fixes db account_id as_of hq
  defines "rows \<equiv> history_rows db account_id hq" and "candidate \<equiv> reassess (owned_target_icps db account_id) account_id as_of"
    and "cur \<equiv> history_cursor_of (hq_context_tag hq) (hq_sort hq)"
  assumes "history_ready db hq candidate rows" and "served db account_id hq" and "rows = seen @ todo" and "cursor = last_cursor cur seen"
  shows "\<exists>page read rest. history_page db account_id as_of hq cursor = Inr page \<and> todo = read @ rest \<and>
    hp_items page = map (shown_item db candidate) (filter (admits db hq candidate) read) \<and>
    (hp_next_cursor page = None \<and> filter (admits db hq candidate) rest = [] \<or>
     read \<noteq> [] \<and> hp_next_cursor page = Some (cur (last read)))"
proof -
  have resumes: "resumes cur rows" using history_rows_resume assms(4) unfolding rows_def cur_def by blast
  obtain decoded where decoded: "(case cursor of None \<Rightarrow> Inr None | Some c \<Rightarrow> rmap Some (transmit_cursor c)) = Inr decoded"
      "optionally (\<lambda>c. hc_context_tag c = hq_context_tag hq \<and> hc_sort c = hq_sort hq) decoded"
      "resume history_after decoded rows = todo"
  proof (cases seen rule: rev_cases)
    case Nil
    then show ?thesis using that [of None] assms(6,7) by (simp add: last_cursor_def optionally_def resume_def)
  next
    case (snoc xs s)
    obtain c where "transmit_cursor (cur s) = Inr c" "hc_context_tag c = hq_context_tag hq" "hc_sort c = hq_sort hq"
        "history_after c = history_after (cur s)"
      using transmit_ready [OF assms(4), of s cur] assms(6) snoc by (auto simp: cur_def)
    moreover have "filter (history_after (cur s)) rows = todo" using resumes assms(6) snoc unfolding resumes_def by auto
    ultimately show ?thesis using that [of "Some c"] assms(7) snoc by (simp add: last_cursor_def optionally_def resume_def)
  qed
  define cap where "cap = (case hq_scan_cap hq of None \<Rightarrow> HISTORY_SCAN_CAP | Some n \<Rightarrow> n)"
  define limit where "limit = max 1 (min (hq_limit hq) MAXIMUM_PAGE_SIZE)"
  have bounds: "1 \<le> cap" "1 \<le> limit" using assms(5) by (auto simp: cap_def limit_def served_def optionally_def HISTORY_SCAN_CAP_def split: option.split)
  have page: "history_page db account_id as_of hq cursor =
      (if \<not> list_ex (\<lambda>(_, o'). ow_status o' = FEEDING_ICP_STATUS) (owned_target_icps db account_id) \<or>
         fq_allowed_target_icp_ids (hq_filter hq) = Some [] then Inr (empty_history limit)
       else rmap (history_answer limit (cursor = None))
         (history_scan db hq (cursor = None) (nat limit) (nat cap) candidate rows (history_start decoded)))"
    using bounds(1) decoded(1,2) assms(5)
    unfolding history_page_def Let_def cap_def [symmetric] limit_def [symmetric] rows_def candidate_def
    by (auto simp: served_def optionally_def split: option.split_asm)
  show ?thesis
  proof (cases "list_ex (\<lambda>(_, o'). ow_status o' = FEEDING_ICP_STATUS) (owned_target_icps db account_id) \<and>
      fq_allowed_target_icp_ids (hq_filter hq) \<noteq> Some []")
    case False
    then have "todo = []" using no_profile_no_rows [of db account_id hq] assms(6) unfolding rows_def by auto
    moreover have "history_page db account_id as_of hq cursor = Inr (empty_history limit)"
      using False page by auto
    ultimately show ?thesis by (auto simp: empty_history_def)
  next
    case True
    obtain st where st: "history_scan db hq (cursor = None) (nat limit) (nat cap) candidate rows (history_start decoded) = Inr st"
        "scanned_to (cursor = None) (nat limit) cur (shown_item db candidate) (admits db hq candidate) (take (nat cap) todo) (history_start decoded) st"
        "hs_exhausted st \<longleftrightarrow> \<not> hs_stopped_early st \<and> length todo < nat cap"
      using history_scan_closed [of db hq candidate rows seen todo "history_start decoded" "nat limit" "cursor = None" "nat cap", folded cur_def]
        assms(4,6) resumes decoded(3)
      by (auto simp: history_start_def zero_counts_def comp_def)
    moreover have "history_page db account_id as_of hq cursor = Inr (history_answer limit (cursor = None) st)"
      using True page st(1) by simp
    ultimately show ?thesis using history_answer_closed [OF st(2) _ _ st(3)] bounds by auto
  qed
qed

text \<open>A client that follows the cursors: the items of all the pages, or nothing when a page is refused or the fuel ends.\<close>

fun history_walk :: "nat \<Rightarrow> (history_cursor option \<Rightarrow> (feed_error, history_view) result) \<Rightarrow> history_cursor option \<Rightarrow> feed_signal list option" where
  "history_walk 0 page_at cursor = None"
| "history_walk (Suc n) page_at cursor = (case page_at cursor of
     Inl e \<Rightarrow> None
   | Inr page \<Rightarrow> (case hp_next_cursor page of
         None \<Rightarrow> Some (hp_items page)
       | Some c \<Rightarrow> map_option (\<lambda>rest. hp_items page @ rest) (history_walk n page_at (Some c))))"

lemma history_walk_from:
  fixes db account_id as_of hq
  defines "rows \<equiv> history_rows db account_id hq" and "candidate \<equiv> reassess (owned_target_icps db account_id) account_id as_of"
  assumes "history_ready db hq candidate rows" and "served db account_id hq" and "rows = seen @ todo" and "length todo < fuel"
  shows "history_walk fuel (history_page db account_id as_of hq) (last_cursor (history_cursor_of (hq_context_tag hq) (hq_sort hq)) seen) =
    Some (map (shown_item db candidate) (filter (admits db hq candidate) todo))"
  using assms(5,6)
proof (induction fuel arbitrary: seen todo)
  case (Suc fuel)
  let ?cur = "history_cursor_of (hq_context_tag hq) (hq_sort hq)"
  obtain page read rest where page: "history_page db account_id as_of hq (last_cursor ?cur seen) = Inr page" "todo = read @ rest"
      "hp_items page = map (shown_item db candidate) (filter (admits db hq candidate) read)"
      "hp_next_cursor page = None \<and> filter (admits db hq candidate) rest = [] \<or>
       read \<noteq> [] \<and> hp_next_cursor page = Some (?cur (last read))"
    using history_page_step [of db hq account_id as_of seen todo] assms(3,4) Suc.prems(1) unfolding rows_def candidate_def by blast
  from page(4) show ?case
  proof
    assume "hp_next_cursor page = None \<and> filter (admits db hq candidate) rest = []"
    then show ?thesis using page(1-3) by simp
  next
    assume more: "read \<noteq> [] \<and> hp_next_cursor page = Some (?cur (last read))"
    then have "history_walk fuel (history_page db account_id as_of hq) (last_cursor ?cur (seen @ read)) =
        Some (map (shown_item db candidate) (filter (admits db hq candidate) rest))"
      using Suc.prems page(2) by (intro Suc.IH) (auto simp: less_Suc_eq_le neq_Nil_conv)
    then show ?thesis using more page(1-3) by (simp add: last_cursor_append)
  qed
qed simp

text \<open>
  C28. The walk through the history. For an account that can be served, when the stored signals have distinct, well-formed
  keys and their amounts and currencies can travel in a cursor, a client that asks for the first page and then follows each returned
  cursor is never refused and ends, after at most one page more than there are rows, with exactly the admitted signals of the
  account's history, each once and in the order of the view, by date or by amount, whatever the page size and the cap of a scan.
\<close>

theorem history_walk_complete:
  assumes "history_ready db hq (reassess (owned_target_icps db account_id) account_id as_of) (history_rows db account_id hq)"
    and "served db account_id hq"
  shows "history_walk (length (history_rows db account_id hq) + 1) (history_page db account_id as_of hq) None =
    Some (map (shown_item db (reassess (owned_target_icps db account_id) account_id as_of))
      (filter (admits db hq (reassess (owned_target_icps db account_id) account_id as_of)) (history_rows db account_id hq)))"
  using history_walk_from [OF assms, of "[]" "history_rows db account_id hq" "length (history_rows db account_id hq) + 1"]
  by (simp add: last_cursor_def del: history_walk.simps)

definition sample_key :: "char \<Rightarrow> string" where "sample_key c = replicate 40 c"

definition sample_history :: feed_db where
  "sample_history = sample_feed\<lparr> fd_signals := [sample_signal (sample_key (CHR ''a'')) 1 (Some ''Acme'') (Some (mk_date 2026 8 30)),
     sample_signal (sample_key (CHR ''b'')) 2 (Some ''442 849 790'') (Some (mk_date 2026 8 31)),
     sample_signal (sample_key (CHR ''c'')) 3 (Some ''Beta'') None,
     sample_signal (sample_key (CHR ''d'')) 4 (Some ''Gamma'') (Some (mk_date 2026 8 31))] \<rparr>"

definition sample_history_request :: history_request where
  "sample_history_request = \<lparr> hq_filter = no_filter, hq_has_object = (\<lambda>_. True), hq_primary_event = None, hq_status = None,
     hq_limit = 1, hq_scan_cap = Some 2, hq_status_of = None, hq_statuses = None, hq_sort = ''recent'', hq_context_tag = None \<rparr>"

theorem history_walk_complete_witness:
  "\<exists>items. history_walk 5 (history_page sample_history ''acc'' (mk_date 2026 9 2) sample_history_request) None = Some items \<and>
     map (sg_signal_key \<circ> fs_signal) items = map sample_key ''dac''"
proof -
  let ?candidate = "reassess (owned_target_icps sample_history ''acc'') ''acc'' (mk_date 2026 9 2)"
  let ?rows = "history_rows sample_history ''acc'' sample_history_request"
  have rows: "history_ready sample_history sample_history_request ?candidate ?rows \<and> length ?rows = 4 \<and>
      map sg_signal_key (filter (admits sample_history sample_history_request ?candidate) ?rows) = map sample_key ''dac''"
    by code_simp
  have "served sample_history ''acc'' sample_history_request" by code_simp
  from history_walk_complete [OF conjunct1 [OF rows] this] show ?thesis using rows by (simp add: comp_def del: history_walk.simps)
qed

end
