(* ===== verification/DecisionEngine.thy ===== *)
theory DecisionEngine
  imports Recency AcqState
begin

text \<open>
  The deterministic decision on an opportunity: \<open>decision_engine/contracts.py\<close> (validated inputs and
  proposals), \<open>policy.py\<close> (the frozen configuration and the canonical fingerprint), \<open>input.py\<close> (which public
  date counts, and the input built from it) and \<open>evaluator.py\<close> (the ordered rules).

  A contract is a record of raw values, \<open>strip_\<close> what validation keeps of it and \<open>wf_\<close> what it requires; a field
  whose type is a single literal has no counterpart. A fingerprint hashes the values before they are stripped, as the
  code does.

  Shown here: a proposal to send is made exactly when the supplier is settled and the public clock that counts
  is recent or aging by the recency policy of the feed; every proposal is accepted by the reducer of the opportunity; and which
  references a proposal may carry that the event to record cannot.
\<close>

section \<open>Configuration\<close>

datatype decision_error = Decision_contract_error | Decision_config_mismatch | Recency_without_age

definition semantic_fingerprint :: "payload \<Rightarrow> string" where
  "semantic_fingerprint value = sha256_hex (dumps (JObj value))"

record decision_policy_config =
  dc_max_send_age_days :: int
  dc_max_plausible_public_age_days :: int
  dc_future_date_tolerance_days :: int
  dc_award_publication_tolerance_days :: int
  dc_config_fingerprint :: string

definition wf_decision_config :: "decision_policy_config \<Rightarrow> bool" where
  "wf_decision_config c \<longleftrightarrow> 1 \<le> dc_max_send_age_days c \<and> dc_max_send_age_days c \<le> 3650 \<and>
     1 \<le> dc_max_plausible_public_age_days c \<and> dc_max_plausible_public_age_days c \<le> 36500 \<and>
     0 \<le> dc_future_date_tolerance_days c \<and> dc_future_date_tolerance_days c \<le> 30 \<and>
     0 \<le> dc_award_publication_tolerance_days c \<and> dc_award_publication_tolerance_days c \<le> 30 \<and>
     is_fingerprint (dc_config_fingerprint c)"

definition decision_policy_config_fingerprint :: "decision_policy_config \<Rightarrow> string" where
  "decision_policy_config_fingerprint c = semantic_fingerprint [
     (''policy_version'', JStr ''decision-policy-v1''), (''recency_version'', JStr ''acquisition-recency-v1''),
     (''max_send_age_days'', JInt (dc_max_send_age_days c)),
     (''max_plausible_public_age_days'', JInt (dc_max_plausible_public_age_days c)),
     (''future_date_tolerance_days'', JInt (dc_future_date_tolerance_days c)),
     (''award_publication_tolerance_days'', JInt (dc_award_publication_tolerance_days c)),
     (''domain_conflict_behavior'', JStr ''REVIEW''), (''supplier_snapshot_mismatch_behavior'', JStr ''REVIEW''),
     (''limited_research_behavior'', JStr ''CONTINUE''), (''size_band_behavior'', JStr ''CONTEXT_ONLY''),
     (''contact_role_tier_behavior'', JStr ''CONTEXT_ONLY''), (''hold_enabled'', JBool False), (''enrich_enabled'', JBool False),
     (''reason_code_version'', JStr ''decision-reasons-v1'')]"

definition POLICY_UNFINGERPRINTED :: decision_policy_config where
  "POLICY_UNFINGERPRINTED = \<lparr> dc_max_send_age_days = 60, dc_max_plausible_public_age_days = IMPLAUSIBLE_AWARD_AGE_DAYS,
     dc_future_date_tolerance_days = 0, dc_award_publication_tolerance_days = 1,
     dc_config_fingerprint = replicate 64 (CHR ''0'') \<rparr>"

definition DECISION_POLICY_V1 :: decision_policy_config where
  "DECISION_POLICY_V1 = POLICY_UNFINGERPRINTED\<lparr> dc_config_fingerprint := decision_policy_config_fingerprint POLICY_UNFINGERPRINTED \<rparr>"

section \<open>Public context\<close>

definition clean_refs :: "nat \<Rightarrow> string list \<Rightarrow> bool" where
  \<comment> \<open>between one and \<open>n\<close> stable references\<close>
  "clean_refs n refs \<longleftrightarrow> refs \<noteq> [] \<and> length refs \<le> n \<and> list_all (clean_str 256) refs"

definition MAX_DECISION_REASONS :: nat where "MAX_DECISION_REASONS = 8"
definition MAX_DECISION_EVIDENCE :: nat where "MAX_DECISION_EVIDENCE = 16"

record public_context =
  pu_opportunity_key :: string
  pu_representative_award_key :: string
  pu_source_event_key :: string
  pu_award_date :: "date option"
  pu_contract_notification_date :: "date option"
  pu_publication_date :: "date option"
  pu_public_evidence_refs :: "string list"
  pu_public_context_fingerprint :: string

definition strip_public :: "public_context \<Rightarrow> public_context" where
  "strip_public p = p\<lparr> pu_opportunity_key := py_strip (pu_opportunity_key p),
     pu_representative_award_key := py_strip (pu_representative_award_key p), pu_source_event_key := py_strip (pu_source_event_key p),
     pu_public_evidence_refs := map py_strip (pu_public_evidence_refs p),
     pu_public_context_fingerprint := py_strip (pu_public_context_fingerprint p) \<rparr>"

definition wf_public :: "public_context \<Rightarrow> bool" where
  "wf_public p \<longleftrightarrow> clean_str 256 (pu_opportunity_key p) \<and> clean_str 256 (pu_representative_award_key p) \<and>
     clean_str 256 (pu_source_event_key p) \<and> clean_refs MAX_DECISION_EVIDENCE (pu_public_evidence_refs p) \<and>
     distinct (pu_public_evidence_refs p) \<and> is_fingerprint (pu_public_context_fingerprint p)"

definition date_json :: "date option \<Rightarrow> json" where
  \<comment> \<open>\<open>default=str\<close>\<close>
  "date_json d = opt_str (map_option date_isoformat d)"

definition public_values :: "public_context \<Rightarrow> payload" where
  "public_values p = [(''opportunity_key'', JStr (pu_opportunity_key p)),
     (''representative_award_key'', JStr (pu_representative_award_key p)), (''source_event_key'', JStr (pu_source_event_key p)),
     (''award_date'', date_json (pu_award_date p)), (''contract_notification_date'', date_json (pu_contract_notification_date p)),
     (''publication_date'', date_json (pu_publication_date p)), (''public_evidence_refs'', str_list (pu_public_evidence_refs p))]"

definition build_public_decision_context :: "public_context \<Rightarrow> (decision_error, public_context) result" where
  \<comment> \<open>the fingerprint of the argument is ignored\<close>
  "build_public_decision_context p =
     (let q = strip_public (p\<lparr> pu_public_context_fingerprint := semantic_fingerprint (public_values p) \<rparr>)
      in if wf_public q then Inr q else Inl Decision_contract_error)"

section \<open>Decision input\<close>

datatype recency_basis = AWARD_DATE | CONTRACT_NOTIFICATION_DATE | PUBLICATION_DATE | UNRESOLVED

fun basis_value :: "recency_basis \<Rightarrow> string" where
  "basis_value AWARD_DATE = ''AWARD_DATE''"
| "basis_value CONTRACT_NOTIFICATION_DATE = ''CONTRACT_NOTIFICATION_DATE''"
| "basis_value PUBLICATION_DATE = ''PUBLICATION_DATE''"
| "basis_value UNRESOLVED = ''UNRESOLVED''"

datatype supplier_identity_status = PROVIDER_IDENTIFIED | SIRENE_IDENTIFIED | LEGACY_APOLLO | DOMAIN_CONFLICT

fun identity_status_value :: "supplier_identity_status \<Rightarrow> string" where
  "identity_status_value PROVIDER_IDENTIFIED = ''PROVIDER_IDENTIFIED''"
| "identity_status_value SIRENE_IDENTIFIED = ''SIRENE_IDENTIFIED''"
| "identity_status_value LEGACY_APOLLO = ''LEGACY_APOLLO''"
| "identity_status_value DOMAIN_CONFLICT = ''DOMAIN_CONFLICT''"

text \<open>
  What is known of the opportunity, its supplier, its contact and its company profile. The completeness of the
  research and the size band are carried as the text of their enumerations: no rule reads them.
\<close>

record decision_subject =
  su_acquisition_opportunity_id :: string
  su_signal_ref :: string
  su_supplier_ref :: string
  su_contact_ref :: string
  su_company_prebuild_version :: string
  su_company_prebuild_fingerprint :: string
  su_size_band_version :: string
  su_profile_supplier_identity_status :: supplier_identity_status
  su_current_supplier_identity_status :: supplier_identity_status
  su_profile_contact_role_profile_version :: string
  su_profile_contact_role_tier :: int
  su_current_contact_role_profile_version :: string
  su_current_contact_role_tier :: int
  su_current_contact_verification_state :: string
  su_current_contact_verification_provider :: string
  su_current_contact_provider_email_status :: string
  su_research_completeness :: string
  su_research_gaps :: "string list"
  su_size_band :: string

record decision_input = decision_subject +
  in_representative_award_key :: string
  in_source_event_key :: string
  in_public_evidence_refs :: "string list"
  in_public_context_fingerprint :: string
  in_award_date :: "date option"
  in_contract_notification_date :: "date option"
  in_publication_date :: "date option"
  in_recency_basis :: recency_basis
  in_recency_date :: "date option"
  in_as_of_date :: date
  in_age_days :: "int option"
  in_public_timing_inconsistent :: bool
  in_decision_policy_config_fingerprint :: string
  in_decision_input_fingerprint :: string

definition resolve_recency :: "public_context \<Rightarrow> date \<Rightarrow> decision_policy_config \<Rightarrow> recency_basis \<times> date option \<times> int option \<times> bool" where
  "resolve_recency p as_of_date c =
     (let aged = (\<lambda>basis selected.
        (let age_days = days_between as_of_date selected;
             inconsistent = (age_days < - dc_future_date_tolerance_days c \<or> age_days > dc_max_plausible_public_age_days c);
             late = (case (pu_award_date p, pu_publication_date p) of
               (Some a, Some pub) \<Rightarrow> days_between a pub > dc_award_publication_tolerance_days c | _ \<Rightarrow> False)
         in (basis, Some selected, Some age_days, inconsistent \<or> late)))
      in case pu_award_date p of
           Some d \<Rightarrow> aged AWARD_DATE d
         | None \<Rightarrow> (case pu_contract_notification_date p of
             Some d \<Rightarrow> aged CONTRACT_NOTIFICATION_DATE d
           | None \<Rightarrow> (case pu_publication_date p of
               Some d \<Rightarrow> aged PUBLICATION_DATE d
             | None \<Rightarrow> (UNRESOLVED, None, None, False))))"

definition strip_input :: "decision_input \<Rightarrow> decision_input" where
  "strip_input i = i\<lparr> su_acquisition_opportunity_id := py_strip (su_acquisition_opportunity_id i), su_signal_ref := py_strip (su_signal_ref i),
     su_supplier_ref := py_strip (su_supplier_ref i), su_contact_ref := py_strip (su_contact_ref i),
     su_company_prebuild_version := py_strip (su_company_prebuild_version i),
     su_company_prebuild_fingerprint := py_strip (su_company_prebuild_fingerprint i), su_size_band_version := py_strip (su_size_band_version i),
     su_profile_contact_role_profile_version := py_strip (su_profile_contact_role_profile_version i),
     su_current_contact_role_profile_version := py_strip (su_current_contact_role_profile_version i),
     su_research_gaps := map py_strip (su_research_gaps i),
     in_representative_award_key := py_strip (in_representative_award_key i), in_source_event_key := py_strip (in_source_event_key i),
     in_public_evidence_refs := map py_strip (in_public_evidence_refs i),
     in_public_context_fingerprint := py_strip (in_public_context_fingerprint i),
     in_decision_policy_config_fingerprint := py_strip (in_decision_policy_config_fingerprint i),
     in_decision_input_fingerprint := py_strip (in_decision_input_fingerprint i) \<rparr>"

definition wf_subject :: "'a decision_subject_scheme \<Rightarrow> bool" where
  "wf_subject s \<longleftrightarrow> list_all (clean_str 256) [su_acquisition_opportunity_id s, su_signal_ref s, su_supplier_ref s, su_contact_ref s,
       su_company_prebuild_version s, su_size_band_version s, su_profile_contact_role_profile_version s, su_current_contact_role_profile_version s] \<and>
     is_fingerprint (su_company_prebuild_fingerprint s) \<and>
     1 \<le> su_profile_contact_role_tier s \<and> su_profile_contact_role_tier s \<le> 4 \<and>
     1 \<le> su_current_contact_role_tier s \<and> su_current_contact_role_tier s \<le> 4 \<and>
     su_current_contact_verification_state s = ''PROVIDER_VERIFIED'' \<and> su_current_contact_verification_provider s = ''apollo'' \<and>
     su_current_contact_provider_email_status s = ''verified'' \<and>
     su_research_completeness s \<in> {''COMPLETE'', ''LIMITED''} \<and>
     su_size_band s \<in> {''UNKNOWN'', ''MICRO'', ''SMB'', ''MID_MARKET'', ''ENTERPRISE''} \<and>
     length (su_research_gaps s) \<le> 32 \<and> list_all (clean_str 100) (su_research_gaps s) \<and>
     su_research_gaps s = sort (remdups (su_research_gaps s))"

definition recency_consistent :: "decision_input \<Rightarrow> bool" where
  "recency_consistent i =
     (if in_recency_basis i = UNRESOLVED then in_recency_date i = None \<and> in_age_days i = None
      else (case (in_recency_date i, in_age_days i) of
          (Some d, Some age) \<Rightarrow> age = days_between (in_as_of_date i) d
        | _ \<Rightarrow> False))"

definition wf_input :: "decision_input \<Rightarrow> bool" where
  "wf_input i \<longleftrightarrow> wf_subject i \<and> clean_str 256 (in_representative_award_key i) \<and> clean_str 256 (in_source_event_key i) \<and>
     clean_refs MAX_DECISION_EVIDENCE (in_public_evidence_refs i) \<and> is_fingerprint (in_public_context_fingerprint i) \<and>
     is_fingerprint (in_decision_policy_config_fingerprint i) \<and> is_fingerprint (in_decision_input_fingerprint i) \<and> recency_consistent i"

definition input_values :: "decision_input \<Rightarrow> payload" where
  "input_values i = [(''input_version'', JStr ''acquisition-decision-input-v1''),
     (''acquisition_opportunity_id'', JStr (su_acquisition_opportunity_id i)), (''signal_ref'', JStr (su_signal_ref i)),
     (''supplier_ref'', JStr (su_supplier_ref i)), (''contact_ref'', JStr (su_contact_ref i)),
     (''company_prebuild_version'', JStr (su_company_prebuild_version i)),
     (''company_prebuild_fingerprint'', JStr (su_company_prebuild_fingerprint i)), (''size_band_version'', JStr (su_size_band_version i)),
     (''profile_supplier_identity_status'', JStr (identity_status_value (su_profile_supplier_identity_status i))),
     (''current_supplier_identity_status'', JStr (identity_status_value (su_current_supplier_identity_status i))),
     (''profile_contact_role_profile_version'', JStr (su_profile_contact_role_profile_version i)),
     (''profile_contact_role_tier'', JInt (su_profile_contact_role_tier i)),
     (''current_contact_role_profile_version'', JStr (su_current_contact_role_profile_version i)),
     (''current_contact_role_tier'', JInt (su_current_contact_role_tier i)),
     (''current_contact_verification_state'', JStr (su_current_contact_verification_state i)),
     (''current_contact_verification_provider'', JStr (su_current_contact_verification_provider i)),
     (''current_contact_provider_email_status'', JStr (su_current_contact_provider_email_status i)),
     (''representative_award_key'', JStr (in_representative_award_key i)), (''source_event_key'', JStr (in_source_event_key i)),
     (''public_evidence_refs'', str_list (in_public_evidence_refs i)),
     (''public_context_fingerprint'', JStr (in_public_context_fingerprint i)),
     (''award_date'', date_json (in_award_date i)), (''contract_notification_date'', date_json (in_contract_notification_date i)),
     (''publication_date'', date_json (in_publication_date i)), (''recency_basis'', JStr (basis_value (in_recency_basis i))),
     (''recency_date'', date_json (in_recency_date i)), (''as_of_date'', JStr (date_isoformat (in_as_of_date i))),
     (''age_days'', case in_age_days i of None \<Rightarrow> JNull | Some n \<Rightarrow> JInt n),
     (''public_timing_inconsistent'', JBool (in_public_timing_inconsistent i)),
     (''research_completeness'', JStr (su_research_completeness i)), (''research_gaps'', str_list (su_research_gaps i)),
     (''size_band'', JStr (su_size_band i)), (''decision_policy_version'', JStr ''decision-policy-v1''),
     (''decision_policy_config_fingerprint'', JStr (in_decision_policy_config_fingerprint i))]"

definition input_draft :: "decision_subject \<Rightarrow> public_context \<Rightarrow> date \<Rightarrow> decision_policy_config \<Rightarrow> decision_input" where
  "input_draft s p as_of_date c =
     (case resolve_recency p as_of_date c of (basis, recency_date, age_days, inconsistent) \<Rightarrow>
        decision_subject.extend (s\<lparr> su_research_gaps := sort (remdups (su_research_gaps s)) \<rparr>)
          (decision_input.fields (pu_representative_award_key p) (pu_source_event_key p) (pu_public_evidence_refs p)
             (pu_public_context_fingerprint p) (pu_award_date p) (pu_contract_notification_date p) (pu_publication_date p)
             basis recency_date as_of_date age_days inconsistent (dc_config_fingerprint c) []))"

definition build_acquisition_decision_input ::
  "decision_subject \<Rightarrow> public_context \<Rightarrow> date \<Rightarrow> decision_policy_config \<Rightarrow> (decision_error, decision_input) result" where
  "build_acquisition_decision_input s p as_of_date c =
     (let draft = input_draft s p as_of_date c;
          i = strip_input (draft\<lparr> in_decision_input_fingerprint := semantic_fingerprint (input_values draft) \<rparr>)
      in if wf_input i then Inr i else Inl Decision_contract_error)"

section \<open>The rules\<close>

definition outcome :: "decision_input \<Rightarrow> decision_policy_config \<Rightarrow> (decision_error, decision \<times> string list \<times> string option) result" where
  "outcome i c =
     (if su_profile_supplier_identity_status i \<noteq> su_current_supplier_identity_status i
      then Inr (D_REVIEW, [''SUPPLIER_IDENTITY_CHANGED_SINCE_RESEARCH''], Some ''request_human_review'')
      else if su_current_supplier_identity_status i = DOMAIN_CONFLICT
      then Inr (D_REVIEW, [''SUPPLIER_DOMAIN_CONFLICT''], Some ''request_human_review'')
      else if in_recency_basis i = UNRESOLVED
      then Inr (D_REVIEW, [''RECENCY_UNRESOLVED''], Some ''request_human_review'')
      else if in_public_timing_inconsistent i
      then Inr (D_REVIEW, [''PUBLIC_TIMING_INCONSISTENT''], Some ''request_human_review'')
      else (case in_age_days i of
          None \<Rightarrow> Inl Recency_without_age
        | Some age \<Rightarrow>
            if age > dc_max_send_age_days c then Inr (D_NO_SEND, [''SIGNAL_OUTSIDE_ACQUISITION_WINDOW''], None)
            else Inr (D_SEND, [''SIGNAL_WITHIN_ACQUISITION_WINDOW'', ''SUPPLIER_IDENTITY_ACCEPTABLE'', ''VERIFIED_COMMERCIAL_CONTACT'',
                ''ACQUISITION_PREBUILD_AVAILABLE''] @
                (if in_recency_basis i = CONTRACT_NOTIFICATION_DATE then [''RECENCY_NOTIFICATION_FALLBACK'']
                 else if in_recency_basis i = PUBLICATION_DATE then [''RECENCY_PUBLICATION_FALLBACK''] else []),
              Some ''prepare_campaign'')))"

record decision_proposal =
  dp_proposed_decision :: decision
  dp_reason_codes :: "string list"
  dp_evidence_refs :: "string list"
  dp_next_action :: "string option"
  dp_decision_input_fingerprint :: string
  dp_proposal_fingerprint :: string

definition decision_next_action :: "decision \<Rightarrow> string option" where
  "decision_next_action d = (case d of D_SEND \<Rightarrow> Some ''prepare_campaign'' | D_REVIEW \<Rightarrow> Some ''request_human_review'' | _ \<Rightarrow> None)"

definition strip_decision_proposal :: "decision_proposal \<Rightarrow> decision_proposal" where
  "strip_decision_proposal p = p\<lparr> dp_reason_codes := map py_strip (dp_reason_codes p), dp_evidence_refs := map py_strip (dp_evidence_refs p),
     dp_next_action := map_option py_strip (dp_next_action p),
     dp_decision_input_fingerprint := py_strip (dp_decision_input_fingerprint p),
     dp_proposal_fingerprint := py_strip (dp_proposal_fingerprint p) \<rparr>"

definition wf_decision_proposal :: "decision_proposal \<Rightarrow> bool" where
  "wf_decision_proposal p \<longleftrightarrow> dp_proposed_decision p \<in> {D_SEND, D_REVIEW, D_NO_SEND} \<and>
     dp_reason_codes p \<noteq> [] \<and> length (dp_reason_codes p) \<le> MAX_DECISION_REASONS \<and> list_all (clean_str 100) (dp_reason_codes p) \<and>
     distinct (dp_reason_codes p) \<and> clean_refs MAX_DECISION_EVIDENCE (dp_evidence_refs p) \<and> distinct (dp_evidence_refs p) \<and>
     clean_opt 256 (dp_next_action p) \<and> dp_next_action p = decision_next_action (dp_proposed_decision p) \<and>
     is_fingerprint (dp_decision_input_fingerprint p) \<and> is_fingerprint (dp_proposal_fingerprint p)"

definition proposal_values :: "decision_proposal \<Rightarrow> payload" where
  "proposal_values p = [(''proposed_decision'', JStr (decision_value (dp_proposed_decision p))),
     (''reason_codes'', str_list (dp_reason_codes p)), (''evidence_refs'', str_list (dp_evidence_refs p)),
     (''next_action'', opt_str (dp_next_action p)), (''next_review_at'', JNull),
     (''decision_input_fingerprint'', JStr (dp_decision_input_fingerprint p)),
     (''decision_policy_version'', JStr ''decision-policy-v1''), (''confidence'', JNull)]"

definition evidence_of :: "decision_input \<Rightarrow> string list" where
  "evidence_of i = [''contract-award:'' @ in_representative_award_key i, ''source-event:'' @ in_source_event_key i,
     ''acquisition-company-profile:'' @ su_acquisition_opportunity_id i, ''acquisition-supplier:'' @ su_supplier_ref i,
     ''acquisition-contact:'' @ su_contact_ref i]"

definition evaluate_decision :: "decision_input \<Rightarrow> decision_policy_config \<Rightarrow> (decision_error, decision_proposal) result" where
  "evaluate_decision i c =
     (if in_decision_policy_config_fingerprint i \<noteq> dc_config_fingerprint c then Inl Decision_config_mismatch
      else (case outcome i c of
          Inl e \<Rightarrow> Inl e
        | Inr (d, reasons, next_action) \<Rightarrow>
            (let draft = \<lparr> dp_proposed_decision = d, dp_reason_codes = reasons, dp_evidence_refs = evidence_of i, dp_next_action = next_action,
                   dp_decision_input_fingerprint = in_decision_input_fingerprint i, dp_proposal_fingerprint = [] \<rparr>;
                 p = strip_decision_proposal (draft\<lparr> dp_proposal_fingerprint := semantic_fingerprint (proposal_values draft) \<rparr>)
             in if wf_decision_proposal p then Inr p else Inl Decision_contract_error)))"

definition decision_payload :: "decision_proposal \<Rightarrow> payload" where
  "decision_payload p = [(''decision'', JStr (decision_value (dp_proposed_decision p))), (''next_action'', opt_str (dp_next_action p)),
     (''next_review_at'', JNull)]"

section \<open>Proposals\<close>

lemma is_space_last: "py_strip s = s \<Longrightarrow> s \<noteq> [] \<Longrightarrow> \<not> is_space (last s)"
  unfolding py_strip_def py_rstrip_def
  by (metis hd_dropWhile last_rev rev_is_Nil_conv rev_rev_ident)

lemma clean_prefix:
  assumes "clean_str n s" and "label \<noteq> []" and "\<not> is_space (hd label)"
  shows "py_strip (label @ s) = label @ s"
proof -
  have s: "py_strip s = s" "s \<noteq> []" using assms(1) by (auto simp: clean_str_def)
  have "py_lstrip (label @ s) = label @ s" using assms(2,3) by (simp add: py_lstrip_def dropWhile_eq_self)
  moreover have "py_rstrip (label @ s) = label @ s"
    using is_space_last [OF s] s(2) by (simp add: py_rstrip_def dropWhile_eq_self hd_rev)
  ultimately show ?thesis by (simp add: py_strip_def)
qed

lemma evidence_clean:
  assumes "wf_input i"
  shows "map py_strip (evidence_of i) = evidence_of i" and "distinct (evidence_of i)" and "list_all (\<lambda>r. 1 \<le> length r) (evidence_of i)"
proof -
  have "clean_str 256 (in_representative_award_key i)" "clean_str 256 (in_source_event_key i)"
      "clean_str 256 (su_acquisition_opportunity_id i)" "clean_str 256 (su_supplier_ref i)" "clean_str 256 (su_contact_ref i)"
    using assms by (simp_all add: wf_input_def wf_subject_def)
  then show "map py_strip (evidence_of i) = evidence_of i"
    unfolding evidence_of_def list.map
    by (intro arg_cong2 [where f = Cons] refl clean_prefix) (simp_all add: is_space_def)
qed (simp_all add: evidence_of_def)

definition refs_fit :: "nat \<Rightarrow> string list \<Rightarrow> bool" where
  "refs_fit n refs = list_all (\<lambda>r. length r \<le> n) refs"

lemma reason_codes_clean:
  "list_all (clean_str 100) [''SUPPLIER_IDENTITY_CHANGED_SINCE_RESEARCH'', ''SUPPLIER_DOMAIN_CONFLICT'', ''RECENCY_UNRESOLVED'',
     ''PUBLIC_TIMING_INCONSISTENT'', ''SIGNAL_OUTSIDE_ACQUISITION_WINDOW'', ''SIGNAL_WITHIN_ACQUISITION_WINDOW'',
     ''SUPPLIER_IDENTITY_ACCEPTABLE'', ''VERIFIED_COMMERCIAL_CONTACT'', ''ACQUISITION_PREBUILD_AVAILABLE'',
     ''RECENCY_NOTIFICATION_FALLBACK'', ''RECENCY_PUBLICATION_FALLBACK'']"
  by code_simp

lemma outcome_shape:
  assumes "outcome i c = Inr (d, reasons, next_action)"
  shows "d \<in> {D_SEND, D_REVIEW, D_NO_SEND} \<and> next_action = decision_next_action d \<and> reasons \<noteq> [] \<and>
    length reasons \<le> MAX_DECISION_REASONS \<and> list_all (clean_str 100) reasons \<and> distinct reasons"
  using assms reason_codes_clean unfolding outcome_def
  by (auto simp: decision_next_action_def MAX_DECISION_REASONS_def split: if_split_asm option.split_asm)

lemma clean_map_strip: "list_all (clean_str n) xs \<Longrightarrow> map py_strip xs = xs"
  by (induction xs) (auto simp: clean_str_def)

lemma next_action_clean: "map_option py_strip (decision_next_action d) = decision_next_action d \<and> clean_opt 256 (decision_next_action d)"
proof -
  have "clean_str 256 ''prepare_campaign''" "clean_str 256 ''request_human_review''" by code_simp+
  then show ?thesis by (cases d) (auto simp: decision_next_action_def clean_str_def)
qed

lemma evaluate_decision_wf:
  assumes "wf_input i" and "in_decision_policy_config_fingerprint i = dc_config_fingerprint c"
  shows "evaluate_decision i c = (case outcome i c of Inl e \<Rightarrow> Inl e | Inr (d, reasons, next_action) \<Rightarrow>
    if refs_fit 256 (evidence_of i)
    then Inr \<lparr> dp_proposed_decision = d, dp_reason_codes = reasons, dp_evidence_refs = evidence_of i, dp_next_action = decision_next_action d,
      dp_decision_input_fingerprint = in_decision_input_fingerprint i, dp_proposal_fingerprint = semantic_fingerprint (proposal_values
        \<lparr> dp_proposed_decision = d, dp_reason_codes = reasons, dp_evidence_refs = evidence_of i, dp_next_action = decision_next_action d,
          dp_decision_input_fingerprint = in_decision_input_fingerprint i, dp_proposal_fingerprint = [] \<rparr>) \<rparr>
    else Inl Decision_contract_error)"
proof -
  have refs: "clean_refs MAX_DECISION_EVIDENCE (evidence_of i) \<longleftrightarrow> refs_fit 256 (evidence_of i)"
    using evidence_clean [OF assms(1)]
    by (auto simp: clean_refs_def refs_fit_def list_all_iff clean_str_def MAX_DECISION_EVIDENCE_def evidence_of_def)
  have fp: "is_fingerprint (in_decision_input_fingerprint i)" using assms(1) by (simp add: wf_input_def)
  have fps: "is_fingerprint (semantic_fingerprint v)" for v by (simp add: semantic_fingerprint_def)
  show ?thesis
    using assms(2) evidence_clean(1,2) [OF assms(1)] refs fp fps
    by (auto simp: evaluate_decision_def Let_def strip_decision_proposal_def wf_decision_proposal_def is_fingerprint_strip
        next_action_clean clean_map_strip split: sum.split prod.split dest!: outcome_shape)
qed

section \<open>The decision and the clocks\<close>

lemma built_input:
  assumes "build_acquisition_decision_input s p as_of c = Inr i"
  shows "wf_input i" and "su_profile_supplier_identity_status i = su_profile_supplier_identity_status s"
    and "su_current_supplier_identity_status i = su_current_supplier_identity_status s"
    and "resolve_recency p as_of c = (in_recency_basis i, in_recency_date i, in_age_days i, in_public_timing_inconsistent i)"
    and "in_decision_policy_config_fingerprint i = py_strip (dc_config_fingerprint c)"
  using assms
  by (auto simp: build_acquisition_decision_input_def Let_def input_draft_def strip_input_def decision_subject.defs decision_input.defs
      split: prod.split_asm if_split_asm)

text \<open>The public clock that counts for an opportunity: that of the award, else of the notification, else of the publication.\<close>

definition counting_clock :: "public_context \<Rightarrow> date \<Rightarrow> clock_assessment" where
  "counting_clock p as_of =
     (let r = assess_recency default_thresholds \<lparr> rd_award_date = pu_award_date p, rd_contract_notification_date = pu_contract_notification_date p,
        rd_publication_date = pu_publication_date p, rd_discovered_at = None \<rparr> as_of
      in if pu_award_date p \<noteq> None then rc_award_clock r
         else if pu_contract_notification_date p \<noteq> None then rc_notification_clock r
         else rc_publication_clock r)"

fun clock_decision :: "clock_status \<Rightarrow> decision" where
  "clock_decision CLOCK_RECENT = D_SEND"
| "clock_decision CLOCK_AGING = D_SEND"
| "clock_decision CLOCK_STALE = D_NO_SEND"
| "clock_decision CLOCK_UNKNOWN = D_REVIEW"
| "clock_decision CLOCK_INVALID = D_REVIEW"

lemma policy_v1_fingerprint: "py_strip (dc_config_fingerprint DECISION_POLICY_V1) = dc_config_fingerprint DECISION_POLICY_V1"
  by (simp add: DECISION_POLICY_V1_def decision_policy_config_fingerprint_def semantic_fingerprint_def is_fingerprint_strip)

lemma policy_v1_limits [simp]:
  "dc_max_send_age_days DECISION_POLICY_V1 = 60" "dc_max_plausible_public_age_days DECISION_POLICY_V1 = 3650"
  "dc_future_date_tolerance_days DECISION_POLICY_V1 = 0" "dc_award_publication_tolerance_days DECISION_POLICY_V1 = 1"
  by (simp_all add: DECISION_POLICY_V1_def POLICY_UNFINGERPRINTED_def IMPLAUSIBLE_AWARD_AGE_DAYS_def)

lemma clock_by_age:
  assumes "recent \<le> 60"
  shows "clock_decision (ca_status (assess_clock clock (Some v) as_of recent 60 not_after 1)) =
    (if days_between as_of v < 0 \<or> 3650 < days_between as_of v \<or> (\<exists>limit. not_after = Some limit \<and> 1 < days_between v limit)
     then D_REVIEW else if 60 < days_between as_of v then D_NO_SEND else D_SEND)"
  using assms by (cases not_after) (auto simp: assess_clock_def Let_def IMPLAUSIBLE_AWARD_AGE_DAYS_def)

lemma outcome_by_age:
  assumes "su_profile_supplier_identity_status i = su_current_supplier_identity_status i"
    and "su_current_supplier_identity_status i \<noteq> DOMAIN_CONFLICT" and "outcome i DECISION_POLICY_V1 = Inr (d, reasons, next_action)"
  shows "d = (if in_recency_basis i = UNRESOLVED \<or> in_public_timing_inconsistent i then D_REVIEW
    else if 60 < the (in_age_days i) then D_NO_SEND else D_SEND)"
  using assms unfolding outcome_def by (auto split: option.split_asm if_split_asm)

lemma clock_outcome:
  assumes resolved: "resolve_recency p as_of DECISION_POLICY_V1 = (in_recency_basis i, in_recency_date i, in_age_days i, in_public_timing_inconsistent i)"
    and "su_profile_supplier_identity_status i = su_current_supplier_identity_status i"
    and "su_current_supplier_identity_status i \<noteq> DOMAIN_CONFLICT" and "outcome i DECISION_POLICY_V1 = Inr (d, reasons, next_action)"
  shows "d = clock_decision (ca_status (counting_clock p as_of))"
proof -
  note d = outcome_by_age [OF assms(2-4)]
  note clock = Let_def counting_clock_def rc_clocks default_thresholds_def recency_constants clock_by_age
  show ?thesis
  proof (cases "pu_award_date p")
    case (Some a)
    then show ?thesis using resolved [symmetric] unfolding d by (cases "pu_publication_date p") (auto simp: resolve_recency_def clock)
  next
    case award: None
    show ?thesis
    proof (cases "pu_contract_notification_date p")
      case (Some n)
      then show ?thesis using resolved [symmetric] award unfolding d by (auto simp: resolve_recency_def clock)
    next
      case None
      then show ?thesis using resolved [symmetric] award unfolding d
        by (cases "pu_publication_date p") (auto simp: resolve_recency_def clock assess_clock_def [of _ None])
    qed
  qed
qed

text \<open>
  C37. The decision rule. Whatever proposal the engine makes under its frozen policy for an input it built, the decision is a function of the supplier and of one
  public clock, as the recency policy of the feed judges it at the same date: a review when the identity of the supplier changed
  since the research or its domain is in conflict, and otherwise to send exactly when the clock that counts
  is recent or aging, not to send when it is stale, and a review when it is unknown or invalid. Research
  gaps, size and contact tier have no influence.
\<close>

theorem decision_follows_clock:
  assumes "build_acquisition_decision_input s p as_of DECISION_POLICY_V1 = Inr i" and "evaluate_decision i DECISION_POLICY_V1 = Inr q"
  shows "dp_proposed_decision q =
    (if su_profile_supplier_identity_status s \<noteq> su_current_supplier_identity_status s \<or> su_current_supplier_identity_status s = DOMAIN_CONFLICT
     then D_REVIEW else clock_decision (ca_status (counting_clock p as_of)))"
proof -
  note i = built_input [OF assms(1)]
  obtain d reasons next_action where out: "outcome i DECISION_POLICY_V1 = Inr (d, reasons, next_action)" "dp_proposed_decision q = d"
    using assms(2) by (auto simp: evaluate_decision_def Let_def strip_decision_proposal_def split: sum.split_asm prod.split_asm if_split_asm)
  show ?thesis
  proof (cases "su_profile_supplier_identity_status s \<noteq> su_current_supplier_identity_status s \<or> su_current_supplier_identity_status s = DOMAIN_CONFLICT")
    case True
    then show ?thesis using out i(2,3) by (auto simp: outcome_def split: if_split_asm)
  next
    case False
    then show ?thesis using clock_outcome [OF i(4) _ _ out(1)] out(2) i(2,3) by auto
  qed
qed

section \<open>Recording a proposal\<close>

text \<open>
  A proposal can be applied. For an opportunity that waits for a decision, the reducer of the journal accepts the event that
  records any proposal the engine makes: the opportunity moves to the state of the decision, with the action, the reasons and the evidence of
  the proposal and with no review date.
\<close>

theorem proposal_applies:
  assumes "evaluate_decision i c = Inr p" and "opp_state current = READY_FOR_DECISION"
    and "ev_payload e = decision_payload p" and "ev_reason_codes e = dp_reason_codes p" and "ev_evidence_refs e = dp_evidence_refs p"
    and "ev_confidence e = None"
  shows "\<exists>n. decision_recorded current e = Inr n \<and> opp_decision n = Some (dp_proposed_decision p) \<and>
    opp_state n = DECISION_STATES (dp_proposed_decision p) \<and> opp_next_action n = dp_next_action p \<and>
    opp_reason_codes n = dp_reason_codes p \<and> opp_evidence_refs n = dp_evidence_refs p \<and> opp_next_review_at n = None"
proof -
  have p: "wf_decision_proposal p"
    using assms(1) by (auto simp: evaluate_decision_def Let_def split: sum.split_asm prod.split_asm if_split_asm)
  then have "dp_proposed_decision p \<in> {D_SEND, D_REVIEW, D_NO_SEND}" "dp_next_action p = decision_next_action (dp_proposed_decision p)"
      "dp_reason_codes p \<noteq> []" "dp_evidence_refs p \<noteq> []"
    by (auto simp: wf_decision_proposal_def clean_refs_def)
  then show ?thesis
    using assms(2-)
    by (auto simp: decision_recorded_def Let_def decision_payload_def pget_def phas_def spec023_ok_def expected_action_def
        decision_next_action_def opt_str_def require_transition_def datetime_payload_def json_str_opt_def)
qed

text \<open>A proposal is always made for an input the contract accepts, unless a reference is too long.\<close>

lemma outcome_total:
  assumes "wf_input i" shows "\<exists>d reasons next_action. outcome i c = Inr (d, reasons, next_action)"
  using assms unfolding outcome_def
  by (auto simp: wf_input_def recency_consistent_def split: option.split_asm if_split_asm)

lemma evaluate_decision_total:
  assumes "wf_input i" and "in_decision_policy_config_fingerprint i = dc_config_fingerprint c"
  shows "(\<exists>p. evaluate_decision i c = Inr p \<and> dp_evidence_refs p = evidence_of i) \<longleftrightarrow> refs_fit 256 (evidence_of i)"
  using outcome_total [OF assms(1), of c] by (auto simp: evaluate_decision_wf [OF assms] split: if_split_asm)

text \<open>
  C38. A long source key stops the decision. An event key may have 256 characters, a reference of a proposal as well, but a reference of an
  event of the journal only 100: for an input that names a source event of more than 87 characters the engine still makes its proposal,
  and no event with the evidence of that proposal, the policy audit or the decision itself, can be built.
\<close>

theorem long_evidence_unrecordable:
  assumes "wf_input i" and "in_decision_policy_config_fingerprint i = dc_config_fingerprint c" and "refs_fit 256 (evidence_of i)"
    and "87 < length (in_source_event_key i)"
  shows "\<exists>p. evaluate_decision i c = Inr p \<and> (\<forall>e. ev_evidence_refs e = dp_evidence_refs p \<longrightarrow> AcquisitionEvent e = Inl ContractError)"
proof -
  obtain p where p: "evaluate_decision i c = Inr p" "dp_evidence_refs p = evidence_of i"
    using evaluate_decision_total [OF assms(1,2)] assms(3) by blast
  have "\<not> wf_codes n (map py_strip (evidence_of i))" for n
    using assms(4) unfolding evidence_clean(1) [OF assms(1)] by (simp add: wf_codes_def evidence_of_def clean_str_def)
  then have "AcquisitionEvent e = Inl ContractError" if "ev_evidence_refs e = dp_evidence_refs p" for e
    using that p(2) by (simp add: AcquisitionEvent_def event_model_def Let_def wf_event_def strip_event_def)
  with p(1) show ?thesis by blast
qed

section \<open>Sample inputs\<close>

definition sample_subject :: decision_subject where
  "sample_subject = \<lparr> su_acquisition_opportunity_id = ''opp-1'', su_signal_ref = ''sig'', su_supplier_ref = ''sup'', su_contact_ref = ''con'',
     su_company_prebuild_version = ''v1'', su_company_prebuild_fingerprint = replicate 64 (CHR ''0''), su_size_band_version = ''v1'',
     su_profile_supplier_identity_status = SIRENE_IDENTIFIED, su_current_supplier_identity_status = SIRENE_IDENTIFIED,
     su_profile_contact_role_profile_version = ''v1'', su_profile_contact_role_tier = 1,
     su_current_contact_role_profile_version = ''v1'', su_current_contact_role_tier = 2,
     su_current_contact_verification_state = ''PROVIDER_VERIFIED'', su_current_contact_verification_provider = ''apollo'',
     su_current_contact_provider_email_status = ''verified'', su_research_completeness = ''LIMITED'', su_research_gaps = [''GAP''],
     su_size_band = ''SMB'' \<rparr>"

definition sample_public :: "string \<Rightarrow> public_context" where
  "sample_public key = \<lparr> pu_opportunity_key = ''o'', pu_representative_award_key = ''award'', pu_source_event_key = key,
     pu_award_date = None, pu_contract_notification_date = Some (date_of_ordinal 739900), pu_publication_date = Some (date_of_ordinal 739950),
     pu_public_evidence_refs = [''ref''], pu_public_context_fingerprint = replicate 64 (CHR ''0'') \<rparr>"

definition sample_today :: date where "sample_today = date_of_ordinal 739955"

lemma sample_clean: "list_all (clean_str 100) [''opp-1'', ''sig'', ''sup'', ''con'', ''v1'', ''GAP'', ''award'', ''ref'']" by code_simp

lemma sample_built:
  assumes "clean_str 256 key"
  shows "\<exists>i. build_acquisition_decision_input sample_subject (sample_public key) sample_today DECISION_POLICY_V1 = Inr i \<and>
    in_source_event_key i = key \<and> evidence_of i = [''contract-award:award'', ''source-event:'' @ key, ''acquisition-company-profile:opp-1'',
      ''acquisition-supplier:sup'', ''acquisition-contact:con''] \<and>
    in_decision_policy_config_fingerprint i = dc_config_fingerprint DECISION_POLICY_V1"
proof -
  have zero: "is_fingerprint (replicate 64 (CHR ''0''))" by code_simp
  have fp: "is_fingerprint (dc_config_fingerprint DECISION_POLICY_V1)" "is_fingerprint (semantic_fingerprint v)" for v
    by (simp_all add: DECISION_POLICY_V1_def decision_policy_config_fingerprint_def semantic_fingerprint_def)
  have key: "py_strip key = key" using assms by (simp add: clean_str_def)
  have cleaned: "py_strip s = s \<and> clean_str 256 s \<and> clean_str 100 s"
    if "s \<in> {''opp-1'', ''sig'', ''sup'', ''con'', ''v1'', ''GAP'', ''award'', ''ref''}" for s
    using sample_clean that by (auto simp: clean_str_def)
  show ?thesis
    using assms
    by (simp add: build_acquisition_decision_input_def Let_def input_draft_def resolve_recency_def sample_public_def sample_subject_def
        strip_input_def decision_subject.defs decision_input.defs wf_input_def wf_subject_def cleaned zero fp key is_fingerprint_strip
        recency_consistent_def clean_refs_def MAX_DECISION_EVIDENCE_def evidence_of_def)
qed

theorem decision_follows_clock_witness:
  "\<exists>i q. build_acquisition_decision_input sample_subject (sample_public ''event'') sample_today DECISION_POLICY_V1 = Inr i \<and>
     evaluate_decision i DECISION_POLICY_V1 = Inr q \<and> dp_proposed_decision q = D_SEND"
proof -
  have "clean_str 256 ''event''" by code_simp
  then obtain i where i: "build_acquisition_decision_input sample_subject (sample_public ''event'') sample_today DECISION_POLICY_V1 = Inr i"
      "in_decision_policy_config_fingerprint i = dc_config_fingerprint DECISION_POLICY_V1" "refs_fit 256 (evidence_of i)"
    using sample_built [of "''event''"] by (auto simp: refs_fit_def)
  then obtain q where q: "evaluate_decision i DECISION_POLICY_V1 = Inr q"
    using evaluate_decision_total [OF built_input(1) [OF i(1)] i(2)] by blast
  show ?thesis
    using decision_follows_clock [OF i(1) q] i(1) q
    by (simp add: sample_subject_def sample_public_def sample_today_def counting_clock_def rc_clocks assess_clock_def days_between_def
        default_thresholds_def recency_constants)
qed

theorem proposal_applies_witness:
  "\<exists>i p n. build_acquisition_decision_input sample_subject (sample_public ''event'') sample_today DECISION_POLICY_V1 = Inr i \<and>
     evaluate_decision i DECISION_POLICY_V1 = Inr p \<and>
     decision_recorded (projected (take 5 sample_held))
       ((sample_event 6 DECISION_RECORDED (dp_reason_codes p) (decision_payload p))\<lparr> ev_evidence_refs := dp_evidence_refs p \<rparr>) = Inr n \<and>
     opp_state n = DECISION_STATES (dp_proposed_decision p)"
proof -
  have "clean_str 256 ''event''" by code_simp
  then obtain i where i: "build_acquisition_decision_input sample_subject (sample_public ''event'') sample_today DECISION_POLICY_V1 = Inr i"
      "in_decision_policy_config_fingerprint i = dc_config_fingerprint DECISION_POLICY_V1" "refs_fit 256 (evidence_of i)"
    using sample_built [of "''event''"] by (auto simp: refs_fit_def)
  then obtain p where p: "evaluate_decision i DECISION_POLICY_V1 = Inr p"
    using evaluate_decision_total [OF built_input(1) [OF i(1)] i(2)] by blast
  have "opp_state (projected (take 5 sample_held)) = READY_FOR_DECISION" by code_simp
  then show ?thesis
    using proposal_applies [OF p, of "projected (take 5 sample_held)"
      "(sample_event 6 DECISION_RECORDED (dp_reason_codes p) (decision_payload p))\<lparr> ev_evidence_refs := dp_evidence_refs p \<rparr>"] i(1) p
    by (auto simp: sample_event_def)
qed

theorem long_evidence_unrecordable_witness:
  "\<exists>i p. evaluate_decision i DECISION_POLICY_V1 = Inr p \<and> ''source-event:'' @ replicate 88 (CHR ''k'') \<in> set (dp_evidence_refs p) \<and>
     (\<forall>e. ev_evidence_refs e = dp_evidence_refs p \<longrightarrow> AcquisitionEvent e = Inl ContractError)"
proof -
  have "clean_str 256 (replicate 88 (CHR ''k''))" by code_simp
  then obtain i where i: "build_acquisition_decision_input sample_subject (sample_public (replicate 88 (CHR ''k''))) sample_today DECISION_POLICY_V1 = Inr i"
      "in_decision_policy_config_fingerprint i = dc_config_fingerprint DECISION_POLICY_V1" "refs_fit 256 (evidence_of i)"
      "length (in_source_event_key i) = 88" "''source-event:'' @ replicate 88 (CHR ''k'') \<in> set (evidence_of i)"
    using sample_built [of "replicate 88 (CHR ''k'')"] by (auto simp: refs_fit_def)
  note wf = built_input(1) [OF i(1)]
  obtain p where p: "evaluate_decision i DECISION_POLICY_V1 = Inr p" "dp_evidence_refs p = evidence_of i"
    using evaluate_decision_total [OF wf i(2)] i(3) by blast
  then show ?thesis
    using long_evidence_unrecordable [OF wf i(2,3)] i(4,5)
    by (intro exI [of _ i] exI [of _ p]) simp
qed

end
