(* ===== verification/Compliance.thy ===== *)
theory Compliance
  imports DecisionEngine AcqStore PolicyContracts
begin

text \<open>
  Whether an acquisition campaign may write to a contact: \<open>compliance/contracts.py\<close> (the validated values),
  \<open>compliance/jurisdiction.py\<close> (which country's rules apply) and \<open>compliance/rules.py\<close> (the ordered rules of the
  frozen ruleset).

  As in \<open>DecisionEngine\<close> a field whose type is a single literal has no counterpart, except the purpose, which the rules look at.
  Timestamps are the aware datetimes of the source; they are compared as instants, as Python compares them.

  Shown here: the answer is total, an answer ALLOWED is equivalent to a declarative permission, and how long it is valid.
\<close>

section \<open>Letter case\<close>

text \<open>
  \<open>str.casefold\<close>, \<open>str.upper\<close> and \<open>str.split\<close> up to U+00FF. The micro sign and y with diaeresis have their counterparts beyond
  that range and are kept.
\<close>

definition latin_upper :: "char \<Rightarrow> bool" where
  "latin_upper c \<longleftrightarrow> (let n = (of_char c :: nat) in (65 \<le> n \<and> n \<le> 90) \<or> (192 \<le> n \<and> n \<le> 222 \<and> n \<noteq> 215))"

definition latin_lower :: "char \<Rightarrow> bool" where
  "latin_lower c \<longleftrightarrow> (let n = (of_char c :: nat) in (97 \<le> n \<and> n \<le> 122) \<or> (224 \<le> n \<and> n \<le> 254 \<and> n \<noteq> 247))"

definition casefold_char :: "char \<Rightarrow> string" where
  "casefold_char c = (if (of_char c :: nat) = 223 then ''ss'' else if latin_upper c then [char_of ((of_char c :: nat) + 32)] else [c])"

definition py_casefold :: "string \<Rightarrow> string" where
  "py_casefold s = concat (map casefold_char s)"

definition upper_char :: "char \<Rightarrow> string" where
  "upper_char c = (if (of_char c :: nat) = 223 then ''SS'' else if latin_lower c then [char_of ((of_char c :: nat) - 32)] else [c])"

definition py_upper :: "string \<Rightarrow> string" where
  "py_upper s = concat (map upper_char s)"

fun words_from :: "string \<Rightarrow> string \<Rightarrow> string list" where
  \<comment> \<open>\<open>split()\<close>, with the word begun so far\<close>
  "words_from w [] = (if w = [] then [] else [w])"
| "words_from w (c # s) = (if is_space c then (if w = [] then [] else [w]) @ words_from [] s else words_from (w @ [c]) s)"

section \<open>Jurisdiction\<close>

definition EU_MEMBER_CODES :: "string list" where
  "EU_MEMBER_CODES =
    [''AT'', ''BE'', ''BG'', ''HR'', ''CY'', ''CZ'', ''DK'', ''EE'', ''FI'', ''FR'', ''DE'', ''GR'', ''HU'', ''IE'',
     ''IT'', ''LV'', ''LT'', ''LU'', ''MT'', ''NL'', ''PL'', ''PT'', ''RO'', ''SK'', ''SI'', ''ES'', ''SE'']"

definition ISO_ALPHA2_CODES :: "string list" where
  "ISO_ALPHA2_CODES =
    [''AD'', ''AE'', ''AF'', ''AG'', ''AI'', ''AL'', ''AM'', ''AO'', ''AQ'', ''AR'', ''AS'', ''AT'', ''AU'', ''AW'',
     ''AX'', ''AZ'', ''BA'', ''BB'', ''BD'', ''BE'', ''BF'', ''BG'', ''BH'', ''BI'', ''BJ'', ''BL'', ''BM'', ''BN'',
     ''BO'', ''BQ'', ''BR'', ''BS'', ''BT'', ''BV'', ''BW'', ''BY'', ''BZ'', ''CA'', ''CC'', ''CD'', ''CF'', ''CG'',
     ''CH'', ''CI'', ''CK'', ''CL'', ''CM'', ''CN'', ''CO'', ''CR'', ''CU'', ''CV'', ''CW'', ''CX'', ''CY'', ''CZ'',
     ''DE'', ''DJ'', ''DK'', ''DM'', ''DO'', ''DZ'', ''EC'', ''EE'', ''EG'', ''EH'', ''ER'', ''ES'', ''ET'', ''FI'',
     ''FJ'', ''FK'', ''FM'', ''FO'', ''FR'', ''GA'', ''GB'', ''GD'', ''GE'', ''GF'', ''GG'', ''GH'', ''GI'', ''GL'',
     ''GM'', ''GN'', ''GP'', ''GQ'', ''GR'', ''GS'', ''GT'', ''GU'', ''GW'', ''GY'', ''HK'', ''HM'', ''HN'', ''HR'',
     ''HT'', ''HU'', ''ID'', ''IE'', ''IL'', ''IM'', ''IN'', ''IO'', ''IQ'', ''IR'', ''IS'', ''IT'', ''JE'', ''JM'',
     ''JO'', ''JP'', ''KE'', ''KG'', ''KH'', ''KI'', ''KM'', ''KN'', ''KP'', ''KR'', ''KW'', ''KY'', ''KZ'', ''LA'',
     ''LB'', ''LC'', ''LI'', ''LK'', ''LR'', ''LS'', ''LT'', ''LU'', ''LV'', ''LY'', ''MA'', ''MC'', ''MD'', ''ME'',
     ''MF'', ''MG'', ''MH'', ''MK'', ''ML'', ''MM'', ''MN'', ''MO'', ''MP'', ''MQ'', ''MR'', ''MS'', ''MT'', ''MU'',
     ''MV'', ''MW'', ''MX'', ''MY'', ''MZ'', ''NA'', ''NC'', ''NE'', ''NF'', ''NG'', ''NI'', ''NL'', ''NO'', ''NP'',
     ''NR'', ''NU'', ''NZ'', ''OM'', ''PA'', ''PE'', ''PF'', ''PG'', ''PH'', ''PK'', ''PL'', ''PM'', ''PN'', ''PR'',
     ''PS'', ''PT'', ''PW'', ''PY'', ''QA'', ''RE'', ''RO'', ''RS'', ''RU'', ''RW'', ''SA'', ''SB'', ''SC'', ''SD'',
     ''SE'', ''SG'', ''SH'', ''SI'', ''SJ'', ''SK'', ''SL'', ''SM'', ''SN'', ''SO'', ''SR'', ''SS'', ''ST'', ''SV'',
     ''SX'', ''SY'', ''SZ'', ''TC'', ''TD'', ''TF'', ''TG'', ''TH'', ''TJ'', ''TK'', ''TL'', ''TM'', ''TN'', ''TO'',
     ''TR'', ''TT'', ''TV'', ''TW'', ''TZ'', ''UA'', ''UG'', ''UM'', ''US'', ''UY'', ''UZ'', ''VA'', ''VC'', ''VE'',
     ''VG'', ''VI'', ''VN'', ''VU'', ''WF'', ''WS'', ''YE'', ''YT'', ''ZA'', ''ZM'', ''ZW'']"

definition PROVIDER_COUNTRY_ALIASES :: "(string \<times> string) list" where
  "PROVIDER_COUNTRY_ALIASES =
    [(''austria'', ''AT''), (''belgium'', ''BE''), (''bulgaria'', ''BG''), (''croatia'', ''HR''), (''cyprus'', ''CY''),
     (''czech republic'', ''CZ''), (''czechia'', ''CZ''), (''denmark'', ''DK''), (''estonia'', ''EE''), (''finland'', ''FI''),
     (''france'', ''FR''), (''germany'', ''DE''), (''greece'', ''GR''), (''hungary'', ''HU''), (''ireland'', ''IE''),
     (''italy'', ''IT''), (''latvia'', ''LV''), (''lithuania'', ''LT''), (''luxembourg'', ''LU''), (''malta'', ''MT''),
     (''netherlands'', ''NL''), (''poland'', ''PL''), (''portugal'', ''PT''), (''romania'', ''RO''), (''slovakia'', ''SK''),
     (''slovenia'', ''SI''), (''spain'', ''ES''), (''sweden'', ''SE''), (''switzerland'', ''CH''), (''united states'', ''US''),
     (''united states of america'', ''US''), (''united kingdom'', ''GB''), (''uk'', ''GB'')]"

datatype compliance_jurisdiction = IN_CH | IN_FR | EU_MEMBER_STATE_UNCONFIGURED | OUT_OF_SCOPE | JURISDICTION_UNRESOLVED

definition iso_code :: "string \<Rightarrow> string option" where
  "iso_code s = (if s \<in> set ISO_ALPHA2_CODES then Some s else None)"

definition normalize_provider_country :: "string option \<Rightarrow> string option" where
  "normalize_provider_country v = (case v of None \<Rightarrow> None | Some s \<Rightarrow>
     (let normalized = joined '' '' (words_from [] (py_casefold s))
      in case map_of PROVIDER_COUNTRY_ALIASES normalized of Some a \<Rightarrow> Some a | None \<Rightarrow> iso_code (py_upper normalized)))"

definition normalize_supplier_country :: "string option \<Rightarrow> string option" where
  "normalize_supplier_country v = (case v of None \<Rightarrow> None | Some s \<Rightarrow> iso_code (py_upper (py_strip s)))"

record jurisdiction_resolution =
  jr_jurisdiction :: compliance_jurisdiction
  jr_country_code :: "string option"
  jr_resolvable :: bool
  jr_evidence_refs :: "string list"

datatype compliance_error = Compliance_contract_error | Ruleset_mismatch

definition JurisdictionResolution :: "jurisdiction_resolution \<Rightarrow> (compliance_error, jurisdiction_resolution) result" where
  \<comment> \<open>the code is one of the table, which matches the pattern of the field\<close>
  "JurisdictionResolution r =
     (let stripped = r\<lparr> jr_evidence_refs := map py_strip (jr_evidence_refs r) \<rparr>
      in if clean_refs 8 (jr_evidence_refs stripped) then Inr stripped else Inl Compliance_contract_error)"

definition country_jurisdiction :: "string \<Rightarrow> compliance_jurisdiction" where
  "country_jurisdiction country =
     (if country = ''CH'' then IN_CH else if country = ''FR'' then IN_FR
      else if country \<in> set EU_MEMBER_CODES then EU_MEMBER_STATE_UNCONFIGURED else OUT_OF_SCOPE)"

definition resolve_jurisdiction ::
  "string option \<Rightarrow> string option \<Rightarrow> string \<Rightarrow> string \<Rightarrow> (compliance_error, jurisdiction_resolution) result" where
  "resolve_jurisdiction supplier_country_code provider_country supplier_ref profile_ref =
     (let supplier = normalize_supplier_country supplier_country_code;
          provider = normalize_provider_country provider_country;
          refs = (if supplier \<noteq> None then [''acquisition-supplier:'' @ supplier_ref @ '':country''] else []) @
            (if provider \<noteq> None then [profile_ref @ '':provider-country''] else [])
      in if supplier \<noteq> None \<and> provider \<noteq> None \<and> supplier \<noteq> provider
         then JurisdictionResolution \<lparr> jr_jurisdiction = JURISDICTION_UNRESOLVED, jr_country_code = None, jr_resolvable = True,
           jr_evidence_refs = refs \<rparr>
         else (case (if supplier \<noteq> None then supplier else provider) of
             None \<Rightarrow> JurisdictionResolution \<lparr> jr_jurisdiction = JURISDICTION_UNRESOLVED, jr_country_code = None, jr_resolvable = True,
               jr_evidence_refs = [profile_ref @ '':country-unresolved''] \<rparr>
           | Some country \<Rightarrow> JurisdictionResolution \<lparr> jr_jurisdiction = country_jurisdiction country, jr_country_code = Some country,
               jr_resolvable = (country_jurisdiction country \<noteq> OUT_OF_SCOPE), jr_evidence_refs = refs \<rparr>))"

section \<open>Sender and ruleset\<close>

definition json_datetime :: "datetime option \<Rightarrow> json" where
  \<comment> \<open>as \<open>model_dump(mode="json")\<close> writes it: UTC is Z\<close>
  "json_datetime v = (case v of None \<Rightarrow> JNull
     | Some d \<Rightarrow> JStr (if dt_offset d = Some 0 then isoformat (d\<lparr> dt_offset := None \<rparr>) @ ''Z'' else isoformat d))"

record sender_config =
  sc_config_version :: string
  sc_sender_profile_ref :: string
  sc_sender_identity_ready :: bool
  sc_opt_out_ready :: bool
  sc_privacy_notice_ready :: bool
  sc_source_notice_ready :: bool
  sc_valid_until :: "datetime option"
  sc_config_fingerprint :: "string option"

definition sender_fingerprint :: "sender_config \<Rightarrow> string" where
  "sender_fingerprint c = semantic_fingerprint [
     (''kind'', JStr ''sender-compliance-config-v1''), (''config_version'', JStr (sc_config_version c)),
     (''sender_profile_ref'', JStr (sc_sender_profile_ref c)), (''sender_identity_ready'', JBool (sc_sender_identity_ready c)),
     (''opt_out_ready'', JBool (sc_opt_out_ready c)), (''privacy_notice_ready'', JBool (sc_privacy_notice_ready c)),
     (''source_notice_ready'', JBool (sc_source_notice_ready c)), (''valid_until'', json_datetime (sc_valid_until c))]"

definition SenderComplianceConfig :: "sender_config \<Rightarrow> (compliance_error, sender_config) result" where
  "SenderComplianceConfig draft =
     (let c = draft\<lparr> sc_config_version := py_strip (sc_config_version draft), sc_sender_profile_ref := py_strip (sc_sender_profile_ref draft) \<rparr>;
          expected = sender_fingerprint c
      in if clean_str 100 (sc_config_version c) \<and> clean_str 256 (sc_sender_profile_ref c) \<and> opt_all is_aware (sc_valid_until c) \<and>
            sc_config_fingerprint c \<in> {None, Some expected}
         then Inr (c\<lparr> sc_config_fingerprint := Some expected \<rparr>) else Inl Compliance_contract_error)"

record ruleset_config =
  rs_legal_review_ref :: string
  rs_effective_from :: datetime
  rs_valid_until :: "datetime option"
  rs_configured_country_rulesets :: "compliance_jurisdiction list" \<comment> \<open>Switzerland or France\<close>
  rs_config_fingerprint :: "string option"

definition ALLOWED_TTL :: int where "ALLOWED_TTL = 24 * 3600 * 1000000"

definition RULESET_LEGAL_REVIEW_REF :: string where
  "RULESET_LEGAL_REVIEW_REF = ''legal-review:spec025-r1:ff6a070c3d7a8ad95c002fc0ffc97b3b4f93c594''"

definition RULESET_EFFECTIVE_FROM :: datetime where
  "RULESET_EFFECTIVE_FROM = \<lparr> dt_date = mk_date 2026 8 21, dt_hour = 0, dt_minute = 0, dt_second = 0, dt_micro = 0, dt_offset = Some 0 \<rparr>"

definition country_names :: "compliance_jurisdiction list \<Rightarrow> string list" where
  "country_names js = (if IN_CH \<in> set js then [''CH''] else []) @ (if IN_FR \<in> set js then [''FR''] else [])"

definition ruleset_fingerprint :: "ruleset_config \<Rightarrow> string" where
  "ruleset_fingerprint c = semantic_fingerprint [
     (''kind'', JStr ''compliance-ruleset-config-v1''), (''ruleset_version'', JStr ''acquisition-compliance-ruleset-v1''),
     (''legal_review_ref'', JStr (rs_legal_review_ref c)), (''effective_from'', json_datetime (Some (rs_effective_from c))),
     (''valid_until'', json_datetime (rs_valid_until c)), (''allowed_ttl_hours'', JInt 24),
     (''configured_country_rulesets'', str_list (country_names (rs_configured_country_rulesets c))),
     (''reason_code_version'', JStr ''compliance-reasons-v1'')]"

definition ComplianceRulesetConfig :: "ruleset_config \<Rightarrow> (compliance_error, ruleset_config) result" where
  "ComplianceRulesetConfig draft =
     (let c = draft\<lparr> rs_legal_review_ref := py_strip (rs_legal_review_ref draft),
            rs_configured_country_rulesets := filter (\<lambda>j. j \<in> set (rs_configured_country_rulesets draft)) [IN_CH, IN_FR] \<rparr>;
          expected = ruleset_fingerprint c
      in if clean_str 256 (rs_legal_review_ref c) \<and> is_aware (rs_effective_from c) \<and> opt_all is_aware (rs_valid_until c) \<and>
            opt_all (\<lambda>u. instant_of (rs_effective_from c) < instant_of u) (rs_valid_until c) \<and>
            set (rs_configured_country_rulesets draft) \<subseteq> {IN_CH, IN_FR} \<and> rs_config_fingerprint c \<in> {None, Some expected}
         then Inr (c\<lparr> rs_config_fingerprint := Some expected \<rparr>) else Inl Compliance_contract_error)"

definition RULESET_DRAFT :: ruleset_config where
  "RULESET_DRAFT = \<lparr> rs_legal_review_ref = RULESET_LEGAL_REVIEW_REF, rs_effective_from = RULESET_EFFECTIVE_FROM, rs_valid_until = None,
     rs_configured_country_rulesets = [IN_CH, IN_FR], rs_config_fingerprint = None \<rparr>"

definition RULESET_V1 :: ruleset_config where
  "RULESET_V1 = RULESET_DRAFT\<lparr> rs_config_fingerprint := Some (ruleset_fingerprint RULESET_DRAFT) \<rparr>"

section \<open>Input and proposal\<close>

datatype suppression_match_state = CLEAR | MATCHED | COVERAGE_UNSAFE
datatype business_context_state = PROFESSIONAL_CONTEXT_VERIFIED | BUSINESS_CONTEXT_INSUFFICIENT
datatype email_provenance = PROVIDER_VERIFIED_BUSINESS_CONTACT | PROVENANCE_UNKNOWN
datatype ch_legal_basis = CONSENT_PROVEN | EXISTING_CUSTOMER_SIMILAR_PROVEN | UNPROVEN
datatype acquisition_purpose = KIVOU_ACQUISITION_SIGNAL_RELEVANCE | MILOMAIL_GMAIL_AUDIT_B2B

record compliance_input =
  ci_acquisition_opportunity_id :: string
  ci_supplier_ref :: string
  ci_contact_ref :: string
  ci_personalization_artifact_id :: string
  ci_personalization_artifact_fingerprint :: string
  ci_personalization_input_fingerprint :: string
  ci_personalization_proposal_fingerprint :: string
  ci_personalization_policy_action_fingerprint :: string
  ci_language :: string
  ci_supplier_identity_status :: supplier_identity_status
  ci_contact_source_fingerprint :: string
  ci_contact_role_profile_version :: string
  ci_contact_role_tier :: int
  ci_jurisdiction :: jurisdiction_resolution
  ci_business_context_state :: business_context_state
  ci_email_provenance :: email_provenance
  ci_sender_config :: sender_config
  ci_acquisition_purpose :: acquisition_purpose
  ci_ch_legal_basis :: ch_legal_basis
  ci_suppression_match_state :: suppression_match_state
  ci_suppression_key_versions_considered :: "string list"
  ci_evidence_refs :: "string list"
  ci_ruleset_config_fingerprint :: string
  ci_ruleset_legal_review_ref :: string
  ci_ruleset_effective_from :: datetime
  ci_ruleset_valid_until :: "datetime option"
  ci_assessed_at :: datetime
  ci_as_of_date :: date
  ci_compliance_input_fingerprint :: string

definition strip_compliance_input :: "compliance_input \<Rightarrow> compliance_input" where
  "strip_compliance_input i = i\<lparr>
     ci_acquisition_opportunity_id := py_strip (ci_acquisition_opportunity_id i), ci_supplier_ref := py_strip (ci_supplier_ref i),
     ci_contact_ref := py_strip (ci_contact_ref i), ci_personalization_artifact_id := py_strip (ci_personalization_artifact_id i),
     ci_contact_role_profile_version := py_strip (ci_contact_role_profile_version i),
     ci_suppression_key_versions_considered := map py_strip (ci_suppression_key_versions_considered i),
     ci_evidence_refs := map py_strip (ci_evidence_refs i), ci_ruleset_legal_review_ref := py_strip (ci_ruleset_legal_review_ref i) \<rparr>"

definition wf_compliance_input :: "compliance_input \<Rightarrow> bool" where
  "wf_compliance_input i \<longleftrightarrow>
     list_all (clean_str 256) [ci_acquisition_opportunity_id i, ci_supplier_ref i, ci_contact_ref i, ci_personalization_artifact_id i,
       ci_ruleset_legal_review_ref i] \<and>
     list_all is_fingerprint [ci_personalization_artifact_fingerprint i, ci_personalization_input_fingerprint i,
       ci_personalization_proposal_fingerprint i, ci_personalization_policy_action_fingerprint i, ci_contact_source_fingerprint i,
       ci_ruleset_config_fingerprint i, ci_compliance_input_fingerprint i] \<and>
     ci_language i \<in> {''fr'', ''en''} \<and> clean_str 100 (ci_contact_role_profile_version i) \<and>
     1 \<le> ci_contact_role_tier i \<and> ci_contact_role_tier i \<le> 4 \<and> clean_refs 8 (jr_evidence_refs (ci_jurisdiction i)) \<and>
     SenderComplianceConfig (ci_sender_config i) = Inr (ci_sender_config i) \<and>
     ci_suppression_key_versions_considered i \<noteq> [] \<and> length (ci_suppression_key_versions_considered i) \<le> 8 \<and>
     list_all (clean_str 100) (ci_suppression_key_versions_considered i) \<and> clean_refs 16 (ci_evidence_refs i) \<and>
     is_aware (ci_ruleset_effective_from i) \<and> opt_all is_aware (ci_ruleset_valid_until i) \<and> is_aware (ci_assessed_at i)"

definition ComplianceInput :: "compliance_input \<Rightarrow> (compliance_error, compliance_input) result" where
  "ComplianceInput draft =
     (let i = strip_compliance_input draft in if wf_compliance_input i then Inr i else Inl Compliance_contract_error)"

record compliance_proposal =
  cp_state :: compliance_state
  cp_reason_codes :: "string list"
  cp_evidence_refs :: "string list"
  cp_next_action :: "string option"
  cp_valid_until :: "datetime option"
  cp_input_fingerprint :: string
  cp_ruleset_config_fingerprint :: string
  cp_proposal_fingerprint :: string

definition wf_compliance_proposal :: "compliance_proposal \<Rightarrow> bool" where
  "wf_compliance_proposal p \<longleftrightarrow> cp_reason_codes p \<noteq> [] \<and> length (cp_reason_codes p) \<le> 8 \<and>
     list_all (clean_str 100) (cp_reason_codes p) \<and> clean_refs 16 (cp_evidence_refs p) \<and>
     cp_next_action p \<in> {Some ''schedule_campaign'', Some ''request_human_review'', None} \<and> opt_all is_aware (cp_valid_until p) \<and>
     is_fingerprint (cp_input_fingerprint p) \<and> is_fingerprint (cp_ruleset_config_fingerprint p) \<and>
     is_fingerprint (cp_proposal_fingerprint p)"

definition ComplianceProposal :: "compliance_proposal \<Rightarrow> (compliance_error, compliance_proposal) result" where
  "ComplianceProposal draft =
     (let p = draft\<lparr> cp_reason_codes := map py_strip (cp_reason_codes draft), cp_evidence_refs := map py_strip (cp_evidence_refs draft) \<rparr>
      in if wf_compliance_proposal p then Inr p else Inl Compliance_contract_error)"

section \<open>Rules\<close>

definition compliance_state_value :: "compliance_state \<Rightarrow> string" where
  "compliance_state_value s = (case s of ALLOWED \<Rightarrow> ''ALLOWED'' | BLOCKED \<Rightarrow> ''BLOCKED''
     | REVIEW_REQUIRED \<Rightarrow> ''REVIEW_REQUIRED'' | COMPLIANCE_UNKNOWN \<Rightarrow> ''UNKNOWN'')"

definition sooner :: "datetime \<Rightarrow> datetime option \<Rightarrow> datetime" where
  \<comment> \<open>\<open>min(validity, bound)\<close>, where there is a bound\<close>
  "sooner validity bound = (case bound of None \<Rightarrow> validity | Some b \<Rightarrow> if instant_of b < instant_of validity then b else validity)"

definition validity_of :: "compliance_input \<Rightarrow> ruleset_config \<Rightarrow> compliance_state \<Rightarrow> datetime option" where
  "validity_of v c state =
     (if state = ALLOWED
      then Some (sooner (sooner (dt_add (ci_assessed_at v) ALLOWED_TTL) (sc_valid_until (ci_sender_config v))) (rs_valid_until c))
      else None)"

definition rules_proposal ::
  "compliance_input \<Rightarrow> ruleset_config \<Rightarrow> compliance_state \<Rightarrow> string list \<Rightarrow> string option \<Rightarrow> (compliance_error, compliance_proposal) result" where
  "rules_proposal v c state reasons action =
     (let validity = validity_of v c state;
          evidence = take 16 (fromkeys (ci_evidence_refs v @ jr_evidence_refs (ci_jurisdiction v)));
          config_fingerprint = the (rs_config_fingerprint c)
      in ComplianceProposal \<lparr> cp_state = state, cp_reason_codes = reasons, cp_evidence_refs = evidence, cp_next_action = action,
           cp_valid_until = validity, cp_input_fingerprint = ci_compliance_input_fingerprint v,
           cp_ruleset_config_fingerprint = config_fingerprint,
           cp_proposal_fingerprint = semantic_fingerprint [(''kind'', JStr ''acquisition-compliance-proposal-v1''),
             (''input_fingerprint'', JStr (ci_compliance_input_fingerprint v)), (''state'', JStr (compliance_state_value state)),
             (''reason_codes'', str_list reasons), (''evidence_refs'', str_list evidence), (''next_action'', opt_str action),
             (''valid_until'', opt_str (map_option isoformat validity)), (''ruleset_version'', JStr ''acquisition-compliance-ruleset-v1''),
             (''ruleset_config_fingerprint'', JStr config_fingerprint)] \<rparr>)"

definition ruleset_bound :: "compliance_input \<Rightarrow> ruleset_config \<Rightarrow> bool" where
  \<comment> \<open>the input was made for this ruleset\<close>
  "ruleset_bound v c \<longleftrightarrow> Some (ci_ruleset_config_fingerprint v) = rs_config_fingerprint c \<and>
     ci_ruleset_legal_review_ref v = rs_legal_review_ref c \<and>
     instant_of (ci_ruleset_effective_from v) = instant_of (rs_effective_from c) \<and>
     map_option instant_of (ci_ruleset_valid_until v) = map_option instant_of (rs_valid_until c)"

definition codes_of :: "(bool \<times> string) list \<Rightarrow> string list" where
  "codes_of checks = map snd (filter fst checks)"

definition sender_checks :: "compliance_input \<Rightarrow> (bool \<times> string) list" where
  "sender_checks v =
     (let s = ci_sender_config v
      in [(\<not> opt_all (\<lambda>u. instant_of (ci_assessed_at v) < instant_of u) (sc_valid_until s), ''SENDER_CONFIG_EXPIRED''),
          (\<not> sc_sender_identity_ready s, ''REQUIRED_SENDER_IDENTITY_MISSING''),
          (\<not> sc_opt_out_ready s, ''REQUIRED_OPT_OUT_MECHANISM_MISSING'')])"

definition country_checks :: "compliance_input \<Rightarrow> (bool \<times> string) list" where
  "country_checks v =
     (let s = ci_sender_config v
      in if jr_jurisdiction (ci_jurisdiction v) = IN_CH
         then (ci_ch_legal_basis v = UNPROVEN, ''LEGAL_BASIS_UNRESOLVED'') # sender_checks v
         else sender_checks v @
           [(\<not> sc_privacy_notice_ready s, ''REQUIRED_PRIVACY_NOTICE_MISSING''),
            (\<not> sc_source_notice_ready s, ''REQUIRED_SOURCE_NOTICE_MISSING''),
            (ci_business_context_state v \<noteq> PROFESSIONAL_CONTEXT_VERIFIED, ''BUSINESS_CONTEXT_INSUFFICIENT''),
            (ci_email_provenance v \<noteq> PROVIDER_VERIFIED_BUSINESS_CONTACT, ''EMAIL_PROVENANCE_UNRESOLVED'')])"

definition effective_at :: "ruleset_config \<Rightarrow> datetime \<Rightarrow> bool" where
  "effective_at c t \<longleftrightarrow> instant_of (rs_effective_from c) \<le> instant_of t \<and> opt_all (\<lambda>u. instant_of t < instant_of u) (rs_valid_until c)"

definition compliance_verdict :: "compliance_input \<Rightarrow> ruleset_config \<Rightarrow> compliance_state \<times> string list \<times> string option" where
  \<comment> \<open>state, reasons and next action of the proposal that is returned\<close>
  "compliance_verdict v c =
     (let place = jr_jurisdiction (ci_jurisdiction v); review = Some ''request_human_review''; reasons = codes_of (country_checks v)
      in if ci_suppression_match_state v = MATCHED then (BLOCKED, [''SUPPRESSION_MATCH''], None)
      else if ci_suppression_match_state v = COVERAGE_UNSAFE then (COMPLIANCE_UNKNOWN, [''SUPPRESSION_KEY_COVERAGE_UNSAFE''], None)
      else if \<not> effective_at c (ci_assessed_at v) then (REVIEW_REQUIRED, [''RULESET_NOT_EFFECTIVE''], review)
      else if place = JURISDICTION_UNRESOLVED
      then (COMPLIANCE_UNKNOWN, [''JURISDICTION_UNRESOLVED''], if jr_resolvable (ci_jurisdiction v) then review else None)
      else if place = OUT_OF_SCOPE then (BLOCKED, [''JURISDICTION_OUT_OF_SCOPE''], None)
      else if place = EU_MEMBER_STATE_UNCONFIGURED then (REVIEW_REQUIRED, [''COUNTRY_RULESET_UNCONFIGURED''], review)
      else if place \<notin> set (rs_configured_country_rulesets c) then (REVIEW_REQUIRED, [''COUNTRY_RULESET_UNCONFIGURED''], review)
      else if reasons \<noteq> [] then (REVIEW_REQUIRED, take 8 (fromkeys reasons), review)
      else (ALLOWED,
        (if place = IN_CH then [''CH_LEGAL_PREDICATE_VERIFIED'', ''SENDER_AND_OBJECTION_MECHANISM_VERIFIED'']
         else [''JURISDICTION_RULESET_SATISFIED'', ''BUSINESS_CONTEXT_VERIFIED'', ''SENDER_AND_OBJECTION_MECHANISM_VERIFIED'']),
        Some ''schedule_campaign''))"

definition evaluate_compliance :: "compliance_input \<Rightarrow> ruleset_config \<Rightarrow> (compliance_error, compliance_proposal) result" where
  "evaluate_compliance v c =
     (if ci_acquisition_purpose v \<noteq> KIVOU_ACQUISITION_SIGNAL_RELEVANCE then Inl Ruleset_mismatch
      else if \<not> ruleset_bound v c then Inl Ruleset_mismatch
      else (case compliance_verdict v c of (state, reasons, action) \<Rightarrow> rules_proposal v c state reasons action))"

section \<open>The answer\<close>

definition coherent_result :: "compliance_proposal \<Rightarrow> bool" where
  \<comment> \<open>what the table of assessments requires of a proposal\<close>
  "coherent_result p \<longleftrightarrow>
     (cp_state p = ALLOWED \<longrightarrow> cp_next_action p = Some ''schedule_campaign'') \<and>
     (cp_state p = REVIEW_REQUIRED \<longrightarrow> cp_next_action p = Some ''request_human_review'') \<and>
     (cp_state p = BLOCKED \<longrightarrow> cp_next_action p = None) \<and> (cp_state p = ALLOWED \<longleftrightarrow> cp_valid_until p \<noteq> None)"

text \<open>The permission of the ruleset, read without its order.\<close>

definition sender_ready :: "compliance_input \<Rightarrow> bool" where
  "sender_ready v \<longleftrightarrow> sc_sender_identity_ready (ci_sender_config v) \<and> sc_opt_out_ready (ci_sender_config v) \<and>
     opt_all (\<lambda>u. instant_of (ci_assessed_at v) < instant_of u) (sc_valid_until (ci_sender_config v))"

definition campaign_permitted :: "compliance_input \<Rightarrow> ruleset_config \<Rightarrow> bool" where
  "campaign_permitted v c \<longleftrightarrow> ci_suppression_match_state v = CLEAR \<and> effective_at c (ci_assessed_at v) \<and> sender_ready v \<and>
     jr_jurisdiction (ci_jurisdiction v) \<in> set (rs_configured_country_rulesets c) \<and>
     (case jr_jurisdiction (ci_jurisdiction v) of
        IN_CH \<Rightarrow> ci_ch_legal_basis v \<noteq> UNPROVEN
      | IN_FR \<Rightarrow> sc_privacy_notice_ready (ci_sender_config v) \<and> sc_source_notice_ready (ci_sender_config v) \<and>
          ci_business_context_state v = PROFESSIONAL_CONTEXT_VERIFIED \<and> ci_email_provenance v = PROVIDER_VERIFIED_BUSINESS_CONTACT
      | _ \<Rightarrow> False)"

definition COMPLIANCE_CODES :: "string list" where
  "COMPLIANCE_CODES = [''SUPPRESSION_MATCH'', ''SUPPRESSION_KEY_COVERAGE_UNSAFE'', ''RULESET_NOT_EFFECTIVE'', ''JURISDICTION_UNRESOLVED'',
     ''JURISDICTION_OUT_OF_SCOPE'', ''COUNTRY_RULESET_UNCONFIGURED'', ''LEGAL_BASIS_UNRESOLVED'', ''SENDER_CONFIG_EXPIRED'',
     ''REQUIRED_SENDER_IDENTITY_MISSING'', ''REQUIRED_OPT_OUT_MECHANISM_MISSING'', ''REQUIRED_PRIVACY_NOTICE_MISSING'',
     ''REQUIRED_SOURCE_NOTICE_MISSING'', ''BUSINESS_CONTEXT_INSUFFICIENT'', ''EMAIL_PROVENANCE_UNRESOLVED'', ''CH_LEGAL_PREDICATE_VERIFIED'',
     ''SENDER_AND_OBJECTION_MECHANISM_VERIFIED'', ''JURISDICTION_RULESET_SATISFIED'', ''BUSINESS_CONTEXT_VERIFIED'']"

lemma compliance_codes_clean: "list_all (clean_str 100) COMPLIANCE_CODES"
  by code_simp

lemma clean_strs_strip: "list_all (clean_str n) xs \<Longrightarrow> map py_strip xs = xs"
  by (induction xs) (auto simp: clean_str_def)

lemma clean_refs_capped:
  assumes "clean_refs m xs" and "clean_refs k ys" and "0 < n"
  shows "clean_refs n (take n (fromkeys (xs @ ys)))"
proof -
  have "set (take n (fromkeys (xs @ ys))) \<subseteq> set xs \<union> set ys" using set_take_subset by fastforce
  then show ?thesis
    using assms by (auto simp: clean_refs_def list_all_iff dest!: subsetD)
qed

lemma codes_of_simps:
  "codes_of checks = [] \<longleftrightarrow> list_all (\<lambda>(b, _). \<not> b) checks" "set (codes_of checks) \<subseteq> snd ` set checks"
  "length (codes_of checks) \<le> length checks"
  by (auto simp: codes_of_def list_all_iff filter_empty_conv)

lemma country_codes: "set (codes_of (country_checks v)) \<subseteq> set COMPLIANCE_CODES"
  by (rule order_trans [OF codes_of_simps(2)]) (auto simp: country_checks_def sender_checks_def COMPLIANCE_CODES_def Let_def)

text \<open>Every proposal of the rules is a valid one.\<close>

lemma rules_proposal_ok:
  assumes "wf_compliance_input v" and "ruleset_bound v c"
    and "reasons \<noteq> []" and "set reasons \<subseteq> set COMPLIANCE_CODES" and "length reasons \<le> 8"
    and "action \<in> {Some ''schedule_campaign'', Some ''request_human_review'', None}" and "opt_all is_aware (rs_valid_until c)"
  shows "\<exists>p. rules_proposal v c state reasons action = Inr p \<and> cp_state p = state \<and> cp_reason_codes p = reasons \<and> cp_next_action p = action \<and>
    cp_valid_until p = validity_of v c state"
proof -
  have clean: "list_all (clean_str 100) reasons"
    using assms(4) compliance_codes_clean by (auto simp: list_all_iff)
  have refs: "clean_refs 16 (take 16 (fromkeys (ci_evidence_refs v @ jr_evidence_refs (ci_jurisdiction v))))"
    using assms(1) by (intro clean_refs_capped [where m = 16 and k = 8]) (simp_all add: wf_compliance_input_def)
  have "opt_all is_aware (sc_valid_until (ci_sender_config v))"
    using assms(1)
    by (auto simp: wf_compliance_input_def SenderComplianceConfig_def Let_def split: if_split_asm dest: arg_cong [where f = sc_valid_until])
  then have "opt_all is_aware (validity_of v c state)"
    using assms(1,7) by (auto simp: validity_of_def sooner_def wf_compliance_input_def opt_all_def split: option.splits)
  moreover have "the (rs_config_fingerprint c) = ci_ruleset_config_fingerprint v"
    using assms(2) by (metis ruleset_bound_def option.sel)
  then have "is_fingerprint (ci_compliance_input_fingerprint v)" "is_fingerprint (the (rs_config_fingerprint c))"
    using assms(1) by (simp_all add: wf_compliance_input_def)
  ultimately show ?thesis
    using assms(3,5,6) clean refs clean_strs_strip [OF clean] clean_strs_strip [of 256 "take 16 (fromkeys (ci_evidence_refs v @ jr_evidence_refs (ci_jurisdiction v)))"]
    by (simp add: rules_proposal_def Let_def ComplianceProposal_def wf_compliance_proposal_def semantic_fingerprint_def clean_refs_def)
qed

text \<open>The rules allow under the permission only.\<close>

lemma no_open_points:
  "codes_of (country_checks v) = [] \<longleftrightarrow> sender_ready v \<and>
     (if jr_jurisdiction (ci_jurisdiction v) = IN_CH then ci_ch_legal_basis v \<noteq> UNPROVEN
      else sc_privacy_notice_ready (ci_sender_config v) \<and> sc_source_notice_ready (ci_sender_config v) \<and>
        ci_business_context_state v = PROFESSIONAL_CONTEXT_VERIFIED \<and> ci_email_provenance v = PROVIDER_VERIFIED_BUSINESS_CONTACT)"
  by (auto simp: codes_of_simps(1) country_checks_def sender_checks_def sender_ready_def Let_def)

lemma verdict_permitted: "fst (compliance_verdict v c) = ALLOWED \<longleftrightarrow> campaign_permitted v c"
  by (cases "ci_suppression_match_state v"; cases "jr_jurisdiction (ci_jurisdiction v)")
    (simp_all add: compliance_verdict_def Let_def campaign_permitted_def no_open_points)

lemma verdict_action:
  assumes "compliance_verdict v c = (state, reasons, action)"
  shows "action = Some ''schedule_campaign'' \<longleftrightarrow> state = ALLOWED" "state = REVIEW_REQUIRED \<Longrightarrow> action = Some ''request_human_review''"
    "state = BLOCKED \<Longrightarrow> action = None" "action \<in> {Some ''schedule_campaign'', Some ''request_human_review'', None}"
  using assms by (auto simp: compliance_verdict_def Let_def split: if_split_asm)

lemma verdict_reasons:
  assumes "compliance_verdict v c = (state, reasons, action)"
  shows "reasons \<noteq> []" "set reasons \<subseteq> set COMPLIANCE_CODES" "length reasons \<le> 8"
proof -
  let ?open = "codes_of (country_checks v)"
  have "set (take 8 (fromkeys ?open)) \<subseteq> set COMPLIANCE_CODES"
    using country_codes [of v] set_take_subset [of 8 "fromkeys ?open"] by auto
  moreover have "(?open \<noteq> [] \<and> reasons = take 8 (fromkeys ?open)) \<or>
      (reasons \<noteq> [] \<and> set reasons \<subseteq> set COMPLIANCE_CODES \<and> length reasons \<le> 8)"
    using assms by (simp add: compliance_verdict_def Let_def COMPLIANCE_CODES_def split: if_split_asm)
      (auto split: if_split_asm)
  ultimately show "reasons \<noteq> []" "set reasons \<subseteq> set COMPLIANCE_CODES" "length reasons \<le> 8" by auto
qed

lemma evaluate_compliance_Inr:
  assumes "evaluate_compliance v c = Inr p"
  shows "compliance_verdict v c = (cp_state p, cp_reason_codes p, cp_next_action p)" and "cp_valid_until p = validity_of v c (cp_state p)"
proof -
  obtain state reasons action where v: "compliance_verdict v c = (state, reasons, action)" by (cases "compliance_verdict v c")
  then have "rules_proposal v c state reasons action = Inr p"
    using assms by (simp add: evaluate_compliance_def split: if_split_asm)
  moreover have "list_all (clean_str 100) reasons"
    using verdict_reasons(2) [OF v] compliance_codes_clean by (auto simp: list_all_iff)
  ultimately show "compliance_verdict v c = (cp_state p, cp_reason_codes p, cp_next_action p)" "cp_valid_until p = validity_of v c (cp_state p)"
    using v by (auto simp: rules_proposal_def Let_def ComplianceProposal_def clean_strs_strip split: if_split_asm)
qed

lemma evaluate_compliance_evidence:
  assumes "evaluate_compliance v c = Inr p"
  shows "cp_evidence_refs p = map py_strip (take 16 (fromkeys (ci_evidence_refs v @ jr_evidence_refs (ci_jurisdiction v))))"
  using assms by (auto simp: evaluate_compliance_def rules_proposal_def Let_def ComplianceProposal_def split: if_split_asm prod.split_asm)

lemma evaluate_compliance_answer:
  assumes "evaluate_compliance v c = Inr p"
  shows "cp_state p = ALLOWED \<longleftrightarrow> campaign_permitted v c" and "coherent_result p"
    and "cp_next_action p = Some ''schedule_campaign'' \<longleftrightarrow> cp_state p = ALLOWED"
  using verdict_permitted [of v c] verdict_action [OF evaluate_compliance_Inr(1) [OF assms]] evaluate_compliance_Inr [OF assms]
  by (auto simp: coherent_result_def validity_of_def)

lemma evaluate_compliance_total:
  assumes "wf_compliance_input v" and "ci_acquisition_purpose v = KIVOU_ACQUISITION_SIGNAL_RELEVANCE" and "ruleset_bound v c"
    and "opt_all is_aware (rs_valid_until c)"
  shows "\<exists>p. evaluate_compliance v c = Inr p"
proof -
  obtain state reasons action where v: "compliance_verdict v c = (state, reasons, action)" by (cases "compliance_verdict v c")
  then show ?thesis
    using rules_proposal_ok [OF assms(1,3) verdict_reasons [OF v] verdict_action(4) [OF v] assms(4)] assms(2,3)
    by (auto simp: evaluate_compliance_def)
qed

text \<open>
  C33. The ordered rules are a permission. For a valid input that was made for the ruleset the evaluation always answers, never with a
  validation error; it answers ALLOWED exactly when the contact is not suppressed, the ruleset is in force, the sender is identified,
  can be objected to and is not expired, and the configured rules of the country hold: a proven legal basis in Switzerland, or in France
  both notices, a professional context and a verified address. The answer always fits the table of assessments: a
  campaign is the next step exactly for ALLOWED, which alone carries a validity.
\<close>

theorem compliance_allowed_iff:
  assumes "wf_compliance_input v" and "ci_acquisition_purpose v = KIVOU_ACQUISITION_SIGNAL_RELEVANCE" and "ruleset_bound v c"
    and "opt_all is_aware (rs_valid_until c)"
  shows "\<exists>p. evaluate_compliance v c = Inr p \<and> (cp_state p = ALLOWED \<longleftrightarrow> campaign_permitted v c) \<and> coherent_result p \<and>
    (cp_next_action p = Some ''schedule_campaign'' \<longleftrightarrow> cp_state p = ALLOWED)"
  using evaluate_compliance_total [OF assms] evaluate_compliance_answer by blast

text \<open>
  How long a permission holds. It begins to hold, ends at the latest one day after the assessment and never outlives the
  configuration of the sender or the ruleset.
\<close>

theorem allowed_validity:
  assumes "evaluate_compliance v c = Inr p" and "cp_state p = ALLOWED" and "valid_datetime (ci_assessed_at v)"
  shows "\<exists>u. cp_valid_until p = Some u \<and> instant_of (ci_assessed_at v) < instant_of u \<and>
    instant_of u \<le> instant_of (ci_assessed_at v) + 86400000000 \<and>
    opt_all (\<lambda>s. instant_of u \<le> instant_of s) (sc_valid_until (ci_sender_config v)) \<and>
    opt_all (\<lambda>s. instant_of u \<le> instant_of s) (rs_valid_until c)"
proof -
  have permitted: "campaign_permitted v c" using evaluate_compliance_answer(1) [OF assms(1)] assms(2) by simp
  have "instant_of (dt_add (ci_assessed_at v) ALLOWED_TTL) = instant_of (ci_assessed_at v) + ALLOWED_TTL"
    by (rule instant_of_dt_add) (use valid_local_ge [OF assms(3)] in \<open>simp add: ALLOWED_TTL_def\<close>)
  then show ?thesis
    using permitted evaluate_compliance_Inr(2) [OF assms(1)] assms(2)
    by (auto simp: validity_of_def sooner_def campaign_permitted_def sender_ready_def effective_at_def opt_all_def ALLOWED_TTL_def
        split: option.splits)
qed

section \<open>A sample assessment\<close>

definition sample_sender_draft :: sender_config where
  "sample_sender_draft = \<lparr> sc_config_version = ''sender-compliance-v1'', sc_sender_profile_ref = ''sender-1'', sc_sender_identity_ready = True,
     sc_opt_out_ready = True, sc_privacy_notice_ready = True, sc_source_notice_ready = True, sc_valid_until = None,
     sc_config_fingerprint = None \<rparr>"

definition sample_sender :: sender_config where
  "sample_sender = sample_sender_draft\<lparr> sc_config_fingerprint := Some (sender_fingerprint sample_sender_draft) \<rparr>"

definition sample_assessed :: datetime where
  "sample_assessed = \<lparr> dt_date = mk_date 2026 9 1, dt_hour = 8, dt_minute = 0, dt_second = 0, dt_micro = 0, dt_offset = Some 0 \<rparr>"

definition sample_french :: compliance_input where
  "sample_french = (let zero = replicate 64 (CHR ''0'') in \<lparr> ci_acquisition_opportunity_id = ''opp-1'', ci_supplier_ref = ''sup'', ci_contact_ref = ''con'',
     ci_personalization_artifact_id = ''art'', ci_personalization_artifact_fingerprint = zero, ci_personalization_input_fingerprint = zero,
     ci_personalization_proposal_fingerprint = zero, ci_personalization_policy_action_fingerprint = zero, ci_language = ''fr'',
     ci_supplier_identity_status = SIRENE_IDENTIFIED, ci_contact_source_fingerprint = zero, ci_contact_role_profile_version = ''v1'',
     ci_contact_role_tier = 1, ci_jurisdiction = \<lparr> jr_jurisdiction = IN_FR, jr_country_code = Some ''FR'', jr_resolvable = True,
       jr_evidence_refs = [''acquisition-supplier:sup:country''] \<rparr>,
     ci_business_context_state = PROFESSIONAL_CONTEXT_VERIFIED, ci_email_provenance = PROVIDER_VERIFIED_BUSINESS_CONTACT,
     ci_sender_config = sample_sender, ci_acquisition_purpose = KIVOU_ACQUISITION_SIGNAL_RELEVANCE, ci_ch_legal_basis = UNPROVEN,
     ci_suppression_match_state = CLEAR, ci_suppression_key_versions_considered = [''v1''], ci_evidence_refs = [''acquisition-contact:con''],
     ci_ruleset_config_fingerprint = ruleset_fingerprint RULESET_DRAFT, ci_ruleset_legal_review_ref = RULESET_LEGAL_REVIEW_REF,
     ci_ruleset_effective_from = RULESET_EFFECTIVE_FROM, ci_ruleset_valid_until = None, ci_assessed_at = sample_assessed,
     ci_as_of_date = dt_date sample_assessed, ci_compliance_input_fingerprint = zero \<rparr>)"

lemma sample_french_facts:
  "list_all (clean_str 256) [''opp-1'', ''sup'', ''con'', ''art'', RULESET_LEGAL_REVIEW_REF, ''acquisition-supplier:sup:country'',
     ''acquisition-contact:con'', ''sender-1'']" "list_all (clean_str 100) [''v1'', ''sender-compliance-v1'']"
  "is_fingerprint (replicate 64 (CHR ''0''))" "effective_at RULESET_DRAFT sample_assessed" "valid_datetime sample_assessed"
  "is_aware RULESET_EFFECTIVE_FROM"
  by code_simp+

lemma sample_french_ok: "wf_compliance_input sample_french" "ruleset_bound sample_french RULESET_V1"
  "ci_acquisition_purpose sample_french = KIVOU_ACQUISITION_SIGNAL_RELEVANCE" "opt_all is_aware (rs_valid_until RULESET_V1)"
proof -
  have "SenderComplianceConfig sample_sender = Inr sample_sender"
    using sample_french_facts(1,2)
    by (simp add: SenderComplianceConfig_def sample_sender_def sample_sender_draft_def sender_fingerprint_def Let_def opt_all_def clean_str_def)
  then show "wf_compliance_input sample_french"
    using sample_french_facts
    by (simp add: wf_compliance_input_def sample_french_def Let_def clean_refs_def opt_all_def ruleset_fingerprint_def semantic_fingerprint_def
        is_aware_def sample_assessed_def)
qed (simp_all add: ruleset_bound_def sample_french_def RULESET_V1_def RULESET_DRAFT_def Let_def opt_all_def)

lemma sample_french_permitted: "campaign_permitted sample_french RULESET_V1"
  using sample_french_facts(4)
  by (simp add: campaign_permitted_def sample_french_def sender_ready_def sample_sender_def sample_sender_draft_def RULESET_V1_def
      RULESET_DRAFT_def effective_at_def opt_all_def Let_def)

theorem compliance_allowed_iff_witness:
  "\<exists>p. evaluate_compliance sample_french RULESET_V1 = Inr p \<and> cp_state p = ALLOWED \<and> cp_next_action p = Some ''schedule_campaign''"
  using compliance_allowed_iff [OF sample_french_ok(1,3,2,4)] sample_french_permitted by blast

theorem allowed_validity_witness:
  "\<exists>p u. evaluate_compliance sample_french RULESET_V1 = Inr p \<and> cp_valid_until p = Some u \<and> instant_of sample_assessed < instant_of u \<and>
     instant_of u \<le> instant_of sample_assessed + 86400000000"
proof -
  obtain p where p: "evaluate_compliance sample_french RULESET_V1 = Inr p"
    using evaluate_compliance_total [OF sample_french_ok(1,3,2,4)] by blast
  have "cp_state p = ALLOWED" using evaluate_compliance_answer(1) [OF p] sample_french_permitted by simp
  moreover have "ci_assessed_at sample_french = sample_assessed" by (simp add: sample_french_def Let_def)
  ultimately show ?thesis using allowed_validity [OF p] p sample_french_facts(5) by fastforce
qed

end
