(* ===== verification/Suppression.thy ===== *)
theory Suppression
  imports Compliance
begin

text \<open>
  The hard boundary of acquisition e-mail: \<open>compliance/suppression.py\<close> (an address is known by its keyed hash, one for each
  version of the key) and the suppression table of \<open>compliance/store.py\<close>, which is only ever appended to.

  A secret is a byte string, a keyring the association list of its dictionary. The table knows the contacts; each operation
  is given the keyring of its process, so keys may be rotated between any two of them.

  Shown here: an address that was suppressed once is never again clear, whatever is recorded, whatever happens to the contacts
  and whichever keys are in use, and no assessment of it allows a campaign; and how long a suppression is to be kept.
\<close>

unbundle bit_operations_syntax

section \<open>HMAC\<close>

definition hex_value :: "char \<Rightarrow> nat" where
  "hex_value c = (let n = of_char c in if n < 58 then n - 48 else n - 87)"

fun unhex :: "string \<Rightarrow> string" where
  "unhex (a # b # s) = char_of (16 * hex_value a + hex_value b) # unhex s"
| "unhex _ = []"

definition hmac_key :: "string \<Rightarrow> string" where
  "hmac_key secret = (let k = (if 64 < length secret then unhex (sha256_hex secret) else secret) in k @ replicate (64 - length k) (char_of (0::nat)))"

definition masked :: "nat \<Rightarrow> string \<Rightarrow> string" where
  "masked m k = map (\<lambda>c. char_of ((of_char c :: nat) XOR m)) k"

definition hmac_sha256 :: "string \<Rightarrow> string \<Rightarrow> string" where
  \<comment> \<open>\<open>hmac.new(secret, message, hashlib.sha256).hexdigest()\<close>\<close>
  "hmac_sha256 secret message =
     sha256_hex (masked 92 (hmac_key secret) @ unhex (sha256_hex (masked 54 (hmac_key secret) @ message)))"

section \<open>Identities\<close>

datatype suppression_scope = KIVOU_ACQUISITION_EMAIL | MILOMAIL_ACQUISITION_EMAIL
datatype suppression_source = UNSUBSCRIBE | RECIPIENT_OBJECTION | MANUAL_VERIFIED | SYSTEM_IMPORT
datatype suppression_reason = UNSUBSCRIBED | RECIPIENT_OBJECTED | MANUAL_DO_NOT_CONTACT | IMPORTED_SUPPRESSION | IDENTITY_REKEY_PROOF

datatype suppression_error =
    Identity_unavailable
  | Suppression_value_error
  | Contact_not_found
  | Suppression_idempotency_conflict string
  | Suppression_refused

definition identity_domain :: "suppression_scope \<Rightarrow> string" where
  "identity_domain scope = (case scope of
      KIVOU_ACQUISITION_EMAIL \<Rightarrow> ''kivou:acquisition-suppression:v1'' @ [CHR 0x00]
    | MILOMAIL_ACQUISITION_EMAIL \<Rightarrow> ''milomail:acquisition-suppression:v1'' @ [CHR 0x00])"

definition plain_part :: "string \<Rightarrow> bool" where
  "plain_part s \<longleftrightarrow> s \<noteq> [] \<and> list_all (\<lambda>c. \<not> is_space c \<and> c \<noteq> CHR ''@'') s"

definition email_shape :: "string \<Rightarrow> bool" where
  \<comment> \<open>one at sign, and behind it a dot with something on both sides\<close>
  "email_shape s = (let local_part = takeWhile (\<lambda>c. c \<noteq> CHR ''@'') s; host = drop (Suc (length local_part)) s
     in plain_part local_part \<and> plain_part host \<and> CHR ''.'' \<in> set (butlast (tl host)))"

definition normalize_business_email :: "string \<Rightarrow> (suppression_error, string) result" where
  "normalize_business_email value =
     (let normalized = py_casefold (py_strip value)
      in if normalized = [] \<or> 320 < length normalized \<or> \<not> email_shape normalized then Inl Identity_unavailable else Inr normalized)"

record suppression_keyring =
  sk_current_key_version :: string
  sk_keys :: "(string \<times> string) list"

definition wf_keyring :: "suppression_keyring \<Rightarrow> bool" where
  "wf_keyring k \<longleftrightarrow> distinct (map fst (sk_keys k)) \<and> sk_current_key_version k \<noteq> [] \<and>
     sk_current_key_version k \<in> set (map fst (sk_keys k)) \<and> length (sk_keys k) \<le> 8 \<and>
     list_all (\<lambda>(version, secret). version \<noteq> [] \<and> length version \<le> 64 \<and> 8 \<le> length secret) (sk_keys k)"

definition identities_for_email ::
  "suppression_keyring \<Rightarrow> suppression_scope \<Rightarrow> string \<Rightarrow> (suppression_error, (string \<times> string) list) result" where
  "identities_for_email k scope email =
     rmap (\<lambda>normalized. map (\<lambda>(version, secret). (version, hmac_sha256 secret (identity_domain scope @ utf8 normalized)))
       (sort_key fst (sk_keys k))) (normalize_business_email email)"

definition require_versions_covered :: "suppression_keyring \<Rightarrow> string list \<Rightarrow> (suppression_error, unit) result" where
  "require_versions_covered k versions = ensure (set versions \<subseteq> set (map fst (sk_keys k))) Identity_unavailable"

definition suppression_evidence_ref :: "string \<Rightarrow> string \<Rightarrow> (suppression_error, string) result" where
  "suppression_evidence_ref source_kind durable_identity =
     (if py_strip source_kind = [] \<or> 64 < length source_kind \<or> py_strip durable_identity = [] \<or> 256 < length durable_identity
      then Inl Suppression_value_error
      else Inr (''suppression-evidence:'' @ sha256_hex (''kivou:acquisition-suppression-evidence:v1'' @ [CHR 0x00] @
        utf8 (py_strip source_kind) @ [CHR 0x00] @ utf8 (py_strip durable_identity))))"

definition minimum_retention_until :: "datetime \<Rightarrow> datetime" where
  \<comment> \<open>three years on; the 29th of February becomes the 28th\<close>
  "minimum_retention_until received_at =
     (let d = dt_date received_at; shifted = d\<lparr> d_year := d_year d + 3 \<rparr>
      in received_at\<lparr> dt_date := if valid_date shifted then shifted else shifted\<lparr> d_day := 28 \<rparr> \<rparr>)"

section \<open>The table\<close>

record contact_row =
  ct_contact_ref :: string
  ct_supplier_ref :: string
  ct_business_email :: string
  ct_verification_state :: string
  ct_verification_provider :: string
  ct_provider_email_status :: string
  ct_source_fingerprint :: string
  ct_role_profile_version :: string
  ct_role_tier :: int

record suppression_row =
  sx_suppression_id :: string
  sx_identity_hmac :: string
  sx_identity_key_version :: string
  sx_scope :: suppression_scope
  sx_source :: suppression_source
  sx_reason_code :: suppression_reason
  sx_evidence_ref :: string
  sx_contact_ref :: "string option"
  sx_supplier_ref :: "string option"
  sx_received_at :: instant
  sx_effective_at :: instant
  sx_minimum_retention_until :: instant
  sx_created_at :: instant


record suppression_db =
  sd_contacts :: "contact_row list"
  sd_suppressions :: "suppression_row list"

definition scope_value :: "suppression_scope \<Rightarrow> string" where
  "scope_value s = (case s of KIVOU_ACQUISITION_EMAIL \<Rightarrow> ''KIVOU_ACQUISITION_EMAIL'' | MILOMAIL_ACQUISITION_EMAIL \<Rightarrow> ''MILOMAIL_ACQUISITION_EMAIL'')"

definition source_value :: "suppression_source \<Rightarrow> string" where
  "source_value s = (case s of UNSUBSCRIBE \<Rightarrow> ''UNSUBSCRIBE'' | RECIPIENT_OBJECTION \<Rightarrow> ''RECIPIENT_OBJECTION''
     | MANUAL_VERIFIED \<Rightarrow> ''MANUAL_VERIFIED'' | SYSTEM_IMPORT \<Rightarrow> ''SYSTEM_IMPORT'')"

definition reason_value :: "suppression_reason \<Rightarrow> string" where
  "reason_value r = (case r of UNSUBSCRIBED \<Rightarrow> ''UNSUBSCRIBED'' | RECIPIENT_OBJECTED \<Rightarrow> ''RECIPIENT_OBJECTED''
     | MANUAL_DO_NOT_CONTACT \<Rightarrow> ''MANUAL_DO_NOT_CONTACT'' | IMPORTED_SUPPRESSION \<Rightarrow> ''IMPORTED_SUPPRESSION''
     | IDENTITY_REKEY_PROOF \<Rightarrow> ''IDENTITY_REKEY_PROOF'')"

definition utc_text :: "datetime \<Rightarrow> json" where "utc_text d = JStr (isoformat (to_utc d))"

definition suppression_values ::
  "suppression_scope \<Rightarrow> string \<Rightarrow> string \<Rightarrow> suppression_source \<Rightarrow> suppression_reason \<Rightarrow> string \<Rightarrow> contact_row option \<Rightarrow> datetime \<Rightarrow> datetime \<Rightarrow>
     suppression_row" where
  \<comment> \<open>the values of a row and the identifier computed from them\<close>
  "suppression_values scope identity version source reason evidence contact received effective = \<lparr>
     sx_suppression_id = sha256_hex (''acquisition-suppression-v1'' @ [CHR 0x00] @ dumps (JObj [
       (''identity_hmac'', JStr identity), (''identity_key_version'', JStr version), (''scope'', JStr (scope_value scope)),
       (''source'', JStr (source_value source)), (''reason_code'', JStr (reason_value reason)), (''evidence_ref'', JStr evidence),
       (''contact_ref'', opt_str (map_option ct_contact_ref contact)), (''supplier_ref'', opt_str (map_option ct_supplier_ref contact)),
       (''received_at'', utc_text received), (''effective_at'', utc_text effective),
       (''minimum_retention_until'', utc_text (minimum_retention_until received)), (''supersedes_suppression_id'', JNull),
       (''created_at'', utc_text received)])),
     sx_identity_hmac = identity, sx_identity_key_version = version, sx_scope = scope, sx_source = source, sx_reason_code = reason,
     sx_evidence_ref = evidence, sx_contact_ref = map_option ct_contact_ref contact, sx_supplier_ref = map_option ct_supplier_ref contact,
     sx_received_at = instant_of received, sx_effective_at = instant_of effective,
     sx_minimum_retention_until = instant_of (minimum_retention_until received), sx_created_at = instant_of received \<rparr>"

definition row_fits :: "suppression_row \<Rightarrow> bool" where
  \<comment> \<open>the columns and the check constraint; the references are those of a stored contact\<close>
  "row_fits r \<longleftrightarrow> varchar_ok 64 (sx_identity_key_version r) \<and> varchar_ok 256 (sx_evidence_ref r) \<and>
     sx_received_at r \<le> sx_minimum_retention_until r"

definition append_suppression ::
  "suppression_db \<Rightarrow> suppression_row \<Rightarrow> (suppression_error, suppression_db \<times> suppression_row) result" where
  "append_suppression db row =
     (if \<not> row_fits row then Inl Suppression_refused
      else case List.find (\<lambda>r. sx_suppression_id r = sx_suppression_id row) (sd_suppressions db) of
        Some r \<Rightarrow> if r \<noteq> row then Inl (Suppression_idempotency_conflict (sx_suppression_id row)) else Inr (db, r)
      | None \<Rightarrow> Inr (db\<lparr> sd_suppressions := sd_suppressions db @ [row] \<rparr>, row))"

definition find_contact :: "suppression_db \<Rightarrow> string \<Rightarrow> contact_row option" where
  "find_contact db ref = List.find (\<lambda>c. ct_contact_ref c = ref) (sd_contacts db)"

definition get_contact :: "suppression_db \<Rightarrow> string \<Rightarrow> (suppression_error, contact_row) result" where
  "get_contact db ref = (case find_contact db ref of None \<Rightarrow> Inl Contact_not_found | Some c \<Rightarrow> Inr c)"

definition evidence_label :: string where "evidence_label = ''suppression-evidence:''"

definition opaque_evidence :: "string \<Rightarrow> bool" where
  "opaque_evidence s \<longleftrightarrow> startswith s evidence_label \<and> is_fingerprint (drop (length evidence_label) s)"

definition record_for_contact ::
  "suppression_keyring \<Rightarrow> suppression_scope \<Rightarrow> suppression_db \<Rightarrow> string \<Rightarrow> suppression_source \<Rightarrow> suppression_reason \<Rightarrow> string \<Rightarrow> datetime \<Rightarrow>
     datetime option \<Rightarrow> string option \<Rightarrow> (suppression_error, suppression_db \<times> suppression_row) result" where
  "record_for_contact k scope db ref source reason evidence received effective key_version =
     (if \<not> is_aware received \<or> \<not> opt_all is_aware effective \<or> \<not> opaque_evidence evidence then Inl Suppression_value_error
      else let version = (case key_version of None \<Rightarrow> sk_current_key_version k | Some v \<Rightarrow> if v = [] then sk_current_key_version k else v)
      in rbind (require_versions_covered k [version]) (\<lambda>_.
         rbind (get_contact db ref) (\<lambda>contact.
         rbind (identities_for_email k scope (ct_business_email contact)) (\<lambda>identities.
         append_suppression db (suppression_values scope (the (map_of identities version)) version source reason evidence (Some contact)
           received (case effective of None \<Rightarrow> received | Some t \<Rightarrow> t))))))"

definition record_for_email ::
  "suppression_keyring \<Rightarrow> suppression_scope \<Rightarrow> suppression_db \<Rightarrow> string \<Rightarrow> suppression_source \<Rightarrow> suppression_reason \<Rightarrow> string \<Rightarrow> datetime \<Rightarrow>
     (suppression_error, suppression_db \<times> suppression_row) result" where
  "record_for_email k scope db email source reason evidence received =
     (if \<not> is_aware received \<or> \<not> (startswith evidence evidence_label \<and> length evidence = length evidence_label + 64)
      then Inl Suppression_value_error
      else rbind (identities_for_email k scope email) (\<lambda>identities.
         append_suppression db (suppression_values scope (the (map_of identities (sk_current_key_version k))) (sk_current_key_version k)
           source reason evidence None received received)))"

record suppression_match =
  sm_state :: suppression_match_state
  sm_key_versions_considered :: "string list"
  sm_suppression_refs :: "string list"

definition SuppressionMatch :: "suppression_match \<Rightarrow> (suppression_error, suppression_match) result" where
  "SuppressionMatch draft =
     (let m = draft\<lparr> sm_key_versions_considered := map py_strip (sm_key_versions_considered draft),
            sm_suppression_refs := map py_strip (sm_suppression_refs draft) \<rparr>
      in if sm_key_versions_considered m \<noteq> [] \<and> length (sm_key_versions_considered m) \<le> 8 \<and>
            list_all (clean_str 100) (sm_key_versions_considered m) \<and> length (sm_suppression_refs m) \<le> 16 \<and>
            list_all (clean_str 256) (sm_suppression_refs m)
         then Inr m else Inl Suppression_value_error)"

definition matching_rows :: "suppression_scope \<Rightarrow> (string \<times> string) list \<Rightarrow> instant option \<Rightarrow> suppression_row list \<Rightarrow> suppression_row list" where
  "matching_rows scope identities until rows =
     filter (\<lambda>r. sx_scope r = scope \<and> (sx_identity_key_version r, sx_identity_hmac r) \<in> set identities \<and>
       (case until of None \<Rightarrow> True | Some t \<Rightarrow> sx_effective_at r \<le> t)) rows"

definition match_contact ::
  "suppression_keyring \<Rightarrow> suppression_scope \<Rightarrow> suppression_db \<Rightarrow> string \<Rightarrow> datetime option \<Rightarrow> (suppression_error, suppression_match) result" where
  "match_contact k scope db ref until =
     rbind (get_contact db ref) (\<lambda>contact.
     rbind (identities_for_email k scope (ct_business_email contact)) (\<lambda>identities.
     let retained = map sx_identity_key_version (filter (\<lambda>r. sx_scope r = scope) (sd_suppressions db));
         versions = sort (map fst (sk_keys k))
     in if \<not> set retained \<subseteq> set versions
        then SuppressionMatch \<lparr> sm_state = COVERAGE_UNSAFE, sm_key_versions_considered = versions,
          sm_suppression_refs = [''suppression-keyring:coverage-unsafe''] \<rparr>
        else if \<not> opt_all is_aware until then Inl Suppression_value_error
        else let matches = sort (map sx_suppression_id (matching_rows scope identities (map_option instant_of until) (sd_suppressions db)))
          in SuppressionMatch \<lparr> sm_state = (if matches \<noteq> [] then MATCHED else CLEAR), sm_key_versions_considered = versions,
               sm_suppression_refs = map (\<lambda>i. ''acquisition-suppression:'' @ i) matches \<rparr>))"

section \<open>The boundary\<close>

text \<open>The table grows by recording, by any process with any keyring; the contacts may change in any way.\<close>

inductive suppression_step :: "suppression_db \<Rightarrow> suppression_db \<Rightarrow> bool" where
  by_contact: "record_for_contact k scope db ref source reason evidence received effective version = Inr (db', row) \<Longrightarrow> suppression_step db db'"
| by_email: "record_for_email k scope db email source reason evidence received = Inr (db', row) \<Longrightarrow> suppression_step db db'"
| contacts: "suppression_step db (db\<lparr> sd_contacts := cs \<rparr>)"

lemma append_suppression_Inr:
  assumes "append_suppression db row = Inr (db', r)"
  shows "r = row" and "row \<in> set (sd_suppressions db')" and "set (sd_suppressions db) \<subseteq> set (sd_suppressions db')"
  using assms by (auto simp: append_suppression_def split: if_split_asm option.split_asm dest: find_Some_set)

lemma suppression_step_grows:
  assumes "suppression_step db db'" shows "set (sd_suppressions db) \<subseteq> set (sd_suppressions db')"
  using assms
proof cases
  case by_contact
  then obtain row r where "append_suppression db row = Inr (db', r)"
    by (auto simp: record_for_contact_def Let_def split: if_split_asm)
  then show ?thesis by (rule append_suppression_Inr)
next
  case by_email
  then obtain row r where "append_suppression db row = Inr (db', r)"
    by (auto simp: record_for_email_def split: if_split_asm)
  then show ?thesis by (rule append_suppression_Inr)
qed simp

lemma suppression_steps_grow: "suppression_step\<^sup>*\<^sup>* db db' \<Longrightarrow> set (sd_suppressions db) \<subseteq> set (sd_suppressions db')"
  by (induction rule: rtranclp_induct) (use suppression_step_grows in auto)

lemma map_of_pairs: "map_of (map (\<lambda>(v, s). (v, f s)) xs) version = map_option f (map_of xs version)"
  by (induction xs) auto

lemma map_of_identities:
  assumes "identities_for_email k scope email = Inr ids" and "normalize_business_email email = Inr n" and "wf_keyring k"
  shows "map_of ids version = map_option (\<lambda>secret. hmac_sha256 secret (identity_domain scope @ utf8 n)) (map_of (sk_keys k) version)"
    and "set ids = (\<lambda>(v, secret). (v, hmac_sha256 secret (identity_domain scope @ utf8 n))) ` set (sk_keys k)"
proof -
  have ids: "ids = map (\<lambda>(v, secret). (v, hmac_sha256 secret (identity_domain scope @ utf8 n))) (sort_key fst (sk_keys k))"
    using assms(1,2) by (simp add: identities_for_email_def)
  have "map_of (sort_key fst (sk_keys k)) = map_of (sk_keys k)"
    using assms(3) by (intro map_of_inject_set [THEN iffD2]) (simp_all add: wf_keyring_def distinct_map)
  then show "map_of ids version = map_option (\<lambda>secret. hmac_sha256 secret (identity_domain scope @ utf8 n)) (map_of (sk_keys k) version)"
    by (simp add: ids map_of_pairs)
  show "set ids = (\<lambda>(v, secret). (v, hmac_sha256 secret (identity_domain scope @ utf8 n))) ` set (sk_keys k)"
    by (simp add: ids)
qed

text \<open>What a recording leaves in the table, for the address it is about.\<close>

definition suppressed_as :: "suppression_scope \<Rightarrow> string \<Rightarrow> string \<Rightarrow> string \<Rightarrow> suppression_db \<Rightarrow> bool" where
  "suppressed_as scope version secret n db \<longleftrightarrow> (\<exists>r \<in> set (sd_suppressions db). sx_scope r = scope \<and> sx_identity_key_version r = version \<and>
     sx_identity_hmac r = hmac_sha256 secret (identity_domain scope @ utf8 n))"

lemma suppressed_as_kept: "suppressed_as scope version secret n db \<Longrightarrow> suppression_step\<^sup>*\<^sup>* db db' \<Longrightarrow> suppressed_as scope version secret n db'"
  unfolding suppressed_as_def using suppression_steps_grow by blast

lemma suppression_values_sel [simp]:
  "sx_scope (suppression_values scope i v s r e c t u) = scope" "sx_identity_key_version (suppression_values scope i v s r e c t u) = v"
  "sx_identity_hmac (suppression_values scope i v s r e c t u) = i" "sx_effective_at (suppression_values scope i v s r e c t u) = instant_of u"
  by (simp_all add: suppression_values_def)

lemma appended_suppressed:
  assumes "append_suppression db (suppression_values scope (the (map_of ids version)) version s r e c t u) = Inr (db', row)"
    and "identities_for_email k scope email = Inr ids" and "normalize_business_email email = Inr n" and "wf_keyring k"
    and "map_of (sk_keys k) version = Some secret"
  shows "suppressed_as scope version secret n db'"
  unfolding suppressed_as_def
  by (rule bexI [OF _ append_suppression_Inr(2) [OF assms(1)]]) (simp add: map_of_identities(1) [OF assms(2-4)] assms(5))

lemma email_suppressed:
  assumes "record_for_email k scope db email source reason evidence received = Inr (db', row)" and "wf_keyring k"
    and "normalize_business_email email = Inr n"
  obtains secret where "map_of (sk_keys k) (sk_current_key_version k) = Some secret"
    "suppressed_as scope (sk_current_key_version k) secret n db'"
proof -
  obtain secret where secret: "map_of (sk_keys k) (sk_current_key_version k) = Some secret"
    using assms(2) by (auto simp: wf_keyring_def map_of_eq_Some_iff)
  obtain ids where "identities_for_email k scope email = Inr ids"
    "append_suppression db (suppression_values scope (the (map_of ids (sk_current_key_version k))) (sk_current_key_version k)
      source reason evidence None received received) = Inr (db', row)"
    using assms(1) by (auto simp: record_for_email_def split: if_split_asm)
  then show thesis using appended_suppressed [OF _ _ assms(3,2) secret] that [OF secret] by blast
qed

lemma contact_suppressed:
  assumes "record_for_contact k scope db ref source reason evidence received effective version = Inr (db', row)" and "wf_keyring k"
    and "find_contact db ref = Some c" and "normalize_business_email (ct_business_email c) = Inr n"
  obtains v secret where "map_of (sk_keys k) v = Some secret" "suppressed_as scope v secret n db'"
proof -
  define v where "v = (case version of None \<Rightarrow> sk_current_key_version k | Some v \<Rightarrow> if v = [] then sk_current_key_version k else v)"
  obtain ids where "v \<in> set (map fst (sk_keys k))" "identities_for_email k scope (ct_business_email c) = Inr ids"
    "append_suppression db (suppression_values scope (the (map_of ids v)) v source reason evidence (Some c) received
      (case effective of None \<Rightarrow> received | Some t \<Rightarrow> t)) = Inr (db', row)"
    using assms(1,3)
    by (auto simp: record_for_contact_def Let_def v_def [symmetric] require_versions_covered_def get_contact_def split: if_split_asm)
  moreover obtain secret where secret: "map_of (sk_keys k) v = Some secret"
    using calculation(1) by (metis map_of_eq_None_iff not_None_eq list.set_map)
  ultimately show thesis using appended_suppressed [OF _ _ assms(4,2) secret] that [OF secret] by blast
qed

text \<open>A suppressed address is not clear, unless its version of the key is known under another secret.\<close>

lemma sort_eq_Nil: "sort xs = [] \<longleftrightarrow> xs = []"
  by (metis length_0_conv length_sort)

lemma suppressed_not_clear:
  assumes "suppressed_as scope version secret n db" and "find_contact db ref = Some c"
    and "normalize_business_email (ct_business_email c) = Inr n" and "wf_keyring k"
    and "map_of (sk_keys k) version \<in> {None, Some secret}" and "match_contact k scope db ref None = Inr m"
  shows "sm_state m = (if set (map sx_identity_key_version (filter (\<lambda>r. sx_scope r = scope) (sd_suppressions db))) \<subseteq> set (map fst (sk_keys k))
     then MATCHED else COVERAGE_UNSAFE)"
proof -
  obtain ids where ids: "identities_for_email k scope (ct_business_email c) = Inr ids"
    using assms(3) by (simp add: identities_for_email_def)
  obtain r where r: "r \<in> set (sd_suppressions db)" "sx_scope r = scope" "sx_identity_key_version r = version"
      "sx_identity_hmac r = hmac_sha256 secret (identity_domain scope @ utf8 n)"
    using assms(1) by (auto simp: suppressed_as_def)
  show ?thesis
  proof (cases "set (map sx_identity_key_version (filter (\<lambda>r. sx_scope r = scope) (sd_suppressions db))) \<subseteq> set (map fst (sk_keys k))")
    case True
    then have "version \<in> set (map fst (sk_keys k))" using r by auto
    then have "map_of (sk_keys k) version = Some secret"
      using assms(5) by (auto simp: map_of_eq_None_iff)
    then have "(version, hmac_sha256 secret (identity_domain scope @ utf8 n)) \<in> set ids"
      unfolding map_of_identities(2) [OF ids assms(3,4)] by (auto dest: map_of_SomeD)
    then have "r \<in> set (matching_rows scope ids None (sd_suppressions db))" using r by (simp add: matching_rows_def)
    then have "matching_rows scope ids None (sd_suppressions db) \<noteq> []" by auto
    then show ?thesis
      using True assms(2,6) ids
      by (auto simp: match_contact_def get_contact_def Let_def SuppressionMatch_def opt_all_def sort_eq_Nil split: if_split_asm)
  next
    case False
    then show ?thesis
      using assms(2,6) ids
      by (auto simp: match_contact_def get_contact_def Let_def SuppressionMatch_def split: if_split_asm)
  qed
qed

lemma not_clear_not_allowed:
  assumes "ci_suppression_match_state v \<noteq> CLEAR" and "evaluate_compliance v c = Inr p"
  shows "cp_state p \<in> {BLOCKED, COMPLIANCE_UNKNOWN}" and "cp_next_action p = None"
  using evaluate_compliance_Inr(1) [OF assms(2)] assms(1)
  by (cases "ci_suppression_match_state v"; auto simp: compliance_verdict_def Let_def)+


text \<open>How long a row is kept at least: the three years never fall short of 1,095 days.\<close>

lemma days_before_year_Suc: "days_before_year (Suc y) = int y * 365 + int y div 4 - int y div 100 + int y div 400"
  by (simp add: days_before_year_def Let_def)

lemma leap_years_step:
  "days_before_year (Suc (Suc z)) = days_before_year (Suc z) + 365 + (if is_leap (Suc z) then 1 else 0)"
proof -
  have step: "int (Suc z) div int k = int z div int k + (if Suc z mod k = 0 then 1 else 0)" for k
    unfolding zdiv_int [symmetric] by (simp add: div_Suc)
  have "Suc z mod 400 = 0 \<Longrightarrow> Suc z mod 100 = 0" "Suc z mod 100 = 0 \<Longrightarrow> Suc z mod 4 = 0"
    by (auto simp: mod_eq_0_iff_dvd intro: dvd_trans [of 100 400] dvd_trans [of 4 100])
  then have "(if is_leap (Suc z) then 1 else 0::int) = (if Suc z mod 4 = 0 then 1 else 0) - (if Suc z mod 100 = 0 then 1 else 0) +
      (if Suc z mod 400 = 0 then 1 else 0)"
    unfolding is_leap_def by (cases "Suc z mod 4 = 0"; cases "Suc z mod 100 = 0"; cases "Suc z mod 400 = 0") (simp_all only: simp_thms if_True if_False)
  moreover have "int (Suc z) * 365 = int z * 365 + 365" by simp
  ultimately show ?thesis
    using step [of 4] step [of 100] step [of 400] unfolding days_before_year_Suc of_nat_numeral by linarith
qed

lemma days_before_month_leap:
  "1 \<le> m \<Longrightarrow> days_before_month y m = days_before_month 1 m + (if is_leap y \<and> 2 < m then 1 else 0)"
proof (induction m rule: dec_induct)
  case (step m)
  then show ?case by (auto simp: days_before_month_def days_in_month_def is_leap_def)
qed (simp add: days_before_month_def)

lemma three_years:
  assumes "valid_date d" and "d_year d + 3 \<le> 9999" and u: "u = d\<lparr> d_year := d_year d + 3 \<rparr>"
  shows "ordinal_of d + 1095 \<le> ordinal_of (if valid_date u then u else u\<lparr> d_day := 28 \<rparr>)"
proof -
  obtain z where y: "d_year d = Suc z" using assms(1) by (cases "d_year d") (auto simp: valid_date_def)
  have years: "days_before_year (d_year u) = days_before_year (d_year d) + 1095 + (if is_leap (Suc z) then 1 else 0) +
      (if is_leap (Suc (Suc z)) then 1 else 0) + (if is_leap (Suc (Suc (Suc z))) then 1 else 0)"
    using leap_years_step [of z] leap_years_step [of "Suc z"] leap_years_step [of "Suc (Suc z)"]
    by (simp add: u y eval_nat_numeral)
  have months: "days_before_month (d_year e) (d_month d) = days_before_month 1 (d_month d) + (if is_leap (d_year e) \<and> 2 < d_month d then 1 else 0)" for e
    using assms(1) by (intro days_before_month_leap) (simp add: valid_date_def)
  note both = months [of d] months [of u]
  show ?thesis
  proof (cases "valid_date u")
    case True
    then show ?thesis using years both by (simp add: ordinal_of_def u y)
  next
    case False
    then have "d_month d = 2" "d_day d = 29" "is_leap (Suc z)"
      using assms by (auto simp: valid_date_def days_in_month_def y split: if_split_asm)
    then show ?thesis using False years both by (simp add: ordinal_of_def u y)
  qed
qed

lemma retention_days:
  assumes "valid_datetime t" and "d_year (dt_date t) + 3 \<le> 9999"
  shows "instant_of t + 1095 * day_micros \<le> instant_of (minimum_retention_until t)"
proof -
  let ?u = "dt_date (minimum_retention_until t)"
  have "ordinal_of (dt_date t) + 1095 \<le> ordinal_of ?u"
    using three_years [OF _ assms(2) refl] assms(1) by (simp add: valid_datetime_def minimum_retention_until_def Let_def)
  then have "(ordinal_of (dt_date t) + 1095) * day_micros \<le> ordinal_of ?u * day_micros" by (rule mult_right_mono) simp
  then show ?thesis
    by (simp add: instant_of_def local_micros_def time_micros_def minimum_retention_until_def Let_def)
qed

text \<open>Up to sixteen rows the question is answered.\<close>

lemma match_contact_answers:
  assumes "find_contact db ref = Some c" and "identities_for_email k scope (ct_business_email c) = Inr ids"
    and "sk_keys k \<noteq> []" and "length (sk_keys k) \<le> 8" and "list_all (clean_str 100) (map fst (sk_keys k))"
    and "length (matching_rows scope ids None (sd_suppressions db)) \<le> 16" and "\<forall>r \<in> set (sd_suppressions db). is_fingerprint (sx_suppression_id r)"
  shows "\<exists>m. match_contact k scope db ref None = Inr m"
proof -
  let ?ids = "sort (map sx_suppression_id (matching_rows scope ids None (sd_suppressions db)))"
  have label: "clean_str 256 (''acquisition-suppression:'' @ i)" if "is_fingerprint i" for i
    using that clean_prefix [of 64 i "''acquisition-suppression:''"] is_fingerprint_strip [OF that]
    by (simp add: clean_str_def is_fingerprint_def is_space_def)
  have refs: "list_all (clean_str 256) (map (\<lambda>i. ''acquisition-suppression:'' @ i) ?ids)"
    using assms(7) by (auto simp only: list_all_iff matching_rows_def set_map set_sort set_filter intro!: label)
  have made: "SuppressionMatch \<lparr> sm_state = st, sm_key_versions_considered = sort (map fst (sk_keys k)), sm_suppression_refs = rs \<rparr> =
      Inr \<lparr> sm_state = st, sm_key_versions_considered = sort (map fst (sk_keys k)), sm_suppression_refs = rs \<rparr>"
    if "list_all (clean_str 256) rs" "length rs \<le> 16" for st rs
  proof -
    have "list_all (clean_str 100) (sort (map fst (sk_keys k)))" using assms(5) by (simp add: list_all_iff)
    then show ?thesis
      using that assms(3,4) clean_strs_strip [OF that(1)] clean_strs_strip [of 100 "sort (map fst (sk_keys k))"]
      by (simp add: SuppressionMatch_def sort_eq_Nil)
  qed
  have "list_all (clean_str 256) [''suppression-keyring:coverage-unsafe'']" by code_simp
  from made [OF this] made [OF refs] show ?thesis
    using assms(1,2,6) by (simp only: match_contact_def get_contact_def option.case rbind.simps Let_def length_map length_sort
        list.size option.map(1) opt_all_def if_False if_True simp_thms) (simp split: if_split)
qed

text \<open>Seventeen rows on one address are more references than an answer may carry: the question raises.\<close>

lemma many_matches_raise:
  assumes "get_contact db ref = Inr c" and "identities_for_email k scope (ct_business_email c) = Inr ids"
    and "set (map sx_identity_key_version (filter (\<lambda>r. sx_scope r = scope) (sd_suppressions db))) \<subseteq> set (map fst (sk_keys k))"
    and "16 < length (matching_rows scope ids None (sd_suppressions db))"
  shows "match_contact k scope db ref None = Inl Suppression_value_error"
  using assms by (simp add: match_contact_def Let_def SuppressionMatch_def opt_all_def)

section \<open>A sample objection\<close>

definition sample_keyring :: suppression_keyring where
  "sample_keyring = \<lparr> sk_current_key_version = ''v1'', sk_keys = [(''v1'', ''secret-1'')] \<rparr>"

definition sample_rotated :: suppression_keyring where
  "sample_rotated = \<lparr> sk_current_key_version = ''v2'', sk_keys = [(''v2'', ''secret-2''), (''v1'', ''secret-1'')] \<rparr>"

definition sample_received :: datetime where
  "sample_received = \<lparr> dt_date = mk_date 2028 2 29, dt_hour = 8, dt_minute = 0, dt_second = 0, dt_micro = 0, dt_offset = Some 0 \<rparr>"

definition sample_person :: contact_row where
  "sample_person = \<lparr> ct_contact_ref = ''con'', ct_supplier_ref = ''sup'', ct_business_email = ''Anna@Example.org'',
     ct_verification_state = ''PROVIDER_VERIFIED'', ct_verification_provider = ''apollo'', ct_provider_email_status = ''verified'',
     ct_source_fingerprint = replicate 64 (CHR ''0''), ct_role_profile_version = ''v1'', ct_role_tier = 1 \<rparr>"

definition sample_evidence :: string where "sample_evidence = evidence_label @ replicate 64 (CHR ''0'')"

lemma sample_objection_facts:
  "wf_keyring sample_keyring" "wf_keyring sample_rotated"
  "normalize_business_email '' anna@example.org'' = Inr ''anna@example.org''"
  "normalize_business_email (ct_business_email sample_person) = Inr ''anna@example.org''"
  "is_aware sample_received" "startswith sample_evidence evidence_label" "length sample_evidence = length evidence_label + 64"
  "varchar_ok 64 ''v1''" "varchar_ok 256 sample_evidence" "instant_of sample_received \<le> instant_of (minimum_retention_until sample_received)"
  "list_all (clean_str 100) [''v1'', ''v2'']"
  by code_simp+


end
