(* ===== verification/DecisionService.thy ===== *)
theory DecisionService
  imports DecisionEngine PolicyGateway
begin

text \<open>
  The service that decides an opportunity: \<open>decision_engine/service.py\<close> and the evaluation table of
  \<open>decision_engine/store.py\<close>. It loads what is known, proposes (\<open>DecisionEngine\<close>), asks the gateway for authority
  (\<open>PolicyGateway\<close>) and commits, in a second transaction that locks the opportunity and proposes again,
  either the decision with its audit row or the audit row of a blocked proposal.

  The state joins the gateway with the tables of companies, suppliers and contacts, the public context that
  the register tables resolve to, and the evaluation table. A row of that table is the validated write it is made of;
  its further columns are copies of fields of the input. Reads before the commit may see any state, also a different
  one for each table: they are arguments. Between the answer of the gateway and the commit other processes change the state by
  \<open>later\<close>. Shown here: what a commit does, that the joint state keeps every audit row
  backed by its authority and its event, and that a run only takes the steps of that system.
\<close>

section \<open>State\<close>

record company_profile =
  ap_acquisition_opportunity_id :: string
  ap_signal_ref :: string
  ap_supplier_ref :: string
  ap_contact_ref :: string
  ap_prebuild_version :: string
  ap_prebuild_fingerprint :: string
  ap_size_band_version :: string
  ap_supplier_identity_status :: supplier_identity_status
  ap_contact_role_profile_version :: string
  ap_contact_role_tier :: int
  ap_research_completeness :: string
  ap_research_gaps :: "string list"
  ap_size_band :: string

record supplier_row =
  sp_supplier_ref :: string
  sp_identity_status :: supplier_identity_status

record contact_binding =
  cb_contact_ref :: string
  cb_supplier_ref :: string
  cb_verification_state :: string
  cb_verification_provider :: string
  cb_provider_email_status :: string
  cb_role_profile_version :: string
  cb_role_tier :: int

datatype published = Published_on date | Published_at datetime

record public_facts =
  pf_opportunity_key :: string
  pf_representative_award_key :: string
  pf_source_event_key :: string
  pf_award_date :: "date option"
  pf_contract_notification_date :: "date option"
  pf_published_at :: "published option"
  pf_public_evidence_refs :: "string list"

datatype disposition = RECORDED | POLICY_BLOCKED

record decision_write =
  dw_decision_evaluation_id :: string
  dw_acquisition_opportunity_id :: string
  dw_policy_evaluation_id :: string
  dw_decision_input :: decision_input
  dw_proposal :: decision_proposal
  dw_policy_status :: policy_status
  dw_policy_counterfactual_status :: "policy_status option"
  dw_expected_post_policy_version :: int
  dw_disposition :: disposition
  dw_recorded_event_id :: "string option"
  dw_created_at :: instant

record decision_db =
  ds_gateway :: gateway_db
  ds_profiles :: "company_profile list"
  ds_suppliers :: "supplier_row list"
  ds_contacts :: "contact_binding list"
  ds_public :: "string \<Rightarrow> public_facts option"
  ds_evaluations :: "decision_write list"

datatype service_error =
    Decision_not_actionable
  | Company_profile_missing
  | Input_version_unsupported
  | Binding_conflict
  | Public_context_not_resolvable
  | Fresh_attempt_required string
  | Evaluation_idempotency_conflict string
  | Input_changed
  | Row_not_found
  | Evaluation_not_durable
  | Clock_not_aware
  | Invalid_contract decision_error
  | Gateway_failed gateway_error
  | Store_failed acq_error
  | Control_failed policy_error
  | Table_refused

abbreviation journal :: "decision_db \<Rightarrow> acq_db" where
  "journal s \<equiv> sys_db (g_system (ds_gateway s))"

section \<open>Loading\<close>

definition PREBUILD_VERSION :: string where "PREBUILD_VERSION = ''acquisition-prospect-prebuild-v1''"
definition SIZE_BAND_VERSION :: string where "SIZE_BAND_VERSION = ''company-size-v1''"

definition require_actionable :: "opportunity \<Rightarrow> (service_error, unit) result" where
  "require_actionable p = ensure (opp_state p = READY_FOR_DECISION \<and> opp_next_action p = Some ''evaluate_opportunity'' \<and>
     opp_supplier_ref p \<noteq> None \<and> opp_contact_ref p \<noteq> None) Decision_not_actionable"

definition require_bindings ::
  "opportunity \<Rightarrow> supplier_row \<Rightarrow> contact_binding \<Rightarrow> company_profile \<Rightarrow> (service_error, unit) result" where
  "require_bindings p supplier contact profile =
     (if ap_prebuild_version profile \<noteq> PREBUILD_VERSION \<or> ap_size_band_version profile \<noteq> SIZE_BAND_VERSION
      then Inl Input_version_unsupported
      else ensure (ap_acquisition_opportunity_id profile = opp_acquisition_opportunity_id p \<and>
         Some (ap_supplier_ref profile) = opp_supplier_ref p \<and> opp_supplier_ref p = Some (sp_supplier_ref supplier) \<and>
         Some (ap_contact_ref profile) = opp_contact_ref p \<and> opp_contact_ref p = Some (cb_contact_ref contact) \<and>
         ap_signal_ref profile = opp_signal_ref p \<and> cb_supplier_ref contact = sp_supplier_ref supplier \<and>
         cb_verification_state contact = ''PROVIDER_VERIFIED'' \<and> cb_verification_provider contact = ''apollo'' \<and>
         cb_provider_email_status contact = ''verified'') Binding_conflict)"

definition opportunity_key_of :: "string \<Rightarrow> (service_error, string) result" where
  "opportunity_key_of signal_ref =
     (let label = ''procurement-opportunity:''
      in if \<not> startswith signal_ref label \<or> drop (length label) signal_ref = [] then Inl Public_context_not_resolvable
         else Inr (drop (length label) signal_ref))"

definition found :: "'e \<Rightarrow> 'a option \<Rightarrow> ('e, 'a) result" where
  "found e v = (case v of None \<Rightarrow> Inl e | Some x \<Rightarrow> Inr x)"

definition load_inputs ::
  "decision_db \<Rightarrow> opportunity \<Rightarrow> (service_error, supplier_row \<times> contact_binding \<times> company_profile \<times> public_facts) result" where
  \<comment> \<open>the opportunity was read already; the references are there once it is actionable\<close>
  "load_inputs s p =
     rbind (require_actionable p) (\<lambda>_.
     rbind (found Company_profile_missing
       (List.find (\<lambda>r. ap_acquisition_opportunity_id r = opp_acquisition_opportunity_id p) (ds_profiles s))) (\<lambda>profile.
     rbind (found Row_not_found (List.find (\<lambda>r. Some (sp_supplier_ref r) = opp_supplier_ref p) (ds_suppliers s))) (\<lambda>supplier.
     rbind (found Row_not_found (List.find (\<lambda>r. Some (cb_contact_ref r) = opp_contact_ref p) (ds_contacts s))) (\<lambda>contact.
     rbind (require_bindings p supplier contact profile) (\<lambda>_.
     rbind (opportunity_key_of (opp_signal_ref p)) (\<lambda>key.
     rmap (\<lambda>public. (supplier, contact, profile, public)) (found Public_context_not_resolvable (ds_public s key))))))))"

definition publication_date :: "published option \<Rightarrow> (service_error, date option) result" where
  "publication_date v = (case v of
      None \<Rightarrow> Inr None
    | Some (Published_on d) \<Rightarrow> Inr (Some d)
    | Some (Published_at t) \<Rightarrow> if is_aware t then Inr (Some (dt_date (to_utc t))) else Inl Public_context_not_resolvable)"

definition contract :: "(decision_error, 'a) result \<Rightarrow> (service_error, 'a) result" where
  "contract r = (case r of Inl e \<Rightarrow> Inl (Invalid_contract e) | Inr x \<Rightarrow> Inr x)"

definition build_input ::
  "opportunity \<Rightarrow> supplier_row \<times> contact_binding \<times> company_profile \<times> public_facts \<Rightarrow> date \<Rightarrow> (service_error, decision_input) result" where
  "build_input p loaded as_of_date =
     (case loaded of (supplier, contact, profile, public) \<Rightarrow>
      rbind (publication_date (pf_published_at public)) (\<lambda>publication.
      rbind (contract (build_public_decision_context \<lparr> pu_opportunity_key = pf_opportunity_key public,
        pu_representative_award_key = pf_representative_award_key public, pu_source_event_key = pf_source_event_key public,
        pu_award_date = pf_award_date public, pu_contract_notification_date = pf_contract_notification_date public,
        pu_publication_date = publication, pu_public_evidence_refs = pf_public_evidence_refs public,
        pu_public_context_fingerprint = [] \<rparr>)) (\<lambda>context.
      contract (build_acquisition_decision_input \<lparr> su_acquisition_opportunity_id = opp_acquisition_opportunity_id p,
        su_signal_ref = opp_signal_ref p, su_supplier_ref = sp_supplier_ref supplier, su_contact_ref = cb_contact_ref contact,
        su_company_prebuild_version = ap_prebuild_version profile, su_company_prebuild_fingerprint = ap_prebuild_fingerprint profile,
        su_size_band_version = ap_size_band_version profile,
        su_profile_supplier_identity_status = ap_supplier_identity_status profile,
        su_current_supplier_identity_status = sp_identity_status supplier,
        su_profile_contact_role_profile_version = ap_contact_role_profile_version profile,
        su_profile_contact_role_tier = ap_contact_role_tier profile,
        su_current_contact_role_profile_version = cb_role_profile_version contact, su_current_contact_role_tier = cb_role_tier contact,
        su_current_contact_verification_state = cb_verification_state contact,
        su_current_contact_verification_provider = cb_verification_provider contact,
        su_current_contact_provider_email_status = cb_provider_email_status contact,
        su_research_completeness = ap_research_completeness profile, su_research_gaps = ap_research_gaps profile,
        su_size_band = ap_size_band profile \<rparr> context as_of_date DECISION_POLICY_V1))))"

definition propose_decision :: "decision_db \<Rightarrow> opportunity \<Rightarrow> date \<Rightarrow> (service_error, decision_input \<times> decision_proposal) result" where
  \<comment> \<open>load, build and evaluate, as both transactions do\<close>
  "propose_decision s p as_of_date =
     rbind (load_inputs s p) (\<lambda>loaded.
     rbind (build_input p loaded as_of_date) (\<lambda>i.
     rmap (Pair i) (contract (evaluate_decision i DECISION_POLICY_V1))))"

section \<open>The request to the gateway\<close>

definition policy_action_fingerprint :: "string \<Rightarrow> string \<Rightarrow> string \<Rightarrow> string \<Rightarrow> string" where
  "policy_action_fingerprint oid supplier_ref contact_ref proposal_fingerprint = semantic_fingerprint [
     (''fingerprint_kind'', JStr ''decision-policy-action-v1''), (''command'', JStr ''evaluate_opportunity''),
     (''acquisition_opportunity_id'', JStr oid), (''supplier_ref'', JStr supplier_ref), (''contact_ref'', JStr contact_ref),
     (''proposal_fingerprint'', JStr proposal_fingerprint)]"

record decision_authorization =
  az_evaluation_id :: string
  az_request_id :: string
  az_actor_type :: string
  az_actor_ref :: "string option"
  az_qa_signal_ref :: "string option"
  az_scope :: scope
  az_currency :: string
  az_evidence :: evidence_readiness
  az_compliance :: compliance_assessment
  az_operational :: operational_readiness
  az_expected_policy_version :: string
  az_approval_grants :: "approval_grant list"
  az_supervisor_plan_id :: "string option"
  az_supervisor_action_index :: "int option"
  az_supervisor_version :: "string option"
  az_skill_version :: "string option"

definition decision_request ::
  "decision_authorization \<Rightarrow> string \<Rightarrow> int \<Rightarrow> decision_input \<Rightarrow> decision_proposal \<Rightarrow> string \<Rightarrow> policy_request" where
  "decision_request a oid version i p action_fingerprint = \<lparr>
     rq_evaluation_id = az_evaluation_id a, rq_request_id = az_request_id a, rq_command = ''evaluate_opportunity'',
     rq_target_ref = ''acquisition-opportunity:'' @ oid, rq_acquisition_opportunity_id = Some oid,
     rq_qa_signal_ref = az_qa_signal_ref a, rq_expected_opportunity_version = Some version,
     rq_actor_type = az_actor_type a, rq_actor_ref = az_actor_ref a,
     rq_canonical_arguments = dumps (JObj [(''decision_input_fingerprint'', JStr (in_decision_input_fingerprint i)),
       (''proposal_fingerprint'', JStr (dp_proposal_fingerprint p)), (''supplier_ref'', JStr (su_supplier_ref i)),
       (''contact_ref'', JStr (su_contact_ref i))]),
     rq_action_fingerprint = action_fingerprint, rq_scope = az_scope a, rq_proposed_cost = 0, rq_currency = az_currency a,
     rq_proposed_volume = 0, rq_reason_codes = dp_reason_codes p, rq_evidence_refs = dp_evidence_refs p,
     rq_evidence = az_evidence a, rq_compliance = az_compliance a, rq_operational = az_operational a,
     rq_expected_policy_version = az_expected_policy_version a, rq_approval_grants = az_approval_grants a,
     rq_supervisor_plan_id = az_supervisor_plan_id a, rq_supervisor_action_index = az_supervisor_action_index a,
     rq_supervisor_version = az_supervisor_version a, rq_skill_version = az_skill_version a \<rparr>"

section \<open>The evaluation table\<close>

definition decision_evaluation_id :: "string \<Rightarrow> string" where
  "decision_evaluation_id policy_evaluation_id = sha256_hex (''decision-evaluation-v1'' @ [CHR 0x00] @ policy_evaluation_id)"

definition wf_write :: "decision_write \<Rightarrow> bool" where
  "wf_write w \<longleftrightarrow> clean_str 256 (dw_acquisition_opportunity_id w) \<and> clean_str 256 (dw_policy_evaluation_id w) \<and>
     2 \<le> dw_expected_post_policy_version w \<and> clean_opt 256 (dw_recorded_event_id w) \<and>
     (dw_recorded_event_id w \<noteq> None \<longleftrightarrow> dw_disposition w = RECORDED)"

definition audit_write ::
  "decision_input \<Rightarrow> decision_proposal \<Rightarrow> policy_decision \<Rightarrow> int \<Rightarrow> disposition \<Rightarrow> string option \<Rightarrow> instant \<Rightarrow> decision_write" where
  "audit_write i p d version disposition event_id created_at = \<lparr>
     dw_decision_evaluation_id = decision_evaluation_id (pd_evaluation_id d),
     dw_acquisition_opportunity_id = su_acquisition_opportunity_id i, dw_policy_evaluation_id = pd_evaluation_id d,
     dw_decision_input = i, dw_proposal = p, dw_policy_status = pd_status d,
     dw_policy_counterfactual_status = pd_counterfactual_status d, dw_expected_post_policy_version = version,
     dw_disposition = disposition, dw_recorded_event_id = event_id, dw_created_at = created_at \<rparr>"

definition decision_of_policy :: "decision_db \<Rightarrow> string \<Rightarrow> decision_write option" where
  "decision_of_policy s eid = List.find (\<lambda>w. dw_policy_evaluation_id w = eid) (ds_evaluations s)"

definition write_conflicts :: "decision_write \<Rightarrow> decision_write \<Rightarrow> bool" where
  \<comment> \<open>the primary key and the two unique columns\<close>
  "write_conflicts w r \<longleftrightarrow> dw_decision_evaluation_id r = dw_decision_evaluation_id w \<or>
     dw_policy_evaluation_id r = dw_policy_evaluation_id w \<or>
     (dw_recorded_event_id w \<noteq> None \<and> dw_recorded_event_id r = dw_recorded_event_id w)"

definition write_columns_ok :: "decision_write \<Rightarrow> bool" where
  \<comment> \<open>the other text columns hold fixed values, fingerprints and codes\<close>
  "write_columns_ok w \<longleftrightarrow>
     varchar_ok 64 (dw_acquisition_opportunity_id w) \<and> varchar_ok 64 (dw_policy_evaluation_id w) \<and>
     list_all (varchar_ok 64) (opt_list (dw_recorded_event_id w)) \<and>
     varchar_ok 256 (in_representative_award_key (dw_decision_input w)) \<and> dw_expected_post_policy_version w < 2 ^ 31"

definition write_references_ok :: "decision_db \<Rightarrow> decision_write \<Rightarrow> bool" where
  \<comment> \<open>the foreign keys; the check constraints repeat the contracts of the write, the input and the proposal\<close>
  "write_references_ok s w \<longleftrightarrow>
     opportunity_row (journal s) (dw_acquisition_opportunity_id w) \<noteq> None \<and>
     evaluation_of (ds_gateway s) (dw_policy_evaluation_id w) \<noteq> None \<and>
     list_all (\<lambda>i. list_ex (\<lambda>e. ev_event_id e = i) (db_events (journal s))) (opt_list (dw_recorded_event_id w))"

definition append_decision :: "decision_db \<Rightarrow> decision_write \<Rightarrow> (service_error, decision_db \<times> decision_write) result" where
  "append_decision s w =
     (if \<not> wf_write w then Inl (Invalid_contract Decision_contract_error)
      else if \<not> write_columns_ok w then Inl Table_refused
      else if list_ex (write_conflicts w) (ds_evaluations s)
      then (case decision_of_policy s (dw_policy_evaluation_id w) of
          None \<Rightarrow> if list_ex (\<lambda>r. dw_decision_evaluation_id r = dw_decision_evaluation_id w) (ds_evaluations s)
            then Inl (Evaluation_idempotency_conflict (dw_decision_evaluation_id w)) else Inl Evaluation_not_durable
        | Some row \<Rightarrow> if row \<noteq> w then Inl (Evaluation_idempotency_conflict (dw_policy_evaluation_id w)) else Inr (s, row))
      else if \<not> write_references_ok s w then Inl Table_refused
      else Inr (s\<lparr> ds_evaluations := ds_evaluations s @ [w] \<rparr>, w))"

section \<open>The two commits\<close>

definition decision_key :: "string \<Rightarrow> string" where
  "decision_key evaluation_id = ''decision_recorded:'' @ evaluation_id"

definition decision_args :: "decision_proposal \<Rightarrow> policy_decision \<Rightarrow> int \<Rightarrow> datetime \<Rightarrow> append_args" where
  "decision_args p d version created_at = \<lparr>
     aa_event_type = DECISION_RECORDED, aa_expected_version = version, aa_idempotency_key = decision_key (pd_evaluation_id d),
     aa_payload = decision_payload p, aa_actor_type = SYSTEM, aa_actor_ref = Some ''kivou-decision-engine'',
     aa_reason_codes = dp_reason_codes p, aa_evidence_refs = dp_evidence_refs p,
     aa_policy_version = Some (pd_policy_version d), aa_skill_version = Some ''decision-policy-v1'',
     aa_supervisor_version = None, aa_confidence = None, aa_estimated_cost = None, aa_correlation_id = None,
     aa_causation_id = Some (pd_evaluation_id d), aa_occurred_at = Some created_at \<rparr>"

text \<open>The errors that \<open>_commit_recorded\<close> turns into \<open>DecisionInputChanged\<close>.\<close>

definition as_input_changed :: "service_error \<Rightarrow> service_error" where
  "as_input_changed e = (if e \<in> {Store_failed OpportunityConcurrencyConflict, Decision_not_actionable, Company_profile_missing,
     Input_version_unsupported, Binding_conflict, Public_context_not_resolvable, Row_not_found, Store_failed NoResultFound}
     then Input_changed else e)"

definition store :: "(acq_error, 'a) result \<Rightarrow> (service_error, 'a) result" where
  "store r = (case r of Inl e \<Rightarrow> Inl (Store_failed e) | Inr x \<Rightarrow> Inr x)"

definition set_acquisition :: "acq_db \<Rightarrow> decision_db \<Rightarrow> decision_db" where
  "set_acquisition db s = s\<lparr> ds_gateway := set_journal db (ds_gateway s) \<rparr>"

definition record_proposal ::
  "store_env \<Rightarrow> decision_db \<Rightarrow> string \<Rightarrow> decision_input \<Rightarrow> decision_proposal \<Rightarrow> policy_decision \<Rightarrow> int \<Rightarrow> date \<Rightarrow> datetime \<Rightarrow>
     (service_error, decision_db \<times> decision_write) result" where
  \<comment> \<open>the body of \<open>_commit_recorded\<close>\<close>
  "record_proposal env s oid i p d version as_of_date created_at =
     rbind (store (get_opportunity (journal s) oid)) (\<lambda>current.
     if opp_stream_version current \<noteq> version then Inl (Store_failed OpportunityConcurrencyConflict)
     else rbind (propose_decision s current as_of_date) (\<lambda>(rebuilt, reproposal).
     if in_decision_input_fingerprint rebuilt \<noteq> in_decision_input_fingerprint i \<or>
        dp_proposal_fingerprint reproposal \<noteq> dp_proposal_fingerprint p
     then Inl Input_changed
     else rbind (store (append_event env (journal s) oid (decision_args p d version created_at))) (\<lambda>(db, mutation).
     append_decision (set_acquisition db s)
       (audit_write rebuilt reproposal d version RECORDED (Some (ev_event_id (mr_event mutation))) (instant_of created_at)))))"

definition commit_recorded ::
  "store_env \<Rightarrow> decision_db \<Rightarrow> string \<Rightarrow> decision_input \<Rightarrow> decision_proposal \<Rightarrow> policy_decision \<Rightarrow> int \<Rightarrow> date \<Rightarrow> datetime \<Rightarrow>
     (service_error, decision_db \<times> decision_write) result" where
  "commit_recorded env s oid i p d version as_of_date created_at =
     (case record_proposal env s oid i p d version as_of_date created_at of
        Inl e \<Rightarrow> Inl (as_input_changed e) | Inr r \<Rightarrow> Inr r)"

definition commit_policy_blocked ::
  "decision_db \<Rightarrow> decision_input \<Rightarrow> decision_proposal \<Rightarrow> policy_decision \<Rightarrow> int \<Rightarrow> datetime \<Rightarrow> (service_error, decision_db \<times> decision_write) result" where
  "commit_policy_blocked s i p d version created_at =
     (case evaluation_of (ds_gateway s) (pd_evaluation_id d) of
        None \<Rightarrow> Inl (Evaluation_idempotency_conflict (pd_evaluation_id d))
      | Some row \<Rightarrow>
          (let r = pe_decision row
           in if pd_request_id r = pd_request_id d \<and> pd_acquisition_opportunity_id r = Some (su_acquisition_opportunity_id i) \<and>
                pd_command r = ''evaluate_opportunity'' \<and>
                pd_target_ref r = ''acquisition-opportunity:'' @ su_acquisition_opportunity_id i \<and>
                pd_action_fingerprint r = pd_action_fingerprint d \<and> pd_status r = pd_status d \<and>
                pd_counterfactual_status r = pd_counterfactual_status d \<and> \<not> pd_executable r
              then append_decision s (audit_write i p d version POLICY_BLOCKED None (instant_of created_at))
              else Inl (Evaluation_idempotency_conflict (pd_evaluation_id d))))"

section \<open>The run\<close>

text \<open>
  The hashes of an evaluation: the pair of the gateway, and those the service tries for rows written in the older encoding, one for
  each precision of the used budget.
\<close>

record fingerprinting =
  fx_pair :: "policy_request \<Rightarrow> policy_snapshot \<Rightarrow> budget_usage \<Rightarrow> datetime \<Rightarrow> string \<times> string"
  fx_legacy :: "policy_request \<Rightarrow> policy_snapshot \<Rightarrow> budget_usage \<Rightarrow> datetime \<Rightarrow> string list"

record service_result =
  svr_decision :: policy_decision
  svr_audit :: decision_write
  svr_proposal :: decision_proposal

definition control_of :: "(policy_error, 'a) result \<Rightarrow> (service_error, 'a) result" where
  "control_of r = (case r of Inl e \<Rightarrow> Inl (Control_failed e) | Inr x \<Rightarrow> Inr x)"

definition require_existing_binding ::
  "fingerprinting \<Rightarrow> decision_db \<Rightarrow> decision_write \<Rightarrow> string \<Rightarrow> decision_authorization \<Rightarrow> (service_error, unit) result" where
  "require_existing_binding fx s audit oid a =
     (let conflict = Evaluation_idempotency_conflict (az_evaluation_id a);
          i = dw_decision_input audit; p = dw_proposal audit; controls = g_controls (ds_gateway s);
          expected_action = policy_action_fingerprint (dw_acquisition_opportunity_id audit) (su_supplier_ref i) (su_contact_ref i)
            (dp_proposal_fingerprint p)
      in case evaluation_of (ds_gateway s) (az_evaluation_id a) of
           None \<Rightarrow> Inl conflict
         | Some row \<Rightarrow>
             if dw_acquisition_opportunity_id audit \<noteq> oid then Inl conflict
             else (let d = decision_from_row row
               in rbind (control_of (get_control controls (pd_policy_snapshot_id d))) (\<lambda>control.
                  let cost_used = dec_sub (pc_daily_cost_cap control) (pd_cost_remaining d);
                      volume_used = pc_daily_volume_cap control - pd_volume_remaining d;
                      usage = \<lparr> bu_cost_used = cost_used, bu_volume_used = volume_used \<rparr>;
                      request = decision_request a oid (dw_expected_post_policy_version audit - 1) i p expected_action;
                      evaluated_at = of_local (pd_evaluated_at d) (Some 0)
                  in if cost_used < 0 \<or> volume_used < 0 then Inl conflict
                     else rbind (control_of (gateway_snapshot controls request evaluated_at usage (Some (pd_policy_snapshot_id d)))) (\<lambda>snapshot.
                       ensure (pe_semantic_fingerprint row = fst (fx_pair fx request snapshot usage evaluated_at) \<or>
                         pe_semantic_fingerprint row \<in> set (fx_legacy fx request snapshot usage evaluated_at)) conflict))))"

definition existing_result ::
  "fingerprinting \<Rightarrow> decision_db \<Rightarrow> decision_write \<Rightarrow> string \<Rightarrow> decision_authorization \<Rightarrow> (service_error, service_result) result" where
  "existing_result fx s audit oid a =
     rbind (require_existing_binding fx s audit oid a) (\<lambda>_.
     rmap (\<lambda>row. \<lparr> svr_decision = decision_from_row row, svr_audit = audit, svr_proposal = dw_proposal audit \<rparr>)
       (found Row_not_found (evaluation_of (ds_gateway s) (az_evaluation_id a))))"

record service_views =
  sv_lookup :: decision_db \<comment> \<open>the two first lookups\<close>
  sv_loaded :: decision_db \<comment> \<open>the inputs\<close>
  sv_prepared :: gateway_db \<comment> \<open>\<open>prepare\<close> of the gateway\<close>
  sv_read :: gateway_db \<comment> \<open>the first lookup of its recording\<close>
  sv_after :: decision_db \<comment> \<open>the lookup after a lost race\<close>

definition finish ::
  "decision_db \<Rightarrow> policy_decision \<Rightarrow> decision_proposal \<Rightarrow> (service_error, decision_db \<times> decision_write) result \<Rightarrow>
     decision_db \<times> (service_error, service_result) result" where
  \<comment> \<open>a transaction that raises leaves the state it found\<close>
  "finish s d p r = (case r of
      Inl e \<Rightarrow> (s, Inl e)
    | Inr (s', audit) \<Rightarrow> (s', Inr \<lparr> svr_decision = d, svr_audit = audit, svr_proposal = p \<rparr>))"

definition conclude ::
  "fingerprinting \<Rightarrow> store_env \<Rightarrow> decision_db \<Rightarrow> decision_db \<Rightarrow> string \<Rightarrow> decision_authorization \<Rightarrow> decision_input \<Rightarrow> decision_proposal \<Rightarrow>
     policy_decision \<Rightarrow> int \<Rightarrow> datetime \<Rightarrow> decision_db \<times> (service_error, service_result) result" where
  \<comment> \<open>the second half of \<open>evaluate\<close>, once the gateway has answered\<close>
  "conclude fx env after s oid a i p d version at_utc =
     (if \<not> pd_executable d then finish s d p (commit_policy_blocked s i p d version at_utc)
      else (case commit_recorded env s oid i p d version (dt_date at_utc) at_utc of
          Inl Input_changed \<Rightarrow>
            (case decision_of_policy after (az_evaluation_id a) of
               None \<Rightarrow> (s, Inl Input_changed)
             | Some concurrent \<Rightarrow> (s, existing_result fx after concurrent oid a))
        | r \<Rightarrow> finish s d p r))"

definition evaluate ::
  "fingerprinting \<Rightarrow> store_env \<Rightarrow> store_env \<Rightarrow> service_views \<Rightarrow> (decision_db \<Rightarrow> decision_db) \<Rightarrow> decision_db \<Rightarrow> string \<Rightarrow>
     decision_authorization \<Rightarrow> budget_usage \<Rightarrow> datetime \<Rightarrow> decision_db \<times> (service_error, service_result) result" where
  \<comment> \<open>the references of the opportunity are those of the supplier and the contact by \<open>require_bindings\<close>\<close>
  "evaluate fx audit_env env v later s oid a usage clock =
     (case decision_of_policy (sv_lookup v) (az_evaluation_id a) of
        Some existing \<Rightarrow> (s, existing_result fx (sv_lookup v) existing oid a)
      | None \<Rightarrow>
          if evaluation_of (ds_gateway (sv_lookup v)) (az_evaluation_id a) \<noteq> None then (s, Inl (Fresh_attempt_required (az_evaluation_id a)))
          else if \<not> is_aware clock then (s, Inl Clock_not_aware)
          else (let at_utc = to_utc clock
            in case rbind (store (get_opportunity (journal (sv_loaded v)) oid)) (\<lambda>opportunity.
                 rmap (Pair opportunity) (propose_decision (sv_loaded v) opportunity (dt_date at_utc))) of
                 Inl e \<Rightarrow> (s, Inl e)
               | Inr (opportunity, i, p) \<Rightarrow>
                   (let action_fingerprint = policy_action_fingerprint oid (the (opp_supplier_ref opportunity))
                          (the (opp_contact_ref opportunity)) (dp_proposal_fingerprint p)
                    in case evaluate_and_record (fx_pair fx) audit_env (sv_prepared v) (sv_read v) (ds_gateway s)
                         (decision_request a oid (opp_stream_version opportunity) i p action_fingerprint) at_utc usage None (Dec False 0 0) of
                         Inl e \<Rightarrow> (s, Inl (Gateway_failed e))
                       | Inr (g, d) \<Rightarrow>
                           conclude fx env (sv_after v) (later (s\<lparr> ds_gateway := g \<rparr>)) oid a i p d (opp_stream_version opportunity + 1) at_utc)))"

section \<open>The joint system\<close>

text \<open>
  The steps that change the state: those of the gateway, changes of the tables the service only reads, and the two commits.
  A commit follows an answer of the gateway, which is in its table by then.
\<close>

inductive service_step :: "decision_db \<Rightarrow> decision_db \<Rightarrow> bool" where
  gateway: "gateway_step (ds_gateway s) g \<Longrightarrow> service_step s (s\<lparr> ds_gateway := g \<rparr>)"
| reference: "service_step s (s\<lparr> ds_profiles := profiles, ds_suppliers := suppliers, ds_contacts := contacts, ds_public := public \<rparr>)"
| recorded: "evaluation_of (ds_gateway s) (pd_evaluation_id d) = Some row \<Longrightarrow> pd_executable (pe_decision row) \<Longrightarrow>
    clean_str 64 (pd_evaluation_id d) \<Longrightarrow>
    commit_recorded env s oid i p d version as_of_date created_at = Inr (s', w) \<Longrightarrow> service_step s s'"
| blocked: "evaluate_decision i DECISION_POLICY_V1 = Inr p \<Longrightarrow>
    commit_policy_blocked s i p d version created_at = Inr (s', w) \<Longrightarrow> service_step s s'"

section \<open>What a commit does\<close>

lemma append_decision_Inr:
  assumes "append_decision s w = Inr (s', r)"
  shows "r = w" and "wf_write w" and "(s' = s \<and> w \<in> set (ds_evaluations s)) \<or>
    (s' = s\<lparr> ds_evaluations := ds_evaluations s @ [w] \<rparr> \<and> \<not> list_ex (write_conflicts w) (ds_evaluations s) \<and> write_references_ok s w)"
  using assms
  by (auto simp: append_decision_def decision_of_policy_def split: if_split_asm option.split_asm dest: find_Some_set)

lemma embed_simps [simp]:
  "store (Inr x) = Inr x" "store (Inl e) = Inl (Store_failed e)" "contract (Inr y) = Inr y" "contract (Inl c) = Inl (Invalid_contract c)"
  "found f (Some z) = Inr z" "found f None = Inl f"
  by (simp_all add: store_def contract_def found_def)

lemma contract_Inr [simp]: "contract r = Inr x \<longleftrightarrow> r = Inr x" by (cases r) (simp_all add: contract_def)
lemma store_Inr [simp]: "store r = Inr x \<longleftrightarrow> r = Inr x" by (cases r) (simp_all add: store_def)
lemma found_Inr [simp]: "found e v = Inr x \<longleftrightarrow> v = Some x" by (cases v) (simp_all add: found_def)

lemma commit_recordedE:
  assumes "commit_recorded env s oid i p d version as_of_date created_at = Inr (s', w)"
  obtains current rebuilt reproposal db mutation where
    "get_opportunity (journal s) oid = Inr current" "opp_stream_version current = version"
    "propose_decision s current as_of_date = Inr (rebuilt, reproposal)"
    "in_decision_input_fingerprint rebuilt = in_decision_input_fingerprint i" "dp_proposal_fingerprint reproposal = dp_proposal_fingerprint p"
    "append_event env (journal s) oid (decision_args p d version created_at) = Inr (db, mutation)"
    "w = audit_write rebuilt reproposal d version RECORDED (Some (ev_event_id (mr_event mutation))) (instant_of created_at)"
    "append_decision (set_acquisition db s) w = Inr (s', w)"
proof -
  have run: "record_proposal env s oid i p d version as_of_date created_at = Inr (s', w)"
    using assms by (auto simp: commit_recorded_def split: sum.split_asm)
  obtain current rebuilt reproposal db mutation where step:
    "get_opportunity (journal s) oid = Inr current" "opp_stream_version current = version"
    "propose_decision s current as_of_date = Inr (rebuilt, reproposal)"
    "in_decision_input_fingerprint rebuilt = in_decision_input_fingerprint i" "dp_proposal_fingerprint reproposal = dp_proposal_fingerprint p"
    "append_event env (journal s) oid (decision_args p d version created_at) = Inr (db, mutation)"
    and row: "append_decision (set_acquisition db s) (audit_write rebuilt reproposal d version RECORDED
      (Some (ev_event_id (mr_event mutation))) (instant_of created_at)) = Inr (s', w)"
    using run by (auto simp: record_proposal_def split: if_split_asm)
  show ?thesis using that [OF step] append_decision_Inr(1) [OF row] row by simp
qed

lemma commit_blockedE:
  assumes "commit_policy_blocked s i p d version created_at = Inr (s', w)"
  obtains row where "evaluation_of (ds_gateway s) (pd_evaluation_id d) = Some row" "\<not> pd_executable (pe_decision row)"
    "pd_acquisition_opportunity_id (pe_decision row) = Some (su_acquisition_opportunity_id i)"
    "w = audit_write i p d version POLICY_BLOCKED None (instant_of created_at)" "append_decision s w = Inr (s', w)"
  using assms
  by (auto simp: commit_policy_blocked_def Let_def split: option.split_asm if_split_asm dest: append_decision_Inr(1) intro: that)

lemma built_opportunity:
  "build_acquisition_decision_input x p as_of c = Inr i \<Longrightarrow> su_acquisition_opportunity_id i = py_strip (su_acquisition_opportunity_id x)"
  by (auto simp: build_acquisition_decision_input_def Let_def input_draft_def strip_input_def decision_subject.defs decision_input.defs
      split: prod.split_asm if_split_asm)

lemma proposed:
  assumes "propose_decision s current as_of_date = Inr (i, p)"
  shows "su_acquisition_opportunity_id i = py_strip (opp_acquisition_opportunity_id current)"
    and "require_actionable current = Inr ()" and "evaluate_decision i DECISION_POLICY_V1 = Inr p" and "wf_input i"
  using assms
  by (auto simp: propose_decision_def load_inputs_def build_input_def split: prod.split_asm dest: built_opportunity built_input(1))

lemma stored_opportunity:
  assumes "db_ok db" and "get_opportunity db oid = Inr current"
  shows "opp_acquisition_opportunity_id current = oid" and "py_strip oid = oid"
proof -
  obtain row where row: "opportunity_row db oid = Some row" "current = canon row" "row_ok row"
    using get_opportunity_ok [OF assms] .
  then show "opp_acquisition_opportunity_id current = oid" using opportunity_row_Some [OF row(1)] by simp
  then show "py_strip oid = oid" using row by (auto simp: row_ok_def wf_opportunity_def clean_str_def)
qed

section \<open>What stays\<close>

definition service_grows :: "decision_db \<Rightarrow> decision_db \<Rightarrow> bool" where
  "service_grows s s' \<longleftrightarrow>
     (\<forall>i row. evaluation_of (ds_gateway s) i = Some row \<longrightarrow> evaluation_of (ds_gateway s') i = Some row) \<and>
     set (g_evaluations (ds_gateway s)) \<subseteq> set (g_evaluations (ds_gateway s')) \<and>
     (\<forall>oid. set (event_rows (journal s) oid) \<subseteq> set (event_rows (journal s') oid))"

lemma service_grows_refl [simp]: "service_grows s s" by (simp add: service_grows_def)

lemma service_grows_trans: "service_grows s s' \<Longrightarrow> service_grows s' s'' \<Longrightarrow> service_grows s s''"
  unfolding service_grows_def by (meson subset_trans)

lemma evaluation_of_append:
  "evaluation_of g i = Some row \<Longrightarrow> evaluation_of (g\<lparr> g_evaluations := g_evaluations g @ rows, g_system := y \<rparr>) i = Some row"
  by (simp add: evaluation_of_def find_append)

lemma record_or_same:
  assumes "evaluate_and_record fingerprints env prepared read g request t usage snapshot_id cost = Inr (g', d)"
  shows "(g' = g \<and> ((\<exists>row. evaluation_of prepared (rq_evaluation_id request) = Some row \<and> d = decision_from_row row))) \<or>
    (\<exists>snapshot. record_evaluation env read g request (evaluate_policy request snapshot (instant_of t))
       (fingerprints request snapshot usage t) cost t = Inr (g', d))"
  using assms
  by (auto simp: evaluate_and_record_def Let_def validated_existing_def split: sum.split_asm option.split_asm if_split_asm)

lemma journal_grows_rows: "journal_grows y y' \<Longrightarrow> set (event_rows (sys_db y) oid) \<subseteq> set (event_rows (sys_db y') oid)"
  by (simp add: journal_grows_def)

lemma gateway_step_grows:
  assumes "gateway_step g g'" and "gateway_ok g"
  shows "(\<forall>i row. evaluation_of g i = Some row \<longrightarrow> evaluation_of g' i = Some row) \<and> set (g_evaluations g) \<subseteq> set (g_evaluations g') \<and>
    (\<forall>oid. set (event_rows (sys_db (g_system g)) oid) \<subseteq> set (event_rows (sys_db (g_system g')) oid))"
  using assms
proof (induction rule: gateway_step.induct)
  case (evaluation request fingerprints env prepared read g t usage snapshot_id cost g' d)
  show ?case
  proof (cases "g' = g")
    case False
    then obtain snapshot where rec: "record_evaluation env read g request (evaluate_policy request snapshot (instant_of t))
        (fingerprints request snapshot usage t) cost t = Inr (g', d)"
      using record_or_same [OF evaluation.hyps(2)] by blast
    obtain row y where "g' = g\<lparr> g_evaluations := g_evaluations g @ [row], g_system := y \<rparr>" "journal_grows (g_system g) y"
      using record_effect [OF evaluation.prems evaluation.hyps(1) _ _ rec] False by auto
    then show ?thesis by (simp add: evaluation_of_append journal_grows_rows subset_insertI)
  qed simp
next
  case (acquisition g y)
  then show ?case using journal_grows_rows [OF sys_step_grows] by (simp add: evaluation_of_def)
qed (simp add: evaluation_of_def)

definition backed :: "decision_db \<Rightarrow> decision_write \<Rightarrow> bool" where
  "backed s w \<longleftrightarrow> evaluate_decision (dw_decision_input w) DECISION_POLICY_V1 = Inr (dw_proposal w) \<and>
     (\<exists>row. evaluation_of (ds_gateway s) (dw_policy_evaluation_id w) = Some row \<and>
       pd_executable (pe_decision row) = (dw_disposition w = RECORDED)) \<and>
     (case dw_disposition w of
        RECORDED \<Rightarrow> (\<exists>e \<in> set (event_rows (journal s) (dw_acquisition_opportunity_id w)).
          dw_recorded_event_id w = Some (ev_event_id e) \<and> ev_idempotency_key e = decision_key (dw_policy_evaluation_id w))
      | POLICY_BLOCKED \<Rightarrow> dw_recorded_event_id w = None)"

lemma backed_mono: "service_grows s s' \<Longrightarrow> backed s w \<Longrightarrow> backed s' w"
  unfolding backed_def service_grows_def by (cases "dw_disposition w") (auto; blast)+

lemma all_backed_mono: "service_grows s s' \<Longrightarrow> list_all (backed s) ws \<Longrightarrow> list_all (backed s') ws"
  using backed_mono [of s s'] by (simp add: list_all_iff)

lemma backed_same: "ds_gateway s' = ds_gateway s \<Longrightarrow> backed s' = backed s"
  by (intro ext) (simp add: backed_def split: disposition.split)

definition service_ok :: "decision_db \<Rightarrow> bool" where
  "service_ok s \<longleftrightarrow> gateway_ok (ds_gateway s) \<and> list_all (backed s) (ds_evaluations s) \<and>
     distinct (map dw_policy_evaluation_id (ds_evaluations s)) \<and>
     distinct (concat (map (opt_list \<circ> dw_recorded_event_id) (ds_evaluations s)))"

lemma service_ok_append:
  assumes "service_ok s0" and "gateway_ok (ds_gateway s)" and "ds_evaluations s = ds_evaluations s0" and "service_grows s0 s"
    and "append_decision s w = Inr (s', w)" and "backed s w"
  shows "service_ok s' \<and> service_grows s0 s'"
proof -
  have kept: "list_all (backed s) (ds_evaluations s)"
    using assms(1,3) all_backed_mono [OF assms(4)] by (simp add: service_ok_def)
  from append_decision_Inr(3) [OF assms(5)] show ?thesis
  proof (elim disjE conjE)
    assume "s' = s"
    then show ?thesis using kept assms(1-4) by (simp add: service_ok_def)
  next
    assume s': "s' = s\<lparr> ds_evaluations := ds_evaluations s @ [w] \<rparr>" and new: "\<not> list_ex (write_conflicts w) (ds_evaluations s)"
    have "backed s' = backed s" unfolding s' by (rule backed_same) simp
    moreover have "list_all (backed s) (ds_evaluations s @ [w])" using kept assms(6) by simp
    moreover have "dw_policy_evaluation_id w \<notin> dw_policy_evaluation_id ` set (ds_evaluations s)"
      using new by (auto simp: list_ex_iff write_conflicts_def)
    moreover have "set (opt_list (dw_recorded_event_id w)) \<inter> set (concat (map (opt_list \<circ> dw_recorded_event_id) (ds_evaluations s))) = {}"
      using new by (auto simp: list_ex_iff write_conflicts_def opt_list_def split: option.split_asm)
    moreover have "distinct (opt_list (dw_recorded_event_id w))" by (simp add: opt_list_def split: option.split)
    moreover have "service_grows s0 s'" using assms(4) by (simp add: s' service_grows_def)
    ultimately show ?thesis
      using assms(1-3) by (simp add: s' service_ok_def Int_commute)
  qed
qed

lemma commit_recorded_ok:
  assumes ok: "service_ok s" and row: "evaluation_of (ds_gateway s) (pd_evaluation_id d) = Some row" "pd_executable (pe_decision row)"
    and clean: "clean_str 64 (pd_evaluation_id d)" and run: "commit_recorded env s oid i p d version as_of_date created_at = Inr (s', w)"
  shows "service_ok s' \<and> service_grows s s'"
proof -
  obtain current rebuilt reproposal db mutation where step:
    "get_opportunity (journal s) oid = Inr current" "propose_decision s current as_of_date = Inr (rebuilt, reproposal)"
    "append_event env (journal s) oid (decision_args p d version created_at) = Inr (db, mutation)"
    and w: "w = audit_write rebuilt reproposal d version RECORDED (Some (ev_event_id (mr_event mutation))) (instant_of created_at)"
    and ap: "append_decision (set_acquisition db s) w = Inr (s', w)"
    using run by (rule commit_recordedE)
  have g: "gateway_ok (ds_gateway s)" using ok by (simp add: service_ok_def)
  then have db: "db_ok (journal s)" using reachable_ok by (auto simp: gateway_ok_def sys_ok_def)
  have key: "py_strip (decision_key (pd_evaluation_id d)) = decision_key (pd_evaluation_id d)"
    unfolding decision_key_def by (rule clean_prefix [OF clean]) (simp_all add: is_space_def)
  have grows: "journal_grows (g_system (ds_gateway s)) ((g_system (ds_gateway s))\<lparr> sys_db := db \<rparr>)"
    using append_event_steps [OF step(3)] by (rule sys_steps_grow)
  have event: "round_event (mr_event mutation) \<in> set (event_rows db oid)"
      "ev_idempotency_key (mr_event mutation) = decision_key (pd_evaluation_id d)"
    using append_event_stored [OF db step(3)] key find_Some_set by (fastforce simp: decision_args_def)+
  have oid: "su_acquisition_opportunity_id rebuilt = oid"
    using proposed(1) [OF step(2)] stored_opportunity [OF db step(1)] by simp
  let ?s = "set_acquisition db s"
  have "gateway_ok (ds_gateway ?s)" using gateway_ok_grow [OF g grows] by (simp add: set_acquisition_def set_journal_def)
  moreover have "service_grows s ?s"
    using journal_grows_rows [OF grows] by (simp add: service_grows_def set_acquisition_def set_journal_def evaluation_of_def)
  moreover have "backed ?s w"
    using row proposed(3) [OF step(2)] bexI [OF _ event(1), of "\<lambda>e. ev_event_id (mr_event mutation) = ev_event_id e \<and>
      ev_idempotency_key e = decision_key (pd_evaluation_id d)"] event(2)
    by (simp add: backed_def w audit_write_def oid set_acquisition_def set_journal_def evaluation_of_def)
  ultimately show ?thesis
    using service_ok_append [OF ok _ _ _ ap] by (simp add: set_acquisition_def)
qed

lemma service_step_ok: "service_step s s' \<Longrightarrow> service_ok s \<Longrightarrow> service_ok s' \<and> service_grows s s'"
proof (induction rule: service_step.induct)
  case (gateway s g)
  have "service_grows s (s\<lparr> ds_gateway := g \<rparr>)"
    using gateway_step_grows [OF gateway.hyps] gateway.prems by (simp add: service_grows_def service_ok_def)
  then show ?case
    using gateway_step_ok [OF gateway.hyps] gateway.prems all_backed_mono by (auto simp: service_ok_def)
next
  case (reference s public contacts suppliers profiles)
  let ?s = "s\<lparr> ds_profiles := profiles, ds_suppliers := suppliers, ds_contacts := contacts, ds_public := public \<rparr>"
  have "backed ?s = backed s" by (rule backed_same) simp
  with reference show ?case by (simp add: service_ok_def service_grows_def)
next
  case (recorded s d row env oid i p version as_of_date created_at s' w)
  then show ?case using commit_recorded_ok by blast
next
  case (blocked i p s d version created_at s' w)
  obtain row where row: "evaluation_of (ds_gateway s) (pd_evaluation_id d) = Some row" "\<not> pd_executable (pe_decision row)"
    and w: "w = audit_write i p d version POLICY_BLOCKED None (instant_of created_at)" and ap: "append_decision s w = Inr (s', w)"
    using blocked.hyps(2) by (rule commit_blockedE)
  have "backed s w" using row blocked.hyps(1) by (simp add: backed_def w audit_write_def)
  then show ?case using service_ok_append [OF blocked.prems _ _ _ ap] blocked.prems by (simp add: service_ok_def)
qed

lemma service_steps_ok: "service_step\<^sup>*\<^sup>* s s' \<Longrightarrow> service_ok s \<Longrightarrow> service_ok s' \<and> service_grows s s'"
  by (induction rule: rtranclp_induct) (auto dest: service_step_ok intro: service_grows_trans)

section \<open>The run takes steps of the system\<close>

lemma evaluation_of_member:
  assumes "gateway_ok g" and "row \<in> set (g_evaluations g)" shows "evaluation_of g (pd_evaluation_id (pe_decision row)) = Some row"
proof (cases "evaluation_of g (pd_evaluation_id (pe_decision row))")
  case None
  then show ?thesis using assms(2) by (auto simp: evaluation_of_None)
next
  case (Some r)
  then have "r \<in> set (g_evaluations g)" "pd_evaluation_id (pe_decision r) = pd_evaluation_id (pe_decision row)"
    unfolding evaluation_of_def by (auto dest: find_Some_set)
  then show ?thesis
    using assms Some inj_onD [of "\<lambda>row. pd_evaluation_id (pe_decision row)" "set (g_evaluations g)" r row]
    by (simp add: gateway_ok_def distinct_map)
qed

lemma evaluation_of_earlier:
  assumes "gateway_ok g" and "set (g_evaluations earlier) \<subseteq> set (g_evaluations g)" and "evaluation_of earlier i = Some row"
  shows "evaluation_of g i = Some row" and "pd_evaluation_id (pe_decision row) = i"
proof -
  have "row \<in> set (g_evaluations earlier)" "pd_evaluation_id (pe_decision row) = i"
    using assms(3) unfolding evaluation_of_def by (auto dest: find_Some_set)
  then show "evaluation_of g i = Some row" "pd_evaluation_id (pe_decision row) = i"
    using evaluation_of_member [OF assms(1)] assms(2) by auto
qed

text \<open>What the gateway answers is in its table, under the id of the request, with the same authority.\<close>

lemma answer_stored:
  assumes ok: "gateway_ok g" and run: "evaluate_and_record fingerprints env prepared read g request t usage snapshot_id cost = Inr (g', d)"
    and views: "set (g_evaluations prepared) \<subseteq> set (g_evaluations g)" "set (g_evaluations read) \<subseteq> set (g_evaluations g)"
  shows "pd_evaluation_id d = rq_evaluation_id request \<and>
    (\<exists>row. evaluation_of g' (rq_evaluation_id request) = Some row \<and> pd_executable (pe_decision row) = pd_executable d)"
  using record_or_same [OF run]
proof (elim disjE exE conjE)
  fix row assume "g' = g" "evaluation_of prepared (rq_evaluation_id request) = Some row" "d = decision_from_row row"
  then show ?thesis using evaluation_of_earlier [OF ok views(1)] by (auto simp: decision_from_row_def)
next
  fix snapshot
  let ?d = "evaluate_policy request snapshot (instant_of t)" and ?fps = "fingerprints request snapshot usage t"
  assume rec: "record_evaluation env read g request ?d ?fps cost t = Inr (g', d)"
  show ?thesis
  proof (cases "evaluation_of read (rq_evaluation_id request)")
    case (Some row)
    then have "g' = g \<and> d = decision_from_row row"
      using rec by (auto simp: record_evaluation_def validated_existing_def split: if_split_asm option.split_asm)
    then show ?thesis using evaluation_of_earlier [OF ok views(2) Some] by (auto simp: decision_from_row_def)
  next
    case None
    then obtain inserted g1 where ins: "insert_evaluation_if_absent g ?d (fst ?fps) = Inr (inserted, g1)"
      using rec by (auto simp: record_evaluation_def)
    note run = rec [unfolded record_evaluation_def None option.case ins rbind.simps prod.case]
    show ?thesis
    proof (cases inserted)
      case False
      then have "g1 = g" using insert_evaluation_Inr [OF ins] by simp
      then obtain row where "evaluation_of g (rq_evaluation_id request) = Some row" "g' = g" "d = decision_from_row row"
        using run False by (auto simp: validated_existing_def split: option.split_asm if_split_asm)
      then show ?thesis using evaluation_of_earlier [OF ok subset_refl] by (auto simp: decision_from_row_def)
    next
      case True
      then obtain row where row: "decision_values ?d (fst ?fps) = Some row"
          "g1 = g\<lparr> g_evaluations := g_evaluations g @ [row] \<rparr>" "evaluation_of g (rq_evaluation_id request) = None"
        using insert_evaluation_Inr [OF ins] by auto
      have "d = ?d" "g_evaluations g' = g_evaluations g1"
        using run True by (auto simp: set_journal_def split: option.split_asm sum.split_asm)
      moreover have "pd_evaluation_id (pe_decision row) = rq_evaluation_id request" "pd_executable (pe_decision row) = pd_executable ?d"
        using row(1) by (auto simp: decision_values_def split: if_split_asm)
      ultimately show ?thesis using row(2,3) by (simp add: evaluation_of_def find_append)
    qed
  qed
qed

lemma finish_simps [simp]:
  "fst (finish s d p r) = (case r of Inl e \<Rightarrow> s | Inr (s', w) \<Rightarrow> s')"
  "snd (finish s d p r) = Inr x \<longleftrightarrow> (\<exists>s' w. r = Inr (s', w) \<and> x = \<lparr> svr_decision = d, svr_audit = w, svr_proposal = p \<rparr>)"
  by (auto simp: finish_def split: sum.split prod.split)

text \<open>The audit row that a result carries has the disposition of its policy decision.\<close>

definition consistent :: "service_result \<Rightarrow> bool" where
  "consistent r \<longleftrightarrow> (dw_disposition (svr_audit r) = RECORDED \<longleftrightarrow> pd_executable (svr_decision r))"

lemma existing_consistent:
  assumes "service_ok s" and "decision_of_policy s (az_evaluation_id a) = Some audit" and "existing_result fx s audit oid a = Inr r"
  shows "consistent r"
proof -
  have audit: "audit \<in> set (ds_evaluations s)" "dw_policy_evaluation_id audit = az_evaluation_id a"
    using assms(2) unfolding decision_of_policy_def by (auto dest: find_Some_set)
  then have "backed s audit" using assms(1) by (simp add: service_ok_def list_all_iff)
  then show ?thesis
    using assms(3) audit(2) by (auto simp: existing_result_def backed_def consistent_def decision_from_row_def)
qed

lemma conclude_steps:
  assumes row: "evaluation_of (ds_gateway s) (pd_evaluation_id d) = Some row" "pd_executable (pe_decision row) = pd_executable d"
    and clean: "clean_str 64 (pd_evaluation_id d)" and p: "evaluate_decision i DECISION_POLICY_V1 = Inr p" and after: "service_ok after"
    and run: "conclude fx env after s oid a i p d version at_utc = (s', result)"
  shows "service_step\<^sup>*\<^sup>* s s' \<and> (\<forall>r. result = Inr r \<longrightarrow> consistent r)"
proof (cases "pd_executable d")
  case False
  let ?c = "commit_policy_blocked s i p d version at_utc"
  have out: "s' = fst (finish s d p ?c)" "result = snd (finish s d p ?c)" using run False by (simp_all add: conclude_def prod_eq_iff)
  show ?thesis
  proof (cases ?c)
    case (Inr x)
    obtain s2 w where x: "x = (s2, w)" by force
    have "dw_disposition w = POLICY_BLOCKED" using Inr x by (auto simp: audit_write_def elim!: commit_blockedE)
    moreover have "service_step s s2" using blocked [OF p] Inr x by blast
    ultimately show ?thesis using out Inr x False by (auto simp: consistent_def)
  qed (use out in simp)
next
  case True
  let ?c = "commit_recorded env s oid i p d version (dt_date at_utc) at_utc"
  show ?thesis
  proof (cases ?c)
    case (Inl e)
    then have "s' = s" using run True
      by (auto simp: conclude_def finish_def split: service_error.split_asm option.split_asm)
    moreover have "consistent r" if "result = Inr r" for r
      using run True Inl that existing_consistent [OF after]
      by (auto simp: conclude_def finish_def split: service_error.split_asm option.split_asm)
    ultimately show ?thesis by simp
  next
    case (Inr x)
    obtain s2 w where x: "x = (s2, w)" by force
    have "dw_disposition w = RECORDED" using Inr x by (auto simp: audit_write_def elim!: commit_recordedE)
    moreover have "service_step s s2" using recorded [OF row(1) _ clean] row(2) True Inr x by blast
    moreover have "s' = s2" "result = Inr \<lparr> svr_decision = d, svr_audit = w, svr_proposal = p \<rparr>"
      using run True Inr x by (auto simp: conclude_def finish_def)
    ultimately show ?thesis using True by (auto simp: consistent_def)
  qed
qed

lemma evaluate_steps:
  assumes ok: "service_ok s" and clean: "clean_str 64 (az_evaluation_id a)"
    and views: "service_ok (sv_lookup v)" "service_ok (sv_after v)" "set (g_evaluations (sv_prepared v)) \<subseteq> set (g_evaluations (ds_gateway s))"
      "set (g_evaluations (sv_read v)) \<subseteq> set (g_evaluations (ds_gateway s))"
    and later: "\<And>x. service_step\<^sup>*\<^sup>* x (later x)"
    and run: "evaluate fx audit_env env v later s oid a usage clock = (s', result)"
  shows "service_step\<^sup>*\<^sup>* s s' \<and> (\<forall>r. result = Inr r \<longrightarrow> consistent r)"
proof (cases "decision_of_policy (sv_lookup v) (az_evaluation_id a)")
  case (Some existing)
  then have "s' = s" "result = existing_result fx (sv_lookup v) existing oid a" using run by (simp_all add: evaluate_def)
  then show ?thesis using existing_consistent [OF views(1) Some] by simp
next
  case None
  let ?at = "to_utc clock"
  let ?loaded = "rbind (store (get_opportunity (journal (sv_loaded v)) oid)) (\<lambda>opportunity.
    rmap (Pair opportunity) (propose_decision (sv_loaded v) opportunity (dt_date ?at)))"
  show ?thesis
  proof (cases "evaluation_of (ds_gateway (sv_lookup v)) (az_evaluation_id a) \<noteq> None \<or> \<not> is_aware clock \<or> (\<exists>e. ?loaded = Inl e)")
    case True
    then have "s' = s \<and> (\<forall>r. result \<noteq> Inr r)" using run None by (auto simp: evaluate_def Let_def split: if_split_asm)
    then show ?thesis by simp
  next
    case False
    then obtain opportunity i p where loaded: "?loaded = Inr (opportunity, i, p)" by (cases ?loaded) auto
    then have p: "evaluate_decision i DECISION_POLICY_V1 = Inr p" by (auto dest: proposed(3))
    define request where "request = decision_request a oid (opp_stream_version opportunity) i p
      (policy_action_fingerprint oid (the (opp_supplier_ref opportunity)) (the (opp_contact_ref opportunity)) (dp_proposal_fingerprint p))"
    have id: "rq_evaluation_id request = az_evaluation_id a" by (simp add: request_def decision_request_def)
    define answer where "answer = evaluate_and_record (fx_pair fx) audit_env (sv_prepared v) (sv_read v) (ds_gateway s) request ?at usage None (Dec False 0 0)"
    have run': "(case answer of Inl e \<Rightarrow> (s, Inl (Gateway_failed e))
        | Inr (g, d) \<Rightarrow> conclude fx env (sv_after v) (later (s\<lparr> ds_gateway := g \<rparr>)) oid a i p d (opp_stream_version opportunity + 1) ?at) = (s', result)"
      using run None False loaded unfolding answer_def request_def evaluate_def Let_def by simp
    show ?thesis
    proof (cases answer)
      case (Inl e)
      then show ?thesis using run' by auto
    next
      case (Inr x)
      obtain g d where x: "x = (g, d)" by force
      let ?s1 = "s\<lparr> ds_gateway := g \<rparr>"
      note answered = Inr [unfolded x answer_def]
      have "clean_request request" using clean id by (auto simp: clean_request_def clean_str_def)
      then have "gateway_step (ds_gateway s) g" using answered by (rule evaluation)
      then have step: "service_step s ?s1" by (rule gateway)
      obtain row where row: "evaluation_of g (rq_evaluation_id request) = Some row" "pd_executable (pe_decision row) = pd_executable d"
          "pd_evaluation_id d = rq_evaluation_id request"
        using answer_stored [OF _ answered views(3,4)] ok by (auto simp: service_ok_def)
      have "service_grows ?s1 (later ?s1)"
        using service_steps_ok [OF later] service_step_ok [OF step ok] by blast
      then have "evaluation_of (ds_gateway (later ?s1)) (pd_evaluation_id d) = Some row"
        using row by (simp add: service_grows_def)
      then have "service_step\<^sup>*\<^sup>* (later ?s1) s' \<and> (\<forall>r. result = Inr r \<longrightarrow> consistent r)"
        using conclude_steps [OF _ row(2) _ p views(2)] run' Inr x row(3) id clean by simp
      then show ?thesis using step later [of ?s1] by (meson converse_rtranclp_into_rtranclp rtranclp_trans)
    qed
  qed
qed

section \<open>What a recorded decision changes\<close>

lemma decision_event_effect:
  assumes "reduce_event (Some c) e = Inr n" and "ev_event_type e = DECISION_RECORDED" and "ev_payload e = decision_payload p"
  shows "opp_state n = DECISION_STATES (dp_proposed_decision p) \<and> opp_decision n = Some (dp_proposed_decision p) \<and>
    opp_next_action n = dp_next_action p \<and> opp_reason_codes n = ev_reason_codes e \<and> opp_next_review_at n = None"
proof -
  have "decision_recorded c e = Inr n" using assms(1,2) by (simp add: reduce_Some_Inr)
  then show ?thesis
    by (rule decision_recordedE)
      (auto simp: assms(3) decision_payload_def pget_def phas_def datetime_payload_def json_str_opt_def opt_str_def split: option.split_asm)
qed

lemma decision_draft_event:
  assumes "AcquisitionEvent (event_draft_of env oid n fp (decision_args p d version created_at)) = Inr e"
  shows "ev_event_type e = DECISION_RECORDED" and "ev_payload e = decision_payload p"
    and "ev_reason_codes e = map py_strip (dp_reason_codes p)" and "ev_idempotency_key e = py_strip (decision_key (pd_evaluation_id d))"
proof -
  have keys: "strip_keys (decision_payload p) = decision_payload p"
    by (rule strip_keys_id) (simp_all add: decision_payload_def, code_simp)
  show "ev_event_type e = DECISION_RECORDED" "ev_payload e = decision_payload p"
      "ev_reason_codes e = map py_strip (dp_reason_codes p)" "ev_idempotency_key e = py_strip (decision_key (pd_evaluation_id d))"
    using assms keys
    by (auto simp: AcquisitionEvent_def event_model_Inr strip_event_def event_draft_of_def decision_args_def)
qed

lemma decision_event_version: "reduce_event (Some c) e = Inr n \<Longrightarrow> opp_stream_version n = opp_stream_version c + 1"
  using reduce_frame [of c e n] by (simp add: reduce_Some_Inr stamped_def)

lemma projection_values_fields:
  assumes "projection_values p = Some vals"
  shows "opp_state vals = opp_state p \<and> opp_decision vals = opp_decision p \<and> opp_next_action vals = opp_next_action p \<and>
    opp_reason_codes vals = opp_reason_codes p \<and> opp_stream_version vals = opp_stream_version p"
  using assms by (auto simp: projection_values_def round_opportunity_def split: if_split_asm)

lemma fresh_append_effect:
  assumes ap: "append_event env db oid a = Inr (db', r)"
    and fresh: "List.find (\<lambda>e. ev_idempotency_key e = aa_idempotency_key a) (event_rows db oid) = None"
  obtains current ev new vals where "get_opportunity db oid = Inr current"
    "AcquisitionEvent (event_draft_of env oid (aa_expected_version a + 1) (fingerprint (semantic_input a)) a) = Inr ev"
    "reduce_event (Some current) ev = Inr new" "projection_values new = Some vals" "mr_event r = ev"
    "opportunity_row db' oid = Some (vals\<lparr> opp_acquisition_opportunity_id := oid \<rparr>)"
    "db_events db' = db_events db @ [round_event ev]" "\<forall>x. x \<noteq> oid \<longrightarrow> opportunity_row db' x = opportunity_row db x"
proof -
  obtain pr where read: "append_read env db oid a = Inr pr"
    and run: "(case pr of Replay r \<Rightarrow> Inr (db, r) | Fresh ev nx \<Rightarrow> append_write db oid (aa_expected_version a) ev nx) = Inr (db', r)"
    using ap by (auto simp: append_event_def)
  obtain ev nx where pr: "pr = Fresh ev nx"
    using read fresh by (cases pr) (auto elim!: append_read_Replay)
  note wrote = run [unfolded pr prepared.case]
  obtain current where cur: "get_opportunity db oid = Inr current"
    "AcquisitionEvent (event_draft_of env oid (aa_expected_version a + 1) (fingerprint (semantic_input a)) a) = Inr ev"
    "reduce_event (Some current) ev = Inr nx"
    using read [unfolded pr] by (rule append_read_Fresh)
  obtain row vals where row: "opportunity_row db oid = Some row" "projection_values nx = Some vals"
    and ins: "insert_event (replace_row oid (vals\<lparr> opp_acquisition_opportunity_id := oid \<rparr>) db) ev = Inr db'" and r: "mr_event r = ev"
    using wrote by (auto elim!: append_writeE)
  have db': "db' = (replace_row oid (vals\<lparr> opp_acquisition_opportunity_id := oid \<rparr>) db)\<lparr> db_events := db_events db @ [round_event ev] \<rparr>"
    using ins by (auto simp: insert_event_def event_values_def split: option.split_asm if_split_asm)
  show ?thesis
    using that [OF cur row(2) r] row(1)
      opportunity_row_replace [of "vals\<lparr> opp_acquisition_opportunity_id := oid \<rparr>" oid db] by (simp add: db')
qed

section \<open>Properties\<close>

definition no_decisions :: "decision_db \<Rightarrow> bool" where
  "no_decisions s \<longleftrightarrow> ds_gateway s = empty_gateway \<and> ds_evaluations s = []"

lemma reached_ok:
  assumes "no_decisions s0" and "service_step\<^sup>*\<^sup>* s0 s" shows "service_ok s"
proof -
  have "gateway_ok empty_gateway" by (rule gateway_steps_ok) simp
  then have "service_ok s0" using assms(1) by (simp add: no_decisions_def service_ok_def)
  then show ?thesis using service_steps_ok [OF assms(2)] by blast
qed

text \<open>
  C30. Every decision has its authority and its event. In every state that gateway evaluations, acquisition transactions,
  control changes, changes of the company tables and the two commits reach in any order, each audit row
  holds the engine's own answer on the input it stores; a row that is recorded belongs to a policy evaluation that is
  executable and to an event of the opportunity's journal under the key of that evaluation, a row that is blocked belongs to one
  that is not executable and to no event; and an evaluation or an event belongs to one row only.
\<close>

theorem decisions_backed:
  assumes "no_decisions s0" and "service_step\<^sup>*\<^sup>* s0 s"
  shows "list_all (backed s) (ds_evaluations s) \<and> distinct (map dw_policy_evaluation_id (ds_evaluations s)) \<and>
    distinct (concat (map (opt_list \<circ> dw_recorded_event_id) (ds_evaluations s)))"
  using reached_ok [OF assms] by (simp add: service_ok_def)

text \<open>
  C31. A run is a history of the joint system, and its answer tells its authority. Whatever the reads of a run see of
  earlier states, and whatever other processes do between the answer of the gateway and the commit, the state the run leaves, returning or raising,
  is one that the steps of the joint system reach; and if it returns, its audit row is recorded exactly when the
  policy decision it returns is executable, also when the row is that of an earlier or of a concurrent run.
\<close>

theorem evaluate_is_history:
  assumes "no_decisions s0" and "service_step\<^sup>*\<^sup>* s0 (sv_lookup v)" and "service_step\<^sup>*\<^sup>* s0 s" and "service_step\<^sup>*\<^sup>* s0 (sv_after v)"
    and "set (g_evaluations (sv_prepared v)) \<subseteq> set (g_evaluations (ds_gateway s))"
    and "set (g_evaluations (sv_read v)) \<subseteq> set (g_evaluations (ds_gateway s))"
    and "clean_str 64 (az_evaluation_id a)" and "\<And>x. service_step\<^sup>*\<^sup>* x (later x)"
    and "evaluate fx audit_env env v later s oid a usage clock = (s', result)"
  shows "service_step\<^sup>*\<^sup>* s s' \<and> (\<forall>r. result = Inr r \<longrightarrow> (dw_disposition (svr_audit r) = RECORDED \<longleftrightarrow> pd_executable (svr_decision r)))"
  using evaluate_steps [OF reached_ok [OF assms(1,3)] assms(7) reached_ok [OF assms(1,2)] reached_ok [OF assms(1,4)] assms(5,6,8,9)]
  by (simp add: consistent_def)

text \<open>
  C32. What a recorded decision does. When the commit succeeds for a proposal of the engine and the key of the evaluation is not yet in
  the journal, the opportunity was waiting for a decision at exactly the version the authority was given for; afterwards its journal has one
  more event, which carries the payload of the proposal and to which the audit row refers, its stored projection is one version
  ahead, in the state of the decision with the action and the reasons of the proposal, and every other opportunity, the
  policy evaluations and the controls are unchanged.
\<close>

theorem commit_effect:
  assumes "evaluate_decision i DECISION_POLICY_V1 = Inr p"
    and "commit_recorded env s oid i p d version as_of_date created_at = Inr (s', w)"
    and "List.find (\<lambda>e. ev_idempotency_key e = decision_key (pd_evaluation_id d)) (event_rows (journal s) oid) = None"
  shows "\<exists>current after e. get_opportunity (journal s) oid = Inr current \<and> opp_state current = READY_FOR_DECISION \<and>
    opp_stream_version current = version \<and> opportunity_row (journal s') oid = Some after \<and>
    opp_stream_version after = version + 1 \<and> opp_state after = DECISION_STATES (dp_proposed_decision p) \<and>
    opp_decision after = Some (dp_proposed_decision p) \<and> opp_next_action after = dp_next_action p \<and>
    opp_reason_codes after = dp_reason_codes p \<and> db_events (journal s') = db_events (journal s) @ [e] \<and>
    ev_payload e = decision_payload p \<and> dw_recorded_event_id w = Some (ev_event_id e) \<and> w \<in> set (ds_evaluations s') \<and>
    (\<forall>x. x \<noteq> oid \<longrightarrow> opportunity_row (journal s') x = opportunity_row (journal s) x) \<and>
    g_evaluations (ds_gateway s') = g_evaluations (ds_gateway s) \<and> g_controls (ds_gateway s') = g_controls (ds_gateway s)"
proof -
  obtain current rebuilt reproposal db mutation where step:
    "get_opportunity (journal s) oid = Inr current" "opp_stream_version current = version"
    "propose_decision s current as_of_date = Inr (rebuilt, reproposal)"
    "append_event env (journal s) oid (decision_args p d version created_at) = Inr (db, mutation)"
    and w: "w = audit_write rebuilt reproposal d version RECORDED (Some (ev_event_id (mr_event mutation))) (instant_of created_at)"
    and ap: "append_decision (set_acquisition db s) w = Inr (s', w)"
    using assms(2) by (rule commit_recordedE)
  have fresh: "List.find (\<lambda>e. ev_idempotency_key e = aa_idempotency_key (decision_args p d version created_at)) (event_rows (journal s) oid) = None"
    using assms(3) by (simp add: decision_args_def)
  obtain c ev new vals where effect: "get_opportunity (journal s) oid = Inr c"
    "AcquisitionEvent (event_draft_of env oid (aa_expected_version (decision_args p d version created_at) + 1)
      (fingerprint (semantic_input (decision_args p d version created_at))) (decision_args p d version created_at)) = Inr ev"
    "reduce_event (Some c) ev = Inr new" "projection_values new = Some vals" "mr_event mutation = ev"
    "opportunity_row db oid = Some (vals\<lparr> opp_acquisition_opportunity_id := oid \<rparr>)"
    "db_events db = db_events (journal s) @ [round_event ev]" "\<forall>x. x \<noteq> oid \<longrightarrow> opportunity_row db x = opportunity_row (journal s) x"
    using fresh_append_effect [OF step(4) fresh] .
  have wf: "list_all (clean_str 100) (dp_reason_codes p)"
    using assms(1) by (auto simp: evaluate_decision_def Let_def wf_decision_proposal_def split: sum.split_asm prod.split_asm if_split_asm)
  note event = decision_draft_event [OF effect(2)]
  note changed = decision_event_effect [OF effect(3) event(1,2)] decision_event_version [OF effect(3)] projection_values_fields [OF effect(4)]
  have s': "ds_gateway s' = ds_gateway (set_acquisition db s)" "w \<in> set (ds_evaluations s')"
    using append_decision_Inr(3) [OF ap] by auto
  have "opp_state current = READY_FOR_DECISION"
    using proposed(2) [OF step(3)] by (simp add: require_actionable_def)
  then show ?thesis
    using step(1,2) effect(1,5-8) changed event(2,3) clean_map_strip [OF wf] s'(2)
    by (intro exI [of _ current] exI [of _ "vals\<lparr> opp_acquisition_opportunity_id := oid \<rparr>"] exI [of _ "round_event ev"])
      (simp add: s'(1) set_acquisition_def set_journal_def w audit_write_def)
qed

section \<open>A sample company\<close>

definition sample_waiting :: opportunity where
  "sample_waiting = \<lparr> opp_acquisition_opportunity_id = ''opp-1'', opp_identity_key = ''id'', opp_state = READY_FOR_DECISION,
     opp_stream_version = 7, opp_state_machine_version = STATE_MACHINE_VERSION, opp_signal_ref = ''procurement-opportunity:key'',
     opp_supplier_ref = Some ''sup'', opp_contact_ref = Some ''con'', opp_campaign_ref = None, opp_decision = None,
     opp_reason_codes = [], opp_confidence = None, opp_evidence_refs = [], opp_next_action = Some ''evaluate_opportunity'',
     opp_next_review_at = None, opp_retry_count = 0, opp_retry_at = None, opp_last_error_category = None,
     opp_policy_version = None, opp_skill_version = None, opp_supervisor_version = None, opp_estimated_cost = None,
     opp_last_event_id = ''event-1'', opp_created_at = 100, opp_updated_at = 200 \<rparr>"

definition sample_company :: company_profile where
  "sample_company = \<lparr> ap_acquisition_opportunity_id = ''opp-1'', ap_signal_ref = ''procurement-opportunity:key'', ap_supplier_ref = ''sup'',
     ap_contact_ref = ''con'', ap_prebuild_version = PREBUILD_VERSION, ap_prebuild_fingerprint = replicate 64 (CHR ''0''),
     ap_size_band_version = SIZE_BAND_VERSION, ap_supplier_identity_status = SIRENE_IDENTIFIED,
     ap_contact_role_profile_version = ''v1'', ap_contact_role_tier = 1, ap_research_completeness = ''LIMITED'',
     ap_research_gaps = [''GAP''], ap_size_band = ''SMB'' \<rparr>"

definition sample_supplier :: supplier_row where
  "sample_supplier = \<lparr> sp_supplier_ref = ''sup'', sp_identity_status = SIRENE_IDENTIFIED \<rparr>"

definition sample_contact :: contact_binding where
  "sample_contact = \<lparr> cb_contact_ref = ''con'', cb_supplier_ref = ''sup'', cb_verification_state = ''PROVIDER_VERIFIED'',
     cb_verification_provider = ''apollo'', cb_provider_email_status = ''verified'', cb_role_profile_version = ''v1'', cb_role_tier = 2 \<rparr>"

definition sample_facts :: public_facts where
  "sample_facts = \<lparr> pf_opportunity_key = ''key'', pf_representative_award_key = ''award'', pf_source_event_key = ''event'',
     pf_award_date = None, pf_contract_notification_date = Some (date_of_ordinal 739900), pf_published_at = None,
     pf_public_evidence_refs = [''ref''] \<rparr>"

definition sample_start :: decision_db where
  "sample_start = \<lparr> ds_gateway = empty_gateway, ds_profiles = [sample_company], ds_suppliers = [sample_supplier],
     ds_contacts = [sample_contact], ds_public = (\<lambda>k. if k = ''key'' then Some sample_facts else None), ds_evaluations = [] \<rparr>"

definition sample_authority :: policy_decision where
  "sample_authority = sample_answer\<lparr> pd_status := APPROVED, pd_executable := True \<rparr>"

definition sample_service :: decision_db where
  "sample_service = sample_start\<lparr> ds_gateway := \<lparr>
     g_system = \<lparr> sys_db = \<lparr> db_opportunities = [sample_waiting], db_events = [] \<rparr>, sys_pending = [] \<rparr>, g_controls = [],
     g_evaluations = [\<lparr> pe_decision = sample_authority, pe_semantic_fingerprint = ''f'' \<rparr>] \<rparr> \<rparr>"

definition sample_proposal :: decision_proposal where
  \<comment> \<open>but for its fingerprints\<close>
  "sample_proposal = \<lparr> dp_proposed_decision = D_SEND, dp_reason_codes = [''SIGNAL_WITHIN_ACQUISITION_WINDOW'', ''SUPPLIER_IDENTITY_ACCEPTABLE'',
       ''VERIFIED_COMMERCIAL_CONTACT'', ''ACQUISITION_PREBUILD_AVAILABLE'', ''RECENCY_NOTIFICATION_FALLBACK''],
     dp_evidence_refs = [''contract-award:award'', ''source-event:event'', ''acquisition-company-profile:opp-1'', ''acquisition-supplier:sup'',
       ''acquisition-contact:con''],
     dp_next_action = Some ''prepare_campaign'', dp_decision_input_fingerprint = [], dp_proposal_fingerprint = [] \<rparr>"

lemma service_clean: "list_all (clean_str 100) [''opp-1'', ''procurement-opportunity:key'', ''sup'', ''con'', ''v1'', ''GAP'', ''key'', ''award'',
    ''event'', ''ref'', PREBUILD_VERSION, SIZE_BAND_VERSION]"
  by code_simp

lemma sample_loaded:
  "load_inputs sample_service sample_waiting = Inr (sample_supplier, sample_contact, sample_company, sample_facts)"
  "get_opportunity (journal sample_service) ''opp-1'' = Inr sample_waiting"
  by code_simp+

lemma sample_input_built:
  "\<exists>i. build_input sample_waiting (sample_supplier, sample_contact, sample_company, sample_facts) sample_today = Inr i \<and>
     in_decision_policy_config_fingerprint i = dc_config_fingerprint DECISION_POLICY_V1 \<and> evidence_of i = dp_evidence_refs sample_proposal \<and>
     outcome i DECISION_POLICY_V1 = Inr (D_SEND, dp_reason_codes sample_proposal, Some ''prepare_campaign'') \<and> wf_input i \<and>
     in_representative_award_key i = ''award''"
proof -
  have zero: "is_fingerprint (replicate 64 (CHR ''0''))" by code_simp
  have fp: "is_fingerprint (dc_config_fingerprint DECISION_POLICY_V1)" "is_fingerprint (semantic_fingerprint v)" for v
    by (simp_all add: DECISION_POLICY_V1_def decision_policy_config_fingerprint_def semantic_fingerprint_def)
  have cleaned: "py_strip s = s \<and> clean_str 256 s \<and> clean_str 100 s"
    if "s \<in> {''opp-1'', ''procurement-opportunity:key'', ''sup'', ''con'', ''v1'', ''GAP'', ''key'', ''award'', ''event'', ''ref'',
        PREBUILD_VERSION, SIZE_BAND_VERSION}" for s
    using service_clean that by (auto simp: clean_str_def)
  have age: "days_between sample_today (date_of_ordinal 739900) = 55" by (simp add: sample_today_def days_between_def)
  have ctx: "build_public_decision_context \<lparr> pu_opportunity_key = ''key'', pu_representative_award_key = ''award'', pu_source_event_key = ''event'',
      pu_award_date = None, pu_contract_notification_date = Some (date_of_ordinal 739900), pu_publication_date = None,
      pu_public_evidence_refs = [''ref''], pu_public_context_fingerprint = [] \<rparr> =
    Inr \<lparr> pu_opportunity_key = ''key'', pu_representative_award_key = ''award'', pu_source_event_key = ''event'',
      pu_award_date = None, pu_contract_notification_date = Some (date_of_ordinal 739900), pu_publication_date = None,
      pu_public_evidence_refs = [''ref''], pu_public_context_fingerprint = semantic_fingerprint (public_values \<lparr> pu_opportunity_key = ''key'',
        pu_representative_award_key = ''award'', pu_source_event_key = ''event'', pu_award_date = None,
        pu_contract_notification_date = Some (date_of_ordinal 739900), pu_publication_date = None,
        pu_public_evidence_refs = [''ref''], pu_public_context_fingerprint = [] \<rparr>) \<rparr>"
    by (simp add: build_public_decision_context_def Let_def strip_public_def wf_public_def cleaned fp is_fingerprint_strip
        clean_refs_def MAX_DECISION_EVIDENCE_def)
  show ?thesis
    by (simp add: build_input_def publication_date_def sample_facts_def sample_supplier_def sample_contact_def sample_company_def sample_waiting_def
        ctx build_acquisition_decision_input_def Let_def input_draft_def resolve_recency_def strip_input_def
        decision_subject.defs decision_input.defs wf_input_def wf_subject_def cleaned zero fp is_fingerprint_strip
        recency_consistent_def clean_refs_def MAX_DECISION_EVIDENCE_def evidence_of_def sample_proposal_def outcome_def age)
qed

lemma sample_send_proposed:
  "\<exists>i p. propose_decision sample_service sample_waiting sample_today = Inr (i, p) \<and> evaluate_decision i DECISION_POLICY_V1 = Inr p \<and>
     p = sample_proposal\<lparr> dp_decision_input_fingerprint := dp_decision_input_fingerprint p, dp_proposal_fingerprint := dp_proposal_fingerprint p \<rparr> \<and>
     su_acquisition_opportunity_id i = ''opp-1'' \<and> in_representative_award_key i = ''award''"
proof -
  obtain i where i: "build_input sample_waiting (sample_supplier, sample_contact, sample_company, sample_facts) sample_today = Inr i"
      "in_decision_policy_config_fingerprint i = dc_config_fingerprint DECISION_POLICY_V1" "evidence_of i = dp_evidence_refs sample_proposal"
      "outcome i DECISION_POLICY_V1 = Inr (D_SEND, dp_reason_codes sample_proposal, Some ''prepare_campaign'')" "wf_input i" "in_representative_award_key i = ''award''"
    using sample_input_built by blast
  have "refs_fit 256 (evidence_of i)" unfolding i(3) by code_simp
  then obtain p where p: "evaluate_decision i DECISION_POLICY_V1 = Inr p" "dp_proposed_decision p = D_SEND"
      "dp_reason_codes p = dp_reason_codes sample_proposal" "dp_evidence_refs p = dp_evidence_refs sample_proposal"
      "dp_next_action p = Some ''prepare_campaign''"
    using evaluate_decision_wf [OF i(5,2)] i(3,4) by (auto simp: decision_next_action_def)
  have proposal: "propose_decision sample_service sample_waiting sample_today = Inr (i, p)"
    by (simp add: propose_decision_def sample_loaded i(1) p(1))
  have "py_strip ''opp-1'' = ''opp-1''" by code_simp
  then have "su_acquisition_opportunity_id i = ''opp-1''" using proposed(1) [OF proposal] by (simp add: sample_waiting_def)
  moreover have "p = sample_proposal\<lparr> dp_decision_input_fingerprint := dp_decision_input_fingerprint p, dp_proposal_fingerprint := dp_proposal_fingerprint p \<rparr>"
    using p(2-5) by (intro decision_proposal.equality) (simp_all add: sample_proposal_def)
  ultimately show ?thesis using proposal p(1) i(6) by blast
qed

definition sample_decision :: append_args where
  "sample_decision = \<lparr> aa_event_type = DECISION_RECORDED, aa_expected_version = 7, aa_idempotency_key = decision_key ''eval'',
     aa_payload = decision_payload sample_proposal, aa_actor_type = SYSTEM, aa_actor_ref = Some ''kivou-decision-engine'',
     aa_reason_codes = dp_reason_codes sample_proposal, aa_evidence_refs = dp_evidence_refs sample_proposal,
     aa_policy_version = Some POLICY_VERSION, aa_skill_version = Some ''decision-policy-v1'',
     aa_supervisor_version = None, aa_confidence = None, aa_estimated_cost = None, aa_correlation_id = None,
     aa_causation_id = Some ''eval'', aa_occurred_at = Some sample_clock \<rparr>"

lemma sample_version: "pd_policy_version sample_answer = POLICY_VERSION" by code_simp

definition sample_decided :: opportunity where
  "sample_decided = (case reduce_event (Some sample_waiting) (dummy_event sample_env2 ''opp-1'' 8 sample_decision) of Inr n \<Rightarrow> n | Inl _ \<Rightarrow> undefined)"

lemma sample_decision_ok:
  "wf_event (dummy_event sample_env2 ''opp-1'' 8 sample_decision)"
  "event_columns_ok (dummy_event sample_env2 ''opp-1'' 8 sample_decision)"
  "opt_all is_aware (aa_occurred_at sample_decision)" "aa_expected_version sample_decision = 7"
  "ev_event_id (dummy_event sample_env2 ''opp-1'' 8 sample_decision) = ''event-2''"
  "ev_acquisition_opportunity_id (dummy_event sample_env2 ''opp-1'' 8 sample_decision) = ''opp-1''"
  by code_simp+

lemma sample_decision_applies: "is_ok (reduce_event (Some sample_waiting) (dummy_event sample_env2 ''opp-1'' 8 sample_decision))"
  by code_simp

lemma sample_decided_columns: "opportunity_columns_ok sample_decided"
  by code_simp

lemma sample_service_journal:
  "journal sample_service = \<lparr> db_opportunities = [sample_waiting], db_events = [] \<rparr>" "opp_acquisition_opportunity_id sample_waiting = ''opp-1''"
  "opp_stream_version sample_waiting = 7"
  by (simp_all add: sample_service_def sample_waiting_def)

lemma insert_into_waiting:
  assumes "event_columns_ok e" and "ev_acquisition_opportunity_id e = ''opp-1''" and "projection_values n = Some vals"
  shows "\<exists>db r. append_write (journal sample_service) ''opp-1'' 7 e n = Inr (db, r) \<and> mr_event r = e \<and>
     opportunity_row db ''opp-1'' \<noteq> None \<and> map ev_event_id (db_events db) = [ev_event_id e]"
  using assms sample_service_journal(2,3)
  by (auto simp: append_write_def insert_event_def event_values_def sample_service_journal(1) replace_row_def opportunity_row_def round_event_def)

lemma sample_decision_append:
  obtains db r where "append_event sample_env2 (journal sample_service) ''opp-1'' sample_decision = Inr (db, r)"
    "ev_event_id (mr_event r) = ''event-2''" "opportunity_row db ''opp-1'' \<noteq> None" "map ev_event_id (db_events db) = [''event-2'']"
proof -
  define fp where "fp = fingerprint (semantic_input sample_decision)"
  define e where "e = (dummy_event sample_env2 ''opp-1'' 8 sample_decision)\<lparr> ev_semantic_fingerprint := fp \<rparr>"
  have fp: "is_fingerprint fp" unfolding fp_def by (rule is_fingerprint_sample)
  have "AcquisitionEvent (event_draft_of sample_env2 ''opp-1'' 8 fp sample_decision) = Inr e"
    unfolding e_def by (rule draft_event_fp [OF sample_decision_ok(1) fp sample_move_ok(5) sample_decision_ok(3)])
  moreover have reduced: "reduce_event (Some sample_waiting) e = Inr sample_decided"
    using sample_decision_applies unfolding e_def reduce_event_fp is_ok_iff sample_decided_def by auto
  moreover have "event_rows (journal sample_service) ''opp-1'' = []"
    by (simp add: sample_service_journal event_rows_def)
  ultimately have read: "append_read sample_env2 (journal sample_service) ''opp-1'' sample_decision = Inr (Fresh e sample_decided)"
    by (simp add: append_read_def Let_def sample_loaded(2) sample_decision_ok(4) sample_service_journal(3) flip: fp_def)
  have col: "event_columns_ok e" unfolding e_def by (rule event_columns_fp [OF sample_decision_ok(2) fp])
  have ids: "ev_event_id e = ''event-2''" "ev_acquisition_opportunity_id e = ''opp-1''"
    using sample_decision_ok(5,6) by (simp_all add: e_def)
  obtain vals where vals: "projection_values sample_decided = Some vals"
    using sample_decided_columns by (auto simp: projection_values_def)
  obtain db r where "append_write (journal sample_service) ''opp-1'' 7 e sample_decided = Inr (db, r)" "mr_event r = e"
     "opportunity_row db ''opp-1'' \<noteq> None" "map ev_event_id (db_events db) = [ev_event_id e]"
    using insert_into_waiting [OF col ids(2) vals] by (elim exE conjE)
  then show thesis using that read by (simp add: append_event_def sample_decision_ok(4) ids(1))
qed

theorem commit_effect_witness:
  "\<exists>i p s' w. commit_recorded sample_env2 sample_service ''opp-1'' i p sample_authority 7 sample_today sample_clock = Inr (s', w) \<and>
     dp_proposed_decision p = D_SEND \<and> (\<exists>row. opportunity_row (journal s') ''opp-1'' = Some row \<and> opp_state row = SEND \<and> opp_stream_version row = 8)"
proof -
  obtain i p where p: "propose_decision sample_service sample_waiting sample_today = Inr (i, p)" "evaluate_decision i DECISION_POLICY_V1 = Inr p"
      "p = sample_proposal\<lparr> dp_decision_input_fingerprint := dp_decision_input_fingerprint p, dp_proposal_fingerprint := dp_proposal_fingerprint p \<rparr>"
      "su_acquisition_opportunity_id i = ''opp-1''" "in_representative_award_key i = ''award''"
    using sample_send_proposed by blast
  have fields: "dp_proposed_decision p = D_SEND" "dp_reason_codes p = dp_reason_codes sample_proposal"
      "dp_evidence_refs p = dp_evidence_refs sample_proposal" "dp_next_action p = dp_next_action sample_proposal"
    by (subst p(3), simp add: sample_proposal_def)+
  have args: "decision_args p sample_authority 7 sample_clock = sample_decision"
    using sample_answer_ok(3) sample_version
    by (simp add: sample_decision_def decision_args_def decision_payload_def fields sample_authority_def) (simp add: sample_proposal_def)
  obtain db r where ap: "append_event sample_env2 (journal sample_service) ''opp-1'' sample_decision = Inr (db, r)" "ev_event_id (mr_event r) = ''event-2''"
      "opportunity_row db ''opp-1'' \<noteq> None" "map ev_event_id (db_events db) = [''event-2'']"
    by (rule sample_decision_append)
  have event: "\<exists>e \<in> set (db_events db). ev_event_id e = ''event-2''" using ap(4) by auto
  have clean: "clean_str 256 ''opp-1'' \<and> clean_str 256 ''eval'' \<and> clean_str 256 ''event-2''"
      "varchar_ok 64 ''opp-1'' \<and> varchar_ok 64 ''eval'' \<and> varchar_ok 64 ''event-2'' \<and> varchar_ok 256 ''award''"
    by code_simp+
  have id: "pd_evaluation_id sample_authority = ''eval''" using sample_answer_ok(3) by (simp add: sample_authority_def)
  let ?w = "audit_write i p sample_authority 7 RECORDED (Some ''event-2'') (instant_of sample_clock)"
  have "append_decision (set_acquisition db sample_service) ?w =
      Inr ((set_acquisition db sample_service)\<lparr> ds_evaluations := [?w] \<rparr>, ?w)"
    using event ap(3) clean
    by (simp add: append_decision_def wf_write_def audit_write_def p(4,5) id write_columns_ok_def write_references_ok_def set_acquisition_def set_journal_def
        sample_service_def sample_start_def evaluation_of_def opt_list_def list_ex_iff)
  then obtain s' w where run: "commit_recorded sample_env2 sample_service ''opp-1'' i p sample_authority 7 sample_today sample_clock = Inr (s', w)"
    by (simp add: commit_recorded_def record_proposal_def store_def sample_loaded(2) sample_service_journal(3) p(1) args ap(1,2))
  have "List.find (\<lambda>e. ev_idempotency_key e = decision_key (pd_evaluation_id sample_authority)) (event_rows (journal sample_service) ''opp-1'') = None"
    by (simp add: sample_service_def event_rows_def)
  then show ?thesis
    using commit_effect [OF p(2) run] run fields(1) by fastforce
qed

lemma lift_gateway: "gateway_step\<^sup>*\<^sup>* g g' \<Longrightarrow> service_step\<^sup>*\<^sup>* (s\<lparr> ds_gateway := g \<rparr>) (s\<lparr> ds_gateway := g' \<rparr>)"
proof (induction rule: rtranclp_induct)
  case (step g' g'')
  then have "service_step (s\<lparr> ds_gateway := g' \<rparr>) (s\<lparr> ds_gateway := g'' \<rparr>)"
    using gateway [of "s\<lparr> ds_gateway := g' \<rparr>" g''] by simp
  then show ?case using step.IH by (rule rtranclp.rtrancl_into_rtrancl [rotated])
qed simp

lemma sample_refused:
  "pd_executable sample_answer = False" "pd_command sample_answer = ''evaluate_opportunity''"
  "pd_target_ref sample_answer = ''acquisition-opportunity:opp-1''" "pd_cost_remaining sample_answer = 25" "pd_volume_remaining sample_answer = 0"
  "num_round 6 25 = 25" "dec_sub 25 25 = 0"
  by code_simp+

lemma sample_blocked_state:
  obtains g row i p w where "evaluation_of g ''eval'' = Some row"
    "decision_values sample_answer ''f'' = Some row" "g_controls g = [sample_control 1 (CHR ''a'')]"
    "w = audit_write i p sample_answer 2 POLICY_BLOCKED None (instant_of sample_clock)" "su_acquisition_opportunity_id i = ''opp-1''"
    "service_step\<^sup>*\<^sup>* sample_start (sample_start\<lparr> ds_gateway := g, ds_evaluations := [w] \<rparr>)"
proof -
  obtain g row where g: "gateway_step\<^sup>*\<^sup>* empty_gateway g" "g_evaluations g = [row]" "decision_values sample_answer ''f'' = Some row"
      "g_controls g = [sample_control 1 (CHR ''a'')]" "opportunity_row (sys_db (g_system g)) ''opp-1'' \<noteq> None"
    using sample_recorded_reached by blast
  let ?s = "sample_start\<lparr> ds_gateway := g \<rparr>"
  have reach: "service_step\<^sup>*\<^sup>* sample_start ?s"
    using lift_gateway [OF g(1), of sample_start] by (simp add: sample_start_def)
  have row: "evaluation_of g ''eval'' = Some row"
    using g(2) decision_values_ids(1) [OF g(3)] sample_answer_ok(3) by (simp add: evaluation_of_def)
  obtain i p where p: "evaluate_decision i DECISION_POLICY_V1 = Inr p" "su_acquisition_opportunity_id i = ''opp-1''" "in_representative_award_key i = ''award''"
    using sample_send_proposed by blast
  let ?w = "audit_write i p sample_answer 2 POLICY_BLOCKED None (instant_of sample_clock)"
  have clean: "clean_str 256 ''opp-1'' \<and> clean_str 256 ''eval''"
      "varchar_ok 64 ''opp-1'' \<and> varchar_ok 64 ''eval'' \<and> varchar_ok 256 ''award''"
    by code_simp+
  have "append_decision ?s ?w = Inr (?s\<lparr> ds_evaluations := [?w] \<rparr>, ?w)"
    using row g(5) clean
    by (simp add: append_decision_def wf_write_def audit_write_def p(2,3) sample_answer_ok(3) write_columns_ok_def write_references_ok_def sample_start_def opt_list_def)
  moreover have "pe_decision row = round_decision sample_answer"
    using g(3) by (auto simp: decision_values_def round_decision_def split: if_split_asm)
  ultimately have "commit_policy_blocked ?s i p sample_answer 2 sample_clock = Inr (?s\<lparr> ds_evaluations := [?w] \<rparr>, ?w)"
    using row sample_answer_ok(3,4) sample_refused(1-3) p(2) by (simp add: commit_policy_blocked_def Let_def round_decision_def)
  then have "service_step ?s (?s\<lparr> ds_evaluations := [?w] \<rparr>)" by (rule blocked [OF p(1)])
  then have "service_step\<^sup>*\<^sup>* sample_start (?s\<lparr> ds_evaluations := [?w] \<rparr>)" using reach by simp
  then show thesis using that [OF row g(3,4) refl p(2)] by simp
qed

lemma sample_start_empty: "no_decisions sample_start" by (simp add: no_decisions_def sample_start_def)

theorem decisions_backed_witness:
  "\<exists>s w. service_step\<^sup>*\<^sup>* sample_start s \<and> ds_evaluations s = [w] \<and> dw_disposition w = POLICY_BLOCKED \<and> backed s w"
proof -
  obtain g row i p w where "evaluation_of g ''eval'' = Some row" "decision_values sample_answer ''f'' = Some row"
      "g_controls g = [sample_control 1 (CHR ''a'')]"
    and w: "w = audit_write i p sample_answer 2 POLICY_BLOCKED None (instant_of sample_clock)" "su_acquisition_opportunity_id i = ''opp-1''"
    and s: "service_step\<^sup>*\<^sup>* sample_start (sample_start\<lparr> ds_gateway := g, ds_evaluations := [w] \<rparr>)"
    by (rule sample_blocked_state)
  let ?s = "sample_start\<lparr> ds_gateway := g, ds_evaluations := [w] \<rparr>"
  have one: "ds_evaluations ?s = [w]" "dw_disposition w = POLICY_BLOCKED" by (simp_all add: w audit_write_def)
  have "list_all (backed ?s) [w]"
    using conjunct1 [OF decisions_backed [OF sample_start_empty s]] unfolding one(1) .
  then have "backed ?s w" by (simp only: list.pred_inject)
  then show ?thesis using s one by (intro exI [of _ ?s] exI [of _ w] conjI)
qed

definition sample_authorization :: decision_authorization where
  "sample_authorization = \<lparr> az_evaluation_id = ''eval'', az_request_id = ''req'', az_actor_type = ''SYSTEM'', az_actor_ref = None,
     az_qa_signal_ref = None, az_scope = rq_scope sample_query, az_currency = ''CHF'', az_evidence = rq_evidence sample_query,
     az_compliance = rq_compliance sample_query, az_operational = rq_operational sample_query,
     az_expected_policy_version = POLICY_VERSION, az_approval_grants = [], az_supervisor_plan_id = None,
     az_supervisor_action_index = None, az_supervisor_version = None, az_skill_version = None \<rparr>"

definition sample_hashes :: fingerprinting where
  "sample_hashes = \<lparr> fx_pair = (\<lambda>_ _ _ _. sample_fps), fx_legacy = (\<lambda>_ _ _ _. []) \<rparr>"

definition seen_now :: "decision_db \<Rightarrow> service_views" where
  "seen_now s = \<lparr> sv_lookup = s, sv_loaded = s, sv_prepared = ds_gateway s, sv_read = ds_gateway s, sv_after = s \<rparr>"

theorem evaluate_is_history_witness:
  "\<exists>s r. service_step\<^sup>*\<^sup>* sample_start s \<and> evaluate sample_hashes sample_env2 sample_env2 (seen_now s) (\<lambda>x. x) s ''opp-1''
       sample_authorization sample_usage sample_clock = (s, Inr r) \<and>
     dw_disposition (svr_audit r) = POLICY_BLOCKED \<and> \<not> pd_executable (svr_decision r)"
proof -
  obtain g row i p w where row: "evaluation_of g ''eval'' = Some row" "decision_values sample_answer ''f'' = Some row"
      "g_controls g = [sample_control 1 (CHR ''a'')]"
    and w: "w = audit_write i p sample_answer 2 POLICY_BLOCKED None (instant_of sample_clock)" "su_acquisition_opportunity_id i = ''opp-1''"
    and s: "service_step\<^sup>*\<^sup>* sample_start (sample_start\<lparr> ds_gateway := g, ds_evaluations := [w] \<rparr>)"
    by (rule sample_blocked_state)
  let ?s = "sample_start\<lparr> ds_gateway := g, ds_evaluations := [w] \<rparr>"
  have stored: "decision_from_row row = round_decision sample_answer" "pe_semantic_fingerprint row = ''f''"
    using row(2) by (auto simp: decision_values_def round_decision_def decision_from_row_def split: if_split_asm)
  have control: "get_control [sample_control 1 (CHR ''a'')] [CHR ''a''] = Inr (sample_control 1 (CHR ''a''))" by code_simp
  have "is_ok (existing_result sample_hashes ?s w ''opp-1'' sample_authorization)"
    using row(1,3) stored sample_answer_ok(2) control sample_refused(4-7)
    by (simp add: existing_result_def require_existing_binding_def Let_def sample_authorization_def round_decision_def w audit_write_def
        control_of_def gateway_snapshot_def sample_hashes_def BudgetUsage_ok_def is_ok_iff sample_control_def ensure_def is_aware_def)
  then obtain r where r: "existing_result sample_hashes ?s w ''opp-1'' sample_authorization = Inr r" by (auto simp: is_ok_iff)
  have run: "evaluate sample_hashes sample_env2 sample_env2 (seen_now ?s) (\<lambda>x. x) ?s ''opp-1'' sample_authorization sample_usage sample_clock = (?s, Inr r)"
    using r sample_answer_ok(3) by (simp add: evaluate_def seen_now_def decision_of_policy_def w audit_write_def sample_authorization_def)
  have clean: "clean_str 64 (az_evaluation_id sample_authorization)" by code_simp
  have audit: "svr_audit r = w" using r by (auto simp: existing_result_def)
  have views: "sv_lookup (seen_now ?s) = ?s" "sv_after (seen_now ?s) = ?s" "sv_prepared (seen_now ?s) = ds_gateway ?s"
      "sv_read (seen_now ?s) = ds_gateway ?s"
    by (simp_all add: seen_now_def)
  have "dw_disposition (svr_audit r) = RECORDED \<longleftrightarrow> pd_executable (svr_decision r)"
    using evaluate_is_history [OF sample_start_empty _ s _ _ _ clean _ run, unfolded views, OF s s subset_refl subset_refl rtranclp.rtrancl_refl]
    by blast
  then show ?thesis using s run audit by (intro exI [of _ ?s] exI [of _ r]) (simp add: w audit_write_def)
qed

end
