(* ===== verification/ComplianceService.thy ===== *)
theory ComplianceService
  imports Suppression DecisionService
begin

text \<open>
  The compliance service, \<open>compliance/service.py\<close>: what it loads for an opportunity that waits for its assessment, the
  input and the answer built from it, and the two transactions that commit an assessment; with the
  assessment table of \<open>compliance/store.py\<close>.

  The state joins the gateway, with the journal of the opportunities, and the suppression table with the contacts, the suppliers, the
  company profiles, the personalised messages and the assessments. A row of the assessment table is the validated write it is
  made of, with the input in place of its snapshot.

  Shown here: a campaign is scheduled only if, in the state of the very transaction that schedules it, the contact is not
  suppressed, is a decision maker of an identified French supplier, and the ruleset is in force.
\<close>

section \<open>State\<close>

record compliance_supplier = supplier_row +
  sp_country_code :: "string option"

record compliance_profile = company_profile +
  ap_provider_country :: "string option"

record artifact_row =
  pa_personalization_artifact_id :: string
  pa_acquisition_opportunity_id :: string
  pa_supplier_ref :: string
  pa_contact_ref :: string
  pa_decision_evaluation_id :: string
  pa_language :: string
  pa_input_fingerprint :: string
  pa_proposal_fingerprint :: string
  pa_policy_action_fingerprint :: string
  pa_artifact_fingerprint :: string
  pa_snapshot_prebuild_fingerprint :: "string option" \<comment> \<open>what the snapshot of the input says of the company\<close>
  pa_snapshot_evidence_refs :: "string list"
  pa_ready :: bool
  pa_recorded_event_id :: "string option"
  pa_created_at :: instant

record assessment_write =
  cw_compliance_assessment_id :: string
  cw_acquisition_opportunity_id :: string
  cw_personalization_artifact_id :: string
  cw_supplier_ref :: string
  cw_contact_ref :: string
  cw_policy_evaluation_id :: string
  cw_jurisdiction :: compliance_jurisdiction
  cw_ruleset_config_fingerprint :: string
  cw_input_fingerprint :: string
  cw_proposal_fingerprint :: string
  cw_policy_action_fingerprint :: string
  cw_state :: compliance_state
  cw_reason_codes :: "string list"
  cw_evidence_refs :: "string list"
  cw_input :: compliance_input
  cw_valid_until :: "instant option"
  cw_policy_status :: policy_status
  cw_policy_counterfactual_status :: "policy_status option"
  cw_expected_post_policy_version :: int
  cw_disposition :: disposition
  cw_next_action :: "string option"
  cw_recorded_event_id :: "string option"
  cw_created_at :: instant

record compliance_db = suppression_db +
  cd_gateway :: gateway_db
  cd_suppliers :: "compliance_supplier list"
  cd_profiles :: "compliance_profile list"
  cd_artifacts :: "artifact_row list"
  cd_assessments :: "assessment_write list"

datatype compliance_service_error =
    Compliance_not_actionable
  | Personalization_not_ready
  | Compliance_binding_conflict
  | Compliance_input_changed
  | Assessment_idempotency_conflict string
  | Invalid_compliance compliance_error
  | Suppression_failed suppression_error
  | Journal_failed acq_error
  | Assessment_refused

abbreviation cd_journal :: "compliance_db \<Rightarrow> acq_db" where
  "cd_journal s \<equiv> sys_db (g_system (cd_gateway s))"

record compliance_process =
  \<comment> \<open>what an instance of the service is made with\<close>
  cs_keyring :: suppression_keyring
  cs_sender_config :: sender_config
  cs_contact_profile_version :: string

section \<open>Loading\<close>

definition actionable_compliance :: "opportunity \<Rightarrow> bool" where
  "actionable_compliance p \<longleftrightarrow> opp_state p = SEND \<and> opp_decision p = Some D_SEND \<and> opp_next_action p = Some ''assess_campaign_compliance'' \<and>
     opp_supplier_ref p \<notin> {None, Some []} \<and> opp_contact_ref p \<notin> {None, Some []}"

definition ready_artifact :: "compliance_db \<Rightarrow> string \<Rightarrow> artifact_row option" where
  \<comment> \<open>the latest one; rows of the same instant in the order of the table\<close>
  "ready_artifact s oid =
     (case sort_key (\<lambda>a. - pa_created_at a) (filter (\<lambda>a. pa_acquisition_opportunity_id a = oid \<and> pa_ready a) (cd_artifacts s)) of
        [] \<Rightarrow> None | a # _ \<Rightarrow> Some a)"

definition artifact_scheduled :: "compliance_db \<Rightarrow> artifact_row \<Rightarrow> bool" where
  "artifact_scheduled s a \<longleftrightarrow>
     (case List.find (\<lambda>e. Some (ev_event_id e) = pa_recorded_event_id a \<and> ev_event_type e = NEXT_ACTION_SET) (db_events (cd_journal s)) of
        None \<Rightarrow> False | Some e \<Rightarrow> pget (ev_payload e) ''next_action'' = JStr ''assess_campaign_compliance'')"

definition compliance_bindings ::
  "string \<Rightarrow> opportunity \<Rightarrow> artifact_row \<Rightarrow> compliance_supplier \<Rightarrow> contact_row \<Rightarrow> compliance_profile \<Rightarrow> bool" where
  "compliance_bindings expected_version p a supplier contact profile \<longleftrightarrow>
     Some (pa_supplier_ref a) = opp_supplier_ref p \<and> opp_supplier_ref p = Some (sp_supplier_ref supplier) \<and>
     Some (pa_contact_ref a) = opp_contact_ref p \<and> opp_contact_ref p = Some (ct_contact_ref contact) \<and>
     ap_acquisition_opportunity_id profile = opp_acquisition_opportunity_id p \<and> ap_signal_ref profile = opp_signal_ref p \<and>
     ap_supplier_ref profile = sp_supplier_ref supplier \<and> ap_contact_ref profile = ct_contact_ref contact \<and>
     ap_prebuild_version profile = PREBUILD_VERSION \<and> ap_size_band_version profile = SIZE_BAND_VERSION \<and>
     pa_snapshot_prebuild_fingerprint a = Some (ap_prebuild_fingerprint profile) \<and> ct_supplier_ref contact = sp_supplier_ref supplier \<and>
     ct_verification_state contact = ''PROVIDER_VERIFIED'' \<and> ct_verification_provider contact = ''apollo'' \<and>
     ct_provider_email_status contact = ''verified'' \<and> ct_role_profile_version contact = expected_version \<and>
     ap_contact_role_profile_version profile = expected_version \<and> ct_role_tier contact = ap_contact_role_tier profile \<and>
     sp_identity_status supplier \<in> {PROVIDER_IDENTIFIED, SIRENE_IDENTIFIED} \<and>
     ap_supplier_identity_status profile = sp_identity_status supplier"

definition suppression_of :: "(suppression_error, 'a) result \<Rightarrow> (compliance_service_error, 'a) result" where
  "suppression_of r = (case r of Inl e \<Rightarrow> Inl (Suppression_failed e) | Inr x \<Rightarrow> Inr x)"

definition compliance_of :: "(compliance_error, 'a) result \<Rightarrow> (compliance_service_error, 'a) result" where
  "compliance_of r = (case r of Inl e \<Rightarrow> Inl (Invalid_compliance e) | Inr x \<Rightarrow> Inr x)"

definition load_compliance ::
  "compliance_process \<Rightarrow> compliance_db \<Rightarrow> opportunity \<Rightarrow>
     (compliance_service_error, artifact_row \<times> compliance_supplier \<times> contact_row \<times> compliance_profile \<times> suppression_match) result" where
  "load_compliance cs s current =
     (if \<not> actionable_compliance current then Inl Compliance_not_actionable
      else (case ready_artifact s (opp_acquisition_opportunity_id current) of
          None \<Rightarrow> Inl Personalization_not_ready
        | Some a \<Rightarrow>
            if \<not> artifact_scheduled s a then Inl Personalization_not_ready
            else (case (List.find (\<lambda>r. Some (sp_supplier_ref r) = opp_supplier_ref current) (cd_suppliers s),
                    find_contact (suppression_db.truncate s) (the (opp_contact_ref current)),
                    List.find (\<lambda>r. ap_acquisition_opportunity_id r = opp_acquisition_opportunity_id current) (cd_profiles s)) of
                (Some supplier, Some contact, Some profile) \<Rightarrow>
                  if \<not> compliance_bindings (cs_contact_profile_version cs) current a supplier contact profile
                  then Inl Compliance_binding_conflict
                  else rmap (\<lambda>m. (a, supplier, contact, profile, m))
                    (suppression_of (match_contact (cs_keyring cs) KIVOU_ACQUISITION_EMAIL (suppression_db.truncate s) (ct_contact_ref contact) None))
              | _ \<Rightarrow> Inl Compliance_binding_conflict)))"

section \<open>The assessment\<close>

definition clock_text :: "datetime \<Rightarrow> string" where
  \<comment> \<open>\<open>str(datetime)\<close>, with a blank instead of the T\<close>
  "clock_text d = date_isoformat (dt_date d) @ '' '' @ drop (Suc (length (date_isoformat (dt_date d)))) (isoformat d)"

definition jurisdiction_value :: "compliance_jurisdiction \<Rightarrow> string" where
  "jurisdiction_value j = (case j of IN_CH \<Rightarrow> ''CH'' | IN_FR \<Rightarrow> ''FR'' | EU_MEMBER_STATE_UNCONFIGURED \<Rightarrow> ''EU_MEMBER_STATE_UNCONFIGURED''
     | OUT_OF_SCOPE \<Rightarrow> ''OUT_OF_SCOPE'' | JURISDICTION_UNRESOLVED \<Rightarrow> ''UNRESOLVED'')"

definition match_state_value :: "suppression_match_state \<Rightarrow> string" where
  "match_state_value s = (case s of CLEAR \<Rightarrow> ''CLEAR'' | MATCHED \<Rightarrow> ''MATCHED'' | COVERAGE_UNSAFE \<Rightarrow> ''COVERAGE_UNSAFE'')"

definition compliance_input_fingerprint :: "compliance_input \<Rightarrow> string" where
  \<comment> \<open>of the values before they are validated; the purpose, the legal basis and the provenance are the constants of the service\<close>
  "compliance_input_fingerprint i =
     (let j = ci_jurisdiction i; c = ci_sender_config i in semantic_fingerprint [
     (''kind'', JStr ''acquisition-compliance-input-v1''), (''acquisition_opportunity_id'', JStr (ci_acquisition_opportunity_id i)),
     (''supplier_ref'', JStr (ci_supplier_ref i)), (''contact_ref'', JStr (ci_contact_ref i)),
     (''personalization_artifact_id'', JStr (ci_personalization_artifact_id i)),
     (''personalization_artifact_fingerprint'', JStr (ci_personalization_artifact_fingerprint i)),
     (''personalization_input_fingerprint'', JStr (ci_personalization_input_fingerprint i)),
     (''personalization_proposal_fingerprint'', JStr (ci_personalization_proposal_fingerprint i)),
     (''personalization_policy_action_fingerprint'', JStr (ci_personalization_policy_action_fingerprint i)),
     (''language'', JStr (ci_language i)), (''supplier_identity_status'', JStr (identity_status_value (ci_supplier_identity_status i))),
     (''contact_verification_state'', JStr ''PROVIDER_VERIFIED''), (''contact_verification_provider'', JStr ''apollo''),
     (''contact_provider_email_status'', JStr ''verified''), (''contact_source_fingerprint'', JStr (ci_contact_source_fingerprint i)),
     (''contact_role_profile_version'', JStr (ci_contact_role_profile_version i)), (''contact_role_tier'', JInt (ci_contact_role_tier i)),
     (''jurisdiction'', JObj [(''jurisdiction'', JStr (jurisdiction_value (jr_jurisdiction j))), (''country_code'', opt_str (jr_country_code j)),
       (''resolvable'', JBool (jr_resolvable j)), (''evidence_refs'', str_list (jr_evidence_refs j)),
       (''resolver_version'', JStr ''compliance-jurisdiction-v1'')]),
     (''business_context_state'', JStr (if ci_business_context_state i = PROFESSIONAL_CONTEXT_VERIFIED then ''PROFESSIONAL_CONTEXT_VERIFIED''
       else ''BUSINESS_CONTEXT_INSUFFICIENT'')),
     (''email_provenance'', JStr ''PROVIDER_VERIFIED_BUSINESS_CONTACT''),
     (''sender_config'', JObj [(''config_version'', JStr (sc_config_version c)), (''sender_profile_ref'', JStr (sc_sender_profile_ref c)),
       (''sender_identity_ready'', JBool (sc_sender_identity_ready c)), (''opt_out_ready'', JBool (sc_opt_out_ready c)),
       (''privacy_notice_ready'', JBool (sc_privacy_notice_ready c)), (''source_notice_ready'', JBool (sc_source_notice_ready c)),
       (''valid_until'', json_datetime (sc_valid_until c)), (''config_fingerprint'', opt_str (sc_config_fingerprint c))]),
     (''acquisition_purpose'', JStr ''KIVOU_ACQUISITION_SIGNAL_RELEVANCE''), (''ch_legal_basis'', JStr ''UNPROVEN''),
     (''suppression_match_state'', JStr (match_state_value (ci_suppression_match_state i))),
     (''suppression_key_versions_considered'', str_list (ci_suppression_key_versions_considered i)),
     (''evidence_refs'', str_list (ci_evidence_refs i)), (''ruleset_config_fingerprint'', JStr (ci_ruleset_config_fingerprint i)),
     (''ruleset_legal_review_ref'', JStr (ci_ruleset_legal_review_ref i)),
     (''ruleset_effective_from'', JStr (clock_text (ci_ruleset_effective_from i))),
     (''ruleset_valid_until'', opt_str (map_option clock_text (ci_ruleset_valid_until i))),
     (''assessed_at'', JStr (clock_text (ci_assessed_at i))), (''as_of_date'', JStr (date_isoformat (ci_as_of_date i)))])"

record compliance_values =
  cv_opportunity :: opportunity
  cv_input :: compliance_input
  cv_proposal :: compliance_proposal
  cv_action_fingerprint :: string

definition compliance_action_fingerprint :: "string \<Rightarrow> string \<Rightarrow> string \<Rightarrow> string \<Rightarrow> string" where
  "compliance_action_fingerprint oid supplier_ref contact_ref proposal_fingerprint = semantic_fingerprint [
     (''kind'', JStr ''compliance-policy-action-v1''), (''command'', JStr ''assess_campaign_compliance''),
     (''acquisition_opportunity_id'', JStr oid), (''supplier_ref'', JStr supplier_ref), (''contact_ref'', JStr contact_ref),
     (''proposal_fingerprint'', JStr proposal_fingerprint)]"

definition compliance_evidence ::
  "string \<Rightarrow> artifact_row \<Rightarrow> string \<Rightarrow> string \<Rightarrow> suppression_match \<Rightarrow> jurisdiction_resolution \<Rightarrow> string list" where
  "compliance_evidence oid a supplier_ref contact_ref m j = take 16 (fromkeys (sm_suppression_refs m @
     [''acquisition-personalization:'' @ pa_personalization_artifact_id a, ''acquisition-decision:'' @ pa_decision_evaluation_id a] @
     pa_snapshot_evidence_refs a @ [''acquisition-contact:'' @ contact_ref, ''acquisition-supplier:'' @ supplier_ref,
     ''acquisition-company-profile:'' @ oid] @ jr_evidence_refs j))"

definition build_compliance ::
  "compliance_process \<Rightarrow> opportunity \<Rightarrow>
     artifact_row \<times> compliance_supplier \<times> contact_row \<times> compliance_profile \<times> suppression_match \<Rightarrow> datetime \<Rightarrow>
     (compliance_service_error, compliance_values) result" where
  "build_compliance cs p loaded captured_at =
     (case loaded of (a, supplier, contact, profile, m) \<Rightarrow>
      let oid = opp_acquisition_opportunity_id p; sref = sp_supplier_ref supplier; cref = ct_contact_ref contact
      in rbind (compliance_of (resolve_jurisdiction (sp_country_code supplier) (ap_provider_country profile) sref
           (''acquisition-company-profile:'' @ oid))) (\<lambda>j.
         let draft = \<lparr> ci_acquisition_opportunity_id = oid, ci_supplier_ref = sref, ci_contact_ref = cref,
               ci_personalization_artifact_id = pa_personalization_artifact_id a,
               ci_personalization_artifact_fingerprint = pa_artifact_fingerprint a, ci_personalization_input_fingerprint = pa_input_fingerprint a,
               ci_personalization_proposal_fingerprint = pa_proposal_fingerprint a,
               ci_personalization_policy_action_fingerprint = pa_policy_action_fingerprint a, ci_language = pa_language a,
               ci_supplier_identity_status = sp_identity_status supplier, ci_contact_source_fingerprint = ct_source_fingerprint contact,
               ci_contact_role_profile_version = ct_role_profile_version contact, ci_contact_role_tier = ct_role_tier contact,
               ci_jurisdiction = j, ci_business_context_state =
                 (if ct_role_tier contact \<in> {1, 2, 3} then PROFESSIONAL_CONTEXT_VERIFIED else BUSINESS_CONTEXT_INSUFFICIENT),
               ci_email_provenance = PROVIDER_VERIFIED_BUSINESS_CONTACT, ci_sender_config = cs_sender_config cs,
               ci_acquisition_purpose = KIVOU_ACQUISITION_SIGNAL_RELEVANCE, ci_ch_legal_basis = UNPROVEN,
               ci_suppression_match_state = sm_state m, ci_suppression_key_versions_considered = sm_key_versions_considered m,
               ci_evidence_refs = compliance_evidence oid a sref cref m j,
               ci_ruleset_config_fingerprint = the (rs_config_fingerprint RULESET_V1),
               ci_ruleset_legal_review_ref = rs_legal_review_ref RULESET_V1, ci_ruleset_effective_from = rs_effective_from RULESET_V1,
               ci_ruleset_valid_until = rs_valid_until RULESET_V1, ci_assessed_at = captured_at, ci_as_of_date = dt_date captured_at,
               ci_compliance_input_fingerprint = [] \<rparr>
         in rbind (compliance_of (ComplianceInput (draft\<lparr> ci_compliance_input_fingerprint := compliance_input_fingerprint draft \<rparr>))) (\<lambda>i.
            rmap (\<lambda>proposal. \<lparr> cv_opportunity = p, cv_input = i, cv_proposal = proposal, cv_action_fingerprint =
                compliance_action_fingerprint oid sref cref (cp_proposal_fingerprint proposal) \<rparr>)
              (compliance_of (evaluate_compliance i RULESET_V1)))))"

section \<open>The assessment table\<close>

definition compliance_assessment_id :: "string \<Rightarrow> string" where
  "compliance_assessment_id policy_evaluation_id = sha256_hex (''compliance-assessment-v1'' @ [CHR 0x00] @ utf8 policy_evaluation_id)"

definition compliance_write ::
  "compliance_values \<Rightarrow> policy_decision \<Rightarrow> disposition \<Rightarrow> datetime \<Rightarrow> int \<Rightarrow> string option \<Rightarrow> assessment_write" where
  "compliance_write v d disp created_at expected event_id = (let i = cv_input v; p = cv_proposal v in \<lparr>
     cw_compliance_assessment_id = compliance_assessment_id (pd_evaluation_id d),
     cw_acquisition_opportunity_id = ci_acquisition_opportunity_id i, cw_personalization_artifact_id = ci_personalization_artifact_id i,
     cw_supplier_ref = ci_supplier_ref i, cw_contact_ref = ci_contact_ref i, cw_policy_evaluation_id = pd_evaluation_id d,
     cw_jurisdiction = jr_jurisdiction (ci_jurisdiction i), cw_ruleset_config_fingerprint = ci_ruleset_config_fingerprint i,
     cw_input_fingerprint = ci_compliance_input_fingerprint i, cw_proposal_fingerprint = cp_proposal_fingerprint p,
     cw_policy_action_fingerprint = cv_action_fingerprint v, cw_state = cp_state p, cw_reason_codes = cp_reason_codes p,
     cw_evidence_refs = cp_evidence_refs p, cw_input = i, cw_valid_until = map_option instant_of (cp_valid_until p),
     cw_policy_status = pd_status d, cw_policy_counterfactual_status = pd_counterfactual_status d,
     cw_expected_post_policy_version = expected, cw_disposition = disp, cw_next_action = cp_next_action p,
     cw_recorded_event_id = event_id, cw_created_at = instant_of created_at \<rparr>)"

definition coherent_assessment :: "assessment_write \<Rightarrow> bool" where
  "coherent_assessment w \<longleftrightarrow>
     (case cw_state w of
        ALLOWED \<Rightarrow> cw_next_action w = Some ''schedule_campaign''
      | REVIEW_REQUIRED \<Rightarrow> cw_next_action w = Some ''request_human_review''
      | BLOCKED \<Rightarrow> cw_next_action w = None
      | COMPLIANCE_UNKNOWN \<Rightarrow> True) \<and>
     (cw_state w = ALLOWED \<longleftrightarrow> cw_valid_until w \<noteq> None) \<and> (cw_disposition w = RECORDED \<longleftrightarrow> cw_recorded_event_id w \<noteq> None)"

definition wf_assessment :: "assessment_write \<Rightarrow> bool" where
  \<comment> \<open>the input and the answer are valid already\<close>
  "wf_assessment w \<longleftrightarrow> clean_str 256 (cw_policy_evaluation_id w) \<and> is_fingerprint (cw_policy_action_fingerprint w) \<and>
     2 \<le> cw_expected_post_policy_version w \<and> clean_opt 256 (cw_recorded_event_id w) \<and> coherent_assessment w"

definition assessment_columns_ok :: "assessment_write \<Rightarrow> bool" where
  "assessment_columns_ok w \<longleftrightarrow> list_all (varchar_ok 64) [cw_acquisition_opportunity_id w, cw_personalization_artifact_id w, cw_supplier_ref w,
     cw_contact_ref w, cw_policy_evaluation_id w] \<and> opt_all (varchar_ok 64) (cw_recorded_event_id w) \<and>
     cw_expected_post_policy_version w < 2 ^ 31"

definition assessment_references_ok :: "compliance_db \<Rightarrow> assessment_write \<Rightarrow> bool" where
  \<comment> \<open>the foreign keys, and the unique columns other than the one the insertion watches\<close>
  "assessment_references_ok s w \<longleftrightarrow>
     opportunity_row (cd_journal s) (cw_acquisition_opportunity_id w) \<noteq> None \<and>
     list_ex (\<lambda>a. pa_personalization_artifact_id a = cw_personalization_artifact_id w) (cd_artifacts s) \<and>
     list_ex (\<lambda>r. sp_supplier_ref r = cw_supplier_ref w) (cd_suppliers s) \<and> list_ex (\<lambda>c. ct_contact_ref c = cw_contact_ref w) (sd_contacts s) \<and>
     evaluation_of (cd_gateway s) (cw_policy_evaluation_id w) \<noteq> None \<and>
     opt_all (\<lambda>i. list_ex (\<lambda>e. ev_event_id e = i) (db_events (cd_journal s))) (cw_recorded_event_id w) \<and>
     list_all (\<lambda>r. cw_compliance_assessment_id r \<noteq> cw_compliance_assessment_id w \<and>
       (cw_recorded_event_id w \<noteq> None \<longrightarrow> cw_recorded_event_id r \<noteq> cw_recorded_event_id w)) (cd_assessments s)"

definition assessment_of_policy :: "compliance_db \<Rightarrow> string \<Rightarrow> assessment_write option" where
  "assessment_of_policy s eid = List.find (\<lambda>w. cw_policy_evaluation_id w = eid) (cd_assessments s)"

definition append_assessment :: "compliance_db \<Rightarrow> assessment_write \<Rightarrow> (compliance_service_error, compliance_db \<times> assessment_write) result" where
  "append_assessment s w =
     (if \<not> wf_assessment w then Inl (Invalid_compliance Compliance_contract_error)
      else if \<not> assessment_columns_ok w then Inl Assessment_refused
      else (case assessment_of_policy s (cw_policy_evaluation_id w) of
          Some row \<Rightarrow> if row \<noteq> w then Inl (Assessment_idempotency_conflict (cw_policy_evaluation_id w)) else Inr (s, row)
        | None \<Rightarrow>
            if \<not> assessment_references_ok s w then Inl Assessment_refused
            else Inr (s\<lparr> cd_assessments := cd_assessments s @ [w] \<rparr>, w)))"

section \<open>The two commits\<close>

definition compliance_args :: "compliance_proposal \<Rightarrow> policy_decision \<Rightarrow> int \<Rightarrow> datetime \<Rightarrow> append_args" where
  "compliance_args p d expected captured_at = \<lparr>
     aa_event_type = NEXT_ACTION_SET, aa_expected_version = expected, aa_idempotency_key = ''compliance_next_action:'' @ pd_evaluation_id d,
     aa_payload = [(''next_action'', opt_str (cp_next_action p))], aa_actor_type = SYSTEM, aa_actor_ref = Some ''kivou-compliance'',
     aa_reason_codes = cp_reason_codes p, aa_evidence_refs = cp_evidence_refs p, aa_policy_version = Some (pd_policy_version d),
     aa_skill_version = None, aa_supervisor_version = None, aa_confidence = None, aa_estimated_cost = None, aa_correlation_id = None,
     aa_causation_id = Some (pd_evaluation_id d), aa_occurred_at = Some captured_at \<rparr>"

text \<open>The errors of the second look that mean that the inputs have changed.\<close>

definition second_look :: "(compliance_service_error, 'a) result \<Rightarrow> (compliance_service_error, 'a) result" where
  "second_look r = (case r of
      Inl e \<Rightarrow> Inl (if e \<in> {Compliance_binding_conflict, Compliance_not_actionable, Personalization_not_ready,
        Invalid_compliance Compliance_contract_error, Suppression_failed Suppression_value_error, Suppression_failed Contact_not_found}
        then Compliance_input_changed else e)
    | Inr x \<Rightarrow> Inr x)"

definition set_cd_journal :: "acq_db \<Rightarrow> compliance_db \<Rightarrow> compliance_db" where
  "set_cd_journal db s = s\<lparr> cd_gateway := set_journal db (cd_gateway s) \<rparr>"

definition journal_of :: "(acq_error, 'a) result \<Rightarrow> (compliance_service_error, 'a) result" where
  "journal_of r = (case r of Inl e \<Rightarrow> Inl (if e = OpportunityConcurrencyConflict then Compliance_input_changed else Journal_failed e) | Inr x \<Rightarrow> Inr x)"

definition commit_compliance ::
  "store_env \<Rightarrow> compliance_process \<Rightarrow> compliance_db \<Rightarrow> string \<Rightarrow> compliance_values \<Rightarrow> policy_decision \<Rightarrow> int \<Rightarrow> datetime \<Rightarrow>
     (compliance_service_error, compliance_db \<times> assessment_write) result" where
  \<comment> \<open>when the inputs have changed the caller looks for a concurrent result\<close>
  "commit_compliance env cs s oid v d expected captured_at =
     rbind (journal_of (get_opportunity (cd_journal s) oid)) (\<lambda>current.
     if opp_stream_version current \<noteq> expected then Inl Compliance_input_changed
     else rbind (second_look (rbind (load_compliance cs s current) (\<lambda>loaded. build_compliance cs current loaded captured_at))) (\<lambda>rebuilt.
     if ci_compliance_input_fingerprint (cv_input rebuilt) \<noteq> ci_compliance_input_fingerprint (cv_input v) \<or>
        cp_proposal_fingerprint (cv_proposal rebuilt) \<noteq> cp_proposal_fingerprint (cv_proposal v) \<or>
        cv_action_fingerprint rebuilt \<noteq> cv_action_fingerprint v
     then Inl Compliance_input_changed
     else rbind (journal_of (append_event env (cd_journal s) oid (compliance_args (cv_proposal rebuilt) d expected captured_at))) (\<lambda>(db, mutation).
     append_assessment (set_cd_journal db s)
       (compliance_write rebuilt d RECORDED captured_at expected (Some (ev_event_id (mr_event mutation)))))))"

definition commit_compliance_blocked ::
  "compliance_db \<Rightarrow> compliance_values \<Rightarrow> policy_decision \<Rightarrow> int \<Rightarrow> datetime \<Rightarrow> (compliance_service_error, compliance_db \<times> assessment_write) result" where
  "commit_compliance_blocked s v d expected created_at =
     (case evaluation_of (cd_gateway s) (pd_evaluation_id d) of
        None \<Rightarrow> Inl (Assessment_idempotency_conflict (pd_evaluation_id d))
      | Some row \<Rightarrow>
          if pd_action_fingerprint (pe_decision row) \<noteq> cv_action_fingerprint v then Inl (Assessment_idempotency_conflict (pd_evaluation_id d))
          else append_assessment s (compliance_write v d POLICY_BLOCKED created_at expected None))"

section \<open>What a commit does\<close>

lemma wrapped_Inr [simp]:
  "suppression_of r1 = Inr x1 \<longleftrightarrow> r1 = Inr x1" "compliance_of r2 = Inr x2 \<longleftrightarrow> r2 = Inr x2" "second_look r3 = Inr x3 \<longleftrightarrow> r3 = Inr x3"
  "journal_of r4 = Inr x4 \<longleftrightarrow> r4 = Inr x4"
  by (cases r1; cases r2; cases r3; cases r4; simp add: suppression_of_def compliance_of_def second_look_def journal_of_def)+

lemma append_assessment_Inr:
  assumes "append_assessment s w = Inr (s', r)"
  shows "r = w" and "coherent_assessment w" and "s' = s \<or> s' = s\<lparr> cd_assessments := cd_assessments s @ [w] \<rparr>"
    and "w \<in> set (cd_assessments s')"
  using assms
  by (auto simp: append_assessment_def assessment_of_policy_def wf_assessment_def split: if_split_asm option.split_asm dest: find_Some_set)

lemma resolved_french:
  assumes "resolve_jurisdiction sc pc sref pref = Inr j" and "jr_jurisdiction j = IN_FR"
  shows "normalize_supplier_country sc \<in> {None, Some ''FR''} \<and> normalize_provider_country pc \<in> {None, Some ''FR''} \<and>
    (normalize_supplier_country sc \<noteq> None \<or> normalize_provider_country pc \<noteq> None)"
  using assms
  by (cases "normalize_supplier_country sc"; cases "normalize_provider_country pc")
    (auto simp: resolve_jurisdiction_def JurisdictionResolution_def country_jurisdiction_def Let_def split: if_split_asm)

lemma load_complianceE:
  assumes "load_compliance cs s current = Inr (a, supplier, contact, profile, m)"
  shows "actionable_compliance current" and "ready_artifact s (opp_acquisition_opportunity_id current) = Some a" and "artifact_scheduled s a"
    and "compliance_bindings (cs_contact_profile_version cs) current a supplier contact profile"
    and "supplier \<in> set (cd_suppliers s)" and "profile \<in> set (cd_profiles s)"
    and "find_contact (suppression_db.truncate s) (the (opp_contact_ref current)) = Some contact"
    and "match_contact (cs_keyring cs) KIVOU_ACQUISITION_EMAIL (suppression_db.truncate s) (ct_contact_ref contact) None = Inr m"
  using assms
  by (auto simp: load_compliance_def split: if_split_asm option.split_asm dest: find_Some_set)

lemma build_complianceE:
  assumes "build_compliance cs p (a, supplier, contact, profile, m) captured_at = Inr v"
  shows "cv_opportunity v = p" and "ci_suppression_match_state (cv_input v) = sm_state m" and "ci_ch_legal_basis (cv_input v) = UNPROVEN"
    and "resolve_jurisdiction (sp_country_code supplier) (ap_provider_country profile) (sp_supplier_ref supplier)
      (''acquisition-company-profile:'' @ opp_acquisition_opportunity_id p) = Inr (ci_jurisdiction (cv_input v))"
    and "ci_business_context_state (cv_input v) = PROFESSIONAL_CONTEXT_VERIFIED \<longleftrightarrow> ct_role_tier contact \<in> {1, 2, 3}"
    and "ci_assessed_at (cv_input v) = captured_at" and "ci_sender_config (cv_input v) = cs_sender_config cs"
    and "evaluate_compliance (cv_input v) RULESET_V1 = Inr (cv_proposal v)"
  using assms
  by (auto simp: build_compliance_def Let_def ComplianceInput_def strip_compliance_input_def compliance_input.defs split: if_split_asm)

lemma compliance_draft_event:
  assumes "AcquisitionEvent (event_draft_of env oid n fp (compliance_args p d expected captured_at)) = Inr e"
  shows "ev_event_type e = NEXT_ACTION_SET" and "ev_payload e = [(''next_action'', opt_str (cp_next_action p))]"
proof -
  have keys: "strip_keys [(''next_action'', opt_str (cp_next_action p))] = [(''next_action'', opt_str (cp_next_action p))]"
    by (rule strip_keys_id) (simp_all, code_simp)
  show "ev_event_type e = NEXT_ACTION_SET" "ev_payload e = [(''next_action'', opt_str (cp_next_action p))]"
    using assms keys
    by (auto simp: AcquisitionEvent_def event_model_Inr strip_event_def event_draft_of_def compliance_args_def)
qed

lemma next_action_event_effect:
  assumes "reduce_event (Some c) e = Inr n" and "ev_event_type e = NEXT_ACTION_SET" and "ev_payload e = [(''next_action'', opt_str action)]"
  shows "opp_next_action n = action \<and> opp_state n = opp_state c"
proof -
  have "next_action_set c e = Inr n" using assms(1,2) by (simp add: reduce_Some_Inr)
  then show ?thesis
    by (auto simp: next_action_set_def Let_def assms(3) common_updates_def pget_def phas_def opt_str_def split: option.split_asm if_split_asm)
qed


lemma commit_complianceE:
  assumes "commit_compliance env cs s oid v d expected captured_at = Inr (s', w)"
  obtains current loaded rebuilt db mutation where
    "get_opportunity (cd_journal s) oid = Inr current" "opp_stream_version current = expected"
    "load_compliance cs s current = Inr loaded" "build_compliance cs current loaded captured_at = Inr rebuilt"
    "cp_proposal_fingerprint (cv_proposal rebuilt) = cp_proposal_fingerprint (cv_proposal v)"
    "append_event env (cd_journal s) oid (compliance_args (cv_proposal rebuilt) d expected captured_at) = Inr (db, mutation)"
    "w = compliance_write rebuilt d RECORDED captured_at expected (Some (ev_event_id (mr_event mutation)))"
    "append_assessment (set_cd_journal db s) w = Inr (s', w)"
proof -
  obtain current loaded rebuilt db mutation where step:
    "get_opportunity (cd_journal s) oid = Inr current" "opp_stream_version current = expected"
    "load_compliance cs s current = Inr loaded" "build_compliance cs current loaded captured_at = Inr rebuilt"
    "cp_proposal_fingerprint (cv_proposal rebuilt) = cp_proposal_fingerprint (cv_proposal v)"
    "append_event env (cd_journal s) oid (compliance_args (cv_proposal rebuilt) d expected captured_at) = Inr (db, mutation)"
    and row: "append_assessment (set_cd_journal db s)
      (compliance_write rebuilt d RECORDED captured_at expected (Some (ev_event_id (mr_event mutation)))) = Inr (s', w)"
    using assms by (auto simp: commit_compliance_def split: if_split_asm)
  show ?thesis using that [OF step] append_assessment_Inr(1) [OF row] row by simp
qed

lemma scheduled_permitted:
  assumes load: "load_compliance cs s current = Inr (a, supplier, contact, profile, m)"
    and build: "build_compliance cs current (a, supplier, contact, profile, m) captured_at = Inr v"
    and action: "cp_next_action (cv_proposal v) = Some ''schedule_campaign''" and ring: "wf_keyring (cs_keyring cs)"
  shows "campaign_permitted (cv_input v) RULESET_V1" and "ct_role_tier contact \<in> {1, 2, 3}"
    and "jr_jurisdiction (ci_jurisdiction (cv_input v)) = IN_FR"
    and "normalize_business_email (ct_business_email contact) = Inr n \<Longrightarrow> map_of (sk_keys (cs_keyring cs)) version = Some secret \<Longrightarrow>
      \<not> suppressed_as KIVOU_ACQUISITION_EMAIL version secret n (suppression_db.truncate s)"
proof -
  note loaded = load_complianceE [OF load] and built = build_complianceE [OF build]
  show permitted: "campaign_permitted (cv_input v) RULESET_V1" using action evaluate_compliance_answer [OF built(8)] by simp
  show "ct_role_tier contact \<in> {1, 2, 3}" "jr_jurisdiction (ci_jurisdiction (cv_input v)) = IN_FR"
    using permitted built(3,5) by (auto simp: campaign_permitted_def split: compliance_jurisdiction.split_asm)
  assume email: "normalize_business_email (ct_business_email contact) = Inr n" and key: "map_of (sk_keys (cs_keyring cs)) version = Some secret"
  have here: "find_contact (suppression_db.truncate s) (ct_contact_ref contact) = Some contact"
    using loaded(7) find_Some_set [OF loaded(7) [unfolded find_contact_def]] by simp
  show "\<not> suppressed_as KIVOU_ACQUISITION_EMAIL version secret n (suppression_db.truncate s)"
  proof
    assume "suppressed_as KIVOU_ACQUISITION_EMAIL version secret n (suppression_db.truncate s)"
    then have "sm_state m \<noteq> CLEAR" using suppressed_not_clear [OF _ here email ring _ loaded(8)] key by simp
    then show False using permitted built(2) by (simp add: campaign_permitted_def)
  qed
qed

text \<open>
  C35. What it takes to schedule a campaign. When a commit succeeds for an assessment whose key is not yet in the journal, the opportunity
  had been decided to be sent and was waiting for exactly this assessment, at the version the authority was given for; its
  next action becomes that of the assessment and nothing else of its state. And if the next action is to schedule a campaign then, in the
  state of this very transaction, no suppression of the contact's address is stored under any key in use, the contact is a verified
  decision maker of tier one to three, the supplier is identified, what is known of its country says France and nothing else, the sender is ready
  and the ruleset in force.
\<close>

theorem campaign_scheduled_safely:
  assumes "commit_compliance env cs s oid v d expected captured_at = Inr (s', w)"
    and "List.find (\<lambda>e. ev_idempotency_key e = ''compliance_next_action:'' @ pd_evaluation_id d) (event_rows (cd_journal s) oid) = None"
    and "wf_keyring (cs_keyring cs)"
  shows "\<exists>current after supplier contact profile.
    get_opportunity (cd_journal s) oid = Inr current \<and> actionable_compliance current \<and> opp_stream_version current = expected \<and>
    opportunity_row (cd_journal s') oid = Some after \<and> opp_next_action after = cw_next_action w \<and> opp_state after = SEND \<and>
    opp_stream_version after = expected + 1 \<and> w \<in> set (cd_assessments s') \<and> sd_suppressions s' = sd_suppressions s \<and>
    (cw_next_action w = Some ''schedule_campaign'' \<longrightarrow>
      find_contact (suppression_db.truncate s) (the (opp_contact_ref current)) = Some contact \<and>
      (\<forall>n version secret. normalize_business_email (ct_business_email contact) = Inr n \<longrightarrow>
        map_of (sk_keys (cs_keyring cs)) version = Some secret \<longrightarrow>
        \<not> suppressed_as KIVOU_ACQUISITION_EMAIL version secret n (suppression_db.truncate s)) \<and>
      ct_verification_state contact = ''PROVIDER_VERIFIED'' \<and> ct_role_tier contact \<in> {1, 2, 3} \<and>
      supplier \<in> set (cd_suppliers s) \<and> Some (sp_supplier_ref supplier) = opp_supplier_ref current \<and>
      sp_identity_status supplier \<in> {PROVIDER_IDENTIFIED, SIRENE_IDENTIFIED} \<and> profile \<in> set (cd_profiles s) \<and>
      normalize_supplier_country (sp_country_code supplier) \<in> {None, Some ''FR''} \<and>
      normalize_provider_country (ap_provider_country profile) \<in> {None, Some ''FR''} \<and>
      (normalize_supplier_country (sp_country_code supplier) \<noteq> None \<or> normalize_provider_country (ap_provider_country profile) \<noteq> None) \<and>
      sc_sender_identity_ready (cs_sender_config cs) \<and> sc_opt_out_ready (cs_sender_config cs) \<and> effective_at RULESET_V1 captured_at)"
proof -
  obtain current a supplier contact profile m rebuilt db mutation where step:
    "get_opportunity (cd_journal s) oid = Inr current" "opp_stream_version current = expected"
    "load_compliance cs s current = Inr (a, supplier, contact, profile, m)"
    "build_compliance cs current (a, supplier, contact, profile, m) captured_at = Inr rebuilt"
    "append_event env (cd_journal s) oid (compliance_args (cv_proposal rebuilt) d expected captured_at) = Inr (db, mutation)"
    and w: "w = compliance_write rebuilt d RECORDED captured_at expected (Some (ev_event_id (mr_event mutation)))"
    and ap: "append_assessment (set_cd_journal db s) w = Inr (s', w)"
    using assms(1) by (rule commit_complianceE) (metis prod_cases5)
  note load = load_complianceE [OF step(3)] and build = build_complianceE [OF step(4)]
  have fresh: "List.find (\<lambda>e. ev_idempotency_key e = aa_idempotency_key (compliance_args (cv_proposal rebuilt) d expected captured_at))
      (event_rows (cd_journal s) oid) = None"
    using assms(2) by (simp add: compliance_args_def)
  obtain c ev new vals where effect: "get_opportunity (cd_journal s) oid = Inr c"
    "AcquisitionEvent (event_draft_of env oid (aa_expected_version (compliance_args (cv_proposal rebuilt) d expected captured_at) + 1)
      (fingerprint (semantic_input (compliance_args (cv_proposal rebuilt) d expected captured_at)))
      (compliance_args (cv_proposal rebuilt) d expected captured_at)) = Inr ev"
    "reduce_event (Some c) ev = Inr new" "projection_values new = Some vals" "mr_event mutation = ev"
    "opportunity_row db oid = Some (vals\<lparr> opp_acquisition_opportunity_id := oid \<rparr>)"
    using fresh_append_effect [OF step(5) fresh] by metis
  have c: "c = current" using effect(1) step(1) by simp
  note changed = next_action_event_effect [OF effect(3) compliance_draft_event [OF effect(2)]] decision_event_version [OF effect(3)]
    projection_values_fields [OF effect(4)]
  have act: "cw_next_action w = cp_next_action (cv_proposal rebuilt)" by (simp add: w compliance_write_def Let_def)
  have db': "cd_journal s' = db" "sd_suppressions s' = sd_suppressions s"
    using append_assessment_Inr(3) [OF ap] by (auto simp: set_cd_journal_def set_journal_def)
  note permitted = scheduled_permitted [OF step(3,4) _ assms(3)]
  show ?thesis
    using step(1,2) load(1,4-7) changed c effect(6) append_assessment_Inr(4) [OF ap] db' permitted resolved_french [OF build(4)] build(6,7)
    by (intro exI [of _ current] exI [of _ "vals\<lparr> opp_acquisition_opportunity_id := oid \<rparr>"] exI [of _ supplier] exI [of _ contact] exI [of _ profile])
      (auto simp: act compliance_args_def actionable_compliance_def compliance_bindings_def campaign_permitted_def sender_ready_def)
qed

section \<open>A sample campaign\<close>

definition sample_assessing :: opportunity where
  "sample_assessing = sample_waiting\<lparr> opp_state := SEND, opp_decision := Some D_SEND, opp_stream_version := 9,
     opp_next_action := Some ''assess_campaign_compliance'', opp_reason_codes := [''SENT''] \<rparr>"

definition sample_personalized :: event where
  "sample_personalized = (dummy_event sample_env2 ''opp-1'' 9 (sample_move\<lparr> aa_event_type := NEXT_ACTION_SET, aa_idempotency_key := ''k'',
     aa_payload := [(''next_action'', JStr ''assess_campaign_compliance'')] \<rparr>))\<lparr> ev_event_id := ''event-0'' \<rparr>"

definition sample_artifact :: artifact_row where
  "sample_artifact = (let zero = replicate 64 (CHR ''0'') in \<lparr> pa_personalization_artifact_id = ''art'', pa_acquisition_opportunity_id = ''opp-1'',
     pa_supplier_ref = ''sup'', pa_contact_ref = ''con'', pa_decision_evaluation_id = ''dec'', pa_language = ''fr'', pa_input_fingerprint = zero,
     pa_proposal_fingerprint = zero, pa_policy_action_fingerprint = zero, pa_artifact_fingerprint = zero,
     pa_snapshot_prebuild_fingerprint = Some zero, pa_snapshot_evidence_refs = [], pa_ready = True, pa_recorded_event_id = Some ''event-0'',
     pa_created_at = 0 \<rparr>)"

definition sample_process :: compliance_process where
  "sample_process = \<lparr> cs_keyring = sample_keyring, cs_sender_config = sample_sender, cs_contact_profile_version = ''v1'' \<rparr>"

definition sample_french_supplier :: compliance_supplier where
  "sample_french_supplier = supplier_row.extend sample_supplier \<lparr> sp_country_code = Some ''FR'' \<rparr>"

definition sample_french_company :: compliance_profile where
  "sample_french_company = company_profile.extend (sample_company\<lparr> ap_contact_role_tier := 1 \<rparr>) \<lparr> ap_provider_country = None \<rparr>"

definition sample_compliance :: compliance_db where
  "sample_compliance = \<lparr> sd_contacts = [sample_person], sd_suppressions = [],
     cd_gateway = \<lparr> g_system = \<lparr> sys_db = \<lparr> db_opportunities = [sample_assessing], db_events = [sample_personalized] \<rparr>, sys_pending = [] \<rparr>,
       g_controls = [], g_evaluations = [\<lparr> pe_decision = sample_authority, pe_semantic_fingerprint = ''f'' \<rparr>] \<rparr>,
     cd_suppliers = [sample_french_supplier], cd_profiles = [sample_french_company], cd_artifacts = [sample_artifact], cd_assessments = [] \<rparr>"

definition sample_clear :: suppression_match where
  "sample_clear = \<lparr> sm_state = CLEAR, sm_key_versions_considered = [''v1''], sm_suppression_refs = [] \<rparr>"

definition sample_country :: jurisdiction_resolution where
  "sample_country = \<lparr> jr_jurisdiction = IN_FR, jr_country_code = Some ''FR'', jr_resolvable = True, jr_evidence_refs = [''acquisition-supplier:sup:country''] \<rparr>"

lemma sample_compliance_facts:
  "get_opportunity (cd_journal sample_compliance) ''opp-1'' = Inr sample_assessing"
  "ready_artifact sample_compliance ''opp-1'' = Some sample_artifact" "artifact_scheduled sample_compliance sample_artifact"
  "compliance_bindings ''v1'' sample_assessing sample_artifact sample_french_supplier sample_person sample_french_company"
  "actionable_compliance sample_assessing"
  "resolve_jurisdiction (Some ''FR'') None ''sup'' ''acquisition-company-profile:opp-1'' = Inr sample_country"
  by code_simp+

lemma sample_person_identities:
  "identities_for_email sample_keyring KIVOU_ACQUISITION_EMAIL (ct_business_email sample_person) =
    Inr [(''v1'', hmac_sha256 ''secret-1'' (identity_domain KIVOU_ACQUISITION_EMAIL @ utf8 ''anna@example.org''))]"
  unfolding identities_for_email_def sample_objection_facts(4) by (simp add: sample_keyring_def)

lemma sample_not_suppressed:
  "match_contact sample_keyring KIVOU_ACQUISITION_EMAIL (suppression_db.truncate sample_compliance) ''con'' None = Inr sample_clear"
proof -
  have "get_contact (suppression_db.truncate sample_compliance) ''con'' = Inr sample_person"
    "sd_suppressions (suppression_db.truncate sample_compliance) = []" "sort (map fst (sk_keys sample_keyring)) = [''v1'']"
    by (simp_all add: get_contact_def find_contact_def sample_compliance_def suppression_db.defs sample_person_def sample_keyring_def)
  moreover have "list_all (clean_str 100) [''v1'']" "py_strip ''v1'' = ''v1''" by code_simp+
  ultimately show ?thesis
    by (simp add: match_contact_def sample_person_identities Let_def opt_all_def matching_rows_def SuppressionMatch_def sample_clear_def)
qed

abbreviation sample_loaded_compliance where
  "sample_loaded_compliance \<equiv> (sample_artifact, sample_french_supplier, sample_person, sample_french_company, sample_clear)"

lemma sample_compliance_loaded: "load_compliance sample_process sample_compliance sample_assessing = Inr sample_loaded_compliance"
proof -
  have "opp_acquisition_opportunity_id sample_assessing = ''opp-1''" "opp_contact_ref sample_assessing = Some ''con''"
    "opp_supplier_ref sample_assessing = Some ''sup''" "ct_contact_ref sample_person = ''con''" "sp_supplier_ref sample_french_supplier = ''sup''"
    "ap_acquisition_opportunity_id sample_french_company = ''opp-1''" "cs_keyring sample_process = sample_keyring"
    "cs_contact_profile_version sample_process = ''v1''" "cd_suppliers sample_compliance = [sample_french_supplier]"
    "cd_profiles sample_compliance = [sample_french_company]"
    "find_contact (suppression_db.truncate sample_compliance) ''con'' = Some sample_person"
    by (simp_all add: sample_assessing_def sample_waiting_def sample_person_def sample_french_supplier_def sample_supplier_def supplier_row.defs
        sample_french_company_def sample_company_def company_profile.defs sample_process_def sample_compliance_def find_contact_def suppression_db.defs)
  then show ?thesis
    by (simp add: load_compliance_def sample_compliance_facts sample_not_suppressed)
qed

definition sample_schedule :: compliance_proposal where
  \<comment> \<open>but for its fingerprints\<close>
  "sample_schedule = \<lparr> cp_state = ALLOWED,
     cp_reason_codes = [''JURISDICTION_RULESET_SATISFIED'', ''BUSINESS_CONTEXT_VERIFIED'', ''SENDER_AND_OBJECTION_MECHANISM_VERIFIED''],
     cp_evidence_refs = [''acquisition-personalization:art'', ''acquisition-decision:dec'', ''acquisition-contact:con'', ''acquisition-supplier:sup'',
       ''acquisition-company-profile:opp-1'', ''acquisition-supplier:sup:country''],
     cp_next_action = Some ''schedule_campaign'', cp_valid_until = None, cp_input_fingerprint = [], cp_ruleset_config_fingerprint = [],
     cp_proposal_fingerprint = [] \<rparr>"

definition sample_sendable :: compliance_input where
  "sample_sendable = (let i = sample_french\<lparr> ci_evidence_refs := cp_evidence_refs sample_schedule, ci_compliance_input_fingerprint := [] \<rparr>
     in i\<lparr> ci_compliance_input_fingerprint := compliance_input_fingerprint i \<rparr>)"

lemma sample_sendable_facts:
  "compliance_evidence ''opp-1'' sample_artifact ''sup'' ''con'' sample_clear sample_country = cp_evidence_refs sample_schedule"
  "take 16 (fromkeys (cp_evidence_refs sample_schedule @ jr_evidence_refs sample_country)) = cp_evidence_refs sample_schedule"
  "clean_refs 16 (cp_evidence_refs sample_schedule)"
  "list_all (\<lambda>s. py_strip s = s) [''opp-1'', ''sup'', ''con'', ''art'', ''v1'', RULESET_LEGAL_REVIEW_REF]"
  "map py_strip (cp_evidence_refs sample_schedule) = cp_evidence_refs sample_schedule"
  by code_simp+

lemma is_fingerprint_semantic: "is_fingerprint (semantic_fingerprint kvs)"
  by (simp add: semantic_fingerprint_def)

lemma refs_do_not_matter:
  "ruleset_bound (v\<lparr> ci_evidence_refs := e, ci_compliance_input_fingerprint := f \<rparr>) c = ruleset_bound v c"
  "campaign_permitted (v\<lparr> ci_evidence_refs := e, ci_compliance_input_fingerprint := f \<rparr>) c = campaign_permitted v c"
  by (simp_all add: ruleset_bound_def campaign_permitted_def sender_ready_def cong: compliance_jurisdiction.case_cong)

lemma sample_sendable_ok: "ComplianceInput sample_sendable = Inr sample_sendable" "ruleset_bound sample_sendable RULESET_V1"
   "campaign_permitted sample_sendable RULESET_V1" "wf_compliance_input sample_sendable"
proof -
  obtain f where upd: "sample_sendable = sample_french\<lparr> ci_evidence_refs := cp_evidence_refs sample_schedule, ci_compliance_input_fingerprint := f \<rparr>"
    and f: "is_fingerprint f"
    by (simp add: sample_sendable_def Let_def compliance_input_fingerprint_def is_fingerprint_semantic)
  show wf: "wf_compliance_input sample_sendable"
    using sample_french_ok(1) f sample_sendable_facts(3) unfolding upd by (simp add: wf_compliance_input_def)
  show "ruleset_bound sample_sendable RULESET_V1" "campaign_permitted sample_sendable RULESET_V1"
    using sample_french_ok(2) sample_french_permitted by (simp_all only: upd refs_do_not_matter)
  have "strip_compliance_input sample_sendable = sample_sendable"
    using sample_sendable_facts(4,5)
    unfolding upd by (simp add: strip_compliance_input_def sample_french_def Let_def)
  then show "ComplianceInput sample_sendable = Inr sample_sendable" using wf by (simp add: ComplianceInput_def)
qed


lemma sample_assessing_fields:
  "opp_acquisition_opportunity_id sample_assessing = ''opp-1''" "opp_stream_version sample_assessing = 9"
  "sp_supplier_ref sample_french_supplier = ''sup''" "sp_country_code sample_french_supplier = Some ''FR''"
  "sp_identity_status sample_french_supplier = SIRENE_IDENTIFIED" "ap_provider_country sample_french_company = None"
  "ct_contact_ref sample_person = ''con''" "ct_role_tier sample_person = 1" "ct_role_profile_version sample_person = ''v1''"
  "ct_source_fingerprint sample_person = replicate 64 (CHR ''0'')" "cs_sender_config sample_process = sample_sender"
  "sm_state sample_clear = CLEAR" "sm_key_versions_considered sample_clear = [''v1'']"
  "pa_personalization_artifact_id sample_artifact = ''art''" "pa_language sample_artifact = ''fr''"
  "pa_artifact_fingerprint sample_artifact = replicate 64 (CHR ''0'')" "pa_input_fingerprint sample_artifact = replicate 64 (CHR ''0'')"
  "pa_proposal_fingerprint sample_artifact = replicate 64 (CHR ''0'')" "pa_policy_action_fingerprint sample_artifact = replicate 64 (CHR ''0'')"
  by (simp_all add: sample_assessing_def sample_waiting_def sample_french_supplier_def sample_supplier_def supplier_row.defs sample_french_company_def
      company_profile.defs sample_person_def sample_process_def sample_clear_def sample_artifact_def Let_def)

lemma sample_compliance_built:
  obtains v where "build_compliance sample_process sample_assessing sample_loaded_compliance sample_assessed = Inr v"
    "cp_next_action (cv_proposal v) = cp_next_action sample_schedule" "cp_reason_codes (cv_proposal v) = cp_reason_codes sample_schedule"
    "cp_evidence_refs (cv_proposal v) = cp_evidence_refs sample_schedule"
    "ci_acquisition_opportunity_id (cv_input v) = ''opp-1''" "ci_supplier_ref (cv_input v) = ''sup''" "ci_contact_ref (cv_input v) = ''con''"
    "ci_personalization_artifact_id (cv_input v) = ''art''" "is_fingerprint (cv_action_fingerprint v)" "coherent_result (cv_proposal v)"
proof -
  obtain f where upd: "sample_sendable = sample_french\<lparr> ci_evidence_refs := cp_evidence_refs sample_schedule, ci_compliance_input_fingerprint := f \<rparr>"
    by (simp add: sample_sendable_def Let_def)
  obtain p where p: "evaluate_compliance sample_sendable RULESET_V1 = Inr p"
    using evaluate_compliance_total [OF sample_sendable_ok(4) _ sample_sendable_ok(2) sample_french_ok(4)] sample_french_ok(3) by (auto simp: upd)
  have country: "jr_jurisdiction (ci_jurisdiction sample_sendable) = IN_FR" "ci_jurisdiction sample_sendable = sample_country"
    by (simp_all add: upd sample_french_def sample_country_def Let_def)
  have state: "cp_state p = ALLOWED" using evaluate_compliance_answer(1) [OF p] sample_sendable_ok(3) by simp
  have "cp_next_action p = cp_next_action sample_schedule" "cp_reason_codes p = cp_reason_codes sample_schedule"
    using evaluate_compliance_Inr(1) [OF p] state country(1) by (auto simp: compliance_verdict_def Let_def sample_schedule_def split: if_split_asm)
  moreover have "cp_evidence_refs p = cp_evidence_refs sample_schedule"
    using evaluate_compliance_evidence [OF p] sample_sendable_facts(2,5) country(2) by (simp add: upd)
  moreover have "\<exists>v. build_compliance sample_process sample_assessing sample_loaded_compliance sample_assessed = Inr v \<and>
      cv_proposal v = p \<and> cv_input v = sample_sendable \<and> is_fingerprint (cv_action_fingerprint v)"
  proof -
    have draft: "\<lparr> ci_acquisition_opportunity_id = ''opp-1'', ci_supplier_ref = ''sup'', ci_contact_ref = ''con'',
        ci_personalization_artifact_id = ''art'', ci_personalization_artifact_fingerprint = replicate 64 (CHR ''0''),
        ci_personalization_input_fingerprint = replicate 64 (CHR ''0''), ci_personalization_proposal_fingerprint = replicate 64 (CHR ''0''),
        ci_personalization_policy_action_fingerprint = replicate 64 (CHR ''0''), ci_language = ''fr'',
        ci_supplier_identity_status = SIRENE_IDENTIFIED, ci_contact_source_fingerprint = replicate 64 (CHR ''0''),
        ci_contact_role_profile_version = ''v1'', ci_contact_role_tier = 1, ci_jurisdiction = sample_country,
        ci_business_context_state = PROFESSIONAL_CONTEXT_VERIFIED, ci_email_provenance = PROVIDER_VERIFIED_BUSINESS_CONTACT,
        ci_sender_config = sample_sender, ci_acquisition_purpose = KIVOU_ACQUISITION_SIGNAL_RELEVANCE, ci_ch_legal_basis = UNPROVEN,
        ci_suppression_match_state = CLEAR, ci_suppression_key_versions_considered = [''v1''],
        ci_evidence_refs = cp_evidence_refs sample_schedule, ci_ruleset_config_fingerprint = the (rs_config_fingerprint RULESET_V1),
        ci_ruleset_legal_review_ref = rs_legal_review_ref RULESET_V1, ci_ruleset_effective_from = rs_effective_from RULESET_V1,
        ci_ruleset_valid_until = rs_valid_until RULESET_V1, ci_assessed_at = sample_assessed, ci_as_of_date = dt_date sample_assessed,
        ci_compliance_input_fingerprint = f \<rparr> =
      sample_french\<lparr> ci_evidence_refs := cp_evidence_refs sample_schedule, ci_compliance_input_fingerprint := f \<rparr>" for f
      by (simp add: sample_french_def Let_def RULESET_V1_def RULESET_DRAFT_def sample_country_def)
    have whole: "ComplianceInput (sample_french\<lparr> ci_evidence_refs := cp_evidence_refs sample_schedule, ci_compliance_input_fingerprint :=
        compliance_input_fingerprint (sample_french\<lparr> ci_evidence_refs := cp_evidence_refs sample_schedule, ci_compliance_input_fingerprint := [] \<rparr>) \<rparr>)
        = Inr sample_sendable"
      using sample_sendable_ok(1) by (simp add: sample_sendable_def Let_def)
    show ?thesis
      by (simp add: build_compliance_def Let_def sample_assessing_fields sample_compliance_facts(6) sample_sendable_facts(1) draft whole p
          compliance_of_def compliance_action_fingerprint_def is_fingerprint_semantic)
  qed
  ultimately show thesis using that evaluate_compliance_answer(2) [OF p] by (auto simp: upd sample_french_def Let_def)
qed

definition sample_scheduling :: append_args where
  "sample_scheduling = \<lparr> aa_event_type = NEXT_ACTION_SET, aa_expected_version = 9, aa_idempotency_key = ''compliance_next_action:eval'',
     aa_payload = [(''next_action'', JStr ''schedule_campaign'')], aa_actor_type = SYSTEM, aa_actor_ref = Some ''kivou-compliance'',
     aa_reason_codes = cp_reason_codes sample_schedule, aa_evidence_refs = cp_evidence_refs sample_schedule,
     aa_policy_version = Some POLICY_VERSION, aa_skill_version = None, aa_supervisor_version = None, aa_confidence = None,
     aa_estimated_cost = None, aa_correlation_id = None, aa_causation_id = Some ''eval'', aa_occurred_at = Some sample_assessed \<rparr>"

definition sample_scheduled :: opportunity where
  "sample_scheduled = (case reduce_event (Some sample_assessing) (dummy_event sample_env2 ''opp-1'' 10 sample_scheduling) of Inr n \<Rightarrow> n | Inl _ \<Rightarrow> undefined)"

lemma sample_scheduling_ok:
  "wf_event (dummy_event sample_env2 ''opp-1'' 10 sample_scheduling)"
  "event_columns_ok (dummy_event sample_env2 ''opp-1'' 10 sample_scheduling)"
  "opt_all is_aware (aa_occurred_at sample_scheduling)" "aa_expected_version sample_scheduling = 9"
  "ev_event_id (dummy_event sample_env2 ''opp-1'' 10 sample_scheduling) = ''event-2''"
  "ev_acquisition_opportunity_id (dummy_event sample_env2 ''opp-1'' 10 sample_scheduling) = ''opp-1''"
  "is_ok (reduce_event (Some sample_assessing) (dummy_event sample_env2 ''opp-1'' 10 sample_scheduling))"
  "opportunity_columns_ok sample_scheduled" 
  "aa_idempotency_key sample_scheduling = ''compliance_next_action:eval''"
  "ev_idempotency_key sample_personalized = ''k''" "ev_event_id sample_personalized = ''event-0''" "ev_stream_sequence sample_personalized = 9"
  "ev_acquisition_opportunity_id sample_personalized = ''opp-1''"
  "ev_stream_sequence (dummy_event sample_env2 ''opp-1'' 10 sample_scheduling) = 10 \<and>
    ev_idempotency_key (dummy_event sample_env2 ''opp-1'' 10 sample_scheduling) = ''compliance_next_action:eval''"
  by code_simp+


lemma sample_compliance_journal:
  "cd_journal sample_compliance = \<lparr> db_opportunities = [sample_assessing], db_events = [sample_personalized] \<rparr>"
  by (simp add: sample_compliance_def)

lemma insert_into_assessing:
  assumes "event_columns_ok e" and "ev_acquisition_opportunity_id e = ''opp-1''" and "projection_values n = Some vals"
    and "ev_event_id e = ''event-2''" and "ev_stream_sequence e = 10" and "ev_idempotency_key e = ''compliance_next_action:eval''"
  shows "\<exists>db r. append_write (cd_journal sample_compliance) ''opp-1'' 9 e n = Inr (db, r) \<and> mr_event r = e \<and>
     opportunity_row db ''opp-1'' \<noteq> None \<and> map ev_event_id (db_events db) = [''event-0'', ''event-2'']"
  using assms sample_assessing_fields(1,2) sample_scheduling_ok(10-12)
  by (auto simp: append_write_def insert_event_def event_values_def sample_compliance_journal replace_row_def opportunity_row_def round_event_def)

lemma sample_scheduling_append:
  obtains db r where "append_event sample_env2 (cd_journal sample_compliance) ''opp-1'' sample_scheduling = Inr (db, r)"
    "ev_event_id (mr_event r) = ''event-2''" "opportunity_row db ''opp-1'' \<noteq> None" "map ev_event_id (db_events db) = [''event-0'', ''event-2'']"
proof -
  define fp where "fp = fingerprint (semantic_input sample_scheduling)"
  define e where "e = (dummy_event sample_env2 ''opp-1'' 10 sample_scheduling)\<lparr> ev_semantic_fingerprint := fp \<rparr>"
  have fp: "is_fingerprint fp" unfolding fp_def by (rule is_fingerprint_sample)
  have "AcquisitionEvent (event_draft_of sample_env2 ''opp-1'' 10 fp sample_scheduling) = Inr e"
    unfolding e_def by (rule draft_event_fp [OF sample_scheduling_ok(1) fp sample_move_ok(5) sample_scheduling_ok(3)])
  moreover have reduced: "reduce_event (Some sample_assessing) e = Inr sample_scheduled"
    using sample_scheduling_ok(7) unfolding e_def reduce_event_fp is_ok_iff sample_scheduled_def by auto
  moreover have "event_rows (cd_journal sample_compliance) ''opp-1'' = [sample_personalized]"
    by (simp add: sample_compliance_journal event_rows_def sample_scheduling_ok(13))
  ultimately have read: "append_read sample_env2 (cd_journal sample_compliance) ''opp-1'' sample_scheduling = Inr (Fresh e sample_scheduled)"
    by (simp add: append_read_def Let_def sample_compliance_facts(1) sample_scheduling_ok(4,9,10) sample_assessing_fields(2) flip: fp_def)
  have col: "event_columns_ok e" unfolding e_def by (rule event_columns_fp [OF sample_scheduling_ok(2) fp])
  have ids: "ev_event_id e = ''event-2''" "ev_acquisition_opportunity_id e = ''opp-1''" "ev_stream_sequence e = 10"
      "ev_idempotency_key e = ''compliance_next_action:eval''"
    using sample_scheduling_ok(5,6,14) by (simp_all add: e_def)
  obtain vals where vals: "projection_values sample_scheduled = Some vals"
    using sample_scheduling_ok(8) by (auto simp: projection_values_def)
  obtain db r where "append_write (cd_journal sample_compliance) ''opp-1'' 9 e sample_scheduled = Inr (db, r)" "mr_event r = e"
     "opportunity_row db ''opp-1'' \<noteq> None" "map ev_event_id (db_events db) = [''event-0'', ''event-2'']"
    using insert_into_assessing [OF col ids(2) vals ids(1,3,4)] by (elim exE conjE)
  then show thesis using that read by (simp add: append_event_def sample_scheduling_ok(4) ids(1))
qed

lemma coherent_write:
  "coherent_result (cv_proposal v) \<Longrightarrow> coherent_assessment (compliance_write v d RECORDED t n (Some e))"
  by (cases "cp_state (cv_proposal v)") (simp_all add: coherent_assessment_def coherent_result_def compliance_write_def Let_def)

theorem campaign_scheduled_safely_witness:
  "\<exists>v s' w. commit_compliance sample_env2 sample_process sample_compliance ''opp-1'' v sample_authority 9 sample_assessed = Inr (s', w) \<and>
     cw_next_action w = Some ''schedule_campaign'' \<and> (\<exists>after. opportunity_row (cd_journal s') ''opp-1'' = Some after \<and>
     opp_next_action after = Some ''schedule_campaign'' \<and> opp_stream_version after = 10) \<and>
     \<not> suppressed_as KIVOU_ACQUISITION_EMAIL ''v1'' ''secret-1'' ''anna@example.org'' (suppression_db.truncate sample_compliance)"
proof -
  obtain v where v: "build_compliance sample_process sample_assessing sample_loaded_compliance sample_assessed = Inr v"
      "cp_next_action (cv_proposal v) = cp_next_action sample_schedule" "cp_reason_codes (cv_proposal v) = cp_reason_codes sample_schedule"
      "cp_evidence_refs (cv_proposal v) = cp_evidence_refs sample_schedule"
    and ids: "ci_acquisition_opportunity_id (cv_input v) = ''opp-1''" "ci_supplier_ref (cv_input v) = ''sup''"
      "ci_contact_ref (cv_input v) = ''con''" "ci_personalization_artifact_id (cv_input v) = ''art''"
      "is_fingerprint (cv_action_fingerprint v)" "coherent_result (cv_proposal v)"
    by (rule sample_compliance_built)
  have args: "compliance_args (cv_proposal v) sample_authority 9 sample_assessed = sample_scheduling"
    using sample_answer_ok(3) sample_version
    by (simp add: sample_scheduling_def compliance_args_def v(2-4) sample_authority_def) (simp add: sample_schedule_def opt_str_def)
  obtain db r where ap: "append_event sample_env2 (cd_journal sample_compliance) ''opp-1'' sample_scheduling = Inr (db, r)"
      "ev_event_id (mr_event r) = ''event-2''" "opportunity_row db ''opp-1'' \<noteq> None" "map ev_event_id (db_events db) = [''event-0'', ''event-2'']"
    by (rule sample_scheduling_append)
  have event: "\<exists>e \<in> set (db_events db). ev_event_id e = ''event-2''"
  proof -
    have "''event-2'' \<in> set (map ev_event_id (db_events db))" unfolding ap(4) by simp
    then show ?thesis by (simp only: set_map image_iff) metis
  qed
  have clean: "clean_str 256 ''eval'' \<and> clean_str 256 ''event-2''"
      "varchar_ok 64 ''opp-1'' \<and> varchar_ok 64 ''eval'' \<and> varchar_ok 64 ''event-2'' \<and> varchar_ok 64 ''art'' \<and> varchar_ok 64 ''sup'' \<and> varchar_ok 64 ''con''"
    by code_simp+
  have id: "pd_evaluation_id sample_authority = ''eval''" using sample_answer_ok(3) by (simp add: sample_authority_def)
  let ?w = "compliance_write v sample_authority RECORDED sample_assessed 9 (Some ''event-2'')"
  have coherent: "coherent_assessment ?w" by (rule coherent_write [OF ids(6)])
  have "append_assessment (set_cd_journal db sample_compliance) ?w =
      Inr ((set_cd_journal db sample_compliance)\<lparr> cd_assessments := [?w] \<rparr>, ?w)"
    using event ap(3) clean ids(5) coherent
    by (simp add: append_assessment_def assessment_of_policy_def wf_assessment_def compliance_write_def Let_def ids(1-4) id assessment_columns_ok_def
        assessment_references_ok_def set_cd_journal_def set_journal_def sample_compliance_def evaluation_of_def opt_all_def list_ex_iff
        sample_assessing_fields sample_artifact_def)
  then obtain s' where run: "commit_compliance sample_env2 sample_process sample_compliance ''opp-1'' v sample_authority 9 sample_assessed = Inr (s', ?w)"
    by (simp add: commit_compliance_def journal_of_def second_look_def sample_compliance_facts(1) sample_assessing_fields(2) sample_compliance_loaded
        v(1) args ap(1,2))
  have fresh: "List.find (\<lambda>e. ev_idempotency_key e = ''compliance_next_action:'' @ pd_evaluation_id sample_authority)
      (event_rows (cd_journal sample_compliance) ''opp-1'') = None"
    by (simp add: sample_compliance_journal event_rows_def sample_scheduling_ok(10,13) id)
  have ring: "wf_keyring (cs_keyring sample_process)" "map_of (sk_keys (cs_keyring sample_process)) ''v1'' = Some ''secret-1''"
    using sample_objection_facts(1) by (simp_all add: sample_process_def) (simp add: sample_keyring_def)
  have scheduled: "cw_next_action ?w = Some ''schedule_campaign''" by (simp add: compliance_write_def Let_def v(2) sample_schedule_def)
  have person: "find_contact (suppression_db.truncate sample_compliance) (the (opp_contact_ref sample_assessing)) = Some sample_person"
    using load_complianceE(7) [OF sample_compliance_loaded] .
  obtain current after contact where safe: "get_opportunity (cd_journal sample_compliance) ''opp-1'' = Inr current"
      "opportunity_row (cd_journal s') ''opp-1'' = Some after" "opp_next_action after = cw_next_action ?w" "opp_stream_version after = 9 + 1"
      "find_contact (suppression_db.truncate sample_compliance) (the (opp_contact_ref current)) = Some contact"
      "\<forall>n version secret. normalize_business_email (ct_business_email contact) = Inr n \<longrightarrow>
        map_of (sk_keys (cs_keyring sample_process)) version = Some secret \<longrightarrow>
        \<not> suppressed_as KIVOU_ACQUISITION_EMAIL version secret n (suppression_db.truncate sample_compliance)"
    using campaign_scheduled_safely [OF run fresh ring(1)] scheduled by metis
  have "contact = sample_person" using safe(1,5) person sample_compliance_facts(1) by simp
  then have "\<not> suppressed_as KIVOU_ACQUISITION_EMAIL ''v1'' ''secret-1'' ''anna@example.org'' (suppression_db.truncate sample_compliance)"
    using safe(6) ring(2) sample_objection_facts(4) by simp
  then show ?thesis using run scheduled safe(2-4) by (intro exI [of _ v] exI [of _ s'] exI [of _ ?w]) simp
qed

end
