(* ===== verification/ComplianceAssess.thy ===== *)
theory ComplianceAssess
  imports ComplianceService
begin

text \<open>
  A run of the compliance service, \<open>ComplianceService.assess\<close> of \<open>compliance/service.py\<close>: it answers from an earlier
  assessment if that was made for the same request, and otherwise loads, builds, asks the gateway for authority and commits.

  As in \<open>DecisionService\<close> each read before the commit may see a state of its own, and other processes change the state by
  \<open>later\<close> between the answer of the gateway and the commit; a run that lost a race looks again up to a hundred times.

  Shown here: a run only takes steps of the joint system, in which every assessment is backed by an authority and an event.
\<close>

section \<open>The request\<close>

record compliance_authorization =
  au_evaluation_id :: string
  au_request_id :: string
  au_actor_type :: string
  au_actor_ref :: "string option"
  au_qa_signal_ref :: "string option"
  au_scope :: scope
  au_currency :: string
  au_evidence :: evidence_readiness
  au_operational :: operational_readiness
  au_expected_policy_version :: string
  au_approval_grants :: "approval_grant list"
  au_supervisor_plan_id :: "string option"
  au_supervisor_action_index :: "int option"
  au_supervisor_version :: "string option"
  au_skill_version :: "string option"

definition COMPLIANCE_EVIDENCE :: "string list" where
  "COMPLIANCE_EVIDENCE = [''ACQUISITION_DECISION'', ''PUBLIC_EVIDENCE'', ''VERIFIED_CONTACT'', ''ACQUISITION_PROSPECT_PREBUILD'',
     ''PERSONALIZATION_ARTIFACT'', ''COMPLIANCE_INPUT'']"

definition internal_evidence :: "compliance_authorization \<Rightarrow> evidence_readiness" where
  "internal_evidence a = (au_evidence a)\<lparr> er_claims := COMPLIANCE_EVIDENCE \<rparr>"

definition pending_compliance :: "instant \<Rightarrow> compliance_assessment" where
  "pending_compliance observed_at = \<lparr> cpa_state = COMPLIANCE_UNKNOWN, cpa_assessment_version = ''policy-compliance-pending-v1'',
     cpa_observed_at = observed_at, cpa_valid_until = None \<rparr>"

definition assessment_request ::
  "compliance_authorization \<Rightarrow> string \<Rightarrow> int \<Rightarrow> string \<Rightarrow> string \<Rightarrow> string \<Rightarrow> string \<Rightarrow> string \<Rightarrow> string \<Rightarrow> string list \<Rightarrow> instant \<Rightarrow> policy_request" where
  "assessment_request a oid version input_fp proposal_fp artifact supplier contact action_fp evidence observed_at = \<lparr>
     rq_evaluation_id = au_evaluation_id a, rq_request_id = au_request_id a, rq_command = ''assess_campaign_compliance'',
     rq_target_ref = ''acquisition-opportunity:'' @ oid, rq_acquisition_opportunity_id = Some oid,
     rq_qa_signal_ref = au_qa_signal_ref a, rq_expected_opportunity_version = Some version,
     rq_actor_type = au_actor_type a, rq_actor_ref = au_actor_ref a,
     rq_canonical_arguments = dumps (JObj [(''compliance_input_fingerprint'', JStr input_fp), (''compliance_proposal_fingerprint'', JStr proposal_fp),
       (''personalization_artifact_id'', JStr artifact), (''supplier_ref'', JStr supplier), (''contact_ref'', JStr contact)]),
     rq_action_fingerprint = action_fp, rq_scope = au_scope a, rq_proposed_cost = 0, rq_currency = au_currency a,
     rq_proposed_volume = 0, rq_reason_codes = [''COMPLIANCE_PROPOSED''], rq_evidence_refs = evidence,
     rq_evidence = internal_evidence a, rq_compliance = pending_compliance observed_at, rq_operational = au_operational a,
     rq_expected_policy_version = au_expected_policy_version a, rq_approval_grants = au_approval_grants a,
     rq_supervisor_plan_id = au_supervisor_plan_id a, rq_supervisor_action_index = au_supervisor_action_index a,
     rq_supervisor_version = au_supervisor_version a, rq_skill_version = au_skill_version a \<rparr>"

datatype assess_error =
    Assess_failed compliance_service_error
  | Assess_needs_fresh_attempt string
  | Assess_clock_not_aware
  | Assess_gateway_failed gateway_error
  | Assess_control_failed policy_error

definition compliance_request ::
  "compliance_authorization \<Rightarrow> compliance_values \<Rightarrow> (assess_error, policy_request) result" where
  \<comment> \<open>the references are those of the supplier and the contact\<close>
  "compliance_request a v =
     (let i = cv_input v; p = cv_proposal v; current = cv_opportunity v
      in if sc_country (au_scope a) \<noteq> jr_country_code (ci_jurisdiction i) \<or> sc_language (au_scope a) \<noteq> Some (ci_language i)
         then Inl (Assess_failed Compliance_binding_conflict)
         else Inr (assessment_request a (opp_acquisition_opportunity_id current) (opp_stream_version current) (ci_compliance_input_fingerprint i)
           (cp_proposal_fingerprint p) (ci_personalization_artifact_id i) (the (opp_supplier_ref current)) (the (opp_contact_ref current))
           (cv_action_fingerprint v) (cp_evidence_refs p) (instant_of (ci_assessed_at i))))"

definition assessment_replay_request :: "compliance_authorization \<Rightarrow> assessment_write \<Rightarrow> int \<Rightarrow> instant \<Rightarrow> policy_request" where
  "assessment_replay_request a w version observed_at =
     assessment_request a (cw_acquisition_opportunity_id w) version (cw_input_fingerprint w) (cw_proposal_fingerprint w)
       (cw_personalization_artifact_id w) (cw_supplier_ref w) (cw_contact_ref w) (cw_policy_action_fingerprint w) (cw_evidence_refs w) observed_at"

section \<open>An earlier assessment\<close>

definition assess_control :: "(policy_error, 'a) result \<Rightarrow> (assess_error, 'a) result" where
  "assess_control r = (case r of Inl e \<Rightarrow> Inl (Assess_control_failed e) | Inr x \<Rightarrow> Inr x)"

definition policy_event_of :: "compliance_db \<Rightarrow> string \<Rightarrow> string \<Rightarrow> event option" where
  "policy_event_of s oid eid =
     List.find (\<lambda>e. ev_idempotency_key e = audit_key eid) (event_rows (cd_journal s) oid)"

definition require_existing ::
  "fingerprinting \<Rightarrow> compliance_db \<Rightarrow> assessment_write \<Rightarrow> string \<Rightarrow> compliance_authorization \<Rightarrow> (assess_error, unit) result" where
  "require_existing fx s w oid a =
     (let eid = au_evaluation_id a; conflict = Assess_failed (Assessment_idempotency_conflict eid); controls = g_controls (cd_gateway s)
      in if cw_acquisition_opportunity_id w \<noteq> oid \<or> cw_compliance_assessment_id w \<noteq> compliance_assessment_id eid then Inl conflict
         else (case (evaluation_of (cd_gateway s) eid, policy_event_of s oid eid) of
             (Some row, Some e) \<Rightarrow>
               if pd_request_id (pe_decision row) \<noteq> au_request_id a then Inl conflict
               else (let d = decision_from_row row
                 in rbind (assess_control (get_control controls (pd_policy_snapshot_id d))) (\<lambda>control.
                    let cost_used = dec_sub (pc_daily_cost_cap control) (pd_cost_remaining d);
                        volume_used = pc_daily_volume_cap control - pd_volume_remaining d;
                        usage = \<lparr> bu_cost_used = cost_used, bu_volume_used = volume_used \<rparr>;
                        request = assessment_replay_request a w (ev_stream_sequence e - 1) (pd_evaluated_at d);
                        evaluated_at = of_local (pd_evaluated_at d) (Some 0)
                    in if cost_used < 0 \<or> volume_used < 0 then Inl conflict
                       else rbind (assess_control (gateway_snapshot controls request evaluated_at usage (Some (pd_policy_snapshot_id d)))) (\<lambda>snapshot.
                         ensure (pe_semantic_fingerprint row = fst (fx_pair fx request snapshot usage evaluated_at) \<or>
                           pe_semantic_fingerprint row \<in> set (fx_legacy fx request snapshot usage evaluated_at)) conflict)))
           | _ \<Rightarrow> Inl conflict))"

definition existing_assessment ::
  "fingerprinting \<Rightarrow> compliance_db \<Rightarrow> string \<Rightarrow> compliance_authorization \<Rightarrow> (assess_error, assessment_write) result option" where
  \<comment> \<open>an assessment under the id of the authorization, which must be for the same request\<close>
  "existing_assessment fx s oid a =
     map_option (\<lambda>w. rmap (\<lambda>_. w) (require_existing fx s w oid a)) (assessment_of_policy s (au_evaluation_id a))"

definition await_concurrent ::
  "fingerprinting \<Rightarrow> compliance_db list \<Rightarrow> string \<Rightarrow> compliance_authorization \<Rightarrow> (assess_error, assessment_write) result" where
  \<comment> \<open>one look at each of the states, a hundred at most\<close>
  "await_concurrent fx looks oid a =
     (case List.find (\<lambda>s. existing_assessment fx s oid a \<noteq> None) (take 100 looks) of
        None \<Rightarrow> Inl (Assess_failed Compliance_input_changed)
      | Some s \<Rightarrow> the (existing_assessment fx s oid a))"

section \<open>The run\<close>

record compliance_views =
  vw_lookup :: compliance_db \<comment> \<open>the two first lookups\<close>
  vw_loaded :: compliance_db \<comment> \<open>the inputs\<close>
  vw_prepared :: gateway_db \<comment> \<open>\<open>prepare\<close> of the gateway\<close>
  vw_read :: gateway_db \<comment> \<open>the first lookup of its recording\<close>
  vw_after :: "compliance_db list" \<comment> \<open>the lookups after a lost race\<close>

definition assess_failed :: "(compliance_service_error, 'a) result \<Rightarrow> (assess_error, 'a) result" where
  "assess_failed r = (case r of Inl e \<Rightarrow> Inl (Assess_failed e) | Inr x \<Rightarrow> Inr x)"

definition committed ::
  "compliance_db \<Rightarrow> (compliance_service_error, compliance_db \<times> assessment_write) result \<Rightarrow> compliance_db \<times> (assess_error, assessment_write) result" where
  \<comment> \<open>a transaction that raises leaves the state it found\<close>
  "committed s r = (case r of Inl e \<Rightarrow> (s, Inl (Assess_failed e)) | Inr (s', w) \<Rightarrow> (s', Inr w))"

definition conclude_assessment ::
  "fingerprinting \<Rightarrow> store_env \<Rightarrow> compliance_process \<Rightarrow> compliance_db list \<Rightarrow> compliance_db \<Rightarrow> string \<Rightarrow> compliance_authorization \<Rightarrow>
     compliance_values \<Rightarrow> policy_decision \<Rightarrow> int \<Rightarrow> datetime \<Rightarrow> compliance_db \<times> (assess_error, assessment_write) result" where
  "conclude_assessment fx env cs looks s oid a v d expected captured_at =
     (if \<not> pd_executable d then committed s (commit_compliance_blocked s v d expected captured_at)
      else (case commit_compliance env cs s oid v d expected captured_at of
          Inl Compliance_input_changed \<Rightarrow> (s, await_concurrent fx looks oid a)
        | r \<Rightarrow> committed s r))"

definition built_request ::
  "compliance_process \<Rightarrow> compliance_db \<Rightarrow> string \<Rightarrow> compliance_authorization \<Rightarrow> datetime \<Rightarrow> (assess_error, compliance_values \<times> policy_request) result" where
  "built_request cs s oid a captured_at =
     rbind (assess_failed (rbind (journal_of (get_opportunity (cd_journal s) oid)) (\<lambda>current.
       rbind (load_compliance cs s current) (\<lambda>loaded. build_compliance cs current loaded captured_at)))) (\<lambda>v.
     rmap (Pair v) (compliance_request a v))"

definition assess ::
  "fingerprinting \<Rightarrow> store_env \<Rightarrow> store_env \<Rightarrow> compliance_process \<Rightarrow> compliance_views \<Rightarrow> (compliance_db \<Rightarrow> compliance_db) \<Rightarrow> compliance_db \<Rightarrow> string \<Rightarrow>
     compliance_authorization \<Rightarrow> budget_usage \<Rightarrow> datetime \<Rightarrow> compliance_db \<times> (assess_error, assessment_write) result" where
  "assess fx audit_env env cs v later s oid a usage clock =
     (case existing_assessment fx (vw_lookup v) oid a of
        Some answer \<Rightarrow> (s, answer)
      | None \<Rightarrow>
          if evaluation_of (cd_gateway (vw_lookup v)) (au_evaluation_id a) \<noteq> None then (s, Inl (Assess_needs_fresh_attempt (au_evaluation_id a)))
          else if \<not> is_aware clock then (s, Inl Assess_clock_not_aware)
          else (case built_request cs (vw_loaded v) oid a (to_utc clock) of
              Inl e \<Rightarrow> (s, Inl e)
            | Inr (x, request) \<Rightarrow>
                (case evaluate_and_record (fx_pair fx) audit_env (vw_prepared v) (vw_read v) (cd_gateway s) request (to_utc clock) usage None
                    (Dec False 0 0) of
                   Inl (GatewayIdempotencyConflict e) \<Rightarrow> (s, Inl (Assess_failed (Assessment_idempotency_conflict (au_evaluation_id a))))
                 | Inl (GatewayAcquisitionError OpportunityConcurrencyConflict) \<Rightarrow> (s, await_concurrent fx (vw_after v) oid a)
                 | Inl e \<Rightarrow> (s, Inl (Assess_gateway_failed e))
                 | Inr (g, d) \<Rightarrow> conclude_assessment fx env cs (vw_after v) (later (s\<lparr> cd_gateway := g \<rparr>)) oid a x d
                     (opp_stream_version (cv_opportunity x) + 1) (to_utc clock))))"

section \<open>The joint system\<close>

text \<open>
  The steps that change the state: those of the gateway, of the suppression table and its contacts, changes of the tables that are only
  read, and the two commits, each after an answer of the gateway, which is in its table by then.
\<close>

inductive compliance_step :: "compliance_db \<Rightarrow> compliance_db \<Rightarrow> bool" where
  gateway: "gateway_step (cd_gateway s) g \<Longrightarrow> compliance_step s (s\<lparr> cd_gateway := g \<rparr>)"
| suppression: "suppression_step (suppression_db.truncate s) db \<Longrightarrow>
    compliance_step s (s\<lparr> sd_contacts := sd_contacts db, sd_suppressions := sd_suppressions db \<rparr>)"
| reference: "compliance_step s (s\<lparr> cd_suppliers := suppliers, cd_profiles := profiles, cd_artifacts := artifacts \<rparr>)"
| recorded: "evaluation_of (cd_gateway s) (pd_evaluation_id d) = Some row \<Longrightarrow> pd_executable (pe_decision row) \<Longrightarrow>
    clean_str 64 (pd_evaluation_id d) \<Longrightarrow>
    commit_compliance env cs s oid v d expected captured_at = Inr (s', w) \<Longrightarrow> compliance_step s s'"
| blocked: "evaluation_of (cd_gateway s) (pd_evaluation_id d) = Some row \<Longrightarrow> \<not> pd_executable (pe_decision row) \<Longrightarrow>
    commit_compliance_blocked s v d expected captured_at = Inr (s', w) \<Longrightarrow> compliance_step s s'"

section \<open>What stays\<close>

definition gateway_grows :: "gateway_db \<Rightarrow> gateway_db \<Rightarrow> bool" where
  "gateway_grows g g' \<longleftrightarrow> (\<forall>i row. evaluation_of g i = Some row \<longrightarrow> evaluation_of g' i = Some row) \<and>
     set (g_evaluations g) \<subseteq> set (g_evaluations g') \<and>
     (\<forall>oid. set (event_rows (sys_db (g_system g)) oid) \<subseteq> set (event_rows (sys_db (g_system g')) oid))"

lemma gateway_grows_refl [simp]: "gateway_grows g g" by (simp add: gateway_grows_def)

lemma gateway_grows_trans: "gateway_grows g g' \<Longrightarrow> gateway_grows g' g'' \<Longrightarrow> gateway_grows g g''"
  unfolding gateway_grows_def by (meson subset_trans)

text \<open>A row with its authority and its event.\<close>

definition authorised :: "gateway_db \<Rightarrow> assessment_write \<Rightarrow> bool" where
  "authorised g w \<longleftrightarrow> wf_assessment w \<and>
     (\<exists>row. evaluation_of g (cw_policy_evaluation_id w) = Some row \<and> pd_executable (pe_decision row) = (cw_disposition w = RECORDED)) \<and>
     (case cw_disposition w of
        RECORDED \<Rightarrow> (\<exists>e \<in> set (event_rows (sys_db (g_system g)) (cw_acquisition_opportunity_id w)).
          cw_recorded_event_id w = Some (ev_event_id e) \<and> ev_idempotency_key e = ''compliance_next_action:'' @ cw_policy_evaluation_id w)
      | POLICY_BLOCKED \<Rightarrow> cw_recorded_event_id w = None)"

lemma authorised_mono: "gateway_grows g g' \<Longrightarrow> authorised g w \<Longrightarrow> authorised g' w"
  unfolding authorised_def gateway_grows_def by (cases "cw_disposition w") (auto; blast)+

definition assessments_ok :: "compliance_db \<Rightarrow> bool" where
  "assessments_ok s \<longleftrightarrow> gateway_ok (cd_gateway s) \<and> list_all (authorised (cd_gateway s)) (cd_assessments s) \<and>
     distinct (map cw_policy_evaluation_id (cd_assessments s)) \<and>
     distinct (concat (map (opt_list \<circ> cw_recorded_event_id) (cd_assessments s)))"

lemma assessments_ok_grow:
  assumes "assessments_ok s" and "gateway_ok (cd_gateway s')" and "gateway_grows (cd_gateway s) (cd_gateway s')"
    and "cd_assessments s' = cd_assessments s"
  shows "assessments_ok s'"
  using assms authorised_mono [OF assms(3)] by (auto simp: assessments_ok_def list_all_iff)

lemma append_assessment_ok:
  assumes ok: "assessments_ok s" and run: "append_assessment s w = Inr (s', r)" and w: "wf_assessment w \<Longrightarrow> authorised (cd_gateway s) w"
  shows "assessments_ok s' \<and> cd_gateway s' = cd_gateway s"
proof (cases "s' = s")
  case False
  then have s': "s' = s\<lparr> cd_assessments := cd_assessments s @ [w] \<rparr>" and wf: "wf_assessment w"
    and new: "cw_policy_evaluation_id w \<notin> cw_policy_evaluation_id ` set (cd_assessments s)" "assessment_references_ok s w"
    using run by (auto simp: append_assessment_def assessment_of_policy_def find_None_iff split: if_split_asm option.split_asm)
  have "set (opt_list (cw_recorded_event_id w)) \<inter> set (concat (map (opt_list \<circ> cw_recorded_event_id) (cd_assessments s))) = {}"
    using new(2) by (auto simp: assessment_references_ok_def opt_list_def list_all_iff split: option.split_asm)
  moreover have "distinct (opt_list (cw_recorded_event_id w))" by (simp add: opt_list_def split: option.split)
  ultimately show ?thesis
    using ok w [OF wf] new(1) by (simp add: s' assessments_ok_def Int_commute)
qed (use ok in simp)

lemma built_opportunity_id:
  assumes "build_compliance cs p loaded t = Inr v"
  shows "ci_acquisition_opportunity_id (cv_input v) = py_strip (opp_acquisition_opportunity_id p)"
  using assms by (auto simp: build_compliance_def Let_def ComplianceInput_def strip_compliance_input_def split: prod.split_asm if_split_asm)

lemma commit_compliance_ok:
  assumes ok: "assessments_ok s" and row: "evaluation_of (cd_gateway s) (pd_evaluation_id d) = Some row" "pd_executable (pe_decision row)"
    and clean: "clean_str 64 (pd_evaluation_id d)" and run: "commit_compliance env cs s oid v d expected captured_at = Inr (s', w)"
  shows "assessments_ok s' \<and> gateway_grows (cd_gateway s) (cd_gateway s')"
proof -
  obtain current loaded rebuilt db mutation where step:
    "get_opportunity (cd_journal s) oid = Inr current" "build_compliance cs current loaded captured_at = Inr rebuilt"
    "append_event env (cd_journal s) oid (compliance_args (cv_proposal rebuilt) d expected captured_at) = Inr (db, mutation)"
    and w: "w = compliance_write rebuilt d RECORDED captured_at expected (Some (ev_event_id (mr_event mutation)))"
    and ap: "append_assessment (set_cd_journal db s) w = Inr (s', w)"
    using run by (rule commit_complianceE)
  let ?g = "cd_gateway s" and ?s = "set_cd_journal db s" and ?key = "''compliance_next_action:'' @ pd_evaluation_id d"
  have g: "gateway_ok ?g" using ok by (simp add: assessments_ok_def)
  then have db: "db_ok (cd_journal s)" using reachable_ok by (auto simp: gateway_ok_def sys_ok_def)
  have key: "py_strip ?key = ?key" by (rule clean_prefix [OF clean]) (simp_all add: is_space_def)
  have grows: "journal_grows (g_system ?g) ((g_system ?g)\<lparr> sys_db := db \<rparr>)"
    using append_event_steps [OF step(3)] by (rule sys_steps_grow)
  have event: "round_event (mr_event mutation) \<in> set (event_rows db oid)" "ev_idempotency_key (mr_event mutation) = ?key"
    using append_event_stored [OF db step(3)] key find_Some_set by (fastforce simp: compliance_args_def)+
  have oid: "ci_acquisition_opportunity_id (cv_input rebuilt) = oid"
    using built_opportunity_id [OF step(2)] stored_opportunity [OF db step(1)] by simp
  have gate: "gateway_ok (cd_gateway ?s)" "gateway_grows ?g (cd_gateway ?s)"
    using gateway_ok_grow [OF g grows] journal_grows_rows [OF grows]
    by (simp_all add: gateway_grows_def set_cd_journal_def set_journal_def evaluation_of_def)
  have "authorised (cd_gateway ?s) w" if "wf_assessment w"
    using that row bexI [OF _ event(1), of "\<lambda>e. ev_event_id (mr_event mutation) = ev_event_id e \<and> ev_idempotency_key e = ?key"] event(2)
    by (simp add: authorised_def w compliance_write_def Let_def oid set_cd_journal_def set_journal_def evaluation_of_def)
  moreover have "assessments_ok ?s"
    by (rule assessments_ok_grow [OF ok gate]) (simp add: set_cd_journal_def)
  ultimately show ?thesis using append_assessment_ok [OF _ ap] gate(2) by simp
qed

lemma commit_blocked_ok:
  assumes "assessments_ok s" and "evaluation_of (cd_gateway s) (pd_evaluation_id d) = Some row" and "\<not> pd_executable (pe_decision row)"
    and "commit_compliance_blocked s v d expected t = Inr (s', w)"
  shows "assessments_ok s' \<and> cd_gateway s' = cd_gateway s"
proof -
  have "append_assessment s (compliance_write v d POLICY_BLOCKED t expected None) = Inr (s', w)"
    using assms(2,4) by (simp add: commit_compliance_blocked_def split: if_split_asm)
  then show ?thesis
    by (rule append_assessment_ok [OF assms(1)]) (simp add: authorised_def compliance_write_def Let_def assms(2,3))
qed

lemma compliance_step_ok: "compliance_step s s' \<Longrightarrow> assessments_ok s \<Longrightarrow> assessments_ok s' \<and> gateway_grows (cd_gateway s) (cd_gateway s')"
proof (induction rule: compliance_step.induct)
  case (gateway s g)
  have ok: "gateway_ok (cd_gateway s)" using gateway.prems by (simp add: assessments_ok_def)
  have "gateway_grows (cd_gateway s) g" using gateway_step_grows [OF gateway.hyps ok] by (simp add: gateway_grows_def)
  then show ?case using assessments_ok_grow [OF gateway.prems] gateway_step_ok [OF gateway.hyps ok] by simp
next
  case (recorded s d row env cs oid v expected captured_at s' w)
  then show ?case using commit_compliance_ok by blast
next
  case (blocked s d row v expected captured_at s' w)
  then show ?case using commit_blocked_ok by (metis gateway_grows_refl)
qed (simp_all add: assessments_ok_def)

lemma compliance_steps_ok:
  "compliance_step\<^sup>*\<^sup>* s s' \<Longrightarrow> assessments_ok s \<Longrightarrow> assessments_ok s' \<and> gateway_grows (cd_gateway s) (cd_gateway s')"
  by (induction rule: rtranclp_induct) (auto dest: compliance_step_ok intro: gateway_grows_trans)

section \<open>The run takes steps of the system\<close>

lemma existing_answer:
  assumes "existing_assessment fx s oid a = Some (Inr w)"
  shows "w \<in> set (cd_assessments s) \<and> cw_policy_evaluation_id w = au_evaluation_id a \<and> cw_acquisition_opportunity_id w = oid"
  using assms
  by (auto simp: existing_assessment_def assessment_of_policy_def require_existing_def Let_def split: if_split_asm dest: find_Some_set)

lemma await_answer:
  assumes "await_concurrent fx looks oid a = Inr w"
  shows "\<exists>x \<in> set looks. w \<in> set (cd_assessments x) \<and> cw_policy_evaluation_id w = au_evaluation_id a \<and> cw_acquisition_opportunity_id w = oid"
proof -
  obtain x where x: "List.find (\<lambda>s. existing_assessment fx s oid a \<noteq> None) (take 100 looks) = Some x"
      "the (existing_assessment fx x oid a) = Inr w"
    using assms by (auto simp: await_concurrent_def split: option.split_asm)
  then have "x \<in> set looks" "existing_assessment fx x oid a = Some (Inr w)"
    using find_Some_set [OF x(1)] by (auto dest: in_set_takeD)
  then show ?thesis using existing_answer by blast
qed

lemma conclude_assessment_steps:
  assumes row: "evaluation_of (cd_gateway s) (pd_evaluation_id d) = Some row" "pd_executable (pe_decision row) = pd_executable d"
    and clean: "clean_str 64 (pd_evaluation_id d)" and id: "pd_evaluation_id d = au_evaluation_id a"
    and run: "conclude_assessment fx env cs looks s oid a v d expected captured_at = (s', result)"
  shows "compliance_step\<^sup>*\<^sup>* s s' \<and> (\<forall>w. result = Inr w \<longrightarrow> cw_policy_evaluation_id w = au_evaluation_id a \<and>
    (\<exists>x \<in> insert s' (set looks). w \<in> set (cd_assessments x)))"
proof (cases "pd_executable d")
  case False
  show ?thesis
  proof (cases "commit_compliance_blocked s v d expected captured_at")
    case (Inr x)
    obtain s2 w where x: "x = (s2, w)" by force
    have ap: "append_assessment s (compliance_write v d POLICY_BLOCKED captured_at expected None) = Inr (s2, w)"
      using Inr x by (auto simp: commit_compliance_blocked_def split: option.split_asm if_split_asm)
    then have "w \<in> set (cd_assessments s2)" "cw_policy_evaluation_id w = pd_evaluation_id d"
      using append_assessment_Inr(1,4) [OF ap] by (simp_all add: compliance_write_def Let_def)
    moreover have "compliance_step s s2" using blocked [OF row(1)] row(2) False Inr x by blast
    ultimately show ?thesis using run False Inr x id by (auto simp: conclude_assessment_def committed_def)
  qed (use run False in \<open>auto simp: conclude_assessment_def committed_def\<close>)
next
  case True
  show ?thesis
  proof (cases "commit_compliance env cs s oid v d expected captured_at")
    case (Inl e)
    then show ?thesis
      using run True await_answer [of fx looks oid a]
      by (auto simp: conclude_assessment_def committed_def split: compliance_service_error.split_asm)
  next
    case (Inr x)
    obtain s2 w where x: "x = (s2, w)" by force
    note commit = Inr [unfolded x]
    have "w \<in> set (cd_assessments s2)" "cw_policy_evaluation_id w = pd_evaluation_id d"
      using commit by (auto simp: compliance_write_def Let_def elim!: commit_complianceE dest: append_assessment_Inr(4))
    moreover have "compliance_step s s2" using recorded [OF row(1) _ clean commit] row(2) True by simp
    ultimately show ?thesis using run True commit id by (auto simp: conclude_assessment_def committed_def)
  qed
qed

lemma built_request_id: "built_request cs s oid a t = Inr (v, request) \<Longrightarrow> rq_evaluation_id request = au_evaluation_id a"
  by (auto simp: built_request_def compliance_request_def assessment_request_def Let_def split: if_split_asm)

lemma assess_steps:
  assumes ok: "assessments_ok s" and clean: "clean_str 64 (au_evaluation_id a)"
    and views: "set (g_evaluations (vw_prepared v)) \<subseteq> set (g_evaluations (cd_gateway s))"
      "set (g_evaluations (vw_read v)) \<subseteq> set (g_evaluations (cd_gateway s))"
    and later: "\<And>x. compliance_step\<^sup>*\<^sup>* x (later x)"
    and run: "assess fx audit_env env cs v later s oid a usage clock = (s', result)"
  shows "compliance_step\<^sup>*\<^sup>* s s' \<and> (\<forall>w. result = Inr w \<longrightarrow> cw_policy_evaluation_id w = au_evaluation_id a \<and>
    (\<exists>x \<in> {vw_lookup v, s'} \<union> set (vw_after v). w \<in> set (cd_assessments x)))"
proof (cases "existing_assessment fx (vw_lookup v) oid a")
  case (Some answer)
  then have "s' = s" "answer = result" using run by (simp_all add: assess_def)
  then show ?thesis using existing_answer [of fx "vw_lookup v" oid a] Some by blast
next
  case None
  let ?t = "to_utc clock"
  show ?thesis
  proof (cases "evaluation_of (cd_gateway (vw_lookup v)) (au_evaluation_id a) \<noteq> None \<or> \<not> is_aware clock \<or>
      (\<exists>e. built_request cs (vw_loaded v) oid a ?t = Inl e)")
    case True
    then have "s' = s \<and> (\<forall>w. result \<noteq> Inr w)" using run None by (auto simp: assess_def split: if_split_asm)
    then show ?thesis by simp
  next
    case False
    then obtain x request where built: "built_request cs (vw_loaded v) oid a ?t = Inr (x, request)"
      by (cases "built_request cs (vw_loaded v) oid a ?t") auto
    note id = built_request_id [OF built]
    define answer where "answer = evaluate_and_record (fx_pair fx) audit_env (vw_prepared v) (vw_read v) (cd_gateway s) request ?t usage None (Dec False 0 0)"
    note run' = run [unfolded assess_def None option.case, folded answer_def] 
    show ?thesis
    proof (cases answer)
      case (Inl e)
      then have "s' = s" "result = Inr w \<Longrightarrow> await_concurrent fx (vw_after v) oid a = Inr w" for w
        using run' False built by (auto simp: answer_def split: gateway_error.split_asm acq_error.split_asm)
      then show ?thesis using await_answer [of fx "vw_after v" oid a] by blast
    next
      case (Inr y)
      obtain g d where y: "y = (g, d)" by force
      let ?s1 = "s\<lparr> cd_gateway := g \<rparr>"
      note answered = Inr [unfolded y answer_def]
      have "clean_request request" using clean id by (auto simp: clean_request_def clean_str_def)
      then have "gateway_step (cd_gateway s) g" using answered by (rule evaluation)
      then have step: "compliance_step s ?s1" by (rule gateway)
      obtain row where row: "evaluation_of g (rq_evaluation_id request) = Some row" "pd_executable (pe_decision row) = pd_executable d"
          "pd_evaluation_id d = rq_evaluation_id request"
        using answer_stored [OF _ answered views] ok by (auto simp: assessments_ok_def)
      have "gateway_grows g (cd_gateway (later ?s1))"
        using compliance_steps_ok [OF later [of ?s1]] compliance_step_ok [OF step ok] by simp
      then have kept: "evaluation_of (cd_gateway (later ?s1)) (pd_evaluation_id d) = Some row"
        using row by (simp add: gateway_grows_def)
      have "conclude_assessment fx env cs (vw_after v) (later ?s1) oid a x d (opp_stream_version (cv_opportunity x) + 1) ?t = (s', result)"
        using run' False built answered by simp
      then have out: "compliance_step\<^sup>*\<^sup>* (later ?s1) s' \<and> (\<forall>w. result = Inr w \<longrightarrow> cw_policy_evaluation_id w = au_evaluation_id a \<and>
          (\<exists>x \<in> insert s' (set (vw_after v)). w \<in> set (cd_assessments x)))"
        using conclude_assessment_steps [OF kept row(2)] row(3) id clean by simp
      have "compliance_step\<^sup>*\<^sup>* s (later ?s1)"
        using step later [of ?s1] by (rule converse_rtranclp_into_rtranclp)
      then have "compliance_step\<^sup>*\<^sup>* s s'" using conjunct1 [OF out] by (rule rtranclp_trans)
      then show ?thesis using conjunct2 [OF out] by blast
    qed
  qed
qed

section \<open>Property\<close>

definition no_assessments :: "compliance_db \<Rightarrow> bool" where
  "no_assessments s \<longleftrightarrow> cd_gateway s = empty_gateway \<and> cd_assessments s = []"

lemma assessed_ok:
  assumes "no_assessments s0" and "compliance_step\<^sup>*\<^sup>* s0 s" shows "assessments_ok s"
proof -
  have "gateway_ok empty_gateway" by (rule gateway_steps_ok) simp
  then have "assessments_ok s0" using assms(1) by (simp add: no_assessments_def assessments_ok_def)
  then show ?thesis using compliance_steps_ok [OF assms(2)] by blast
qed

text \<open>
  C36. A run of the compliance service is a history of the joint system. Whatever its reads see of earlier states and whatever other
  processes do between the answer of the gateway and the commit, suppressions and key rotations included, the state it leaves, returning
  or raising, is one that the steps of the system reach. In that state every assessment belongs to one policy evaluation, executable exactly when
  the assessment is recorded, and a recorded one to an event of the journal under the key of that evaluation. And the row a run returns
  is such an assessment under the id it was authorised with, its own or that of an earlier or concurrent run.
\<close>

theorem assess_is_history:
  assumes "no_assessments s0" and "compliance_step\<^sup>*\<^sup>* s0 (vw_lookup v)" and "compliance_step\<^sup>*\<^sup>* s0 s"
    and "\<forall>x \<in> set (vw_after v). compliance_step\<^sup>*\<^sup>* s0 x"
    and "set (g_evaluations (vw_prepared v)) \<subseteq> set (g_evaluations (cd_gateway s))"
    and "set (g_evaluations (vw_read v)) \<subseteq> set (g_evaluations (cd_gateway s))"
    and "clean_str 64 (au_evaluation_id a)" and "\<And>x. compliance_step\<^sup>*\<^sup>* x (later x)"
    and "assess fx audit_env env cs v later s oid a usage clock = (s', result)"
  shows "compliance_step\<^sup>*\<^sup>* s s' \<and> list_all (authorised (cd_gateway s')) (cd_assessments s') \<and>
    distinct (map cw_policy_evaluation_id (cd_assessments s')) \<and>
    (\<forall>w. result = Inr w \<longrightarrow> cw_policy_evaluation_id w = au_evaluation_id a \<and>
      (\<exists>x. compliance_step\<^sup>*\<^sup>* s0 x \<and> w \<in> set (cd_assessments x) \<and> authorised (cd_gateway x) w))"
proof -
  note both = assess_steps [OF assessed_ok [OF assms(1,3)] assms(7,5,6,8,9)]
  note steps = conjunct1 [OF both] and answer = conjunct2 [OF both]
  have reached: "compliance_step\<^sup>*\<^sup>* s0 s'" using assms(3) steps by (rule rtranclp_trans)
  then have ok: "list_all (authorised (cd_gateway s')) (cd_assessments s')" "distinct (map cw_policy_evaluation_id (cd_assessments s'))"
    using assessed_ok [OF assms(1)] by (simp_all add: assessments_ok_def)
  have held: "\<exists>x. compliance_step\<^sup>*\<^sup>* s0 x \<and> w \<in> set (cd_assessments x) \<and> authorised (cd_gateway x) w" if res: "result = Inr w" for w
  proof -
    obtain x where x: "x \<in> {vw_lookup v, s'} \<union> set (vw_after v)" "w \<in> set (cd_assessments x)" using answer [rule_format, OF res] by (elim conjE bexE)
    then have from_start: "compliance_step\<^sup>*\<^sup>* s0 x" using assms(2,4) reached by auto
    then show ?thesis
      using x(2) assessed_ok [OF assms(1) from_start] by (intro exI [of _ x]) (simp add: assessments_ok_def list_all_iff)
  qed
  show ?thesis
  proof (intro conjI allI impI)
    fix w assume "result = Inr w"
    then show "cw_policy_evaluation_id w = au_evaluation_id a" using answer by simp
  qed (rule steps ok held | assumption)+
qed

section \<open>A sample run\<close>

definition sample_idle :: compliance_db where
  "sample_idle = sample_compliance\<lparr> cd_gateway := empty_gateway \<rparr>"

definition sample_assessor :: compliance_authorization where
  "sample_assessor = \<lparr> au_evaluation_id = ''eval'', au_request_id = ''req'', au_actor_type = ''SYSTEM'', au_actor_ref = None,
     au_qa_signal_ref = None, au_scope = rq_scope sample_query, au_currency = ''CHF'', au_evidence = rq_evidence sample_query,
     au_operational = rq_operational sample_query, au_expected_policy_version = POLICY_VERSION, au_approval_grants = [],
     au_supervisor_plan_id = None, au_supervisor_action_index = None, au_supervisor_version = None, au_skill_version = None \<rparr>"

definition all_seen :: "compliance_db \<Rightarrow> compliance_views" where
  "all_seen s = \<lparr> vw_lookup = s, vw_loaded = s, vw_prepared = cd_gateway s, vw_read = cd_gateway s, vw_after = [s] \<rparr>"

lemma coherent_blocked:
  "coherent_result (cv_proposal v) \<Longrightarrow> coherent_assessment (compliance_write v d POLICY_BLOCKED t n None)"
  by (cases "cp_state (cv_proposal v)") (simp_all add: coherent_assessment_def coherent_result_def compliance_write_def Let_def)

lemma lift_gateway_steps: "gateway_step\<^sup>*\<^sup>* g g' \<Longrightarrow> compliance_step\<^sup>*\<^sup>* (s\<lparr> cd_gateway := g \<rparr>) (s\<lparr> cd_gateway := g' \<rparr>)"
proof (induction rule: rtranclp_induct)
  case (step g' g'')
  then have "compliance_step (s\<lparr> cd_gateway := g' \<rparr>) (s\<lparr> cd_gateway := g'' \<rparr>)"
    using gateway [of "s\<lparr> cd_gateway := g' \<rparr>" g''] by simp
  then show ?case using step.IH by (rule rtranclp.rtrancl_into_rtrancl [rotated])
qed simp

lemma sample_blocked_facts:
  "is_fingerprint (pd_action_fingerprint sample_answer)" "pd_request_id sample_answer = ''req''"
  "clean_str 256 ''eval''"
  "varchar_ok 64 ''opp-1'' \<and> varchar_ok 64 ''eval'' \<and> varchar_ok 64 ''art'' \<and> varchar_ok 64 ''sup'' \<and> varchar_ok 64 ''con''"
  by code_simp+

lemma sample_blocked_assessment:
  obtains g row w where "evaluation_of g ''eval'' = Some row" "decision_values sample_answer ''f'' = Some row"
    "g_controls g = [sample_control 1 (CHR ''a'')]" "gateway_ok g" "cw_policy_evaluation_id w = ''eval''" "cw_disposition w = POLICY_BLOCKED"
    "cw_acquisition_opportunity_id w = ''opp-1''" "cw_compliance_assessment_id w = compliance_assessment_id ''eval''"
    "compliance_step\<^sup>*\<^sup>* sample_idle (sample_idle\<lparr> cd_gateway := g, cd_assessments := [w] \<rparr>)"
proof -
  obtain g row where g: "gateway_step\<^sup>*\<^sup>* empty_gateway g" "g_evaluations g = [row]" "decision_values sample_answer ''f'' = Some row"
      "g_controls g = [sample_control 1 (CHR ''a'')]" "opportunity_row (sys_db (g_system g)) ''opp-1'' \<noteq> None"
    using sample_recorded_reached by blast
  let ?s = "sample_idle\<lparr> cd_gateway := g \<rparr>"
  have reach: "compliance_step\<^sup>*\<^sup>* sample_idle ?s"
    using lift_gateway_steps [OF g(1), of sample_idle] by (simp add: sample_idle_def)
  have row: "evaluation_of g ''eval'' = Some row" "pe_decision row = round_decision sample_answer"
    using g(2,3) decision_values_ids(1) [OF g(3)] sample_answer_ok(3)
    by (auto simp: evaluation_of_def decision_values_def round_decision_def split: if_split_asm)
  obtain v0 where "build_compliance sample_process sample_assessing sample_loaded_compliance sample_assessed = Inr v0"
      "cp_next_action (cv_proposal v0) = cp_next_action sample_schedule" "cp_reason_codes (cv_proposal v0) = cp_reason_codes sample_schedule"
      "cp_evidence_refs (cv_proposal v0) = cp_evidence_refs sample_schedule"
    and v0: "ci_acquisition_opportunity_id (cv_input v0) = ''opp-1''" "ci_supplier_ref (cv_input v0) = ''sup''"
      "ci_contact_ref (cv_input v0) = ''con''" "ci_personalization_artifact_id (cv_input v0) = ''art''"
      "is_fingerprint (cv_action_fingerprint v0)" "coherent_result (cv_proposal v0)"
    by (rule sample_compliance_built)
  define v where "v = v0\<lparr> cv_action_fingerprint := pd_action_fingerprint sample_answer \<rparr>"
  let ?w = "compliance_write v sample_answer POLICY_BLOCKED sample_assessed 2 None"
  have fields: "cw_policy_evaluation_id ?w = ''eval''" "cw_disposition ?w = POLICY_BLOCKED" "cw_acquisition_opportunity_id ?w = ''opp-1''"
      "cw_compliance_assessment_id ?w = compliance_assessment_id ''eval''" "cw_recorded_event_id ?w = None"
      "cw_policy_action_fingerprint ?w = pd_action_fingerprint sample_answer" "cw_expected_post_policy_version ?w = 2"
      "cw_supplier_ref ?w = ''sup''" "cw_contact_ref ?w = ''con''" "cw_personalization_artifact_id ?w = ''art''"
    by (simp_all add: compliance_write_def Let_def v_def v0 sample_answer_ok(3))
  have coherent: "coherent_assessment ?w" by (rule coherent_blocked) (simp add: v_def v0)
  have "append_assessment ?s ?w = Inr (?s\<lparr> cd_assessments := [?w] \<rparr>, ?w)"
    using row(1) g(5) coherent sample_blocked_facts
    by (simp add: append_assessment_def assessment_of_policy_def wf_assessment_def fields assessment_columns_ok_def assessment_references_ok_def
        opt_all_def sample_idle_def sample_compliance_def sample_assessing_fields sample_artifact_def Let_def)
  then have "commit_compliance_blocked ?s v sample_answer 2 sample_assessed = Inr (?s\<lparr> cd_assessments := [?w] \<rparr>, ?w)"
    using row sample_answer_ok(3) by (simp add: commit_compliance_blocked_def round_decision_def v_def)
  then have "compliance_step ?s (?s\<lparr> cd_assessments := [?w] \<rparr>)"
    using blocked [of ?s sample_answer row] row sample_answer_ok(3) sample_refused(1) by (simp add: round_decision_def)
  then have "compliance_step\<^sup>*\<^sup>* sample_idle (?s\<lparr> cd_assessments := [?w] \<rparr>)" using reach by simp
  then show thesis using that [OF row(1) g(3,4) gateway_steps_ok [OF g(1)] fields(1-4)] by simp
qed

lemma sample_idle_empty: "no_assessments sample_idle" by (simp add: no_assessments_def sample_idle_def sample_compliance_def)

lemma sample_existing:
  assumes row: "evaluation_of g ''eval'' = Some row" "decision_values sample_answer ''f'' = Some row"
    and g: "g_controls g = [sample_control 1 (CHR ''a'')]" "gateway_ok g" and s: "cd_gateway s = g" "cd_assessments s = [w]"
    and w: "cw_policy_evaluation_id w = ''eval''" "cw_acquisition_opportunity_id w = ''opp-1''"
      "cw_compliance_assessment_id w = compliance_assessment_id ''eval''"
  shows "existing_assessment sample_hashes s ''opp-1'' sample_assessor = Some (Inr w)"
proof -
  have stored: "decision_from_row row = round_decision sample_answer" "pe_semantic_fingerprint row = ''f''" "pe_decision row = round_decision sample_answer"
    using row(2) by (auto simp: decision_values_def round_decision_def decision_from_row_def split: if_split_asm)
  have control: "get_control [sample_control 1 (CHR ''a'')] [CHR ''a''] = Inr (sample_control 1 (CHR ''a''))" by code_simp
  have "row \<in> set (g_evaluations g)" using row(1) unfolding evaluation_of_def by (auto dest: find_Some_set)
  then have "audited g row" using g(2) by (simp add: gateway_ok_def list_all_iff)
  then have "policy_event_of s ''opp-1'' ''eval'' \<noteq> None"
    using sample_answer_ok(3,4) by (auto simp: audited_def policy_event_of_def find_None_iff stored(3) round_decision_def s(1) audit_key_def)
  then obtain e where e: "policy_event_of s ''opp-1'' ''eval'' = Some e" by auto
  have "require_existing sample_hashes s w ''opp-1'' sample_assessor = Inr ()"
    using row(1) g(1) stored sample_answer_ok(2) control sample_refused(4-7) w sample_blocked_facts(2) e s(1)
    by (simp add: require_existing_def Let_def sample_assessor_def round_decision_def gateway_snapshot_def sample_hashes_def
        BudgetUsage_ok_def sample_control_def ensure_def is_aware_def assess_control_def)
  then show ?thesis using w(1) by (simp add: existing_assessment_def assessment_of_policy_def s(2) sample_assessor_def)
qed

theorem assess_is_history_witness:
  "\<exists>s w. compliance_step\<^sup>*\<^sup>* sample_idle s \<and> assess sample_hashes sample_env2 sample_env2 sample_process (all_seen s) (\<lambda>x. x) s ''opp-1''
       sample_assessor sample_usage sample_clock = (s, Inr w) \<and> cw_disposition w = POLICY_BLOCKED \<and>
     (\<exists>x. compliance_step\<^sup>*\<^sup>* sample_idle x \<and> w \<in> set (cd_assessments x) \<and> authorised (cd_gateway x) w)"
proof -
  obtain g row w where facts: "evaluation_of g ''eval'' = Some row" "decision_values sample_answer ''f'' = Some row"
    "g_controls g = [sample_control 1 (CHR ''a'')]" "gateway_ok g" and w: "cw_policy_evaluation_id w = ''eval''" "cw_disposition w = POLICY_BLOCKED"
    "cw_acquisition_opportunity_id w = ''opp-1''" "cw_compliance_assessment_id w = compliance_assessment_id ''eval''"
    and s: "compliance_step\<^sup>*\<^sup>* sample_idle (sample_idle\<lparr> cd_gateway := g, cd_assessments := [w] \<rparr>)"
    by (rule sample_blocked_assessment)
  let ?s = "sample_idle\<lparr> cd_gateway := g, cd_assessments := [w] \<rparr>"
  have "existing_assessment sample_hashes ?s ''opp-1'' sample_assessor = Some (Inr w)"
    by (rule sample_existing [OF facts _ _ w(1,3,4)]) simp_all
  then have run: "assess sample_hashes sample_env2 sample_env2 sample_process (all_seen ?s) (\<lambda>x. x) ?s ''opp-1''
       sample_assessor sample_usage sample_clock = (?s, Inr w)"
    by (simp add: assess_def all_seen_def)
  have clean: "clean_str 64 (au_evaluation_id sample_assessor)" by code_simp
  have views: "compliance_step\<^sup>*\<^sup>* sample_idle (vw_lookup (all_seen ?s))" "\<forall>x \<in> set (vw_after (all_seen ?s)). compliance_step\<^sup>*\<^sup>* sample_idle x"
      "set (g_evaluations (vw_prepared (all_seen ?s))) \<subseteq> set (g_evaluations (cd_gateway ?s))"
      "set (g_evaluations (vw_read (all_seen ?s))) \<subseteq> set (g_evaluations (cd_gateway ?s))"
    using s by (simp_all add: all_seen_def)
  have "\<exists>x. compliance_step\<^sup>*\<^sup>* sample_idle x \<and> w \<in> set (cd_assessments x) \<and> authorised (cd_gateway x) w"
    using assess_is_history [OF sample_idle_empty views(1) s views(2-4) clean rtranclp.rtrancl_refl run] by simp
  then show ?thesis using s run w(2) by blast
qed

end
