(* ===== verification/Spec2Isabelle.thy ===== *)
theory Spec2Isabelle
  imports PolicyGateway PolicyBootstrap OpsObserver OpsHealth ModelBudget RunnerProps FeedHistory ComplianceAssess
begin

text \<open>
  \<^bold>\<open>The verified core of the Kivou acquisition engine\<close>

  Kivou finds commercial opportunities in public signals and, for some of them, contacts suppliers by
  e-mail. What it may do is bounded by three cooperating parts under \<open>src/src/signals\<close>, which this
  library models and verifies: the event-sourced state of each opportunity (\<open>acquisition/\<close>), the
  policy that authorises every command (\<open>policy/\<close>), and the operations layer that watches the
  outcomes and lowers or stops that authority (\<open>operations/\<close>). The work itself is done by a
  leased runtime that drives one cycle of stages per opportunity (\<open>acquisition_runtime/\<close>), and the
  spending on language models is bounded by a ledger of its own (\<open>model_runtime/\<close>). Whether an opportunity is worth a
  message is decided from its public dates (\<open>decision_engine/\<close>, \<open>recency/\<close>), whether the message may be sent to that
  contact by the rules of its country and the suppression table (\<open>compliance/\<close>); and the same dates decide what a
  customer sees in the feed (\<open>feed/\<close>). Paths below are relative to \<open>src/src/signals\<close>.

  \<^bold>\<open>How the parts interact.\<close> A command is evaluated by the policy gateway against a snapshot
  of the control in force; the decision is stored together with an audit event in the journal of the
  opportunity. The journal is the truth, the projection of an opportunity is its replay. Controls are
  an append-only log of revisions; the safety controller, the QA window and the bootstrap append to
  it by compare-and-set. The observer turns transport facts into incidents, and for each incident
  calls the safety controller; open incidents block execution and the requeueing of dead letters.
  A run of the runtime acquires the lease with a fencing token, reserves the cost of each stage, obtains a
  proposal from Hermes, calls the handler of the stage and settles the attempt; every write to its tables
  carries the token. Its last observation is what the health service reads.
  The decision engine turns what is known of an opportunity into a proposal, which is authorised by the
  gateway and recorded by the reducer as any other event; its service does so in two transactions and keeps an audit row
  that refers to the policy evaluation and, when recorded, to the event. The compliance service commits its assessments in the same way, after a
  second look at everything it used, the suppressions of the contact included, inside the transaction that sets the next action. The feed reads the materialised signals
  of an account in bounded batches and judges each one by the recency policy at the date of the request.

  \<^bold>\<open>Theories.\<close>
  \<^item> \<open>Prelude\<close>: results, Python strings and containers, the lemma collections. \<open>PyTime\<close>: dates,
    aware datetimes, ISO parsing and printing, instants in microseconds. \<open>PyDecimal\<close>: \<open>Decimal\<close>
    values, 28-digit arithmetic, the rounding of \<open>NUMERIC\<close> columns. \<open>PyJson\<close>: \<open>json.dumps\<close>
    with sorted keys, and SHA-256.
  \<^item> \<open>AcqContracts\<close> (\<open>acquisition/contracts.py\<close>), \<open>AcqState\<close> (\<open>acquisition/state.py\<close>: every
    reducer, \<open>reduce_event\<close>, \<open>replay\<close>), \<open>AcqStore\<close> and \<open>AcqStoreProps\<close>
    (\<open>acquisition/store.py\<close>: both tables, creation, append, verification, rebuilding).
  \<^item> \<open>PolicyContracts\<close> (\<open>policy/contracts.py\<close>, \<open>policy/registry.py\<close>), \<open>PolicyEvaluator\<close>
    (\<open>policy/evaluator.py\<close>), \<open>PolicyControl\<close> (the control log of \<open>policy/store.py\<close>),
    \<open>PolicyGateway\<close> (\<open>policy/gateway.py\<close> and the evaluation table).
  \<^item> \<open>SafetyController\<close>, \<open>QaWindow\<close>, \<open>PolicyBootstrap\<close>: the files of the same names under
    \<open>operations/\<close>, the writers of the control log.
  \<^item> \<open>OpsContracts\<close> (\<open>operations/contracts.py\<close>), \<open>OpsStore\<close> (\<open>operations/store.py\<close>),
    \<open>OpsBreakers\<close> (\<open>circuit_breakers.py\<close>, \<open>dead_letter.py\<close>), \<open>OpsObserver\<close>
    (\<open>observer.py\<close>), \<open>OpsHealth\<close> (\<open>health.py\<close>, \<open>readiness.py\<close>, \<open>evidence.py\<close>,
    \<open>service.py\<close>).
  \<^item> \<open>ModelBudget\<close> (\<open>model_runtime/budget.py\<close>): the ledger that reserves and reconciles the
    daily cost of model calls, an independent part with two tables of its own.

  \<^item> \<open>RuntimeContracts\<close> (\<open>acquisition_runtime/contracts.py\<close>), \<open>RuntimeStore\<close> and
    \<open>RuntimeProps\<close> (\<open>acquisition_runtime/store.py\<close>: the lease, cycles, stages, attempts and
    observations), \<open>RuntimeActions\<close> (\<open>supervisor.py\<close>, \<open>registry.py\<close>, \<open>events.py\<close> of the same
    directory), \<open>RuntimeRunner\<close> and \<open>RunnerProps\<close> (\<open>runner.py\<close>: \<open>run_once\<close> with its exception
    handling).
  \<^item> \<open>Recency\<close> (\<open>recency/policy.py\<close>, \<open>recency/claim.py\<close>, \<open>feed/policy.py\<close>): the three clocks of an award,
    the status derived from them, and the sentences that may be shown. \<open>DecisionEngine\<close>
    (\<open>decision_engine/\<close>: contracts, frozen policy, inputs, ordered rules), \<open>DecisionService\<close>
    (\<open>decision_engine/service.py\<close>, \<open>decision_engine/store.py\<close>: the run that loads, proposes, asks the gateway
    and commits, and its evaluation table).
  \<^item> \<open>Compliance\<close> (\<open>compliance/contracts.py\<close>, \<open>jurisdiction.py\<close>, \<open>rules.py\<close> of the same directory),
    \<open>Suppression\<close> (\<open>suppression.py\<close> and the suppression table of \<open>store.py\<close>), \<open>ComplianceService\<close> (\<open>service.py\<close>:
    loading, building and both commits; the assessment table of \<open>store.py\<close>), \<open>ComplianceAssess\<close> (its run, \<open>assess\<close>,
    with the replay of an earlier assessment).
  \<^item> \<open>FeedModel\<close> (the rows and the displayed identity: \<open>resolve_display_identity\<close> of
    \<open>feed/query.py\<close>, \<open>companies/official_cache.py\<close>, \<open>domain/french_departments.py\<close>), \<open>FeedPage\<close> (\<open>feed_page\<close>)
    and \<open>FeedHistory\<close> (\<open>history_page\<close> and the cursors of \<open>feed/history.py\<close>).

  \<^bold>\<open>How code becomes definitions.\<close> A pydantic model is a record with a validating constructor
  of the same name: it strips and bounds the text and returns the normalised record or an error. A
  table is a record or list of rows together with its constraints; a write returns the new table or
  the error that undoes the transaction. Every raise is a value of an error datatype. A transaction
  that reads and then writes takes what its read saw as a separate argument, so that other
  transactions may commit in between: a prefix of the log for append-only tables, an arbitrary state
  for the operations tables, and pending operations of a step relation for the acquisition store.
  The loops of the safety controller and the QA window run at most three attempts, as the code does,
  each under an \<open>interference\<close>, what other processes do before each statement. A run of the
  runtime is a computation on a world, the tables together with the local variables that its
  exception handlers read; its environment decides at each step what the clocks, Hermes, the handlers
  and the other processes do and which calls raise, applied or not.

  \<^bold>\<open>What is shown.\<close>
  \<^item> State: nothing is sent without a recorded decision to send, outcomes never regress, references
    are written once, and the projection stays well formed.
  \<^item> Store: under interleaved transactions every stored projection is the replay of its journal, a
    version is consumed once, appends and creations are idempotent, verification is exact and
    rebuilding repairs.
  \<^item> Policy: a decision is executable exactly when a declarative permission holds; budget, validity
    and approval bounds; the control log is gap-free, its append is a compare-and-set, and each
    evaluation has exactly one audit event.
  \<^item> Safety: the critical stop blocks everything and, undisturbed, succeeds; downgrades only narrow;
    the QA window is bounded, respects stops and closes into shadow; the bootstrap cannot send.
  \<^item> Operations: incidents and dead letters only advance, an open breaker closes only by its own
    resolution, replays change nothing, requeueing is guarded, retries end, a scan that finds
    critical evidence stops the programme, and readiness never exceeds shadow. Two theorems describe
    defects: a bounce rate with more than eight decimals neither opens the breaker nor lets the scan
    reach the critical events.
  \<^item> Runtime: a lost fencing token never writes again; the spent cost of a cycle is the exact sum of its
    attempts after any history and reservations respect the maximum; a run is a history of the store, so
    this holds of every run however it ends; handlers run in order, once, with the permission and the
    proposal of their stage; the lease is released. Two theorems describe defects: an abandoned cycle
    can be resumed by a runner at work, and an over-budget answer that waits loses its cost.
  \<^item> Model budget: after any history of reservations, successes and failures each daily counter is the
    sum of the journal, to the last decimal, and an admitted reservation stays within the cap.
  \<^item> Recency and decision: the statuses that make an award news are characterised by its dates, no sentence
    announces a win for an award that is not recent; a proposal is a function of the supplier and of the
    one clock that counts, and the reducer accepts it; whatever interleaves, every audit row of the service has its
    authority and its event, and a run is a history of gateway, journal and audit table together. One theorem describes a defect: with a long source
    key the proposal cannot be recorded.
  \<^item> Compliance: the ordered rules always answer, and answer ALLOWED exactly under a permission stated without their order;
    a suppressed address is never clear again, across key rotations; a commit that schedules a campaign found the whole permission
    in its own transaction; a run is a history of gateway, suppressions and assessments together, each assessment backed by its
    authority and its event. A lemma describes a defect: an address with more than sixteen suppressions cannot be matched.
  \<^item> Feed: the batched scan answers what one pass over all rows would, following the cursors of the
    history ends and yields every admitted signal once and in order, and an account sees nothing that depends on others.

  \<^bold>\<open>Interfaces.\<close> The locales state what one part relies on: \<open>descending_pick\<close> (the readers of
  the control log), \<open>lifecycle_table\<close> (incidents and dead letters), \<open>observation\<close> and its extension
  \<open>recording\<close> (what the scan loop needs of an observation), \<open>runtime_contract\<close> (what every operation
  of the runtime store keeps), \<open>run_relation\<close> and its extension \<open>handler_relation\<close> (what every step of
  a run respects), \<open>keyset\<close> (what a cursor owes to the order of the rows it resumes, interpreted on the recent feed and
  on both orders of the history). Each is interpreted on the definitions
  of the model, and the properties use the facts of the interpretations.

  \<^bold>\<open>Bounds and conventions.\<close> Characters are code points up to U+00FF; among them the micro sign and y with diaeresis keep their case. Pydantic's trimming is
  identified with \<open>str.strip\<close>; they differ only on U+001C to U+001F. Timestamps are instants in
  microseconds; years outside 1 to 9999, where Python overflows, are not treated. SHA-256 is defined
  in full, and no theorem assumes that it has no collisions: where one matters it is a hypothesis on
  the stored rows. Columns are those of PostgreSQL. The scans of the feed end by their own row ceilings; the walk of
  the history is given one page more than there are rows, which is proved to be enough.

  \<^bold>\<open>Not modelled.\<close> Of \<open>acquisition_runtime/\<close> the handlers of the stages and their wiring
  (\<open>domain.py\<close>, \<open>execution.py\<close>, \<open>runtime_policy.py\<close>), which call providers and the services of other
  packages, are a parameter of the runner. For the decision service the public context that the register tables resolve to, the
  writers of the company, supplier and contact tables and the hashes of an older encoding are arguments or arbitrary steps. Of the feed the text normalisation over Unicode, the consultation
  scope, the right of the plan and the display object are functions of the caller, a cursor is what its
  base64 text transmits, and the columns shown beside a signal are left out. Of \<open>compliance/\<close> the rules of the
  other product (\<open>milomail_rules.py\<close>) are left out; the writers of suppliers, contacts, profiles and messages are arbitrary. Of \<open>model_runtime/\<close> only the budget is modelled; the routing tables are
  configuration and the provider client is network traffic. The text guards of policy requests are
  not modelled: the evaluator takes validated requests. Campaign orchestration, the supervisor,
  connectors, ingestion, documents, accounts, the HTTP API and the command lines are input and output
  around this core.
\<close>

end
